(* ===== verification/GB_Prelude.thy ===== *)
theory GB_Prelude
  imports Main "HOL-Library.Word" "HOL-Library.Sublist"
begin

section \<open>Shared types, Rust standard-library operations and automation\<close>

text \<open>
  What every component of the model uses: saturating arithmetic on machine words, the
  string operations of Rust's \<open>str\<close> on UTF-8 byte strings, and the generic list lemmas
  the component proofs share.

  A Rust string is a UTF-8 byte sequence, modelled as a \<^typ>\<open>string\<close> whose characters are
  the bytes: \<open>s.len()\<close> is \<open>length s\<close>, and a test for an ASCII character is a test for that
  byte, since no byte of a multi-byte UTF-8 sequence is an ASCII byte.
\<close>

subsection \<open>Collections of facts\<close>

named_theorems str_simps "characteristic equations of the string operations"

named_theorems sat_simps "saturating arithmetic read through unat"

subsection \<open>Machine integers\<close>

type_synonym u64 = "64 word"
type_synonym u8 = "8 word"

definition sat_add :: "'a::len word \<Rightarrow> 'a word \<Rightarrow> 'a word" where
  "sat_add a b = (if unat a + unat b < 2 ^ LENGTH('a) then a + b else - 1)"

definition sat_sub :: "'a::len word \<Rightarrow> 'a word \<Rightarrow> 'a word" where
  "sat_sub a b = (if b \<le> a then a - b else 0)"

definition sat_mul :: "'a::len word \<Rightarrow> 'a word \<Rightarrow> 'a word" where
  "sat_mul a b = (if unat a * unat b < 2 ^ LENGTH('a) then a * b else - 1)"

text \<open>\<open>usize\<close> values that count things are naturals; where the code saturates, so does the model.\<close>

definition USIZE_MAX :: nat where "USIZE_MAX = 2 ^ 64 - 1"

declare USIZE_MAX_def [code del]

definition usize_sat_add :: "nat \<Rightarrow> nat \<Rightarrow> nat" where
  "usize_sat_add a b = min (a + b) USIZE_MAX"

text \<open>Rust's \<open>checked_div\<close>: \<open>None\<close> for a zero divisor.\<close>

definition checked_div :: "'a::len word \<Rightarrow> 'a word \<Rightarrow> 'a word option" where
  "checked_div a b = (if b = 0 then None else Some (a div b))"

lemma unat_sat_add [sat_simps]:
  "unat (sat_add a b) = min (unat a + unat b) (2 ^ LENGTH('a) - 1)"
  for a b :: "'a::len word"
  by (auto simp: sat_add_def unat_add_lem [THEN iffD1] unsigned_minus_1_eq_mask mask_eq_exp_minus_1)

lemma unat_sat_sub [sat_simps]: "unat (sat_sub a b) = unat a - unat b"
  for a b :: "'a::len word"
  by (auto simp: sat_sub_def unat_sub_if' word_le_nat_alt)

lemma unat_sat_mul [sat_simps]:
  "unat (sat_mul a b) = min (unat a * unat b) (2 ^ LENGTH('a) - 1)"
  for a b :: "'a::len word"
  by (auto simp: sat_mul_def unat_mult_lem [THEN iffD1] unsigned_minus_1_eq_mask mask_eq_exp_minus_1)

subsection \<open>Strings\<close>

definition starts_with :: "string \<Rightarrow> string \<Rightarrow> bool" where
  "starts_with s p = prefix p s"

definition ends_with :: "string \<Rightarrow> string \<Rightarrow> bool" where
  "ends_with s p = suffix p s"

definition contains_char :: "string \<Rightarrow> char \<Rightarrow> bool" where
  "contains_char s c = (c \<in> set s)"

fun strip_prefix :: "string \<Rightarrow> string \<Rightarrow> string option" where
  "strip_prefix s [] = Some s"
| "strip_prefix [] (p # ps) = None"
| "strip_prefix (c # s) (p # ps) = (if c = p then strip_prefix s ps else None)"

definition strip_suffix :: "string \<Rightarrow> string \<Rightarrow> string option" where
  "strip_suffix s p = map_option rev (strip_prefix (rev s) (rev p))"

lemma strip_prefix_Some [str_simps]: "strip_prefix s p = Some r \<longleftrightarrow> s = p @ r"
  by (induction s p rule: strip_prefix.induct) auto

lemma strip_prefix_None: "strip_prefix s p = None \<longleftrightarrow> \<not> starts_with s p"
  by (induction s p rule: strip_prefix.induct) (auto simp: starts_with_def)

lemma strip_suffix_Some [str_simps]: "strip_suffix s p = Some r \<longleftrightarrow> s = r @ p"
  unfolding strip_suffix_def map_option_eq_Some strip_prefix_Some
  by (metis rev_append rev_rev_ident)

lemma starts_with_simps [simp]:
  "starts_with s []"
  "\<not> starts_with [] (p # ps)"
  "starts_with (c # s) (p # ps) \<longleftrightarrow> c = p \<and> starts_with s ps"
  by (auto simp: starts_with_def)

text \<open>
  \<open>s.rsplit(['/', '\\']).next()\<close>: the part after the last path separator (the whole
  string when there is none); the iterator always yields a first item.
\<close>

definition is_sep :: "char \<Rightarrow> bool" where
  "is_sep c \<longleftrightarrow> c = CHR ''/'' \<or> c = CHR 0x5C"

definition basename :: "string \<Rightarrow> string" where
  "basename s = rev (takeWhile (\<lambda>c. \<not> is_sep c) (rev s))"

lemma basename_no_sep: "\<forall>c \<in> set s. \<not> is_sep c \<Longrightarrow> basename s = s"
  unfolding basename_def by (subst takeWhile_eq_all_conv [THEN iffD2]) simp_all

lemma set_basename: "c \<in> set (basename s) \<Longrightarrow> \<not> is_sep c"
  unfolding basename_def by (auto dest: set_takeWhileD)

lemma basename_idem: "basename (basename s) = basename s"
  by (rule basename_no_sep) (simp add: set_basename)

lemma basename_sep: "is_sep c \<Longrightarrow> basename (d @ c # b) = basename b"
  unfolding basename_def
  by (auto simp: takeWhile_append takeWhile_tail takeWhile_eq_all_conv [THEN iffD2])

text \<open>\<open>to_ascii_lowercase\<close> and the byte classes.\<close>

definition ascii_lower_char :: "char \<Rightarrow> char" where
  "ascii_lower_char c =
     (let n = (of_char c :: nat) in if 65 \<le> n \<and> n \<le> 90 then char_of (n + 32) else c)"

definition ascii_lower :: "string \<Rightarrow> string" where
  "ascii_lower s = map ascii_lower_char s"

definition is_ascii_digit :: "char \<Rightarrow> bool" where
  "is_ascii_digit c \<longleftrightarrow> (let n = (of_char c :: nat) in 48 \<le> n \<and> n \<le> 57)"

definition is_ascii_alpha :: "char \<Rightarrow> bool" where
  "is_ascii_alpha c \<longleftrightarrow>
     (let n = (of_char c :: nat) in 65 \<le> n \<and> n \<le> 90 \<or> 97 \<le> n \<and> n \<le> 122)"

definition is_ascii_alnum :: "char \<Rightarrow> bool" where
  "is_ascii_alnum c \<longleftrightarrow> is_ascii_alpha c \<or> is_ascii_digit c"

lemma ascii_lower_idem: "ascii_lower (ascii_lower s) = ascii_lower s"
proof -
  have "ascii_lower_char (ascii_lower_char c) = ascii_lower_char c" for c
    by (auto simp: ascii_lower_char_def Let_def of_char_of)
  then show ?thesis by (simp add: ascii_lower_def comp_def)
qed

lemma ascii_lower_append [simp]: "ascii_lower (a @ b) = ascii_lower a @ ascii_lower b"
  by (simp add: ascii_lower_def)

text \<open>
  White space is the Unicode property \<open>White_Space\<close>, by the UTF-8 encodings of its
  code points. \<open>trim_start\<close> drops encodings from the front, \<open>trim_end\<close> from the back.
\<close>

definition white_space :: "string list" where
  "white_space =
     [[CHR 0x09], [CHR 0x0A], [CHR 0x0B], [CHR 0x0C], [CHR 0x0D], [CHR 0x20],
      [CHR 0xC2, CHR 0x85], [CHR 0xC2, CHR 0xA0], [CHR 0xE1, CHR 0x9A, CHR 0x80]]
     @ map (\<lambda>b. [CHR 0xE2, CHR 0x80, b])
         [CHR 0x80, CHR 0x81, CHR 0x82, CHR 0x83, CHR 0x84, CHR 0x85, CHR 0x86, CHR 0x87,
          CHR 0x88, CHR 0x89, CHR 0x8A, CHR 0xA8, CHR 0xA9, CHR 0xAF]
     @ [[CHR 0xE2, CHR 0x81, CHR 0x9F], [CHR 0xE3, CHR 0x80, CHR 0x80]]"

definition ws_prefix_len :: "string list \<Rightarrow> string \<Rightarrow> nat" where
  "ws_prefix_len ws s = (case find (starts_with s) ws of None \<Rightarrow> 0 | Some w \<Rightarrow> length w)"

lemma ws_prefix_len_le: "ws_prefix_len ws s \<le> length s"
  unfolding ws_prefix_len_def
  by (auto simp: find_Some_iff starts_with_def prefix_length_le split: option.split)

function trim_with :: "string list \<Rightarrow> string \<Rightarrow> string" where
  "trim_with ws s =
     (let n = ws_prefix_len ws s in if n = 0 then s else trim_with ws (drop n s))"
  by pat_completeness auto
termination
proof (relation "measure (\<lambda>(ws, s). length s)", goal_cases)
  case (2 ws s n)
  then show ?case using ws_prefix_len_le [of ws s] by (cases s) auto
qed simp

declare trim_with.simps [simp del]

definition trim_start :: "string \<Rightarrow> string" where
  "trim_start s = trim_with white_space s"

definition trim_end :: "string \<Rightarrow> string" where
  "trim_end s = rev (trim_with (map rev white_space) (rev s))"

definition trim :: "string \<Rightarrow> string" where
  "trim s = trim_end (trim_start s)"

lemma trim_with_suffix: "suffix (trim_with ws s) s"
proof (induction ws s rule: trim_with.induct)
  case (1 ws s)
  then show ?case
    by (subst trim_with.simps) (auto simp: Let_def intro: suffix_order.trans suffix_drop)
qed

lemma trim_with_head: "ws_prefix_len ws (trim_with ws s) = 0"
proof (induction ws s rule: trim_with.induct)
  case (1 ws s)
  then show ?case
    by (cases "ws_prefix_len ws s = 0") (simp_all add: trim_with.simps [of ws s] Let_def)
qed

lemma trim_with_idem: "trim_with ws (trim_with ws s) = trim_with ws s"
  by (subst trim_with.simps) (simp add: trim_with_head)

lemma trim_start_idem: "trim_start (trim_start s) = trim_start s"
  by (simp add: trim_start_def trim_with_idem)

lemma trim_start_suffix: "suffix (trim_start s) s"
  by (simp add: trim_start_def trim_with_suffix)

text \<open>A string whose first and last bytes are printable ASCII has nothing to trim.\<close>

definition is_graphic :: "char \<Rightarrow> bool" where
  "is_graphic c \<longleftrightarrow> (let n = (of_char c :: nat) in 33 \<le> n \<and> n \<le> 126)"

lemma white_space_bytes:
  "w \<in> set white_space \<Longrightarrow> w \<noteq> [] \<and> \<not> is_graphic (hd w) \<and> \<not> is_graphic (last w)"
  by (auto simp: white_space_def is_graphic_def Let_def)

lemma trim_with_id:
  "\<forall>w \<in> set ws. w \<noteq> [] \<and> \<not> is_graphic (hd w) \<Longrightarrow> is_graphic c \<Longrightarrow> trim_with ws (c # s) = c # s"
  by (subst trim_with.simps)
    (auto simp: ws_prefix_len_def find_Some_iff starts_with_def prefix_Cons
      dest!: nth_mem split: option.split)

lemma trim_graphic:
  assumes "s \<noteq> []" and "is_graphic (hd s)" and "is_graphic (last s)"
  shows "trim s = s"
proof -
  obtain c t where c: "s = c # t" using assms(1) by (cases s) auto
  obtain d u where d: "rev s = d # u" using assms(1) by (cases "rev s") auto
  have "trim_start s = s"
    using c assms(2) white_space_bytes by (simp add: trim_start_def trim_with_id)
  moreover have "trim_with (map rev white_space) (d # u) = d # u"
  proof (rule trim_with_id)
    show "\<forall>w \<in> set (map rev white_space). w \<noteq> [] \<and> \<not> is_graphic (hd w)"
      using white_space_bytes by (auto simp: hd_rev)
    have "last s = d" using d by (metis hd_rev list.sel(1))
    then show "is_graphic d" using assms(3) by simp
  qed
  ultimately show ?thesis
    by (simp add: trim_def trim_end_def flip: d) 
qed

text \<open>\<open>str::is_char_boundary\<close> and slicing that answers \<open>None\<close> off a boundary.\<close>

definition is_continuation :: "char \<Rightarrow> bool" where
  "is_continuation c \<longleftrightarrow> (let n = (of_char c :: nat) in 128 \<le> n \<and> n < 192)"

definition is_char_boundary :: "string \<Rightarrow> nat \<Rightarrow> bool" where
  "is_char_boundary s i \<longleftrightarrow>
     i = 0 \<or> i = length s \<or> (i < length s \<and> \<not> is_continuation (s ! i))"

definition get_to :: "string \<Rightarrow> nat \<Rightarrow> string option" where
  "get_to s i = (if is_char_boundary s i \<and> i \<le> length s then Some (take i s) else None)"

definition get_from :: "string \<Rightarrow> nat \<Rightarrow> string option" where
  "get_from s i = (if is_char_boundary s i \<and> i \<le> length s then Some (drop i s) else None)"

text \<open>\<open>[String]::join\<close> and splitting at a character.\<close>

fun join_with :: "string \<Rightarrow> string list \<Rightarrow> string" where
  "join_with sep [] = []"
| "join_with sep [w] = w"
| "join_with sep (w # v # vs) = w @ sep @ join_with sep (v # vs)"

definition join_words :: "string list \<Rightarrow> string" where
  "join_words ws = join_with '' '' ws"

definition before_char :: "char \<Rightarrow> string \<Rightarrow> string" where
  "before_char c s = takeWhile (\<lambda>d. d \<noteq> c) s"

lemma join_with_append:
  "xs \<noteq> [] \<Longrightarrow> ys \<noteq> [] \<Longrightarrow>
     join_with sep (xs @ ys) = join_with sep xs @ sep @ join_with sep ys"
proof (induction sep xs rule: join_with.induct)
  case (2 sep w)
  then show ?case by (cases ys) auto
qed auto

fun split_char :: "char \<Rightarrow> string \<Rightarrow> string list" where
  "split_char c [] = [[]]"
| "split_char c (d # s) =
     (if d = c then [] # split_char c s
      else (case split_char c s of [] \<Rightarrow> [[d]] | w # ws \<Rightarrow> (d # w) # ws))"

lemma split_char_not_Nil [simp]: "split_char c s \<noteq> []"
  by (induction c s rule: split_char.induct) (auto split: list.split)

lemma split_char_no: "c \<notin> set s \<Longrightarrow> split_char c s = [s]"
  by (induction c s rule: split_char.induct) auto

lemma split_char_sep: "c \<notin> set a \<Longrightarrow> split_char c (a @ c # b) = a # split_char c b"
  by (induction a) auto

lemma split_char_parts: "w \<in> set (split_char c s) \<Longrightarrow> c \<notin> set w"
proof (induction c s arbitrary: w rule: split_char.induct)
  case (2 c d s)
  then show ?case
    by (cases "split_char c s") (auto split: if_splits)
qed simp

lemma split_char_append: "split_char c (a @ c # b) = split_char c a @ split_char c b"
proof (induction c a rule: split_char.induct)
  case (2 c d a)
  then show ?case by (cases "split_char c a") (auto split: list.split)
qed simp

lemma split_join:
  "ws \<noteq> [] \<Longrightarrow> \<forall>w \<in> set ws. c \<notin> set w \<Longrightarrow> split_char c (join_with [c] ws) = ws"
proof (induction "[c]" ws rule: join_with.induct)
  case (3 w v vs)
  then show ?case by (simp add: split_char_sep)
qed (auto simp: split_char_no)

subsection \<open>Lists and options\<close>

definition nth_opt :: "'a list \<Rightarrow> nat \<Rightarrow> 'a option" where
  "nth_opt xs i = (if i < length xs then Some (xs ! i) else None)"

lemma nth_opt_simps [simp]:
  "nth_opt [] i = None"
  "nth_opt (x # xs) 0 = Some x"
  "nth_opt (x # xs) (Suc i) = nth_opt xs i"
  by (simp_all add: nth_opt_def)

lemma nth_opt_numeral [simp]: "nth_opt (x # xs) (numeral k) = nth_opt xs (pred_numeral k)"
  by (simp add: numeral_eq_Suc)

lemma nth_opt_Some: "nth_opt xs i = Some x \<longleftrightarrow> i < length xs \<and> xs ! i = x"
  by (auto simp: nth_opt_def)

lemma nth_opt_one [simp]: "nth_opt (x # xs) 1 = nth_opt xs 0"
  by (simp add: nth_opt_def)

text \<open>\<open>sort\<close> then \<open>dedup\<close>: strictly increasing.\<close>

lemma strict_sorted_dedup: "sorted xs \<Longrightarrow> sorted_wrt (<) (remdups_adj xs)"
  for xs :: "'a::linorder list"
  by (induction xs rule: remdups_adj.induct) auto

text \<open>\<open>[T]::first\<close>.\<close>

fun first_opt :: "'a list \<Rightarrow> 'a option" where
  "first_opt [] = None"
| "first_opt (x # xs) = Some x"

lemma first_opt_Some: "first_opt xs = Some x \<longleftrightarrow> (\<exists>ys. xs = x # ys)"
  by (cases xs) auto

subsection \<open>Machines: invariants of runs\<close>

text \<open>
  A component with state is a step function over its operations. A run is a fold over the
  operation list; an invariant every step keeps is kept by every run, and a measure every
  step accounts for is accounted for by the run.
\<close>

locale machine =
  fixes step :: "'s \<Rightarrow> 'op \<Rightarrow> 's"
    and inv :: "'s \<Rightarrow> bool"
  assumes step_inv: "inv s \<Longrightarrow> inv (step s a)"
begin

lemma run_inv: "inv s \<Longrightarrow> inv (foldl step s as)"
  by (induction as arbitrary: s) (simp_all add: step_inv)

lemma run_induct:
  assumes "inv s" and "R s s" and "\<And>t a. inv t \<Longrightarrow> R s t \<Longrightarrow> R s (step t a)"
  shows "R s (foldl step s as)"
proof (induction as rule: rev_induct)
  case Nil
  show ?case using assms(2) by simp
next
  case (snoc a as)
  have "inv (foldl step s as)" using assms(1) by (rule run_inv)
  then show ?case using snoc assms(3) by simp
qed

end

end
