(* ===== verification/GB_TokenEstimation.thy ===== *)
theory GB_TokenEstimation
  imports GB_Prelude
begin

section \<open>Token estimation (crates/codegen/xai-token-estimation)\<close>

text \<open>
  The bytes/4 heuristic and the integer arithmetic every compaction gate uses. All values
  are Rust \<open>u64\<close> words; the saturating operations are those of the prelude. The three
  \<open>f64\<close> display helpers (\<open>usage_percentage\<close>, \<open>usage_percentage_u8\<close>) are not modelled.
\<close>

definition BYTES_PER_TOKEN :: u64 where
  "BYTES_PER_TOKEN = 4"

definition IMAGE_TOKEN_ESTIMATE :: u64 where
  "IMAGE_TOKEN_ESTIMATE = 765"

definition estimate_tokens :: "string \<Rightarrow> u64" where
  "estimate_tokens s = of_nat (length s) div BYTES_PER_TOKEN"

definition estimate_chars :: "u64 \<Rightarrow> u64" where
  "estimate_chars tokens = sat_mul tokens BYTES_PER_TOKEN"

definition estimate_image_tokens :: "u64 \<Rightarrow> u64" where
  "estimate_image_tokens image_count = sat_mul image_count IMAGE_TOKEN_ESTIMATE"

definition usage_percentage_truncated_u8 :: "u64 \<Rightarrow> u64 \<Rightarrow> u8" where
  "usage_percentage_truncated_u8 used tot =
     (case checked_div (sat_mul used 100) tot of
        None \<Rightarrow> 0
      | Some pct \<Rightarrow> ucast (min pct 100))"

definition free_tokens :: "u64 \<Rightarrow> u64 \<Rightarrow> u64" where
  "free_tokens tot used = sat_sub tot used"

definition exceeds_threshold :: "u64 \<Rightarrow> u64 \<Rightarrow> u8 \<Rightarrow> bool" where
  "exceeds_threshold used context_window threshold_percent =
     (if context_window = 0 then False
      else sat_mul used 100 \<ge> sat_mul context_window (ucast threshold_percent))"

definition exceeds_threshold_with_headroom :: "u64 \<Rightarrow> u64 \<Rightarrow> u8 \<Rightarrow> u64 \<Rightarrow> bool" where
  "exceeds_threshold_with_headroom used context_window threshold_percent headroom =
     (if context_window = 0 then False
      else sat_mul used 100
             \<ge> sat_sub (sat_mul context_window (ucast threshold_percent)) (sat_mul headroom 100))"

subsection \<open>Reading the words as numbers\<close>

lemma unat_u8_less: "unat (p :: u8) < 256"
  using unsigned_less [of p, where ?'a = nat] by simp

lemma unat_ucast_u8 [sat_simps]: "unat (ucast (p :: u8) :: u64) = unat p"
proof -
  have "unat p < 2 ^ 64" using unat_u8_less [of p] by simp
  then show ?thesis by (simp add: unsigned_ucast_eq take_bit_nat_eq_self)
qed

lemma unat_u64_100 [sat_simps]: "unat (100 :: u64) = 100"
  by simp

lemma u64_eq_0_iff: "(w :: u64) = 0 \<longleftrightarrow> unat w = 0"
  by (simp add: unat_eq_zero)

lemma exceeds_threshold_nat:
  "exceeds_threshold used cw p \<longleftrightarrow>
     cw \<noteq> 0 \<and> min (unat cw * unat p) (2 ^ 64 - 1) \<le> min (unat used * 100) (2 ^ 64 - 1)"
  by (auto simp: exceeds_threshold_def word_le_nat_alt sat_simps)

lemma pct_nat:
  "unat (usage_percentage_truncated_u8 used tot) =
     (if tot = 0 then 0 else min (min (unat used * 100) (2 ^ 64 - 1) div unat tot) 100)"
proof (cases "tot = 0")
  case False
  let ?q = "min (sat_mul used 100 div tot) 100"
  have le: "unat ?q \<le> 100"
    by (simp add: min_def word_le_nat_alt)
  have "unat (ucast ?q :: u8) = unat ?q mod 256"
    by (simp add: unsigned_ucast_eq take_bit_eq_mod)
  also have "\<dots> = unat ?q" using le by simp
  also have "\<dots> = min (min (unat used * 100) (2 ^ 64 - 1) div unat tot) 100"
    by (simp add: min_def word_le_nat_alt unat_div sat_simps)
  finally show ?thesis
    using False by (simp add: usage_percentage_truncated_u8_def checked_div_def)
qed (simp add: usage_percentage_truncated_u8_def checked_div_def)

subsection \<open>The gates and the percentage agree\<close>

lemma threshold_div:
  "0 < c \<Longrightarrow> (p \<le> x div c) = (c * p \<le> (x :: nat))"
  by (simp add: less_eq_div_iff_mult_less_eq mult.commute)

text \<open>
  The auto-compact gate \<open>exceeds_threshold\<close> and the truncated percentage shown to
  the user agree for every threshold up to 100 percent and every context window below
  \<open>2 ^ 64 / 100\<close> tokens: the gate fires exactly when the window is not zero and the
  displayed percentage has reached the threshold.
\<close>

theorem exceeds_threshold_iff_percentage:
  assumes "unat p \<le> 100" and "unat cw * 100 < 2 ^ 64"
  shows "exceeds_threshold used cw p
           \<longleftrightarrow> cw \<noteq> 0 \<and> p \<le> usage_percentage_truncated_u8 used cw"
proof (cases "cw = 0")
  case False
  then have pos: "0 < unat cw" by (simp add: unat_gt_0)
  have "unat cw * unat p \<le> unat cw * 100"
    using assms(1) by (rule mult_le_mono2)
  then have small: "unat cw * unat p \<le> 2 ^ 64 - 1"
    using assms(2) by linarith
  let ?x = "min (unat used * 100) (2 ^ 64 - 1)"
  have "p \<le> usage_percentage_truncated_u8 used cw \<longleftrightarrow> unat p \<le> ?x div unat cw"
    using False assms(1) by (simp only: word_le_nat_alt pct_nat if_False min.bounded_iff simp_thms)
  also have "\<dots> \<longleftrightarrow> unat cw * unat p \<le> ?x"
    using pos by (rule threshold_div)
  finally show ?thesis
    using False small by (simp only: exceeds_threshold_nat min_absorb1)
qed (simp add: exceeds_threshold_def)

theorem exceeds_threshold_iff_percentage_witness:
  "exceeds_threshold 170000 200000 85 \<longleftrightarrow>
     (200000 :: u64) \<noteq> 0 \<and> (85 :: u8) \<le> usage_percentage_truncated_u8 170000 200000"
  by (rule exceeds_threshold_iff_percentage) simp_all

text \<open>
  Beyond that bound the product saturates and the gate fires far too early: with the
  largest window, one percent of use passes an 85 percent threshold.
\<close>

theorem exceeds_threshold_saturates:
  "exceeds_threshold 184467440737095517 (- 1) 85
     \<and> usage_percentage_truncated_u8 184467440737095517 (- 1) = 1"
  by (simp add: exceeds_threshold_def usage_percentage_truncated_u8_def checked_div_def
      sat_mul_def unsigned_minus_1_eq_mask mask_eq_exp_minus_1)

lemma no_headroom: "exceeds_threshold_with_headroom used cw p 0 = exceeds_threshold used cw p"
  by (simp add: exceeds_threshold_with_headroom_def exceeds_threshold_def word_le_nat_alt
      sat_simps)

lemma headroom_fires_earlier:
  "exceeds_threshold used cw p \<Longrightarrow> exceeds_threshold_with_headroom used cw p h"
  by (auto simp: exceeds_threshold_with_headroom_def exceeds_threshold_def word_le_nat_alt
      sat_simps split: if_splits)

text \<open>
  A token budget turned into a character budget by \<open>estimate_chars\<close> is estimated
  back to exactly that many tokens, as long as the multiplication does not saturate.
\<close>

theorem estimate_chars_roundtrip:
  assumes "unat t < 2 ^ 62" and "length s = unat (estimate_chars t)"
  shows "estimate_tokens s = t"
proof -
  have "length s = unat t * 4"
    using assms by (simp add: estimate_chars_def BYTES_PER_TOKEN_def sat_simps)
  then have "estimate_tokens s = of_nat (unat t * 4) div 4"
    by (simp add: estimate_tokens_def BYTES_PER_TOKEN_def)
  moreover have "unat (t * 4) = unat t * 4"
    using assms(1) unat_mult_lem [of t 4] by simp
  ultimately show ?thesis
    by (simp add: word_unat_eq_iff unat_div)
qed

theorem estimate_chars_roundtrip_witness:
  "estimate_tokens ''abcdefgh'' = 2"
  by (rule estimate_chars_roundtrip) (simp_all add: estimate_chars_def BYTES_PER_TOKEN_def sat_mul_def)

end
