(* ===== verification/GB_CircuitBreaker.thy ===== *)
theory GB_CircuitBreaker
  imports Complex_Main GB_Prelude
begin

section \<open>The circuit breaker (crates/common/xai-circuit-breaker)\<close>

text \<open>
  The sliding window (\<open>window.rs\<close>), the configuration presets (\<open>config.rs\<close>) and the
  three-state machine (\<open>breaker.rs\<close>). Instants and durations are numbers of nanoseconds.
  The state holds the reading of its clock, which only moves through \<open>advance\<close> (the
  source's \<open>MockClock\<close>): one operation sees one reading. Atomic loads, stores and
  compare-exchanges act on the record in the order of the source, as one thread runs them.
  Observer callbacks are appended to a log.
\<close>

subsection \<open>Quotients of small counts in IEEE double precision\<close>

text \<open>
  \<open>failures as f64 / entries.len() as f64\<close>: both counts are far below \<open>2 ^ 53\<close>, so the
  conversions are exact and the division is the only rounding (to nearest, ties to even).
  \<open>norm_shift a b\<close> is the binary exponent that brings the quotient of \<open>0 < a \<le> b\<close> into
  \<open>[1, 2)\<close>; 52 further bits make its significand an integer.
\<close>

function norm_shift :: "nat \<Rightarrow> nat \<Rightarrow> nat" where
  "norm_shift a b = (if a = 0 \<or> b \<le> a then 0 else Suc (norm_shift (2 * a) b))"
  by pat_completeness auto
termination
  by (relation "measure (\<lambda>(a, b). b - a)") auto

declare norm_shift.simps [simp del]

definition round_div :: "nat \<Rightarrow> nat \<Rightarrow> nat" where
  "round_div n b =
     (let q = n div b; r = n mod b
      in if b < 2 * r \<or> (2 * r = b \<and> odd q) then q + 1 else q)"

definition f64_div :: "nat \<Rightarrow> nat \<Rightarrow> rat" where
  "f64_div a b =
     (let k = 52 + norm_shift a b in of_nat (round_div (a * 2 ^ k) b) / 2 ^ k)"

subsection \<open>The sliding window\<close>

record sliding_window =
  sw_entries :: "(nat \<times> bool) list"
  sw_failures :: nat

definition MAX_WINDOW_ENTRIES :: nat where
  "MAX_WINDOW_ENTRIES = 10000"

definition sw_new :: sliding_window where
  "sw_new = \<lparr>sw_entries = [], sw_failures = 0\<rparr>"

definition sw_push :: "bool \<Rightarrow> nat \<Rightarrow> sliding_window \<Rightarrow> sliding_window" where
  "sw_push is_failure ts w =
     (let w1 = (if length (sw_entries w) \<ge> MAX_WINDOW_ENTRIES
                then (case sw_entries w of
                        [] \<Rightarrow> w
                      | (_, was_failure) # es \<Rightarrow>
                          (if was_failure
                           then w\<lparr>sw_entries := es, sw_failures := sw_failures w - 1\<rparr>
                           else w\<lparr>sw_entries := es\<rparr>))
                else w);
          w2 = w1\<lparr>sw_entries := sw_entries w1 @ [(ts, is_failure)]\<rparr>
      in if is_failure then w2\<lparr>sw_failures := sw_failures w2 + 1\<rparr> else w2)"

text \<open>The \<open>while let\<close> loop of \<open>evict\<close>, on the entries and the failure count.\<close>

fun evict_loop :: "nat \<Rightarrow> (nat \<times> bool) list \<Rightarrow> nat \<Rightarrow> (nat \<times> bool) list \<times> nat" where
  "evict_loop cutoff [] n = ([], n)"
| "evict_loop cutoff ((ts, was_failure) # es) n =
     (if ts < cutoff then evict_loop cutoff es (if was_failure then n - 1 else n)
      else ((ts, was_failure) # es, n))"

definition sw_evict :: "nat \<Rightarrow> nat \<Rightarrow> sliding_window \<Rightarrow> sliding_window" where
  "sw_evict win now w =
     (if now < win then w
      else let (es, n) = evict_loop (now - win) (sw_entries w) (sw_failures w)
           in w\<lparr>sw_entries := es, sw_failures := n\<rparr>)"

definition sw_error_rate :: "sliding_window \<Rightarrow> rat" where
  "sw_error_rate w =
     (if sw_entries w = [] then 0 else f64_div (sw_failures w) (length (sw_entries w)))"

definition sw_sample_count :: "sliding_window \<Rightarrow> nat" where
  "sw_sample_count w = length (sw_entries w)"

definition sw_clear :: "sliding_window \<Rightarrow> sliding_window" where
  "sw_clear w = w\<lparr>sw_entries := [], sw_failures := 0\<rparr>"

subsection \<open>Configuration\<close>

record breaker_config =
  window_duration :: nat
  min_samples :: nat
  error_rate_threshold :: rat
  open_duration :: nat
  half_open_max_probes :: nat
  failure_codes :: "16 word list"
  cfg_enabled :: bool

definition default_failure_codes :: "16 word list" where
  "default_failure_codes = [429, 500, 502, 503, 504]"

definition from_secs :: "nat \<Rightarrow> nat" where
  "from_secs s = s * 1000000000"

definition from_millis :: "nat \<Rightarrow> nat" where
  "from_millis ms = ms * 1000000"

definition config_server :: breaker_config where
  "config_server =
     \<lparr>window_duration = from_secs 60, min_samples = 10, error_rate_threshold = 1 / 2,
      open_duration = from_secs 10, half_open_max_probes = 1,
      failure_codes = default_failure_codes, cfg_enabled = True\<rparr>"

definition config_client :: breaker_config where
  "config_client =
     \<lparr>window_duration = from_secs 60, min_samples = 5, error_rate_threshold = 1 / 2,
      open_duration = from_secs 60, half_open_max_probes = 1,
      failure_codes = [401], cfg_enabled = True\<rparr>"

definition is_failure_status :: "breaker_config \<Rightarrow> 16 word \<Rightarrow> bool" where
  "is_failure_status cfg status \<longleftrightarrow> status \<in> set (failure_codes cfg)"

subsection \<open>Breaker state\<close>

datatype breaker_state = Closed | Open | HalfOpen

datatype outcome = Success | Failure

text \<open>\<open>BreakerOpen { retry_after }\<close>, the error of \<open>check\<close>.\<close>

datatype breaker_open = BreakerOpen (retry_after: nat)

datatype observation =
    StateChange breaker_state breaker_state string
  | ProbeAdmission bool
  | OnOutcome outcome breaker_state

record breaker =
  br_state :: breaker_state
  br_baseline :: nat
  br_opened_at_millis :: nat
  br_half_open_probes :: nat
  br_probe_claimed_at_millis :: nat
  br_is_open_fast :: bool
  br_window :: sliding_window
  br_clock :: nat
  br_log :: "observation list"

text \<open>\<open>with_clock\<close> raises a zero probe count to one, then builds the closed breaker.\<close>

definition effective_config :: "breaker_config \<Rightarrow> breaker_config" where
  "effective_config cfg = cfg\<lparr>half_open_max_probes := max (half_open_max_probes cfg) 1\<rparr>"

definition with_clock :: "nat \<Rightarrow> breaker" where
  "with_clock now =
     \<lparr>br_state = Closed, br_baseline = now, br_opened_at_millis = 0, br_half_open_probes = 0,
      br_probe_claimed_at_millis = 0, br_is_open_fast = False, br_window = sw_new,
      br_clock = now, br_log = []\<rparr>"

definition advance :: "nat \<Rightarrow> breaker \<Rightarrow> breaker" where
  "advance d b = b\<lparr>br_clock := br_clock b + d\<rparr>"

definition observe :: "observation \<Rightarrow> breaker \<Rightarrow> breaker" where
  "observe e b = b\<lparr>br_log := br_log b @ [e]\<rparr>"

text \<open>\<open>as_millis() as u64\<close> keeps the low 64 bits.\<close>

definition as_millis_u64 :: "nat \<Rightarrow> nat" where
  "as_millis_u64 d = (d div 1000000) mod 2 ^ 64"

definition elapsed_millis :: "breaker \<Rightarrow> nat" where
  "elapsed_millis b = as_millis_u64 (br_clock b - br_baseline b)"

definition cas_state :: "breaker_state \<Rightarrow> breaker_state \<Rightarrow> breaker \<Rightarrow> breaker \<times> bool" where
  "cas_state old new b =
     (if br_state b = old then (b\<lparr>br_state := new\<rparr>, True) else (b, False))"

definition trip :: "breaker_state \<Rightarrow> string \<Rightarrow> breaker \<Rightarrow> breaker" where
  "trip prev reason b =
     (let b1 = b\<lparr>br_state := Open\<rparr>;
          b2 = b1\<lparr>br_opened_at_millis := elapsed_millis b1\<rparr>;
          b3 = b2\<lparr>br_half_open_probes := 0\<rparr>;
          b4 = b3\<lparr>br_is_open_fast := True\<rparr>
      in if prev \<noteq> Open then observe (StateChange prev Open reason) b4 else b4)"

definition close_breaker :: "breaker_state \<Rightarrow> string \<Rightarrow> breaker \<Rightarrow> breaker" where
  "close_breaker prev reason b =
     (let b1 = b\<lparr>br_state := Closed\<rparr>;
          b2 = b1\<lparr>br_window := sw_clear (br_window b1)\<rparr>;
          b3 = b2\<lparr>br_half_open_probes := 0\<rparr>;
          b4 = b3\<lparr>br_is_open_fast := False\<rparr>
      in if prev \<noteq> Closed then observe (StateChange prev Closed reason) b4 else b4)"

definition HALF_OPEN_PROBE_BACKOFF :: nat where
  "HALF_OPEN_PROBE_BACKOFF = from_millis 50"

definition try_half_open_probe ::
    "breaker_config \<Rightarrow> breaker \<Rightarrow> breaker \<times> (breaker_open + unit)" where
  "try_half_open_probe cfg b =
     (let now = elapsed_millis b;
          prev = br_half_open_probes b;
          b1 = b\<lparr>br_half_open_probes := prev + 1\<rparr>
      in if prev < half_open_max_probes cfg
         then (observe (ProbeAdmission True) (b1\<lparr>br_probe_claimed_at_millis := now\<rparr>), Inr ())
         else
           let b2 = b1\<lparr>br_half_open_probes := br_half_open_probes b1 - 1\<rparr>;
               lease_millis = as_millis_u64 (open_duration cfg);
               claimed = br_probe_claimed_at_millis b2
           in if now - claimed \<ge> lease_millis \<and> br_probe_claimed_at_millis b2 = claimed
              then (observe (ProbeAdmission True) (b2\<lparr>br_probe_claimed_at_millis := now\<rparr>), Inr ())
              else (observe (ProbeAdmission False) b2,
                    Inl (BreakerOpen (min HALF_OPEN_PROBE_BACKOFF (open_duration cfg)))))"

definition check_open :: "breaker_config \<Rightarrow> breaker \<Rightarrow> breaker \<times> (breaker_open + unit)" where
  "check_open cfg b =
     (let opened = br_opened_at_millis b;
          now = elapsed_millis b;
          elapsed = from_millis (now - opened)
      in if elapsed \<ge> open_duration cfg
         then (case cas_state Open HalfOpen b of
                 (b1, True) \<Rightarrow>
                   try_half_open_probe cfg
                     (observe (StateChange Open HalfOpen ''open_elapsed'')
                        (b1\<lparr>br_is_open_fast := False\<rparr>))
               | (b1, False) \<Rightarrow>
                   (case br_state b1 of
                      Closed \<Rightarrow> (b1, Inr ())
                    | HalfOpen \<Rightarrow> try_half_open_probe cfg b1
                    | Open \<Rightarrow>
                        (b1, Inl (BreakerOpen (open_duration cfg
                           - from_millis (elapsed_millis b1 - br_opened_at_millis b1))))))
         else (b, Inl (BreakerOpen (open_duration cfg - elapsed))))"

definition check :: "breaker_config \<Rightarrow> breaker \<Rightarrow> breaker \<times> (breaker_open + unit)" where
  "check cfg b =
     (if \<not> cfg_enabled cfg then (b, Inr ())
      else case br_state b of
             Closed \<Rightarrow> (b, Inr ())
           | Open \<Rightarrow> check_open cfg b
           | HalfOpen \<Rightarrow> try_half_open_probe cfg b)"

definition push_sample :: "breaker_config \<Rightarrow> bool \<Rightarrow> breaker \<Rightarrow> breaker" where
  "push_sample cfg is_failure b =
     b\<lparr>br_window := sw_evict (window_duration cfg) (br_clock b)
                      (sw_push is_failure (br_clock b) (br_window b))\<rparr>"

definition should_trip :: "breaker_config \<Rightarrow> sliding_window \<Rightarrow> bool" where
  "should_trip cfg w \<longleftrightarrow>
     sw_sample_count w \<ge> min_samples cfg \<and> sw_error_rate w \<ge> error_rate_threshold cfg"

definition record_outcome :: "breaker_config \<Rightarrow> outcome \<Rightarrow> breaker \<Rightarrow> breaker" where
  "record_outcome cfg oc b =
     (if \<not> cfg_enabled cfg then b
      else
        let is_failure = (oc = Failure);
            prev_state = br_state b;
            b1 = (case prev_state of
                    Closed \<Rightarrow>
                      (let bp = push_sample cfg is_failure b
                       in if should_trip cfg (br_window bp) then trip prev_state ''trip'' bp
                          else bp)
                  | HalfOpen \<Rightarrow>
                      (if is_failure then trip prev_state ''probe_failure'' b
                       else close_breaker prev_state ''probe_success'' b)
                  | Open \<Rightarrow> push_sample cfg is_failure b)
        in observe (OnOutcome oc (br_state b1)) b1)"

definition is_open :: "breaker \<Rightarrow> bool" where
  "is_open b = br_is_open_fast b"

definition error_rate :: "breaker_config \<Rightarrow> breaker \<Rightarrow> breaker \<times> rat" where
  "error_rate cfg b =
     (let w = sw_evict (window_duration cfg) (br_clock b) (br_window b)
      in (b\<lparr>br_window := w\<rparr>, sw_error_rate w))"

subsection \<open>The window counts its failures\<close>

definition failure_count :: "(nat \<times> bool) list \<Rightarrow> nat" where
  "failure_count es = length (filter snd es)"

lemma failure_count_simps [simp]:
  "failure_count [] = 0"
  "failure_count ((t, f) # es) = (if f then Suc (failure_count es) else failure_count es)"
  "failure_count (es @ fs) = failure_count es + failure_count fs"
  by (simp_all add: failure_count_def)

text \<open>
  The abstract window: what \<open>failures\<close> caches. \<open>window_ok\<close> says the cache is exact and
  the memory bound holds.
\<close>

definition window_ok :: "sliding_window \<Rightarrow> bool" where
  "window_ok w \<longleftrightarrow>
     sw_failures w = failure_count (sw_entries w)
     \<and> length (sw_entries w) \<le> MAX_WINDOW_ENTRIES"

lemma evict_loop_eq:
  "n = failure_count es \<Longrightarrow>
     evict_loop c es n =
       (let es' = dropWhile (\<lambda>(ts, f). ts < c) es in (es', failure_count es'))"
  by (induction c es n rule: evict_loop.induct) (auto simp: Let_def)

lemma window_ok_new: "window_ok sw_new"
  by (simp add: window_ok_def sw_new_def)

lemma window_ok_clear: "window_ok (sw_clear w)"
  by (simp add: window_ok_def sw_clear_def)

lemma sw_push_entries:
  "sw_entries (sw_push f t w) =
     (if length (sw_entries w) \<ge> MAX_WINDOW_ENTRIES then tl (sw_entries w) else sw_entries w)
     @ [(t, f)]"
  by (auto simp: sw_push_def Let_def split: list.split prod.split)

lemma window_ok_push: "window_ok w \<Longrightarrow> window_ok (sw_push f t w)"
  by (cases "sw_entries w")
    (auto simp: window_ok_def sw_push_def Let_def MAX_WINDOW_ENTRIES_def split: prod.split)

lemma sw_evict_entries:
  assumes "window_ok w"
  shows "sw_entries (sw_evict win now w) =
     (if now < win then sw_entries w
      else dropWhile (\<lambda>(ts, f). ts < now - win) (sw_entries w))"
  using assms by (simp add: sw_evict_def window_ok_def evict_loop_eq Let_def)

lemma window_ok_evict: "window_ok w \<Longrightarrow> window_ok (sw_evict win now w)"
  by (auto simp: sw_evict_def window_ok_def evict_loop_eq Let_def
      intro: le_trans [OF length_dropWhile_le])

text \<open>
  Once every sample carries a time stamp no later than its successor's, eviction keeps
  exactly the samples of the live window.
\<close>

lemma dropWhile_sorted_eq_filter:
  "sorted (map fst es) \<Longrightarrow>
     dropWhile (\<lambda>(ts, f). ts < c) es = filter (\<lambda>(ts, f). \<not> ts < c) es"
proof (induction es)
  case (Cons e es)
  then show ?case
  proof (cases "fst e < c")
    case False
    have "\<forall>x \<in> set es. \<not> fst x < c"
      using Cons.prems False by fastforce
    then have "filter (\<lambda>(ts, f). \<not> ts < c) es = es"
      by (auto simp: filter_id_conv)
    with False show ?thesis by (auto split: prod.splits)
  qed (auto split: prod.splits)
qed simp

subsection \<open>Double-precision comparison with one half\<close>

lemma norm_shift_bounds:
  "0 < a \<Longrightarrow> b \<le> a * 2 ^ norm_shift a b
     \<and> (norm_shift a b \<noteq> 0 \<longrightarrow> a * 2 ^ (norm_shift a b - 1) < b)"
proof (induction a b rule: norm_shift.induct)
  case (1 a b)
  show ?case
  proof (cases "b \<le> a")
    case True
    then show ?thesis by (simp add: norm_shift.simps [of a b])
  next
    case False
    with "1.prems" have unf: "norm_shift a b = Suc (norm_shift (2 * a) b)"
      by (simp add: norm_shift.simps [of a b])
    have IH: "b \<le> 2 * a * 2 ^ norm_shift (2 * a) b
        \<and> (norm_shift (2 * a) b \<noteq> 0 \<longrightarrow> 2 * a * 2 ^ (norm_shift (2 * a) b - 1) < b)"
      using "1" False by auto
    have "a * 2 ^ norm_shift (2 * a) b < b"
    proof (cases "norm_shift (2 * a) b")
      case 0
      then show ?thesis using False by simp
    next
      case (Suc m)
      then show ?thesis using IH by (simp add: algebra_simps)
    qed
    then show ?thesis using IH by (simp add: unf algebra_simps)
  qed
qed

lemma round_div_lower: "m * b \<le> n \<Longrightarrow> 0 < b \<Longrightarrow> m \<le> round_div n b"
proof -
  assume "m * b \<le> n" "0 < b"
  then have "m \<le> n div b" by (simp add: less_eq_div_iff_mult_less_eq)
  then show ?thesis by (auto simp: round_div_def Let_def)
qed

lemma round_div_upper: "2 * n + b < 2 * m * b \<Longrightarrow> round_div n b < m"
proof -
  assume h: "2 * n + b < 2 * m * b"
  have n: "n = n div b * b + n mod b" by simp
  let ?q = "n div b" and ?r = "n mod b"
  have "2 * (?q * b) + 2 * ?r + b < 2 * m * b"
    using h n by linarith
  show ?thesis
  proof (cases "b \<le> 2 * ?r")
    case True
    then have "2 * (?q * b) + 2 * b < 2 * m * b"
      using \<open>2 * (?q * b) + 2 * ?r + b < 2 * m * b\<close> by linarith
    then have "(?q + 1) * b < m * b" by (simp add: algebra_simps)
    then have "?q + 1 < m" using mult_less_cancel2 by blast
    then show ?thesis by (auto simp: round_div_def Let_def)
  next
    case False
    have "?q * b < m * b" using \<open>2 * (?q * b) + 2 * ?r + b < 2 * m * b\<close> by linarith
    then have "?q < m" using mult_less_cancel2 by blast
    then show ?thesis using False by (auto simp: round_div_def Let_def)
  qed
qed

lemma f64_div_half:
  assumes "a \<le> b" and "0 < b" and "b < 2 ^ 52"
  shows "1 / 2 \<le> f64_div a b \<longleftrightarrow> b \<le> 2 * a"
proof -
  let ?K = "52 + norm_shift a b"
  obtain j where j: "?K = Suc j" by (cases ?K) auto
  let ?m = "round_div (a * 2 ^ ?K) b"
  have "1 / 2 \<le> f64_div a b \<longleftrightarrow> (2 :: rat) ^ j \<le> of_nat ?m"
    unfolding f64_div_def Let_def j by (simp add: field_simps)
  also have "\<dots> \<longleftrightarrow> 2 ^ j \<le> ?m"
    by (metis of_nat_le_iff of_nat_numeral of_nat_power)
  also have "\<dots> \<longleftrightarrow> b \<le> 2 * a"
  proof
    assume "b \<le> 2 * a"
    then have "2 ^ j * b \<le> a * 2 ^ ?K" unfolding j by simp
    then show "2 ^ j \<le> ?m" using assms(2) by (rule round_div_lower)
  next
    assume le: "2 ^ j \<le> ?m"
    show "b \<le> 2 * a"
    proof (rule ccontr)
      assume "\<not> b \<le> 2 * a"
      then obtain d where d: "b = 2 * a + Suc d"
        by (metis add_Suc_right less_imp_Suc_add not_le)
      have "b < 2 ^ ?K" using assms(3) 
        by (rule less_le_trans) (rule power_increasing, simp_all)
      also have "\<dots> \<le> 2 ^ ?K * Suc d" by simp
      finally have "2 * (a * 2 ^ ?K) + b < 2 * 2 ^ j * b"
        unfolding j by (subst (2) d) (simp add: algebra_simps)
      then have "?m < 2 ^ j" by (rule round_div_upper)
      with le show False by simp
    qed
  qed
  finally show ?thesis .
qed

lemma should_trip_half:
  assumes "window_ok w" and "error_rate_threshold cfg = 1 / 2" and "0 < min_samples cfg"
  shows "should_trip cfg w \<longleftrightarrow>
     min_samples cfg \<le> length (sw_entries w)
     \<and> length (sw_entries w) \<le> 2 * failure_count (sw_entries w)"
proof (cases "sw_entries w = []")
  case False
  have "failure_count (sw_entries w) \<le> length (sw_entries w)"
    by (simp add: failure_count_def)
  moreover have "length (sw_entries w) < 2 ^ 52"
    using assms(1) by (simp add: window_ok_def MAX_WINDOW_ENTRIES_def)
  ultimately have "1 / 2 \<le> f64_div (failure_count (sw_entries w)) (length (sw_entries w))
      \<longleftrightarrow> length (sw_entries w) \<le> 2 * failure_count (sw_entries w)"
    using False by (intro f64_div_half) simp_all
  then show ?thesis
    using assms(1) False
    by (simp only: should_trip_def sw_error_rate_def sw_sample_count_def window_ok_def
        assms(2) if_False simp_thms)
qed (use assms in \<open>simp add: should_trip_def sw_sample_count_def\<close>)

subsection \<open>The invariant of the breaker\<close>

text \<open>
  The mirror agrees with the state, no probe slot is held outside \<open>HalfOpen\<close>, never more
  than the configured number of slots is held, and the two time stamps lie in the past.
\<close>

definition breaker_inv :: "breaker_config \<Rightarrow> breaker \<Rightarrow> bool" where
  "breaker_inv cfg b \<longleftrightarrow>
     (br_is_open_fast b \<longleftrightarrow> br_state b = Open)
     \<and> window_ok (br_window b)
     \<and> (br_state b \<noteq> HalfOpen \<longrightarrow> br_half_open_probes b = 0)
     \<and> br_half_open_probes b \<le> half_open_max_probes cfg
     \<and> br_baseline b \<le> br_clock b
     \<and> br_opened_at_millis b \<le> (br_clock b - br_baseline b) div 1000000
     \<and> br_probe_claimed_at_millis b \<le> (br_clock b - br_baseline b) div 1000000"

datatype breaker_op = OpCheck | OpRecord outcome | OpErrorRate | OpAdvance nat

fun breaker_step :: "breaker_config \<Rightarrow> breaker \<Rightarrow> breaker_op \<Rightarrow> breaker" where
  "breaker_step cfg b OpCheck = fst (check cfg b)"
| "breaker_step cfg b (OpRecord oc) = record_outcome cfg oc b"
| "breaker_step cfg b OpErrorRate = fst (error_rate cfg b)"
| "breaker_step cfg b (OpAdvance d) = advance d b"

lemmas breaker_defs =
  trip_def close_breaker_def observe_def push_sample_def cas_state_def advance_def
  elapsed_millis_def as_millis_u64_def Let_def

lemma breaker_inv_with_clock: "breaker_inv cfg (with_clock now)"
  by (simp add: breaker_inv_def with_clock_def window_ok_new)

lemma probe_inv:
  assumes "breaker_inv cfg b" and "br_state b = HalfOpen"
  shows "breaker_inv cfg (fst (try_half_open_probe cfg b))"
  using assms
  by (auto simp: try_half_open_probe_def breaker_inv_def breaker_defs)

lemma check_open_inv:
  assumes "breaker_inv cfg b" and "br_state b = Open"
  shows "breaker_inv cfg (fst (check_open cfg b))"
  using assms unfolding check_open_def
  by (auto simp: Let_def cas_state_def observe_def breaker_inv_def intro!: probe_inv [simplified])

lemma check_inv: "breaker_inv cfg b \<Longrightarrow> breaker_inv cfg (fst (check cfg b))"
  by (auto simp: check_def probe_inv check_open_inv split: breaker_state.split)

lemma trip_inv: "breaker_inv cfg b \<Longrightarrow> breaker_inv cfg (trip p r b)"
  by (simp add: breaker_inv_def breaker_defs)

lemma close_inv: "breaker_inv cfg b \<Longrightarrow> breaker_inv cfg (close_breaker p r b)"
  by (simp add: breaker_inv_def breaker_defs window_ok_clear)

lemma push_sample_inv: "breaker_inv cfg b \<Longrightarrow> breaker_inv cfg (push_sample cfg f b)"
  by (simp add: breaker_inv_def breaker_defs window_ok_push window_ok_evict)

lemma observe_inv: "breaker_inv cfg (observe e b) = breaker_inv cfg b"
  by (simp add: breaker_inv_def observe_def)

lemma record_inv: "breaker_inv cfg b \<Longrightarrow> breaker_inv cfg (record_outcome cfg oc b)"
  by (simp add: record_outcome_def Let_def observe_inv trip_inv close_inv push_sample_inv
      split: breaker_state.split)

lemma error_rate_inv: "breaker_inv cfg b \<Longrightarrow> breaker_inv cfg (fst (error_rate cfg b))"
  by (simp add: error_rate_def breaker_inv_def window_ok_evict Let_def)

lemma advance_inv: "breaker_inv cfg b \<Longrightarrow> breaker_inv cfg (advance d b)"
  by (auto simp: breaker_inv_def advance_def elim!: le_trans intro!: div_le_mono)

interpretation breaker_machine: machine "breaker_step cfg" "breaker_inv cfg" for cfg
proof
  fix s a assume "breaker_inv cfg s"
  then show "breaker_inv cfg (breaker_step cfg s a)"
    by (cases a) (simp_all add: check_inv record_inv error_rate_inv advance_inv)
qed

subsection \<open>Properties of the breaker\<close>

text \<open>
  C18. Whatever sequence of checks, recorded outcomes, error-rate reads and clock advances
  runs on a freshly built breaker, its atomics stay consistent: the lock-free open flag
  mirrors the state, probe slots are held only in the half-open state and never more than
  configured, the failure counter equals the number of failures in the window, and the
  window stays within its memory cap.
\<close>

theorem breaker_always_consistent:
  "breaker_inv cfg (foldl (breaker_step cfg) (with_clock now) ops)"
  by (rule breaker_machine.run_inv [OF breaker_inv_with_clock])

text \<open>
  With an error threshold of one half (both presets), recording an outcome in the
  closed state trips the breaker exactly when the live window holds at least
  \<open>min_samples\<close> samples and at least half of them are failures, in spite of the
  floating-point division; otherwise the breaker stays closed.
\<close>

theorem breaker_trips_at_half:
  assumes "breaker_inv cfg b" and "cfg_enabled cfg" and "br_state b = Closed"
    and "error_rate_threshold cfg = 1 / 2" and "0 < min_samples cfg"
    and "es = sw_entries (br_window (push_sample cfg (oc = Failure) b))"
  shows "br_state (record_outcome cfg oc b) =
     (if min_samples cfg \<le> length es \<and> length es \<le> 2 * failure_count es then Open
      else Closed)"
proof -
  have ok: "window_ok (br_window (push_sample cfg (oc = Failure) b))"
    using push_sample_inv [OF assms(1)] by (simp add: breaker_inv_def)
  show ?thesis
    using assms(2,3) should_trip_half [OF ok assms(4,5)]
    by (simp add: record_outcome_def Let_def observe_def trip_def assms(6) push_sample_def)
qed

theorem breaker_trips_at_half_witness:
  "br_state (record_outcome (config_server\<lparr>min_samples := 1\<rparr>) Failure (with_clock 5)) = Open"
proof -
  let ?c = "config_server\<lparr>min_samples := 1\<rparr>"
  have es: "[(5, True)] = sw_entries (br_window (push_sample ?c (Failure = Failure) (with_clock 5)))"
    by (simp add: config_server_def with_clock_def push_sample_def
        sw_push_def sw_new_def sw_evict_def from_secs_def MAX_WINDOW_ENTRIES_def)
  show ?thesis
    using breaker_trips_at_half [OF breaker_inv_with_clock _ _ _ _ es]
    by (simp add: config_server_def with_clock_def)
qed

text \<open>
  An open breaker sheds every request until its cool-down has elapsed: \<open>check\<close>
  returns the remaining time, positive and no longer than the cool-down, and changes
  nothing.
\<close>

theorem open_breaker_sheds:
  assumes "cfg_enabled cfg" and "br_state b = Open"
    and "from_millis (elapsed_millis b - br_opened_at_millis b) < open_duration cfg"
  shows "\<exists>r. check cfg b = (b, Inl (BreakerOpen r)) \<and> 0 < r \<and> r \<le> open_duration cfg
     \<and> r + from_millis (elapsed_millis b - br_opened_at_millis b) = open_duration cfg"
  using assms by (auto simp: check_def check_open_def Let_def)

theorem open_breaker_sheds_witness:
  "\<exists>r. check config_server (trip Closed ''trip'' (with_clock 0)) =
         (trip Closed ''trip'' (with_clock 0), Inl (BreakerOpen r))
     \<and> 0 < r \<and> r \<le> from_secs 10 \<and> r + from_millis 0 = from_secs 10"
  using open_breaker_sheds [of config_server "trip Closed ''trip'' (with_clock 0)"]
  by (simp add: config_server_def trip_def observe_def elapsed_millis_def as_millis_u64_def
      with_clock_def from_secs_def from_millis_def Let_def)

lemma div_gap: "d div m \<le> (x + d) div m - x div (m :: nat)"
proof (cases "m = 0")
  case False
  then have "x div m + d div m \<le> (x + d) div m"
    by (simp add: less_eq_div_iff_mult_less_eq add_mult_distrib add_mono div_times_less_eq_dividend)
  then show ?thesis by simp
qed simp

lemma elapsed_after_advance:
  assumes "breaker_inv cfg b" and "(br_clock b + d - br_baseline b) div 1000000 < 2 ^ 64"
    and "t \<le> (br_clock b - br_baseline b) div 1000000"
  shows "d div 1000000 \<le> elapsed_millis (advance d b) - t"
proof -
  have "br_clock b + d - br_baseline b = br_clock b - br_baseline b + d"
    using assms(1) by (simp add: breaker_inv_def)
  moreover have "d div 1000000 \<le> (br_clock b - br_baseline b + d) div 1000000 - t"
    by (rule le_trans [OF div_gap diff_le_mono2 [OF assms(3)]])
  ultimately show ?thesis
    using assms(2) by (simp add: breaker_defs)
qed

lemma probe_admitted:
  assumes "half_open_max_probes cfg > br_half_open_probes b
      \<or> as_millis_u64 (open_duration cfg) \<le> elapsed_millis b - br_probe_claimed_at_millis b"
  shows "snd (try_half_open_probe cfg b) = Inr ()"
    and "br_state (fst (try_half_open_probe cfg b)) = br_state b"
  using assms by (auto simp: try_half_open_probe_def observe_def Let_def)

text \<open>
  C20. The breaker always recovers: from any consistent state, even with every probe slot
  held by a request that will never report back, one check made a cool-down (plus the
  millisecond lost to truncation) later is admitted, and if that request then reports
  success the breaker closes with an empty window. The clock must stay below \<open>2 ^ 64\<close>
  milliseconds.
\<close>

theorem breaker_recovers:
  assumes "breaker_inv cfg b" and "cfg_enabled cfg" and "1 \<le> half_open_max_probes cfg"
    and "open_duration cfg + 1000000 \<le> d"
    and "(br_clock b + d - br_baseline b) div 1000000 < 2 ^ 64"
    and "check cfg (advance d b) = (b', res)"
  shows "res = Inr ()
     \<and> (br_state b \<noteq> Closed \<longrightarrow>
          br_state (record_outcome cfg Success b') = Closed
          \<and> sw_entries (br_window (record_outcome cfg Success b')) = [])"
proof -
  let ?a = "advance d b"
  have sim: "br_state ?a = br_state b" "br_half_open_probes ?a = br_half_open_probes b"
    "br_opened_at_millis ?a = br_opened_at_millis b"
    "br_probe_claimed_at_millis ?a = br_probe_claimed_at_millis b"
    by (simp_all add: advance_def)
  have gap: "d div 1000000 \<le> elapsed_millis ?a - t"
    if "t \<le> (br_clock b - br_baseline b) div 1000000" for t
    using assms(1,5) that by (rule elapsed_after_advance)
  have lease: "as_millis_u64 (open_duration cfg) \<le> d div 1000000"
  proof -
    have "as_millis_u64 (open_duration cfg) \<le> open_duration cfg div 1000000"
      by (simp add: as_millis_u64_def)
    also have "\<dots> \<le> d div 1000000" using assms(4) by (intro div_le_mono) simp
    finally show ?thesis .
  qed
  have main: "snd (check cfg ?a) = Inr ()
      \<and> (br_state b \<noteq> Closed \<longrightarrow> br_state (fst (check cfg ?a)) = HalfOpen)"
  proof (cases "br_state b")
    case Closed
    then show ?thesis using assms(2) sim by (simp add: check_def)
  next
    case HalfOpen
    have "as_millis_u64 (open_duration cfg) \<le> elapsed_millis ?a - br_probe_claimed_at_millis ?a"
      using lease gap [of "br_probe_claimed_at_millis b"] assms(1) sim
      by (simp add: breaker_inv_def)
    then show ?thesis
      using HalfOpen assms(2) sim probe_admitted [of ?a cfg] by (simp add: check_def)
  next
    case Open
    have "d div 1000000 \<le> elapsed_millis ?a - br_opened_at_millis ?a"
      using gap [of "br_opened_at_millis b"] assms(1) sim by (simp add: breaker_inv_def)
    moreover have "open_duration cfg \<le> from_millis (d div 1000000)"
      using assms(4) div_mult_mod_eq [of d 1000000] mod_less_divisor [of 1000000 d]
      by (simp add: from_millis_def)
    ultimately have el:
      "open_duration cfg \<le> from_millis (elapsed_millis ?a - br_opened_at_millis ?a)"
      by (auto simp: from_millis_def intro: le_trans)
    have "br_half_open_probes ?a = 0"
      using Open assms(1) sim by (simp add: breaker_inv_def)
    then show ?thesis
      using Open assms(2,3) sim el
      by (simp add: check_def check_open_def cas_state_def observe_def Let_def probe_admitted)
  qed
  then show ?thesis
    using assms(2,6)
    by (simp add: record_outcome_def close_breaker_def observe_def sw_clear_def Let_def)
qed

text \<open>A half-open breaker whose only probe was admitted at time 0 and then lost.\<close>

definition stranded_breaker :: breaker where
  "stranded_breaker =
     (with_clock 0)\<lparr>br_state := HalfOpen, br_half_open_probes := 1\<rparr>"

theorem breaker_recovers_witness:
  "snd (check config_server (advance 10001000000 stranded_breaker)) = Inr ()"
proof -
  have "breaker_inv config_server stranded_breaker"
    by (simp add: breaker_inv_def stranded_breaker_def with_clock_def window_ok_new
        config_server_def)
  from breaker_recovers [OF this, where d = 10001000000]
  show ?thesis
    by (simp add: config_server_def from_secs_def stranded_breaker_def with_clock_def
        split_paired_all) (metis prod.collapse)
qed

subsection \<open>Admission is bounded while a lease runs\<close>

datatype probe_op = PCheck | PAdvance nat

text \<open>The number of admitted checks of a run of checks and clock advances.\<close>

fun count_admitted :: "breaker_config \<Rightarrow> breaker \<Rightarrow> probe_op list \<Rightarrow> nat" where
  "count_admitted cfg b [] = 0"
| "count_admitted cfg b (PAdvance d # ops) = count_admitted cfg (advance d b) ops"
| "count_admitted cfg b (PCheck # ops) =
     (case check cfg b of (b', r) \<Rightarrow>
        (if r = Inr () then 1 else 0) + count_admitted cfg b' ops)"

fun total_advance :: "probe_op list \<Rightarrow> nat" where
  "total_advance [] = 0"
| "total_advance (PAdvance d # ops) = d + total_advance ops"
| "total_advance (PCheck # ops) = total_advance ops"

lemma probe_cases:
  assumes "br_state b = HalfOpen" and "br_half_open_probes b \<le> half_open_max_probes cfg"
    and "check cfg b = (b', r)" and "cfg_enabled cfg"
    and "br_half_open_probes b = half_open_max_probes cfg \<Longrightarrow>
       elapsed_millis b - br_probe_claimed_at_millis b < as_millis_u64 (open_duration cfg)"
  shows "br_state b' = HalfOpen \<and> br_clock b' = br_clock b \<and> br_baseline b' = br_baseline b
     \<and> (if br_half_open_probes b < half_open_max_probes cfg
        then r = Inr () \<and> br_half_open_probes b' = br_half_open_probes b + 1
             \<and> br_probe_claimed_at_millis b' = elapsed_millis b
        else r \<noteq> Inr () \<and> br_half_open_probes b' = br_half_open_probes b
             \<and> br_probe_claimed_at_millis b' = br_probe_claimed_at_millis b)"
  using assms by (auto simp: check_def try_half_open_probe_def observe_def Let_def split: if_splits)

lemma admitted_bound:
  assumes "cfg_enabled cfg"
    and "br_state b = HalfOpen" and "br_half_open_probes b \<le> half_open_max_probes cfg"
    and "br_baseline b \<le> br_clock b" and "t0 \<le> (br_clock b - br_baseline b) div 1000000"
    and "br_half_open_probes b = half_open_max_probes cfg \<Longrightarrow> t0 \<le> br_probe_claimed_at_millis b"
    and "(br_clock b + total_advance ops - br_baseline b) div 1000000
           < min (2 ^ 64) (t0 + as_millis_u64 (open_duration cfg))"
  shows "count_admitted cfg b ops \<le> half_open_max_probes cfg - br_half_open_probes b"
  using assms
proof (induction cfg b ops rule: count_admitted.induct)
  case (1 cfg b)
  then show ?case by simp
next
  case (2 cfg b d ops)
  have "t0 \<le> (br_clock b + d - br_baseline b) div 1000000"
    using "2.prems"(5) div_le_mono [of "br_clock b - br_baseline b" "br_clock b + d - br_baseline b" 1000000]
    by simp
  then show ?case using "2.IH" "2.prems" by (simp add: advance_def ac_simps)
next
  case (3 cfg b ops)
  obtain b' r where c: "check cfg b = (b', r)" by fastforce
  have now: "elapsed_millis b = (br_clock b - br_baseline b) div 1000000"
  proof -
    have "(br_clock b - br_baseline b) div 1000000
        \<le> (br_clock b + total_advance (PCheck # ops) - br_baseline b) div 1000000"
      by (intro div_le_mono diff_le_mono) simp
    then show ?thesis using "3.prems"(7) by (simp add: elapsed_millis_def as_millis_u64_def)
  qed
  have lt: "elapsed_millis b < t0 + as_millis_u64 (open_duration cfg)"
  proof -
    have "elapsed_millis b
        \<le> (br_clock b + total_advance (PCheck # ops) - br_baseline b) div 1000000"
      unfolding now by (intro div_le_mono diff_le_mono) simp
    then show ?thesis using "3.prems"(7) by linarith
  qed
  have lease: "elapsed_millis b - br_probe_claimed_at_millis b < as_millis_u64 (open_duration cfg)"
    if "br_half_open_probes b = half_open_max_probes cfg"
    using "3.prems"(6) [OF that] lt "3.prems"(5) now by linarith
  have st: "br_state b' = HalfOpen \<and> br_clock b' = br_clock b \<and> br_baseline b' = br_baseline b
     \<and> (if br_half_open_probes b < half_open_max_probes cfg
        then r = Inr () \<and> br_half_open_probes b' = br_half_open_probes b + 1
             \<and> br_probe_claimed_at_millis b' = elapsed_millis b
        else r \<noteq> Inr () \<and> br_half_open_probes b' = br_half_open_probes b
             \<and> br_probe_claimed_at_millis b' = br_probe_claimed_at_millis b)"
    using "3.prems"(2,3) c "3.prems"(1) lease by (rule probe_cases)
  have "count_admitted cfg b' ops \<le> half_open_max_probes cfg - br_half_open_probes b'"
    by (rule "3.IH" [OF c [symmetric]])
      (use st "3.prems" now in \<open>auto split: if_splits\<close>)
  then show ?case using st c by (auto split: if_splits)
qed

lemma open_admitted_bound:
  assumes "cfg_enabled cfg" and "1 \<le> half_open_max_probes cfg"
    and "br_state b = Open" and "br_half_open_probes b = 0"
    and "br_baseline b \<le> br_clock b" and "t0 \<le> (br_clock b - br_baseline b) div 1000000"
    and "(br_clock b + total_advance ops - br_baseline b) div 1000000
           < min (2 ^ 64) (t0 + as_millis_u64 (open_duration cfg))"
  shows "count_admitted cfg b ops \<le> half_open_max_probes cfg"
  using assms
proof (induction cfg b ops rule: count_admitted.induct)
  case (2 cfg b d ops)
  have "t0 \<le> (br_clock b + d - br_baseline b) div 1000000"
    using "2.prems"(6) div_le_mono [of "br_clock b - br_baseline b" "br_clock b + d - br_baseline b" 1000000]
    by simp
  then show ?case using "2.IH" "2.prems" by (simp add: advance_def ac_simps)
next
  case (3 cfg b ops)
  obtain b' r where c: "check cfg b = (b', r)" by fastforce
  have now: "elapsed_millis b = (br_clock b - br_baseline b) div 1000000"
  proof -
    have "(br_clock b - br_baseline b) div 1000000
        \<le> (br_clock b + total_advance (PCheck # ops) - br_baseline b) div 1000000"
      by (intro div_le_mono diff_le_mono) simp
    then show ?thesis using "3.prems"(7) by (simp add: elapsed_millis_def as_millis_u64_def)
  qed
  have "r \<noteq> Inr () \<and> b' = b
     \<or> r = Inr () \<and> br_state b' = HalfOpen \<and> br_half_open_probes b' = 1
       \<and> br_clock b' = br_clock b \<and> br_baseline b' = br_baseline b
       \<and> br_probe_claimed_at_millis b' = elapsed_millis b"
    using c "3.prems"(1-4)
    by (auto simp: check_def check_open_def cas_state_def try_half_open_probe_def observe_def
        elapsed_millis_def Let_def split: if_splits)
  then consider "r \<noteq> Inr ()" "b' = b" | "r = Inr ()" "br_state b' = HalfOpen" "br_half_open_probes b' = 1"
    "br_clock b' = br_clock b" "br_baseline b' = br_baseline b" "br_probe_claimed_at_millis b' = elapsed_millis b"
    by blast
  then show ?case
  proof cases
    case 1
    then show ?thesis using "3.IH" [OF c [symmetric]] "3.prems" c by simp
  next
    case 2
    have "count_admitted cfg b' ops \<le> half_open_max_probes cfg - br_half_open_probes b'"
      using 2 "3.prems" now by (intro admitted_bound [of cfg b' t0]) simp_all
    then show ?thesis using 2 c "3.prems"(2) by simp
  qed
qed simp

text \<open>
  C19. Whatever a breaker has been through, once it is open its checks let at most
  \<open>half_open_max_probes\<close> requests through within the time of one cool-down, the probe that opens the
  half-open episode included, however many callers ask and however the clock advances in between.
\<close>

theorem half_open_admission_bound:
  assumes "cfg_enabled cfg" and "1 \<le> half_open_max_probes cfg"
    and "b = foldl (breaker_step cfg) (with_clock now) history" and "br_state b = Open"
    and "(br_clock b + total_advance ops - br_baseline b) div 1000000
           < min (2 ^ 64) ((br_clock b - br_baseline b) div 1000000
                            + as_millis_u64 (open_duration cfg))"
  shows "count_admitted cfg b ops \<le> half_open_max_probes cfg"
proof -
  have "breaker_inv cfg b"
    unfolding assms(3) by (rule breaker_machine.run_inv [OF breaker_inv_with_clock])
  then show ?thesis
    using assms(4) by (intro open_admitted_bound [OF assms(1,2,4) _ _ order_refl assms(5)])
      (simp_all add: breaker_inv_def)
qed

text \<open>A breaker that trips on one failure, ten seconds after it did.\<close>

definition tripped_history :: "breaker_op list" where
  "tripped_history = [OpRecord Failure, OpAdvance 10000000000]"

theorem half_open_admission_bound_witness:
  "count_admitted (config_server\<lparr>min_samples := 1\<rparr>)
     (foldl (breaker_step (config_server\<lparr>min_samples := 1\<rparr>)) (with_clock 0) tripped_history)
     [PCheck, PAdvance 9000000000, PCheck] \<le> 1"
proof -
  let ?cfg = "config_server\<lparr>min_samples := 1\<rparr>"
  let ?b = "foldl (breaker_step ?cfg) (with_clock 0) tripped_history"
  have w: "1 / 2 \<le> f64_div 1 1"
    by (simp add: f64_div_def norm_shift.simps round_div_def Let_def)
  have "br_state ?b = Open \<and> br_clock ?b = 10000000000 \<and> br_baseline ?b = 0"
    using w by (simp add: tripped_history_def record_outcome_def push_sample_def should_trip_def
        config_server_def with_clock_def sw_push_def sw_evict_def sw_error_rate_def
        sw_sample_count_def sw_new_def trip_def observe_def advance_def
        MAX_WINDOW_ENTRIES_def Let_def from_secs_def)
  then show ?thesis
    using half_open_admission_bound [of ?cfg ?b 0 tripped_history "[PCheck, PAdvance 9000000000, PCheck]"]
    by (simp add: config_server_def as_millis_u64_def from_secs_def)
qed

subsection \<open>The observer sees every transition\<close>

text \<open>
  Replaying the logged transitions from a state: each must start where the last one ended
  and change the state.
\<close>

fun replay :: "breaker_state \<Rightarrow> observation list \<Rightarrow> breaker_state option" where
  "replay s [] = Some s"
| "replay s (StateChange old new reason # es) =
     (if old = s \<and> new \<noteq> old then replay new es else None)"
| "replay s (ProbeAdmission a # es) = replay s es"
| "replay s (OnOutcome oc st # es) = replay s es"

lemma replay_append:
  "replay s (es @ fs) = (case replay s es of None \<Rightarrow> None | Some t \<Rightarrow> replay t fs)"
  by (induction s es rule: replay.induct) auto

definition log_ok :: "breaker \<Rightarrow> bool" where
  "log_ok b \<longleftrightarrow> replay Closed (br_log b) = Some (br_state b)"

lemma log_ok_probe: "log_ok b \<Longrightarrow> log_ok (fst (try_half_open_probe cfg b))"
  by (simp add: log_ok_def try_half_open_probe_def observe_def replay_append Let_def)

lemma log_ok_check: "log_ok b \<Longrightarrow> log_ok (fst (check cfg b))"
  by (auto simp: check_def check_open_def cas_state_def Let_def observe_def
      split: breaker_state.split intro!: log_ok_probe)
    (auto simp: log_ok_def replay_append)

lemma log_ok_record: "log_ok b \<Longrightarrow> log_ok (record_outcome cfg oc b)"
  by (auto simp: log_ok_def record_outcome_def observe_def trip_def close_breaker_def
      push_sample_def replay_append Let_def split: breaker_state.split)

interpretation log_machine: machine "breaker_step cfg" log_ok for cfg
proof
  fix s a assume "log_ok s"
  then show "log_ok (breaker_step cfg s a)"
    by (cases a)
      (simp_all add: log_ok_check log_ok_record, simp_all add: log_ok_def error_rate_def advance_def Let_def)
qed

text \<open>
  The observer is told of every state transition, once and in order: replaying the
  logged transitions from the closed state leads to the breaker's current state, and each
  logged transition starts in the state the previous one left.
\<close>

theorem observer_log_replays:
  "replay Closed (br_log (foldl (breaker_step cfg) (with_clock now) ops))
     = Some (br_state (foldl (breaker_step cfg) (with_clock now) ops))"
proof -
  have "log_ok (with_clock now)" by (simp add: log_ok_def with_clock_def)
  then show ?thesis using log_machine.run_inv by (simp add: log_ok_def)
qed

end
