(* ===== verification/GB_RetryPolicy.thy ===== *)
theory GB_RetryPolicy
  imports GB_CircuitBreaker
begin

section \<open>Retry classification and the breaker registry (crates/common/xai-circuit-breaker)\<close>

text \<open>
  \<open>retry_policy.rs\<close> (HTTP status codes as \<open>u16\<close> words), \<open>grpc.rs\<close> (the \<open>tonic::Code\<close>
  values are the parameter type of the policy, with \<open>Ok\<close> as its distinguished value),
  \<open>registry.rs\<close> and the failure-code parser of \<open>config.rs\<close>.
\<close>

type_synonym u16 = "16 word"

datatype disposition = Retryable | AuthRefresh | Terminal

record retry_policy =
  rp_retryable :: "u16 list"
  rp_auth_refresh :: "u16 list"
  rp_terminal :: "u16 list"
  rp_default :: disposition

definition in_range :: "u16 \<Rightarrow> u16 \<Rightarrow> u16 \<Rightarrow> bool" where
  "in_range lo hi s \<longleftrightarrow> lo \<le> s \<and> s < hi"

definition classify :: "retry_policy \<Rightarrow> u16 \<Rightarrow> disposition option" where
  "classify p status =
     (if in_range 200 300 status then None
      else if status \<in> set (rp_auth_refresh p) then Some AuthRefresh
      else if status \<in> set (rp_terminal p) then Some Terminal
      else if status \<in> set (rp_retryable p) \<or> in_range 500 600 status then Some Retryable
      else Some (rp_default p))"

definition should_retry :: "retry_policy \<Rightarrow> u16 \<Rightarrow> bool" where
  "should_retry p status \<longleftrightarrow> classify p status = Some Retryable"

definition policy_server :: retry_policy where
  "policy_server =
     \<lparr>rp_retryable = [429], rp_auth_refresh = [], rp_terminal = [], rp_default = Terminal\<rparr>"

definition policy_edge_client :: retry_policy where
  "policy_edge_client =
     \<lparr>rp_retryable = [429], rp_auth_refresh = [], rp_terminal = [525, 526],
      rp_default = Terminal\<rparr>"

definition policy_client_storage :: retry_policy where
  "policy_client_storage =
     \<lparr>rp_retryable = [], rp_auth_refresh = [401], rp_terminal = [400, 403, 404, 525, 526],
      rp_default = Retryable\<rparr>"

text \<open>\<open>GrpcRetryPolicy\<close>: \<open>ok\<close> is \<open>Code::Ok\<close>.\<close>

definition grpc_is_retryable :: "'code list \<Rightarrow> 'code \<Rightarrow> bool" where
  "grpc_is_retryable retryable c \<longleftrightarrow> c \<in> set retryable"

definition grpc_classify :: "'code \<Rightarrow> 'code list \<Rightarrow> 'code \<Rightarrow> disposition option" where
  "grpc_classify ok retryable c =
     (if c = ok then None
      else if grpc_is_retryable retryable c then Some Retryable
      else Some Terminal)"

subsection \<open>Parsing the failure codes\<close>

text \<open>\<open>u16::from_str\<close>: an optional plus sign, then decimal digits, no overflow.\<close>

fun digits_value :: "nat \<Rightarrow> string \<Rightarrow> nat option" where
  "digits_value acc [] = Some acc"
| "digits_value acc (c # cs) =
     (if is_ascii_digit c then digits_value (10 * acc + (of_char c - 48)) cs else None)"

definition parse_u16 :: "string \<Rightarrow> u16 option" where
  "parse_u16 s =
     (let ds = (case s of [] \<Rightarrow> [] | c # cs \<Rightarrow> if c = CHR ''+'' then cs else s)
      in if ds = [] then None
         else (case digits_value 0 ds of
                 None \<Rightarrow> None
               | Some n \<Rightarrow> if n < 65536 then Some (of_nat n) else None))"

definition parse_failure_codes :: "string \<Rightarrow> u16 list" where
  "parse_failure_codes s = List.map_filter (\<lambda>c. parse_u16 (trim c)) (split_char (CHR '','') s)"

subsection \<open>The registry\<close>

text \<open>
  \<open>HashMap<String, Arc<CircuitBreaker>>\<close>: the breakers live in a store and the map holds
  their addresses, so two clones of one \<open>Arc\<close> are equal addresses.
\<close>

record registry =
  reg_config :: breaker_config
  reg_breakers :: "string \<rightharpoonup> nat"
  reg_store :: "breaker list"

definition registry_new :: "breaker_config \<Rightarrow> registry" where
  "registry_new cfg = \<lparr>reg_config = cfg, reg_breakers = Map.empty, reg_store = []\<rparr>"

definition registry_get :: "nat \<Rightarrow> string \<Rightarrow> registry \<Rightarrow> registry \<times> nat option" where
  "registry_get now key r =
     (if \<not> cfg_enabled (reg_config r) then (r, None)
      else case reg_breakers r key of
             Some i \<Rightarrow> (r, Some i)
           | None \<Rightarrow>
               (let i = length (reg_store r)
                in (r\<lparr>reg_breakers := (reg_breakers r)(key \<mapsto> i),
                      reg_store := reg_store r @ [with_clock now]\<rparr>, Some i)))"

definition registry_ok :: "registry \<Rightarrow> bool" where
  "registry_ok r \<longleftrightarrow>
     (\<forall>k i. reg_breakers r k = Some i \<longrightarrow> i < length (reg_store r))
     \<and> inj_on (reg_breakers r) (dom (reg_breakers r))"

lemma registry_ok_new: "registry_ok (registry_new cfg)"
  by (simp add: registry_ok_def registry_new_def)

lemma registry_get_ok: "registry_ok r \<Longrightarrow> registry_ok (fst (registry_get now key r))"
  by (auto simp: registry_ok_def registry_get_def Let_def inj_on_def less_Suc_eq
      split: option.split)
    (metis less_irrefl_nat)+

lemma registry_get_lookup:
  "cfg_enabled (reg_config r) \<Longrightarrow> registry_get now key r = (r', h) \<Longrightarrow>
     \<exists>i. h = Some i \<and> reg_breakers r' key = Some i
       \<and> (\<forall>k j. reg_breakers r k = Some j \<longrightarrow> reg_breakers r' k = Some j)
       \<and> reg_config r' = reg_config r"
  by (cases "reg_breakers r key") (auto simp: registry_get_def Let_def dest: sym)

fun registry_step :: "registry \<Rightarrow> nat \<times> string \<Rightarrow> registry" where
  "registry_step r (now, key) = fst (registry_get now key r)"

interpretation registry_machine: machine registry_step registry_ok
  by unfold_locales (auto simp: registry_get_ok)

lemma registry_keeps:
  "reg_breakers r k = Some i \<Longrightarrow> reg_breakers (foldl registry_step r gs) k = Some i"
proof (induction gs arbitrary: r)
  case (Cons g gs)
  have "reg_breakers (registry_step r g) k = Some i"
    using Cons.prems by (cases g) (auto simp: registry_get_def Let_def split: option.split)
  then show ?case using Cons.IH by simp
qed simp

lemma registry_config_fixed: "reg_config (foldl registry_step r gs) = reg_config r"
proof (induction gs arbitrary: r)
  case (Cons g gs)
  have "reg_config (registry_step r g) = reg_config r"
    by (cases g) (auto simp: registry_get_def Let_def split: option.split)
  then show ?case using Cons.IH by simp
qed simp

subsection \<open>Properties\<close>

text \<open>
  The edge-client preset retries exactly what the server preset retries, except the
  two origin-TLS codes 525 and 526; both call every other non-2xx answer terminal, and
  neither ever asks for an authentication refresh.
\<close>

theorem edge_client_is_server_minus_tls:
  "classify policy_edge_client s =
     (if s = 525 \<or> s = 526 then Some Terminal else classify policy_server s)
   \<and> classify policy_server s =
     (if in_range 200 300 s then None
      else if s = 429 \<or> in_range 500 600 s then Some Retryable else Some Terminal)"
  by (auto simp: classify_def policy_edge_client_def policy_server_def in_range_def)

text \<open>
  The storage preset: success codes are not classified, 401 refreshes credentials,
  400, 403, 404, 525 and 526 are dropped, and every other status, listed or not, is
  retried.
\<close>

theorem client_storage_table:
  "classify policy_client_storage s =
     (if in_range 200 300 s then None
      else if s = 401 then Some AuthRefresh
      else if s \<in> {400, 403, 404, 525, 526} then Some Terminal
      else Some Retryable)"
  by (auto simp: classify_def policy_client_storage_def)

text \<open>
  A registry hands out one breaker per key: after any sequence of lookups, asking for
  the same key again yields the same breaker and two different keys never share one.
\<close>

theorem registry_one_breaker_per_key:
  assumes "cfg_enabled cfg"
    and "registry_get n1 k1 (foldl registry_step (registry_new cfg) gs) = (r1, h1)"
    and "registry_get n2 k2 (foldl registry_step r1 hs) = (r2, h2)"
  shows "h1 \<noteq> None \<and> h2 \<noteq> None \<and> (h1 = h2 \<longleftrightarrow> k1 = k2)"
proof -
  let ?r0 = "foldl registry_step (registry_new cfg) gs"
  have ok0: "registry_ok ?r0"
    using registry_ok_new by (rule registry_machine.run_inv)
  have en0: "cfg_enabled (reg_config ?r0)"
    using assms(1) by (simp add: registry_config_fixed registry_new_def)
  obtain i where i: "h1 = Some i" "reg_breakers r1 k1 = Some i" "reg_config r1 = reg_config ?r0"
    using registry_get_lookup [OF en0 assms(2)] by auto
  have ok1: "registry_ok r1" using registry_get_ok [OF ok0, of n1 k1] assms(2) by simp
  let ?r1 = "foldl registry_step r1 hs"
  have ok1': "registry_ok ?r1" using ok1 by (rule registry_machine.run_inv)
  have en1: "cfg_enabled (reg_config ?r1)" using en0 i(3) by (simp add: registry_config_fixed)
  obtain j where j: "h2 = Some j" "reg_breakers r2 k2 = Some j"
    and keep: "\<forall>k l. reg_breakers ?r1 k = Some l \<longrightarrow> reg_breakers r2 k = Some l"
    using registry_get_lookup [OF en1 assms(3)] by auto
  have "reg_breakers r2 k1 = Some i" using registry_keeps [OF i(2)] keep by blast
  moreover have "registry_ok r2" using registry_get_ok [OF ok1', of n2 k2] assms(3) by simp
  ultimately have "i = j \<longleftrightarrow> k1 = k2"
    using j(2) unfolding registry_ok_def inj_on_def by (metis domI option.inject)
  then show ?thesis using i(1) j(1) by simp
qed

theorem registry_one_breaker_per_key_witness:
  "\<exists>r1 h1 r2 h2. registry_get 0 ''a'' (registry_new config_server) = (r1, h1)
     \<and> registry_get 0 ''b'' r1 = (r2, h2) \<and> h1 \<noteq> h2"
proof -
  obtain r1 h1 r2 h2
    where "registry_get 0 ''a'' (registry_new config_server) = (r1, h1)"
      and "registry_get 0 ''b'' r1 = (r2, h2)"
    by (metis surj_pair)
  then show ?thesis
    using registry_one_breaker_per_key [of config_server 0 "''a''" "[]" r1 h1 0 "''b''" "[]" r2 h2]
    by (auto simp: config_server_def)
qed

end
