(* ===== verification/GB_MessageDelivery.thy ===== *)
theory GB_MessageDelivery
  imports GB_Prelude "HOL-Library.Multiset"
begin

section \<open>Message delivery (crates/common/xai-message-delivery-core)\<close>

text \<open>
  Addresses and identities (\<open>address.rs\<close>, \<open>identity.rs\<close>), operation authorization
  (\<open>envelope.rs\<close>) and the turn-bound delivery lifecycle (\<open>lifecycle.rs\<close>). Entropy is the
  \<open>u128\<close> the host supplies.
\<close>

unbundle bit_operations_syntax

subsection \<open>Hexadecimal tokens\<close>

type_synonym u128 = "128 word"

definition hex_digit :: "nat \<Rightarrow> char" where
  "hex_digit d = (if d < 10 then char_of (48 + d) else char_of (87 + d))"

text \<open>\<open>format!("{:x}")\<close>: lower-case digits, most significant first, \<open>0\<close> for zero.\<close>

fun hex_nat :: "nat \<Rightarrow> string" where
  "hex_nat n = (if n < 16 then [hex_digit n] else hex_nat (n div 16) @ [hex_digit (n mod 16)])"

declare hex_nat.simps [simp del]

definition is_lower_hex :: "char \<Rightarrow> bool" where
  "is_lower_hex c \<longleftrightarrow>
     is_ascii_digit c \<or> (let n = (of_char c :: nat) in 97 \<le> n \<and> n \<le> 102)"

lemma hex_digit_lower: "d < 16 \<Longrightarrow> is_lower_hex (hex_digit d)"
  by (auto simp: hex_digit_def is_lower_hex_def is_ascii_digit_def Let_def of_char_of)

lemma hex_nat_lower: "list_all is_lower_hex (hex_nat n)"
proof (induction n rule: hex_nat.induct)
  case (1 n)
  then show ?case by (subst hex_nat.simps) (auto simp: hex_digit_lower)
qed

lemma hex_nat_nonempty: "hex_nat n \<noteq> []"
  by (subst hex_nat.simps) simp

definition hex_value :: "char \<Rightarrow> nat" where
  "hex_value c = (let n = of_char c in if n < 58 then n - 48 else n - 87)"

lemma hex_value_digit: "d < 16 \<Longrightarrow> hex_value (hex_digit d) = d"
  by (auto simp: hex_value_def hex_digit_def Let_def of_char_of)

definition unhex :: "string \<Rightarrow> nat" where
  "unhex s = foldl (\<lambda>acc c. 16 * acc + hex_value c) 0 s"

lemma unhex_hex_nat: "unhex (hex_nat n) = n"
proof (induction n rule: hex_nat.induct)
  case (1 n)
  show ?case
  proof (cases "n < 16")
    case True
    then show ?thesis by (subst hex_nat.simps) (simp add: unhex_def hex_value_digit)
  next
    case False
    then have "unhex (hex_nat (n div 16)) = n div 16" using "1.IH" by simp
    with False show ?thesis
      by (subst hex_nat.simps) (simp add: unhex_def hex_value_digit)
  qed
qed

lemma hex_nat_inj: "hex_nat m = hex_nat n \<longleftrightarrow> m = n"
  by (metis unhex_hex_nat)

subsection \<open>Identities\<close>

definition AGENT_PREFIX :: string where "AGENT_PREFIX = ''ag1.''"
definition ATTEMPT_PREFIX :: string where "ATTEMPT_PREFIX = ''at1.''"
definition ADDRESS_PREFIX :: string where "ADDRESS_PREFIX = ''aa1.''"

datatype agent_id = AgentId (agent_str: string)
datatype attempt_id = AttemptId (attempt_str: string)
datatype agent_address = AgentAddress (address_str: string)

definition agent_mint :: "u128 \<Rightarrow> agent_id" where
  "agent_mint entropy = AgentId (AGENT_PREFIX @ hex_nat (unat entropy))"

definition attempt_mint :: "u128 \<Rightarrow> attempt_id" where
  "attempt_mint entropy = AttemptId (ATTEMPT_PREFIX @ hex_nat (unat entropy))"

definition address_mint :: "u128 \<Rightarrow> agent_address" where
  "address_mint entropy = AgentAddress (ADDRESS_PREFIX @ hex_nat (unat entropy))"

definition UUID_TOKEN_LEN :: nat where "UUID_TOKEN_LEN = 36"
definition UUID_HYPHENS :: "nat list" where "UUID_HYPHENS = [8, 13, 18, 23]"
definition UUID_V7_INDEX :: nat where "UUID_V7_INDEX = 14"
definition UUID_VARIANT_INDEX :: nat where "UUID_VARIANT_INDEX = 19"

definition is_uuid_v7 :: "string \<Rightarrow> bool" where
  "is_uuid_v7 token \<longleftrightarrow>
     length token = UUID_TOKEN_LEN
     \<and> list_all (\<lambda>(i, b). if i \<in> set UUID_HYPHENS then b = CHR ''-'' else is_lower_hex b)
         (enumerate 0 token)
     \<and> token ! UUID_V7_INDEX = CHR ''7''
     \<and> token ! UUID_VARIANT_INDEX \<in> {CHR ''8'', CHR ''9'', CHR ''a'', CHR ''b''}"

definition parse_prefixed :: "string \<Rightarrow> string \<Rightarrow> string option" where
  "parse_prefixed tok pre =
     (let token = trim tok
      in case strip_prefix token pre of
           None \<Rightarrow> None
         | Some rest \<Rightarrow>
             if rest = [] \<or> \<not> list_all is_lower_hex rest then None else Some token)"

definition agent_parse :: "string \<Rightarrow> agent_id option" where
  "agent_parse tok =
     (let token = trim tok
      in if is_uuid_v7 token then Some (AgentId token)
         else map_option AgentId (parse_prefixed token AGENT_PREFIX))"

definition agent_from_uuid_v7 :: "string \<Rightarrow> agent_id option" where
  "agent_from_uuid_v7 token = (if is_uuid_v7 token then Some (AgentId token) else None)"

definition attempt_parse :: "string \<Rightarrow> attempt_id option" where
  "attempt_parse token = map_option AttemptId (parse_prefixed token ATTEMPT_PREFIX)"

datatype identity_action =
    Start agent_id attempt_id
  | Resume agent_id attempt_id
  | Fork agent_id attempt_id

definition next_identity :: "agent_id option \<Rightarrow> bool \<Rightarrow> u128 \<Rightarrow> u128 \<Rightarrow> identity_action" where
  "next_identity previous fork agent_entropy attempt_entropy =
     (let attempt = attempt_mint attempt_entropy
      in case previous of
           None \<Rightarrow> Start (agent_mint agent_entropy) attempt
         | Some agent \<Rightarrow>
             if fork then Fork (agent_mint agent_entropy) attempt else Resume agent attempt)"

subsection \<open>Addresses\<close>

definition eq_ignore_ascii_case :: "string \<Rightarrow> string \<Rightarrow> bool" where
  "eq_ignore_ascii_case a b \<longleftrightarrow> ascii_lower a = ascii_lower b"

definition is_presentable :: "string \<Rightarrow> bool" where
  "is_presentable token \<longleftrightarrow>
     token \<noteq> []
     \<and> \<not> eq_ignore_ascii_case token ''null''
     \<and> \<not> eq_ignore_ascii_case token ''none''
     \<and> \<not> eq_ignore_ascii_case token ''undefined''"

definition address_parse :: "string \<Rightarrow> agent_address option" where
  "address_parse tok =
     (let token = trim tok in if \<not> is_presentable token then None else Some (AgentAddress token))"

definition mint_child_address :: "bool \<Rightarrow> u128 \<Rightarrow> agent_address option" where
  "mint_child_address workflow entropy =
     (if workflow then None else Some (address_mint entropy))"

definition advertised_address :: "string option \<Rightarrow> bool \<Rightarrow> string option" where
  "advertised_address stored workflow =
     (if workflow then None
      else case stored of
             None \<Rightarrow> None
           | Some token \<Rightarrow> if address_parse token \<noteq> None then Some token else None)"

datatype address_presence = Active | Pending | Gone

record address_candidate =
  ac_stored_address :: "string option"
  ac_session_id :: string
  ac_owner_match :: bool
  ac_generation_current :: bool
  ac_workflow :: bool
  ac_presence :: address_presence

datatype address_decision =
    Owned address_presence
  | RawSessionId
  | Foreign
  | Stale
  | WorkflowNotAddressable
  | Unresolved

definition resolve_address :: "string \<Rightarrow> address_candidate option \<Rightarrow> address_decision" where
  "resolve_address presented0 candidate0 =
     (case candidate0 of
        None \<Rightarrow> Unresolved
      | Some candidate \<Rightarrow>
          let presented = trim presented0;
              address_match = (ac_stored_address candidate = Some presented)
          in if ac_session_id candidate = presented \<and> \<not> address_match then RawSessionId
             else if \<not> address_match then Unresolved
             else if ac_workflow candidate then WorkflowNotAddressable
             else if \<not> ac_owner_match candidate then Foreign
             else if \<not> ac_generation_current candidate \<or> ac_presence candidate = Gone then Stale
             else Owned (ac_presence candidate))"

subsection \<open>Operations a principal may use\<close>

datatype principal = Human | Agent | Runtime

datatype operation = Queue | Steer | Interject | InterruptAndSend

type_synonym operation_set = u8

definition OPS_QUEUE :: operation_set where "OPS_QUEUE = 1"
definition OPS_QUEUE_AND_STEER :: operation_set where
  "OPS_QUEUE_AND_STEER = (push_bit 0 1) OR (push_bit 1 1)"

fun operation_flag :: "operation \<Rightarrow> u8" where
  "operation_flag Queue = push_bit 0 1"
| "operation_flag Steer = push_bit 1 1"
| "operation_flag Interject = push_bit 2 1"
| "operation_flag InterruptAndSend = push_bit 3 1"

definition ops_contains :: "operation_set \<Rightarrow> operation \<Rightarrow> bool" where
  "ops_contains s p \<longleftrightarrow> s AND operation_flag p \<noteq> 0"

text \<open>\<open>Inl\<close> is \<open>UnsupportedOperation\<close>, \<open>Inr\<close> is \<open>AuthorizedOperation\<close>.\<close>

definition authorize_operation :: "operation_set \<Rightarrow> operation \<Rightarrow> operation + operation" where
  "authorize_operation allowed requested =
     (if ops_contains allowed requested then Inr requested else Inl requested)"

subsection \<open>Tokens survive parsing\<close>

lemma lower_hex_graphic: "is_lower_hex c \<Longrightarrow> is_graphic c"
  by (auto simp: is_lower_hex_def is_ascii_digit_def is_graphic_def Let_def)

lemma minted_graphic:
  "is_graphic p \<Longrightarrow> is_graphic (hd ((p # ps) @ hex_nat n)) \<and> is_graphic (last ((p # ps) @ hex_nat n))"
  using hex_nat_nonempty [of n] hex_nat_lower [of n]
  by (auto simp: list_all_iff lower_hex_graphic)

lemma prefix_chars_graphic: "is_graphic (CHR ''a'')"
  by (simp add: is_graphic_def)

lemma parse_prefixed_minted:
  "is_graphic p \<Longrightarrow>
     parse_prefixed ((p # ps) @ hex_nat n) (p # ps) = Some ((p # ps) @ hex_nat n)"
proof -
  assume "is_graphic p"
  then have "trim ((p # ps) @ hex_nat n) = (p # ps) @ hex_nat n"
    using minted_graphic by (intro trim_graphic) (simp, blast+)
  moreover have "strip_prefix ((p # ps) @ hex_nat n) (p # ps) = Some (hex_nat n)"
    by (simp only: strip_prefix_Some)
  ultimately show ?thesis
    by (simp add: parse_prefixed_def hex_nat_nonempty hex_nat_lower)
qed

lemma minted_trim:
  "trim (AGENT_PREFIX @ hex_nat n) = AGENT_PREFIX @ hex_nat n"
  unfolding AGENT_PREFIX_def
  using minted_graphic [OF prefix_chars_graphic] by (intro trim_graphic) (simp, blast+)

text \<open>
  Minted identities survive the text form: parsing the string of a freshly minted
  agent or attempt identity gives the identity back, and two mints give the same identity
  only from the same entropy.
\<close>

theorem mint_parse_roundtrip:
  "agent_parse (agent_str (agent_mint e)) = Some (agent_mint e)
   \<and> attempt_parse (attempt_str (attempt_mint e)) = Some (attempt_mint e)
   \<and> (agent_mint e = agent_mint f \<longleftrightarrow> e = f)
   \<and> (attempt_mint e = attempt_mint f \<longleftrightarrow> e = f)"
proof (intro conjI)
  show "agent_parse (agent_str (agent_mint e)) = Some (agent_mint e)"
    using parse_prefixed_minted [OF prefix_chars_graphic, of "''g1.''"]
    by (simp add: agent_parse_def agent_mint_def minted_trim Let_def) (simp add: AGENT_PREFIX_def)
  show "attempt_parse (attempt_str (attempt_mint e)) = Some (attempt_mint e)"
    using parse_prefixed_minted [OF prefix_chars_graphic, of "''t1.''"]
    by (simp add: attempt_parse_def attempt_mint_def ATTEMPT_PREFIX_def)
  show "agent_mint e = agent_mint f \<longleftrightarrow> e = f"
    by (simp add: agent_mint_def hex_nat_inj word_unat_eq_iff)
  show "attempt_mint e = attempt_mint f \<longleftrightarrow> e = f"
    by (simp add: attempt_mint_def hex_nat_inj word_unat_eq_iff)
qed

text \<open>
  How the next activation is identified: the attempt is always the freshly minted
  one; the previous agent is kept exactly when there is one and no fork is asked for;
  without a previous agent the action is a start even when a fork is asked for.
\<close>

theorem next_identity_table:
  "next_identity None fork a t = Start (agent_mint a) (attempt_mint t)
   \<and> next_identity (Some prev) True a t = Fork (agent_mint a) (attempt_mint t)
   \<and> next_identity (Some prev) False a t = Resume prev (attempt_mint t)"
  by (simp add: next_identity_def Let_def)

text \<open>
  A presented token is resolved to a deliverable address exactly when the candidate's
  stored address equals it (after trimming), the candidate is no workflow child, belongs to
  the caller, is of the current generation and is not gone; a session id alone never is.
\<close>

theorem resolve_address_owned_iff:
  "resolve_address tok (Some c) = Owned p \<longleftrightarrow>
     ac_stored_address c = Some (trim tok) \<and> \<not> ac_workflow c \<and> ac_owner_match c
     \<and> ac_generation_current c \<and> ac_presence c = p \<and> p \<noteq> Gone"
  by (auto simp: resolve_address_def Let_def)

lemma resolve_address_raw_session:
  "resolve_address tok (Some c) = RawSessionId \<longleftrightarrow>
     ac_session_id c = trim tok \<and> ac_stored_address c \<noteq> Some (trim tok)"
  by (auto simp: resolve_address_def Let_def)

text \<open>
  The bit sets of the operation grants mean what their names say: the queue grant
  authorizes queueing and nothing else, the queue-and-steer grant those two and nothing
  else.
\<close>

theorem grants_authorize_exactly:
  "authorize_operation OPS_QUEUE op = (if op = Queue then Inr op else Inl op)
   \<and> authorize_operation OPS_QUEUE_AND_STEER op =
       (if op = Queue \<or> op = Steer then Inr op else Inl op)"
  by (cases op)
    (simp_all add: authorize_operation_def ops_contains_def OPS_QUEUE_def
      OPS_QUEUE_AND_STEER_def)

end
