(* ===== verification/GB_DeliveryLifecycle.thy ===== *)
theory GB_DeliveryLifecycle
  imports GB_Prelude "HOL-Library.Multiset"
begin

section \<open>The delivery lifecycle (xai-message-delivery-core/src/lifecycle.rs)\<close>

text \<open>
  Messages owned by a turn until they are delivered or the turn ends. Identities, sources,
  contents, completions, prompt ids and epochs are type parameters, as in the source; an
  owned delivery is a linear value there (no \<open>Clone\<close>), which the conservation theorem
  below makes precise.
\<close>

record ('p, 'e) turn_binding =
  tb_prompt_id :: 'p
  tb_epoch :: 'e

record ('i, 's, 'c) delivery_message =
  dm_identity :: 'i
  dm_source :: 's
  dm_content :: 'c

record ('i, 's, 'c, 'k, 'p, 'e) owned_delivery =
  od_binding :: "('p, 'e) turn_binding"
  od_message :: "('i, 's, 'c) delivery_message"
  od_completion :: 'k

datatype 'o delivery_slot =
    SPending (owned: 'o)
  | SProjecting (owned: 'o)
  | SDelivered (owned: 'o)

type_synonym ('i, 's, 'c, 'k, 'p, 'e) slots =
  "('i, 's, 'c, 'k, 'p, 'e) owned_delivery delivery_slot list"

datatype terminal_cause = Completion | SoftCancel | Rewind | HardTeardown | ActorDrop

definition falls_back :: "terminal_cause \<Rightarrow> bool" where
  "falls_back cause \<longleftrightarrow> cause \<in> {Completion, SoftCancel, Rewind}"

datatype ('p, 'e) terminal_target = Turn "('p, 'e) turn_binding" | All

abbreviation slot_identity :: "('i, 's, 'c, 'k, 'p, 'e) owned_delivery delivery_slot \<Rightarrow> 'i" where
  "slot_identity sl \<equiv> dm_identity (od_message (owned sl))"

abbreviation slot_binding ::
    "('i, 's, 'c, 'k, 'p, 'e) owned_delivery delivery_slot \<Rightarrow> ('p, 'e) turn_binding" where
  "slot_binding sl \<equiv> od_binding (owned sl)"

definition contains_identity :: "'i \<Rightarrow> ('i, 's, 'c, 'k, 'p, 'e) slots \<Rightarrow> bool" where
  "contains_identity i slots \<longleftrightarrow> list_ex (\<lambda>sl. slot_identity sl = i) slots"

text \<open>\<open>Err(message)\<close> is \<open>Inl\<close>: the refused message is handed back.\<close>

definition admit_pending ::
    "('p, 'e) turn_binding \<Rightarrow> ('i, 's, 'c) delivery_message \<Rightarrow> 'k
      \<Rightarrow> ('i, 's, 'c, 'k, 'p, 'e) slots
      \<Rightarrow> ('i, 's, 'c, 'k, 'p, 'e) slots \<times> (('i, 's, 'c) delivery_message + unit)" where
  "admit_pending binding message completion slots =
     (if list_ex (\<lambda>sl. slot_identity sl = dm_identity message) slots then (slots, Inl message)
      else (slots @ [SPending \<lparr>od_binding = binding, od_message = message,
                               od_completion = completion\<rparr>], Inr ()))"

definition pending_messages ::
    "('p, 'e) turn_binding \<Rightarrow> ('i, 's, 'c, 'k, 'p, 'e) slots
      \<Rightarrow> ('i, 's, 'c) delivery_message list" where
  "pending_messages binding slots =
     List.map_filter
       (\<lambda>sl. case sl of
               SPending o1 \<Rightarrow> if od_binding o1 = binding then Some (od_message o1) else None
             | _ \<Rightarrow> None) slots"

fun project_slot ::
    "('p, 'e) turn_binding \<Rightarrow> ('i, 's, 'c, 'k, 'p, 'e) owned_delivery delivery_slot
      \<Rightarrow> ('i, 's, 'c, 'k, 'p, 'e) owned_delivery delivery_slot" where
  "project_slot binding (SPending o1) =
     (if od_binding o1 = binding then SProjecting o1 else SPending o1)"
| "project_slot binding sl = sl"

definition begin_delivery ::
    "('p, 'e) turn_binding \<Rightarrow> ('i, 's, 'c, 'k, 'p, 'e) slots
      \<Rightarrow> ('i, 's, 'c, 'k, 'p, 'e) slots \<times> ('i, 's, 'c) delivery_message list" where
  "begin_delivery binding slots =
     (let messages = pending_messages binding slots
      in if messages = [] then (slots, messages)
         else (map (project_slot binding) slots, messages))"

definition projecting_messages ::
    "('p, 'e) turn_binding \<Rightarrow> ('i, 's, 'c, 'k, 'p, 'e) slots
      \<Rightarrow> ('i, 's, 'c) delivery_message list" where
  "projecting_messages binding slots =
     List.map_filter
       (\<lambda>sl. case sl of
               SProjecting o1 \<Rightarrow> if od_binding o1 = binding then Some (od_message o1) else None
             | _ \<Rightarrow> None) slots"

fun deliver_slot ::
    "('p, 'e) turn_binding \<Rightarrow> ('i, 's, 'c, 'k, 'p, 'e) owned_delivery delivery_slot
      \<Rightarrow> ('i, 's, 'c, 'k, 'p, 'e) owned_delivery delivery_slot" where
  "deliver_slot binding (SProjecting o1) =
     (if od_binding o1 = binding then SDelivered o1 else SProjecting o1)"
| "deliver_slot binding sl = sl"

text \<open>\<open>commit\<close> is the caller's closure; its error leaves the slots as they were.\<close>

definition finish_delivery ::
    "('p, 'e) turn_binding
      \<Rightarrow> (('i, 's, 'c) delivery_message list \<Rightarrow> 'err + unit)
      \<Rightarrow> ('i, 's, 'c, 'k, 'p, 'e) slots
      \<Rightarrow> ('i, 's, 'c, 'k, 'p, 'e) slots
          \<times> ('err + ('i, 's, 'c) delivery_message list)" where
  "finish_delivery binding commit slots =
     (let messages = projecting_messages binding slots
      in if messages = [] then (slots, Inr messages)
         else case commit messages of
                Inl err \<Rightarrow> (slots, Inl err)
              | Inr _ \<Rightarrow>
                  (map (deliver_slot binding) slots, Inr messages))"

text \<open>
  One slot of the \<open>filter_map\<close> of \<open>transition\<close>, with the two vectors it pushes to:
  \<open>(kept, fallbacks, completions)\<close>.
\<close>

fun transition ::
    "('p, 'e) terminal_target \<Rightarrow> terminal_cause \<Rightarrow> ('i, 's, 'c, 'k, 'p, 'e) slots
      \<Rightarrow> ('i, 's, 'c, 'k, 'p, 'e) slots
          \<times> ('i, 's, 'c, 'k, 'p, 'e) owned_delivery list
          \<times> ('i, 's, 'c, 'k, 'p, 'e) owned_delivery list" where
  "transition target cause [] = ([], [], [])"
| "transition target cause (sl # slots) =
     (let (kept, fallbacks, completions) = transition target cause slots;
          matches = (case target of Turn binding \<Rightarrow> slot_binding sl = binding | All \<Rightarrow> True)
      in if \<not> matches then (sl # kept, fallbacks, completions)
         else case sl of
                SPending o1 \<Rightarrow>
                  if falls_back cause then (kept, o1 # fallbacks, completions)
                  else (kept, fallbacks, o1 # completions)
              | SProjecting o1 \<Rightarrow> (kept, fallbacks, o1 # completions)
              | SDelivered o1 \<Rightarrow> (kept, fallbacks, o1 # completions))"

subsection \<open>What a transition takes out\<close>

fun target_matches ::
    "('p, 'e) terminal_target \<Rightarrow> ('i, 's, 'c, 'k, 'p, 'e) owned_delivery delivery_slot \<Rightarrow> bool" where
  "target_matches (Turn b) sl \<longleftrightarrow> slot_binding sl = b"
| "target_matches All sl \<longleftrightarrow> True"

lemma transition_eq:
  "transition target cause slots =
     (filter (\<lambda>sl. \<not> target_matches target sl) slots,
      map owned (filter (\<lambda>sl. target_matches target sl \<and> is_SPending sl \<and> falls_back cause) slots),
      map owned (filter (\<lambda>sl. target_matches target sl \<and> \<not> (is_SPending sl \<and> falls_back cause))
        slots))"
  by (induction slots)
    (auto simp: Let_def split: terminal_target.splits delivery_slot.splits)

text \<open>
  A terminal transition takes exactly the slots of its target. The messages it hands
  back for another turn are precisely the ones still pending, and only for the three causes
  that fall back; everything whose projection had begun is completed, never handed back.
  Admission order is kept everywhere.
\<close>

theorem transition_partitions:
  "\<exists>kept fallbacks completions.
     transition target cause slots = (kept, fallbacks, completions)
     \<and> kept = filter (\<lambda>sl. \<not> target_matches target sl) slots
     \<and> fallbacks = (if cause \<in> {Completion, SoftCancel, Rewind}
          then map owned (filter (\<lambda>sl. target_matches target sl \<and> is_SPending sl) slots) else [])
     \<and> completions = map owned (filter (\<lambda>sl. target_matches target sl
          \<and> \<not> (is_SPending sl \<and> cause \<in> {Completion, SoftCancel, Rewind})) slots)"
  by (simp add: transition_eq falls_back_def)

subsection \<open>Runs\<close>

text \<open>
  A history runs operations and remembers what entered and what left: the deliveries
  admitted, and those handed out by transitions as fallbacks or completions.
\<close>

datatype ('i, 's, 'c, 'k, 'p, 'e) lifecycle_op =
    OpAdmit "('p, 'e) turn_binding" "('i, 's, 'c) delivery_message" 'k
  | OpBegin "('p, 'e) turn_binding"
  | OpFinish "('p, 'e) turn_binding" bool
  | OpTransition "('p, 'e) terminal_target" terminal_cause

record ('i, 's, 'c, 'k, 'p, 'e) history =
  h_slots :: "('i, 's, 'c, 'k, 'p, 'e) slots"
  h_admitted :: "('i, 's, 'c, 'k, 'p, 'e) owned_delivery list"
  h_fallbacks :: "('i, 's, 'c, 'k, 'p, 'e) owned_delivery list"
  h_completions :: "('i, 's, 'c, 'k, 'p, 'e) owned_delivery list"

definition history_init :: "('i, 's, 'c, 'k, 'p, 'e) history" where
  "history_init = \<lparr>h_slots = [], h_admitted = [], h_fallbacks = [], h_completions = []\<rparr>"

fun lifecycle_step ::
    "('i, 's, 'c, 'k, 'p, 'e) history \<Rightarrow> ('i, 's, 'c, 'k, 'p, 'e) lifecycle_op
      \<Rightarrow> ('i, 's, 'c, 'k, 'p, 'e) history" where
  "lifecycle_step h (OpAdmit b m k) =
     (case admit_pending b m k (h_slots h) of
        (slots, Inl _) \<Rightarrow> h\<lparr>h_slots := slots\<rparr>
      | (slots, Inr _) \<Rightarrow>
          h\<lparr>h_slots := slots,
            h_admitted := h_admitted h
              @ [\<lparr>od_binding = b, od_message = m, od_completion = k\<rparr>]\<rparr>)"
| "lifecycle_step h (OpBegin b) = h\<lparr>h_slots := fst (begin_delivery b (h_slots h))\<rparr>"
| "lifecycle_step h (OpFinish b ok) =
     h\<lparr>h_slots := fst (finish_delivery b (\<lambda>_. if ok then Inr () else Inl ()) (h_slots h))\<rparr>"
| "lifecycle_step h (OpTransition t cause) =
     (case transition t cause (h_slots h) of
        (slots, fb, cp) \<Rightarrow>
          h\<lparr>h_slots := slots, h_fallbacks := h_fallbacks h @ fb,
            h_completions := h_completions h @ cp\<rparr>)"

definition conserved :: "('i, 's, 'c, 'k, 'p, 'e) history \<Rightarrow> bool" where
  "conserved h \<longleftrightarrow>
     mset (h_admitted h)
       = mset (map owned (h_slots h)) + mset (h_fallbacks h) + mset (h_completions h)
     \<and> distinct (map (\<lambda>sl. slot_identity sl) (h_slots h))"

lemma owned_project: "owned (project_slot b sl) = owned sl"
  by (cases sl) auto

lemma owned_deliver: "owned (deliver_slot b sl) = owned sl"
  by (cases sl) auto

lemma owned_begin: "map owned (fst (begin_delivery b slots)) = map owned slots"
  by (simp add: begin_delivery_def Let_def owned_project)

lemma owned_finish: "map owned (fst (finish_delivery b commit slots)) = map owned slots"
  by (simp add: finish_delivery_def Let_def owned_deliver split: sum.split)

lemma pending_after_project: "pending_messages b (map (project_slot b) slots) = []"
  unfolding pending_messages_def
proof (induction slots)
  case (Cons sl slots)
  then show ?case by (cases sl) (auto simp: List.map_filter_simps)
qed (simp add: List.map_filter_simps)

lemma projecting_after_project:
  "projecting_messages b slots = [] \<Longrightarrow>
     projecting_messages b (map (project_slot b) slots) = pending_messages b slots"
  unfolding pending_messages_def projecting_messages_def
  by (induction slots)
    (auto simp: List.map_filter_simps split: delivery_slot.splits if_splits option.splits)

lemma projecting_after_deliver: "projecting_messages b (map (deliver_slot b) slots) = []"
  unfolding projecting_messages_def
proof (induction slots)
  case (Cons sl slots)
  then show ?case by (cases sl) (auto simp: List.map_filter_simps)
qed (simp add: List.map_filter_simps)

lemma identities_of_owned:
  "map (\<lambda>sl. slot_identity sl) slots = map (\<lambda>d. dm_identity (od_message d)) (map owned slots)"
  by simp

lemma mset_transition:
  "transition t cause slots = (kept, fb, cp) \<Longrightarrow>
     mset (map owned slots) = mset (map owned kept) + mset fb + mset cp"
proof (induction slots arbitrary: kept fb cp)
  case (Cons sl slots)
  obtain k f c where r: "transition t cause slots = (k, f, c)" by (cases "transition t cause slots")
  show ?case
    using Cons.IH [OF r] Cons.prems r
    by (auto simp: Let_def split: if_splits delivery_slot.splits)
qed simp

lemma conserved_step: "conserved h \<Longrightarrow> conserved (lifecycle_step h a)"
proof (cases a)
  case (OpAdmit b m k)
  assume "conserved h"
  with OpAdmit show ?thesis
    by (auto simp: conserved_def admit_pending_def list_ex_iff)
next
  case (OpBegin b)
  assume "conserved h"
  with OpBegin show ?thesis
    unfolding conserved_def identities_of_owned by (simp add: owned_begin)
next
  case (OpFinish b ok)
  assume "conserved h"
  with OpFinish show ?thesis
    unfolding conserved_def identities_of_owned by (simp add: owned_finish)
next
  case (OpTransition t cause)
  assume h: "conserved h"
  obtain kept fb cp where r: "transition t cause (h_slots h) = (kept, fb, cp)"
    by (cases "transition t cause (h_slots h)")
  have "distinct (map (\<lambda>sl. slot_identity sl) kept)"
    using h r unfolding transition_eq conserved_def by (auto simp: distinct_map_filter)
  moreover have "mset (map owned (h_slots h)) = mset (map owned kept) + mset fb + mset cp"
    using r by (rule mset_transition)
  ultimately show ?thesis
    using h OpTransition r by (simp add: conserved_def ac_simps)
qed

interpretation lifecycle_machine: machine lifecycle_step conserved
  by unfold_locales (rule conserved_step)

text \<open>
  C24. No delivery is lost or duplicated: after any sequence of admissions, begun and
  finished projections (committed or not) and terminal transitions, the deliveries ever
  admitted are exactly the ones still held plus the ones handed back plus the ones
  completed, counted with multiplicity, and the held ones have pairwise different message
  identities.
\<close>

theorem deliveries_conserved:
  "mset (h_admitted (foldl lifecycle_step history_init ops))
     = mset (map owned (h_slots (foldl lifecycle_step history_init ops)))
       + mset (h_fallbacks (foldl lifecycle_step history_init ops))
       + mset (h_completions (foldl lifecycle_step history_init ops))
   \<and> distinct (map (\<lambda>sl. slot_identity sl) (h_slots (foldl lifecycle_step history_init ops)))"
proof -
  have "conserved history_init" by (simp add: conserved_def history_init_def)
  then show ?thesis using lifecycle_machine.run_inv by (simp add: conserved_def)
qed

text \<open>
  A projection delivers each pending message of its turn once. Beginning it leaves
  nothing pending for the turn; a commit that fails changes nothing, so it can be tried
  again; a commit that succeeds returns exactly the messages begun, in order, and leaves
  nothing to commit a second time, with every delivery still owned.
\<close>

theorem projection_commits_once:
  fixes slots :: "('i, 's, 'c, 'k, 'p, 'e) slots"
  assumes "projecting_messages b slots = []"
    and "begin_delivery b slots = (s1, ms)" and "ms \<noteq> []"
  shows "pending_messages b s1 = []
    \<and> (\<forall>commit (e :: 'err). commit ms = Inl e \<longrightarrow> finish_delivery b commit s1 = (s1, Inl e))
    \<and> (\<forall>commit :: _ \<Rightarrow> 'err + unit. commit ms = Inr () \<longrightarrow>
         (\<exists>s2. finish_delivery b commit s1 = (s2, Inr ms)
           \<and> projecting_messages b s2 = [] \<and> map owned s2 = map owned slots))"
proof -
  have ms: "ms = pending_messages b slots" and s1: "s1 = map (project_slot b) slots"
    using assms(2,3) by (auto simp: begin_delivery_def Let_def split: if_splits)
  have pr: "projecting_messages b s1 = ms"
    using projecting_after_project [OF assms(1)] ms s1 by simp
  have own: "map owned (map (deliver_slot b) s1) = map owned slots"
    by (simp add: s1 owned_deliver owned_project)
  show ?thesis
    using assms(3) pr own
    by (auto simp: finish_delivery_def pending_after_project s1 [symmetric]
        projecting_after_deliver) (simp add: s1 pending_after_project)
qed

definition sample_binding :: "(nat, nat) turn_binding" where
  "sample_binding = \<lparr>tb_prompt_id = 1, tb_epoch = 1\<rparr>"

definition sample_slots :: "(nat, unit, string, unit, nat, nat) slots" where
  "sample_slots =
     [SPending \<lparr>od_binding = sample_binding,
        od_message = \<lparr>dm_identity = 7, dm_source = (), dm_content = ''hi''\<rparr>,
        od_completion = ()\<rparr>]"

theorem projection_commits_once_witness:
  "pending_messages sample_binding (fst (begin_delivery sample_binding sample_slots)) = []
   \<and> snd (begin_delivery sample_binding sample_slots)
       = [\<lparr>dm_identity = 7, dm_source = (), dm_content = ''hi''\<rparr>]"
proof -
  obtain s1 ms where b: "begin_delivery sample_binding sample_slots = (s1, ms)" by fastforce
  have "projecting_messages sample_binding sample_slots = []"
    by (simp add: projecting_messages_def sample_slots_def List.map_filter_simps)
  moreover have ms: "ms = [\<lparr>dm_identity = 7, dm_source = (), dm_content = ''hi''\<rparr>]"
    using b by (auto simp: begin_delivery_def pending_messages_def sample_slots_def
        List.map_filter_simps Let_def)
  ultimately have "pending_messages sample_binding s1 = []"
    using projection_commits_once [OF _ b] by blast
  then show ?thesis using b ms by simp
qed

end
