(* ===== verification/GB_PromptQueue.thy ===== *)
theory GB_PromptQueue
  imports GB_Prelude
begin

section \<open>Prompt queues and interjections\<close>

text \<open>
  The merge rules for queued prompts (xai-prompt-queue/src/combine.rs), the event queue of
  the push path (xai-interjection-core/src/events.rs), its client, the interjection buffer
  (buffer.rs), and the envelope it puts around a message (format.rs).
\<close>

subsection \<open>Combining queued prompts\<close>

definition newline :: string where "newline = [CHR 0x0A]"

definition TEXT_SEPARATOR :: string where "TEXT_SEPARATOR = newline @ newline"

record combine_gate =
  cg_id :: string
  is_plain_prompt :: bool
  is_synthetic :: bool
  is_expanded_skill :: bool
  is_bash :: bool
  has_images :: bool
  cg_text :: string

definition can_merge_front :: "combine_gate \<Rightarrow> bool" where
  "can_merge_front g \<longleftrightarrow>
     is_plain_prompt g \<and> \<not> is_synthetic g \<and> \<not> is_expanded_skill g \<and> \<not> is_bash g \<and> cg_text g \<noteq> []"

definition can_merge_follower :: "combine_gate \<Rightarrow> string list \<Rightarrow> bool" where
  "can_merge_follower g skip_ids \<longleftrightarrow>
     can_merge_front g \<and> \<not> has_images g \<and> cg_id g \<notin> set skip_ids"

text \<open>The counting loop of \<open>combine_prefix_len\<close>, and the function.\<close>

fun count_followers :: "string list \<Rightarrow> nat \<Rightarrow> combine_gate list \<Rightarrow> nat" where
  "count_followers skip_ids n [] = n"
| "count_followers skip_ids n (nxt # rest) =
     (if \<not> can_merge_follower nxt skip_ids then n else count_followers skip_ids (n + 1) rest)"

fun combine_prefix_len :: "combine_gate list \<Rightarrow> string list \<Rightarrow> nat" where
  "combine_prefix_len [] skip_ids = 0"
| "combine_prefix_len (front # rest) skip_ids =
     (if \<not> can_merge_front front then 1 else count_followers skip_ids 1 rest)"

definition join_texts :: "string list \<Rightarrow> string" where
  "join_texts texts = join_with TEXT_SEPARATOR (filter (\<lambda>t. t \<noteq> []) texts)"

definition is_combined :: "string list \<Rightarrow> bool" where
  "is_combined segs \<longleftrightarrow> length segs \<ge> 2"

text \<open>The JSON values the stamping builds (\<open>serde_json::Value\<close>).\<close>

datatype json =
    JNull
  | JBool bool
  | JNumber string
  | JString string
  | JArray "json list"
  | JObject "(string \<times> json) list"

definition COMBINED_DISPLAY_TEXTS_META :: string where
  "COMBINED_DISPLAY_TEXTS_META = ''combinedDisplayTexts''"

definition stamp_combined_display_texts ::
    "(string \<rightharpoonup> json) \<Rightarrow> string list \<Rightarrow> (string \<rightharpoonup> json)" where
  "stamp_combined_display_texts meta segs =
     (if \<not> is_combined segs then meta
      else meta(COMBINED_DISPLAY_TEXTS_META \<mapsto> JArray (map JString segs)))"

lemma count_followers_eq:
  "count_followers skip n xs = n + length (takeWhile (\<lambda>g. can_merge_follower g skip) xs)"
  by (induction skip n xs rule: count_followers.induct) auto

text \<open>
  What the combine prefix is: nothing from an empty queue, only the front when the
  front may not be merged, and otherwise the front with the longest run of mergeable
  followers: every further prompt in it is a plain, image-free prompt not under edit, and
  the prompt after it, if there is one, is not.
\<close>

theorem combine_prefix_maximal:
  assumes "n = combine_prefix_len items skip"
  shows "n \<le> length items \<and> (n = 0 \<longleftrightarrow> items = [])
    \<and> (\<forall>i. 1 \<le> i \<and> i < n \<longrightarrow> can_merge_front (items ! 0) \<and> can_merge_follower (items ! i) skip)
    \<and> (n < length items \<and> can_merge_front (items ! 0) \<longrightarrow> \<not> can_merge_follower (items ! n) skip)"
proof (cases items)
  case (Cons f rest)
  let ?P = "\<lambda>g. can_merge_follower g skip"
  have run: "?P (rest ! j)" if "j < length (takeWhile ?P rest)" for j
    using that nth_mem [OF that] by (auto simp: takeWhile_nth dest: set_takeWhileD)
  have stop: "\<not> ?P (rest ! length (takeWhile ?P rest))"
    if "length (takeWhile ?P rest) < length rest"
    using that by (rule nth_length_takeWhile)
  show ?thesis
    using assms Cons run stop length_takeWhile_le [of ?P rest]
    by (auto simp: count_followers_eq nth_Cons' less_diff_conv split: if_splits)
qed (use assms in simp)

definition plain_gate :: "string \<Rightarrow> string \<Rightarrow> combine_gate" where
  "plain_gate i t =
     \<lparr>cg_id = i, is_plain_prompt = True, is_synthetic = False, is_expanded_skill = False,
      is_bash = False, has_images = False, cg_text = t\<rparr>"

theorem combine_prefix_maximal_witness:
  "\<not> can_merge_follower ([plain_gate ''a'' ''one'', plain_gate ''b'' ''two'',
        plain_gate ''e'' ''draft''] ! 2) [''e'']"
  using combine_prefix_maximal [of 2 "[plain_gate ''a'' ''one'', plain_gate ''b'' ''two'',
        plain_gate ''e'' ''draft'']" "[''e'']"]
  by (simp add: plain_gate_def can_merge_front_def can_merge_follower_def)

subsection \<open>The event queue\<close>

text \<open>
  \<open>Arc<Mutex<Vec<E>>>\<close>: every method holds the lock for its whole body, so each is one
  step on the vector.
\<close>

record 'e event_queue =
  eq_events :: "'e list"

definition eq_new :: "'e event_queue" where
  "eq_new = \<lparr>eq_events = []\<rparr>"

definition eq_push :: "'e \<Rightarrow> 'e event_queue \<Rightarrow> 'e event_queue" where
  "eq_push event q = q\<lparr>eq_events := eq_events q @ [event]\<rparr>"

definition eq_push_capped :: "'e \<Rightarrow> nat \<Rightarrow> 'e event_queue \<Rightarrow> 'e event_queue" where
  "eq_push_capped event mx q =
     (let q1 = eq_push event q
      in if length (eq_events q1) > mx
         then (let excess = length (eq_events q1) - mx
               in q1\<lparr>eq_events := drop excess (eq_events q1)\<rparr>)
         else q1)"

definition eq_len :: "'e event_queue \<Rightarrow> nat" where
  "eq_len q = length (eq_events q)"

definition eq_drain_matching :: "('e \<Rightarrow> bool) \<Rightarrow> 'e event_queue \<Rightarrow> 'e list \<times> 'e event_queue" where
  "eq_drain_matching take_it q =
     (let (matched, kept) = partition take_it (eq_events q)
      in (matched, q\<lparr>eq_events := kept\<rparr>))"

definition eq_drain_all :: "'e event_queue \<Rightarrow> 'e list \<times> 'e event_queue" where
  "eq_drain_all q = (eq_events q, q\<lparr>eq_events := []\<rparr>)"

definition eq_restore_front :: "'e list \<Rightarrow> 'e event_queue \<Rightarrow> 'e event_queue" where
  "eq_restore_front events q =
     (if events = [] then q else q\<lparr>eq_events := events @ eq_events q\<rparr>)"

definition eq_clear :: "'e event_queue \<Rightarrow> 'e event_queue" where
  "eq_clear q = q\<lparr>eq_events := []\<rparr>"

definition eq_snapshot :: "'e event_queue \<Rightarrow> 'e list" where
  "eq_snapshot q = eq_events q"

text \<open>
  What the readers of a queue rely on: its content as a list, pushes at the back, drains
  that take everything or the matching part, and restoring at the front.
\<close>

locale drainable_queue =
  fixes push :: "'e \<Rightarrow> 'q \<Rightarrow> 'q"
    and drain_all :: "'q \<Rightarrow> 'e list \<times> 'q"
    and drain_matching :: "('e \<Rightarrow> bool) \<Rightarrow> 'q \<Rightarrow> 'e list \<times> 'q"
    and restore_front :: "'e list \<Rightarrow> 'q \<Rightarrow> 'q"
    and content :: "'q \<Rightarrow> 'e list"
  assumes content_push: "content (push e q) = content q @ [e]"
    and drain_all_content: "drain_all q = (es, q') \<Longrightarrow> es = content q \<and> content q' = []"
    and drain_matching_content:
      "drain_matching P q = (es, q') \<Longrightarrow>
         es = filter P (content q) \<and> content q' = filter (\<lambda>e. \<not> P e) (content q)"
    and content_restore: "content (restore_front es q) = es @ content q"
begin

lemma content_pushes: "content (fold push es q) = content q @ es"
  by (induction es arbitrary: q) (simp_all add: content_push)

lemma aborted_drain:
  assumes "drain_all q = (es, q')" and "es = seen @ rest"
  shows "content (restore_front rest (fold push later q')) = rest @ later"
    and "seen @ content (restore_front rest (fold push later q')) = content q @ later"
  using assms drain_all_content by (auto simp: content_restore content_pushes)

lemma drain_by_parts:
  assumes "drain_matching P q = (es, q1)" and "drain_all q1 = (fs, q2)"
  shows "content q2 = []" and "set es \<union> set fs = set (content q)"
    and "length es + length fs = length (content q)"
  using drain_matching_content [OF assms(1)] drain_all_content [OF assms(2)]
  by (auto simp: sum_length_filter_compl)

end

interpretation eventq:
  drainable_queue eq_push eq_drain_all eq_drain_matching eq_restore_front eq_events
  by unfold_locales
    (auto simp: eq_push_def eq_drain_all_def eq_drain_matching_def eq_restore_front_def
      comp_def Let_def)

text \<open>
  Cancel safety of the event queue: when a reader drains everything, handles a first
  part and restores the rest, then whatever was pushed in between, the handled part
  followed by the queue's content is the old content followed by the later pushes: nothing
  is lost, duplicated or reordered.
\<close>

theorem aborted_drain_loses_nothing:
  assumes "eq_drain_all q = (seen @ rest, q')"
  shows "seen @ eq_events (eq_restore_front rest (fold eq_push later q'))
           = eq_events q @ later"
  using assms by (rule eventq.aborted_drain(2)) (rule refl)

theorem aborted_drain_loses_nothing_witness:
  "[1 :: nat] @ eq_events (eq_restore_front [2] (fold eq_push [3] \<lparr>eq_events = []\<rparr>))
     = [1, 2] @ [3]"
  using aborted_drain_loses_nothing [of "\<lparr>eq_events = [1 :: nat, 2]\<rparr>" "[1]" "[2]"
      "\<lparr>eq_events = []\<rparr>" "[3]"]
  by (simp add: eq_drain_all_def)

lemma push_capped_content:
  "eq_events (eq_push_capped e mx q) = drop (length (eq_events q) + 1 - mx) (eq_events q @ [e])"
  by (simp add: eq_push_capped_def eq_push_def Let_def)

text \<open>
  A capped queue holds the newest events: after any sequence of capped pushes on an
  empty queue its content is the last \<open>mx\<close> events pushed, in order.
\<close>

theorem capped_pushes_keep_newest:
  "eq_events (fold (\<lambda>e. eq_push_capped e mx) es eq_new) = drop (length es - mx) es"
proof (induction es rule: rev_induct)
  case Nil
  show ?case by (simp add: eq_new_def)
next
  case (snoc e es)
  then show ?case
    by (cases "mx \<le> length es") (auto simp: push_capped_content drop_drop Suc_diff_le)
qed

end
