(* ===== verification/GB_Interjection.thy ===== *)
theory GB_Interjection
  imports GB_PromptQueue
begin

section \<open>Interjections (crates/common/xai-interjection-core)\<close>

text \<open>
  The envelope a mid-turn message travels in (format.rs) and the buffer's draining client
  (buffer.rs), which rests on the laws of the event queue.
\<close>

definition LARGE_PROMPT_THRESHOLD :: nat where
  "LARGE_PROMPT_THRESHOLD = 25000"

definition INTERJECTION_NOTE :: string where
  "INTERJECTION_NOTE = ''The user sent a message while you were working:''"

definition INTERRUPT_NOTE :: string where
  "INTERRUPT_NOTE = ''The user interrupted the previous turn:''"

definition UNFINISHED_TASKS_REMINDER :: string where
  "UNFINISHED_TASKS_REMINDER =
     ''Make sure to complete any unfinished tasks from previous turns.''"

definition user_query :: "string \<Rightarrow> string" where
  "user_query user_message =
     ''<user_query>'' @ newline @ user_message @ newline @ ''</user_query>''"

definition frame_user_turn :: "string \<Rightarrow> string \<Rightarrow> string" where
  "frame_user_turn note assembled =
     note @ newline @ assembled @ newline @ UNFINISHED_TASKS_REMINDER"

text \<open>
  \<open>char_indices\<close>: the start of every character with its \<open>len_utf8\<close>. A character is a lead
  byte with the continuation bytes after it.
\<close>

function char_indices :: "nat \<Rightarrow> string \<Rightarrow> (nat \<times> nat) list" where
  "char_indices i [] = []"
| "char_indices i (c # s) =
     (let n = length (takeWhile is_continuation s)
      in (i, n + 1) # char_indices (i + n + 1) (drop n s))"
  by pat_completeness auto
termination
  by (relation "measure (\<lambda>(i, s). length s)") auto

definition truncation_end :: "string \<Rightarrow> nat" where
  "truncation_end text1 =
     (case rev (takeWhile (\<lambda>(i, n). i < LARGE_PROMPT_THRESHOLD) (char_indices 0 text1)) of
        [] \<Rightarrow> length text1
      | (i, n) # _ \<Rightarrow> i + n)"

definition format_steered_query :: "string \<Rightarrow> string \<Rightarrow> string" where
  "format_steered_query note text1 =
     (let truncated =
        (if length text1 \<le> LARGE_PROMPT_THRESHOLD then text1
         else take (truncation_end text1) text1 @ ''... [truncated]'')
      in frame_user_turn note (user_query truncated))"

definition format_interjection :: "string \<Rightarrow> string" where
  "format_interjection text1 = format_steered_query INTERJECTION_NOTE text1"

definition format_interrupt :: "string \<Rightarrow> string" where
  "format_interrupt text1 = format_steered_query INTERRUPT_NOTE text1"

record 'a pending_interjection =
  pi_text :: string
  pi_attachments :: "'a list"

record 'a formatted_interjection =
  fi_text :: string
  fi_attachments :: "'a list"

definition drain_formatted ::
    "(string \<Rightarrow> string) \<Rightarrow> 'a pending_interjection event_queue
      \<Rightarrow> 'a formatted_interjection list \<times> 'a pending_interjection event_queue" where
  "drain_formatted sanitize_text buffer =
     (let (entries, buffer1) = eq_drain_all buffer
      in (map (\<lambda>entry. \<lparr>fi_text = format_interjection (sanitize_text (pi_text entry)),
                        fi_attachments = pi_attachments entry\<rparr>) entries, buffer1))"

subsection \<open>Where a long message is cut\<close>

text \<open>
  A valid UTF-8 text starts with a lead byte and has at most three continuation bytes in a
  row.
\<close>

definition utf8_shape :: "string \<Rightarrow> bool" where
  "utf8_shape s \<longleftrightarrow>
     (s \<noteq> [] \<longrightarrow> \<not> is_continuation (hd s))
     \<and> (\<forall>i. length (takeWhile is_continuation (drop i s)) \<le> 3)"

lemma utf8_shape_step:
  assumes "utf8_shape (c # s)"
  shows "utf8_shape (drop (length (takeWhile is_continuation s)) s)"
proof -
  let ?n = "length (takeWhile is_continuation s)"
  have d: "drop ?n s = dropWhile is_continuation s" by (simp add: dropWhile_eq_drop)
  have "length (takeWhile is_continuation (drop i (drop ?n s))) \<le> 3" for i
  proof -
    have "drop i (drop ?n s) = drop (Suc (i + ?n)) (c # s)" by simp
    then show ?thesis using assms unfolding utf8_shape_def by metis
  qed
  moreover have "drop ?n s \<noteq> [] \<longrightarrow> \<not> is_continuation (hd (drop ?n s))"
    unfolding d by (simp add: hd_dropWhile)
  ultimately show ?thesis by (simp add: utf8_shape_def)
qed

text \<open>The end of the last character that starts below \<open>t\<close>, counted from \<open>i\<close>.\<close>

definition cut_at :: "nat \<Rightarrow> nat \<Rightarrow> string \<Rightarrow> nat \<Rightarrow> nat" where
  "cut_at t i s d =
     (case rev (takeWhile (\<lambda>(j, n). j < t) (char_indices i s)) of
        [] \<Rightarrow> d
      | (j, n) # _ \<Rightarrow> j + n)"

lemma char_indices_start: "(j, n) \<in> set (char_indices i s) \<Longrightarrow> i \<le> j"
  by (induction i s rule: char_indices.induct) (auto simp: Let_def)

lemma cut_at_bounds:
  "utf8_shape s \<Longrightarrow> i < t \<Longrightarrow> t \<le> i + length s \<Longrightarrow>
     t \<le> cut_at t i s d \<and> cut_at t i s d < t + 4 \<and> cut_at t i s d \<le> i + length s
     \<and> (cut_at t i s d = i + length s \<or> \<not> is_continuation (s ! (cut_at t i s d - i)))"
proof (induction i s arbitrary: d rule: char_indices.induct)
  case (1 i)
  then show ?case by simp
next
  case (2 i c s)
  let ?n = "length (takeWhile is_continuation s)"
  let ?r = "drop ?n s"
  have n3: "?n \<le> 3"
    using "2.prems"(1) unfolding utf8_shape_def by (metis drop0 drop_Suc_Cons)
  have nl: "?n \<le> length s" by (rule length_takeWhile_le)
  have shape: "utf8_shape ?r" using "2.prems"(1) by (rule utf8_shape_step)
  have cut: "cut_at t i (c # s) d = cut_at t (i + ?n + 1) ?r (i + ?n + 1)"
    using "2.prems"(2) by (auto simp: cut_at_def Let_def split: list.split prod.split)
  show ?case
  proof (cases "i + ?n + 1 < t")
    case True
    have IH: "t \<le> cut_at t (i + ?n + 1) ?r (i + ?n + 1)
      \<and> cut_at t (i + ?n + 1) ?r (i + ?n + 1) < t + 4
      \<and> cut_at t (i + ?n + 1) ?r (i + ?n + 1) \<le> i + ?n + 1 + length ?r
      \<and> (cut_at t (i + ?n + 1) ?r (i + ?n + 1) = i + ?n + 1 + length ?r
         \<or> \<not> is_continuation (?r ! (cut_at t (i + ?n + 1) ?r (i + ?n + 1) - (i + ?n + 1))))"
      by (rule "2.IH" [OF refl shape True]) (use "2.prems"(3) nl in simp)
    let ?e = "cut_at t (i + ?n + 1) ?r (i + ?n + 1)"
    have "i + ?n + 1 \<le> ?e" using IH True by linarith
    then have "?e - i = Suc (?n + (?e - (i + ?n + 1)))" by linarith
    then have "(c # s) ! (?e - i) = ?r ! (?e - (i + ?n + 1))" by (simp add: nl)
    then show ?thesis using IH cut nl by auto
  next
    case False
    have "takeWhile (\<lambda>(j, n). j < t) (char_indices (i + ?n + 1) ?r) = []"
      using False char_indices_start [of _ _ "i + ?n + 1" ?r]
      by (cases "char_indices (i + ?n + 1) ?r") fastforce+
    then have e: "cut_at t i (c # s) d = i + ?n + 1" by (simp only: cut) (simp add: cut_at_def)
    have "i + ?n + 1 = i + length (c # s) \<or> \<not> is_continuation ((c # s) ! (i + ?n + 1 - i))"
      using nth_length_takeWhile [of is_continuation s] nl by (cases "?n = length s") auto
    then show ?thesis using False "2.prems"(2,3) n3 nl by (simp add: e)
  qed
qed

text \<open>
  Draining the interjection buffer frames every pending message on its own, in arrival
  order and with its attachments, and empties the buffer. A text within the limit is kept
  whole; a longer one is cut to a prefix of at least 25000 and fewer than 25004 bytes that
  ends at a character boundary, marked as truncated.
\<close>

theorem drain_formatted_frames_each:
  assumes "drain_formatted sanitize buffer = (out, buffer')"
    and "\<forall>e \<in> set (eq_events buffer). utf8_shape (sanitize (pi_text e))"
  shows "eq_events buffer' = []
    \<and> map fi_attachments out = map pi_attachments (eq_events buffer)
    \<and> (\<forall>i < length out.
         let tx = sanitize (pi_text (eq_events buffer ! i)) in
         \<exists>body. fi_text (out ! i) = frame_user_turn INTERJECTION_NOTE (user_query body)
           \<and> (length tx \<le> 25000 \<longrightarrow> body = tx)
           \<and> (25000 < length tx \<longrightarrow>
                (\<exists>n. body = take n tx @ ''... [truncated]'' \<and> 25000 \<le> n \<and> n < 25004
                   \<and> n \<le> length tx \<and> is_char_boundary tx n)))"
proof -
  have out: "out = map (\<lambda>entry. \<lparr>fi_text = format_interjection (sanitize (pi_text entry)),
      fi_attachments = pi_attachments entry\<rparr>) (eq_events buffer)" "eq_events buffer' = []"
    using assms(1) by (auto simp: drain_formatted_def eq_drain_all_def)
  have body: "\<exists>body. format_interjection tx = frame_user_turn INTERJECTION_NOTE (user_query body)
           \<and> (length tx \<le> 25000 \<longrightarrow> body = tx)
           \<and> (25000 < length tx \<longrightarrow>
                (\<exists>n. body = take n tx @ ''... [truncated]'' \<and> 25000 \<le> n \<and> n < 25004
                   \<and> n \<le> length tx \<and> is_char_boundary tx n))" if "utf8_shape tx" for tx
  proof (cases "length tx \<le> 25000")
    case True
    then show ?thesis
      by (auto simp: format_interjection_def format_steered_query_def LARGE_PROMPT_THRESHOLD_def)
  next
    case False
    have e: "truncation_end tx = cut_at 25000 0 tx (length tx)"
      by (simp add: truncation_end_def cut_at_def LARGE_PROMPT_THRESHOLD_def)
    have "25000 \<le> truncation_end tx \<and> truncation_end tx < 25004
        \<and> truncation_end tx \<le> length tx \<and> is_char_boundary tx (truncation_end tx)"
      using cut_at_bounds [OF that, of 0 25000 "length tx"] False
      by (auto simp: e is_char_boundary_def)
    with False show ?thesis
      by (auto simp: format_interjection_def format_steered_query_def LARGE_PROMPT_THRESHOLD_def
          Let_def)
  qed
  show ?thesis
    using out assms(2) body by (simp add: comp_def Let_def)
qed

theorem drain_formatted_frames_each_witness:
  "\<exists>body. fi_text (fst (drain_formatted (\<lambda>t. t) \<lparr>eq_events = [\<lparr>pi_text = ''hi'', pi_attachments = [] :: unit list\<rparr>]\<rparr>) ! 0)
     = frame_user_turn INTERJECTION_NOTE (user_query body) \<and> body = ''hi''"
proof -
  let ?b = "\<lparr>eq_events = [\<lparr>pi_text = ''hi'', pi_attachments = [] :: unit list\<rparr>]\<rparr>"
  obtain out b' where d: "drain_formatted (\<lambda>t. t) ?b = (out, b')" by fastforce
  have "utf8_shape ''hi''"
  proof -
    have "length (takeWhile is_continuation (drop i ''hi'')) \<le> 3" for i
      by (rule le_trans [OF length_takeWhile_le]) simp
    then show ?thesis by (simp add: utf8_shape_def is_continuation_def)
  qed
  then have "\<forall>i < length out. \<exists>body.
      fi_text (out ! i) = frame_user_turn INTERJECTION_NOTE (user_query body)
      \<and> (length (pi_text (eq_events ?b ! i)) \<le> 25000 \<longrightarrow> body = pi_text (eq_events ?b ! i))"
    using drain_formatted_frames_each [OF d] by (auto simp: Let_def)
  moreover have "length out = 1"
    using d by (auto simp: drain_formatted_def eq_drain_all_def)
  ultimately show ?thesis using d by auto
qed

end
