(* ===== verification/GB_Paths.thy ===== *)
theory GB_Paths
  imports GB_Prelude
begin

section \<open>Lexical paths (xai-grok-paths/src/lib.rs)\<close>

text \<open>
  Paths are byte strings read as \<open>std::path\<close> reads them on Unix: components between
  slashes, with empty parts and \<open>.\<close> parts ignored except a leading \<open>.\<close>. On top of that the
  repository's \<open>normalize_lexically\<close>, and its specification as moves in the directory tree.
\<close>

type_synonym path = string

datatype component = RootDir | CurDir | ParentDir | Normal string

definition slash :: char where "slash = CHR ''/''"

definition is_absolute :: "path \<Rightarrow> bool" where
  "is_absolute p = starts_with p ''/''"

definition ignored_part :: "string \<Rightarrow> bool" where
  "ignored_part w \<longleftrightarrow> w = [] \<or> w = ''.''"

definition body_component :: "string \<Rightarrow> component" where
  "body_component w = (if w = ''..'' then ParentDir else Normal w)"

definition components :: "path \<Rightarrow> component list" where
  "components p =
     (if is_absolute p then [RootDir]
      else if hd (split_char slash p) = ''.'' then [CurDir] else [])
     @ map body_component (filter (\<lambda>w. \<not> ignored_part w) (split_char slash p))"

fun component_str :: "component \<Rightarrow> string" where
  "component_str RootDir = ''/''"
| "component_str CurDir = ''.''"
| "component_str ParentDir = ''..''"
| "component_str (Normal w) = w"

text \<open>\<open>PathBuf::push\<close>, \<open>Path::join\<close> and collecting components into a path.\<close>

definition path_push :: "path \<Rightarrow> path \<Rightarrow> path" where
  "path_push base p =
     (if is_absolute p then p
      else if base = [] \<or> last base = slash then base @ p
      else base @ slash # p)"

definition collect_path :: "component list \<Rightarrow> path" where
  "collect_path cs = foldl (\<lambda>p c. path_push p (component_str c)) [] cs"

text \<open>
  \<open>Path::strip_prefix\<close>: the base's components are taken off the front; what is left is the
  raw text of the remaining components, trimmed of ignored parts at both ends. The first
  component is the first part between slashes; each later one is the next part that is not
  ignored.
\<close>

fun skip_parts :: "nat \<Rightarrow> string list \<Rightarrow> string list" where
  "skip_parts 0 parts = parts"
| "skip_parts (Suc n) parts = skip_parts n (drop 1 (dropWhile ignored_part parts))"

definition trim_parts :: "string list \<Rightarrow> string list" where
  "trim_parts parts = rev (dropWhile ignored_part (rev (dropWhile ignored_part parts)))"

definition after_components :: "nat \<Rightarrow> path \<Rightarrow> path" where
  "after_components n p =
     (if n = 0 then p
      else join_with [slash] (trim_parts (skip_parts (n - 1) (drop 1 (split_char slash p)))))"

definition path_strip_prefix :: "path \<Rightarrow> path \<Rightarrow> path option" where
  "path_strip_prefix p base =
     (if prefix (components base) (components p)
      then Some (after_components (length (components base)) p) else None)"

text \<open>\<open>Path::parent\<close> and \<open>Path::file_name\<close>.\<close>

definition path_parent :: "path \<Rightarrow> path option" where
  "path_parent p =
     (case rev (components p) of
        [] \<Rightarrow> None
      | RootDir # _ \<Rightarrow> None
      | _ # rest \<Rightarrow>
          if rest = [RootDir] then Some ''/''
          else if rest = [CurDir] then Some ''.''
          else Some (join_with [slash]
                 (rev (dropWhile ignored_part
                   (drop 1 (dropWhile ignored_part (rev (split_char slash p))))))))"

definition path_file_name :: "path \<Rightarrow> string option" where
  "path_file_name p = (case rev (components p) of Normal w # _ \<Rightarrow> Some w | _ \<Rightarrow> None)"

subsection \<open>normalize_lexically\<close>

text \<open>The vector of components is kept with its last element first.\<close>

fun normalize_step :: "component list \<Rightarrow> component \<Rightarrow> component list" where
  "normalize_step st CurDir = st"
| "normalize_step (Normal w # st) ParentDir = st"
| "normalize_step (RootDir # st) ParentDir = RootDir # st"
| "normalize_step st c = c # st"

definition normalize_components :: "component list \<Rightarrow> component list" where
  "normalize_components cs = rev (foldl normalize_step [] cs)"

definition normalize_lexically :: "path \<Rightarrow> path" where
  "normalize_lexically p =
     (let cs = normalize_components (components p)
      in if cs = [] then ''.'' else collect_path cs)"

definition to_relative_path :: "path \<Rightarrow> path \<Rightarrow> path" where
  "to_relative_path root abs_path =
     (case path_strip_prefix abs_path root of Some p \<Rightarrow> p | None \<Rightarrow> abs_path)"

definition from_relative_path :: "path \<Rightarrow> path \<Rightarrow> path" where
  "from_relative_path root rel = (if is_absolute rel then rel else path_push root rel)"

subsection \<open>Components and their spelling\<close>

definition name_ok :: "string \<Rightarrow> bool" where
  "name_ok w \<longleftrightarrow> w \<notin> {[], ''.'', ''..''} \<and> slash \<notin> set w"

fun body_ok :: "component \<Rightarrow> bool" where
  "body_ok ParentDir = True"
| "body_ok (Normal w) = name_ok w"
| "body_ok _ = False"

lemma body_str:
  "body_ok c \<Longrightarrow> component_str c \<noteq> [] \<and> slash \<notin> set (component_str c)
     \<and> \<not> is_absolute (component_str c) \<and> last (component_str c) \<noteq> slash
     \<and> \<not> ignored_part (component_str c) \<and> body_component (component_str c) = c"
proof (cases c)
  case (Normal w)
  assume "body_ok c"
  then have w: "name_ok w" using Normal by simp
  then obtain d ds where d: "w = d # ds" by (cases w) (auto simp: name_ok_def)
  have "last w \<in> set w" using d by simp
  then show ?thesis
    using w d Normal
    by (auto simp: name_ok_def ignored_part_def body_component_def is_absolute_def
        starts_with_def slash_def)
qed (auto simp: slash_def is_absolute_def starts_with_def ignored_part_def body_component_def)

lemma body_components:
  "\<forall>c \<in> set (map body_component (filter (\<lambda>w. \<not> ignored_part w) (split_char slash p))). body_ok c"
  by (auto simp: body_component_def ignored_part_def name_ok_def dest: split_char_parts)

lemma push_body:
  "body_ok c \<Longrightarrow> p \<noteq> [] \<Longrightarrow> last p \<noteq> slash \<Longrightarrow>
     path_push p (component_str c) = p @ slash # component_str c"
  using body_str [of c] by (simp add: path_push_def)

lemma collect_body:
  "\<forall>c \<in> set cs. body_ok c \<Longrightarrow> cs \<noteq> [] \<Longrightarrow>
     collect_path cs = join_with [slash] (map component_str cs)
     \<and> collect_path cs \<noteq> [] \<and> last (collect_path cs) \<noteq> slash"
proof (induction cs rule: rev_induct)
  case (snoc c cs)
  show ?case
  proof (cases "cs = []")
    case True
    then show ?thesis
      using snoc body_str [of c] by (simp add: collect_path_def path_push_def)
  next
    case False
    then have ih: "collect_path cs = join_with [slash] (map component_str cs)"
        "collect_path cs \<noteq> []" "last (collect_path cs) \<noteq> slash"
      using snoc.IH snoc.prems(1) by (metis butlast_snoc in_set_butlastD)+
    have b: "body_ok c" using snoc.prems by simp
    have "collect_path (cs @ [c]) = path_push (collect_path cs) (component_str c)"
      by (simp add: collect_path_def)
    also have "\<dots> = collect_path cs @ slash # component_str c"
      by (rule push_body) (use b ih in auto)
    finally have "collect_path (cs @ [c]) = collect_path cs @ slash # component_str c" .
    then show ?thesis
      using body_str [OF b] False ih(1) by (simp add: join_with_append)
  qed
qed simp

lemma collect_root:
  "\<forall>c \<in> set cs. body_ok c \<Longrightarrow>
     collect_path (RootDir # cs) = slash # join_with [slash] (map component_str cs)
     \<and> (cs \<noteq> [] \<longrightarrow> last (collect_path (RootDir # cs)) \<noteq> slash)"
proof (induction cs rule: rev_induct)
  case Nil
  show ?case by (simp add: collect_path_def path_push_def is_absolute_def slash_def)
next
  case (snoc c cs)
  have step: "collect_path (RootDir # cs @ [c])
      = path_push (collect_path (RootDir # cs)) (component_str c)"
    by (simp add: collect_path_def)
  show ?case
  proof (cases "cs = []")
    case True
    then show ?thesis
      using snoc step body_str [of c] by (simp add: path_push_def)
  next
    case False
    then have ih: "collect_path (RootDir # cs) = slash # join_with [slash] (map component_str cs)"
        "last (collect_path (RootDir # cs)) \<noteq> slash"
      using snoc.IH snoc.prems by (metis butlast_snoc in_set_butlastD)+
    have b: "body_ok c" using snoc.prems by simp
    have "path_push (collect_path (RootDir # cs)) (component_str c)
        = collect_path (RootDir # cs) @ slash # component_str c"
      by (rule push_body) (use b ih in auto)
    then have "collect_path (RootDir # cs @ [c])
        = collect_path (RootDir # cs) @ slash # component_str c"
      using step by simp
    then show ?thesis
      using body_str [OF b] False ih(1) by (simp add: join_with_append)
  qed
qed

lemma filter_body:
  "\<forall>c \<in> set cs. body_ok c \<Longrightarrow>
     map body_component (filter (\<lambda>w. \<not> ignored_part w) (map component_str cs)) = cs"
  by (induction cs) (auto simp: body_str)

lemma components_body:
  assumes "\<forall>c \<in> set cs. body_ok c" and "cs \<noteq> []"
  shows "components (collect_path cs) = cs"
proof -
  have s: "split_char slash (collect_path cs) = map component_str cs"
    using assms collect_body [OF assms] by (auto simp: split_join body_str)
  obtain c cs' where c: "cs = c # cs'" using assms(2) by (cases cs) auto
  have b: "body_ok c" using assms c by simp
  have "\<not> is_absolute (collect_path cs)"
  proof -
    have "\<exists>r. join_with [slash] (map component_str cs) = component_str c @ r"
      using c by (cases cs') auto
    then show ?thesis
      using body_str [OF b] collect_body [OF assms]
      by (cases "component_str c") (auto simp: is_absolute_def)
  qed
  moreover have "component_str c \<noteq> ''.''" using body_str [OF b] by (auto simp: ignored_part_def)
  ultimately show ?thesis
    using s c filter_body [OF assms(1)] by (simp add: components_def)
qed

lemma components_root:
  assumes "\<forall>c \<in> set cs. body_ok c"
  shows "components (collect_path (RootDir # cs)) = RootDir # cs"
proof (cases "cs = []")
  case True
  then show ?thesis
    using collect_root [of "[]"]
    by (simp add: components_def is_absolute_def slash_def ignored_part_def)
next
  case False
  then have "split_char slash (join_with [slash] (map component_str cs)) = map component_str cs"
    using assms by (auto simp: split_join body_str)
  then show ?thesis
    using collect_root [OF assms] filter_body [OF assms]
    by (simp add: components_def is_absolute_def ignored_part_def slash_def)
qed

subsection \<open>The normal form\<close>

inductive normal_form :: "component list \<Rightarrow> bool" where
  rooted: "\<forall>w \<in> set ws. name_ok w \<Longrightarrow> normal_form (RootDir # map Normal ws)"
| floating: "\<forall>w \<in> set ws. name_ok w \<Longrightarrow>
     normal_form (replicate k ParentDir @ map Normal ws)"

inductive_cases normal_formE: "normal_form cs"

lemma normalize_step_Normal [simp]: "normalize_step st (Normal w) = Normal w # st"
  by (cases st rule: list.exhaust; cases "hd st") simp_all

lemma normalize_step_Parents [simp]:
  "normalize_step (replicate k ParentDir) ParentDir = replicate (Suc k) ParentDir"
  by (cases k) simp_all

lemma normal_form_step:
  assumes "normal_form (rev st)" and "body_ok c"
  shows "normal_form (rev (normalize_step st c))"
  using assms(1)
proof (cases rule: normal_form.cases)
  case (rooted ws)
  then have st: "st = map Normal (rev ws) @ [RootDir]"
    by (metis rev_map rev.simps(2) rev_swap)
  show ?thesis
  proof (cases c)
    case (Normal w)
    have "rev (normalize_step st c) = RootDir # map Normal (ws @ [w])"
      using Normal st by (simp add: rev_map)
    then show ?thesis
      using normal_form.rooted [of "ws @ [w]"] rooted assms(2) Normal by simp
  next
    case ParentDir
    show ?thesis
    proof (cases ws rule: rev_cases)
      case Nil
      then show ?thesis using ParentDir st normal_form.rooted [of "[]"] by simp
    next
      case (snoc ws' w)
      then have "rev (normalize_step st c) = RootDir # map Normal ws'"
        using ParentDir st by (simp add: rev_map)
      then show ?thesis using normal_form.rooted [of ws'] rooted snoc by simp
    qed
  qed (use assms(2) in simp_all)
next
  case (floating ws k)
  then have st: "st = map Normal (rev ws) @ replicate k ParentDir"
    by (metis rev_append rev_map rev_replicate rev_rev_ident)
  show ?thesis
  proof (cases c)
    case (Normal w)
    have "rev (normalize_step st c) = replicate k ParentDir @ map Normal (ws @ [w])"
      using Normal st by (simp add: rev_map)
    then show ?thesis
      using normal_form.floating [of "ws @ [w]" k] floating assms(2) Normal by simp
  next
    case ParentDir
    show ?thesis
    proof (cases ws rule: rev_cases)
      case Nil
      then have "rev (normalize_step st c) = replicate (Suc k) ParentDir"
        using ParentDir st by (simp del: replicate_Suc)
      then show ?thesis using normal_form.floating [of "[]" "Suc k"] by simp
    next
      case (snoc ws' w)
      then have "rev (normalize_step st c) = replicate k ParentDir @ map Normal ws'"
        using ParentDir st by (simp add: rev_map)
      then show ?thesis using normal_form.floating [of ws' k] floating snoc by simp
    qed
  qed (use assms(2) in simp_all)
qed

lemma normal_form_fold:
  "normal_form (rev st) \<Longrightarrow> \<forall>c \<in> set cs. body_ok c \<Longrightarrow>
     normal_form (rev (foldl normalize_step st cs))"
  by (induction cs arbitrary: st) (simp_all add: normal_form_step)

lemma normalize_components_normal: "normal_form (normalize_components (components p))"
proof -
  have "normal_form (rev [])" using normal_form.floating [of "[]" 0] by simp
  moreover have "normal_form (rev [RootDir])" using normal_form.rooted [of "[]"] by simp
  ultimately show ?thesis
    using normal_form_fold [OF _ body_components [of p]]
    by (auto simp: normalize_components_def components_def simp del: rev.simps)
qed

lemma normal_form_fix: "normal_form cs \<Longrightarrow> normalize_components cs = cs"
proof -
  have n: "foldl normalize_step st (map Normal ws) = map Normal (rev ws) @ st" for st ws
    by (induction ws arbitrary: st) simp_all
  have k: "foldl normalize_step (replicate j ParentDir) (replicate k ParentDir)
      = replicate (j + k) ParentDir" for j k
  proof (induction k arbitrary: j)
    case (Suc k)
    have "foldl normalize_step (replicate j ParentDir) (ParentDir # replicate k ParentDir)
        = replicate (Suc j + k) ParentDir"
      by (simp only: foldl.simps normalize_step_Parents Suc.IH)
    then show ?case by simp
  qed simp
  assume "normal_form cs"
  then show ?thesis
    by (cases rule: normal_form.cases) (use k [of 0] in \<open>auto simp: normalize_components_def n rev_map\<close>)
qed

lemma normal_form_components:
  "normal_form cs \<Longrightarrow> cs \<noteq> [] \<Longrightarrow> components (collect_path cs) = cs"
proof (erule normal_formE, goal_cases)
  case (1 ws)
  then show ?case by (auto intro!: components_root)
next
  case (2 ws k)
  then show ?case by (intro components_body) auto
qed

lemma components_dot: "components ''.'' = [CurDir]"
  by code_simp

lemma components_normalize:
  "components (normalize_lexically p)
   = (let cs = normalize_components (components p) in if cs = [] then [CurDir] else cs)"
  using normalize_components_normal [of p]
  by (simp add: normalize_lexically_def Let_def normal_form_components components_dot)

definition rooted_form :: "component list \<Rightarrow> bool" where
  "rooted_form cs \<longleftrightarrow> (\<exists>ws. cs = RootDir # map Normal ws)"

lemma rooted_step:
  assumes "rooted_form (rev st)" and "body_ok c"
  shows "rooted_form (rev (normalize_step st c))"
proof -
  obtain ws where "rev st = RootDir # map Normal ws"
    using assms(1) by (auto simp: rooted_form_def)
  then have st: "st = map Normal (rev ws) @ [RootDir]"
    by (metis rev_map rev.simps(2) rev_swap)
  show ?thesis
  proof (cases c)
    case (Normal w)
    then have "rev (normalize_step st c) = RootDir # map Normal (ws @ [w])"
      using st by (simp add: rev_map)
    then show ?thesis by (auto simp only: rooted_form_def)
  next
    case ParentDir
    have "rev (normalize_step st c) = RootDir # map Normal (butlast ws)"
      using ParentDir st by (cases ws rule: rev_cases) (simp_all add: rev_map)
    then show ?thesis by (auto simp only: rooted_form_def)
  qed (use assms(2) in simp_all)
qed

lemma rooted_fold:
  "rooted_form (rev st) \<Longrightarrow> \<forall>c \<in> set cs. body_ok c \<Longrightarrow>
     rooted_form (rev (foldl normalize_step st cs))"
  by (induction cs arbitrary: st) (simp_all add: rooted_step)

lemma rooted_normalize:
  assumes "is_absolute p"
  shows "rooted_form (components (normalize_lexically p))"
proof -
  have "rooted_form (rev [RootDir])" by (simp add: rooted_form_def)
  then have "rooted_form (normalize_components (components p))"
    using rooted_fold [OF _ body_components [of p]] assms
    by (simp add: normalize_components_def components_def del: rev.simps)
  then show ?thesis by (auto simp: components_normalize Let_def rooted_form_def)
qed

subsection \<open>Moves in the directory tree\<close>

text \<open>
  The specification: a location is the list of names from the current directory up to the
  root, and a component moves to another location, \<open>..\<close> staying at the root.
\<close>

fun move :: "string list \<Rightarrow> component \<Rightarrow> string list" where
  "move loc RootDir = []"
| "move loc CurDir = loc"
| "move loc ParentDir = tl loc"
| "move loc (Normal w) = w # loc"

definition locate :: "string list \<Rightarrow> path \<Rightarrow> string list" where
  "locate loc p = foldl move loc (components p)"

lemma move_normalize_step:
  "foldl move loc (rev (normalize_step st c)) = move (foldl move loc (rev st)) c"
  by (cases "(st, c)" rule: normalize_step.cases) auto

lemma move_normalize:
  "foldl move loc (rev (foldl normalize_step st cs)) = foldl move (foldl move loc (rev st)) cs"
  by (induction cs arbitrary: st) (simp_all add: move_normalize_step)

lemma locate_normalize: "locate loc (normalize_lexically p) = locate loc p"
  using move_normalize [of loc "[]" "components p"]
  by (auto simp: locate_def components_normalize normalize_components_def Let_def)

lemma normalize_idem: "normalize_lexically (normalize_lexically p) = normalize_lexically p"
proof (cases "normalize_components (components p) = []")
  case True
  then have "normalize_lexically p = ''.''" by (simp add: normalize_lexically_def)
  then show ?thesis by (simp add: normalize_lexically_def components_dot normalize_components_def)
next
  case False
  then have "normalize_components (components (normalize_lexically p))
      = normalize_components (components p)"
    using normal_form_fix [OF normalize_components_normal] by (simp add: components_normalize)
  then show ?thesis by (simp add: normalize_lexically_def)
qed

lemma move_bodies:
  "foldl move loc (components p)
   = foldl move (if is_absolute p then [] else loc)
       (map body_component (filter (\<lambda>w. \<not> ignored_part w) (split_char slash p)))"
  by (simp add: components_def)

lemma locate_absolute: "is_absolute p \<Longrightarrow> locate loc p = locate [] p"
  by (simp add: locate_def move_bodies)

lemma locate_push:
  assumes "is_absolute d" and "\<not> is_absolute p"
  shows "locate loc (path_push d p) = locate (locate loc d) p"
proof -
  have "d \<noteq> []" using assms(1) by (auto simp: is_absolute_def)
  then obtain b c where d: "d = b @ [c]" by (cases d rule: rev_cases) auto
  have "path_push d p = (if c = slash then b else d) @ slash # p"
    using assms(2) by (simp add: path_push_def d)
  then obtain a where a: "path_push d p = a @ slash # p \<and> (d = a \<or> d = a @ [slash])"
    using d by metis
  have "is_absolute (a @ slash # p)"
    using a assms(1) by (cases a) (auto simp: is_absolute_def starts_with_def slash_def)
  moreover have "filter (\<lambda>w. \<not> ignored_part w) (split_char slash d)
      = filter (\<lambda>w. \<not> ignored_part w) (split_char slash a)"
    using a by (auto simp: split_char_append [of slash a "[]", simplified] ignored_part_def)
  ultimately show ?thesis
    using a assms by (simp add: locate_def move_bodies split_char_append)
qed

lemma locate_rooted: "components p = RootDir # map Normal ws \<Longrightarrow> locate loc p = rev ws"
proof -
  have "foldl move l (map Normal ws) = rev ws @ l" for l
    by (induction ws arbitrary: l) simp_all
  then show "components p = RootDir # map Normal ws \<Longrightarrow> locate loc p = rev ws"
    by (simp add: locate_def)
qed

text \<open>Component-wise containment of normalized absolute paths is containment of locations.\<close>

lemma strip_prefix_below:
  assumes "is_absolute d" and "is_absolute p"
    and "path_strip_prefix (normalize_lexically p) (normalize_lexically d) \<noteq> None"
  shows "suffix (locate [] d) (locate [] p)"
proof -
  obtain ws vs where w: "components (normalize_lexically d) = RootDir # map Normal ws"
    and v: "components (normalize_lexically p) = RootDir # map Normal vs"
    using rooted_normalize [OF assms(1)] rooted_normalize [OF assms(2)]
    by (auto simp: rooted_form_def)
  have "prefix (map Normal ws) (map Normal vs)"
    using assms(3) w v by (simp add: path_strip_prefix_def split: if_splits)
  then have "prefix ws vs"
    by (auto simp: prefix_def map_eq_append_conv inj_map_eq_map inj_def)
  moreover have "locate [] d = rev ws" "locate [] p = rev vs"
    using locate_normalize [of "[]" d] locate_normalize [of "[]" p] locate_rooted w v by metis+
  ultimately show ?thesis by (simp add: suffix_to_prefix)
qed

text \<open>
  Lexical normalization is sound and canonical: from any directory the normalized path
  names the location the path names, normalizing again changes nothing, and what is left is
  a rooted path without \<open>.\<close> or \<open>..\<close>, or \<open>..\<close> parts before the first name only.
\<close>

theorem normalize_lexically_correct:
  "locate loc (normalize_lexically p) = locate loc p
   \<and> normalize_lexically (normalize_lexically p) = normalize_lexically p
   \<and> (components (normalize_lexically p) = [CurDir]
      \<or> normal_form (components (normalize_lexically p)))"
  using normalize_components_normal [of p]
  by (simp add: locate_normalize normalize_idem components_normalize Let_def)

end
