(* ===== verification/GB_ShellTree.thy ===== *)
theory GB_ShellTree
  imports GB_Prelude "HOL-Library.Multiset"
begin

section \<open>Decomposing a shell script (permission/bash_command_splitting.rs, tree part)\<close>

text \<open>
  The tree-sitter parser is code outside the repository: the functions that call it take it
  as the parameter \<open>parse\<close>, from a script to a concrete syntax tree with its error flag, or
  \<open>None\<close>. What the repository does with the tree is modelled here: which trees are taken
  apart into plain commands, the words and the byte span of each command, and the display
  break points.
\<close>

datatype node =
  Node (nd_kind: string) (nd_named: bool) (nd_start: nat) (nd_end: nat) (nd_children: "node list")

record tree =
  tr_root :: node
  tr_has_error :: bool

type_synonym parser = "string \<Rightarrow> tree option"

subsection \<open>The depth-first walk\<close>

text \<open>
  The order in which a stack that pops its last element visits a node: the node, then its
  children from last to first.
\<close>

fun dfs :: "node \<Rightarrow> node list" where
  "dfs (Node k nm s e cs) = Node k nm s e cs # concat (map dfs (rev cs))"

definition ALLOWED_KINDS :: "string list" where
  "ALLOWED_KINDS =
     [''program'', ''list'', ''pipeline'', ''command'', ''command_name'', ''word'', ''string'',
      ''string_content'', ''raw_string'', ''number'', ''concatenation'', ''variable_assignment'',
      ''variable_name'', ''redirected_statement'', ''file_redirect'', ''file_descriptor'',
      ''comment'', ''heredoc_redirect'', ''heredoc_start'', ''heredoc_body'',
      ''heredoc_content'', ''heredoc_end'']"

definition ALLOWED_PUNCT_TOKENS :: "string list" where
  "ALLOWED_PUNCT_TOKENS =
     [''&&'', ''||'', '';'', ''|'', [CHR 0x22], [CHR 0x27], ''='', ''>'', ''>>'', ''<'', ''<<'',
      ''>&'', ''&>'', ''&>>'']"

definition node_allowed :: "node \<Rightarrow> bool" where
  "node_allowed n \<longleftrightarrow>
     (if nd_named n then nd_kind n \<in> set ALLOWED_KINDS
      else \<not> (list_ex (\<lambda>c. c \<in> set ''&;|'') (nd_kind n)
               \<and> nd_kind n \<notin> set ALLOWED_PUNCT_TOKENS)
           \<and> (nd_kind n \<in> set ALLOWED_PUNCT_TOKENS \<or> trim (nd_kind n) = []))"

definition is_command_node :: "node \<Rightarrow> bool" where
  "is_command_node n \<longleftrightarrow> nd_named n \<and> nd_kind n = ''command''"

text \<open>The walk of \<open>try_parse_word_only_commands_sequence\<close>: the stack, top first.\<close>

function walk :: "node list \<Rightarrow> node list \<Rightarrow> node list option" where
  "walk [] acc = Some acc"
| "walk (n # stack) acc =
     (if \<not> node_allowed n then None
      else walk (rev (nd_children n) @ stack) (if is_command_node n then acc @ [n] else acc))"
  by pat_completeness auto
termination
proof (relation "measure (\<lambda>(stack, acc). length (concat (map dfs stack)))", goal_cases)
  case (2 n stack acc)
  then show ?case by (cases n) (simp add: rev_map [symmetric] sum_list_rev)
qed simp

lemma walk_eq:
  "walk stack acc =
     (let ns = concat (map dfs stack)
      in if list_all node_allowed ns then Some (acc @ filter is_command_node ns) else None)"
proof (induction stack acc rule: walk.induct)
  case (2 n stack acc)
  then show ?case by (cases n) (auto simp: Let_def rev_map)
qed simp

subsection \<open>One command node\<close>

record plain_command =
  pc_words :: "string list"
  pc_span_start :: nat
  pc_span_end :: nat

text \<open>
  \<open>utf8_text\<close>: the slice of the source a node covers, \<open>None\<close> off a character boundary or
  out of range.
\<close>

definition utf8_text :: "string \<Rightarrow> node \<Rightarrow> string option" where
  "utf8_text src n =
     (if nd_start n \<le> nd_end n \<and> nd_end n \<le> length src
         \<and> is_char_boundary src (nd_start n) \<and> is_char_boundary src (nd_end n)
      then Some (take (nd_end n - nd_start n) (drop (nd_start n) src)) else None)"

definition named_children :: "node \<Rightarrow> node list" where
  "named_children n = filter nd_named (nd_children n)"

definition is_simple_string :: "node \<Rightarrow> bool" where
  "is_simple_string child \<longleftrightarrow>
     length (nd_children child) = 3
     \<and> nd_kind (nd_children child ! 0) = [CHR 0x22]
     \<and> nd_kind (nd_children child ! 1) = ''string_content''
     \<and> nd_kind (nd_children child ! 2) = [CHR 0x22]"

text \<open>
  The word one child contributes and the node whose span it extends: \<open>None\<close> rejects the
  command, \<open>Some None\<close> skips the child (an environment assignment).
\<close>

definition child_word :: "string \<Rightarrow> node \<Rightarrow> (string \<times> node) option option" where
  "child_word src child =
     (let kind = nd_kind child
      in if kind = ''variable_assignment'' then Some None
         else if kind = ''command_name'' then
           (case first_opt (named_children child) of
              None \<Rightarrow> None
            | Some word_node \<Rightarrow>
                if nd_kind word_node \<noteq> ''word'' then None
                else map_option (\<lambda>t. Some (t, word_node)) (utf8_text src word_node))
         else if kind = ''word'' \<or> kind = ''number'' then
           map_option (\<lambda>t. Some (t, child)) (utf8_text src child)
         else if kind = ''string'' \<and> is_simple_string child then
           map_option (\<lambda>t. Some (t, child)) (utf8_text src (nd_children child ! 1))
         else if kind = ''raw_string'' then
           (case utf8_text src child of
              None \<Rightarrow> None
            | Some raw_string \<Rightarrow>
                (case strip_prefix raw_string [CHR 0x27] of
                   None \<Rightarrow> None
                 | Some s \<Rightarrow> map_option (\<lambda>t. Some (t, child)) (strip_suffix s [CHR 0x27])))
         else if kind = ''concatenation'' then
           map_option (\<lambda>t. Some (t, child)) (utf8_text src child)
         else None)"

text \<open>The loop over the named children, with the words and the two span variables.\<close>

fun collect_words ::
    "string \<Rightarrow> node list \<Rightarrow> string list \<Rightarrow> nat option \<Rightarrow> nat option
      \<Rightarrow> (string list \<times> nat option \<times> nat option) option" where
  "collect_words src [] words st en = Some (words, st, en)"
| "collect_words src (child # cs) words st en =
     (case child_word src child of
        None \<Rightarrow> None
      | Some None \<Rightarrow> collect_words src cs words st en
      | Some (Some (t, sp)) \<Rightarrow>
          collect_words src cs (words @ [t])
            (if st = None then Some (nd_start sp) else st) (Some (nd_end sp)))"

definition parse_plain_command_from_node :: "string \<Rightarrow> node \<Rightarrow> plain_command option" where
  "parse_plain_command_from_node src cmd =
     (if nd_kind cmd \<noteq> ''command'' then None
      else case collect_words src (named_children cmd) [] None None of
             None \<Rightarrow> None
           | Some (words, st, en) \<Rightarrow>
               Some \<lparr>pc_words = words,
                     pc_span_start = (case st of None \<Rightarrow> nd_start cmd | Some s \<Rightarrow> s),
                     pc_span_end = (case en of None \<Rightarrow> nd_end cmd | Some e \<Rightarrow> e)\<rparr>)"

definition try_parse_word_only_commands_sequence :: "tree \<Rightarrow> string \<Rightarrow> plain_command list option" where
  "try_parse_word_only_commands_sequence tree src =
     (if tr_has_error tree then None
      else case walk [tr_root tree] [] of
             None \<Rightarrow> None
           | Some command_nodes \<Rightarrow>
               those (map (parse_plain_command_from_node src)
                        (sort_key nd_start command_nodes)))"

definition all_commands_from_script :: "parser \<Rightarrow> string \<Rightarrow> plain_command list option" where
  "all_commands_from_script parse script =
     Option.bind (parse script) (\<lambda>tree. try_parse_word_only_commands_sequence tree script)"

definition spans_whole_script :: "plain_command \<Rightarrow> string \<Rightarrow> bool" where
  "spans_whole_script pc script =
     (case (get_to script (pc_span_start pc), get_from script (pc_span_end pc)) of
        (Some before, Some after) \<Rightarrow> trim before = [] \<and> trim after = []
      | _ \<Rightarrow> False)"

subsection \<open>Display soft breaks\<close>

definition PAYLOAD_NODE_KINDS :: "string list" where
  "PAYLOAD_NODE_KINDS =
     [''heredoc_body'', ''simple_heredoc_body'', ''heredoc_content'', ''heredoc_end'',
      ''string'', ''raw_string'', ''string_content'', ''ansi_c_string'', ''translated_string'',
      ''comment'']"

definition is_soft_break_operator_kind :: "string \<Rightarrow> bool" where
  "is_soft_break_operator_kind kind \<longleftrightarrow> kind \<in> {''&&'', ''||'', ''|'', '';''}"

definition is_payload_node_kind :: "string \<Rightarrow> bool" where
  "is_payload_node_kind kind \<longleftrightarrow> kind \<in> set PAYLOAD_NODE_KINDS"

text \<open>
  Both display walks push the children in reverse, so the stack pops them in order; a
  payload node is not entered.
\<close>

fun break_offsets :: "string \<Rightarrow> node \<Rightarrow> nat list" where
  "break_offsets script (Node k nm s e cs) =
     (if is_payload_node_kind k then []
      else (if is_soft_break_operator_kind k \<and> e > 0 \<and> e \<le> length script
                \<and> is_char_boundary script e
            then [e] else [])
           @ concat (map (break_offsets script) cs))"

definition soft_break_offsets_after_operators :: "parser \<Rightarrow> string \<Rightarrow> nat list" where
  "soft_break_offsets_after_operators parse script =
     (case parse script of
        None \<Rightarrow> []
      | Some tree \<Rightarrow>
          if tr_has_error tree then []
          else remdups_adj (sort (break_offsets script (tr_root tree))))"

definition HEREDOC_PAYLOAD :: "string list" where
  "HEREDOC_PAYLOAD = [''heredoc_body'', ''simple_heredoc_body'', ''heredoc_content'']"

fun payload_ranges :: "string \<Rightarrow> node \<Rightarrow> (nat \<times> nat) list" where
  "payload_ranges script (Node k nm s e cs) =
     (if k \<in> set HEREDOC_PAYLOAD
      then (if s < e \<and> e \<le> length script then [(s, e)] else [])
      else concat (map (payload_ranges script) cs))"

definition heredoc_payload_byte_ranges :: "parser \<Rightarrow> string \<Rightarrow> (nat \<times> nat) list" where
  "heredoc_payload_byte_ranges parse script =
     (case parse script of
        None \<Rightarrow> []
      | Some tree \<Rightarrow>
          if tr_has_error tree then []
          else remdups_adj (sort_key fst (sort_key snd (payload_ranges script (tr_root tree)))))"

definition range_fully_inside :: "nat \<Rightarrow> nat \<Rightarrow> (nat \<times> nat) list \<Rightarrow> bool" where
  "range_fully_inside st en ranges =
     (if en < st then False else list_ex (\<lambda>(rs, re). st \<ge> rs \<and> en \<le> re) ranges)"

text \<open>The cutting loop of \<open>split_physical_line_at_soft_breaks\<close>, then the function.\<close>

fun cut_chunks :: "string \<Rightarrow> nat \<Rightarrow> nat list \<Rightarrow> string list \<times> nat" where
  "cut_chunks line st [] = ([], st)"
| "cut_chunks line st (b # bs) =
     (if b > st then
        (case cut_chunks line b bs of
           (chunks, fin) \<Rightarrow> (take (b - st) (drop st line) # chunks, fin))
      else cut_chunks line st bs)"

definition split_physical_line_at_soft_breaks :: "string \<Rightarrow> nat \<Rightarrow> nat list \<Rightarrow> string list" where
  "split_physical_line_at_soft_breaks line line_start breaks =
     (let line_end = line_start + length line;
          rel = remdups_adj
            (filter (is_char_boundary line)
              (map (\<lambda>b. b - line_start)
                (filter (\<lambda>b. b > line_start \<and> b < line_end) breaks)))
      in if rel = [] then [line]
         else (case cut_chunks line 0 rel of
                 (chunks, st) \<Rightarrow>
                   (let all = chunks @ (if st < length line then [drop st line] else [])
                    in if all = [] then [line] else all)))"

definition soft_break_chunks :: "parser \<Rightarrow> string \<Rightarrow> string list" where
  "soft_break_chunks parse script =
     (let breaks = soft_break_offsets_after_operators parse script
      in if breaks = [] then [script]
         else (case cut_chunks script 0 (filter (\<lambda>b. b \<le> length script) breaks) of
                 (chunks, st) \<Rightarrow>
                   chunks @ (if st < length script then [drop st script] else [])))"

subsection \<open>Nothing in an accepted script escapes\<close>

lemma those_map_Some [simp]: "those (map Some ys) = Some ys"
  by (induction ys) auto

lemma those_SomeD: "those xs = Some ys \<Longrightarrow> xs = map Some ys"
  by (induction xs arbitrary: ys) (auto split: option.splits)

lemma those_Some: "those xs = Some ys \<longleftrightarrow> xs = map Some ys"
  using those_SomeD by fastforce

lemma word_only_Some:
  "try_parse_word_only_commands_sequence tree src = Some cmds \<longleftrightarrow>
     \<not> tr_has_error tree \<and> list_all node_allowed (dfs (tr_root tree))
     \<and> map (parse_plain_command_from_node src)
         (sort_key nd_start (filter is_command_node (dfs (tr_root tree)))) = map Some cmds"
  by (auto simp: try_parse_word_only_commands_sequence_def walk_eq Let_def those_Some)

text \<open>
  C40. When a script is taken apart, nothing in it goes unseen: every node of its syntax
  tree, at any depth, is of an allowed kind (so there is no substitution, subshell, control
  flow or unknown operator), and the commands returned are the command nodes of the whole
  tree, each exactly once, in source order, none of them rejected.
\<close>

theorem accepted_script_fully_decomposed:
  assumes "all_commands_from_script parse script = Some cmds"
  shows "\<exists>tree nodes. parse script = Some tree \<and> \<not> tr_has_error tree
    \<and> (\<forall>n \<in> set (dfs (tr_root tree)). node_allowed n)
    \<and> mset nodes = mset (filter is_command_node (dfs (tr_root tree)))
    \<and> sorted (map nd_start nodes)
    \<and> map (parse_plain_command_from_node script) nodes = map Some cmds"
proof -
  obtain tree where p: "parse script = Some tree"
    and w: "try_parse_word_only_commands_sequence tree script = Some cmds"
    using assms by (auto simp: all_commands_from_script_def bind_eq_Some_conv)
  let ?nodes = "sort_key nd_start (filter is_command_node (dfs (tr_root tree)))"
  have "mset ?nodes = mset (filter is_command_node (dfs (tr_root tree)))" by simp
  moreover have "sorted (map nd_start ?nodes)" by (rule sorted_sort_key)
  ultimately show ?thesis
    using p w unfolding word_only_Some list_all_iff by blast
qed

text \<open>The tree of the script \<open>ls a\<close>, and a parser that knows only this script.\<close>

definition sample_tree :: tree where
  "sample_tree =
     \<lparr>tr_root = Node ''program'' True 0 4
        [Node ''command'' True 0 4
           [Node ''command_name'' True 0 2 [Node ''word'' True 0 2 []],
            Node ''word'' True 3 4 []]],
      tr_has_error = False\<rparr>"

definition sample_parser :: parser where
  "sample_parser script = (if script = ''ls a'' then Some sample_tree else None)"

lemma sample_commands:
  "all_commands_from_script sample_parser ''ls a''
     = Some [\<lparr>pc_words = [''ls'', ''a''], pc_span_start = 0, pc_span_end = 4\<rparr>]"
  by (simp add: all_commands_from_script_def sample_parser_def sample_tree_def
      try_parse_word_only_commands_sequence_def walk_eq node_allowed_def ALLOWED_KINDS_def
      is_command_node_def parse_plain_command_from_node_def named_children_def child_word_def
      utf8_text_def is_char_boundary_def is_continuation_def Let_def)

theorem accepted_script_fully_decomposed_witness:
  "\<exists>tree. sample_parser ''ls a'' = Some tree \<and> (\<forall>n \<in> set (dfs (tr_root tree)). node_allowed n)"
  using accepted_script_fully_decomposed [OF sample_commands] by blast

subsection \<open>Display breaks\<close>

lemma break_offsets_sound:
  "b \<in> set (break_offsets script n) \<Longrightarrow>
     0 < b \<and> b \<le> length script \<and> is_char_boundary script b
     \<and> (\<exists>m \<in> set (dfs n). nd_end m = b \<and> is_soft_break_operator_kind (nd_kind m))"
proof (induction script n rule: break_offsets.induct)
  case (1 script k nm s e cs)
  then show ?case by (auto split: if_splits)
qed

lemma set_breaks:
  "set (soft_break_offsets_after_operators parse script) =
     (case parse script of None \<Rightarrow> {}
      | Some tree \<Rightarrow> if tr_has_error tree then {} else set (break_offsets script (tr_root tree)))"
  by (cases "parse script") (simp_all add: soft_break_offsets_after_operators_def)

text \<open>
  The display break points of a script are strictly increasing, lie within the script
  on character boundaries, and each is the end of a real list or pipeline operator node of
  the tree; a script that does not parse cleanly has none.
\<close>

theorem soft_breaks_are_operators:
  "sorted_wrt (<) (soft_break_offsets_after_operators parse script)
   \<and> (\<forall>b \<in> set (soft_break_offsets_after_operators parse script).
        0 < b \<and> b \<le> length script \<and> is_char_boundary script b
        \<and> (\<exists>tree. parse script = Some tree \<and> \<not> tr_has_error tree
             \<and> (\<exists>m \<in> set (dfs (tr_root tree)).
                  nd_end m = b \<and> is_soft_break_operator_kind (nd_kind m))))"
proof (intro conjI ballI)
  show "sorted_wrt (<) (soft_break_offsets_after_operators parse script)"
    by (auto simp: soft_break_offsets_after_operators_def strict_sorted_dedup
        split: option.split)
next
  fix b assume "b \<in> set (soft_break_offsets_after_operators parse script)"
  then obtain tree where "parse script = Some tree" "\<not> tr_has_error tree"
    "b \<in> set (break_offsets script (tr_root tree))"
    by (auto simp: set_breaks split: option.splits if_splits)
  then show "0 < b" "b \<le> length script" "is_char_boundary script b"
    "\<exists>tree. parse script = Some tree \<and> \<not> tr_has_error tree
       \<and> (\<exists>m \<in> set (dfs (tr_root tree)). nd_end m = b \<and> is_soft_break_operator_kind (nd_kind m))"
    using break_offsets_sound by auto
qed

definition pipe_parser :: parser where
  "pipe_parser script =
     Some \<lparr>tr_root = Node ''program'' True 0 3
              [Node ''pipeline'' True 0 3
                 [Node ''command'' True 0 1 [], Node ''|'' False 1 2 [],
                  Node ''command'' True 2 3 []]],
           tr_has_error = False\<rparr>"

theorem soft_breaks_are_operators_witness:
  "soft_break_offsets_after_operators pipe_parser ''a|b'' = [2]
   \<and> is_char_boundary ''a|b'' 2"
proof -
  have "soft_break_offsets_after_operators pipe_parser ''a|b'' = [2]"
    by (simp add: soft_break_offsets_after_operators_def pipe_parser_def
        is_payload_node_kind_def PAYLOAD_NODE_KINDS_def is_soft_break_operator_kind_def
        is_char_boundary_def is_continuation_def)
  then show ?thesis using soft_breaks_are_operators [of pipe_parser "''a|b''"] by simp
qed

lemma cut_chunks_concat:
  "cut_chunks line st bs = (chunks, fin) \<Longrightarrow> st \<le> length line \<Longrightarrow> \<forall>b \<in> set bs. b \<le> length line \<Longrightarrow>
     concat chunks @ drop fin line = drop st line \<and> fin \<le> length line \<and> [] \<notin> set chunks"
proof (induction line st bs arbitrary: chunks fin rule: cut_chunks.induct)
  case (2 line st b bs)
  show ?case
  proof (cases "b > st")
    case True
    obtain cs f where r: "cut_chunks line b bs = (cs, f)" by fastforce
    have "concat cs @ drop f line = drop b line \<and> f \<le> length line \<and> [] \<notin> set cs"
      using "2.IH"(1) [OF True r] "2.prems"(3) by simp
    moreover have "take (b - st) (drop st line) @ drop b line = drop st line"
      using True by (metis append_take_drop_id drop_drop le_add_diff_inverse2 less_imp_le)
    ultimately show ?thesis using True r "2.prems" by auto
  next
    case False
    then show ?thesis using "2.IH"(2) "2.prems" by simp
  qed
qed auto

text \<open>
  Cutting a physical line at the break points loses no byte: the pieces joined give
  the line back, and no piece is empty unless the line is.
\<close>

theorem split_line_roundtrip:
  "concat (split_physical_line_at_soft_breaks line start breaks) = line
   \<and> (line \<noteq> [] \<longrightarrow> [] \<notin> set (split_physical_line_at_soft_breaks line start breaks))"
proof -
  let ?rel = "remdups_adj (filter (is_char_boundary line) (map (\<lambda>b. b - start)
      (filter (\<lambda>b. b > start \<and> b < start + length line) breaks)))"
  obtain chunks fin where c: "cut_chunks line 0 ?rel = (chunks, fin)" by fastforce
  have "\<forall>b \<in> set ?rel. b \<le> length line" by auto
  with cut_chunks_concat [OF c] have ch:
    "concat chunks @ drop fin line = line" "fin \<le> length line" "[] \<notin> set chunks" by auto
  show ?thesis
  proof (cases "fin < length line")
    case True
    then show ?thesis using c ch
      by (auto simp: split_physical_line_at_soft_breaks_def Let_def)
  next
    case False
    then have "concat chunks = line" using ch(1,2) by simp
    then show ?thesis using c ch(3) False
      by (auto simp: split_physical_line_at_soft_breaks_def Let_def)
  qed
qed

theorem split_line_roundtrip_witness:
  "[] \<notin> set (split_physical_line_at_soft_breaks ''a && b'' 0 [4])"
  using split_line_roundtrip [of "''a && b''" 0 "[4]"] by simp

end
