(* ===== verification/GB_ShellWords.thy ===== *)
theory GB_ShellWords
  imports GB_ShellTree
begin

section \<open>Wrappers and prefixes of a command (permission/bash_command_splitting.rs)\<close>

text \<open>
  The word-level half of the file: quoting, GNU/BSD \<open>env\<close> options, the wrapper commands
  (\<open>timeout\<close>, \<open>nice\<close>, \<open>ionice\<close>, \<open>chrt\<close>, \<open>stdbuf\<close>, \<open>env\<close>), the shell-transparent prefixes
  (\<open>exec\<close>, \<open>command\<close>, \<open>builtin\<close>) and their bounded alternation. An index \<open>i\<close> into a
  command is represented by the suffix \<open>cmd[i..]\<close>; an index beyond the end and the end
  itself both read as the empty suffix, and every caller treats the two alike.
\<close>

definition is_setup_command :: "string list \<Rightarrow> bool" where
  "is_setup_command cmd =
     (case cmd of
        [] \<Rightarrow> True
      | w # _ \<Rightarrow> w \<in> {''cd'', ''pushd'', ''popd'', ''export'', ''unset'', ''set'', ''sleep'',
                     ''timeout''})"

definition is_env_assignment :: "string \<Rightarrow> bool" where
  "is_env_assignment tok =
     (if \<not> contains_char tok (CHR ''='') then False
      else let name = before_char (CHR ''='') tok
           in name \<noteq> []
              \<and> (is_ascii_alpha (hd name) \<or> hd name = CHR ''_'')
              \<and> list_all (\<lambda>b. is_ascii_alnum b \<or> b = CHR ''_'') name)"

subsection \<open>Quoting\<close>

definition quote1 :: char where "quote1 = CHR 0x27"
definition quote2 :: char where "quote2 = CHR 0x22"
definition backslash :: char where "backslash = CHR 0x5C"
definition nul :: string where "nul = [CHR 0x00]"

fun decode_loop :: "char option \<Rightarrow> string \<Rightarrow> string \<Rightarrow> string option" where
  "decode_loop quote out [] = (if quote = None then Some out else None)"
| "decode_loop None out (c # cs) =
     (if c = quote1 \<or> c = quote2 then decode_loop (Some c) out cs
      else if c = backslash then
        (case cs of [] \<Rightarrow> None | n # cs' \<Rightarrow> decode_loop None (out @ [n]) cs')
      else decode_loop None (out @ [c]) cs)"
| "decode_loop (Some q) out (c # cs) =
     (if q = c then decode_loop None out cs
      else if q = quote2 \<and> c = backslash then
        (case cs of
           [] \<Rightarrow> None
         | n # cs' \<Rightarrow>
             if n = CHR 0x24 \<or> n = CHR 0x60 \<or> n = quote2 \<or> n = backslash \<or> n = CHR 0x0A
             then decode_loop (Some q) (out @ [n]) cs'
             else decode_loop (Some q) (out @ [backslash, n]) cs')
      else decode_loop (Some q) (out @ [c]) cs)"

definition decode_shell_literal_spelling :: "string \<Rightarrow> string option" where
  "decode_shell_literal_spelling raw = decode_loop None [] raw"

definition decode_env_option_token :: "string \<Rightarrow> string" where
  "decode_env_option_token raw =
     (if \<not> (contains_char raw quote1 \<or> contains_char raw quote2) then raw
      else case decode_shell_literal_spelling raw of Some decoded \<Rightarrow> decoded | None \<Rightarrow> raw)"

definition is_high_confidence_env_s_payload :: "string \<Rightarrow> bool" where
  "is_high_confidence_env_s_payload s \<longleftrightarrow>
     s \<noteq> [] \<and> \<not> contains_char s (CHR 0x00)
     \<and> \<not> list_ex (\<lambda>c. c \<in> {quote1, quote2, backslash, CHR 0x23, CHR 0x60, CHR 0x24,
                         CHR 0x0A, CHR 0x0D}) s"

definition take_high_confidence_payload :: "string \<Rightarrow> string option" where
  "take_high_confidence_payload raw =
     (if is_high_confidence_env_s_payload raw then Some raw else None)"

subsection \<open>Options of env\<close>

datatype env_short =
    SplitStringNext
  | SplitStringGlued string
  | SplitStringDetect
  | NoArg
  | ArgNeedNext char
  | ArgGlued char
  | Uncertain

fun env_short_loop :: "string \<Rightarrow> env_short" where
  "env_short_loop [] = NoArg"
| "env_short_loop (c # cs) =
     (if c \<in> {CHR ''i'', CHR ''v'', CHR ''0''} then env_short_loop cs
      else if c = CHR ''S'' then SplitStringDetect
      else if c \<in> {CHR ''u'', CHR ''C'', CHR ''P'', CHR ''a''} then
        (if cs \<noteq> [] then ArgGlued c else ArgNeedNext c)
      else Uncertain)"

definition classify_env_short :: "string \<Rightarrow> env_short" where
  "classify_env_short tok =
     (if \<not> starts_with tok ''-'' \<or> starts_with tok ''--'' \<or> tok = ''-'' then Uncertain
      else let body = drop 1 tok
           in if body = [] then Uncertain
              else case strip_prefix body ''S'' of
                     Some rest \<Rightarrow> if rest = [] then SplitStringNext else SplitStringGlued rest
                   | None \<Rightarrow> env_short_loop body)"

record env_scan =
  es_chdir :: "string option"
  es_has_split_string :: bool
  es_options_uncertain :: bool
  es_split_string_script :: "string option"
  es_command :: "string list"

definition scan_done :: "string option \<Rightarrow> string list \<Rightarrow> env_scan" where
  "scan_done chdir rest =
     \<lparr>es_chdir = chdir, es_has_split_string = False, es_options_uncertain = False,
      es_split_string_script = None, es_command = rest\<rparr>"

definition scan_uncertain :: "string option \<Rightarrow> string list \<Rightarrow> env_scan" where
  "scan_uncertain chdir rest = (scan_done chdir rest)\<lparr>es_options_uncertain := True\<rparr>"

definition scan_split :: "string option \<Rightarrow> string option \<Rightarrow> string list \<Rightarrow> env_scan" where
  "scan_split chdir script rest =
     (scan_done chdir rest)\<lparr>es_has_split_string := True, es_split_string_script := script\<rparr>"

definition next_payload :: "string list \<Rightarrow> string option" where
  "next_payload rest = (case rest of [] \<Rightarrow> None | raw # _ \<Rightarrow> take_high_confidence_payload raw)"

fun env_scan_loop :: "string list \<Rightarrow> string option \<Rightarrow> env_scan" where
  "env_scan_loop [] chdir = scan_done chdir []"
| "env_scan_loop (tok # rest) chdir =
     (if tok = ''--'' then scan_done chdir rest
      else if tok = ''-'' then env_scan_loop rest chdir
      else if \<not> starts_with tok ''-'' then
        (if is_env_assignment tok then env_scan_loop rest chdir
         else scan_done chdir (tok # rest))
      else if starts_with tok ''--'' then
        (if tok = ''--chdir'' then
           (case rest of
              [] \<Rightarrow> scan_uncertain chdir (tok # rest)
            | dir # rest' \<Rightarrow> env_scan_loop rest' (Some dir))
         else if strip_prefix tok ''--chdir='' \<noteq> None then
           env_scan_loop rest (strip_prefix tok ''--chdir='')
         else if tok = ''--unset'' \<or> tok = ''--path'' \<or> tok = ''--argv0'' then
           (case rest of
              [] \<Rightarrow> scan_uncertain chdir (tok # rest)
            | _ # rest' \<Rightarrow> env_scan_loop rest' chdir)
         else if starts_with tok ''--unset='' \<or> starts_with tok ''--path=''
                 \<or> starts_with tok ''--argv0='' then env_scan_loop rest chdir
         else if tok \<in> {''--ignore-environment'', ''--null'', ''--debug'', ''--version'', ''--help''}
           then env_scan_loop rest chdir
         else if tok = ''--split-string'' then scan_split chdir (next_payload rest) (tok # rest)
         else case strip_prefix tok ''--split-string='' of
                Some payload \<Rightarrow>
                  scan_split chdir
                    (take_high_confidence_payload
                      (case strip_prefix (decode_env_option_token tok) ''--split-string='' of
                         Some p \<Rightarrow> p | None \<Rightarrow> payload))
                    (tok # rest)
              | None \<Rightarrow> scan_uncertain chdir (tok # rest))
      else
        (case classify_env_short (decode_env_option_token tok) of
           SplitStringNext \<Rightarrow> scan_split chdir (next_payload rest) (tok # rest)
         | SplitStringGlued payload \<Rightarrow>
             scan_split chdir (take_high_confidence_payload payload) (tok # rest)
         | SplitStringDetect \<Rightarrow> scan_split chdir None (tok # rest)
         | NoArg \<Rightarrow> env_scan_loop rest chdir
         | ArgNeedNext kind \<Rightarrow>
             (case rest of
                [] \<Rightarrow> scan_uncertain chdir (tok # rest)
              | operand # rest' \<Rightarrow>
                  env_scan_loop rest' (if kind = CHR ''C'' then Some operand else chdir))
         | ArgGlued kind \<Rightarrow>
             env_scan_loop rest
               (if kind = CHR ''C''
                then Some (case strip_prefix tok ''-C'' of Some d \<Rightarrow> d | None \<Rightarrow> [])
                else chdir)
         | Uncertain \<Rightarrow> scan_uncertain chdir (tok # rest)))"

definition env_scan :: "string list \<Rightarrow> env_scan" where
  "env_scan cmd = env_scan_loop (drop 1 cmd) None"

definition env_split_string_script :: "string list \<Rightarrow> string option" where
  "env_split_string_script words =
     (case first_opt words of
        None \<Rightarrow> None
      | Some w \<Rightarrow>
          if basename w \<noteq> ''env'' then None
          else let scan = env_scan words
               in if \<not> es_has_split_string scan then None else es_split_string_script scan)"

subsection \<open>Wrapper commands\<close>

text \<open>The option loops of the wrappers: \<open>vals\<close> are the options with a separate value.\<close>

fun skip_options :: "string list \<Rightarrow> string list \<Rightarrow> string list" where
  "skip_options vals [] = []"
| "skip_options vals (w # ws) =
     (if starts_with w ''-''
      then (if w \<in> set vals then skip_options vals (drop 1 ws) else skip_options vals ws)
      else w # ws)"

definition nonempty :: "'a list \<Rightarrow> 'a list option" where
  "nonempty xs = (if xs = [] then None else Some xs)"

definition strip_wrapper_command :: "string list \<Rightarrow> string list option" where
  "strip_wrapper_command cmd =
     (case cmd of
        [] \<Rightarrow> None
      | w # args \<Rightarrow>
          let head = basename w
          in if head = ''timeout'' then
               nonempty (drop 1 (skip_options [''-k'', ''-s'', ''--kill-after'', ''--signal''] args))
             else if head = ''nice'' then nonempty (skip_options [''-n'', ''--adjustment''] args)
             else if head = ''ionice'' then
               nonempty (skip_options
                 [''-c'', ''-n'', ''-p'', ''-P'', ''-u'', ''--class'', ''--classdata'', ''--pid'',
                  ''--pgid'', ''--uid''] args)
             else if head = ''chrt'' then nonempty (drop 1 (skip_options [] args))
             else if head = ''stdbuf'' then nonempty (skip_options [''-i'', ''-o'', ''-e''] args)
             else if head = ''env'' then
               (let scan = env_scan cmd
                in if es_has_split_string scan \<or> es_options_uncertain scan then None
                   else nonempty (es_command scan))
             else None)"

definition is_wrapper_command :: "string list \<Rightarrow> bool" where
  "is_wrapper_command words =
     (case first_opt words of
        None \<Rightarrow> False
      | Some w \<Rightarrow>
          basename w \<in> {''timeout'', ''nice'', ''ionice'', ''chrt'', ''stdbuf'', ''env''})"

definition MAX_WRAPPER_DEPTH :: nat where "MAX_WRAPPER_DEPTH = 8"
definition MAX_INLINE_SHELL_DEPTH :: nat where "MAX_INLINE_SHELL_DEPTH = 8"

record checked_wrapper_peel =
  cw_words :: "string list"
  cw_has_chdir :: bool
  cw_has_split_string :: bool
  cw_env_options_uncertain :: bool
  cw_exhausted :: bool

definition head_is_env :: "string list \<Rightarrow> bool" where
  "head_is_env words = (case first_opt words of None \<Rightarrow> False | Some w \<Rightarrow> basename w = ''env'')"

fun unwrap_loop :: "nat \<Rightarrow> string list \<Rightarrow> bool \<Rightarrow> bool \<Rightarrow> bool \<Rightarrow> checked_wrapper_peel" where
  "unwrap_loop 0 current ch sp un =
     \<lparr>cw_words = current, cw_has_chdir = ch, cw_has_split_string = sp,
      cw_env_options_uncertain = un,
      cw_exhausted = (is_wrapper_command current \<and> strip_wrapper_command current \<noteq> None)\<rparr>"
| "unwrap_loop (Suc n) current ch sp un =
     (let scan = env_scan current;
          isenv = head_is_env current;
          ch1 = (ch \<or> (isenv \<and> es_chdir scan \<noteq> None));
          sp1 = (sp \<or> (isenv \<and> es_has_split_string scan));
          un1 = (un \<or> (isenv \<and> es_options_uncertain scan))
      in case strip_wrapper_command current of
           Some inner \<Rightarrow> unwrap_loop n inner ch1 sp1 un1
         | None \<Rightarrow>
             \<lparr>cw_words = current, cw_has_chdir = ch1, cw_has_split_string = sp1,
              cw_env_options_uncertain = un1, cw_exhausted = False\<rparr>)"

definition unwrap_wrappers_checked :: "string list \<Rightarrow> checked_wrapper_peel" where
  "unwrap_wrappers_checked words = unwrap_loop MAX_WRAPPER_DEPTH words False False False"

definition unwrap_wrappers :: "string list \<Rightarrow> string list" where
  "unwrap_wrappers words = cw_words (unwrap_wrappers_checked words)"

subsection \<open>Shell-transparent prefixes\<close>

datatype transparent_strip = NotPrefix | Peeled "string list" | StripAmbiguous

definition peeled_or_not :: "string list \<Rightarrow> transparent_strip" where
  "peeled_or_not inner = (if inner \<noteq> [] then Peeled inner else NotPrefix)"

fun strip_exec_loop :: "string list \<Rightarrow> transparent_strip" where
  "strip_exec_loop [] = peeled_or_not []"
| "strip_exec_loop (tok # rest) =
     (if tok = ''--'' then peeled_or_not rest
      else if tok = ''-'' \<or> \<not> starts_with tok ''-'' then peeled_or_not (tok # rest)
      else if tok \<in> {''-c'', ''-l'', ''-cl'', ''-lc''} then strip_exec_loop rest
      else if tok = ''-a'' then
        (case rest of
           v # rest' \<Rightarrow> if v \<noteq> nul \<and> v \<noteq> [] then strip_exec_loop rest' else StripAmbiguous
         | [] \<Rightarrow> StripAmbiguous)
      else if strip_prefix tok ''-a'' \<noteq> None \<and> strip_prefix tok ''-a'' \<noteq> Some [] then
        (if strip_prefix tok ''-a'' = Some nul then StripAmbiguous else strip_exec_loop rest)
      else if \<not> starts_with tok ''--''
              \<and> list_all (\<lambda>c. c = CHR ''c'' \<or> c = CHR ''l'') (drop 1 tok) then strip_exec_loop rest
      else StripAmbiguous)"

fun strip_command_loop :: "string list \<Rightarrow> transparent_strip" where
  "strip_command_loop [] = peeled_or_not []"
| "strip_command_loop (tok # rest) =
     (if tok = ''--'' then peeled_or_not rest
      else if tok = ''-'' \<or> \<not> starts_with tok ''-'' then peeled_or_not (tok # rest)
      else if tok \<in> {''-v'', ''-V'', ''--help'', ''--version''}
              \<or> (\<not> starts_with tok ''--''
                 \<and> list_ex (\<lambda>c. c = CHR ''v'' \<or> c = CHR ''V'') (drop 1 tok)) then NotPrefix
      else if tok = ''-p''
              \<or> (\<not> starts_with tok ''--'' \<and> list_all (\<lambda>c. c = CHR ''p'') (drop 1 tok))
        then strip_command_loop rest
      else StripAmbiguous)"

definition strip_builtin_prefix :: "string list \<Rightarrow> transparent_strip" where
  "strip_builtin_prefix rest =
     (case rest of
        [] \<Rightarrow> NotPrefix
      | tok # _ \<Rightarrow> if starts_with tok ''-'' \<and> tok \<noteq> ''-'' then StripAmbiguous else Peeled rest)"

definition strip_transparent_prefix :: "string list \<Rightarrow> transparent_strip" where
  "strip_transparent_prefix cmd =
     (case cmd of
        [] \<Rightarrow> NotPrefix
      | h # rest \<Rightarrow>
          if h = [] \<or> h = nul then NotPrefix
          else if basename h = ''exec'' then strip_exec_loop rest
          else if basename h = ''command'' then strip_command_loop rest
          else if basename h = ''builtin'' then strip_builtin_prefix rest
          else NotPrefix)"

datatype transparent_peel = Ready "string list" | PeelAmbiguous

definition MAX_TRANSPARENT_PREFIX_DEPTH :: nat where "MAX_TRANSPARENT_PREFIX_DEPTH = 8"
definition MAX_NORMALIZE_ROUNDS :: nat where
  "MAX_NORMALIZE_ROUNDS = MAX_WRAPPER_DEPTH + MAX_TRANSPARENT_PREFIX_DEPTH"

fun peel_loop :: "nat \<Rightarrow> string list \<Rightarrow> transparent_peel" where
  "peel_loop 0 current =
     (case strip_transparent_prefix current of
        NotPrefix \<Rightarrow> Ready current
      | Peeled _ \<Rightarrow> PeelAmbiguous
      | StripAmbiguous \<Rightarrow> PeelAmbiguous)"
| "peel_loop (Suc n) current =
     (case strip_transparent_prefix current of
        NotPrefix \<Rightarrow> Ready current
      | Peeled inner \<Rightarrow> peel_loop n inner
      | StripAmbiguous \<Rightarrow> PeelAmbiguous)"

definition peel_transparent_prefixes :: "string list \<Rightarrow> transparent_peel" where
  "peel_transparent_prefixes words = peel_loop MAX_TRANSPARENT_PREFIX_DEPTH words"

subsection \<open>The bounded alternation of wrappers and prefixes\<close>

record normalized_command_peel =
  nc_words :: "string list"
  nc_has_chdir :: bool
  nc_has_split_string :: bool
  nc_env_options_uncertain :: bool
  nc_exhausted :: bool
  nc_ambiguous :: bool

text \<open>
  One round: peel wrappers, then stop at an opaque pack, else peel prefixes. A round that
  peels nothing ends the loop: the remaining words are a suffix, so an unchanged length is
  an unchanged slice.
\<close>

fun normalize_loop :: "nat \<Rightarrow> normalized_command_peel \<Rightarrow> normalized_command_peel" where
  "normalize_loop 0 st = st"
| "normalize_loop (Suc n) st =
     (let wrapped = unwrap_wrappers_checked (nc_words st);
          st1 = \<lparr>nc_words = cw_words wrapped,
                 nc_has_chdir = (nc_has_chdir st \<or> cw_has_chdir wrapped),
                 nc_has_split_string = (nc_has_split_string st \<or> cw_has_split_string wrapped),
                 nc_env_options_uncertain =
                   (nc_env_options_uncertain st \<or> cw_env_options_uncertain wrapped),
                 nc_exhausted = (nc_exhausted st \<or> cw_exhausted wrapped),
                 nc_ambiguous = nc_ambiguous st\<rparr>
      in if nc_has_split_string st1 \<or> nc_env_options_uncertain st1 then st1
         else case peel_transparent_prefixes (nc_words st1) of
                PeelAmbiguous \<Rightarrow> st1\<lparr>nc_ambiguous := True\<rparr>
              | Ready inner \<Rightarrow>
                  if length inner = length (nc_words st) then st1\<lparr>nc_words := inner\<rparr>
                  else normalize_loop n (st1\<lparr>nc_words := inner\<rparr>))"

definition normalize_command_words :: "string list \<Rightarrow> normalized_command_peel" where
  "normalize_command_words words =
     (let st = normalize_loop MAX_NORMALIZE_ROUNDS
                 \<lparr>nc_words = words, nc_has_chdir = False, nc_has_split_string = False,
                  nc_env_options_uncertain = False, nc_exhausted = False, nc_ambiguous = False\<rparr>
      in if \<not> nc_ambiguous st \<and> \<not> nc_has_split_string st \<and> \<not> nc_env_options_uncertain st
            \<and> ((is_wrapper_command (nc_words st) \<and> strip_wrapper_command (nc_words st) \<noteq> None)
               \<or> strip_transparent_prefix (nc_words st) \<noteq> NotPrefix)
         then st\<lparr>nc_exhausted := True\<rparr> else st)"

subsection \<open>The primary command of a script\<close>

function sh_split_loop :: "string \<Rightarrow> string \<Rightarrow> bool \<Rightarrow> bool \<Rightarrow> string list" where
  "sh_split_loop [] current in_single in_double = (if current = [] then [] else [current])"
| "sh_split_loop (c # cs) current in_single in_double =
     (if c = quote1 \<and> \<not> in_double then sh_split_loop cs current (\<not> in_single) in_double
      else if c = quote2 \<and> \<not> in_single then sh_split_loop cs current in_single (\<not> in_double)
      else if c = backslash then
        (case cs of
           [] \<Rightarrow> sh_split_loop [] current in_single in_double
         | n # cs' \<Rightarrow> sh_split_loop cs' (current @ [n]) in_single in_double)
      else if ws_prefix_len white_space (c # cs) \<noteq> 0 \<and> \<not> in_single \<and> \<not> in_double then
        (if current = [] then [] else [current])
        @ sh_split_loop (drop (ws_prefix_len white_space (c # cs) - 1) cs) [] in_single in_double
      else sh_split_loop cs (current @ [c]) in_single in_double)"
  by pat_completeness auto
termination by (relation "measure (\<lambda>(s, _). length s)") auto

definition sh_split_simple :: "string \<Rightarrow> string list" where
  "sh_split_simple s = sh_split_loop s [] False False"

record bash_command_highlights =
  bh_prefix :: "string list"
  bh_highlighted_words :: "string list"
  bh_suffix :: "string list"

definition is_primary :: "plain_command \<Rightarrow> bool" where
  "is_primary c =
     (let peeled = unwrap_wrappers (pc_words c) in peeled \<noteq> [] \<and> \<not> is_setup_command peeled)"

definition primary_command_from_script :: "parser \<Rightarrow> string \<Rightarrow> bash_command_highlights option" where
  "primary_command_from_script parse script =
     (case all_commands_from_script parse script of
        None \<Rightarrow> None
      | Some commands \<Rightarrow>
          (case find is_primary commands of
             None \<Rightarrow> None
           | Some c \<Rightarrow>
               let peeled_off = length (pc_words c) - length (unwrap_wrappers (pc_words c))
               in Some \<lparr>bh_prefix = sh_split_simple (take (pc_span_start c) script)
                                    @ take peeled_off (pc_words c),
                        bh_highlighted_words = drop peeled_off (pc_words c),
                        bh_suffix = sh_split_simple (drop (pc_span_end c) script)\<rparr>))"

section \<open>Properties of the word level\<close>

subsection \<open>Peeling answers suffixes of the command\<close>

lemmas suffix_cons = suffix_ConsI suffix_order.trans

lemma nonempty_Some: "nonempty xs = Some ys \<longleftrightarrow> ys = xs \<and> ys \<noteq> []"
  by (auto simp: nonempty_def)

lemma suffix_drop_Cons: "suffix (drop k xs) (x # xs)"
  by (meson suffix_ConsI suffix_drop)

lemma skip_options_suffix: "suffix (skip_options vals ws) ws"
proof (induction vals ws rule: skip_options.induct)
  case (2 vals w ws)
  then show ?case
    by (auto intro: suffix_ConsI suffix_order.trans [OF _ suffix_drop_Cons])
qed simp

text \<open>
  The scan is a cascade of tests whose outcome does not matter for the shape of the answer:
  the rules below go through each branch without evaluating the tests.
\<close>

definition scan_within :: "string list \<Rightarrow> env_scan \<Rightarrow> bool" where
  "scan_within ws r = suffix (es_command r) ws"

lemma scan_within_branch:
  "scan_within ws a \<Longrightarrow> scan_within ws b \<Longrightarrow> scan_within ws (if c then a else b)"
  "scan_within ws a \<Longrightarrow> (\<And>x xs. l = x # xs \<Longrightarrow> scan_within ws (f x xs)) \<Longrightarrow>
     scan_within ws (case l of [] \<Rightarrow> a | x # xs \<Rightarrow> f x xs)"
  "scan_within ws a \<Longrightarrow> (\<And>x. scan_within ws (g x)) \<Longrightarrow>
     scan_within ws (case q of None \<Rightarrow> a | Some x \<Rightarrow> g x)"
  "scan_within ws a1 \<Longrightarrow> (\<And>p. scan_within ws (a2 p)) \<Longrightarrow> scan_within ws a3 \<Longrightarrow>
     scan_within ws a4 \<Longrightarrow> (\<And>k. scan_within ws (a5 k)) \<Longrightarrow> (\<And>k. scan_within ws (a6 k)) \<Longrightarrow>
     scan_within ws a7 \<Longrightarrow>
     scan_within ws (case e of SplitStringNext \<Rightarrow> a1 | SplitStringGlued p \<Rightarrow> a2 p
       | SplitStringDetect \<Rightarrow> a3 | NoArg \<Rightarrow> a4 | ArgNeedNext k \<Rightarrow> a5 k | ArgGlued k \<Rightarrow> a6 k
       | Uncertain \<Rightarrow> a7)"
  by (simp_all split: list.split option.split env_short.split)

lemma scan_within_base:
  "suffix rest ws \<Longrightarrow> scan_within ws (scan_done d rest)"
  "suffix rest ws \<Longrightarrow> scan_within ws (scan_uncertain d rest)"
  "suffix rest ws \<Longrightarrow> scan_within ws (scan_split d p rest)"
  by (simp_all add: scan_within_def scan_done_def scan_uncertain_def scan_split_def)

lemma scan_within_trans: "scan_within ws r \<Longrightarrow> suffix ws us \<Longrightarrow> scan_within us r"
  unfolding scan_within_def by (rule suffix_order.trans)

lemma env_scan_suffix: "scan_within ws (env_scan_loop ws d)"
proof (induction ws arbitrary: d rule: length_induct)
  case (1 ws)
  show ?case
  proof (cases ws)
    case Nil
    then show ?thesis by (simp add: scan_within_base)
  next
    case (Cons tok rest)
    have sub: "suffix rest (tok # rest)" by (simp add: suffix_ConsI)
    have rest: "scan_within (tok # rest) (env_scan_loop rest d')" for d'
    proof (rule scan_within_trans [OF _ sub])
      have "length rest < length ws" using Cons by simp
      then show "scan_within rest (env_scan_loop rest d')" by (rule 1 [rule_format])
    qed
    have rest': "scan_within (tok # rest) (env_scan_loop r' d')" if "rest = x # r'" for x r' d'
    proof -
      have "suffix r' (tok # rest)" using that by (simp add: suffix_ConsI)
      moreover have "length r' < length ws" using Cons that by simp
      then have "scan_within r' (env_scan_loop r' d')"
        by (rule 1 [rule_format])
      ultimately show ?thesis using scan_within_trans by blast
    qed
    show ?thesis
      unfolding Cons env_scan_loop.simps
      by (intro scan_within_branch scan_within_base rest sub suffix_order.refl; erule rest')
  qed
qed

definition wrap_within :: "string list \<Rightarrow> string list option \<Rightarrow> bool" where
  "wrap_within ws r = (\<forall>vs. r = Some vs \<longrightarrow> suffix vs ws \<and> vs \<noteq> [])"

lemma wrap_within_branch:
  "wrap_within ws a \<Longrightarrow> wrap_within ws b \<Longrightarrow> wrap_within ws (if c then a else b)"
  "suffix rest ws \<Longrightarrow> wrap_within ws (nonempty rest)"
  "wrap_within ws None"
  by (auto simp: wrap_within_def nonempty_Some)

lemma strip_wrapper_within: "wrap_within (drop 1 ws) (strip_wrapper_command ws)"
proof (cases ws)
  case Nil
  then show ?thesis by (simp add: strip_wrapper_command_def wrap_within_def)
next
  case (Cons w args)
  have k: "suffix (skip_options vals args) args" "suffix (drop 1 (skip_options vals args)) args"
    for vals
    using skip_options_suffix suffix_drop suffix_order.trans by blast+
  have e: "suffix (es_command (env_scan_loop args None)) args"
    using env_scan_suffix by (simp add: scan_within_def)
  show ?thesis
    unfolding Cons strip_wrapper_command_def env_scan_def list.case Let_def drop_Suc_Cons
      One_nat_def drop_0
    by (intro wrap_within_branch k [unfolded One_nat_def] e)
qed

lemma strip_wrapper_suffix:
  "strip_wrapper_command ws = Some vs \<Longrightarrow> suffix vs (drop 1 ws) \<and> vs \<noteq> []"
  using strip_wrapper_within by (simp add: wrap_within_def)

lemma peeled_or_not_Peeled: "peeled_or_not xs = Peeled ys \<longleftrightarrow> ys = xs \<and> ys \<noteq> []"
  by (auto simp: peeled_or_not_def)

definition strip_within :: "string list \<Rightarrow> transparent_strip \<Rightarrow> bool" where
  "strip_within ws r = (\<forall>vs. r = Peeled vs \<longrightarrow> suffix vs ws \<and> vs \<noteq> [])"

lemma strip_within_branch:
  "strip_within ws a \<Longrightarrow> strip_within ws b \<Longrightarrow> strip_within ws (if c then a else b)"
  "strip_within ws a \<Longrightarrow> (\<And>x xs. l = x # xs \<Longrightarrow> strip_within ws (f x xs)) \<Longrightarrow>
     strip_within ws (case l of [] \<Rightarrow> a | x # xs \<Rightarrow> f x xs)"
  by (simp_all split: list.split)

lemma strip_within_base:
  "suffix rest ws \<Longrightarrow> strip_within ws (peeled_or_not rest)"
  "strip_within ws NotPrefix" "strip_within ws StripAmbiguous"
  by (auto simp: strip_within_def peeled_or_not_def)

lemma strip_within_trans: "strip_within ws r \<Longrightarrow> suffix ws us \<Longrightarrow> strip_within us r"
  unfolding strip_within_def by (blast intro: suffix_order.trans)

lemma strip_exec_within: "strip_within ws (strip_exec_loop ws)"
proof (induction ws rule: length_induct)
  case (1 ws)
  show ?case
  proof (cases ws)
    case Nil
    then show ?thesis by (simp add: strip_within_base)
  next
    case (Cons tok rest)
    have sub: "suffix rest (tok # rest)" by (simp add: suffix_ConsI)
    have rest: "strip_within (tok # rest) (strip_exec_loop rest)"
    proof (rule strip_within_trans [OF _ sub])
      have "length rest < length ws" using Cons by simp
      then show "strip_within rest (strip_exec_loop rest)" by (rule 1 [rule_format])
    qed
    have rest': "strip_within (tok # rest) (strip_exec_loop r')" if "rest = x # r'" for x r'
    proof -
      have "suffix r' (tok # rest)" using that by (simp add: suffix_ConsI)
      moreover have "length r' < length ws" using Cons that by simp
      then have "strip_within r' (strip_exec_loop r')"
        by (rule 1 [rule_format])
      ultimately show ?thesis using strip_within_trans by blast
    qed
    show ?thesis
      unfolding Cons strip_exec_loop.simps
      by (intro strip_within_branch strip_within_base rest sub suffix_order.refl; erule rest')
  qed
qed

lemma strip_command_within: "strip_within ws (strip_command_loop ws)"
proof (induction ws)
  case Nil
  then show ?case by (simp add: strip_within_base)
next
  case (Cons tok rest)
  have sub: "suffix rest (tok # rest)" by (simp add: suffix_ConsI)
  have rest: "strip_within (tok # rest) (strip_command_loop rest)"
    by (rule strip_within_trans [OF Cons.IH sub])
  show ?case
    unfolding strip_command_loop.simps
    by (intro strip_within_branch strip_within_base rest sub suffix_order.refl)
qed

lemma strip_transparent_within: "strip_within (drop 1 ws) (strip_transparent_prefix ws)"
proof (cases ws)
  case Nil
  then show ?thesis by (simp add: strip_transparent_prefix_def strip_within_base)
next
  case (Cons h rest)
  have "strip_within rest (strip_builtin_prefix rest)"
    by (auto simp: strip_builtin_prefix_def strip_within_def split: list.splits if_splits)
  then show ?thesis
    unfolding Cons strip_transparent_prefix_def
    by (simp only: list.case drop_Suc_Cons One_nat_def drop_0)
      (intro strip_within_branch strip_within_base strip_exec_within strip_command_within)
qed

lemma strip_transparent_suffix:
  "strip_transparent_prefix ws = Peeled vs \<Longrightarrow> suffix vs (drop 1 ws) \<and> vs \<noteq> []"
  using strip_transparent_within by (simp add: strip_within_def)

subsection \<open>The peel relation\<close>

text \<open>
  The specification of normalization: one layer of a wrapper or of a transparent prefix
  comes off.
\<close>

inductive peel_step :: "string list \<Rightarrow> string list \<Rightarrow> bool" where
  wrapper: "strip_wrapper_command ws = Some vs \<Longrightarrow> peel_step ws vs"
| prefix: "strip_transparent_prefix ws = Peeled vs \<Longrightarrow> peel_step ws vs"

inductive_cases peel_stepE: "peel_step ws vs"
inductive_simps peel_step_simps: "peel_step ws vs"

lemma wrapper_heads:
  "strip_wrapper_command (w # ws) = Some vs \<Longrightarrow>
     basename w \<in> {''timeout'', ''nice'', ''ionice'', ''chrt'', ''stdbuf'', ''env''}"
  by (simp add: strip_wrapper_command_def Let_def split: if_splits)

lemma strip_wrapper_is_wrapper: "strip_wrapper_command ws = Some vs \<Longrightarrow> is_wrapper_command ws"
  by (cases ws) (auto simp: is_wrapper_command_def strip_wrapper_command_def Let_def
      split: if_splits)

lemma wrapper_not_prefix:
  assumes "strip_wrapper_command ws = Some vs"
  shows "strip_transparent_prefix ws = NotPrefix"
proof (cases ws)
  case (Cons w rest)
  then show ?thesis using assms wrapper_heads [of w rest vs]
    by (auto simp: strip_transparent_prefix_def)
qed (simp add: strip_transparent_prefix_def)

lemma peel_step_det: "peel_step ws vs \<Longrightarrow> peel_step ws us \<Longrightarrow> us = vs"
  by (auto elim!: peel_stepE dest: wrapper_not_prefix)

lemma peel_step_shrinks: "peel_step ws vs \<Longrightarrow> suffix vs ws \<and> length vs < length ws"
proof -
  assume "peel_step ws vs"
  then have s: "suffix vs (drop 1 ws)" and n: "vs \<noteq> []"
    by (auto elim!: peel_stepE dest: strip_wrapper_suffix strip_transparent_suffix)
  have "length vs \<le> length ws - 1" using s by (metis length_drop suffix_length_le)
  moreover have "ws \<noteq> []" using s n by auto
  ultimately have "length vs < length ws" by (cases ws) auto
  then show ?thesis using s suffix_drop suffix_order.trans by blast
qed

lemma peel_steps_suffix: "peel_step\<^sup>*\<^sup>* ws vs \<Longrightarrow> suffix vs ws"
  by (induction rule: rtranclp_induct) (auto dest: peel_step_shrinks intro: suffix_order.trans)

lemma peel_steps_normal_unique:
  assumes "peel_step\<^sup>*\<^sup>* ws vs" and "peel_step\<^sup>*\<^sup>* ws us"
    and "\<nexists>x. peel_step vs x" and "\<nexists>x. peel_step us x"
  shows "us = vs"
  using assms
proof (induction arbitrary: us rule: converse_rtranclp_induct)
  case base
  then show ?case by (auto elim: converse_rtranclpE)
next
  case (step y z)
  from step.prems(1) show ?case
  proof (cases rule: converse_rtranclpE)
    case base
    then show ?thesis using step by blast
  next
    case (step w)
    then show ?thesis using peel_step_det step.hyps(1) step.IH step.prems
      by (metis \<open>peel_step y z\<close>  \<open>\<And>us. \<lbrakk>peel_step\<^sup>*\<^sup>* z us; \<nexists>x. peel_step vs x; \<nexists>x. peel_step us x\<rbrakk> \<Longrightarrow> us = vs\<close>  assms(3,4))
  qed
qed

subsection \<open>Normalization computes the normal form\<close>

text \<open>A command that \<open>env\<close> would re-split, or whose options are not understood.\<close>

definition env_packs :: "string list \<Rightarrow> bool" where
  "env_packs ws \<longleftrightarrow>
     head_is_env ws \<and> (es_has_split_string (env_scan ws) \<or> es_options_uncertain (env_scan ws))"

definition nc_unflagged :: "normalized_command_peel \<Rightarrow> bool" where
  "nc_unflagged n \<longleftrightarrow>
     \<not> nc_has_split_string n \<and> \<not> nc_env_options_uncertain n \<and> \<not> nc_exhausted n \<and> \<not> nc_ambiguous n"

lemma unwrap_loop_steps:
  "peel_step\<^sup>*\<^sup>* current (cw_words (unwrap_loop n current ch sp un))"
proof (induction n current ch sp un rule: unwrap_loop.induct)
  case (2 n current ch sp un)
  show ?case
  proof (cases "strip_wrapper_command current")
    case (Some inner)
    then show ?thesis
      using 2 [OF refl refl refl refl refl Some] peel_step.wrapper [OF Some]
      by (simp add: Let_def converse_rtranclp_into_rtranclp)
  qed (simp add: Let_def)
qed simp

lemma env_packs_stuck: "env_packs ws \<Longrightarrow> strip_wrapper_command ws = None"
  by (cases ws)
    (auto simp: env_packs_def head_is_env_def strip_wrapper_command_def Let_def)

lemma env_packs_normal: "env_packs ws \<Longrightarrow> \<not> peel_step ws vs"
  using env_packs_stuck [of ws]
  by (cases ws)
    (auto simp: env_packs_def head_is_env_def strip_transparent_prefix_def elim!: peel_stepE
      split: if_splits)

lemma unwrap_flags_env:
  assumes "env_packs ws"
  shows "cw_has_split_string (unwrap_wrappers_checked ws)
         \<or> cw_env_options_uncertain (unwrap_wrappers_checked ws)"
  using assms env_packs_stuck [OF assms]
  by (simp add: unwrap_wrappers_checked_def MAX_WRAPPER_DEPTH_def env_packs_def
      numeral_eq_Suc Let_def)

lemma peel_loop_steps: "peel_loop n ws = Ready vs \<Longrightarrow> peel_step\<^sup>*\<^sup>* ws vs"
proof (induction n ws rule: peel_loop.induct)
  case (2 n ws)
  then show ?case
    by (cases "strip_transparent_prefix ws")
      (auto intro: peel_step.prefix converse_rtranclp_into_rtranclp)
qed (simp split: transparent_strip.splits)

lemma unwrap_steps: "peel_step\<^sup>*\<^sup>* ws (cw_words (unwrap_wrappers_checked ws))"
  by (simp add: unwrap_wrappers_checked_def unwrap_loop_steps)

lemma peel_steps: "peel_transparent_prefixes ws = Ready vs \<Longrightarrow> peel_step\<^sup>*\<^sup>* ws vs"
  by (simp add: peel_transparent_prefixes_def peel_loop_steps)

lemma round_steps:
  assumes "peel_transparent_prefixes (cw_words (unwrap_wrappers_checked ws)) = Ready vs"
  shows "peel_step\<^sup>*\<^sup>* ws vs"
  using unwrap_steps peel_steps [OF assms] by (rule rtranclp_trans)

lemma normalize_loop_steps: "peel_step\<^sup>*\<^sup>* (nc_words st) (nc_words (normalize_loop n st))"
proof (induction n st rule: normalize_loop.induct)
  case (2 n st)
  show ?case
  proof (cases "peel_transparent_prefixes (cw_words (unwrap_wrappers_checked (nc_words st)))")
    case (Ready inner)
    then have "peel_step\<^sup>*\<^sup>* (nc_words st) inner" by (rule round_steps)
    then show ?thesis
      using 2 [OF refl refl] Ready unwrap_steps
      by (auto simp: Let_def intro: rtranclp_trans)
  qed (simp add: Let_def unwrap_steps)
qed simp

lemma normalize_loop_sees_packs:
  assumes "length (nc_words st) < n"
    and "\<not> nc_has_split_string (normalize_loop n st)"
    and "\<not> nc_env_options_uncertain (normalize_loop n st)"
    and "\<not> nc_ambiguous (normalize_loop n st)"
  shows "\<not> env_packs (nc_words (normalize_loop n st))"
  using assms
proof (induction n st rule: normalize_loop.induct)
  case (2 n st)
  let ?w = "unwrap_wrappers_checked (nc_words st)"
  have nf: "\<not> (nc_has_split_string st \<or> cw_has_split_string ?w)"
      "\<not> (nc_env_options_uncertain st \<or> cw_env_options_uncertain ?w)"
    using 2(3,4) by (auto simp: Let_def split: if_splits transparent_peel.splits)
  show ?case
  proof (cases "peel_transparent_prefixes (cw_words ?w)")
    case (Ready inner)
    have s: "suffix inner (nc_words st)" using Ready peel_steps_suffix round_steps by blast
    show ?thesis
    proof (cases "length inner = length (nc_words st)")
      case True
      then have "inner = nc_words st" using s by (auto simp: suffix_def)
      then show ?thesis
        using nf True Ready unwrap_flags_env [of "nc_words st"] by (auto simp: Let_def)
    next
      case False
      then have "length inner < n" using s 2(2) suffix_length_le by fastforce
      then show ?thesis using 2 nf Ready False by (simp add: Let_def)
    qed
  next
    case PeelAmbiguous
    then show ?thesis using 2(5) nf by (simp add: Let_def)
  qed
qed simp

lemma normalize_words: "peel_step\<^sup>*\<^sup>* ws (nc_words (normalize_command_words ws))"
  using normalize_loop_steps
    [of "\<lparr>nc_words = ws, nc_has_chdir = False, nc_has_split_string = False,
          nc_env_options_uncertain = False, nc_exhausted = False, nc_ambiguous = False\<rparr>"]
  by (simp add: normalize_command_words_def Let_def)

lemma normalize_normal:
  "nc_unflagged (normalize_command_words ws) \<Longrightarrow>
     \<not> peel_step (nc_words (normalize_command_words ws)) vs"
  by (auto simp: normalize_command_words_def nc_unflagged_def Let_def peel_step_simps
      strip_wrapper_is_wrapper split: if_splits)

lemma normalize_no_packs:
  "nc_unflagged (normalize_command_words ws) \<Longrightarrow> length ws < MAX_NORMALIZE_ROUNDS \<Longrightarrow>
     \<not> env_packs (nc_words (normalize_command_words ws))"
  using normalize_loop_sees_packs
    [of "\<lparr>nc_words = ws, nc_has_chdir = False, nc_has_split_string = False,
          nc_env_options_uncertain = False, nc_exhausted = False, nc_ambiguous = False\<rparr>"
     MAX_NORMALIZE_ROUNDS]
  by (auto simp: normalize_command_words_def nc_unflagged_def Let_def split: if_splits)

text \<open>
  C39. Normalization is correct when it raises no flag: the words it answers are reached
  from the command by peeling one layer at a time, no layer is left on them, and they are
  the only such words, so no other order of peeling could show the policy another command.
\<close>

theorem normalize_is_normal_form:
  assumes "nc_unflagged (normalize_command_words ws)"
  shows "peel_step\<^sup>*\<^sup>* ws vs \<and> (\<nexists>u. peel_step vs u)
         \<longleftrightarrow> vs = nc_words (normalize_command_words ws)"
  using normalize_words normalize_normal [OF assms] peel_steps_normal_unique by metis

theorem normalize_is_normal_form_witness:
  "peel_step\<^sup>*\<^sup>* [''timeout'', ''5'', ''command'', ''git'', ''log''] [''git'', ''log'']
   \<and> (\<nexists>u. peel_step [''git'', ''log''] u)"
proof -
  have n: "normalize_command_words [''timeout'', ''5'', ''command'', ''git'', ''log''] =
      \<lparr>nc_words = [''git'', ''log''], nc_has_chdir = False, nc_has_split_string = False,
       nc_env_options_uncertain = False, nc_exhausted = False, nc_ambiguous = False\<rparr>"
    by code_simp
  show ?thesis
    using normalize_is_normal_form
      [of "[''timeout'', ''5'', ''command'', ''git'', ''log'']" "[''git'', ''log'']"]
    by (simp add: n nc_unflagged_def)
qed

text \<open>
  A command of fewer than sixteen words cannot hide an \<open>env -S\<close> pack, or an \<open>env\<close>
  with options that are not understood, behind wrappers and prefixes: if no flag is raised,
  no layer of the command is one.
\<close>

theorem normalize_reveals_env_split:
  assumes "nc_unflagged (normalize_command_words ws)"
    and "length ws < MAX_NORMALIZE_ROUNDS"
    and "peel_step\<^sup>*\<^sup>* ws vs"
  shows "\<not> env_packs vs"
proof
  assume e: "env_packs vs"
  then have "\<nexists>u. peel_step vs u" by (simp add: env_packs_normal)
  then have "vs = nc_words (normalize_command_words ws)"
    using assms normalize_words normalize_normal peel_steps_normal_unique by metis
  then show False using e normalize_no_packs assms by blast
qed

theorem normalize_reveals_env_split_witness:
  "\<not> env_packs [''git'', ''log'']"
proof (rule normalize_reveals_env_split [of "[''nice'', ''git'', ''log'']"])
  have n: "normalize_command_words [''nice'', ''git'', ''log''] =
      \<lparr>nc_words = [''git'', ''log''], nc_has_chdir = False, nc_has_split_string = False,
       nc_env_options_uncertain = False, nc_exhausted = False, nc_ambiguous = False\<rparr>"
    by code_simp
  then show "nc_unflagged (normalize_command_words [''nice'', ''git'', ''log''])"
    by (simp add: nc_unflagged_def)
  show "length [''nice'', ''git'', ''log''] < MAX_NORMALIZE_ROUNDS"
    by (simp add: MAX_NORMALIZE_ROUNDS_def MAX_WRAPPER_DEPTH_def
        MAX_TRANSPARENT_PREFIX_DEPTH_def)
  have "strip_wrapper_command [''nice'', ''git'', ''log''] = Some [''git'', ''log'']"
    by code_simp
  then show "peel_step\<^sup>*\<^sup>* [''nice'', ''git'', ''log''] [''git'', ''log'']"
    by (auto intro: peel_step.wrapper)
qed

text \<open>
  The length bound is needed. Sixteen alternations of a prefix and a wrapper use up the
  rounds exactly when \<open>env -S\<close> comes to the front: the last round's words are not scanned
  again, the wrapper check after the loop sees no strippable wrapper, and no flag is raised.
\<close>

definition hidden_pack :: "string list" where
  "hidden_pack =
     ''command'' # concat (replicate 15 [''timeout'', ''1'', ''command''])
     @ [''env'', ''-S'', ''rm x'']"

lemma normalize_budget_misses_split_string:
  "nc_unflagged (normalize_command_words hidden_pack)
   \<and> nc_words (normalize_command_words hidden_pack) = [''env'', ''-S'', ''rm x'']
   \<and> es_has_split_string (env_scan [''env'', ''-S'', ''rm x''])"
  by code_simp

subsection \<open>Quoting and splitting\<close>

text \<open>The standard spelling of a string in single quotes.\<close>

definition single_quoted :: "string \<Rightarrow> string" where
  "single_quoted s =
     quote1 # concat (map (\<lambda>c. if c = quote1 then [quote1, backslash, quote1, quote1] else [c]) s)
     @ [quote1]"

lemma quote_bytes [simp]:
  "quote1 \<noteq> quote2" "quote2 \<noteq> quote1" "backslash \<noteq> quote1" "backslash \<noteq> quote2"
  "quote1 \<noteq> backslash" "quote2 \<noteq> backslash"
  by (simp_all add: quote1_def quote2_def backslash_def)

lemma decode_single_body:
  "decode_loop (Some quote1) out
     (concat (map (\<lambda>c. if c = quote1 then [quote1, backslash, quote1, quote1] else [c]) s)
      @ [quote1]) = Some (out @ s)"
  by (induction s arbitrary: out) auto

text \<open>
  Decoding undoes quoting, for every string: the literal spelling of a string in single
  quotes, with each quote inside written as an escaped quote, decodes to that string.
\<close>

theorem decode_single_quoted_roundtrip:
  "decode_shell_literal_spelling (single_quoted s) = Some s"
  by (simp add: decode_shell_literal_spelling_def single_quoted_def decode_single_body)

end
