(* ===== verification/GB_Policy.thy ===== *)
theory GB_Policy
  imports GB_PolicyMatch
begin

section \<open>The permission policy (permission/policy.rs)\<close>

text \<open>
  Decisions and how they combine, the compiled policy, the two passes over a request (the
  direct rule pass and the Bash command gate), the conjunctive allow check, and the symlink
  re-check. The recursion through inline scripts is bounded by \<open>MAX_INLINE_SHELL_DEPTH\<close>: a
  pass takes the answer for the nested script as a parameter, \<open>None\<close> when the budget is
  spent, and the bounded pass is the recursion on the budget.
\<close>

subsection \<open>Combining by rank\<close>

datatype gate_decision = GateReject string | AskRuleMatch | AskFailClosed

definition into_decision :: "gate_decision \<Rightarrow> decision" where
  "into_decision d = (case d of GateReject r \<Rightarrow> Reject r | _ \<Rightarrow> Ask)"

definition gate_is_ask :: "gate_decision \<Rightarrow> bool" where
  "gate_is_ask d = (case d of GateReject _ \<Rightarrow> False | _ \<Rightarrow> True)"

definition gate_rank :: "gate_decision \<Rightarrow> nat" where
  "gate_rank d = (case d of GateReject _ \<Rightarrow> 3 | AskRuleMatch \<Rightarrow> 2 | AskFailClosed \<Rightarrow> 1)"

definition combine_gate_decisions ::
  "gate_decision option \<Rightarrow> gate_decision option \<Rightarrow> gate_decision option" where
  "combine_gate_decisions a b =
     (case (a, b) of
        (None, x) \<Rightarrow> x
      | (x, None) \<Rightarrow> x
      | (Some x, Some y) \<Rightarrow> Some (if gate_rank x \<ge> gate_rank y then x else y))"

definition decision_rank :: "decision \<Rightarrow> nat" where
  "decision_rank d =
     (case d of
        Reject _ \<Rightarrow> 3 | PolicyDeny _ \<Rightarrow> 3 | Ask \<Rightarrow> 2 | Allow \<Rightarrow> 1
      | FollowupMessage _ \<Rightarrow> 0 | Cancelled \<Rightarrow> 0)"

definition combine_decisions :: "decision option \<Rightarrow> decision option \<Rightarrow> decision option" where
  "combine_decisions a b =
     (case (a, b) of
        (None, x) \<Rightarrow> x
      | (x, None) \<Rightarrow> x
      | (Some x, Some y) \<Rightarrow> Some (if decision_rank x \<ge> decision_rank y then x else y))"

text \<open>The level of an optional decision: nothing is below every decision.\<close>

definition opt_level :: "('d \<Rightarrow> nat) \<Rightarrow> 'd option \<Rightarrow> nat" where
  "opt_level rank d = (case d of None \<Rightarrow> 0 | Some x \<Rightarrow> Suc (rank x))"

text \<open>Both follow one contract: the higher rank wins, the first on a tie.\<close>

locale ranked_choice =
  fixes rank :: "'d \<Rightarrow> nat"
    and comb :: "'d option \<Rightarrow> 'd option \<Rightarrow> 'd option"
  assumes comb_None1: "comb None b = b"
    and comb_None2: "comb a None = a"
    and comb_Some: "comb (Some x) (Some y) = Some (if rank x \<ge> rank y then x else y)"
begin

lemma comb_assoc: "comb (comb a b) c = comb a (comb b c)"
  by (cases a; cases b; cases c) (auto simp: comb_None1 comb_None2 comb_Some)

lemma comb_is_None: "comb a b = None \<longleftrightarrow> a = None \<and> b = None"
  by (cases a; cases b) (auto simp: comb_None1 comb_None2 comb_Some)

lemma comb_in: "comb a b = Some r \<Longrightarrow> a = Some r \<or> b = Some r"
  by (cases a; cases b) (auto simp: comb_None1 comb_None2 comb_Some split: if_splits)

lemma comb_ge1: "\<exists>r. comb (Some x) b = Some r \<and> rank x \<le> rank r"
  by (cases b) (auto simp: comb_None2 comb_Some)

lemma comb_ge2: "\<exists>r. comb a (Some x) = Some r \<and> rank x \<le> rank r"
  by (cases a) (auto simp: comb_None1 comb_Some)

lemma fold_is_None:
  "foldl (\<lambda>d x. comb d (f x)) a xs = None \<longleftrightarrow> a = None \<and> (\<forall>x \<in> set xs. f x = None)"
  by (induction xs arbitrary: a) (auto simp: comb_is_None)

lemma level_comb: "opt_level rank (comb a b) = max (opt_level rank a) (opt_level rank b)"
  by (cases a; cases b) (auto simp: comb_None1 comb_None2 comb_Some opt_level_def)

lemma level_fold_start: "opt_level rank a \<le> opt_level rank (foldl (\<lambda>d x. comb d (f x)) a xs)"
proof (induction xs arbitrary: a)
  case (Cons x xs)
  have "opt_level rank a \<le> opt_level rank (comb a (f x))" by (simp add: level_comb)
  also have "\<dots> \<le> opt_level rank (foldl (\<lambda>d x. comb d (f x)) (comb a (f x)) xs)"
    by (rule Cons)
  finally show ?case by simp
qed simp

lemma level_fold:
  "x \<in> set xs \<Longrightarrow> opt_level rank (f x) \<le> opt_level rank (foldl (\<lambda>d x. comb d (f x)) a xs)"
proof (induction xs arbitrary: a)
  case (Cons u us)
  then show ?case
    using level_fold_start [of "comb a (f u)" f us] by (auto simp: level_comb)
qed simp

lemma fold_in:
  "foldl (\<lambda>d x. comb d (f x)) a xs = Some r \<Longrightarrow> a = Some r \<or> (\<exists>x \<in> set xs. f x = Some r)"
  by (induction xs arbitrary: a) (auto dest: comb_in)

end

interpretation gates: ranked_choice gate_rank combine_gate_decisions
  by unfold_locales (auto simp: combine_gate_decisions_def split: option.split)

interpretation decisions: ranked_choice decision_rank combine_decisions
  by unfold_locales (auto simp: combine_decisions_def split: option.split)

subsection \<open>The compiled policy\<close>

record compiled_policy =
  cp_rules :: "permission_rule list"
  cp_matchers :: "string option list"
  cp_has_file_restrictions :: bool
  cp_has_bash_command_restrictions :: bool
  cp_has_bash_allow_rules :: bool
  cp_catchall :: "bool list"

definition is_restriction :: "permission_rule \<Rightarrow> bool" where
  "is_restriction rule \<longleftrightarrow> pr_action rule = RuleDeny \<or> pr_action rule = RuleAsk"

definition covers_bash :: "permission_rule \<Rightarrow> bool" where
  "covers_bash rule \<longleftrightarrow> pr_tool rule = ToolBash \<or> pr_tool rule = ToolAny"

definition compile_policy :: "world \<Rightarrow> permission_rule list \<Rightarrow> compiled_policy" where
  "compile_policy w rules =
     \<lparr>cp_rules = rules,
      cp_matchers = map (rule_matcher w) rules,
      cp_has_file_restrictions =
        list_ex (\<lambda>rule. is_restriction rule \<and> pr_tool rule \<in> {ToolRead, ToolEdit, ToolAny}) rules,
      cp_has_bash_command_restrictions =
        list_ex (\<lambda>rule. is_restriction rule \<and> covers_bash rule) rules,
      cp_has_bash_allow_rules =
        list_ex (\<lambda>rule. pr_action rule = RuleAllow \<and> covers_bash rule) rules,
      cp_catchall = map (rule_is_catchall w) rules\<rparr>"

subsection \<open>The conjunctive allow check\<close>

datatype allow_rule_scope = AnyScope | NarrowOnly

definition shell_words :: "string list \<Rightarrow> shell_word list" where
  "shell_words ws = map Literal ws"

definition norm_flagged :: "normalized_command_peel \<Rightarrow> bool" where
  "norm_flagged n \<longleftrightarrow>
     nc_exhausted n \<or> nc_ambiguous n \<or> nc_env_options_uncertain n \<or> nc_has_split_string n"

definition bash_words_allowed ::
  "world \<Rightarrow> compiled_policy \<Rightarrow> string list \<Rightarrow> allow_rule_scope \<Rightarrow> bool" where
  "bash_words_allowed w pol words scope =
     (if words = [] then False
      else if scope = NarrowOnly \<and> head_is_exec_vehicle words then False
      else list_ex
             (\<lambda>((rule, matcher), catchall).
                \<not> (scope = NarrowOnly \<and> catchall)
                \<and> pr_action rule = RuleAllow
                \<and> covers_bash rule
                \<and> bash_allow_pattern_matches w (join_words words) rule matcher)
             (zip (zip (cp_rules pol) (cp_matchers pol)) (cp_catchall pol)))"

definition segment_allowed ::
  "world \<Rightarrow> compiled_policy \<Rightarrow> allow_rule_scope \<Rightarrow> (string \<Rightarrow> bool) option \<Rightarrow> string list \<Rightarrow> bool" where
  "segment_allowed w pol scope nested words =
     (let norm = normalize_command_words words; inner_words = nc_words norm
      in if norm_flagged norm then False
         else if \<not> bash_words_allowed w pol inner_words scope then False
         else case shell_dash_c_script (shell_words inner_words) of
                InlineLiteral index \<Rightarrow>
                  (case nested of Some f \<Rightarrow> f (inner_words ! index) | None \<Rightarrow> False)
              | NotInline \<Rightarrow> True
              | _ \<Rightarrow> False)"

definition chain_allowed_with ::
  "world \<Rightarrow> compiled_policy \<Rightarrow> allow_rule_scope \<Rightarrow> (string \<Rightarrow> bool) option \<Rightarrow> string \<Rightarrow> bool" where
  "chain_allowed_with w pol scope nested cmd =
     (case all_commands_from_script (w_parse w) cmd of
        None \<Rightarrow> False
      | Some segments \<Rightarrow>
          segments \<noteq> []
          \<and> list_all (\<lambda>parsed. segment_allowed w pol scope nested (pc_words parsed)) segments)"

primrec bash_chain_fully_allowed ::
  "world \<Rightarrow> compiled_policy \<Rightarrow> allow_rule_scope \<Rightarrow> nat \<Rightarrow> string \<Rightarrow> bool" where
  "bash_chain_fully_allowed w pol scope 0 = chain_allowed_with w pol scope None"
| "bash_chain_fully_allowed w pol scope (Suc n) =
     chain_allowed_with w pol scope (Some (bash_chain_fully_allowed w pol scope n))"

definition narrow_allow_authorizes :: "world \<Rightarrow> compiled_policy \<Rightarrow> access_kind \<Rightarrow> bool" where
  "narrow_allow_authorizes w pol access =
     (case access of
        Bash cmd \<Rightarrow>
          cp_has_bash_allow_rules pol
          \<and> bash_chain_fully_allowed w pol NarrowOnly MAX_INLINE_SHELL_DEPTH cmd
      | _ \<Rightarrow> False)"

subsection \<open>The direct rule pass\<close>

fun tool_label :: "tool_filter \<Rightarrow> string" where
  "tool_label ToolAny = ''any tool''"
| "tool_label ToolBash = ''bash''"
| "tool_label ToolEdit = ''edit''"
| "tool_label ToolRead = ''read''"
| "tool_label ToolGrep = ''grep''"
| "tool_label ToolMcp = ''mcp''"
| "tool_label ToolWebFetch = ''web_fetch''"
| "tool_label ToolWebSearch = ''web_search''"
| "tool_label ToolAgentMessage = ''agent_message''"

definition deny_reason :: "permission_rule \<Rightarrow> string" where
  "deny_reason rule =
     ''Denied by permission policy: deny rule on '' @ tool_label (pr_tool rule)
     @ (case pr_pattern rule of
          None \<Rightarrow> []
        | Some p \<Rightarrow> '' matching '' @ [quote2] @ p @ [quote2])"

definition rule_applies ::
  "world \<Rightarrow> access_kind \<Rightarrow> path option \<Rightarrow> permission_rule \<Rightarrow> string option \<Rightarrow> bool" where
  "rule_applies w access cwd rule matcher \<longleftrightarrow>
     tool_filter_matches access (pr_tool rule) \<and> pattern_matches w access rule matcher cwd"

text \<open>The loop: a matching deny rule returns, the other matches are remembered.\<close>

fun scan_rules ::
  "world \<Rightarrow> access_kind \<Rightarrow> path option \<Rightarrow> (permission_rule \<times> string option) list
   \<Rightarrow> bool \<Rightarrow> bool \<Rightarrow> string + bool \<times> bool" where
  "scan_rules w access cwd [] ask allow = Inr (ask, allow)"
| "scan_rules w access cwd ((rule, matcher) # rs) ask allow =
     (if \<not> rule_applies w access cwd rule matcher then scan_rules w access cwd rs ask allow
      else case pr_action rule of
             RuleDeny \<Rightarrow> Inl (deny_reason rule)
           | RuleAsk \<Rightarrow> scan_rules w access cwd rs True allow
           | RuleAllow \<Rightarrow> scan_rules w access cwd rs ask True)"

definition evaluate_lexical_with_cwd ::
  "world \<Rightarrow> compiled_policy \<Rightarrow> access_kind \<Rightarrow> path option \<Rightarrow> decision option" where
  "evaluate_lexical_with_cwd w pol access cwd =
     (case scan_rules w access cwd (zip (cp_rules pol) (cp_matchers pol)) False False of
        Inl reason \<Rightarrow> Some (Reject reason)
      | Inr (matched_ask, matched_allow) \<Rightarrow>
          if matched_ask then Some Ask
          else case access of
                 Bash cmd \<Rightarrow>
                   if cp_has_bash_allow_rules pol
                      \<and> bash_chain_fully_allowed w pol AnyScope MAX_INLINE_SHELL_DEPTH cmd
                   then Some Allow else None
               | _ \<Rightarrow> if matched_allow then Some Allow else None)"

definition native_path_restrictions_apply :: "compiled_policy \<Rightarrow> access_kind \<Rightarrow> bool" where
  "native_path_restrictions_apply pol access =
     list_ex (\<lambda>rule. is_restriction rule \<and> tool_filter_matches access (pr_tool rule)) (cp_rules pol)"

definition evaluate_with_cwd_details ::
  "world \<Rightarrow> compiled_policy \<Rightarrow> access_kind \<Rightarrow> path option \<Rightarrow> decision option \<times> bool" where
  "evaluate_with_cwd_details w pol access cwd =
     (let lexical = evaluate_lexical_with_cwd w pol access cwd
      in case native_file_path access of
           None \<Rightarrow> (lexical, False)
         | Some p \<Rightarrow>
             (case raw_absolute_tool_path p cwd of
                None \<Rightarrow> (lexical, False)
              | Some raw_absolute \<Rightarrow>
                  let lexical_abs = path_match_string (absolute_normalized_path p cwd)
                  in case follow_absolute_symlink w raw_absolute lexical_abs of
                       Target resolved \<Rightarrow>
                         let resolved_decision =
                               (case evaluate_lexical_with_cwd w pol
                                       (access_with_path access resolved) cwd of
                                  Some (Reject r) \<Rightarrow> Some (Reject r)
                                | Some Ask \<Rightarrow> Some Ask
                                | _ \<Rightarrow> None)
                         in (combine_decisions lexical resolved_decision, False)
                     | Unresolvable \<Rightarrow>
                         if native_path_restrictions_apply pol access
                         then (combine_decisions lexical (Some Ask), True)
                         else (lexical, False)
                     | NoLink \<Rightarrow> (lexical, False)))"

definition evaluate_with_cwd ::
  "world \<Rightarrow> compiled_policy \<Rightarrow> access_kind \<Rightarrow> path option \<Rightarrow> decision option" where
  "evaluate_with_cwd w pol access cwd = fst (evaluate_with_cwd_details w pol access cwd)"

definition evaluate :: "world \<Rightarrow> compiled_policy \<Rightarrow> access_kind \<Rightarrow> decision option" where
  "evaluate w pol access = evaluate_with_cwd w pol access None"

subsection \<open>The Bash command gate\<close>

definition escalate :: "world \<Rightarrow> compiled_policy \<Rightarrow> string \<Rightarrow> gate_decision option" where
  "escalate w pol segment =
     (case evaluate w pol (Bash segment) of
        Some (Reject reason) \<Rightarrow> Some (GateReject reason)
      | Some Ask \<Rightarrow> Some AskRuleMatch
      | _ \<Rightarrow> None)"

definition inline_decision ::
  "(string \<Rightarrow> gate_decision option) option \<Rightarrow> string list \<Rightarrow> gate_decision option
   \<Rightarrow> gate_decision option" where
  "inline_decision nested inner_words decision =
     (case shell_dash_c_script (shell_words inner_words) of
        InlineLiteral index \<Rightarrow>
          (case nested of
             Some f \<Rightarrow> combine_gate_decisions decision (f (inner_words ! index))
           | None \<Rightarrow> combine_gate_decisions decision (Some AskFailClosed))
      | InlineUntrusted \<Rightarrow> combine_gate_decisions decision (Some AskFailClosed)
      | InlineUnrecognized \<Rightarrow> combine_gate_decisions decision (Some AskFailClosed)
      | NotInline \<Rightarrow> decision)"

definition split_string_decision ::
  "(string \<Rightarrow> gate_decision option) option \<Rightarrow> string list \<Rightarrow> gate_decision option
   \<Rightarrow> gate_decision option" where
  "split_string_decision nested inner_words decision =
     (case env_split_string_script inner_words of
        None \<Rightarrow> decision
      | Some script \<Rightarrow>
          (case nested of
             Some f \<Rightarrow> combine_gate_decisions decision (f script)
           | None \<Rightarrow> combine_gate_decisions decision (Some AskFailClosed)))"

definition uncertainty_floor :: "normalized_command_peel \<Rightarrow> gate_decision option" where
  "uncertainty_floor norm =
     combine_gate_decisions
       (if nc_exhausted norm \<or> nc_ambiguous norm \<or> nc_env_options_uncertain norm
        then Some AskFailClosed else None)
       (if nc_has_split_string norm then Some AskFailClosed else None)"

definition command_forms :: "string list \<Rightarrow> string list \<Rightarrow> string list list" where
  "command_forms raw_words inner_words =
     raw_words # (if length inner_words \<noteq> length raw_words then [inner_words] else [])"

definition evaluate_command_words ::
  "world \<Rightarrow> compiled_policy \<Rightarrow> (string \<Rightarrow> gate_decision option) option \<Rightarrow> string list
   \<Rightarrow> gate_decision option" where
  "evaluate_command_words w pol nested raw_words =
     (let norm = normalize_command_words raw_words;
          inner_words = nc_words norm;
          decision =
            foldl (\<lambda>d words. combine_gate_decisions d (escalate w pol (join_words words)))
              (uncertainty_floor norm) (command_forms raw_words inner_words)
      in split_string_decision nested inner_words
           (inline_decision nested inner_words decision))"

definition segments_with ::
  "world \<Rightarrow> compiled_policy \<Rightarrow> (string \<Rightarrow> gate_decision option) option \<Rightarrow> string
   \<Rightarrow> gate_decision option" where
  "segments_with w pol nested cmd =
     (case all_commands_from_script (w_parse w) cmd of
        None \<Rightarrow> Some AskFailClosed
      | Some segments \<Rightarrow>
          foldl (\<lambda>d parsed.
                   combine_gate_decisions d (evaluate_command_words w pol nested (pc_words parsed)))
            None segments)"

primrec evaluate_bash_command_segments ::
  "world \<Rightarrow> compiled_policy \<Rightarrow> nat \<Rightarrow> string \<Rightarrow> gate_decision option" where
  "evaluate_bash_command_segments w pol 0 = segments_with w pol None"
| "evaluate_bash_command_segments w pol (Suc n) =
     segments_with w pol (Some (evaluate_bash_command_segments w pol n))"

definition evaluate_bash_command_gate ::
  "world \<Rightarrow> compiled_policy \<Rightarrow> string \<Rightarrow> gate_decision option" where
  "evaluate_bash_command_gate w pol cmd =
     (if \<not> cp_has_bash_command_restrictions pol then None
      else evaluate_bash_command_segments w pol MAX_INLINE_SHELL_DEPTH cmd)"

definition evaluate_bash_command_policy ::
  "world \<Rightarrow> compiled_policy \<Rightarrow> string \<Rightarrow> decision option" where
  "evaluate_bash_command_policy w pol cmd =
     map_option into_decision (evaluate_bash_command_gate w pol cmd)"

section \<open>Properties of the policy\<close>

subsection \<open>Combination\<close>

lemma opt_level_simps [simp]:
  "opt_level rank None = 0" "opt_level rank (Some x) = Suc (rank x)"
  by (simp_all add: opt_level_def)

text \<open>
  Combining decisions is associative with no decision as its unit, answers one of the
  decisions combined, and never drops below either of them, so the order of the checks
  cannot weaken an outcome.
\<close>

theorem combine_decisions_laws:
  "combine_decisions (combine_decisions a b) c = combine_decisions a (combine_decisions b c)
   \<and> combine_decisions None a = a \<and> combine_decisions a None = a
   \<and> combine_decisions a b \<in> {a, b}
   \<and> opt_level decision_rank (combine_decisions a b)
       = max (opt_level decision_rank a) (opt_level decision_rank b)"
proof (intro conjI)
  show "combine_decisions a b \<in> {a, b}"
    using decisions.comb_in [of a b] decisions.comb_is_None [of a b]
    by (cases "combine_decisions a b") auto
qed (simp_all only: decisions.comb_assoc decisions.comb_None1 decisions.comb_None2
  decisions.level_comb)

subsection \<open>The direct rule pass\<close>

definition some_rule_applies ::
  "world \<Rightarrow> permission_rule list \<Rightarrow> access_kind \<Rightarrow> path option \<Rightarrow> rule_action \<Rightarrow> bool" where
  "some_rule_applies w rules access cwd act =
     (\<exists>rule \<in> set rules. pr_action rule = act \<and> rule_applies w access cwd rule (rule_matcher w rule))"

lemma zip_matchers [simp]:
  "zip (cp_rules (compile_policy w rules)) (cp_matchers (compile_policy w rules))
   = map (\<lambda>r. (r, rule_matcher w r)) rules"
  by (simp add: compile_policy_def zip_map2 zip_same_conv_map)

lemma some_rule_applies_Cons:
  "some_rule_applies w (r # rules) access cwd act \<longleftrightarrow>
     (pr_action r = act \<and> rule_applies w access cwd r (rule_matcher w r))
     \<or> some_rule_applies w rules access cwd act"
  by (auto simp: some_rule_applies_def)

lemma scan_rules_deny:
  "some_rule_applies w rules access cwd RuleDeny \<Longrightarrow>
     \<exists>reason. scan_rules w access cwd (map (\<lambda>r. (r, rule_matcher w r)) rules) ask allow = Inl reason"
  by (induction rules arbitrary: ask allow)
    (auto simp: some_rule_applies_Cons some_rule_applies_def split: rule_action.split)

lemma scan_rules_other:
  "\<not> some_rule_applies w rules access cwd RuleDeny \<Longrightarrow>
     scan_rules w access cwd (map (\<lambda>r. (r, rule_matcher w r)) rules) ask allow =
       Inr (ask \<or> some_rule_applies w rules access cwd RuleAsk,
            allow \<or> some_rule_applies w rules access cwd RuleAllow)"
proof (induction rules arbitrary: ask allow)
  case (Cons r rules)
  then show ?case
    by (cases "rule_applies w access cwd r (rule_matcher w r)"; cases "pr_action r")
      (simp_all add: some_rule_applies_Cons)
qed (simp add: some_rule_applies_def)

lemma scan_rules_cases:
  obtains (deny) reason where "some_rule_applies w rules access cwd RuleDeny"
    and "scan_rules w access cwd (map (\<lambda>r. (r, rule_matcher w r)) rules) False False = Inl reason"
  | (other) "\<not> some_rule_applies w rules access cwd RuleDeny"
    and "scan_rules w access cwd (map (\<lambda>r. (r, rule_matcher w r)) rules) False False
         = Inr (some_rule_applies w rules access cwd RuleAsk,
                some_rule_applies w rules access cwd RuleAllow)"
proof (cases "some_rule_applies w rules access cwd RuleDeny")
  case True
  then show thesis using scan_rules_deny [OF True] deny by blast
next
  case False
  then show thesis using scan_rules_other [OF False, of False False] other by simp
qed

lemma words_allowed_rule:
  assumes "bash_words_allowed w (compile_policy w rules) words scope"
  shows "words \<noteq> [] \<and> (scope = NarrowOnly \<longrightarrow> \<not> head_is_exec_vehicle words)
    \<and> (\<exists>rule \<in> set rules. pr_action rule = RuleAllow \<and> covers_bash rule
         \<and> (scope = NarrowOnly \<longrightarrow> \<not> rule_is_catchall w rule)
         \<and> bash_allow_pattern_matches w (join_words words) rule (rule_matcher w rule))"
proof -
  have z: "zip (map (\<lambda>r. (r, rule_matcher w r)) rules) (cp_catchall (compile_policy w rules))
      = map (\<lambda>r. ((r, rule_matcher w r), rule_is_catchall w r)) rules"
    by (simp add: compile_policy_def zip_map1 zip_map2 zip_same_conv_map)
  show ?thesis
    using assms by (auto simp: bash_words_allowed_def z list_ex_iff split: if_splits)
qed

lemma segment_allowed_words:
  "segment_allowed w pol scope nested words \<Longrightarrow>
     \<not> norm_flagged (normalize_command_words words)
     \<and> bash_words_allowed w pol (nc_words (normalize_command_words words)) scope"
  by (simp add: segment_allowed_def Let_def split: if_splits)

lemma chain_allowed_segments:
  "chain_allowed_with w pol scope nested cmd \<Longrightarrow>
     \<exists>segments. all_commands_from_script (w_parse w) cmd = Some segments \<and> segments \<noteq> []
       \<and> (\<forall>c \<in> set segments. segment_allowed w pol scope nested (pc_words c))"
  by (auto simp: chain_allowed_with_def list_all_iff split: option.splits)

lemma chain_allowed_unfold:
  "bash_chain_fully_allowed w pol scope n cmd =
     chain_allowed_with w pol scope
       (case n of 0 \<Rightarrow> None | Suc m \<Rightarrow> Some (bash_chain_fully_allowed w pol scope m)) cmd"
  by (cases n) simp_all

lemma chain_allowed_some:
  assumes "chain_allowed_with w pol scope nested cmd"
  shows "\<exists>c :: plain_command. segment_allowed w pol scope nested (pc_words c)"
proof -
  obtain segments :: "plain_command list" where "segments \<noteq> []"
    and "\<forall>c \<in> set segments. segment_allowed w pol scope nested (pc_words c)"
    using chain_allowed_segments [OF assms] by blast
  then show ?thesis by (cases segments) auto
qed

lemma chain_with_has_rules:
  assumes "chain_allowed_with w (compile_policy w rules) scope nested cmd"
  shows "cp_has_bash_allow_rules (compile_policy w rules)"
proof -
  obtain c :: plain_command where "segment_allowed w (compile_policy w rules) scope nested (pc_words c)"
    using chain_allowed_some [OF assms] by (elim exE)
  from segment_allowed_words [OF this]
  have "bash_words_allowed w (compile_policy w rules)
      (nc_words (normalize_command_words (pc_words c))) scope" by (rule conjunct2)
  from words_allowed_rule [OF this] show ?thesis
    by (auto simp: compile_policy_def list_ex_iff)
qed

lemma chain_allowed_has_rules:
  assumes "bash_chain_fully_allowed w (compile_policy w rules) scope n cmd"
  shows "cp_has_bash_allow_rules (compile_policy w rules)"
  by (rule chain_with_has_rules) (rule chain_allowed_unfold [THEN iffD1, OF assms])

text \<open>
  The direct pass is deny over ask over allow, whatever the order of the rules: it
  rejects exactly when a deny rule applies, asks exactly when an ask rule and no deny rule
  applies, and allows exactly when neither applies and an allow rule does, for a Bash command
  when the conjunctive check grants the whole chain.
\<close>

theorem direct_pass_precedence:
  "let decision = evaluate_lexical_with_cwd w (compile_policy w rules) access cwd;
       applies = some_rule_applies w rules access cwd
   in ((\<exists>reason. decision = Some (Reject reason)) \<longleftrightarrow> applies RuleDeny)
      \<and> (decision = Some Ask \<longleftrightarrow> \<not> applies RuleDeny \<and> applies RuleAsk)
      \<and> (decision = Some Allow \<longleftrightarrow>
           \<not> applies RuleDeny \<and> \<not> applies RuleAsk
           \<and> (case access of
                Bash cmd \<Rightarrow>
                  bash_chain_fully_allowed w (compile_policy w rules) AnyScope
                    MAX_INLINE_SHELL_DEPTH cmd
              | _ \<Rightarrow> applies RuleAllow))"
  by (rule scan_rules_cases [of w rules access cwd])
    (auto simp: evaluate_lexical_with_cwd_def Let_def chain_allowed_has_rules
      split: access_kind.split)

subsection \<open>The commands a script runs\<close>

text \<open>
  The specification of both passes over a script: a command word list is run at nesting
  depth \<open>n\<close> when \<open>n\<close> inline scripts lead to it, each handed to a shell with \<open>-c\<close> or, with
  \<open>packs\<close>, to \<open>env -S\<close>, after the wrappers are peeled.
\<close>

inductive script_runs :: "world \<Rightarrow> bool \<Rightarrow> nat \<Rightarrow> string \<Rightarrow> string list \<Rightarrow> bool"
  for w :: world and packs :: bool where
  here: "all_commands_from_script (w_parse w) cmd = Some segments \<Longrightarrow> c \<in> set segments \<Longrightarrow>
     script_runs w packs 0 cmd (pc_words c)"
| inline: "all_commands_from_script (w_parse w) cmd = Some segments \<Longrightarrow> c \<in> set segments \<Longrightarrow>
     inner_words = nc_words (normalize_command_words (pc_words c)) \<Longrightarrow>
     shell_dash_c_script (shell_words inner_words) = InlineLiteral i \<Longrightarrow>
     script_runs w packs n (inner_words ! i) words \<Longrightarrow>
     script_runs w packs (Suc n) cmd words"
| packed: "packs \<Longrightarrow> all_commands_from_script (w_parse w) cmd = Some segments \<Longrightarrow>
     c \<in> set segments \<Longrightarrow>
     env_split_string_script (nc_words (normalize_command_words (pc_words c))) = Some s \<Longrightarrow>
     script_runs w packs n s words \<Longrightarrow>
     script_runs w packs (Suc n) cmd words"

subsection \<open>The gate\<close>

abbreviation gate_level :: "gate_decision option \<Rightarrow> nat" where
  "gate_level \<equiv> opt_level gate_rank"

lemma gate_level_reject: "gate_level d = 4 \<longleftrightarrow> (\<exists>r. d = Some (GateReject r))"
  by (cases d) (auto simp: gate_rank_def split: gate_decision.splits)

lemma gate_level_le: "gate_level d \<le> 4"
  by (cases d) (auto simp: gate_rank_def split: gate_decision.splits)

lemma gate_level_none: "gate_level d = 0 \<longleftrightarrow> d = None"
  by (cases d) simp_all

lemma gate_level_ge: "3 < gate_level d \<longleftrightarrow> (\<exists>r. d = Some (GateReject r))"
  unfolding gate_level_reject [symmetric] using gate_level_le [of d] by arith

lemma inline_decision_ge: "gate_level d \<le> gate_level (inline_decision nested ws d)"
  by (auto simp: inline_decision_def gates.level_comb simp del: opt_level_simps
      split: inline_shell_script.split option.split)

lemma split_string_decision_ge: "gate_level d \<le> gate_level (split_string_decision nested ws d)"
  by (auto simp: split_string_decision_def gates.level_comb simp del: opt_level_simps
      split: option.split)

lemma normalized_same_length:
  "length (nc_words (normalize_command_words ws)) = length ws \<Longrightarrow>
     nc_words (normalize_command_words ws) = ws"
  using peel_steps_suffix [OF normalize_words [of ws]] suffix_order.antisym
  by (metis length_append append_self_conv2 length_0_conv add_cancel_left_left suffix_def)

definition nested_level :: "(string \<Rightarrow> gate_decision option) option \<Rightarrow> string \<Rightarrow> nat" where
  "nested_level nested s = (case nested of None \<Rightarrow> 2 | Some f \<Rightarrow> gate_level (f s))"

lemma words_level_decision:
  "gate_level (foldl (\<lambda>d words. combine_gate_decisions d (escalate w pol (join_words words)))
       (uncertainty_floor (normalize_command_words raw))
       (command_forms raw (nc_words (normalize_command_words raw))))
   \<le> gate_level (evaluate_command_words w pol nested raw)"
  unfolding evaluate_command_words_def Let_def
  by (rule order.trans [OF inline_decision_ge split_string_decision_ge])

lemma words_level_forms:
  assumes "ws = raw \<or> ws = nc_words (normalize_command_words raw)"
  shows "gate_level (escalate w pol (join_words ws))
         \<le> gate_level (evaluate_command_words w pol nested raw)"
proof -
  have "ws \<in> set (command_forms raw (nc_words (normalize_command_words raw)))"
    using assms normalized_same_length by (auto simp: command_forms_def)
  from gates.level_fold [OF this, where f = "\<lambda>words. escalate w pol (join_words words)"]
  show ?thesis using words_level_decision by (rule order.trans)
qed

lemma words_level_inline:
  assumes "inner = nc_words (normalize_command_words raw)"
    and "shell_dash_c_script (shell_words inner) = InlineLiteral i"
  shows "nested_level nested (inner ! i) \<le> gate_level (evaluate_command_words w pol nested raw)"
proof -
  have "nested_level nested (inner ! i) \<le> gate_level (inline_decision nested inner d)" for d
    using assms(2)
    by (auto simp: inline_decision_def nested_level_def gates.level_comb gate_rank_def
        split: option.split)
  from order.trans [OF this split_string_decision_ge] show ?thesis
    by (simp add: evaluate_command_words_def Let_def assms(1))
qed

lemma words_level_packed:
  assumes "env_split_string_script (nc_words (normalize_command_words raw)) = Some s"
  shows "nested_level nested s \<le> gate_level (evaluate_command_words w pol nested raw)"
  using assms
  by (auto simp: evaluate_command_words_def Let_def split_string_decision_def nested_level_def
      gates.level_comb gate_rank_def split: option.split)

lemma words_level_flags:
  assumes "norm_flagged (normalize_command_words raw)"
  shows "2 \<le> gate_level (evaluate_command_words w pol nested raw)"
proof -
  have "2 \<le> gate_level (uncertainty_floor (normalize_command_words raw))"
    using assms
    by (auto simp: norm_flagged_def uncertainty_floor_def gates.level_comb gate_rank_def)
  then show ?thesis
    using gates.level_fold_start words_level_decision order.trans by metis
qed

lemma segments_level:
  assumes "all_commands_from_script (w_parse w) cmd = Some segments" and "c \<in> set segments"
  shows "gate_level (evaluate_command_words w pol nested (pc_words c))
         \<le> gate_level (segments_with w pol nested cmd)"
  using gates.level_fold [OF assms(2), where f = "\<lambda>c. evaluate_command_words w pol nested (pc_words c)"]
  by (simp add: segments_with_def assms(1))

definition nested_gate ::
  "world \<Rightarrow> compiled_policy \<Rightarrow> nat \<Rightarrow> (string \<Rightarrow> gate_decision option) option" where
  "nested_gate w pol k =
     (case k of 0 \<Rightarrow> None | Suc m \<Rightarrow> Some (evaluate_bash_command_segments w pol m))"

lemma segments_unfold:
  "evaluate_bash_command_segments w pol k cmd = segments_with w pol (nested_gate w pol k) cmd"
  by (cases k) (simp_all add: nested_gate_def)

lemma script_runs_level:
  assumes "script_runs w True n cmd raw"
    and "ws = raw \<or> ws = nc_words (normalize_command_words raw)"
  shows "(if n \<le> k
          then gate_level (escalate w pol (join_words ws))
               \<le> gate_level (evaluate_bash_command_segments w pol k cmd)
               \<and> (norm_flagged (normalize_command_words raw) \<longrightarrow>
                    2 \<le> gate_level (evaluate_bash_command_segments w pol k cmd))
          else 2 \<le> gate_level (evaluate_bash_command_segments w pol k cmd))"
  using assms
proof (induction arbitrary: k rule: script_runs.induct)
  case (here cmd segments c)
  note l = segments_level [OF here(1,2), of pol "nested_gate w pol k"]
  show ?case
    using order.trans [OF words_level_forms [OF here(3)] l]
      order.trans [OF words_level_flags l]
    by (simp add: segments_unfold)
next
  case (inline cmd segments c inner_words i n words)
  have l: "nested_level (nested_gate w pol k) (inner_words ! i)
      \<le> gate_level (evaluate_bash_command_segments w pol k cmd)"
    using segments_level [OF inline(1,2), of pol "nested_gate w pol k"]
      words_level_inline [OF inline(3,4)] order.trans
    unfolding segments_unfold by blast
  show ?case
  proof (cases k)
    case 0
    then show ?thesis using l by (simp add: nested_level_def nested_gate_def)
  next
    case (Suc m)
    then show ?thesis
      using l inline.IH [OF inline.prems, of m]
      by (auto simp: nested_level_def nested_gate_def simp del: evaluate_bash_command_segments.simps
          split: if_splits)
  qed
next
  case (packed cmd segments c s n words)
  have l: "nested_level (nested_gate w pol k) s
      \<le> gate_level (evaluate_bash_command_segments w pol k cmd)"
    using segments_level [OF packed(2,3), of pol "nested_gate w pol k"]
      words_level_packed [OF packed(4)] order.trans
    unfolding segments_unfold by blast
  show ?case
  proof (cases k)
    case 0
    then show ?thesis using l by (simp add: nested_level_def nested_gate_def)
  next
    case (Suc m)
    then show ?thesis
      using l packed.IH [OF packed.prems, of m]
      by (auto simp: nested_level_def nested_gate_def simp del: evaluate_bash_command_segments.simps
          split: if_splits)
  qed
qed

subsection \<open>A concrete world for the witnesses\<close>

text \<open>
  The parse trees of \<open>ls a\<close> and of \<open>bash -c 'ls a'\<close>, and a world that knows these two
  scripts, where no pattern is a valid glob and no file exists.
\<close>

definition nested_script :: string where
  "nested_script = ''bash -c '' @ [quote1] @ ''ls a'' @ [quote1]"

definition nested_tree :: tree where
  "nested_tree =
     \<lparr>tr_root = Node ''program'' True 0 14
        [Node ''command'' True 0 14
           [Node ''command_name'' True 0 4 [Node ''word'' True 0 4 []],
            Node ''word'' True 5 7 [], Node ''raw_string'' True 8 14 []]],
      tr_has_error = False\<rparr>"

definition sample_world :: world where
  "sample_world =
     \<lparr>w_parse = (\<lambda>s. if s = nested_script then Some nested_tree else sample_parser s),
      w_glob_new = (\<lambda>_. False), w_glob_matches = (\<lambda>_ _ _. False), w_url_host = (\<lambda>_. None),
      w_lowercase = ascii_lower, w_canonicalize = (\<lambda>_. None),
      w_symlink_metadata = (\<lambda>_. MetaNotFound), w_read_link = (\<lambda>_. None),
      w_child_by_field =
        (\<lambda>n field. find (\<lambda>c. nd_kind c = (if field = ''name'' then ''command_name'' else ''word''))
                     (nd_children n)),
      w_user_grok_home = None\<rparr>"

definition ls_rule :: "rule_action \<Rightarrow> permission_rule" where
  "ls_rule act =
     \<lparr>pr_action = act, pr_tool = ToolBash, pr_pattern = Some ''ls'', pr_pattern_mode = GlobMode\<rparr>"

lemma sample_world_commands:
  "all_commands_from_script (w_parse sample_world) ''ls a''
     = Some [\<lparr>pc_words = [''ls'', ''a''], pc_span_start = 0, pc_span_end = 4\<rparr>]"
  "all_commands_from_script (w_parse sample_world) nested_script
     = Some [\<lparr>pc_words = [''bash'', ''-c'', ''ls a''], pc_span_start = 0, pc_span_end = 14\<rparr>]"
  by code_simp+

lemma sample_runs:
  "script_runs sample_world packs 1 nested_script [''ls'', ''a'']"
proof -
  have n: "nc_words (normalize_command_words [''bash'', ''-c'', ''ls a'']) = [''bash'', ''-c'', ''ls a'']"
    "shell_dash_c_script (shell_words [''bash'', ''-c'', ''ls a'']) = InlineLiteral 2"
    by code_simp+
  have h: "script_runs sample_world packs 0 ''ls a'' [''ls'', ''a'']"
    using script_runs.here [OF sample_world_commands(1)] by auto
  show ?thesis
    using script_runs.inline [OF sample_world_commands(2), of _ _ 2 packs 0] n h by auto
qed

subsection \<open>What the gate guarantees\<close>

lemma script_runs_rejected:
  assumes "script_runs w True n cmd raw" and "n \<le> MAX_INLINE_SHELL_DEPTH"
    and "ws = raw \<or> ws = nc_words (normalize_command_words raw)"
    and "escalate w pol (join_words ws) = Some (GateReject r)"
  shows "\<exists>r'. evaluate_bash_command_segments w pol MAX_INLINE_SHELL_DEPTH cmd = Some (GateReject r')"
  using script_runs_level [OF assms(1,3), of MAX_INLINE_SHELL_DEPTH pol] assms(2,4)
    gate_level_le [of "evaluate_bash_command_segments w pol MAX_INLINE_SHELL_DEPTH cmd"]
  by (simp add: gate_rank_def flip: gate_level_reject)

lemma tool_filter_matches_Bash:
  "tool_filter_matches (Bash s) flt \<longleftrightarrow> flt = ToolBash \<or> flt = ToolAny"
  by (cases flt) (simp_all add: tool_filter_matches_def)

lemma bash_reject_is_restriction:
  assumes "evaluate w (compile_policy w rules) (Bash s) = Some (Reject r)"
  shows "cp_has_bash_command_restrictions (compile_policy w rules)"
proof -
  have "some_rule_applies w rules (Bash s) None RuleDeny"
    using assms
    by (cases rule: scan_rules_cases [of w rules "Bash s" None])
      (auto simp: evaluate_def evaluate_with_cwd_def evaluate_with_cwd_details_def Let_def
        native_file_path_def evaluate_lexical_with_cwd_def split: if_splits)
  then show ?thesis
    by (auto simp: some_rule_applies_def compile_policy_def list_ex_iff is_restriction_def
        covers_bash_def rule_applies_def tool_filter_matches_Bash)
qed

text \<open>
  A denied command cannot be smuggled in: if a command the script runs, behind wrappers
  and up to eight inline scripts deep, is rejected by the policy as written or with its
  wrappers peeled, the gate rejects the whole script.
\<close>

theorem gate_rejects_denied_command:
  assumes "script_runs w True n cmd raw" and "n \<le> MAX_INLINE_SHELL_DEPTH"
    and "ws = raw \<or> ws = nc_words (normalize_command_words raw)"
    and "evaluate w (compile_policy w rules) (Bash (join_words ws)) = Some (Reject r)"
  shows "\<exists>r'. evaluate_bash_command_gate w (compile_policy w rules) cmd = Some (GateReject r')"
  using script_runs_rejected [OF assms(1-3), of "compile_policy w rules" r] assms(4)
    bash_reject_is_restriction [OF assms(4)]
  by (simp add: evaluate_bash_command_gate_def escalate_def)

theorem gate_rejects_denied_command_witness:
  "\<exists>r'. evaluate_bash_command_gate sample_world (compile_policy sample_world [ls_rule RuleDeny])
          nested_script = Some (GateReject r')"
proof (rule gate_rejects_denied_command [OF sample_runs])
  show "1 \<le> MAX_INLINE_SHELL_DEPTH" by (simp add: MAX_INLINE_SHELL_DEPTH_def)
  show "[''ls'', ''a''] = [''ls'', ''a'']
      \<or> [''ls'', ''a''] = nc_words (normalize_command_words [''ls'', ''a''])" by simp
  show "evaluate sample_world (compile_policy sample_world [ls_rule RuleDeny])
      (Bash (join_words [''ls'', ''a''])) = Some (Reject (deny_reason (ls_rule RuleDeny)))"
    by code_simp
qed

text \<open>
  C16. Silence of the gate is earned: when a policy with Bash restrictions lets a script
  pass, the script was parsed, and every command it runs is within the inline budget, raised
  no uncertainty when its wrappers were peeled, and matched no deny or ask rule.
\<close>

theorem gate_silence_is_earned:
  assumes "evaluate_bash_command_gate w pol cmd = None"
    and "cp_has_bash_command_restrictions pol"
    and "script_runs w True n cmd raw"
  shows "all_commands_from_script (w_parse w) cmd \<noteq> None
    \<and> n \<le> MAX_INLINE_SHELL_DEPTH
    \<and> nc_unflagged (normalize_command_words raw)
    \<and> escalate w pol (join_words raw) = None
    \<and> escalate w pol (join_words (nc_words (normalize_command_words raw))) = None"
proof -
  have g: "gate_level (evaluate_bash_command_segments w pol MAX_INLINE_SHELL_DEPTH cmd) = 0"
    using assms(1,2) by (simp add: evaluate_bash_command_gate_def)
  have p: "all_commands_from_script (w_parse w) cmd \<noteq> None"
    using assms(3) by (cases rule: script_runs.cases) simp_all
  have l: "n \<le> MAX_INLINE_SHELL_DEPTH" "\<not> norm_flagged (normalize_command_words raw)"
    "escalate w pol (join_words ws) = None"
    if "ws = raw \<or> ws = nc_words (normalize_command_words raw)" for ws
    using script_runs_level [OF assms(3) that, of MAX_INLINE_SHELL_DEPTH pol] g
    by (auto simp: gate_level_none split: if_splits)
  show ?thesis
    using p l [of raw] l [of "nc_words (normalize_command_words raw)"]
    by (simp add: norm_flagged_def nc_unflagged_def)
qed

definition rm_policy :: compiled_policy where
  "rm_policy = compile_policy sample_world [(ls_rule RuleDeny)\<lparr>pr_pattern := Some ''rm''\<rparr>]"

lemma ls_words_silent: "evaluate_command_words sample_world rm_policy nested [''ls'', ''a''] = None"
proof -
  have "normalize_command_words [''ls'', ''a''] =
      \<lparr>nc_words = [''ls'', ''a''], nc_has_chdir = False, nc_has_split_string = False,
       nc_env_options_uncertain = False, nc_exhausted = False, nc_ambiguous = False\<rparr>"
    "escalate sample_world rm_policy (join_words [''ls'', ''a'']) = None"
    "shell_dash_c_script (shell_words [''ls'', ''a'']) = NotInline"
    "env_split_string_script [''ls'', ''a''] = None"
    by code_simp+
  then show ?thesis
    by (simp add: evaluate_command_words_def Let_def uncertainty_floor_def command_forms_def
        inline_decision_def split_string_decision_def gates.comb_None1)
qed

lemma bash_words_silent:
  "evaluate_command_words sample_world rm_policy (Some f) [''bash'', ''-c'', ''ls a''] = f ''ls a''"
proof -
  have "normalize_command_words [''bash'', ''-c'', ''ls a''] =
      \<lparr>nc_words = [''bash'', ''-c'', ''ls a''], nc_has_chdir = False,
       nc_has_split_string = False, nc_env_options_uncertain = False, nc_exhausted = False,
       nc_ambiguous = False\<rparr>"
    "escalate sample_world rm_policy (join_words [''bash'', ''-c'', ''ls a'']) = None"
    "shell_dash_c_script (shell_words [''bash'', ''-c'', ''ls a'']) = InlineLiteral 2"
    "env_split_string_script [''bash'', ''-c'', ''ls a''] = None"
    by code_simp+
  then show ?thesis
    by (simp add: evaluate_command_words_def Let_def uncertainty_floor_def command_forms_def
        inline_decision_def split_string_decision_def gates.comb_None1)
qed

lemma rm_policy_silent: "evaluate_bash_command_gate sample_world rm_policy nested_script = None"
proof -
  have "cp_has_bash_command_restrictions rm_policy" by code_simp
  then show ?thesis
    by (simp add: evaluate_bash_command_gate_def MAX_INLINE_SHELL_DEPTH_def numeral_eq_Suc
        segments_with_def sample_world_commands bash_words_silent ls_words_silent
        gates.comb_None1)
qed

theorem gate_silence_is_earned_witness:
  "escalate sample_world rm_policy (join_words [''ls'', ''a'']) = None"
proof -
  have "cp_has_bash_command_restrictions rm_policy" by code_simp
  then show ?thesis
    using gate_silence_is_earned [OF rm_policy_silent _ sample_runs] by simp
qed

subsection \<open>What an allow guarantees\<close>

lemma segment_allowed_inline:
  "segment_allowed w pol scope nested words \<Longrightarrow>
     shell_dash_c_script (shell_words (nc_words (normalize_command_words words))) = InlineLiteral i \<Longrightarrow>
     \<exists>f. nested = Some f \<and> f (nc_words (normalize_command_words words) ! i)"
  by (auto simp: segment_allowed_def Let_def split: if_splits option.splits)

lemma chain_allowed_member:
  "chain_allowed_with w pol scope nested cmd \<Longrightarrow>
     all_commands_from_script (w_parse w) cmd = Some segments \<Longrightarrow> c \<in> set segments \<Longrightarrow>
     segment_allowed w pol scope nested (pc_words c)"
  by (auto simp: chain_allowed_with_def list_all_iff)

lemma chain_allowed_runs:
  assumes "script_runs w False n cmd raw" and "bash_chain_fully_allowed w pol scope k cmd"
  shows "n \<le> k \<and> \<not> norm_flagged (normalize_command_words raw)
    \<and> bash_words_allowed w pol (nc_words (normalize_command_words raw)) scope"
  using assms
proof (induction arbitrary: k rule: script_runs.induct)
  case (here cmd segments c)
  from chain_allowed_member [OF chain_allowed_unfold [THEN iffD1, OF here(3)] here(1,2)]
  show ?case using segment_allowed_words by blast
next
  case (inline cmd segments c inner_words i n words)
  note s = chain_allowed_member [OF chain_allowed_unfold [THEN iffD1, OF inline.prems] inline(1,2)]
  from segment_allowed_inline [OF s inline(4) [unfolded inline(3)]]
  obtain m where k: "k = Suc m"
    and "bash_chain_fully_allowed w pol scope m (inner_words ! i)"
    unfolding inline(3) by (cases k) auto
  from inline.IH [OF this(2)] show ?case using k by simp
qed simp

text \<open>
  C17. Allowing is conjunctive: a Bash request is allowed by rule only if every command the
  script runs, in every inline script it hands to a shell, is within the inline budget, has
  its wrappers fully understood, and after peeling them matches an allow rule of the policy.
\<close>

theorem allowed_chain_is_conjunctive:
  assumes "evaluate w (compile_policy w rules) (Bash cmd) = Some Allow"
    and "script_runs w False n cmd raw"
  shows "n \<le> MAX_INLINE_SHELL_DEPTH
    \<and> nc_unflagged (normalize_command_words raw)
    \<and> (\<exists>rule \<in> set rules. pr_action rule = RuleAllow \<and> covers_bash rule
         \<and> bash_allow_pattern_matches w
             (join_words (nc_words (normalize_command_words raw))) rule (rule_matcher w rule))"
proof -
  have "bash_chain_fully_allowed w (compile_policy w rules) AnyScope MAX_INLINE_SHELL_DEPTH cmd"
    using assms(1)
    by (cases rule: scan_rules_cases [of w rules "Bash cmd" None])
      (simp_all add: evaluate_def evaluate_with_cwd_def evaluate_with_cwd_details_def Let_def
        native_file_path_def evaluate_lexical_with_cwd_def split: if_splits)
  from chain_allowed_runs [OF assms(2) this]
  have "n \<le> MAX_INLINE_SHELL_DEPTH" "nc_unflagged (normalize_command_words raw)"
    and b: "bash_words_allowed w (compile_policy w rules)
      (nc_words (normalize_command_words raw)) AnyScope"
    by (auto simp: norm_flagged_def nc_unflagged_def)
  then show ?thesis using words_allowed_rule [OF b] by blast
qed

definition allow_rules :: "permission_rule list" where
  "allow_rules = [(ls_rule RuleAllow)\<lparr>pr_pattern := Some ''bash''\<rparr>, ls_rule RuleAllow]"

lemma ls_segment_allowed:
  "segment_allowed sample_world (compile_policy sample_world allow_rules) AnyScope nested [''ls'', ''a'']"
proof -
  have "normalize_command_words [''ls'', ''a''] =
      \<lparr>nc_words = [''ls'', ''a''], nc_has_chdir = False, nc_has_split_string = False,
       nc_env_options_uncertain = False, nc_exhausted = False, nc_ambiguous = False\<rparr>"
    "bash_words_allowed sample_world (compile_policy sample_world allow_rules) [''ls'', ''a''] AnyScope"
    "shell_dash_c_script (shell_words [''ls'', ''a'']) = NotInline"
    by code_simp+
  then show ?thesis by (simp add: segment_allowed_def norm_flagged_def)
qed

lemma bash_segment_allowed:
  "segment_allowed sample_world (compile_policy sample_world allow_rules) AnyScope (Some f)
     [''bash'', ''-c'', ''ls a''] = f ''ls a''"
proof -
  have "normalize_command_words [''bash'', ''-c'', ''ls a''] =
      \<lparr>nc_words = [''bash'', ''-c'', ''ls a''], nc_has_chdir = False,
       nc_has_split_string = False, nc_env_options_uncertain = False, nc_exhausted = False,
       nc_ambiguous = False\<rparr>"
    "bash_words_allowed sample_world (compile_policy sample_world allow_rules)
       [''bash'', ''-c'', ''ls a''] AnyScope"
    "shell_dash_c_script (shell_words [''bash'', ''-c'', ''ls a'']) = InlineLiteral 2"
    by code_simp+
  then show ?thesis by (simp add: segment_allowed_def norm_flagged_def)
qed

lemma nested_script_allowed:
  "evaluate sample_world (compile_policy sample_world allow_rules) (Bash nested_script) = Some Allow"
proof -
  have "scan_rules sample_world (Bash nested_script) None
      (map (\<lambda>r. (r, rule_matcher sample_world r)) allow_rules) False False = Inr (False, True)"
    "cp_has_bash_allow_rules (compile_policy sample_world allow_rules)"
    by code_simp+
  then show ?thesis
    by (simp add: evaluate_def evaluate_with_cwd_def evaluate_with_cwd_details_def Let_def
        native_file_path_def evaluate_lexical_with_cwd_def MAX_INLINE_SHELL_DEPTH_def
        numeral_eq_Suc chain_allowed_with_def sample_world_commands ls_segment_allowed
        bash_segment_allowed)
qed

theorem allowed_chain_is_conjunctive_witness:
  "\<exists>rule \<in> set allow_rules.
     bash_allow_pattern_matches sample_world
       (join_words (nc_words (normalize_command_words [''ls'', ''a'']))) rule
       (rule_matcher sample_world rule)"
  using allowed_chain_is_conjunctive [OF nested_script_allowed sample_runs] by blast

lemma narrow_words: "bash_words_allowed w pol ws NarrowOnly \<Longrightarrow> bash_words_allowed w pol ws AnyScope"
  by (auto simp: bash_words_allowed_def list_ex_iff split: if_splits)

lemma narrow_chain:
  "bash_chain_fully_allowed w pol NarrowOnly k cmd \<Longrightarrow>
     bash_chain_fully_allowed w pol AnyScope k cmd"
proof (induction k arbitrary: cmd)
  case 0
  then show ?case
    by (auto simp: chain_allowed_with_def segment_allowed_def Let_def list_all_iff
        dest: narrow_words split: option.splits inline_shell_script.splits if_splits)
next
  case (Suc k)
  then show ?case
    by (auto simp: chain_allowed_with_def segment_allowed_def Let_def list_all_iff
        dest: narrow_words split: option.splits inline_shell_script.splits if_splits)
qed

text \<open>
  The rules that may bypass the classifier are narrow: what they authorize, the policy's
  allow rules authorize too, and no command the script runs is the head of an interpreter,
  shell, privilege escalator or other executor, nor granted by a catch-all rule alone.
\<close>

theorem narrow_allow_is_scoped:
  assumes "narrow_allow_authorizes w (compile_policy w rules) (Bash cmd)"
    and "script_runs w False n cmd raw"
  shows "bash_chain_fully_allowed w (compile_policy w rules) AnyScope MAX_INLINE_SHELL_DEPTH cmd
    \<and> \<not> head_is_exec_vehicle (nc_words (normalize_command_words raw))
    \<and> (\<exists>rule \<in> set rules. pr_action rule = RuleAllow \<and> covers_bash rule \<and> \<not> rule_is_catchall w rule
         \<and> bash_allow_pattern_matches w
             (join_words (nc_words (normalize_command_words raw))) rule (rule_matcher w rule))"
proof -
  have n: "bash_chain_fully_allowed w (compile_policy w rules) NarrowOnly MAX_INLINE_SHELL_DEPTH cmd"
    using assms(1) by (simp add: narrow_allow_authorizes_def)
  then have b: "bash_words_allowed w (compile_policy w rules)
      (nc_words (normalize_command_words raw)) NarrowOnly"
    using chain_allowed_runs [OF assms(2)] by blast
  show ?thesis using narrow_chain [OF n] words_allowed_rule [OF b] by blast
qed

lemma ls_runs: "script_runs sample_world packs 0 ''ls a'' [''ls'', ''a'']"
  using script_runs.here [OF sample_world_commands(1)] by auto

lemma ls_narrow:
  "narrow_allow_authorizes sample_world (compile_policy sample_world [ls_rule RuleAllow]) (Bash ''ls a'')"
proof -
  have "segment_allowed sample_world (compile_policy sample_world [ls_rule RuleAllow]) NarrowOnly
      nested [''ls'', ''a'']" for nested
  proof -
    have "normalize_command_words [''ls'', ''a''] =
        \<lparr>nc_words = [''ls'', ''a''], nc_has_chdir = False, nc_has_split_string = False,
         nc_env_options_uncertain = False, nc_exhausted = False, nc_ambiguous = False\<rparr>"
      "bash_words_allowed sample_world (compile_policy sample_world [ls_rule RuleAllow])
         [''ls'', ''a''] NarrowOnly"
      "shell_dash_c_script (shell_words [''ls'', ''a'']) = NotInline"
      by code_simp+
    then show ?thesis by (simp add: segment_allowed_def norm_flagged_def)
  qed
  moreover have "cp_has_bash_allow_rules (compile_policy sample_world [ls_rule RuleAllow])"
    by code_simp
  ultimately show ?thesis
    by (simp add: narrow_allow_authorizes_def MAX_INLINE_SHELL_DEPTH_def numeral_eq_Suc
        chain_allowed_with_def sample_world_commands)
qed

theorem narrow_allow_is_scoped_witness:
  "\<not> head_is_exec_vehicle (nc_words (normalize_command_words [''ls'', ''a'']))"
  using narrow_allow_is_scoped [OF ls_narrow ls_runs] by blast

subsection \<open>The symlink re-check\<close>

lemma lexical_decisions:
  "evaluate_lexical_with_cwd w pol access cwd \<in> {None, Some Ask, Some Allow} \<union> range (Some \<circ> Reject)"
  by (auto simp: evaluate_lexical_with_cwd_def split: sum.split access_kind.split)

lemma combine_reject:
  assumes "a \<in> {None, Some Ask, Some Allow} \<union> range (Some \<circ> Reject)"
  shows "\<exists>r'. combine_decisions a (Some (Reject r)) = Some (Reject r')"
  using assms by (auto simp: combine_decisions_def decision_rank_def)

text \<open>
  A symbolic link cannot lift a restriction: a file access whose path resolves to a
  target on which the policy rejects the same access is rejected, whatever the rules say
  about the path as spelled.
\<close>

theorem denied_target_is_rejected:
  assumes "native_file_path access = Some p"
    and "raw_absolute_tool_path p cwd = Some raw"
    and "follow_absolute_symlink w raw (path_match_string (absolute_normalized_path p cwd))
         = Target resolved"
    and "evaluate_lexical_with_cwd w pol (access_with_path access resolved) cwd = Some (Reject r)"
  shows "\<exists>r'. evaluate_with_cwd w pol access cwd = Some (Reject r')"
  using combine_reject [OF lexical_decisions]
  by (simp add: evaluate_with_cwd_def evaluate_with_cwd_details_def Let_def assms)

text \<open>A world in which \<open>/w/link\<close> is a link to \<open>/etc/key\<close>, and globs are exact paths.\<close>

definition link_world :: world where
  "link_world = sample_world
     \<lparr>w_glob_new := (\<lambda>_. True), w_glob_matches := (\<lambda>p s _. p = s),
      w_canonicalize := (\<lambda>p. if p = ''/w/link'' then Some ''/etc/key'' else None)\<rparr>"

definition key_rules :: "permission_rule list" where
  "key_rules =
     [\<lparr>pr_action = RuleAllow, pr_tool = ToolRead, pr_pattern = Some ''./link'',
       pr_pattern_mode = GlobMode\<rparr>,
      \<lparr>pr_action = RuleDeny, pr_tool = ToolRead, pr_pattern = Some ''/etc/key'',
       pr_pattern_mode = GlobMode\<rparr>]"

theorem denied_target_is_rejected_witness:
  "evaluate_lexical_with_cwd link_world (compile_policy link_world key_rules)
     (Read (Some ''link'')) (Some ''/w'') = Some Allow
   \<and> (\<exists>r'. evaluate_with_cwd link_world (compile_policy link_world key_rules)
             (Read (Some ''link'')) (Some ''/w'') = Some (Reject r'))"
proof
  show "evaluate_lexical_with_cwd link_world (compile_policy link_world key_rules)
     (Read (Some ''link'')) (Some ''/w'') = Some Allow" by code_simp
  show "\<exists>r'. evaluate_with_cwd link_world (compile_policy link_world key_rules)
             (Read (Some ''link'')) (Some ''/w'') = Some (Reject r')"
  proof (rule denied_target_is_rejected)
    show "native_file_path (Read (Some ''link'')) = Some ''link''" by code_simp
    show "raw_absolute_tool_path ''link'' (Some ''/w'') = Some ''/w/link''" by code_simp
    show "follow_absolute_symlink link_world ''/w/link''
        (path_match_string (absolute_normalized_path ''link'' (Some ''/w''))) = Target ''/etc/key''"
      by code_simp
    show "evaluate_lexical_with_cwd link_world (compile_policy link_world key_rules)
        (access_with_path (Read (Some ''link'')) ''/etc/key'') (Some ''/w'')
        = Some (Reject (deny_reason (key_rules ! 1)))"
      by code_simp
  qed
qed

end
