(* ===== verification/GB_ShellAccess.thy ===== *)
theory GB_ShellAccess
  imports GB_Policy
begin

section \<open>Files a shell command reads and writes (permission/shell_access.rs)\<close>

text \<open>
  The gate that keeps a \<open>Read\<close> or \<open>Edit\<close> rule from being evaded through a shell: the
  redirections and the commands of a script are read off its syntax tree, the paths they
  name are checked against the file rules, and whatever cannot be pinned down asks. Nodes are
  visited with the chain of their ancestors, which stands for \<open>Node::parent\<close> and
  \<open>Node::next_sibling\<close>; \<open>child_by_field_name\<close> needs the field table of the grammar and is
  the field \<open>w_child_by_field\<close> of \<open>world\<close>.
\<close>

datatype shell_file_mode = ModeRead | ModeWrite | ModeCreate

subsection \<open>Programs and words\<close>

definition READERS :: "string list" where
  "READERS =
     [''cat'', ''tac'', ''nl'', ''head'', ''tail'', ''grep'', ''egrep'', ''fgrep'', ''rg'',
      ''sed'', ''awk'', ''less'', ''more'', ''bat'', ''strings'', ''xxd'', ''od'', ''hexdump'',
      ''base64'', ''base32'', ''cut'', ''sort'', ''uniq'', ''wc'', ''type'', ''get-content'',
      ''gc'', ''diff'', ''comm'', ''rev'', ''jq'', ''yq'', ''select-string'', ''sls'', ''ag'',
      ''ack'', ''zcat'', ''zless'', ''zmore'', ''zgrep'', ''zegrep'', ''zfgrep'', ''bzcat'',
      ''bzgrep'', ''xzcat'', ''xzgrep'', ''zstdcat'', ''lz4cat'']"

definition WRITERS :: "string list" where
  "WRITERS =
     [''tee'', ''set-content'', ''out-file'', ''add-content'', ''tee-object'', ''truncate'']"

definition shell_file_mode_of :: "string \<Rightarrow> shell_file_mode option" where
  "shell_file_mode_of program =
     (if program \<in> set READERS then Some ModeRead
      else if program \<in> set WRITERS then Some ModeWrite
      else None)"

definition shell_program_name :: "string \<Rightarrow> string" where
  "shell_program_name word = basename word"

definition is_creation_program :: "string \<Rightarrow> bool" where
  "is_creation_program program \<longleftrightarrow> program \<in> {''mkdir'', ''touch''}"

definition is_safe_write_sink :: "string \<Rightarrow> bool" where
  "is_safe_write_sink p \<longleftrightarrow> p \<in> {''/dev/null'', ''/dev/stdout'', ''/dev/stderr''}"

text \<open>\<open>str::contains\<close> for a string.\<close>

definition contains_str :: "string \<Rightarrow> string \<Rightarrow> bool" where
  "contains_str s p = list_ex (\<lambda>t. starts_with t p) (suffixes s)"

subsection \<open>Nodes with their ancestors\<close>

type_synonym ancestry = "(node option \<times> node) list"

text \<open>
  One entry per ancestor, innermost first: the next sibling of the node below it, and the
  ancestor itself.
\<close>

fun dfs_up :: "ancestry \<Rightarrow> node \<Rightarrow> (node \<times> ancestry) list"
  and dfs_children :: "ancestry \<Rightarrow> node \<Rightarrow> node list \<Rightarrow> (node \<times> ancestry) list" where
  "dfs_up up (Node k nm s e cs) =
     (Node k nm s e cs, up) # dfs_children up (Node k nm s e cs) cs"
| "dfs_children up parent [] = []"
| "dfs_children up parent (c # cs) =
     dfs_children up parent cs @ dfs_up ((first_opt cs, parent) # up) c"

record execution_scope =
  es_start :: nat
  es_end :: nat

definition scope_contains :: "execution_scope \<Rightarrow> execution_scope \<Rightarrow> bool" where
  "scope_contains a b \<longleftrightarrow> es_start a \<le> es_start b \<and> es_end a \<ge> es_end b"

definition node_scope :: "node \<Rightarrow> execution_scope" where
  "node_scope n = \<lparr>es_start = nd_start n, es_end = nd_end n\<rparr>"

fun execution_scope_of :: "node \<Rightarrow> ancestry \<Rightarrow> execution_scope" where
  "execution_scope_of current [] = \<lparr>es_start = 0, es_end = USIZE_MAX\<rparr>"
| "execution_scope_of current ((sibling, parent) # up) =
     (if map_option nd_kind sibling = Some ''&'' then
        node_scope (if nd_kind current = ''list'' then current else parent)
      else if nd_kind parent \<in> {''subshell'', ''command_substitution'', ''process_substitution''}
        then node_scope parent
      else if nd_kind parent = ''pipeline'' then node_scope current
      else execution_scope_of parent up)"

record cwd_poison =
  po_at :: nat
  po_scope :: execution_scope

definition is_cwd_changer :: "string \<Rightarrow> bool" where
  "is_cwd_changer program \<longleftrightarrow> program \<in> {''cd'', ''pushd'', ''popd''}"

definition cwd_poison_at :: "world \<Rightarrow> string \<Rightarrow> node \<times> ancestry \<Rightarrow> cwd_poison option" where
  "cwd_poison_at w src = (\<lambda>(n, up).
     if nd_kind n = ''command''
        \<and> (case Option.bind (w_child_by_field w n ''name'') (utf8_text src) of
             None \<Rightarrow> False
           | Some program \<Rightarrow> is_cwd_changer (shell_program_name program))
     then Some \<lparr>po_at = nd_start n, po_scope = execution_scope_of n up\<rparr> else None)"

definition cwd_poison_positions :: "world \<Rightarrow> node \<Rightarrow> string \<Rightarrow> cwd_poison list" where
  "cwd_poison_positions w root src = List.map_filter (cwd_poison_at w src) (dfs_up [] root)"

definition script_has_cwd_change :: "world \<Rightarrow> node \<Rightarrow> string \<Rightarrow> bool" where
  "script_has_cwd_change w root src \<longleftrightarrow> cwd_poison_positions w root src \<noteq> []"

definition cwd_unpinned_before :: "cwd_poison list \<Rightarrow> nat \<Rightarrow> execution_scope \<Rightarrow> bool" where
  "cwd_unpinned_before positions pos scope =
     list_ex (\<lambda>p. po_at p < pos \<and> (po_scope p = scope \<or> scope_contains (po_scope p) scope))
       positions"

subsection \<open>The text of an argument\<close>

datatype arg_text = ArgLiteral string | ArgAmbiguous

definition EXPANSION_KINDS :: "string list" where
  "EXPANSION_KINDS =
     [''expansion'', ''simple_expansion'', ''command_substitution'', ''arithmetic_expansion'',
      ''process_substitution'']"

fun node_has_expansion :: "node \<Rightarrow> bool" where
  "node_has_expansion (Node k nm s e cs) =
     list_ex (\<lambda>c. nd_kind c \<in> set EXPANSION_KINDS \<or> node_has_expansion c) cs"

definition is_windows_path_like :: "string \<Rightarrow> bool" where
  "is_windows_path_like raw \<longleftrightarrow>
     starts_with raw [backslash, backslash]
     \<or> ((case first_opt raw of None \<Rightarrow> False | Some b \<Rightarrow> is_ascii_alpha b)
        \<and> nth_opt raw 1 = Some (CHR '':''))"

fun fold_backslashes :: "string \<Rightarrow> string option" where
  "fold_backslashes [] = Some []"
| "fold_backslashes (ch # s) =
     (if ch = backslash then
        (case s of [] \<Rightarrow> None | c # s' \<Rightarrow> map_option (Cons c) (fold_backslashes s'))
      else map_option (Cons ch) (fold_backslashes s))"

definition decode_unquoted_word :: "string \<Rightarrow> string option" where
  "decode_unquoted_word raw =
     (if \<not> contains_char raw backslash then Some raw
      else if is_windows_path_like raw then Some raw
      else fold_backslashes raw)"

fun fold_double_quoted :: "string \<Rightarrow> string option" where
  "fold_double_quoted [] = Some []"
| "fold_double_quoted (ch # s) =
     (if ch \<noteq> backslash then map_option (Cons ch) (fold_double_quoted s)
      else case s of
             [] \<Rightarrow> None
           | n # s' \<Rightarrow>
               if n \<in> {CHR ''$'', CHR 0x60, quote2, backslash, CHR 0x0A}
               then map_option (Cons n) (fold_double_quoted s')
               else map_option (\<lambda>out. backslash # n # out) (fold_double_quoted s'))"

definition decode_double_quoted_content :: "string \<Rightarrow> string option" where
  "decode_double_quoted_content content =
     (if \<not> contains_char content backslash then Some content else fold_double_quoted content)"

definition literal_or_ambiguous :: "string option \<Rightarrow> arg_text" where
  "literal_or_ambiguous t = (case t of Some l \<Rightarrow> ArgLiteral l | None \<Rightarrow> ArgAmbiguous)"

text \<open>\<open>raw.strip_prefix(q).and_then(|s| s.strip_suffix(q)).unwrap_or(raw)\<close>.\<close>

definition strip_quotes :: "char \<Rightarrow> string \<Rightarrow> string" where
  "strip_quotes q raw =
     (case Option.bind (strip_prefix raw [q]) (\<lambda>s. strip_suffix s [q]) of
        Some s \<Rightarrow> s | None \<Rightarrow> raw)"

definition shell_node_arg :: "string \<Rightarrow> node \<Rightarrow> arg_text option" where
  "shell_node_arg src n =
     (let kind = nd_kind n
      in if kind = ''variable_assignment'' then None
         else if kind = ''word'' \<or> kind = ''number'' then
           Some (literal_or_ambiguous (Option.bind (utf8_text src n) decode_unquoted_word))
         else if kind = ''raw_string'' then
           map_option (\<lambda>raw. ArgLiteral (strip_quotes quote1 raw)) (utf8_text src n)
         else if kind = ''string'' then
           (if node_has_expansion n then Some ArgAmbiguous
            else map_option
                   (\<lambda>raw. literal_or_ambiguous (decode_double_quoted_content (strip_quotes quote2 raw)))
                   (utf8_text src n))
         else if kind = ''concatenation'' then
           (if node_has_expansion n then Some ArgAmbiguous
            else Some (literal_or_ambiguous
                   (Option.bind (utf8_text src n) decode_shell_literal_spelling)))
         else Some ArgAmbiguous)"

subsection \<open>Commands\<close>

text \<open>
  The words of a command: \<open>InvocationWord\<close> has the constructors of \<open>ShellWord\<close> and is
  modelled by the same type, so that \<open>shell_words()\<close> is the identity.
\<close>

record shell_invocation =
  si_start_byte :: nat
  si_scope :: execution_scope
  si_words :: "shell_word list"
  si_wrapper_words :: "string list"

definition invocation_word :: "string \<Rightarrow> node \<Rightarrow> shell_word option" where
  "invocation_word src child =
     map_option (\<lambda>a. case a of ArgLiteral word \<Rightarrow> Literal word | ArgAmbiguous \<Rightarrow> Untrusted)
       (if nd_kind child = ''command_name''
        then Option.bind (first_opt (named_children child)) (shell_node_arg src)
        else shell_node_arg src child)"

definition wrapper_word :: "shell_word \<Rightarrow> string" where
  "wrapper_word word = (case word of Literal v \<Rightarrow> v | Untrusted \<Rightarrow> nul)"

definition shell_invocation_at :: "string \<Rightarrow> node \<times> ancestry \<Rightarrow> shell_invocation" where
  "shell_invocation_at src = (\<lambda>(n, up).
     let ws = List.map_filter (invocation_word src) (named_children n)
     in \<lparr>si_start_byte = nd_start n, si_scope = execution_scope_of n up,
         si_words = ws, si_wrapper_words = map wrapper_word ws\<rparr>)"

definition shell_command_invocations :: "node \<Rightarrow> string \<Rightarrow> shell_invocation list" where
  "shell_command_invocations root src =
     sort_key si_start_byte
       (map (shell_invocation_at src)
         (filter (\<lambda>(n, up). nd_kind n = ''command'') (dfs_up [] root)))"

definition literal_words :: "shell_word list \<Rightarrow> string list" where
  "literal_words ws =
     List.map_filter (\<lambda>word. case word of Literal v \<Rightarrow> Some v | Untrusted \<Rightarrow> None) ws"

record checked_invocation_peel =
  ip_words :: "shell_word list"
  ip_has_chdir :: bool
  ip_has_split_string :: bool
  ip_env_options_uncertain :: bool
  ip_exhausted :: bool
  ip_transparent_ambiguous :: bool

text \<open>The word lists stay aligned: what is peeled is a prefix, and its length is dropped.\<close>

definition unwrap_invocation_checked :: "shell_invocation \<Rightarrow> checked_invocation_peel" where
  "unwrap_invocation_checked iv =
     (let norm = normalize_command_words (si_wrapper_words iv);
          peeled_count = length (si_wrapper_words iv) - length (nc_words norm)
      in \<lparr>ip_words = drop peeled_count (si_words iv),
          ip_has_chdir = nc_has_chdir norm,
          ip_has_split_string = nc_has_split_string norm,
          ip_env_options_uncertain = nc_env_options_uncertain norm,
          ip_exhausted = nc_exhausted norm,
          ip_transparent_ambiguous = nc_ambiguous norm\<rparr>)"

definition words_are_opaque_shell :: "shell_word list \<Rightarrow> bool" where
  "words_are_opaque_shell ws \<longleftrightarrow>
     is_potential_inline (shell_dash_c_script ws)
     \<or> (case first_opt ws of
          Some (Literal program) \<Rightarrow> shell_program_name program = ''eval''
        | _ \<Rightarrow> False)"

definition tree_has_opaque_shell :: "node \<Rightarrow> string \<Rightarrow> bool" where
  "tree_has_opaque_shell root src =
     list_ex (\<lambda>i. words_are_opaque_shell (ip_words (unwrap_invocation_checked i)))
       (shell_command_invocations root src)"

subsection \<open>Redirections\<close>

record shell_redirect_target =
  rt_path :: "string option"
  rt_mode :: shell_file_mode
  rt_ambiguous :: bool
  rt_start_byte :: nat
  rt_scope :: execution_scope

definition shell_arg_is_ambiguous :: "string \<Rightarrow> bool" where
  "shell_arg_is_ambiguous token \<longleftrightarrow>
     contains_char token (CHR ''*'') \<or> contains_char token (CHR ''?'')
     \<or> contains_char token (CHR ''['')"

text \<open>The operator, \<open>None\<close> also for a here-document or here-string.\<close>

fun redirect_operator :: "node list \<Rightarrow> string option" where
  "redirect_operator [] = None"
| "redirect_operator (c # cs) =
     (if contains_str (nd_kind c) ''<<'' then None
      else if contains_char (nd_kind c) (CHR ''>'') \<or> contains_char (nd_kind c) (CHR ''<'')
        then Some (nd_kind c)
      else redirect_operator cs)"

definition redirect_destination ::
  "string \<Rightarrow> shell_file_mode \<Rightarrow> arg_text \<Rightarrow> (string option \<times> shell_file_mode \<times> bool) option" where
  "redirect_destination redirect mode dest =
     (case dest of
        ArgLiteral s \<Rightarrow>
          if s = [] \<or> starts_with s ''&''
             \<or> (redirect \<in> {''>&'', ''<&''} \<and> (s = ''-'' \<or> list_all is_ascii_digit s))
          then None
          else Some (Some s, mode, shell_arg_is_ambiguous s)
      | ArgAmbiguous \<Rightarrow> Some (None, mode, True))"

definition shell_redirect_one ::
  "world \<Rightarrow> node \<Rightarrow> string \<Rightarrow> (string option \<times> shell_file_mode \<times> bool) option" where
  "shell_redirect_one w n src =
     (case redirect_operator (nd_children n) of
        None \<Rightarrow> None
      | Some redirect \<Rightarrow>
          let mode = (if contains_char redirect (CHR ''>'') then ModeWrite else ModeRead)
          in case Option.bind (w_child_by_field w n ''destination'') (shell_node_arg src) of
               None \<Rightarrow> None
             | Some dest \<Rightarrow> redirect_destination redirect mode dest)"

definition redirect_target_at :: "world \<Rightarrow> string \<Rightarrow> node \<times> ancestry \<Rightarrow> shell_redirect_target option" where
  "redirect_target_at w src = (\<lambda>(n, up).
     if nd_kind n = ''file_redirect'' then
       map_option
         (\<lambda>(p, mode, ambiguous).
            \<lparr>rt_path = p, rt_mode = mode, rt_ambiguous = ambiguous,
             rt_start_byte = nd_start n, rt_scope = execution_scope_of n up\<rparr>)
         (shell_redirect_one w n src)
     else None)"

definition shell_redirect_targets :: "world \<Rightarrow> node \<Rightarrow> string \<Rightarrow> shell_redirect_target list" where
  "shell_redirect_targets w root src = List.map_filter (redirect_target_at w src) (dfs_up [] root)"

subsection \<open>Operands\<close>

definition shell_sed_in_place :: "string list \<Rightarrow> bool" where
  "shell_sed_in_place ws =
     list_ex (\<lambda>word. word = ''--in-place'' \<or> starts_with word ''--in-place=''
                \<or> (starts_with word ''-'' \<and> \<not> starts_with word ''--''
                   \<and> contains_char word (CHR ''i'')))
       (drop 1 ws)"

definition or_else :: "'a option \<Rightarrow> 'a option \<Rightarrow> 'a option" where
  "or_else a b = (case a of Some x \<Rightarrow> Some x | None \<Rightarrow> b)"

definition glued_value :: "string \<Rightarrow> string \<Rightarrow> string option" where
  "glued_value token flag =
     Option.bind (strip_prefix token flag) (\<lambda>v. if v \<noteq> [] then Some v else None)"

definition output_flag_value :: "string list \<Rightarrow> nat \<Rightarrow> string \<Rightarrow> string option" where
  "output_flag_value ws i token =
     or_else (strip_prefix token ''--output='')
       (or_else (glued_value token ''-o'')
         (if token = ''--output'' \<or> token = ''-o'' then nth_opt ws (i + 1) else None))"

definition shell_output_flag_values :: "string list \<Rightarrow> string list" where
  "shell_output_flag_values ws =
     List.map_filter (\<lambda>(i, token). output_flag_value ws i token) (List.enumerate 0 ws)"

definition value_flag_values :: "string list \<Rightarrow> string \<Rightarrow> string list" where
  "value_flag_values ws flag =
     List.map_filter
       (\<lambda>(i, token).
          case strip_prefix token (flag @ ''='') of
            Some v \<Rightarrow> Some v
          | None \<Rightarrow>
              if token = flag then nth_opt ws (i + 1)
              else if \<not> starts_with flag ''--'' then glued_value token flag
              else None)
       (List.enumerate 0 ws)"

fun file_candidates_loop :: "string list \<Rightarrow> bool \<Rightarrow> string list" where
  "file_candidates_loop [] end_of_options = []"
| "file_candidates_loop (token # ts) end_of_options =
     (if \<not> end_of_options \<and> token = ''--'' then file_candidates_loop ts True
      else if end_of_options \<or> \<not> starts_with token ''-''
        then token # file_candidates_loop ts end_of_options
      else file_candidates_loop ts end_of_options)"

definition shell_file_candidates :: "string list \<Rightarrow> string list" where
  "shell_file_candidates ws = file_candidates_loop (drop 1 ws) False"

definition dd_operand :: "string \<Rightarrow> (string \<times> shell_file_mode) option" where
  "dd_operand token =
     or_else (map_option (\<lambda>p. (p, ModeRead)) (strip_prefix token ''if=''))
       (map_option (\<lambda>p. (p, ModeWrite)) (strip_prefix token ''of=''))"

definition special_file_operands :: "string \<Rightarrow> string list \<Rightarrow> (string \<times> shell_file_mode) list" where
  "special_file_operands program ws =
     (if program = ''dd'' then List.map_filter dd_operand (drop 1 ws)
      else if program \<in> {''sort'', ''go'', ''git''} then
        map (\<lambda>p. (p, ModeWrite)) (shell_output_flag_values ws)
      else if program = ''rustc'' then
        map (\<lambda>p. (p, ModeWrite)) (shell_output_flag_values ws @ value_flag_values ws ''--out-dir'')
      else if program = ''rustfmt'' then
        map (\<lambda>p. (p, ModeWrite)) (shell_file_candidates ws)
      else [])"

definition shell_access :: "shell_file_mode \<Rightarrow> string \<Rightarrow> access_kind" where
  "shell_access mode p = (case mode of ModeRead \<Rightarrow> Read (Some p) | _ \<Rightarrow> Edit p)"

definition shell_path_command_operands ::
  "string \<Rightarrow> string list \<Rightarrow> (string \<times> shell_file_mode) list option" where
  "shell_path_command_operands program ws =
     (let operands = shell_file_candidates ws
      in if program \<in> {''cp'', ''mv'', ''ln'', ''install''} then
           (if operands = [] then None
            else Some (map (\<lambda>s. (s, ModeRead)) (butlast operands) @ [(last operands, ModeWrite)]))
         else if program \<in> {''rm'', ''rmdir''} then Some (map (\<lambda>c. (c, ModeWrite)) operands)
         else if is_creation_program program then Some (map (\<lambda>c. (c, ModeCreate)) operands)
         else if program = ''uniq'' then
           (case operands of
              input # output # _ \<Rightarrow> Some [(input, ModeRead), (output, ModeWrite)]
            | _ \<Rightarrow> None)
         else None)"

definition is_directory_operand :: "string \<Rightarrow> bool" where
  "is_directory_operand token \<longleftrightarrow> token = ''.'' \<or> token = ''..'' \<or> ends_with token ''/''"

definition shell_reader_can_recurse :: "string \<Rightarrow> string list \<Rightarrow> string list \<Rightarrow> bool" where
  "shell_reader_can_recurse program ws candidates \<longleftrightarrow>
     (program \<in> {''grep'', ''egrep'', ''fgrep''}
      \<and> list_ex (\<lambda>word. word = ''--recursive'' \<or> word = ''--dereference-recursive''
                   \<or> (starts_with word ''-'' \<and> \<not> starts_with word ''--''
                      \<and> (contains_char word (CHR ''r'') \<or> contains_char word (CHR ''R'')))) ws)
     \<or> (program \<in> {''rg'', ''ag'', ''ack''}
        \<and> (length candidates \<le> 1 \<or> list_ex is_directory_operand (drop 1 candidates)))"

subsection \<open>Path spellings\<close>

definition has_drive_colon :: "string \<Rightarrow> bool" where
  "has_drive_colon p \<longleftrightarrow> nth_opt p 1 = Some (CHR '':'')"

definition is_absolute_shell_path :: "string \<Rightarrow> bool" where
  "is_absolute_shell_path p \<longleftrightarrow>
     starts_with p ''/'' \<or> starts_with p ''~/'' \<or> has_drive_colon p"

definition is_quote :: "char \<Rightarrow> bool" where
  "is_quote c \<longleftrightarrow> c = quote2 \<or> c = quote1"

definition normalize_shell_path_raw :: "string \<Rightarrow> string" where
  "normalize_shell_path_raw p0 =
     (let p = path_match_string (rev (dropWhile is_quote (rev (dropWhile is_quote p0))))
      in case strip_prefix p ''/c/'' of Some rest \<Rightarrow> ''C:/'' @ rest | None \<Rightarrow> p)"

text \<open>The segment loop; the accumulator holds the kept segments, last first.\<close>

definition collapse_segment :: "bool \<Rightarrow> string list \<Rightarrow> string \<Rightarrow> string list" where
  "collapse_segment absolute out segment =
     (if segment = [] \<or> segment = ''.'' then out
      else if segment = ''..'' then
        (case out of
           s # out' \<Rightarrow> if s \<noteq> ''..'' then out' else if \<not> absolute then ''..'' # out else out
         | [] \<Rightarrow> if \<not> absolute then [''..''] else [])
      else segment # out)"

definition collapse_segments :: "bool \<Rightarrow> string list \<Rightarrow> string list" where
  "collapse_segments absolute segs = foldl (collapse_segment absolute) [] segs"

definition lexical_normalize :: "string \<Rightarrow> string" where
  "lexical_normalize p =
     (let prefix_len = (if has_drive_colon p then 2 else 0);
          pre = take prefix_len p; rest = drop prefix_len p;
          absolute = starts_with rest ''/'';
          body = join_with ''/'' (rev (collapse_segments absolute (split_char slash rest)))
      in if pre \<noteq> [] \<and> absolute \<and> body \<noteq> [] then pre @ ''/'' @ body
         else if pre \<noteq> [] \<and> absolute then pre @ ''/''
         else if pre \<noteq> [] then pre @ body
         else if absolute \<and> body \<noteq> [] then ''/'' @ body
         else if absolute then ''/''
         else body)"

definition normalize_shell_path :: "string \<Rightarrow> string" where
  "normalize_shell_path p = lexical_normalize (normalize_shell_path_raw p)"

subsection \<open>The gate\<close>

text \<open>A file rule can only escalate here; an allow does not count.\<close>

definition escalate_access ::
  "world \<Rightarrow> compiled_policy \<Rightarrow> path option \<Rightarrow> access_kind \<Rightarrow> gate_decision option" where
  "escalate_access w pol rule_cwd access =
     (case evaluate_lexical_with_cwd w pol access rule_cwd of
        Some (Reject reason) \<Rightarrow> Some (GateReject reason)
      | Some Ask \<Rightarrow> Some AskRuleMatch
      | _ \<Rightarrow> None)"

definition absolute_spelling :: "path \<Rightarrow> string \<Rightarrow> string" where
  "absolute_spelling cwd p =
     (if is_absolute_shell_path p then p else normalize_shell_path (path_push cwd p))"

definition raw_absolute_spelling :: "path \<Rightarrow> string \<Rightarrow> bool \<Rightarrow> string option" where
  "raw_absolute_spelling cwd raw cwd_unpinned =
     (if is_absolute_shell_path raw then Some raw
      else if cwd_unpinned then None
      else Some (normalize_shell_path_raw (path_push cwd raw)))"

definition resolved_target_decision ::
  "world \<Rightarrow> compiled_policy \<Rightarrow> path option \<Rightarrow> shell_file_mode \<Rightarrow> symlink_follow \<Rightarrow> gate_decision option"
where
  "resolved_target_decision w pol rule_cwd mode follow =
     (case follow of
        Target resolved \<Rightarrow> escalate_access w pol rule_cwd (shell_access mode resolved)
      | Unresolvable \<Rightarrow> Some AskFailClosed
      | NoLink \<Rightarrow> None)"

definition evaluate_shell_path ::
  "world \<Rightarrow> compiled_policy \<Rightarrow> path \<Rightarrow> string \<Rightarrow> shell_file_mode \<Rightarrow> bool \<Rightarrow> gate_decision option" where
  "evaluate_shell_path w pol cwd token mode cwd_unpinned =
     (let p = normalize_shell_path token;
          is_abs = is_absolute_shell_path p;
          rule_cwd = (if is_abs \<or> \<not> cwd_unpinned then Some cwd else None);
          resolved_decision =
            (case raw_absolute_spelling cwd (normalize_shell_path_raw token) cwd_unpinned of
               None \<Rightarrow> None
             | Some raw_absolute \<Rightarrow>
                 resolved_target_decision w pol rule_cwd mode
                   (follow_absolute_symlink w raw_absolute (absolute_spelling cwd p)));
          path_decision = escalate_access w pol rule_cwd (shell_access mode p);
          anchored_decision =
            (if cwd_unpinned \<and> \<not> is_abs then None
             else combine_gate_decisions
                    (escalate_access w pol rule_cwd (shell_access mode (absolute_spelling cwd p)))
                    resolved_decision)
      in combine_gate_decisions (combine_gate_decisions path_decision anchored_decision)
           (if cwd_unpinned \<and> \<not> is_abs then Some AskFailClosed else None))"

text \<open>The two variables the loops carry: the decision and the forced ask.\<close>

type_synonym gate_acc = "gate_decision option \<times> bool"

definition check_operand ::
  "world \<Rightarrow> compiled_policy \<Rightarrow> path \<Rightarrow> bool \<Rightarrow> gate_acc \<Rightarrow> string \<times> shell_file_mode \<Rightarrow> gate_acc" where
  "check_operand w pol cwd unpinned acc operand =
     (combine_gate_decisions (fst acc)
        (evaluate_shell_path w pol cwd (fst operand) (snd operand) unpinned),
      snd acc \<or> shell_arg_is_ambiguous (fst operand))"

definition check_redirect ::
  "world \<Rightarrow> compiled_policy \<Rightarrow> path \<Rightarrow> bool \<Rightarrow> cwd_poison list \<Rightarrow> gate_acc \<Rightarrow> shell_redirect_target
   \<Rightarrow> gate_acc" where
  "check_redirect w pol cwd cwd_unpinned cwd_changes acc redirect =
     (case rt_path redirect of
        None \<Rightarrow> fst acc
      | Some p \<Rightarrow>
          combine_gate_decisions (fst acc)
            (evaluate_shell_path w pol cwd p (rt_mode redirect)
               (cwd_unpinned
                \<or> cwd_unpinned_before cwd_changes (rt_start_byte redirect) (rt_scope redirect))),
      snd acc \<or> rt_ambiguous redirect)"

definition operand_modes :: "string \<Rightarrow> string list \<Rightarrow> shell_file_mode list option" where
  "operand_modes program lits =
     (case shell_file_mode_of program of
        None \<Rightarrow> None
      | Some m \<Rightarrow>
          if program = ''sed'' \<and> shell_sed_in_place lits then Some [ModeRead, ModeWrite]
          else case m of
                 ModeRead \<Rightarrow> Some [ModeRead]
               | ModeWrite \<Rightarrow> Some [ModeWrite]
               | ModeCreate \<Rightarrow> None)"

definition check_program_operands ::
  "world \<Rightarrow> compiled_policy \<Rightarrow> path \<Rightarrow> bool \<Rightarrow> bool \<Rightarrow> bool \<Rightarrow> string \<Rightarrow> string list \<Rightarrow> gate_acc \<Rightarrow> gate_acc"
where
  "check_program_operands w pol cwd unpinned has_ambiguous_word parse_failed program lits acc =
     (if is_cwd_changer program then acc
      else let candidates = shell_file_candidates lits;
               path_operands = shell_path_command_operands program lits;
               is_known = (program = ''dd'' \<or> shell_file_mode_of program \<noteq> None
                           \<or> path_operands \<noteq> None);
               check = foldl (check_operand w pol cwd unpinned);
               acc1 = (fst acc,
                       snd acc \<or> (is_known \<and> (unpinned \<or> has_ambiguous_word \<or> parse_failed)));
               acc2 = check acc1 (special_file_operands program lits)
           in if program = ''dd'' then acc2
              else case path_operands of
                     Some operands \<Rightarrow> check acc2 operands
                   | None \<Rightarrow>
                       (case operand_modes program lits of
                          None \<Rightarrow> acc2
                        | Some modes \<Rightarrow>
                            let acc3 = check acc2 (List.product candidates modes)
                            in (fst acc3,
                                snd acc3 \<or> shell_reader_can_recurse program lits candidates)))"

text \<open>
  The inline script of a command. \<open>nested\<close> is the recursive call with one level less, absent
  when the depth is used up; it gets the flag of the working directory too.
\<close>

definition check_inline ::
  "(string \<Rightarrow> bool \<Rightarrow> gate_decision option) option \<Rightarrow> bool \<Rightarrow> bool \<Rightarrow> shell_word list \<Rightarrow> gate_acc
   \<Rightarrow> gate_acc" where
  "check_inline nested unpinned parse_failed ws acc =
     (let inline_script = shell_dash_c_script ws;
          forced = (snd acc \<or> (parse_failed \<and> inline_script \<noteq> NotInline))
      in case inline_script of
           InlineLiteral index \<Rightarrow>
             (case nested of
                None \<Rightarrow> (fst acc, True)
              | Some f \<Rightarrow>
                  (case ws ! index of
                     Literal inner \<Rightarrow> (combine_gate_decisions (fst acc) (f inner unpinned), forced)
                   | Untrusted \<Rightarrow> (fst acc, forced)))
         | InlineUntrusted \<Rightarrow> (fst acc, True)
         | InlineUnrecognized \<Rightarrow> (fst acc, True)
         | NotInline \<Rightarrow> (fst acc, forced))"

definition invocation_unpinned :: "bool \<Rightarrow> cwd_poison list \<Rightarrow> shell_invocation \<Rightarrow> bool" where
  "invocation_unpinned cwd_unpinned cwd_changes iv \<longleftrightarrow>
     cwd_unpinned \<or> cwd_unpinned_before cwd_changes (si_start_byte iv) (si_scope iv)
     \<or> ip_has_chdir (unwrap_invocation_checked iv)"

definition check_invocation ::
  "world \<Rightarrow> compiled_policy \<Rightarrow> (string \<Rightarrow> bool \<Rightarrow> gate_decision option) option \<Rightarrow> path \<Rightarrow> bool
   \<Rightarrow> cwd_poison list \<Rightarrow> bool \<Rightarrow> gate_acc \<Rightarrow> shell_invocation \<Rightarrow> gate_acc" where
  "check_invocation w pol nested cwd cwd_unpinned cwd_changes parse_failed acc iv =
     (let peeled = unwrap_invocation_checked iv;
          ws = ip_words peeled;
          unpinned = invocation_unpinned cwd_unpinned cwd_changes iv;
          acc1 = (fst acc,
                  snd acc \<or> ip_exhausted peeled \<or> ip_has_split_string peeled
                  \<or> ip_env_options_uncertain peeled \<or> ip_transparent_ambiguous peeled);
          acc2 = check_inline nested unpinned parse_failed ws acc1
      in case first_opt ws of
           Some (Literal program) \<Rightarrow>
             check_program_operands w pol cwd unpinned (Untrusted \<in> set ws) parse_failed
               (ascii_lower (shell_program_name program)) (literal_words ws) acc2
         | _ \<Rightarrow> acc2)"

definition shell_file_access_with ::
  "world \<Rightarrow> compiled_policy \<Rightarrow> (string \<Rightarrow> bool \<Rightarrow> gate_decision option) option \<Rightarrow> string \<Rightarrow> path \<Rightarrow> bool
   \<Rightarrow> bool \<Rightarrow> gate_decision option" where
  "shell_file_access_with w pol nested cmd cwd cwd_unpinned entered_inline =
     (case w_parse w cmd of
        None \<Rightarrow> if entered_inline then Some AskFailClosed else None
      | Some tree \<Rightarrow>
          let root = tr_root tree;
              parse_failed = tr_has_error tree;
              cwd_changes = cwd_poison_positions w root cmd;
              acc1 = foldl (check_redirect w pol cwd cwd_unpinned cwd_changes)
                       (None, entered_inline \<and> parse_failed) (shell_redirect_targets w root cmd);
              acc2 = foldl (check_invocation w pol nested cwd cwd_unpinned cwd_changes parse_failed)
                       acc1 (shell_command_invocations root cmd)
          in combine_gate_decisions (fst acc2) (if snd acc2 then Some AskFailClosed else None))"

fun evaluate_shell_file_access_inner ::
  "world \<Rightarrow> compiled_policy \<Rightarrow> path \<Rightarrow> nat \<Rightarrow> string \<Rightarrow> bool \<Rightarrow> bool \<Rightarrow> gate_decision option" where
  "evaluate_shell_file_access_inner w pol cwd 0 cmd cwd_unpinned entered_inline =
     shell_file_access_with w pol None cmd cwd cwd_unpinned entered_inline"
| "evaluate_shell_file_access_inner w pol cwd (Suc n) cmd cwd_unpinned entered_inline =
     shell_file_access_with w pol
       (Some (\<lambda>inner unpinned. evaluate_shell_file_access_inner w pol cwd n inner unpinned True))
       cmd cwd cwd_unpinned entered_inline"

definition evaluate_shell_file_access_gate ::
  "world \<Rightarrow> compiled_policy \<Rightarrow> string \<Rightarrow> path \<Rightarrow> gate_decision option" where
  "evaluate_shell_file_access_gate w pol cmd cwd =
     (if \<not> cp_has_file_restrictions pol then None
      else evaluate_shell_file_access_inner w pol cwd MAX_INLINE_SHELL_DEPTH cmd False False)"

definition evaluate_shell_file_access ::
  "world \<Rightarrow> compiled_policy \<Rightarrow> string \<Rightarrow> path \<Rightarrow> decision option" where
  "evaluate_shell_file_access w pol cmd cwd =
     map_option into_decision (evaluate_shell_file_access_gate w pol cmd cwd)"

subsection \<open>Written paths\<close>

definition write_paths :: "(string \<times> shell_file_mode) list \<Rightarrow> string list" where
  "write_paths operands = map fst (filter (\<lambda>(p, mode). mode = ModeWrite) operands)"

definition command_words_write_paths :: "string list \<Rightarrow> string list" where
  "command_words_write_paths ws =
     (let inner = unwrap_wrappers ws
      in case first_opt inner of
           None \<Rightarrow> []
         | Some word \<Rightarrow>
             let program = ascii_lower (shell_program_name word);
                 out = write_paths (special_file_operands program inner)
             in case shell_path_command_operands program inner of
                  Some operands \<Rightarrow> out @ write_paths operands
                | None \<Rightarrow>
                    if shell_file_mode_of program = Some ModeWrite
                       \<or> (program = ''sed'' \<and> shell_sed_in_place inner)
                    then out @ shell_file_candidates inner
                    else out)"

definition command_words_creation_paths :: "string list \<Rightarrow> string list" where
  "command_words_creation_paths ws =
     (let inner = unwrap_wrappers ws
      in case first_opt inner of
           None \<Rightarrow> []
         | Some word \<Rightarrow>
             (case shell_path_command_operands (ascii_lower (shell_program_name word)) inner of
                None \<Rightarrow> []
              | Some operands \<Rightarrow> map fst (filter (\<lambda>(p, mode). mode = ModeCreate) operands)))"

record write_paths_split =
  wp_redirect_paths :: "string list"
  wp_unextracted_write_redirect :: bool
  wp_word_paths :: "string list"
  wp_creation_paths :: "string list"

definition command_write_paths_split :: "world \<Rightarrow> node \<Rightarrow> string \<Rightarrow> write_paths_split" where
  "command_write_paths_split w root src =
     (let writes = filter (\<lambda>r. rt_mode r = ModeWrite) (shell_redirect_targets w root src);
          commands = map (\<lambda>iv. literal_words (si_words iv)) (shell_command_invocations root src)
      in \<lparr>wp_redirect_paths = List.map_filter rt_path writes,
          wp_unextracted_write_redirect = list_ex (\<lambda>r. rt_path r = None) writes,
          wp_word_paths = concat (map command_words_write_paths commands),
          wp_creation_paths = concat (map command_words_creation_paths commands)\<rparr>)"

definition command_write_paths_in_tree :: "world \<Rightarrow> node \<Rightarrow> string \<Rightarrow> string list" where
  "command_write_paths_in_tree w root src =
     (let split = command_write_paths_split w root src
      in wp_redirect_paths split @ wp_word_paths split)"

subsection \<open>Protected edit targets\<close>

datatype protected_edit_reason =
    HookRoot | GitHooks | Ssh | StartupFile | Etc | GrokConfig | GrokSandbox | ClaudeSettings
  | CursorHooks | Sensitive

fun reason_kind :: "protected_edit_reason \<Rightarrow> string" where
  "reason_kind HookRoot = ''hook_root''"
| "reason_kind GitHooks = ''git_hooks''"
| "reason_kind Ssh = ''ssh''"
| "reason_kind StartupFile = ''startup_file''"
| "reason_kind Etc = ''etc''"
| "reason_kind GrokConfig = ''grok_config''"
| "reason_kind GrokSandbox = ''grok_sandbox''"
| "reason_kind ClaudeSettings = ''claude_settings''"
| "reason_kind CursorHooks = ''cursor_hooks''"
| "reason_kind Sensitive = ''sensitive''"

definition STARTUP_FILES :: "string list" where
  "STARTUP_FILES =
     [''.bashrc'', ''.bash_profile'', ''.bash_login'', ''.bash_logout'', ''.profile'', ''.zshrc'',
      ''.zshenv'', ''.zprofile'', ''.zlogin'', ''.zlogout'', ''.kshrc'', ''.cshrc'', ''.tcshrc'',
      ''.login'', ''.logout'', ''.inputrc'', ''.xprofile'']"

text \<open>\<open>Path\<close> comparisons are comparisons of components.\<close>

definition path_eq :: "path \<Rightarrow> path \<Rightarrow> bool" where
  "path_eq p q \<longleftrightarrow> components p = components q"

definition path_starts_with :: "path \<Rightarrow> path \<Rightarrow> bool" where
  "path_starts_with p q \<longleftrightarrow> prefix (components q) (components p)"

text \<open>\<open>components.windows(2).any(|pair| pair == [a, b])\<close>.\<close>

definition has_pair :: "'a list \<Rightarrow> 'a \<Rightarrow> 'a \<Rightarrow> bool" where
  "has_pair xs a b \<longleftrightarrow> (a, b) \<in> set (zip xs (drop 1 xs))"

text \<open>
  The home directory in its lexical and, when it resolves, its physical form; the predicate
  is tried on both.
\<close>

definition grok_home_matches :: "world \<Rightarrow> path option \<Rightarrow> (path \<Rightarrow> bool) \<Rightarrow> bool" where
  "grok_home_matches w home pred =
     (case home of
        None \<Rightarrow> False
      | Some h \<Rightarrow>
          let lexical = normalize_lexically h
          in pred lexical
             \<or> (case resolve_following_symlinks w lexical of
                  None \<Rightarrow> False | Some resolved \<Rightarrow> pred resolved))"

definition path_is_under_user_grok_hook_root :: "path \<Rightarrow> path \<Rightarrow> bool" where
  "path_is_under_user_grok_hook_root p grok_home \<longleftrightarrow>
     path_starts_with p (path_push grok_home ''hooks'')
     \<or> path_eq p (path_push grok_home ''hooks-paths'')"

definition protected_grok_hook_root :: "world \<Rightarrow> path \<Rightarrow> string list \<Rightarrow> bool" where
  "protected_grok_hook_root w p cs \<longleftrightarrow>
     has_pair cs ''.grok'' ''hooks''
     \<or> suffix [''.grok'', ''hooks-paths''] cs
     \<or> grok_home_matches w (w_user_grok_home w) (path_is_under_user_grok_hook_root p)"

definition protected_git_hooks_path :: "string list \<Rightarrow> bool" where
  "protected_git_hooks_path cs \<longleftrightarrow>
     has_pair cs ''.git'' ''hooks''
     \<or> list_ex (\<lambda>tail. case tail of
                        a # b # rest \<Rightarrow>
                          a = ''.git'' \<and> b = ''modules'' \<and> ''hooks'' \<in> set (drop 1 rest)
                      | _ \<Rightarrow> False)
         (suffixes cs)"

definition USER_CONFIG_FILENAME :: string where
  "USER_CONFIG_FILENAME = ''config.toml''"

definition MANAGED_CONFIG_FILENAME :: string where
  "MANAGED_CONFIG_FILENAME = ''managed_config.toml''"

definition REQUIREMENTS_FILENAME :: string where
  "REQUIREMENTS_FILENAME = ''requirements.toml''"

definition SANDBOX_CONFIG_FILENAME :: string where
  "SANDBOX_CONFIG_FILENAME = ''sandbox.toml''"

definition grok_config_reason :: "string list \<Rightarrow> protected_edit_reason option" where
  "grok_config_reason cs =
     (if cs = [] then None
      else if last cs \<in> {USER_CONFIG_FILENAME, MANAGED_CONFIG_FILENAME, REQUIREMENTS_FILENAME}
        then Some GrokConfig
      else if last cs = SANDBOX_CONFIG_FILENAME then Some GrokSandbox
      else None)"

definition protected_grok_config_file_with_home ::
  "world \<Rightarrow> path \<Rightarrow> string list \<Rightarrow> path option \<Rightarrow> protected_edit_reason option" where
  "protected_grok_config_file_with_home w p cs user_grok_home =
     (case grok_config_reason cs of
        None \<Rightarrow> None
      | Some reason \<Rightarrow>
          let in_dot_grok = (length cs \<ge> 2 \<and> cs ! (length cs - 2) = ''.grok'');
              in_grok_home =
                grok_home_matches w user_grok_home
                  (\<lambda>home. map_option components (path_parent p) = Some (components home))
          in if in_dot_grok \<or> in_grok_home then Some reason else None)"

definition protected_grok_config_file ::
  "world \<Rightarrow> path \<Rightarrow> string list \<Rightarrow> protected_edit_reason option" where
  "protected_grok_config_file w p cs =
     protected_grok_config_file_with_home w p cs (w_user_grok_home w)"

definition normal_names :: "path \<Rightarrow> string list" where
  "normal_names p =
     List.map_filter (\<lambda>c. case c of Normal part \<Rightarrow> Some (ascii_lower part) | _ \<Rightarrow> None)
       (components p)"

definition protected_edit_reason_of :: "world \<Rightarrow> path \<Rightarrow> protected_edit_reason option" where
  "protected_edit_reason_of w p =
     (let cs = normal_names p;
          file = (if cs = [] then [] else last cs)
      in if protected_grok_hook_root w p cs then Some HookRoot
         else if suffix [''.claude'', ''settings.json''] cs
                 \<or> suffix [''.claude'', ''settings.local.json''] cs then Some ClaudeSettings
         else if suffix [''.cursor'', ''hooks.json''] cs then Some CursorHooks
         else if protected_git_hooks_path cs then Some GitHooks
         else if ''.ssh'' \<in> set cs then Some Ssh
         else if file \<in> set STARTUP_FILES then Some StartupFile
         else case protected_grok_config_file w p cs of
                Some reason \<Rightarrow> Some reason
              | None \<Rightarrow>
                  if path_eq p ''/etc'' \<or> path_starts_with p ''/etc'' then Some Etc else None)"

definition resolved_path_is_within_root :: "world \<Rightarrow> path \<Rightarrow> path \<Rightarrow> bool" where
  "resolved_path_is_within_root w resolved_path root =
     (case resolve_following_symlinks w root of
        Some resolved_root \<Rightarrow> path_starts_with resolved_path resolved_root
      | None \<Rightarrow> True)"

definition edit_target_protection :: "world \<Rightarrow> path \<Rightarrow> protected_edit_reason option" where
  "edit_target_protection w p =
     (if \<not> is_absolute p then Some Sensitive
      else case protected_edit_reason_of w (normalize_lexically p) of
             Some reason \<Rightarrow> Some reason
           | None \<Rightarrow>
               (case resolve_following_symlinks w p of
                  None \<Rightarrow> Some Sensitive
                | Some resolved \<Rightarrow>
                    (case protected_edit_reason_of w resolved of
                       Some reason \<Rightarrow> Some reason
                     | None \<Rightarrow>
                         if resolved_path_is_within_root w resolved ''/etc''
                         then Some Sensitive else None)))"

end
