(* ===== verification/GB_Gate.thy ===== *)
theory GB_Gate
  imports GB_ShellAccess
begin

section \<open>The policy preflight of a request (permission/gate_preflight.rs)\<close>

text \<open>
  One request's managed-policy evaluation: the direct pass, the Bash command gate and the
  shell-file gate, and what the manager reads from them.
\<close>

record gate_preflight =
  gp_direct :: "decision option"
  gp_bash_command :: "gate_decision option"
  gp_shell_file :: "gate_decision option"
  gp_native_symlink_fail_closed :: bool
  gp_defers_gate_ask :: bool

definition preflight_evaluate ::
  "world \<Rightarrow> compiled_policy option \<Rightarrow> access_kind \<Rightarrow> path \<Rightarrow> bool \<Rightarrow> gate_preflight" where
  "preflight_evaluate w policy access cwd auto_mode =
     (let (direct, native_symlink_fail_closed) =
            (case policy of
               Some pol \<Rightarrow> evaluate_with_cwd_details w pol access (Some cwd)
             | None \<Rightarrow> (None, False));
          (bash_command, shell_file) =
            (case (policy, access) of
               (Some pol, Bash cmd) \<Rightarrow>
                 (evaluate_bash_command_gate w pol cmd, evaluate_shell_file_access_gate w pol cmd cwd)
             | _ \<Rightarrow> (None, None));
          rule_match_ask =
            (direct = Some Ask \<or> bash_command = Some AskRuleMatch \<or> shell_file = Some AskRuleMatch);
          fail_closed_ask = (bash_command = Some AskFailClosed \<or> shell_file = Some AskFailClosed)
      in \<lparr>gp_direct = direct, gp_bash_command = bash_command, gp_shell_file = shell_file,
          gp_native_symlink_fail_closed = native_symlink_fail_closed,
          gp_defers_gate_ask = (auto_mode \<and> fail_closed_ask \<and> \<not> rule_match_ask)\<rparr>)"

definition policy_decision :: "gate_preflight \<Rightarrow> decision option" where
  "policy_decision g =
     combine_decisions
       (combine_decisions (gp_direct g) (map_option into_decision (gp_bash_command g)))
       (map_option into_decision (gp_shell_file g))"

definition policy_forced_prompt :: "gate_preflight \<Rightarrow> bool" where
  "policy_forced_prompt g \<longleftrightarrow> policy_decision g = Some Ask"

definition option_is_ask :: "gate_decision option \<Rightarrow> bool" where
  "option_is_ask d = (case d of None \<Rightarrow> False | Some g \<Rightarrow> gate_is_ask g)"

definition shell_file_forced_prompt :: "gate_preflight \<Rightarrow> bool" where
  "shell_file_forced_prompt g = option_is_ask (gp_shell_file g)"

definition shell_forced_prompt :: "gate_preflight \<Rightarrow> bool" where
  "shell_forced_prompt g \<longleftrightarrow>
     option_is_ask (gp_bash_command g) \<or> shell_file_forced_prompt g
     \<or> gp_native_symlink_fail_closed g"

definition defers_gate_ask :: "gate_preflight \<Rightarrow> bool" where
  "defers_gate_ask g = gp_defers_gate_ask g"

definition admits_auto_classifier :: "gate_preflight \<Rightarrow> bool" where
  "admits_auto_classifier g \<longleftrightarrow> \<not> policy_forced_prompt g \<or> defers_gate_ask g"

datatype prompt_reason =
  POLICY_ASK | BASH_COMMAND_GATE_ASK | SHELL_FILE_GATE_ASK | OtherReason string

definition prompt_trigger :: "gate_preflight \<Rightarrow> prompt_reason option \<Rightarrow> prompt_reason option" where
  "prompt_trigger g auto_prompt_reason =
     (if gp_direct g = Some Ask then Some POLICY_ASK
      else if defers_gate_ask g then auto_prompt_reason
      else if option_is_ask (gp_bash_command g) then Some BASH_COMMAND_GATE_ASK
      else if shell_file_forced_prompt g then Some SHELL_FILE_GATE_ASK
      else auto_prompt_reason)"

subsection \<open>Properties\<close>

lemma policy_decision_level:
  "opt_level decision_rank (policy_decision g) =
     max (max (opt_level decision_rank (gp_direct g))
              (opt_level decision_rank (map_option into_decision (gp_bash_command g))))
         (opt_level decision_rank (map_option into_decision (gp_shell_file g)))"
  by (simp add: policy_decision_def decisions.level_comb)

lemma preflight_fields:
  "gp_direct (preflight_evaluate w (Some pol) access cwd am) =
     evaluate_with_cwd w pol access (Some cwd)"
  "gp_bash_command (preflight_evaluate w (Some pol) (Bash cmd) cwd am) =
     evaluate_bash_command_gate w pol cmd"
  "gp_shell_file (preflight_evaluate w (Some pol) (Bash cmd) cwd am) =
     evaluate_shell_file_access_gate w pol cmd cwd"
  by (simp_all add: preflight_evaluate_def evaluate_with_cwd_def Let_def split: prod.split)

lemma preflight_defers:
  "gp_defers_gate_ask (preflight_evaluate w policy access cwd am) \<longleftrightarrow>
     (let g = preflight_evaluate w policy access cwd am
      in am \<and> (gp_bash_command g = Some AskFailClosed \<or> gp_shell_file g = Some AskFailClosed)
         \<and> gp_direct g \<noteq> Some Ask \<and> gp_bash_command g \<noteq> Some AskRuleMatch
         \<and> gp_shell_file g \<noteq> Some AskRuleMatch)"
  by (auto simp: preflight_evaluate_def Let_def split: prod.split)

lemma policy_decision_reject:
  assumes "gp_direct g = Some (Reject r) \<or> gp_bash_command g = Some (GateReject r)
           \<or> gp_shell_file g = Some (GateReject r)"
  shows "opt_level decision_rank (policy_decision g) \<ge> 4"
  using assms by (auto simp: policy_decision_level into_decision_def decision_rank_def)

text \<open>
  An ask rule binds: if the auto-mode classifier may run although the policy asks, then
  auto mode is on, no ask rule matched in any of the three checks, and the only reason to ask
  is that an analysis failed closed.
\<close>

theorem ask_rule_is_never_deferred:
  assumes "g = preflight_evaluate w policy access cwd auto_mode"
    and "policy_decision g = Some Ask" and "admits_auto_classifier g"
  shows "auto_mode \<and> gp_direct g \<noteq> Some Ask
    \<and> gp_bash_command g \<noteq> Some AskRuleMatch \<and> gp_shell_file g \<noteq> Some AskRuleMatch
    \<and> AskFailClosed \<in> set_option (gp_bash_command g) \<union> set_option (gp_shell_file g)"
proof -
  have "gp_defers_gate_ask g"
    using assms(2,3) by (simp add: admits_auto_classifier_def policy_forced_prompt_def
        defers_gate_ask_def)
  then show ?thesis using assms(1) by (auto simp: preflight_defers Let_def)
qed

theorem ask_rule_is_never_deferred_witness:
  "let g = preflight_evaluate sample_world (Some rm_policy) (Bash ''x |'') ''/w'' True
   in policy_decision g = Some Ask \<and> admits_auto_classifier g \<and> gp_direct g \<noteq> Some Ask"
proof -
  let ?g = "preflight_evaluate sample_world (Some rm_policy) (Bash ''x |'') ''/w'' True"
  have u: "all_commands_from_script (w_parse sample_world) ''x |'' = None"
    "cp_has_bash_command_restrictions rm_policy"
    "scan_rules sample_world (Bash ''x |'') (Some ''/w'')
       (zip (cp_rules rm_policy) (cp_matchers rm_policy)) False False = Inr (False, False)"
    "cp_has_bash_allow_rules rm_policy = False" "w_parse sample_world ''x |'' = None"
    by code_simp+
  have f: "evaluate_shell_file_access_gate sample_world rm_policy ''x |'' ''/w'' = None"
    using u(5) by (simp add: evaluate_shell_file_access_gate_def MAX_INLINE_SHELL_DEPTH_def
        numeral_eq_Suc shell_file_access_with_def)
  have b: "gp_bash_command ?g = Some AskFailClosed" "gp_direct ?g = None"
      "gp_shell_file ?g = None"
    using u by (simp_all add: preflight_fields f evaluate_bash_command_gate_def MAX_INLINE_SHELL_DEPTH_def
        numeral_eq_Suc segments_with_def evaluate_with_cwd_def evaluate_with_cwd_details_def
        native_file_path_def evaluate_lexical_with_cwd_def)
  have p: "policy_decision ?g = Some Ask"
    by (simp add: policy_decision_def b into_decision_def combine_decisions_def)
  have a: "admits_auto_classifier ?g"
    by (simp add: admits_auto_classifier_def defers_gate_ask_def preflight_defers b)
  show ?thesis using ask_rule_is_never_deferred [OF refl p a] p a by simp
qed

end
