(* ===== verification/GB_ShellFileGate.thy ===== *)
theory GB_ShellFileGate
  imports GB_ShellAccess
begin

section \<open>What the shell file gate guarantees\<close>

text \<open>
  The properties of \<open>GB_ShellAccess\<close>: the two lexical normalizations of the repository agree,
  every file a script names is checked against the file rules however deeply the script is
  nested, and what the gate cannot pin down is never passed in silence.
\<close>

subsection \<open>The two lexical normalizations\<close>

lemma body_component_str:
  "\<not> ignored_part s \<Longrightarrow> component_str (body_component s) = s"
  by (simp add: body_component_def)

definition kept :: "bool \<Rightarrow> string list \<Rightarrow> bool" where
  "kept absolute out \<longleftrightarrow> (\<forall>s \<in> set out. \<not> ignored_part s) \<and> (absolute \<longrightarrow> ''..'' \<notin> set out)"

abbreviation root_of :: "bool \<Rightarrow> component list" where
  "root_of absolute \<equiv> (if absolute then [RootDir] else [])"

lemma kept_Cons:
  "kept absolute (s # out) \<longleftrightarrow> \<not> ignored_part s \<and> (absolute \<longrightarrow> s \<noteq> ''..'') \<and> kept absolute out"
  by (auto simp: kept_def)

lemma collapse_ignored: "ignored_part segment \<Longrightarrow> collapse_segment absolute out segment = out"
  by (auto simp: collapse_segment_def ignored_part_def)

lemma collapse_parent:
  assumes "kept absolute out"
  shows "kept absolute (collapse_segment absolute out ''..'')
    \<and> map body_component (collapse_segment absolute out ''..'') @ root_of absolute
        = normalize_step (map body_component out @ root_of absolute) ParentDir"
proof (cases out)
  case Nil
  then show ?thesis
    by (simp add: collapse_segment_def kept_def ignored_part_def body_component_def)
next
  case (Cons s out')
  then show ?thesis
    using assms
    by (cases "s = ''..''"; cases absolute)
      (simp_all add: collapse_segment_def kept_Cons body_component_def ignored_part_def)
qed

lemma collapse_step:
  assumes "kept absolute out" and "\<not> ignored_part segment"
  shows "kept absolute (collapse_segment absolute out segment)
    \<and> map body_component (collapse_segment absolute out segment) @ root_of absolute
        = normalize_step (map body_component out @ root_of absolute) (body_component segment)"
proof (cases "segment = ''..''")
  case True
  then show ?thesis using collapse_parent [OF assms(1)] by (simp add: body_component_def)
next
  case False
  then have c: "collapse_segment absolute out segment = segment # out"
    using assms(2) by (simp add: collapse_segment_def ignored_part_def)
  have b: "body_component segment = Normal segment"
    using False by (simp add: body_component_def)
  show ?thesis using False assms by (simp add: c b kept_Cons)
qed

lemma collapse_fold:
  "kept absolute out \<Longrightarrow>
     kept absolute (foldl (collapse_segment absolute) out segs)
     \<and> foldl normalize_step (map body_component out @ root_of absolute)
          (map body_component (filter (\<lambda>s. \<not> ignored_part s) segs))
        = map body_component (foldl (collapse_segment absolute) out segs) @ root_of absolute"
proof (induction segs arbitrary: out)
  case (Cons segment segs)
  show ?case
  proof (cases "ignored_part segment")
    case True
    then show ?thesis using Cons by (simp add: collapse_ignored)
  next
    case False
    note st = collapse_step [OF Cons.prems False]
    show ?thesis
      using Cons.IH [OF st [THEN conjunct1]] False by (simp only: st [THEN conjunct2] foldl_Cons
          filter.simps if_True list.map simp_thms)
  qed
qed simp

lemma collapse_segments_normalize:
  "kept absolute (collapse_segments absolute segs)"
  "foldl normalize_step (root_of absolute)
     (map body_component (filter (\<lambda>s. \<not> ignored_part s) segs))
   = map body_component (collapse_segments absolute segs) @ root_of absolute"
  using collapse_fold [of absolute "[]" segs] by (simp_all add: collapse_segments_def kept_def)

text \<open>The kept segments of a path without a drive prefix.\<close>

definition segments_of :: "string \<Rightarrow> string list" where
  "segments_of p = rev (collapse_segments (is_absolute p) (split_char slash p))"

lemma segments_of_components:
  "normalize_components (components p)
   = root_of (is_absolute p) @ map body_component (segments_of p)"
  using collapse_segments_normalize(2) [of "is_absolute p" "split_char slash p"]
  by (auto simp: normalize_components_def components_def rev_map segments_of_def)

lemma segments_of_ok:
  assumes "s \<in> set (segments_of p)"
  shows "\<not> ignored_part s" and "slash \<notin> set s" and "body_ok (body_component s)"
proof -
  show i: "\<not> ignored_part s"
    using collapse_segments_normalize(1) [of "is_absolute p" "split_char slash p"] assms
    by (auto simp: kept_def segments_of_def)
  have "body_component s \<in> set (normalize_components (components p))"
    using assms by (auto simp: segments_of_components)
  moreover have "\<forall>c \<in> set (normalize_components (components p)). c = RootDir \<or> body_ok c"
    using normalize_components_normal [of p] by (auto elim!: normal_formE)
  ultimately show b: "body_ok (body_component s)"
    by (auto simp: body_component_def split: if_splits)
  then show "slash \<notin> set s"
    using body_str [OF b] i by (simp add: body_component_str)
qed

lemma normalize_lexically_segments:
  "normalize_lexically p =
     (if is_absolute p then slash # join_with [slash] (segments_of p)
      else if segments_of p = [] then ''.''
      else join_with [slash] (segments_of p))"
proof -
  let ?cs = "map body_component (segments_of p)"
  have b: "\<forall>c \<in> set ?cs. body_ok c" using segments_of_ok(3) by auto
  have m: "map component_str ?cs = segments_of p"
    using segments_of_ok(1) by (auto simp: body_component_str intro: map_idI)
  show ?thesis
  proof (cases "is_absolute p")
    case True
    then show ?thesis
      using collect_root [OF b] m
      by (simp only: normalize_lexically_def segments_of_components Let_def) simp
  next
    case False
    then show ?thesis
      using collect_body [OF b] m
      by (cases "segments_of p = []")
        (simp_all only: normalize_lexically_def segments_of_components Let_def, simp_all)
  qed
qed

lemma join_segments_no_dot: "segments_of p \<noteq> [] \<Longrightarrow> join_with [slash] (segments_of p) \<noteq> ''.''"
proof
  assume n: "segments_of p \<noteq> []" and j: "join_with [slash] (segments_of p) = ''.''"
  have "split_char slash (join_with [slash] (segments_of p)) = segments_of p"
    by (rule split_join [OF n]) (use segments_of_ok(2) in auto)
  then have "segments_of p = [''.'']" using j by (simp add: slash_def)
  then show False using segments_of_ok(1) [of "''.''" p] by (simp add: ignored_part_def)
qed

lemma lexical_normalizations_agree_aux:
  assumes "\<not> has_drive_colon p"
  shows "lexical_normalize p
         = (if normalize_lexically p = ''.'' then [] else normalize_lexically p)"
proof -
  have l: "lexical_normalize p =
     (if is_absolute p then slash # join_with [slash] (segments_of p)
      else join_with [slash] (segments_of p))"
    using assms by (simp add: lexical_normalize_def Let_def segments_of_def is_absolute_def slash_def)
  show ?thesis
    using join_segments_no_dot [of p]
    by (cases "segments_of p = []") (simp_all add: l normalize_lexically_segments slash_def)
qed

text \<open>
  The repository normalizes paths lexically in two places, on components for the file
  tools and on text for shell operands; for every path that does not look like a Windows
  drive path the two agree, except that the empty result is spelled \<open>.\<close> by the first.
\<close>

theorem lexical_normalizations_agree:
  assumes "\<not> has_drive_colon p"
  shows "lexical_normalize p
         = (if normalize_lexically p = ''.'' then [] else normalize_lexically p)
    \<and> (is_absolute p \<longrightarrow> lexical_normalize p = normalize_lexically p)"
  using lexical_normalizations_agree_aux [OF assms] normalize_lexically_segments [of p]
  by (auto simp: slash_def)

theorem lexical_normalizations_agree_witness:
  "lexical_normalize ''/a/./b//../c'' = normalize_lexically ''/a/./b//../c''
   \<and> normalize_lexically ''/a/./b//../c'' = ''/a/c''"
proof -
  have "normalize_lexically ''/a/./b//../c'' = ''/a/c''" by code_simp
  moreover have "\<not> has_drive_colon ''/a/./b//../c''" by code_simp
  ultimately show ?thesis using lexical_normalizations_agree [of "''/a/./b//../c''"] by simp
qed

subsection \<open>Loops that only escalate\<close>

text \<open>
  The level of the two loop variables read together: a forced ask counts as a fail-closed
  ask. Every loop of the gate only raises it, and each item raises it to its own level.
\<close>

definition acc_level :: "gate_acc \<Rightarrow> nat" where
  "acc_level acc = max (gate_level (fst acc)) (if snd acc then 2 else 0)"

locale rising =
  fixes level :: "'s \<Rightarrow> nat"
    and step :: "'s \<Rightarrow> 'x \<Rightarrow> 's"
    and own :: "'x \<Rightarrow> nat"
  assumes rises: "level s \<le> level (step s x)"
    and own_le: "own x \<le> level (step s x)"
begin

lemma fold_rises: "level s \<le> level (foldl step s xs)"
  by (induction xs arbitrary: s) (auto intro: order.trans rises)

lemma fold_own: "x \<in> set xs \<Longrightarrow> own x \<le> level (foldl step s xs)"
proof (induction xs arbitrary: s)
  case (Cons y ys)
  then show ?case using order.trans [OF own_le fold_rises] by auto
qed simp

end

lemma acc_level_combine:
  "acc_level (combine_gate_decisions d x, b) = max (acc_level (d, b)) (gate_level x)"
  by (simp add: acc_level_def gates.level_comb)

lemma acc_level_or:
  "acc_level (d, b \<or> c) = max (acc_level (d, b)) (if c then 2 else 0)"
  by (simp add: acc_level_def)

lemma acc_level_fst: "acc_level (fst acc, snd acc) = acc_level acc"
  by simp

lemma acc_level_force: "acc_level acc \<le> acc_level (fst acc, snd acc \<or> b)"
  using acc_level_or [of "fst acc" "snd acc" b] by simp

lemma acc_level_forced: "b \<Longrightarrow> 2 \<le> acc_level (d, b)"
  by (simp add: acc_level_def)

definition operand_level :: "world \<Rightarrow> compiled_policy \<Rightarrow> path \<Rightarrow> bool \<Rightarrow> string \<times> shell_file_mode \<Rightarrow> nat"
where
  "operand_level w pol cwd unpinned operand =
     max (gate_level (evaluate_shell_path w pol cwd (fst operand) (snd operand) unpinned))
         (if shell_arg_is_ambiguous (fst operand) then 2 else 0)"

lemma acc_level_check_operand:
  "acc_level (check_operand w pol cwd unpinned acc operand)
   = max (acc_level acc) (operand_level w pol cwd unpinned operand)"
  by (simp add: check_operand_def acc_level_combine acc_level_or operand_level_def max.assoc
      max.left_commute)

interpretation operands: rising acc_level "check_operand w pol cwd unpinned"
    "operand_level w pol cwd unpinned"
  for w pol cwd unpinned
  by unfold_locales (simp_all add: acc_level_check_operand)

subsection \<open>The operands of a command and of a script\<close>

text \<open>What a command names, with the modes, and what a script names, with the flag.\<close>

definition program_operands :: "string \<Rightarrow> string list \<Rightarrow> (string \<times> shell_file_mode) list" where
  "program_operands program lits =
     (if is_cwd_changer program then []
      else special_file_operands program lits
           @ (if program = ''dd'' then []
              else case shell_path_command_operands program lits of
                     Some operands \<Rightarrow> operands
                   | None \<Rightarrow>
                       (case operand_modes program lits of
                          None \<Rightarrow> []
                        | Some modes \<Rightarrow> List.product (shell_file_candidates lits) modes)))"

definition is_known_program :: "string \<Rightarrow> string list \<Rightarrow> bool" where
  "is_known_program program lits \<longleftrightarrow>
     \<not> is_cwd_changer program
     \<and> (program = ''dd'' \<or> shell_file_mode_of program \<noteq> None
        \<or> shell_path_command_operands program lits \<noteq> None)"

definition command_program :: "shell_word list \<Rightarrow> string option" where
  "command_program ws =
     (case first_opt ws of
        Some (Literal program) \<Rightarrow> Some (ascii_lower (shell_program_name program))
      | _ \<Rightarrow> None)"

definition command_operands :: "shell_word list \<Rightarrow> (string \<times> shell_file_mode) list" where
  "command_operands ws =
     (case command_program ws of
        None \<Rightarrow> [] | Some program \<Rightarrow> program_operands program (literal_words ws))"

lemma check_program_operands_rises:
  "acc_level acc
   \<le> acc_level (check_program_operands w pol cwd unpinned amb failed program lits acc)"
proof -
  have r: "acc_level a \<le> acc_level (foldl (check_operand w pol cwd unpinned) a xs)" for a xs
    by (rule operands.fold_rises)
  show ?thesis
    unfolding check_program_operands_def Let_def
    by (auto split: option.split intro!: order.trans [OF acc_level_force r] order.trans [OF _ r]
        order.trans [OF _ acc_level_force])
qed

lemma check_program_operands_own:
  assumes "operand \<in> set (program_operands program lits)"
  shows "operand_level w pol cwd unpinned operand
   \<le> acc_level (check_program_operands w pol cwd unpinned amb failed program lits acc)"
proof -
  note own = operands.fold_own [of operand _ w pol cwd unpinned]
  have r: "acc_level a \<le> acc_level (foldl (check_operand w pol cwd unpinned) a xs)" for a xs
    by (rule operands.fold_rises)
  show ?thesis
    using assms unfolding check_program_operands_def program_operands_def Let_def
    by (auto split: option.split if_splits intro: own order.trans [OF own r]
        order.trans [OF own acc_level_force]
        order.trans [OF own order.trans [OF r acc_level_force]])
qed

lemma check_program_operands_known:
  assumes "is_known_program program lits"
    and "unpinned \<or> amb \<or> failed \<or> shell_reader_can_recurse program lits (shell_file_candidates lits)
           \<and> operand_modes program lits \<noteq> None
           \<and> shell_path_command_operands program lits = None \<and> program \<noteq> ''dd''"
  shows "2 \<le> acc_level (check_program_operands w pol cwd unpinned amb failed program lits acc)"
proof -
  have r: "acc_level a \<le> acc_level (foldl (check_operand w pol cwd unpinned) a xs)" for a xs
    by (rule operands.fold_rises)
  have k: "\<not> is_cwd_changer program"
    and kn: "program = ''dd'' \<or> shell_file_mode_of program \<noteq> None
          \<or> shell_path_command_operands program lits \<noteq> None"
    using assms(1) by (simp_all add: is_known_program_def)
  show ?thesis
  proof (cases "unpinned \<or> amb \<or> failed")
    case True
    have f: "2 \<le> acc_level (d, b \<or> True)" for d b by (rule acc_level_forced) simp
    show ?thesis
      unfolding check_program_operands_def Let_def using k kn True
      by (auto split: option.split intro!: order.trans [OF acc_level_forced r]
          order.trans [OF acc_level_forced order.trans [OF r r]]
          order.trans [OF _ acc_level_force])
  next
    case False
    then show ?thesis
      using assms(2) k unfolding check_program_operands_def Let_def
      by (auto split: option.split intro!: acc_level_forced)
  qed
qed

subsection \<open>One command\<close>

definition inline_level ::
  "(string \<Rightarrow> bool \<Rightarrow> gate_decision option) option \<Rightarrow> bool \<Rightarrow> shell_word list \<Rightarrow> nat" where
  "inline_level nested unpinned ws =
     (case shell_dash_c_script ws of
        InlineLiteral i \<Rightarrow>
          (case nested of
             None \<Rightarrow> 2
           | Some f \<Rightarrow> (case ws ! i of Literal s \<Rightarrow> gate_level (f s unpinned) | Untrusted \<Rightarrow> 0))
      | NotInline \<Rightarrow> 0
      | _ \<Rightarrow> 2)"

lemma check_inline_level:
  "max (acc_level acc) (inline_level nested unpinned ws)
   \<le> acc_level (check_inline nested unpinned failed ws acc)"
  by (auto simp: check_inline_def inline_level_def Let_def acc_level_def gates.level_comb
      split: inline_shell_script.split option.split shell_word.split)

lemma check_inline_failed:
  "failed \<Longrightarrow> shell_dash_c_script ws \<noteq> NotInline \<Longrightarrow>
     2 \<le> acc_level (check_inline nested unpinned failed ws acc)"
  by (auto simp: check_inline_def Let_def acc_level_def
      split: inline_shell_script.split option.split shell_word.split)

definition peel_flagged :: "checked_invocation_peel \<Rightarrow> bool" where
  "peel_flagged p \<longleftrightarrow>
     ip_exhausted p \<or> ip_has_split_string p \<or> ip_env_options_uncertain p
     \<or> ip_transparent_ambiguous p"

text \<open>Everything about one command that asks by itself.\<close>

definition invocation_opaque :: "bool \<Rightarrow> bool \<Rightarrow> shell_invocation \<Rightarrow> bool" where
  "invocation_opaque unpinned failed iv =
     (let peeled = unwrap_invocation_checked iv; ws = ip_words peeled; lits = literal_words ws
      in peel_flagged peeled
         \<or> shell_dash_c_script ws \<in> {InlineUntrusted, InlineUnrecognized}
         \<or> (failed \<and> shell_dash_c_script ws \<noteq> NotInline)
         \<or> (case command_program ws of
              None \<Rightarrow> False
            | Some program \<Rightarrow>
                is_known_program program lits
                \<and> (unpinned \<or> Untrusted \<in> set ws \<or> failed
                   \<or> (shell_reader_can_recurse program lits (shell_file_candidates lits)
                      \<and> operand_modes program lits \<noteq> None
                      \<and> shell_path_command_operands program lits = None \<and> program \<noteq> ''dd''))))"

definition invocation_level ::
  "world \<Rightarrow> compiled_policy \<Rightarrow> (string \<Rightarrow> bool \<Rightarrow> gate_decision option) option \<Rightarrow> path \<Rightarrow> bool
   \<Rightarrow> cwd_poison list \<Rightarrow> bool \<Rightarrow> shell_invocation \<Rightarrow> nat" where
  "invocation_level w pol nested cwd cwd_unpinned cwd_changes failed iv =
     (let ws = ip_words (unwrap_invocation_checked iv);
          unpinned = invocation_unpinned cwd_unpinned cwd_changes iv
      in max (inline_level nested unpinned ws)
           (max (if invocation_opaque unpinned failed iv then 2 else 0)
             (Max (insert 0 (operand_level w pol cwd unpinned ` set (command_operands ws))))))"

lemma check_invocation_level:
  "max (acc_level acc) (invocation_level w pol nested cwd cwd_unpinned cwd_changes failed iv)
   \<le> acc_level (check_invocation w pol nested cwd cwd_unpinned cwd_changes failed acc iv)"
proof -
  define peeled where "peeled = unwrap_invocation_checked iv"
  define ws where "ws = ip_words peeled"
  define u where "u = invocation_unpinned cwd_unpinned cwd_changes iv"
  define acc1 where "acc1 = (fst acc, snd acc \<or> ip_exhausted peeled \<or> ip_has_split_string peeled
                  \<or> ip_env_options_uncertain peeled \<or> ip_transparent_ambiguous peeled)"
  define acc2 where "acc2 = check_inline nested u failed ws acc1"
  let ?prog = "\<lambda>program. check_program_operands w pol cwd u (Untrusted \<in> set ws) failed program
                 (literal_words ws) acc2"
  let ?r = "check_invocation w pol nested cwd cwd_unpinned cwd_changes failed acc iv"
  have r: "?r = (case command_program ws of None \<Rightarrow> acc2 | Some program \<Rightarrow> ?prog program)"
    unfolding check_invocation_def Let_def peeled_def [symmetric] ws_def [symmetric]
      u_def [symmetric] acc1_def [symmetric] acc2_def [symmetric] command_program_def
    by (auto split: option.split shell_word.split)
  have a1: "acc_level acc \<le> acc_level acc1" unfolding acc1_def by (rule acc_level_force)
  have fl: "peel_flagged peeled \<Longrightarrow> 2 \<le> acc_level acc1"
    unfolding acc1_def by (rule acc_level_forced) (auto simp: peel_flagged_def)
  have a2: "max (acc_level acc1) (inline_level nested u ws) \<le> acc_level acc2"
    unfolding acc2_def by (rule check_inline_level)
  have a3: "acc_level acc2 \<le> acc_level ?r"
    by (auto simp: r check_program_operands_rises split: option.split)
  have op: "operand_level w pol cwd u x \<le> acc_level ?r" if "x \<in> set (command_operands ws)" for x
    using that check_program_operands_own [of x _ "literal_words ws" w pol cwd u _ failed acc2]
    by (cases "command_program ws") (simp_all add: r command_operands_def)
  have opq: "2 \<le> acc_level ?r" if opaque: "invocation_opaque u failed iv"
  proof -
    consider "peel_flagged peeled"
      | "shell_dash_c_script ws \<in> {InlineUntrusted, InlineUnrecognized}"
      | "failed \<and> shell_dash_c_script ws \<noteq> NotInline"
      | program where "command_program ws = Some program"
        "is_known_program program (literal_words ws)"
        "u \<or> Untrusted \<in> set ws \<or> failed
           \<or> shell_reader_can_recurse program (literal_words ws)
               (shell_file_candidates (literal_words ws))
             \<and> operand_modes program (literal_words ws) \<noteq> None
             \<and> shell_path_command_operands program (literal_words ws) = None \<and> program \<noteq> ''dd''"
      using opaque unfolding invocation_opaque_def Let_def peeled_def [symmetric] ws_def [symmetric]
      by (cases "command_program ws") auto
    then show ?thesis
    proof cases
      case 1
      then show ?thesis using fl a2 a3 by simp
    next
      case 2
      then have "inline_level nested u ws = 2" by (auto simp: inline_level_def)
      then show ?thesis using a2 a3 by simp
    next
      case 3
      then show ?thesis
        using check_inline_failed [of failed ws nested u acc1] a3 by (simp add: acc2_def)
    next
      case 4
      then show ?thesis
        using check_program_operands_known [OF 4(2,3), of w pol cwd acc2] by (simp add: r)
    qed
  qed
  have "Max (insert 0 (operand_level w pol cwd u ` set (command_operands ws))) \<le> acc_level ?r"
    using op by simp
  then show ?thesis
    using a1 a2 a3 opq unfolding invocation_level_def Let_def peeled_def [symmetric]
      ws_def [symmetric] u_def [symmetric] by auto
qed

interpretation commands: rising acc_level
    "check_invocation w pol nested cwd cwd_unpinned cwd_changes failed"
    "invocation_level w pol nested cwd cwd_unpinned cwd_changes failed"
  for w pol nested cwd cwd_unpinned cwd_changes failed
  using check_invocation_level by unfold_locales (auto intro: max.boundedE)

subsection \<open>One script\<close>

definition redirect_unpinned :: "bool \<Rightarrow> cwd_poison list \<Rightarrow> shell_redirect_target \<Rightarrow> bool" where
  "redirect_unpinned cwd_unpinned cwd_changes r \<longleftrightarrow>
     cwd_unpinned \<or> cwd_unpinned_before cwd_changes (rt_start_byte r) (rt_scope r)"

definition redirect_level ::
  "world \<Rightarrow> compiled_policy \<Rightarrow> path \<Rightarrow> bool \<Rightarrow> cwd_poison list \<Rightarrow> shell_redirect_target \<Rightarrow> nat" where
  "redirect_level w pol cwd cwd_unpinned cwd_changes r =
     max (case rt_path r of
            None \<Rightarrow> 0
          | Some p \<Rightarrow> gate_level (evaluate_shell_path w pol cwd p (rt_mode r)
                                  (redirect_unpinned cwd_unpinned cwd_changes r)))
         (if rt_ambiguous r then 2 else 0)"

interpretation redirects: rising acc_level "check_redirect w pol cwd cwd_unpinned cwd_changes"
    "redirect_level w pol cwd cwd_unpinned cwd_changes"
  for w pol cwd cwd_unpinned cwd_changes
  by unfold_locales
    (auto simp: check_redirect_def redirect_level_def redirect_unpinned_def acc_level_def
      gates.level_comb split: option.split)

lemma acc_level_final:
  "gate_level (combine_gate_decisions (fst acc) (if snd acc then Some AskFailClosed else None))
   = acc_level acc"
  by (simp add: acc_level_def gates.level_comb gate_rank_def numeral_2_eq_2)

lemma script_level:
  assumes "w_parse w src = Some tree"
  shows "r \<in> set (shell_redirect_targets w (tr_root tree) src) \<Longrightarrow>
      redirect_level w pol cwd u (cwd_poison_positions w (tr_root tree) src) r
      \<le> gate_level (shell_file_access_with w pol nested src cwd u entered)"
    and "iv \<in> set (shell_command_invocations (tr_root tree) src) \<Longrightarrow>
      invocation_level w pol nested cwd u (cwd_poison_positions w (tr_root tree) src)
        (tr_has_error tree) iv
      \<le> gate_level (shell_file_access_with w pol nested src cwd u entered)"
    and "entered \<and> tr_has_error tree \<Longrightarrow>
      2 \<le> gate_level (shell_file_access_with w pol nested src cwd u entered)"
proof -
  let ?pos = "cwd_poison_positions w (tr_root tree) src"
  define acc1 where "acc1 = foldl (check_redirect w pol cwd u ?pos)
      (None, entered \<and> tr_has_error tree) (shell_redirect_targets w (tr_root tree) src)"
  define acc2 where "acc2 = foldl (check_invocation w pol nested cwd u ?pos (tr_has_error tree))
      acc1 (shell_command_invocations (tr_root tree) src)"
  have l: "gate_level (shell_file_access_with w pol nested src cwd u entered) = acc_level acc2"
    unfolding shell_file_access_with_def assms option.case Let_def acc1_def [symmetric]
      acc2_def [symmetric] by (rule acc_level_final)
  have m: "acc_level acc1 \<le> acc_level acc2"
    unfolding acc2_def by (rule commands.fold_rises)
  show "redirect_level w pol cwd u ?pos r
      \<le> gate_level (shell_file_access_with w pol nested src cwd u entered)"
    if "r \<in> set (shell_redirect_targets w (tr_root tree) src)"
    unfolding l by (rule order.trans [OF _ m]) (unfold acc1_def, rule redirects.fold_own [OF that])
  show "invocation_level w pol nested cwd u ?pos (tr_has_error tree) iv
      \<le> gate_level (shell_file_access_with w pol nested src cwd u entered)"
    if "iv \<in> set (shell_command_invocations (tr_root tree) src)"
    unfolding l acc2_def by (rule commands.fold_own [OF that])
  show "2 \<le> gate_level (shell_file_access_with w pol nested src cwd u entered)"
    if "entered \<and> tr_has_error tree"
    unfolding l
    by (rule order.trans [OF _ m], unfold acc1_def, rule order.trans [OF _ redirects.fold_rises])
      (use that in \<open>simp add: acc_level_def\<close>)
qed

definition nested_file_gate ::
  "world \<Rightarrow> compiled_policy \<Rightarrow> path \<Rightarrow> nat \<Rightarrow> (string \<Rightarrow> bool \<Rightarrow> gate_decision option) option" where
  "nested_file_gate w pol cwd k =
     (case k of
        0 \<Rightarrow> None
      | Suc m \<Rightarrow> Some (\<lambda>s u. evaluate_shell_file_access_inner w pol cwd m s u True))"

lemma inner_unfold:
  "evaluate_shell_file_access_inner w pol cwd k src u entered
   = shell_file_access_with w pol (nested_file_gate w pol cwd k) src cwd u entered"
  by (cases k) (simp_all add: nested_file_gate_def)

subsection \<open>The scripts a script hands to a shell\<close>

text \<open>
  The specification of the recursion: script \<open>s\<close> is run at nesting depth \<open>n\<close>, with the flag
  that says whether its working directory is unknown.
\<close>

inductive reaches :: "world \<Rightarrow> bool \<Rightarrow> nat \<Rightarrow> string \<Rightarrow> string \<Rightarrow> bool \<Rightarrow> bool" for w :: world where
  itself: "reaches w u 0 src src u"
| handed: "w_parse w src = Some tree \<Longrightarrow>
     iv \<in> set (shell_command_invocations (tr_root tree) src) \<Longrightarrow>
     ws = ip_words (unwrap_invocation_checked iv) \<Longrightarrow>
     shell_dash_c_script ws = InlineLiteral i \<Longrightarrow> ws ! i = Literal inner \<Longrightarrow>
     reaches w (invocation_unpinned u (cwd_poison_positions w (tr_root tree) src) iv) n inner s v \<Longrightarrow>
     reaches w u (Suc n) src s v"

inductive_cases reaches_zeroE: "reaches w u 0 src s v"

lemma reaches_level:
  assumes "reaches w u n src s v"
  shows "if n \<le> k
         then gate_level (evaluate_shell_file_access_inner w pol cwd (k - n) s v (entered \<or> 0 < n))
              \<le> gate_level (evaluate_shell_file_access_inner w pol cwd k src u entered)
         else 2 \<le> gate_level (evaluate_shell_file_access_inner w pol cwd k src u entered)"
  using assms
proof (induction arbitrary: k entered rule: reaches.induct)
  case (itself u src)
  show ?case by simp
next
  case (handed src tree iv ws i inner u n s v)
  let ?pos = "cwd_poison_positions w (tr_root tree) src"
  let ?L = "gate_level (evaluate_shell_file_access_inner w pol cwd k src u entered)"
  have l: "inline_level (nested_file_gate w pol cwd k) (invocation_unpinned u ?pos iv) ws \<le> ?L"
    using script_level(2) [OF handed(1,2), of pol "nested_file_gate w pol cwd k" cwd u entered]
    by (simp add: inner_unfold invocation_level_def Let_def handed(3))
  show ?case
  proof (cases k)
    case 0
    then show ?thesis
      using l by (simp add: inline_level_def handed(4) nested_file_gate_def)
  next
    case (Suc m)
    have "gate_level (evaluate_shell_file_access_inner w pol cwd m inner
            (invocation_unpinned u ?pos iv) True) \<le> ?L"
      using l by (simp add: inline_level_def handed(4,5) nested_file_gate_def Suc)
    then show ?thesis
      using handed.IH [of m True] Suc by (auto split: if_splits)
  qed
qed

subsection \<open>What a script names\<close>

definition script_operands ::
  "world \<Rightarrow> node \<Rightarrow> string \<Rightarrow> bool \<Rightarrow> (string \<times> shell_file_mode \<times> bool) list" where
  "script_operands w root src u =
     (let pos = cwd_poison_positions w root src
      in List.map_filter
           (\<lambda>r. map_option (\<lambda>p. (p, rt_mode r, redirect_unpinned u pos r)) (rt_path r))
           (shell_redirect_targets w root src)
         @ concat (map (\<lambda>iv. map (\<lambda>(p, m). (p, m, invocation_unpinned u pos iv))
                           (command_operands (ip_words (unwrap_invocation_checked iv))))
             (shell_command_invocations root src)))"

lemma in_map_filter: "y \<in> set (List.map_filter f xs) \<longleftrightarrow> (\<exists>x \<in> set xs. f x = Some y)"
  by (induction xs) (auto simp: List.map_filter_simps split: option.split)

lemma redirect_ambiguous:
  assumes "r \<in> set (shell_redirect_targets w root src)" and "rt_path r = Some p"
  shows "rt_ambiguous r = shell_arg_is_ambiguous p"
  using assms
  by (auto simp: shell_redirect_targets_def in_map_filter redirect_target_at_def
      shell_redirect_one_def redirect_destination_def Let_def
      split: if_splits option.splits arg_text.splits)

lemma script_operands_level:
  assumes "w_parse w src = Some tree" and "(p, m, v) \<in> set (script_operands w (tr_root tree) src u)"
  shows "operand_level w pol cwd v (p, m)
         \<le> gate_level (evaluate_shell_file_access_inner w pol cwd k src u entered)"
proof -
  let ?pos = "cwd_poison_positions w (tr_root tree) src"
  let ?L = "gate_level (evaluate_shell_file_access_inner w pol cwd k src u entered)"
  consider r where "r \<in> set (shell_redirect_targets w (tr_root tree) src)" "rt_path r = Some p"
      "m = rt_mode r" "v = redirect_unpinned u ?pos r"
    | iv where "iv \<in> set (shell_command_invocations (tr_root tree) src)"
      "(p, m) \<in> set (command_operands (ip_words (unwrap_invocation_checked iv)))"
      "v = invocation_unpinned u ?pos iv"
    using assms(2) by (auto simp: script_operands_def Let_def in_map_filter)
  then show ?thesis
  proof cases
    case 1
    have "operand_level w pol cwd v (p, m) = redirect_level w pol cwd u ?pos r"
      using 1 redirect_ambiguous [OF 1(1,2)] by (simp add: operand_level_def redirect_level_def)
    then show ?thesis using script_level(1) [OF assms(1) 1(1)] by (simp add: inner_unfold)
  next
    case 2
    let ?ops = "operand_level w pol cwd v `
        set (command_operands (ip_words (unwrap_invocation_checked iv)))"
    have "operand_level w pol cwd v (p, m) \<le> Max (insert 0 ?ops)"
      using 2(2) by (intro Max_ge) auto
    also have "\<dots> \<le> invocation_level w pol (nested_file_gate w pol cwd k) cwd u ?pos
        (tr_has_error tree) iv"
      unfolding invocation_level_def Let_def 2(3) by (intro max.coboundedI2 order.refl)
    also have "\<dots> \<le> ?L" unfolding inner_unfold by (rule script_level(2) [OF assms(1) 2(1)])
    finally show ?thesis .
  qed
qed

lemma script_opaque_level:
  assumes "w_parse w src = Some tree"
    and "iv \<in> set (shell_command_invocations (tr_root tree) src)"
    and "invocation_opaque (invocation_unpinned u (cwd_poison_positions w (tr_root tree) src) iv)
           (tr_has_error tree) iv"
  shows "2 \<le> gate_level (evaluate_shell_file_access_inner w pol cwd k src u entered)"
  using script_level(2) [OF assms(1,2), of pol "nested_file_gate w pol cwd k" cwd u entered] assms(3)
  by (simp add: inner_unfold invocation_level_def Let_def)

lemma script_entered_level:
  "w_parse w src = None \<or> (\<exists>tree. w_parse w src = Some tree \<and> tr_has_error tree) \<Longrightarrow>
     2 \<le> gate_level (evaluate_shell_file_access_inner w pol cwd k src u True)"
  using script_level(3) [of w src _ True pol]
  by (auto simp: inner_unfold) (simp add: shell_file_access_with_def gate_rank_def)

subsection \<open>The spellings of a path\<close>

definition pinned :: "string \<Rightarrow> bool \<Rightarrow> bool" where
  "pinned token unpinned \<longleftrightarrow> is_absolute_shell_path (normalize_shell_path token) \<or> \<not> unpinned"

definition operand_cwd :: "path \<Rightarrow> string \<Rightarrow> bool \<Rightarrow> path option" where
  "operand_cwd cwd token unpinned = (if pinned token unpinned then Some cwd else None)"

text \<open>
  The paths an operand may stand for: its normalized text and, unless the working directory
  is unknown, its absolute form and the target it resolves to through symbolic links.
\<close>

inductive stands_for :: "world \<Rightarrow> path \<Rightarrow> string \<Rightarrow> bool \<Rightarrow> string \<Rightarrow> bool"
  for w :: world and cwd :: path and token :: string and unpinned :: bool where
  spelled: "stands_for w cwd token unpinned (normalize_shell_path token)"
| anchored: "pinned token unpinned \<Longrightarrow>
     stands_for w cwd token unpinned (absolute_spelling cwd (normalize_shell_path token))"
| linked: "pinned token unpinned \<Longrightarrow>
     raw_absolute_spelling cwd (normalize_shell_path_raw token) unpinned = Some raw \<Longrightarrow>
     follow_absolute_symlink w raw (absolute_spelling cwd (normalize_shell_path token)) = Target q \<Longrightarrow>
     stands_for w cwd token unpinned q"

lemma stands_for_level:
  assumes "stands_for w cwd token unpinned q"
  shows "gate_level (escalate_access w pol (operand_cwd cwd token unpinned) (shell_access m q))
         \<le> gate_level (evaluate_shell_path w pol cwd token m unpinned)"
  using assms
  by (cases rule: stands_for.cases)
    (auto simp: evaluate_shell_path_def Let_def gates.level_comb operand_cwd_def pinned_def
      resolved_target_decision_def le_max_iff_disj simp del: opt_level_simps)

lemma unpinned_level:
  "\<not> pinned token unpinned \<Longrightarrow> 2 \<le> gate_level (evaluate_shell_path w pol cwd token m unpinned)"
  by (simp add: evaluate_shell_path_def Let_def gates.level_comb pinned_def gate_rank_def)

lemma tool_filter_shell_access:
  "tool_filter_matches (shell_access m q) flt \<Longrightarrow> flt \<in> {ToolRead, ToolEdit, ToolAny}"
  by (cases flt; cases m) (simp_all add: tool_filter_matches_def shell_access_def)

lemma file_reject_is_restriction:
  assumes "evaluate_lexical_with_cwd w (compile_policy w rules) (shell_access m q) c = Some (Reject r)"
  shows "cp_has_file_restrictions (compile_policy w rules)"
proof -
  have "some_rule_applies w rules (shell_access m q) c RuleDeny"
    using assms
    by (cases rule: scan_rules_cases [of w rules "shell_access m q" c])
      (auto simp: evaluate_lexical_with_cwd_def shell_access_def
        split: if_splits shell_file_mode.splits)
  then obtain rule where "rule \<in> set rules" "pr_action rule = RuleDeny"
    "tool_filter_matches (shell_access m q) (pr_tool rule)"
    by (auto simp: some_rule_applies_def rule_applies_def)
  then show ?thesis
    using tool_filter_shell_access by (auto simp: compile_policy_def list_ex_iff is_restriction_def)
qed

subsection \<open>The guarantees\<close>

lemma denied_operand_rejects:
  assumes "reaches w False n cmd s u" and "n \<le> MAX_INLINE_SHELL_DEPTH"
    and "w_parse w s = Some tree" and "(p, m, v) \<in> set (script_operands w (tr_root tree) s u)"
    and "stands_for w cwd p v q"
    and "evaluate_lexical_with_cwd w (compile_policy w rules) (shell_access m q) (operand_cwd cwd p v)
         = Some (Reject r)"
  shows "\<exists>r'. evaluate_shell_file_access_gate w (compile_policy w rules) cmd cwd
              = Some (GateReject r')"
proof -
  let ?pol = "compile_policy w rules"
  let ?G = "\<lambda>k s u e. gate_level (evaluate_shell_file_access_inner w ?pol cwd k s u e)"
  have "4 \<le> gate_level (evaluate_shell_path w ?pol cwd p m v)"
    using stands_for_level [OF assms(5), of ?pol m] assms(6)
    by (simp add: escalate_access_def gate_rank_def)
  also have "\<dots> \<le> operand_level w ?pol cwd v (p, m)" by (simp add: operand_level_def)
  also have "\<dots> \<le> ?G (MAX_INLINE_SHELL_DEPTH - n) s u (False \<or> 0 < n)"
    by (rule script_operands_level [OF assms(3,4)])
  also have "\<dots> \<le> ?G MAX_INLINE_SHELL_DEPTH cmd False False"
    using reaches_level [OF assms(1), of MAX_INLINE_SHELL_DEPTH ?pol cwd False] assms(2) by simp
  finally show ?thesis
    using file_reject_is_restriction [OF assms(6)]
    by (simp add: evaluate_shell_file_access_gate_def flip: gate_level_ge)
qed

lemma unpinned_operand_asks:
  assumes "reaches w False n cmd s u" and "n \<le> MAX_INLINE_SHELL_DEPTH"
    and "w_parse w s = Some tree" and "(p, m, v) \<in> set (script_operands w (tr_root tree) s u)"
    and "\<not> pinned p v"
  shows "2 \<le> gate_level (evaluate_shell_file_access_inner w pol cwd MAX_INLINE_SHELL_DEPTH cmd False False)"
proof -
  let ?G = "\<lambda>k s u e. gate_level (evaluate_shell_file_access_inner w pol cwd k s u e)"
  have "2 \<le> operand_level w pol cwd v (p, m)"
    using unpinned_level [OF assms(5), of w pol cwd m] by (simp add: operand_level_def le_max_iff_disj)
  also have "\<dots> \<le> ?G (MAX_INLINE_SHELL_DEPTH - n) s u (False \<or> 0 < n)"
    by (rule script_operands_level [OF assms(3,4)])
  also have "\<dots> \<le> ?G MAX_INLINE_SHELL_DEPTH cmd False False"
    using reaches_level [OF assms(1), of MAX_INLINE_SHELL_DEPTH pol cwd False] assms(2) by simp
  finally show ?thesis .
qed




subsection \<open>Witness: a reader and a redirection inside an inline script\<close>

text \<open>
  The script \<open>bash -c 'cat a>b'\<close>, its two syntax trees, and a world in which a glob matches
  its own text only.
\<close>

definition cat_script :: string where
  "cat_script = ''cat a>b''"

definition shell_cat_script :: string where
  "shell_cat_script = ''bash -c '' @ [quote1] @ cat_script @ [quote1]"

definition cat_tree :: tree where
  "cat_tree =
     \<lparr>tr_root = Node ''program'' True 0 7
        [Node ''redirected_statement'' True 0 7
           [Node ''command'' True 0 5
              [Node ''command_name'' True 0 3 [Node ''word'' True 0 3 []],
               Node ''word'' True 4 5 []],
            Node ''file_redirect'' True 5 7
              [Node ''>'' False 5 6 [], Node ''word'' True 6 7 []]]],
      tr_has_error = False\<rparr>"

definition shell_cat_tree :: tree where
  "shell_cat_tree =
     \<lparr>tr_root = Node ''program'' True 0 17
        [Node ''command'' True 0 17
           [Node ''command_name'' True 0 4 [Node ''word'' True 0 4 []],
            Node ''word'' True 5 7 [], Node ''raw_string'' True 8 17 []]],
      tr_has_error = False\<rparr>"

definition cat_world :: world where
  "cat_world = sample_world
     \<lparr>w_parse := (\<lambda>s. if s = cat_script then Some cat_tree
                      else if s = shell_cat_script then Some shell_cat_tree else None),
      w_glob_new := (\<lambda>_. True), w_glob_matches := (\<lambda>p s _. p = s)\<rparr>"

lemma cat_world_parse [simp]:
  "w_parse cat_world cat_script = Some cat_tree"
  "w_parse cat_world shell_cat_script = Some shell_cat_tree"
  by (simp_all add: cat_world_def cat_script_def shell_cat_script_def quote1_def)

lemma cat_poison [simp]:
  "cwd_poison_positions cat_world (tr_root cat_tree) cat_script = []"
  "cwd_poison_positions cat_world (tr_root shell_cat_tree) shell_cat_script = []"
  by code_simp+

lemma cat_redirects:
  "shell_redirect_targets cat_world (tr_root cat_tree) cat_script
   = [\<lparr>rt_path = Some ''b'', rt_mode = ModeWrite, rt_ambiguous = False, rt_start_byte = 5,
       rt_scope = \<lparr>es_start = 0, es_end = USIZE_MAX\<rparr>\<rparr>]"
  "shell_redirect_targets cat_world (tr_root shell_cat_tree) shell_cat_script = []"
  by (code_simp)+

lemma cat_invocations:
  "shell_command_invocations (tr_root cat_tree) cat_script
   = [\<lparr>si_start_byte = 0, si_scope = \<lparr>es_start = 0, es_end = USIZE_MAX\<rparr>,
       si_words = [Literal ''cat'', Literal ''a''], si_wrapper_words = [''cat'', ''a'']\<rparr>]"
  "shell_command_invocations (tr_root shell_cat_tree) shell_cat_script
   = [\<lparr>si_start_byte = 0, si_scope = \<lparr>es_start = 0, es_end = USIZE_MAX\<rparr>,
       si_words = [Literal ''bash'', Literal ''-c'', Literal cat_script],
       si_wrapper_words = [''bash'', ''-c'', cat_script]\<rparr>]"
  by code_simp+

lemma cat_operands:
  "script_operands cat_world (tr_root cat_tree) cat_script False
   = [(''b'', ModeWrite, False), (''a'', ModeRead, False)]"
  by code_simp

lemma cat_handed:
  "ip_words (unwrap_invocation_checked
     \<lparr>si_start_byte = 0, si_scope = \<lparr>es_start = 0, es_end = USIZE_MAX\<rparr>,
      si_words = [Literal ''bash'', Literal ''-c'', Literal cat_script],
      si_wrapper_words = [''bash'', ''-c'', cat_script]\<rparr>)
   = [Literal ''bash'', Literal ''-c'', Literal cat_script]"
  "shell_dash_c_script [Literal ''bash'', Literal ''-c'', Literal cat_script] = InlineLiteral 2"
  "invocation_unpinned False []
     \<lparr>si_start_byte = 0, si_scope = \<lparr>es_start = 0, es_end = USIZE_MAX\<rparr>,
      si_words = [Literal ''bash'', Literal ''-c'', Literal cat_script],
      si_wrapper_words = [''bash'', ''-c'', cat_script]\<rparr> = False"
  by code_simp+

lemma cat_reached: "reaches cat_world False 1 shell_cat_script cat_script False"
proof -
  have "reaches cat_world False (Suc 0) shell_cat_script cat_script False"
    by (rule reaches.handed [OF cat_world_parse(2), where inner = cat_script and n = 0 and i = 2])
      (use cat_handed reaches.itself in \<open>auto simp: cat_invocations\<close>)
  then show ?thesis by simp
qed

definition write_b_rule :: permission_rule where
  "write_b_rule =
     \<lparr>pr_action = RuleDeny, pr_tool = ToolEdit, pr_pattern = Some ''b'', pr_pattern_mode = GlobMode\<rparr>"


definition write_c_rules :: "permission_rule list" where
  "write_c_rules = [write_b_rule\<lparr>pr_pattern := Some ''c''\<rparr>]"

lemma cat_silent:
  "shell_file_access_with cat_world (compile_policy cat_world write_c_rules) nested cat_script ''/w''
     False True = None"
proof -
  have e: "evaluate_shell_path cat_world (compile_policy cat_world write_c_rules) ''/w'' ''b'' ModeWrite False = None"
    "evaluate_shell_path cat_world (compile_policy cat_world write_c_rules) ''/w'' ''a'' ModeRead False = None"
    by code_simp+
  have c: "\<not> shell_arg_is_ambiguous ''a''" by code_simp
  have i: "ip_words (unwrap_invocation_checked
     \<lparr>si_start_byte = 0, si_scope = \<lparr>es_start = 0, es_end = USIZE_MAX\<rparr>,
       si_words = [Literal ''cat'', Literal ''a''], si_wrapper_words = [''cat'', ''a'']\<rparr>)
     = [Literal ''cat'', Literal ''a'']"
     "\<not> peel_flagged (unwrap_invocation_checked
     \<lparr>si_start_byte = 0, si_scope = \<lparr>es_start = 0, es_end = USIZE_MAX\<rparr>,
       si_words = [Literal ''cat'', Literal ''a''], si_wrapper_words = [''cat'', ''a'']\<rparr>)"
     "invocation_unpinned False []
     \<lparr>si_start_byte = 0, si_scope = \<lparr>es_start = 0, es_end = USIZE_MAX\<rparr>,
       si_words = [Literal ''cat'', Literal ''a''], si_wrapper_words = [''cat'', ''a'']\<rparr> = False"
     "shell_dash_c_script [Literal ''cat'', Literal ''a''] = NotInline"
     "ascii_lower (shell_program_name ''cat'') = ''cat''"
     "literal_words [Literal ''cat'', Literal ''a''] = [''cat'', ''a'']"
     "shell_file_candidates [''cat'', ''a''] = [''a'']"
     "shell_path_command_operands ''cat'' [''cat'', ''a''] = None"
     "operand_modes ''cat'' [''cat'', ''a''] = Some [ModeRead]"
     "special_file_operands ''cat'' [''cat'', ''a''] = []"
     "is_cwd_changer ''cat'' = False"
     "shell_reader_can_recurse ''cat'' [''cat'', ''a''] [''a''] = False"
     "cwd_unpinned_before [] 5 \<lparr>es_start = 0, es_end = USIZE_MAX\<rparr> = False"
     "tr_has_error cat_tree = False"
    by code_simp+
  show ?thesis
    using i(2)
    by (simp add: shell_file_access_with_def cat_redirects cat_invocations check_redirect_def e
        check_invocation_def Let_def i check_inline_def check_program_operands_def
        check_operand_def c combine_gate_decisions_def peel_flagged_def)
qed

lemma shell_cat_hands_on:
  "shell_file_access_with cat_world (compile_policy cat_world write_c_rules) (Some f)
     shell_cat_script ''/w'' False False = f cat_script False"
proof -
  let ?iv = "\<lparr>si_start_byte = 0, si_scope = \<lparr>es_start = 0, es_end = USIZE_MAX\<rparr>,
      si_words = [Literal ''bash'', Literal ''-c'', Literal cat_script],
      si_wrapper_words = [''bash'', ''-c'', cat_script]\<rparr>"
  have i: "\<not> peel_flagged (unwrap_invocation_checked ?iv)"
    "ascii_lower (shell_program_name ''bash'') = ''bash''"
    "shell_file_mode_of ''bash'' = None"
    "shell_path_command_operands ''bash'' (literal_words [Literal ''bash'', Literal ''-c'', Literal cat_script]) = None"
    "operand_modes ''bash'' (literal_words [Literal ''bash'', Literal ''-c'', Literal cat_script]) = None"
    "special_file_operands ''bash'' (literal_words [Literal ''bash'', Literal ''-c'', Literal cat_script]) = []"
    "is_cwd_changer ''bash'' = False"
    "tr_has_error shell_cat_tree = False"
    by code_simp+
  show ?thesis
    using i(1)
    by (simp add: shell_file_access_with_def cat_redirects cat_invocations cat_handed
        check_invocation_def Let_def i check_inline_def check_program_operands_def
        combine_gate_decisions_def peel_flagged_def split: option.split)
qed

lemma cat_gate_silent:
  "evaluate_shell_file_access_gate cat_world (compile_policy cat_world write_c_rules)
     shell_cat_script ''/w'' = None"
  by (simp add: evaluate_shell_file_access_gate_def MAX_INLINE_SHELL_DEPTH_def inner_unfold
      nested_file_gate_def numeral_eq_Suc shell_cat_hands_on cat_silent
      del: evaluate_shell_file_access_inner.simps)

lemma cat_restricted: "cp_has_file_restrictions (compile_policy cat_world write_c_rules)"
  by code_simp




subsection \<open>As strict as the file tools\<close>

text \<open>Operands that the shell normalization leaves alone: no quote, backslash or drive prefix.\<close>

definition plain_path :: "string \<Rightarrow> bool" where
  "plain_path p \<longleftrightarrow>
     list_all (\<lambda>c. \<not> is_quote c \<and> c \<noteq> backslash) p \<and> \<not> starts_with p ''/c/''
     \<and> \<not> has_drive_colon p"

lemma drop_quotes_id: "list_all (\<lambda>c. \<not> is_quote c) p \<Longrightarrow> dropWhile is_quote p = p"
  by (cases p) simp_all

lemma plain_raw:
  assumes "plain_path p"
  shows "normalize_shell_path_raw p = p"
proof -
  have q: "list_all (\<lambda>c. \<not> is_quote c) p" "list_all (\<lambda>c. \<not> is_quote c) (rev p)"
    using assms by (auto simp: plain_path_def list_all_iff)
  have m: "path_match_string p = p"
    using assms by (auto simp: plain_path_def path_match_string_def list_all_iff intro: map_idI)
  have n: "strip_prefix p ''/c/'' = None"
    using assms by (simp add: plain_path_def strip_prefix_None)
  show ?thesis
    by (simp add: normalize_shell_path_raw_def Let_def drop_quotes_id q m n)
qed

lemma plain_normalize: "plain_path p \<Longrightarrow> normalize_shell_path p = lexical_normalize p"
  by (simp add: normalize_shell_path_def plain_raw)

lemma lexical_normalize_absolute:
  assumes "\<not> has_drive_colon p" and "is_absolute p"
  shows "lexical_normalize p = normalize_lexically p" and "is_absolute (normalize_lexically p)"
proof -
  have n: "normalize_lexically p = slash # join_with [slash] (segments_of p)"
    using assms(2) by (simp add: normalize_lexically_segments)
  then show "is_absolute (normalize_lexically p)" by (simp add: is_absolute_def slash_def)
  show "lexical_normalize p = normalize_lexically p"
    using n assms(1) by (simp add: lexical_normalizations_agree_aux slash_def)
qed

lemma normalize_from_location:
  assumes "is_absolute x" and "is_absolute y" and "locate [] x = locate [] y"
  shows "normalize_lexically x = normalize_lexically y"
proof -
  obtain ws vs where w: "components (normalize_lexically x) = RootDir # map Normal ws"
    and v: "components (normalize_lexically y) = RootDir # map Normal vs"
    using rooted_normalize [OF assms(1)] rooted_normalize [OF assms(2)]
    by (auto simp: rooted_form_def)
  have "rev ws = rev vs"
    using assms(3) locate_normalize [of "[]"] locate_rooted [OF w] locate_rooted [OF v] by metis
  then have c: "components (normalize_lexically x) = components (normalize_lexically y)"
    using w v by simp
  have "normalize_components (components z) \<noteq> []" if "is_absolute z" for z
    using that by (simp add: segments_of_components)
  then have "normalize_components (components x) = normalize_components (components y)"
    using c assms(1,2) by (simp add: components_normalize)
  then show ?thesis by (simp add: normalize_lexically_def)
qed

lemma locate_lexical:
  assumes "\<not> has_drive_colon p"
  shows "locate loc (lexical_normalize p) = locate loc p"
proof (cases "normalize_lexically p = ''.''")
  case True
  have "locate loc [] = locate loc ''.''" by (simp add: locate_def components_def is_absolute_def ignored_part_def)
  then show ?thesis
    using True lexical_normalizations_agree_aux [OF assms] locate_normalize [of loc p] by simp
next
  case False
  then show ?thesis
    using lexical_normalizations_agree_aux [OF assms] locate_normalize [of loc p] by simp
qed

lemma absolute_not_tilde: "is_absolute p \<Longrightarrow> \<not> is_tilde_path p"
  by (simp add: is_tilde_path_def components_def)

lemma push_absolute: "is_absolute cwd \<Longrightarrow> is_absolute (path_push cwd p)"
  by (auto simp: path_push_def is_absolute_def starts_with_def prefix_def)

text \<open>An operand read from the working directory as the file tools read it.\<close>

definition ordinary_operand :: "path \<Rightarrow> string \<Rightarrow> bool" where
  "ordinary_operand cwd p \<longleftrightarrow>
     is_absolute cwd \<and> plain_path p \<and> \<not> is_tilde_path p
     \<and> (\<not> is_absolute p \<longrightarrow>
          \<not> is_absolute_shell_path (lexical_normalize p)
          \<and> plain_path (path_push cwd p)
          \<and> plain_path (path_push cwd (lexical_normalize p)))"

lemma set_join_with: "set (join_with sep ws) \<subseteq> set sep \<union> (\<Union>w \<in> set ws. set w)"
  by (induction sep ws rule: join_with.induct) auto

lemma set_split_char: "w \<in> set (split_char c s) \<Longrightarrow> set w \<subseteq> set s"
proof (induction c s arbitrary: w rule: split_char.induct)
  case (2 c d s)
  obtain u us where us: "split_char c s = u # us" by (cases "split_char c s") auto
  have parts: "set v \<subseteq> set s" if "v = u \<or> v \<in> set us" for v
    using 2 us that by (cases "d = c") auto
  show ?case using 2(3) us parts [of u] parts [of w] by (auto split: if_splits)
qed auto

lemma collapse_chars:
  "(\<Union>s \<in> set (foldl (collapse_segment a) out segs). set s)
     \<subseteq> (\<Union>s \<in> set out. set s) \<union> (\<Union>s \<in> set segs. set s) \<union> {CHR ''.''}"
proof (induction segs arbitrary: out)
  case (Cons seg segs)
  have "(\<Union>s \<in> set (collapse_segment a out seg). set s) \<subseteq> (\<Union>s \<in> set out. set s) \<union> set seg \<union> {CHR ''.''}"
    by (cases out) (auto simp: collapse_segment_def)
  then show ?case using Cons.IH [of "collapse_segment a out seg"] by fastforce
qed auto

lemma normalized_chars: "is_absolute p \<Longrightarrow> set (normalize_lexically p) \<subseteq> set p \<union> {slash, CHR ''.''}"
proof -
  assume p: "is_absolute p"
  have "(\<Union>s \<in> set (segments_of p). set s) \<subseteq> (\<Union>s \<in> set (split_char slash p). set s) \<union> {CHR ''.''}"
    using collapse_chars [of "is_absolute p" "[]" "split_char slash p"]
    by (simp add: segments_of_def collapse_segments_def)
  moreover have "(\<Union>s \<in> set (split_char slash p). set s) \<subseteq> set p"
    using set_split_char by fast
  ultimately show ?thesis
    using set_join_with [of "[slash]" "segments_of p"] p
    unfolding normalize_lexically_segments by fastforce
qed

lemma tool_spelling:
  assumes "is_absolute cwd" and "plain_path p" and "\<not> is_tilde_path p"
    and "\<not> is_absolute p \<Longrightarrow> \<not> is_absolute_shell_path (lexical_normalize p) \<and> plain_path (path_push cwd (lexical_normalize p))"
  shows "absolute_spelling cwd (normalize_shell_path p) = absolute_normalized_path p (Some cwd)"
    and "path_match_string (absolute_normalized_path p (Some cwd)) = absolute_normalized_path p (Some cwd)"
proof -
  note c = assms(1) and pl = assms(2) and t = assms(3)
  have d: "\<not> has_drive_colon p" using pl by (simp add: plain_path_def)
  let ?q = "lexical_normalize p"
  let ?a = "absolute_spelling cwd (normalize_shell_path p)"
  have q: "normalize_shell_path p = ?q" by (rule plain_normalize [OF pl])
  have bs: "\<And>x. plain_path x \<Longrightarrow> backslash \<notin> set x" by (auto simp: plain_path_def list_all_iff)
  have main: "?a = normalize_lexically (join_cwd p (Some cwd)) \<and> backslash \<notin> set ?a"
  proof (cases "is_absolute p")
    case True
    note l = lexical_normalize_absolute [OF d True]
    have "?a = normalize_lexically p"
      using l by (simp add: absolute_spelling_def q is_absolute_shell_path_def is_absolute_def)
    then show ?thesis using True normalized_chars [OF True] bs [OF pl]
      by (auto simp: join_cwd_def slash_def backslash_def)
  next
    case False
    then have nq: "\<not> is_absolute_shell_path ?q" and pp: "plain_path (path_push cwd ?q)"
      using assms(4) by auto
    then have rq: "\<not> is_absolute ?q" by (simp add: is_absolute_shell_path_def is_absolute_def)
    have dd: "\<not> has_drive_colon (path_push cwd ?q)" using pp by (simp add: plain_path_def)
    note l = lexical_normalize_absolute [OF dd push_absolute [OF c]]
    have a: "?a = normalize_lexically (path_push cwd ?q)"
      using nq l by (simp add: absolute_spelling_def q plain_normalize [OF pp])
    have "locate [] (path_push cwd ?q) = locate [] (path_push cwd p)"
      using locate_push [OF c rq] locate_push [OF c False] by (simp add: locate_lexical [OF d])
    then have "normalize_lexically (path_push cwd ?q) = normalize_lexically (path_push cwd p)"
      by (intro normalize_from_location push_absolute c)
    moreover have "backslash \<notin> set ?a"
      unfolding a using normalized_chars [OF push_absolute [OF c, of ?q]] bs [OF pp]
      by (auto simp: slash_def backslash_def)
    ultimately show ?thesis using a False by (simp add: join_cwd_def)
  qed
  then show "?a = absolute_normalized_path p (Some cwd)" using t by (simp add: absolute_normalized_path_def)
  then show "path_match_string (absolute_normalized_path p (Some cwd)) = absolute_normalized_path p (Some cwd)"
    using main by (auto simp: path_match_string_def intro: map_idI)
qed

lemma tool_raw_path:
  assumes "is_absolute cwd" and "plain_path p" and "\<not> is_tilde_path p" and "pinned p v"
    and "\<not> is_absolute p \<Longrightarrow> \<not> is_absolute_shell_path (lexical_normalize p) \<and> plain_path (path_push cwd p)"
  shows "raw_absolute_tool_path p (Some cwd) = raw_absolute_spelling cwd (normalize_shell_path_raw p) v
         \<and> raw_absolute_tool_path p (Some cwd) \<noteq> None"
proof -
  have m: "path_match_string x = x" if "plain_path x" for x
    using that by (auto simp: plain_path_def path_match_string_def list_all_iff intro: map_idI)
  have d: "\<not> has_drive_colon p" using assms(2) by (simp add: plain_path_def)
  show ?thesis
  proof (cases "is_absolute p")
    case True
    then have "is_absolute_shell_path p" by (simp add: is_absolute_shell_path_def is_absolute_def)
    then show ?thesis using True assms(3)
      by (simp add: raw_absolute_tool_path_def raw_absolute_spelling_def plain_raw [OF assms(2)] join_cwd_def m [OF assms(2)])
  next
    case False
    have nt: "\<not> starts_with p ''~/''"
    proof
      assume "starts_with p ''~/''"
      then obtain r where "p = ''~/'' @ r" by (auto simp: starts_with_def prefix_def)
      then show False using assms(3)
        by (cases "split_char slash r")
          (simp_all add: is_tilde_path_def components_def is_absolute_def starts_with_def slash_def
            ignored_part_def body_component_def)
    qed
    have na: "\<not> is_absolute_shell_path p"
      using False nt d by (simp add: is_absolute_shell_path_def is_absolute_def)
    have nv: "\<not> v"
      using assms(4,5) False by (simp add: pinned_def plain_normalize [OF assms(2)])
    have pp: "plain_path (path_push cwd p)" using assms(5) False by simp
    show ?thesis using False na nv assms(3) push_absolute [OF assms(1), of p]
      by (simp add: raw_absolute_tool_path_def raw_absolute_spelling_def plain_raw [OF assms(2)]
          plain_raw [OF pp] join_cwd_def m [OF pp])
  qed
qed


lemma ordinary_absolute_form:
  assumes "ordinary_operand cwd p"
  shows "absolute_normalized_path (absolute_spelling cwd (normalize_shell_path p)) (Some cwd)
         = absolute_normalized_path p (Some cwd)"
proof -
  have t: "\<not> is_tilde_path p" and c: "is_absolute (join_cwd p (Some cwd))"
    using assms push_absolute by (auto simp: ordinary_operand_def join_cwd_def)
  have a: "absolute_spelling cwd (normalize_shell_path p) = normalize_lexically (join_cwd p (Some cwd))"
    using tool_spelling(1) [of cwd p] assms t by (auto simp: ordinary_operand_def absolute_normalized_path_def)
  have "is_absolute (normalize_lexically (join_cwd p (Some cwd)))"
    using normalize_lexically_segments [of "join_cwd p (Some cwd)"] c by (simp add: is_absolute_def slash_def)
  then show ?thesis
    using t absolute_not_tilde [of "normalize_lexically (join_cwd p (Some cwd))"]
    by (simp add: a absolute_normalized_path_def normalize_idem) (simp add: join_cwd_def normalize_idem)
qed

lemma scan_rules_cong:
  "(\<And>rule matcher. rule_applies w a cwd rule matcher = rule_applies w b cwd rule matcher) \<Longrightarrow>
     scan_rules w a cwd rs ask allow = scan_rules w b cwd rs ask allow"
  by (induction rs arbitrary: ask allow) (auto split: rule_action.split)

lemma ordinary_same_rules:
  assumes "ordinary_operand cwd p"
  shows "evaluate_lexical_with_cwd w pol
           (shell_access m (absolute_spelling cwd (normalize_shell_path p))) (Some cwd)
         = evaluate_lexical_with_cwd w pol (shell_access m p) (Some cwd)"
proof -
  have "path_match_forms (absolute_spelling cwd (normalize_shell_path p)) (Some cwd)
      = path_match_forms p (Some cwd)"
    using ordinary_absolute_form [OF assms] by (simp add: path_match_forms_def)
  then have r: "rule_applies w (shell_access m (absolute_spelling cwd (normalize_shell_path p)))
        (Some cwd) rule matcher
      = rule_applies w (shell_access m p) (Some cwd) rule matcher" for rule matcher
    by (cases m; cases "pr_tool rule")
      (simp_all add: rule_applies_def pattern_matches_def shell_access_def tool_filter_matches_def
        path_context_matches_def split: option.split)
  show ?thesis
    unfolding evaluate_lexical_with_cwd_def scan_rules_cong [OF r]
    by (cases m) (simp_all add: shell_access_def split: sum.split)
qed

lemma combine_decisions_from:
  "combine_decisions a b = Some d \<Longrightarrow> a = Some d \<or> b = Some d"
  by (auto simp: combine_decisions_def split: option.splits if_splits decision.splits)

lemma tool_decision_stands:
  assumes ord: "ordinary_operand cwd p" and pin: "pinned p v"
    and d: "evaluate_with_cwd w pol (shell_access m p) (Some cwd) = Some d" "d \<noteq> Allow"
  shows "(\<exists>q. stands_for w cwd p v q \<and> evaluate_lexical_with_cwd w pol (shell_access m q) (Some cwd) = Some d)
    \<or> d = Ask \<and> 2 \<le> gate_level (evaluate_shell_path w pol cwd p m v)"
proof -
  note same = ordinary_same_rules [OF ord]
  let ?a = "absolute_spelling cwd (normalize_shell_path p)"
  let ?raw = "raw_absolute_spelling cwd (normalize_shell_path_raw p) v"
  let ?lex = "evaluate_lexical_with_cwd w pol (shell_access m p) (Some cwd)"
  have spell: "path_match_string (absolute_normalized_path p (Some cwd)) = ?a"
    using tool_spelling [of cwd p] ord by (auto simp: ordinary_operand_def)
  obtain raw where raw: "raw_absolute_tool_path p (Some cwd) = Some raw" "?raw = Some raw"
    using tool_raw_path [of cwd p v] ord pin unfolding ordinary_operand_def by (metis not_None_eq)
  have np: "native_file_path (shell_access m p) = Some p"
    by (cases m) (simp_all add: shell_access_def native_file_path_def)
  have ap: "access_with_path (shell_access m p) q = shell_access m q" for q
    by (cases m) (simp_all add: shell_access_def access_with_path_def)
  have anch: "stands_for w cwd p v ?a" by (rule stands_for.anchored [OF pin])
  note ev = evaluate_with_cwd_def evaluate_with_cwd_details_def
  show ?thesis
  proof (cases "follow_absolute_symlink w raw ?a")
    case NoLink
    then have "?lex = Some d" using d(1) by (simp add: ev Let_def np raw spell)
    then show ?thesis using anch same by metis
  next
    case (Target q)
    let ?tgt = "evaluate_lexical_with_cwd w pol (shell_access m q) (Some cwd)"
    have "combine_decisions ?lex (case ?tgt of Some (Reject r) \<Rightarrow> Some (Reject r) | Some Ask \<Rightarrow> Some Ask | _ \<Rightarrow> None) = Some d"
      using d(1) Target by (simp add: ev Let_def np raw spell ap)
    then have "?lex = Some d \<or> ?tgt = Some d"
      using combine_decisions_from by (fastforce split: option.splits decision.splits)
    moreover have "stands_for w cwd p v q" by (rule stands_for.linked [OF pin raw(2) Target])
    ultimately show ?thesis using anch same by metis
  next
    case Unresolvable
    have "?lex = Some d \<or> d = Ask"
      using d(1) Unresolvable combine_decisions_from [of ?lex "Some Ask" d]
      by (auto simp: ev Let_def np raw spell split: if_splits)
    moreover have "2 \<le> gate_level (evaluate_shell_path w pol cwd p m v)"
      using pin Unresolvable raw(2)
      by (auto simp: evaluate_shell_path_def Let_def gates.level_comb pinned_def resolved_target_decision_def
          gate_rank_def le_max_iff_disj)
    ultimately show ?thesis using anch same by metis
  qed
qed

text \<open>
  C36. Through the shell a file is at least as protected as through the file tools: for a plain
  operand (no quotes, backslashes, drive or tilde) in a known absolute working directory, the gate
  rejects what a direct \<open>Read\<close> or
  \<open>Edit\<close> of the same text would have rejected, by its spelling or by the target of its symbolic
  links, and asks or rejects where the direct access would have asked.
\<close>

theorem shell_gate_as_strict_as_file_tools:
  assumes "ordinary_operand cwd p"
  shows "((\<exists>r. evaluate_with_cwd w pol (shell_access m p) (Some cwd) = Some (Reject r))
           \<longrightarrow> (\<exists>r. evaluate_shell_path w pol cwd p m False = Some (GateReject r)))
    \<and> (evaluate_with_cwd w pol (shell_access m p) (Some cwd) = Some Ask
           \<longrightarrow> evaluate_shell_path w pol cwd p m False \<noteq> None)"
proof -
  have pin: "pinned p False" by (simp add: pinned_def)
  have level: "gate_level (escalate_access w pol (Some cwd) (shell_access m q))
      \<le> gate_level (evaluate_shell_path w pol cwd p m False)" if "stands_for w cwd p False q" for q
    using stands_for_level [OF that, of pol m] by (simp add: operand_cwd_def pin)
  have "\<exists>r. evaluate_shell_path w pol cwd p m False = Some (GateReject r)"
    if rej: "evaluate_with_cwd w pol (shell_access m p) (Some cwd) = Some (Reject r)" for r
  proof -
    obtain q where q: "stands_for w cwd p False q"
      "evaluate_lexical_with_cwd w pol (shell_access m q) (Some cwd) = Some (Reject r)"
      using tool_decision_stands [OF assms pin rej] by auto
    have "4 \<le> gate_level (evaluate_shell_path w pol cwd p m False)"
      using level [OF q(1)] by (simp add: escalate_access_def q(2) gate_rank_def)
    then show ?thesis
      using gate_level_le [of "evaluate_shell_path w pol cwd p m False"] by (simp flip: gate_level_reject)
  qed
  moreover have "evaluate_shell_path w pol cwd p m False \<noteq> None"
    if ask: "evaluate_with_cwd w pol (shell_access m p) (Some cwd) = Some Ask"
  proof -
    have "1 \<le> gate_level (evaluate_shell_path w pol cwd p m False)"
    proof (cases "2 \<le> gate_level (evaluate_shell_path w pol cwd p m False)")
      case False
      then obtain q where q: "stands_for w cwd p False q"
        "evaluate_lexical_with_cwd w pol (shell_access m q) (Some cwd) = Some Ask"
        using tool_decision_stands [OF assms pin ask] by auto
      show ?thesis using level [OF q(1)] by (simp add: escalate_access_def q(2) gate_rank_def)
    qed simp
    then show ?thesis by (auto simp flip: gate_level_none)
  qed
  ultimately show ?thesis by blast
qed

text \<open>A link in the working directory to a file that may not be written.\<close>

definition linked_world :: world where
  "linked_world = cat_world\<lparr>w_canonicalize := (\<lambda>p. if p = ''/w/link'' then Some ''/w/b'' else Some p)\<rparr>"

theorem shell_gate_as_strict_as_file_tools_witness:
  "(\<exists>r. evaluate_shell_path cat_world (compile_policy cat_world [write_b_rule]) ''/w'' ''./x/../b''
         ModeWrite False = Some (GateReject r))
   \<and> (\<exists>r. evaluate_shell_path linked_world (compile_policy linked_world [write_b_rule]) ''/w'' ''link''
         ModeWrite False = Some (GateReject r))"
proof -
  have o: "ordinary_operand ''/w'' ''./x/../b''" "ordinary_operand ''/w'' ''link''" by code_simp+
  have "evaluate_with_cwd cat_world (compile_policy cat_world [write_b_rule])
      (shell_access ModeWrite ''./x/../b'') (Some ''/w'')
    = Some (Reject (deny_reason write_b_rule))" by code_simp
  moreover have "evaluate_with_cwd linked_world (compile_policy linked_world [write_b_rule])
      (shell_access ModeWrite ''link'') (Some ''/w'')
    = Some (Reject (deny_reason write_b_rule))" by code_simp
  ultimately show ?thesis
    using shell_gate_as_strict_as_file_tools [OF o(1)] shell_gate_as_strict_as_file_tools [OF o(2)] by blast
qed

subsection \<open>A relative operand that looks like a home path\<close>

text \<open>
  Normalizing \<open>./~/x\<close> gives \<open>~/x\<close>, which counts as absolute; with an unknown working
  directory such a relative operand is neither resolved nor asked about.
\<close>

lemma unpinned_tilde_operand_is_silent:
  "\<not> is_absolute_shell_path ''./~/x''
   \<and> evaluate_shell_path cat_world (compile_policy cat_world [write_b_rule]) ''/w'' ''./~/x''
        ModeWrite True = None
   \<and> evaluate_shell_path cat_world (compile_policy cat_world [write_b_rule]) ''/w'' ''./x''
        ModeWrite True = Some AskFailClosed"
  by code_simp

subsection \<open>Edits that need no confirmation\<close>

text \<open>
  The names below a path from the root, lower-cased, as the protected locations are written.
\<close>

definition protected_names :: "string list \<Rightarrow> bool" where
  "protected_names cs \<longleftrightarrow>
     has_pair cs ''.grok'' ''hooks'' \<or> suffix [''.grok'', ''hooks-paths''] cs
     \<or> suffix [''.claude'', ''settings.json''] cs \<or> suffix [''.claude'', ''settings.local.json''] cs
     \<or> suffix [''.cursor'', ''hooks.json''] cs \<or> has_pair cs ''.git'' ''hooks''
     \<or> (\<exists>a sub rest. suffix ([''.git'', ''modules'', sub] @ a @ ''hooks'' # rest) cs)
     \<or> ''.ssh'' \<in> set cs
     \<or> (cs \<noteq> [] \<and> last cs \<in> set STARTUP_FILES)
     \<or> (\<exists>f \<in> {''config.toml'', ''managed_config.toml'', ''requirements.toml'', ''sandbox.toml''}.
          suffix [''.grok'', f] cs)"

lemma git_modules_hooks:
  "suffix ([''.git'', ''modules'', sub] @ a @ ''hooks'' # rest) cs \<Longrightarrow> protected_git_hooks_path cs"
  unfolding protected_git_hooks_path_def list_ex_iff
  by (rule disjI2, rule bexI [of _ "[''.git'', ''modules'', sub] @ a @ ''hooks'' # rest"]) auto

lemma dot_grok_config:
  assumes "f \<in> {''config.toml'', ''managed_config.toml'', ''requirements.toml'', ''sandbox.toml''}"
    and "suffix [''.grok'', f] cs"
  shows "protected_grok_config_file w p cs \<noteq> None"
proof -
  obtain xs where x: "cs = xs @ [''.grok'', f]" using assms(2) by (auto simp: suffix_def)
  have "grok_config_reason cs \<noteq> None"
    using assms(1) by (auto simp: x grok_config_reason_def USER_CONFIG_FILENAME_def
        MANAGED_CONFIG_FILENAME_def REQUIREMENTS_FILENAME_def SANDBOX_CONFIG_FILENAME_def)
  moreover have "length cs \<ge> 2 \<and> cs ! (length cs - 2) = ''.grok''"
    by (simp add: x nth_append)
  ultimately show ?thesis
    by (auto simp: protected_grok_config_file_def protected_grok_config_file_with_home_def)
qed

lemma if_Some_None: "(if c then Some x else y) = None \<longleftrightarrow> \<not> c \<and> y = None"
  by simp

lemma case_Some_None:
  "(case x of Some r \<Rightarrow> Some r | None \<Rightarrow> y) = None \<longleftrightarrow> x = None \<and> y = None"
  by (cases x) simp_all

lemma no_reason:
  "protected_edit_reason_of w p = None \<longleftrightarrow>
     \<not> protected_grok_hook_root w p (normal_names p)
     \<and> \<not> (suffix [''.claude'', ''settings.json''] (normal_names p)
          \<or> suffix [''.claude'', ''settings.local.json''] (normal_names p))
     \<and> \<not> suffix [''.cursor'', ''hooks.json''] (normal_names p)
     \<and> \<not> protected_git_hooks_path (normal_names p)
     \<and> ''.ssh'' \<notin> set (normal_names p)
     \<and> (if normal_names p = [] then [] else last (normal_names p)) \<notin> set STARTUP_FILES
     \<and> protected_grok_config_file w p (normal_names p) = None
     \<and> \<not> (path_eq p ''/etc'' \<or> path_starts_with p ''/etc'')"
  unfolding protected_edit_reason_of_def Let_def if_Some_None case_Some_None
  by (simp only: simp_thms)

lemma protected_names_reason:
  assumes "protected_names (normal_names p)"
  shows "protected_edit_reason_of w p \<noteq> None"
proof
  assume n: "protected_edit_reason_of w p = None"
  have c: "\<not> suffix [''.grok'', f] (normal_names p)"
    if "f \<in> {''config.toml'', ''managed_config.toml'', ''requirements.toml'', ''sandbox.toml''}" for f
    using dot_grok_config [OF that] n unfolding no_reason by metis
  have g: "\<not> suffix ([''.git'', ''modules'', sub] @ a @ ''hooks'' # rest) (normal_names p)"
    for sub a rest
    using git_modules_hooks n unfolding no_reason by metis
  have h: "\<not> has_pair (normal_names p) ''.git'' ''hooks''"
    using n unfolding no_reason protected_git_hooks_path_def by metis
  have k: "\<not> has_pair (normal_names p) ''.grok'' ''hooks''"
    "\<not> suffix [''.grok'', ''hooks-paths''] (normal_names p)"
    using n unfolding no_reason protected_grok_hook_root_def by metis+
  have l: "\<not> (normal_names p \<noteq> [] \<and> last (normal_names p) \<in> set STARTUP_FILES)"
    using n unfolding no_reason by metis
  show False
    using assms c g h k l n unfolding protected_names_def no_reason by metis
qed

lemma etc_reason: "path_starts_with p ''/etc'' \<Longrightarrow> protected_edit_reason_of w p \<noteq> None"
  unfolding no_reason by metis

text \<open>
  The forms of the user's own Grok home, lexical and resolved, and what a path may not be there: at
  or below its hooks, its hook list, or one of its configuration files.
\<close>

definition grok_home_forms :: "world \<Rightarrow> path list" where
  "grok_home_forms w =
     (case w_user_grok_home w of
        None \<Rightarrow> []
      | Some h \<Rightarrow> normalize_lexically h
          # (case resolve_following_symlinks w (normalize_lexically h) of Some r \<Rightarrow> [r] | None \<Rightarrow> []))"

definition guarded_in_home :: "path \<Rightarrow> path \<Rightarrow> bool" where
  "guarded_in_home home t \<longleftrightarrow>
     path_starts_with t (path_push home ''hooks'') \<or> path_eq t (path_push home ''hooks-paths'')
     \<or> (map_option components (path_parent t) = Some (components home) \<and> normal_names t \<noteq> []
        \<and> last (normal_names t)
            \<in> {''config.toml'', ''managed_config.toml'', ''requirements.toml'', ''sandbox.toml''})"

lemma home_matches_forms: "grok_home_matches w (w_user_grok_home w) P \<longleftrightarrow> list_ex P (grok_home_forms w)"
  by (auto simp: grok_home_matches_def grok_home_forms_def Let_def split: option.splits)

lemma guarded_in_home_reason:
  assumes "home \<in> set (grok_home_forms w)" and "guarded_in_home home t"
  shows "protected_edit_reason_of w t \<noteq> None"
proof -
  have any: "grok_home_matches w (w_user_grok_home w) P" if "P home" for P
    using that assms(1) by (auto simp: home_matches_forms list_ex_iff)
  consider "path_is_under_user_grok_hook_root t home"
    | "map_option components (path_parent t) = Some (components home)" "grok_config_reason (normal_names t) \<noteq> None"
    using assms(2)
    by (auto simp: guarded_in_home_def path_is_under_user_grok_hook_root_def grok_config_reason_def
        USER_CONFIG_FILENAME_def MANAGED_CONFIG_FILENAME_def REQUIREMENTS_FILENAME_def
        SANDBOX_CONFIG_FILENAME_def)
  then show ?thesis
  proof cases
    case 1
    show ?thesis using 1 any [of "path_is_under_user_grok_hook_root t"]
      unfolding no_reason protected_grok_hook_root_def by metis
  next
    case 2
    note home = any [of "\<lambda>home. map_option components (path_parent t) = Some (components home)", OF 2(1)]
    have "protected_grok_config_file w t (normal_names t) \<noteq> None"
      using 2(2) home by (auto simp: protected_grok_config_file_def protected_grok_config_file_with_home_def Let_def)
    then show ?thesis unfolding no_reason by metis
  qed
qed

text \<open>
  C37. An edit skips the confirmation only when it is harmless in both readings of its path:
  the path is absolute and resolves through its symbolic links, and neither the lexically
  normalized path nor the resolved one lies at or below a hook root, an \<open>.ssh\<close> directory, a
  git hooks directory (submodules included), \<open>/etc\<close>, names a startup or settings file, or is guarded
  in the user's Grok home, wherever the environment puts it; the resolved path is also outside
  wherever \<open>/etc\<close> itself resolves to.
\<close>

theorem unconfirmed_edit_is_unprotected:
  assumes "edit_target_protection w p = None"
  shows "is_absolute p
    \<and> (\<exists>resolved. resolve_following_symlinks w p = Some resolved
        \<and> (\<forall>t \<in> {normalize_lexically p, resolved}.
              \<not> protected_names (normal_names t) \<and> \<not> path_starts_with t ''/etc''
              \<and> (\<forall>home \<in> set (grok_home_forms w). \<not> guarded_in_home home t))
        \<and> (\<exists>etc. resolve_following_symlinks w ''/etc'' = Some etc
              \<and> \<not> path_starts_with resolved etc))"
proof -
  obtain resolved where r: "is_absolute p" "protected_edit_reason_of w (normalize_lexically p) = None"
      "resolve_following_symlinks w p = Some resolved" "protected_edit_reason_of w resolved = None"
      "\<not> resolved_path_is_within_root w resolved ''/etc''"
    using assms by (auto simp: edit_target_protection_def split: if_splits option.splits)
  then have "\<forall>t \<in> {normalize_lexically p, resolved}.
              \<not> protected_names (normal_names t) \<and> \<not> path_starts_with t ''/etc''
              \<and> (\<forall>home \<in> set (grok_home_forms w). \<not> guarded_in_home home t)"
    using protected_names_reason etc_reason guarded_in_home_reason by blast
  then show ?thesis
    using r by (auto simp: resolved_path_is_within_root_def split: option.splits)
qed

definition plain_fs_world :: world where
  "plain_fs_world = sample_world\<lparr>w_canonicalize := (\<lambda>p. Some (normalize_lexically p)),
     w_user_grok_home := Some ''/opt/grok''\<rparr>"

theorem unconfirmed_edit_is_unprotected_witness:
  "\<not> protected_names (normal_names (normalize_lexically ''/w/src/main.rs''))
   \<and> \<not> guarded_in_home ''/opt/grok'' (normalize_lexically ''/w/src/main.rs'')
   \<and> edit_target_protection plain_fs_world ''/opt/grok/hooks/a'' \<noteq> None"
proof -
  have "edit_target_protection plain_fs_world ''/w/src/main.rs'' = None" by code_simp
  from unconfirmed_edit_is_unprotected [OF this]
  have "\<not> protected_names (normal_names (normalize_lexically ''/w/src/main.rs''))"
    "\<forall>home \<in> set (grok_home_forms plain_fs_world). \<not> guarded_in_home home (normalize_lexically ''/w/src/main.rs'')"
    by blast+
  moreover have "''/opt/grok'' \<in> set (grok_home_forms plain_fs_world)" by code_simp
  moreover have "edit_target_protection plain_fs_world ''/opt/grok/hooks/a'' \<noteq> None" by code_simp
  ultimately show ?thesis by blast
qed

end
