(* ===== verification/GB_ExecRisk.thy ===== *)
theory GB_ExecRisk
  imports GB_PolicyMatch
begin

section \<open>Execution risk of a command (permission/exec_risk.rs)\<close>

text \<open>
  Flags that make a read-looking command run other programs, and git configuration that does
  so without a flag: the scan of \<open>git\<close> and \<open>sort\<close> arguments, the read-only query check, the
  tracking of the directory each \<open>git\<close> of a script runs in, and the verdict on a local
  configuration entry. The entries themselves come from libgit2 and are a parameter, as is
  its \<open>parse_bool\<close>.
\<close>

subsection \<open>Peeling wrappers\<close>

datatype normalized_argv = ArgvReady "string list" | ArgvFailClosed

fun normalize_exec_loop :: "nat \<Rightarrow> string list \<Rightarrow> normalized_argv" where
  "normalize_exec_loop 0 current = ArgvFailClosed"
| "normalize_exec_loop (Suc n) current =
     (let checked = unwrap_wrappers_checked current
      in if cw_exhausted checked \<or> cw_has_split_string checked \<or> cw_has_chdir checked
         then ArgvFailClosed
         else case peel_transparent_prefixes (cw_words checked) of
                PeelAmbiguous \<Rightarrow> ArgvFailClosed
              | Ready after_trans \<Rightarrow>
                  if length after_trans = length current then ArgvReady after_trans
                  else if length after_trans = length (cw_words checked)
                  then ArgvReady after_trans
                  else normalize_exec_loop n after_trans)"

definition normalize_for_exec_risk :: "string list \<Rightarrow> normalized_argv" where
  "normalize_for_exec_risk words = normalize_exec_loop MAX_NORMALIZE_ROUNDS words"

definition strip_exe :: "string \<Rightarrow> string" where
  "strip_exe name = (case strip_suffix name ''.exe'' of Some stem \<Rightarrow> stem | None \<Rightarrow> name)"

definition normalized_program_name :: "string list \<Rightarrow> string option" where
  "normalized_program_name words =
     (case first_opt words of
        None \<Rightarrow> None
      | Some raw \<Rightarrow>
          if basename raw = [] then None else Some (strip_exe (ascii_lower (basename raw))))"

definition is_git_program :: "string list \<Rightarrow> bool" where
  "is_git_program words \<longleftrightarrow> normalized_program_name words = Some ''git''"

definition is_sort_program :: "string list \<Rightarrow> bool" where
  "is_sort_program words \<longleftrightarrow> normalized_program_name words = Some ''sort''"

definition normalized_token_basename :: "string \<Rightarrow> string" where
  "normalized_token_basename token = strip_exe (ascii_lower (basename token))"

subsection \<open>Flags\<close>

definition is_accepted_long_option_prefix :: "string \<Rightarrow> string \<Rightarrow> nat \<Rightarrow> bool" where
  "is_accepted_long_option_prefix flag full min_len \<longleftrightarrow>
     starts_with flag ''--'' \<and> length flag \<ge> min_len \<and> starts_with full flag
     \<and> list_all (\<lambda>b. is_ascii_alnum b \<or> b = CHR ''-'') flag"

fun compress_program_loop :: "string list \<Rightarrow> bool" where
  "compress_program_loop [] = False"
| "compress_program_loop (w # ws) =
     (if w = ''--'' then False
      else if w = ''--compress-program'' \<or> starts_with w ''--compress-program='' then True
      else if is_accepted_long_option_prefix (before_char (CHR ''='') w) ''--compress-program'' 4
      then True
      else compress_program_loop ws)"

definition sort_has_compress_program_flag :: "string list \<Rightarrow> bool" where
  "sort_has_compress_program_flag words = compress_program_loop (drop 1 words)"

definition is_git_config_env_flag :: "string \<Rightarrow> bool" where
  "is_git_config_env_flag tok \<longleftrightarrow>
     tok = ''--config-env'' \<or> starts_with tok ''--config-env=''
     \<or> is_accepted_long_option_prefix (before_char (CHR ''='') tok) ''--config-env'' 4"

definition is_git_repo_retarget_flag :: "string \<Rightarrow> bool" where
  "is_git_repo_retarget_flag tok \<longleftrightarrow>
     tok = ''--git-dir'' \<or> starts_with tok ''--git-dir='' \<or> tok = ''--work-tree''
     \<or> starts_with tok ''--work-tree=''
     \<or> is_accepted_long_option_prefix (before_char (CHR ''='') tok) ''--git-dir'' 4
     \<or> is_accepted_long_option_prefix (before_char (CHR ''='') tok) ''--work-tree'' 4"

definition is_attached_git_config_c :: "string \<Rightarrow> bool" where
  "is_attached_git_config_c tok \<longleftrightarrow>
     starts_with tok ''-c'' \<and> length tok > 2 \<and> \<not> starts_with tok ''--''"

definition attached_git_c_path :: "string \<Rightarrow> string option" where
  "attached_git_c_path tok =
     (case strip_prefix tok ''-C'' of
        None \<Rightarrow> None
      | Some rest \<Rightarrow> if rest \<noteq> [] \<and> \<not> starts_with tok ''--'' then Some rest else None)"

definition git_global_option_takes_value :: "string \<Rightarrow> bool" where
  "git_global_option_takes_value tok \<longleftrightarrow>
     tok \<in> {''-C'', ''-c'', ''--git-dir'', ''--work-tree'', ''--namespace'', ''--super-prefix'',
            ''--exec-path'', ''--list-cmds'', ''--attr-source'', ''--config-env''}
     \<or> is_accepted_long_option_prefix tok ''--config-env'' 4
     \<or> is_accepted_long_option_prefix tok ''--git-dir'' 4
     \<or> is_accepted_long_option_prefix tok ''--work-tree'' 4
     \<or> is_accepted_long_option_prefix tok ''--namespace'' 7
     \<or> is_accepted_long_option_prefix tok ''--super-prefix'' 8
     \<or> is_accepted_long_option_prefix tok ''--exec-path'' 7
     \<or> is_accepted_long_option_prefix tok ''--list-cmds'' 7
     \<or> is_accepted_long_option_prefix tok ''--attr-source'' 8"

text \<open>Whether an option at the front takes the next word as its value, in both scans.\<close>

definition consumes_next :: "string \<Rightarrow> string list \<Rightarrow> bool" where
  "consumes_next tok rest \<longleftrightarrow>
     \<not> contains_char tok (CHR ''='') \<and> git_global_option_takes_value tok
     \<and> (case first_opt rest of None \<Rightarrow> False | Some n \<Rightarrow> \<not> starts_with n ''-'' \<or> n = ''-'')"

fun git_risk_loop :: "string list \<Rightarrow> bool" where
  "git_risk_loop [] = False"
| "git_risk_loop (tok # rest) =
     (if tok = ''--'' then False
      else if \<not> starts_with tok ''-'' \<or> tok = ''-'' then False
      else if tok = ''-c'' \<or> is_attached_git_config_c tok \<or> is_git_config_env_flag tok
              \<or> is_git_repo_retarget_flag tok then True
      else if attached_git_c_path tok \<noteq> None then git_risk_loop rest
      else if consumes_next tok rest then git_risk_loop (drop 1 rest)
      else git_risk_loop rest)"

definition git_has_exec_risk_global :: "string list \<Rightarrow> bool" where
  "git_has_exec_risk_global words = git_risk_loop (drop 1 words)"

definition segment_has_exec_risk_flag :: "string list \<Rightarrow> bool" where
  "segment_has_exec_risk_flag words =
     (if is_sort_program words then sort_has_compress_program_flag words
      else if is_git_program words then git_has_exec_risk_global words
      else False)"

record segment_facts =
  sf_exec_risk :: bool
  sf_has_git :: bool

definition segment_exec_facts :: "string list \<Rightarrow> segment_facts" where
  "segment_exec_facts words =
     (case normalize_for_exec_risk words of
        ArgvFailClosed \<Rightarrow> \<lparr>sf_exec_risk = True, sf_has_git = False\<rparr>
      | ArgvReady inner \<Rightarrow>
          \<lparr>sf_exec_risk = segment_has_exec_risk_flag inner, sf_has_git = is_git_program inner\<rparr>)"

subsection \<open>Read-only git queries\<close>

definition SAFE_GIT_SUBCOMMANDS :: "string list" where
  "SAFE_GIT_SUBCOMMANDS =
     [''status'', ''branch'', ''log'', ''diff'', ''ls-files'', ''show'', ''rev-parse'', ''blame'',
      ''grep'', ''describe'', ''merge-base'', ''check-ignore'', ''check-attr'', ''cat-file'',
      ''ls-tree'', ''show-ref'', ''for-each-ref'', ''rev-list'', ''name-rev'', ''count-objects'',
      ''shortlog'']"

definition GIT_QUERY_UNSAFE_OPTIONS :: "string list" where
  "GIT_QUERY_UNSAFE_OPTIONS =
     [''--filters'', ''--textconv'', ''--output'', ''--ext-diff'', ''--open-files-in-pager'']"

definition git_query_option_is_unsafe :: "string \<Rightarrow> bool" where
  "git_query_option_is_unsafe word =
     (let flag = before_char (CHR ''='') word
      in length flag > 2 \<and> list_ex (\<lambda>full. starts_with full flag) GIT_QUERY_UNSAFE_OPTIONS)"

fun verb_index_loop :: "string list \<Rightarrow> nat \<Rightarrow> nat option" where
  "verb_index_loop [] i = None"
| "verb_index_loop (tok # rest) i =
     (if tok = ''-'' \<or> tok = ''--'' then None
      else if \<not> starts_with tok ''-'' then Some i
      else if tok = ''-C'' then verb_index_loop (drop 1 rest) (i + 2)
      else if attached_git_c_path tok \<noteq> None \<or> tok = ''--no-pager'' \<or> tok = ''-P''
      then verb_index_loop rest (i + 1)
      else None)"

definition git_safe_query_verb_index :: "string list \<Rightarrow> nat option" where
  "git_safe_query_verb_index words = verb_index_loop (drop 1 words) 1"

definition git_words_have_unsafe_query_option :: "string list \<Rightarrow> bool" where
  "git_words_have_unsafe_query_option words =
     (if first_opt words \<noteq> Some ''git'' then False
      else if list_ex git_query_option_is_unsafe (drop 1 words) then True
      else (case git_safe_query_verb_index words of
              Some i \<Rightarrow> words ! i = ''grep'' | None \<Rightarrow> False)
           \<and> list_ex (\<lambda>w. starts_with w ''-O'') (drop 1 words))"

definition git_words_are_read_only_query :: "string list \<Rightarrow> bool" where
  "git_words_are_read_only_query words =
     (if first_opt words \<noteq> Some ''git'' then False
      else if git_has_exec_risk_global words then False
      else case git_safe_query_verb_index words of
             None \<Rightarrow> False
           | Some verb_idx \<Rightarrow>
               if words ! verb_idx \<notin> set SAFE_GIT_SUBCOMMANDS then False
               else \<not> git_words_have_unsafe_query_option words)"

subsection \<open>Local configuration\<close>

text \<open>\<open>filter_command_driver\<close> (git_content_filters.rs).\<close>

definition rsplit_once :: "char \<Rightarrow> string \<Rightarrow> (string \<times> string) option" where
  "rsplit_once c s =
     (if c \<notin> set s then None
      else Some (rev (drop 1 (dropWhile (\<lambda>d. d \<noteq> c) (rev s))),
                 rev (takeWhile (\<lambda>d. d \<noteq> c) (rev s))))"

definition filter_command_driver :: "string \<Rightarrow> string option" where
  "filter_command_driver name =
     (case (get_to name 7, get_from name 7) of
        (Some head, Some rest) \<Rightarrow>
          if ascii_lower head \<noteq> ''filter.'' then None
          else (case rsplit_once (CHR ''.'') rest of
                  None \<Rightarrow> None
                | Some (driver, prop) \<Rightarrow>
                    if driver \<noteq> [] \<and> ascii_lower prop \<in> {''clean'', ''smudge'', ''process''}
                    then Some driver else None)
      | _ \<Rightarrow> None)"

text \<open>\<open>parse_bool\<close> is \<open>git2::Config::parse_bool\<close>, \<open>None\<close> for its error.\<close>

definition local_git_config_entry_is_exec ::
  "(string \<Rightarrow> bool option) \<Rightarrow> string \<Rightarrow> string \<Rightarrow> bool" where
  "local_git_config_entry_is_exec parse_bool name0 value0 =
     (let name = ascii_lower name0; val = trim value0
      in if val = [] then False
         else if name = ''core.fsmonitor'' then parse_bool val = None
         else if name = ''diff.external'' then True
         else if (case strip_prefix name ''diff.'' of
                    Some rest \<Rightarrow> ends_with rest ''.command'' \<or> ends_with rest ''.textconv''
                                 \<or> ends_with rest ''.external''
                  | None \<Rightarrow> False) then True
         else if filter_command_driver name \<noteq> None then True
         else (case strip_prefix name ''alias.'' of
                 Some alias \<Rightarrow> alias \<in> set SAFE_GIT_SUBCOMMANDS \<and> starts_with val ''!''
               | None \<Rightarrow> False))"

definition local_repo_config_has_exec_risk ::
  "(string \<Rightarrow> bool option) \<Rightarrow> (path \<Rightarrow> (string \<times> string) list option) \<Rightarrow> path \<Rightarrow> bool" where
  "local_repo_config_has_exec_risk parse_bool entries cwd =
     (case entries cwd of
        None \<Rightarrow> True
      | Some es \<Rightarrow> list_ex (\<lambda>(name, val). local_git_config_entry_is_exec parse_bool name val) es)"

subsection \<open>The directories git runs in\<close>

definition is_static_path_operand :: "string \<Rightarrow> bool" where
  "is_static_path_operand p \<longleftrightarrow>
     p \<noteq> [] \<and> p \<noteq> ''-'' \<and> \<not> starts_with p ''-'' \<and> \<not> contains_char p (CHR 0x24)
     \<and> \<not> contains_char p (CHR 0x60) \<and> \<not> sublist [CHR 0x24, CHR 0x28] p"

definition exec_join_cwd :: "path \<Rightarrow> string \<Rightarrow> path" where
  "exec_join_cwd base operand =
     (if is_absolute operand then operand else path_push base operand)"

fun chdir_target :: "string list \<Rightarrow> string option \<Rightarrow> string option" where
  "chdir_target [] target = target"
| "chdir_target (tok # rest) target =
     (if tok = ''--'' then first_opt rest
      else if starts_with tok ''-'' then None
      else if target \<noteq> None then None
      else chdir_target rest (Some tok))"

definition apply_literal_chdir :: "path \<Rightarrow> string list \<Rightarrow> path option" where
  "apply_literal_chdir cwd words =
     (case chdir_target (drop 1 words) None of
        None \<Rightarrow> None
      | Some target \<Rightarrow>
          if \<not> is_static_path_operand target then None else Some (exec_join_cwd cwd target))"

fun git_cwd_loop :: "string list \<Rightarrow> path \<Rightarrow> path option" where
  "git_cwd_loop [] cwd = Some cwd"
| "git_cwd_loop (tok # rest) cwd =
     (if tok = ''--'' \<or> \<not> starts_with tok ''-'' \<or> tok = ''-'' then Some cwd
      else if is_git_repo_retarget_flag tok then None
      else if tok = ''-C'' then
        (case rest of
           [] \<Rightarrow> None
         | p # rest' \<Rightarrow>
             if \<not> is_static_path_operand p then None
             else git_cwd_loop rest' (exec_join_cwd cwd p))
      else case attached_git_c_path tok of
             Some p \<Rightarrow>
               if \<not> is_static_path_operand p then None
               else git_cwd_loop rest (exec_join_cwd cwd p)
           | None \<Rightarrow>
               if consumes_next tok rest then git_cwd_loop (drop 1 rest) cwd
               else git_cwd_loop rest cwd)"

definition git_effective_cwd :: "string list \<Rightarrow> path \<Rightarrow> path option" where
  "git_effective_cwd words start_cwd = git_cwd_loop (drop 1 words) start_cwd"

datatype ambient_scan_plan = PlanFailClosed | CheckDirs "path list"

fun ambient_loop :: "string list list \<Rightarrow> path \<Rightarrow> path list \<Rightarrow> ambient_scan_plan" where
  "ambient_loop [] cwd git_cwds =
     (if git_cwds = [] then PlanFailClosed else CheckDirs git_cwds)"
| "ambient_loop (raw # segs) cwd git_cwds =
     (case normalize_for_exec_risk raw of
        ArgvFailClosed \<Rightarrow> PlanFailClosed
      | ArgvReady words \<Rightarrow>
          let name = normalized_program_name words
          in if name = Some ''cd'' \<or> name = Some ''pushd'' then
               (case apply_literal_chdir cwd words of
                  Some next_cwd \<Rightarrow> ambient_loop segs next_cwd git_cwds
                | None \<Rightarrow> PlanFailClosed)
             else if name = Some ''popd'' then PlanFailClosed
             else if name = Some ''git'' then
               (case git_effective_cwd words cwd of
                  Some effective \<Rightarrow> ambient_loop segs cwd (git_cwds @ [effective])
                | None \<Rightarrow> PlanFailClosed)
             else ambient_loop segs cwd git_cwds)"

definition ambient_scan_plan_from_segments ::
  "string list list \<Rightarrow> path \<Rightarrow> ambient_scan_plan" where
  "ambient_scan_plan_from_segments raw_segments session_cwd =
     ambient_loop raw_segments session_cwd []"

definition ambient_exec_risk_from_plan ::
  "(string \<Rightarrow> bool option) \<Rightarrow> (path \<Rightarrow> (string \<times> string) list option) \<Rightarrow> ambient_scan_plan \<Rightarrow> bool"
  where
  "ambient_exec_risk_from_plan parse_bool entries plan =
     (case plan of
        PlanFailClosed \<Rightarrow> True
      | CheckDirs dirs \<Rightarrow> list_ex (local_repo_config_has_exec_risk parse_bool entries) dirs)"

subsection \<open>Scripts that do not parse\<close>

definition is_token_separator :: "char \<Rightarrow> bool" where
  "is_token_separator c \<longleftrightarrow>
     c \<in> {CHR 0x7C, CHR 0x26, CHR 0x3B, CHR 0x28, CHR 0x29, CHR 0x60, CHR 0x0A, CHR 0x3C, CHR 0x3E}"

function split_tokens :: "string \<Rightarrow> string \<Rightarrow> string list" where
  "split_tokens [] current = [current]"
| "split_tokens (c # cs) current =
     (if is_token_separator c then current # split_tokens cs []
      else if ws_prefix_len white_space (c # cs) \<noteq> 0 then
        current # split_tokens (drop (ws_prefix_len white_space (c # cs) - 1) cs) []
      else split_tokens cs (current @ [c]))"
  by pat_completeness auto
termination by (relation "measure (\<lambda>(s, _). length s)") auto

definition is_token_quote :: "char \<Rightarrow> bool" where
  "is_token_quote c \<longleftrightarrow> c = quote1 \<or> c = quote2 \<or> c = CHR 0x60"

definition trim_quotes :: "string \<Rightarrow> string" where
  "trim_quotes s = rev (dropWhile is_token_quote (rev (dropWhile is_token_quote s)))"

definition script_may_invoke_git :: "string \<Rightarrow> bool" where
  "script_may_invoke_git cmd =
     list_ex (\<lambda>token. trim_quotes token \<noteq> []
                      \<and> normalized_token_basename (trim_quotes token) = ''git'')
       (split_tokens cmd [])"

section \<open>Properties of the risk checks\<close>

subsection \<open>Read-only queries\<close>

text \<open>The options before the verb that only choose a directory or the pager.\<close>

inductive benign_globals :: "string list \<Rightarrow> bool" where
  none: "benign_globals []"
| dir: "benign_globals gs \<Longrightarrow> benign_globals (''-C'' # p # gs)"
| attached: "attached_git_c_path tok = Some p \<Longrightarrow> benign_globals gs \<Longrightarrow> benign_globals (tok # gs)"
| pager: "tok = ''--no-pager'' \<or> tok = ''-P'' \<Longrightarrow> benign_globals gs \<Longrightarrow> benign_globals (tok # gs)"

lemma verb_index_split:
  "verb_index_loop ws i = Some k \<Longrightarrow>
     \<exists>gs v rest. ws = gs @ v # rest \<and> k = i + length gs \<and> benign_globals gs
       \<and> \<not> starts_with v ''-''"
proof (induction ws i rule: verb_index_loop.induct)
  case (2 tok rest i)
  consider (verb) "\<not> starts_with tok ''-''" "k = i"
    | (dir) "tok = ''-C''" "verb_index_loop (drop 1 rest) (i + 2) = Some k"
    | (flag) "attached_git_c_path tok \<noteq> None \<or> tok = ''--no-pager'' \<or> tok = ''-P''"
        "verb_index_loop rest (i + 1) = Some k"
    using 2(3) by (auto split: if_splits)
  then show ?case
  proof cases
    case verb
    then show ?thesis
      by (intro exI [of _ "[]"] exI [of _ tok] exI [of _ rest]) (simp add: benign_globals.none)
  next
    case dir
    then obtain p rest' where r: "rest = p # rest'" by (cases rest) auto
    obtain gs v args where "rest' = gs @ v # args" "k = i + 2 + length gs" "benign_globals gs"
        "\<not> starts_with v ''-''"
      using 2(1) dir r by auto
    then show ?thesis
      using dir r
      by (intro exI [of _ "''-C'' # p # gs"] exI [of _ v] exI [of _ args])
        (simp add: benign_globals.dir)
  next
    case flag
    have tok: "tok \<noteq> ''-''" "tok \<noteq> ''--''" "starts_with tok ''-''" "tok \<noteq> ''-C''"
      using flag(1) by (auto simp: attached_git_c_path_def str_simps split: option.splits if_splits)
    obtain gs v args where g: "rest = gs @ v # args" "k = i + 1 + length gs" "benign_globals gs"
        "\<not> starts_with v ''-''"
      using 2(2) flag tok by auto
    have "benign_globals (tok # gs)"
      using flag(1) g(3) benign_globals.attached benign_globals.pager by blast
    then show ?thesis
      using g by (intro exI [of _ "tok # gs"] exI [of _ v] exI [of _ args]) simp
  qed
qed simp

lemma safe_verb_split:
  assumes "first_opt words = Some ''git''" and "git_safe_query_verb_index words = Some k"
  shows "\<exists>gs v rest. words = ''git'' # gs @ v # rest \<and> words ! k = v \<and> benign_globals gs"
proof -
  obtain ws where w: "words = ''git'' # ws" using assms(1) by (auto simp: first_opt_Some)
  then obtain gs v rest where "ws = gs @ v # rest" "k = 1 + length gs" "benign_globals gs"
    using assms(2) verb_index_split [of ws 1 k] by (auto simp: git_safe_query_verb_index_def)
  then show ?thesis
    using w by (intro exI [of _ gs] exI [of _ v] exI [of _ rest]) simp
qed

text \<open>
  What passes as a read-only git query is one: the program is literally \<open>git\<close>, the
  options before the verb only choose a directory or the pager, the verb is on the safe list,
  and no word, also not an abbreviation of three letters or more, is an option that runs a
  driver or writes a file; for \<open>grep\<close> no word opens a pager with \<open>-O\<close>.
\<close>

theorem read_only_git_query_sound:
  assumes "git_words_are_read_only_query words"
  shows "\<exists>globals verb args. words = ''git'' # globals @ verb # args
    \<and> benign_globals globals
    \<and> verb \<in> set SAFE_GIT_SUBCOMMANDS
    \<and> (\<forall>w \<in> set (globals @ verb # args). \<not> git_query_option_is_unsafe w)
    \<and> (verb = ''grep'' \<longrightarrow> (\<forall>w \<in> set (globals @ verb # args). \<not> starts_with w ''-O''))"
proof -
  obtain k where k: "first_opt words = Some ''git''" "git_safe_query_verb_index words = Some k"
      "words ! k \<in> set SAFE_GIT_SUBCOMMANDS" "\<not> git_words_have_unsafe_query_option words"
    using assms by (auto simp: git_words_are_read_only_query_def split: if_splits option.splits)
  obtain gs v rest where s: "words = ''git'' # gs @ v # rest" "words ! k = v" "benign_globals gs"
    using safe_verb_split [OF k(1,2)] by blast
  have "\<not> list_ex git_query_option_is_unsafe (drop 1 words)"
    and "v = ''grep'' \<longrightarrow> \<not> list_ex (\<lambda>w. starts_with w ''-O'') (drop 1 words)"
    using k s(2) by (auto simp: git_words_have_unsafe_query_option_def split: if_splits)
  then show ?thesis
    using k(3) s by (intro exI [of _ gs] exI [of _ v] exI [of _ rest])
      (auto simp: list_ex_iff)
qed

theorem read_only_git_query_sound_witness:
  "git_words_are_read_only_query [''git'', ''-C'', ''/r'', ''log'', ''--stat'']
   \<and> \<not> git_words_are_read_only_query [''git'', ''log'', ''--outp=f'']
   \<and> (\<exists>globals verb args.
        [''git'', ''-C'', ''/r'', ''log'', ''--stat''] = ''git'' # globals @ verb # args
        \<and> benign_globals globals \<and> verb \<in> set SAFE_GIT_SUBCOMMANDS)"
proof -
  have q: "git_words_are_read_only_query [''git'', ''-C'', ''/r'', ''log'', ''--stat'']"
    "\<not> git_words_are_read_only_query [''git'', ''log'', ''--outp=f'']"
    by code_simp+
  show ?thesis using read_only_git_query_sound [OF q(1)] q by blast
qed

subsection \<open>Ambient configuration\<close>

text \<open>
  The specification of the directory tracking: in which directories the \<open>git\<close> commands of
  a script run, when its \<open>cd\<close> commands are followed from the session's directory.
\<close>

inductive git_runs_in :: "string list list \<Rightarrow> path \<Rightarrow> path \<Rightarrow> bool" where
  git: "normalize_for_exec_risk raw = ArgvReady words \<Longrightarrow> is_git_program words \<Longrightarrow>
     git_effective_cwd words cwd = Some d \<Longrightarrow> git_runs_in (raw # segs) cwd d"
| chdir: "normalize_for_exec_risk raw = ArgvReady words \<Longrightarrow>
     normalized_program_name words = Some name \<Longrightarrow> name = ''cd'' \<or> name = ''pushd'' \<Longrightarrow>
     apply_literal_chdir cwd words = Some next_cwd \<Longrightarrow>
     git_runs_in segs next_cwd d \<Longrightarrow> git_runs_in (raw # segs) cwd d"
| other: "normalize_for_exec_risk raw = ArgvReady words \<Longrightarrow>
     normalized_program_name words \<notin> {Some ''cd'', Some ''pushd''} \<Longrightarrow>
     git_runs_in segs cwd d \<Longrightarrow> git_runs_in (raw # segs) cwd d"

lemma ambient_loop_keeps: "ambient_loop segs cwd acc = CheckDirs dirs \<Longrightarrow> set acc \<subseteq> set dirs"
proof (induction segs cwd acc rule: ambient_loop.induct)
  case (2 raw segs cwd acc)
  then show ?case
    by (auto simp: Let_def split: normalized_argv.splits if_splits option.splits)
qed (auto split: if_splits)

lemma ambient_loop_covers:
  "git_runs_in segs cwd d \<Longrightarrow> ambient_loop segs cwd acc = CheckDirs dirs \<Longrightarrow> d \<in> set dirs"
proof (induction arbitrary: acc rule: git_runs_in.induct)
  case (git raw words cwd d segs)
  then have "ambient_loop segs cwd (acc @ [d]) = CheckDirs dirs"
    by (simp add: is_git_program_def)
  from ambient_loop_keeps [OF this] show ?case by simp
next
  case (chdir raw words name cwd next_cwd segs d)
  then show ?case by auto
next
  case (other raw words segs cwd d)
  then show ?case by (auto simp: Let_def split: if_splits option.splits)
qed

text \<open>
  A clean ambient verdict covers every directory: if the scan of a script reports no
  risk, then the local configuration of every directory in which one of its \<open>git\<close> commands
  runs was read, and none of its entries runs a program.
\<close>

theorem ambient_scan_covers_git:
  assumes "\<not> ambient_exec_risk_from_plan parse_bool entries
             (ambient_scan_plan_from_segments segs session_cwd)"
    and "git_runs_in segs session_cwd d"
  shows "\<exists>es. entries d = Some es
    \<and> (\<forall>(name, val) \<in> set es. \<not> local_git_config_entry_is_exec parse_bool name val)"
proof -
  obtain dirs where p: "ambient_scan_plan_from_segments segs session_cwd = CheckDirs dirs"
    and "\<not> list_ex (local_repo_config_has_exec_risk parse_bool entries) dirs"
    using assms(1) by (auto simp: ambient_exec_risk_from_plan_def split: ambient_scan_plan.splits)
  moreover have "d \<in> set dirs"
    using ambient_loop_covers [OF assms(2)] p by (auto simp: ambient_scan_plan_from_segments_def)
  ultimately have "\<not> local_repo_config_has_exec_risk parse_bool entries d"
    by (auto simp: list_ex_iff)
  then show ?thesis
    by (auto simp: local_repo_config_has_exec_risk_def list_ex_iff split: option.splits)
qed

text \<open>libgit2's \<open>parse_bool\<close> on the two plain spellings, for the witness.\<close>

definition sample_parse_bool :: "string \<Rightarrow> bool option" where
  "sample_parse_bool s =
     (if s = ''true'' then Some True else if s = ''false'' then Some False else None)"

definition sample_entries :: "path \<Rightarrow> (string \<times> string) list option" where
  "sample_entries d =
     (if d = ''/r/sub'' then Some [(''core.fsmonitor'', ''false''), (''alias.co'', ''!sh'')] else None)"

theorem ambient_scan_covers_git_witness:
  "\<exists>es. sample_entries ''/r/sub'' = Some es
     \<and> (\<forall>(name, val) \<in> set es. \<not> local_git_config_entry_is_exec sample_parse_bool name val)"
proof (rule ambient_scan_covers_git)
  let ?segs = "[[''cd'', ''/r''], [''git'', ''-C'', ''sub'', ''log'']]"
  show "\<not> ambient_exec_risk_from_plan sample_parse_bool sample_entries
          (ambient_scan_plan_from_segments ?segs ''/home'')"
    by code_simp
  have n: "normalize_for_exec_risk [''cd'', ''/r''] = ArgvReady [''cd'', ''/r'']"
    "normalize_for_exec_risk [''git'', ''-C'', ''sub'', ''log'']
     = ArgvReady [''git'', ''-C'', ''sub'', ''log'']"
    "normalized_program_name [''cd'', ''/r''] = Some ''cd''"
    "is_git_program [''git'', ''-C'', ''sub'', ''log'']"
    "apply_literal_chdir ''/home'' [''cd'', ''/r''] = Some ''/r''"
    "git_effective_cwd [''git'', ''-C'', ''sub'', ''log''] ''/r'' = Some ''/r/sub''"
    by code_simp+
  show "git_runs_in ?segs ''/home'' ''/r/sub''"
    by (rule git_runs_in.chdir [OF n(1,3) _ n(5)], simp)
      (rule git_runs_in.git [OF n(2,4,6)])
qed

text \<open>
  A gap in the fail-closed peeling: an \<open>env\<close> whose options are not understood is not peeled
  and raises no risk here, so the git flags behind it are not inspected.
\<close>

lemma uncertain_env_hides_git:
  "segment_exec_facts [''env'', ''--block-signal=INT'', ''git'', ''-c'', ''core.fsmonitor=x'', ''status'']
     = \<lparr>sf_exec_risk = False, sf_has_git = False\<rparr>
   \<and> cw_env_options_uncertain (unwrap_wrappers_checked
       [''env'', ''--block-signal=INT'', ''git'', ''-c'', ''core.fsmonitor=x'', ''status''])
   \<and> sf_exec_risk (segment_exec_facts [''git'', ''-c'', ''core.fsmonitor=x'', ''status''])"
  by code_simp

end
