(* ===== verification/GB_Text.thy ===== *)
theory GB_Text
  imports GB_Prelude
begin

section \<open>Texts and their truncation (xai-grok-tools/src/util/truncate.rs)\<close>

text \<open>
  Lines, decimal numbers and characters of a UTF-8 text, and the functions that cut texts to a
  budget of bytes or characters. A text is the list of its bytes; a character starts at every
  byte that is not a continuation byte. \<open>Cow::Borrowed\<close> and \<open>Cow::Owned\<close> are the same text.
  The floating-point \<open>format_bytes\<close> is not modelled.
\<close>

subsection \<open>Lines of a text\<close>

definition LF :: char where "LF = CHR 0x0A"
definition CR :: char where "CR = CHR 0x0D"

text \<open>\<open>str::split_inclusive('\n')\<close>: the pieces keep their line feed, the last may lack one.\<close>

fun split_inclusive :: "string \<Rightarrow> string list" where
  "split_inclusive [] = []"
| "split_inclusive (c # s) =
     (if c = LF then [LF] # split_inclusive s
      else case split_inclusive s of
             [] \<Rightarrow> [[c]]
           | w # ws \<Rightarrow> (c # w) # ws)"

text \<open>\<open>str::lines\<close>: a line feed is taken off, and then a carriage return before it.\<close>

definition strip_line_end :: "string \<Rightarrow> string" where
  "strip_line_end l =
     (case strip_suffix l [LF] of
        None \<Rightarrow> l
      | Some l1 \<Rightarrow> (case strip_suffix l1 [CR] of None \<Rightarrow> l1 | Some l2 \<Rightarrow> l2))"

definition text_lines :: "string \<Rightarrow> string list" where
  "text_lines s = map strip_line_end (split_inclusive s)"

text \<open>\<open>writeln!\<close> of one piece of text.\<close>

definition writeln :: "string \<Rightarrow> string" where
  "writeln s = s @ [LF]"

definition writelns :: "string list \<Rightarrow> string" where
  "writelns ls = concat (map writeln ls)"

fun dec_digits :: "nat \<Rightarrow> string" where
  "dec_digits n =
     (if n < 10 then [char_of (48 + n)]
      else dec_digits (n div 10) @ [char_of (48 + n mod 10)])"

declare dec_digits.simps [simp del]

subsection \<open>Characters\<close>

definition char_starts :: "string \<Rightarrow> nat list" where
  "char_starts s = filter (\<lambda>i. \<not> is_continuation (s ! i)) [0..<length s]"

definition char_count :: "string \<Rightarrow> nat" where
  "char_count s = length (char_starts s)"

text \<open>\<open>char_indices().nth(n).map(|(i, _)| i).unwrap_or(d)\<close>\<close>

definition char_index_or :: "nat \<Rightarrow> string \<Rightarrow> nat \<Rightarrow> nat" where
  "char_index_or d s n = (case nth_opt (char_starts s) n of Some i \<Rightarrow> i | None \<Rightarrow> d)"

subsection \<open>Cutting at a character boundary\<close>

text \<open>\<open>while !s.is_char_boundary(end) { end -= 1 }\<close>\<close>

fun back_to_boundary :: "string \<Rightarrow> nat \<Rightarrow> nat" where
  "back_to_boundary s 0 = 0"
| "back_to_boundary s (Suc n) =
     (if is_char_boundary s (Suc n) then Suc n else back_to_boundary s n)"

definition truncate_str :: "string \<Rightarrow> nat \<Rightarrow> string" where
  "truncate_str s max_bytes =
     (if length s \<le> max_bytes then s else take (back_to_boundary s max_bytes) s)"

definition TRUNCATION_MARKER :: string where
  "TRUNCATION_MARKER = [CHR 0xE2, CHR 0x80, CHR 0xA6]"

definition truncate_str_with_marker :: "string \<Rightarrow> nat \<Rightarrow> string" where
  "truncate_str_with_marker s max_bytes =
     (if length s \<le> max_bytes then s
      else if length TRUNCATION_MARKER > max_bytes then truncate_str s max_bytes
      else take (back_to_boundary s (max_bytes - length TRUNCATION_MARKER)) s
             @ TRUNCATION_MARKER)"

definition floor_char_boundary :: "string \<Rightarrow> nat \<Rightarrow> nat" where
  "floor_char_boundary s index =
     (if index \<ge> length s then length s else back_to_boundary s index)"

function ceil_char_boundary :: "string \<Rightarrow> nat \<Rightarrow> nat" where
  "ceil_char_boundary s index =
     (if index \<ge> length s then length s
      else if is_char_boundary s index then index
      else ceil_char_boundary s (index + 1))"
  by pat_completeness auto
termination by (relation "measure (\<lambda>(s, i). length s - i)") auto

declare ceil_char_boundary.simps [simp del]

definition truncate_line :: "string \<Rightarrow> nat \<Rightarrow> string" where
  "truncate_line line max_chars =
     (if length line \<le> max_chars then line
      else let n = char_count line
      in if n \<le> max_chars then line
         else take (char_index_or (length line) line max_chars) line
                @ '' [... truncated ('' @ dec_digits n @ '' chars total)]'')"

subsection \<open>Soft wrapping\<close>

text \<open>
  A wrap width of zero makes the division in the capacity estimate panic (\<open>None\<close>) on every line
  that has to be wrapped.
\<close>

fun soft_wrap_chars :: "nat \<Rightarrow> nat \<Rightarrow> string \<Rightarrow> string" where
  "soft_wrap_chars width n [] = []"
| "soft_wrap_chars width n (c # s) =
     (if is_continuation c then c # soft_wrap_chars width n s
      else if n \<ge> width then LF # c # soft_wrap_chars width 1 s
      else c # soft_wrap_chars width (n + 1) s)"

definition soft_wrap_line :: "string \<Rightarrow> nat \<Rightarrow> string option" where
  "soft_wrap_line line wrap_width =
     (if length line \<le> wrap_width then Some line
      else if char_count line \<le> wrap_width then Some line
      else if wrap_width = 0 then None
      else Some (soft_wrap_chars wrap_width 0 line))"

definition soft_wrap_lines :: "string \<Rightarrow> nat \<Rightarrow> string option" where
  "soft_wrap_lines s wrap_width =
     map_option
       (\<lambda>ls. join_with [LF] ls @ (if ends_with s [LF] \<and> s \<noteq> [] then [LF] else []))
       (those (map (\<lambda>l. soft_wrap_line l wrap_width) (text_lines s)))"

subsection \<open>Previews\<close>

record partial_output =
  po_text :: string
  po_total_bytes :: nat

definition whole_output :: "string \<Rightarrow> partial_output" where
  "whole_output s = \<lparr>po_text = s, po_total_bytes = length s\<rparr>"

definition part_of_output :: "string \<Rightarrow> nat \<Rightarrow> partial_output" where
  "part_of_output s total_bytes = \<lparr>po_text = s, po_total_bytes = max total_bytes (length s)\<rparr>"

definition truncate_with_preview ::
  "partial_output \<Rightarrow> nat \<Rightarrow> nat \<Rightarrow> string option \<Rightarrow> string \<times> bool" where
  "truncate_with_preview output max_bytes preview_bytes footer_hint =
     (let s = po_text output; total_bytes = po_total_bytes output;
          whole = (total_bytes \<le> length s)
      in if whole \<and> length s \<le> max_bytes then (s, False)
         else let footer =
                (case footer_hint of
                   Some hint \<Rightarrow>
                     ''[Output truncated - '' @ dec_digits total_bytes @ '' bytes total. '' @ hint @ '']''
                 | None \<Rightarrow> ''[Output truncated - '' @ dec_digits total_bytes @ '' bytes total]'')
         in if length s \<le> max_bytes then (s @ [LF, LF] @ footer, True)
            else (truncate_str s (min preview_bytes (length s)) @ [LF, LF] @ footer, True))"

subsection \<open>Cutting out the middle\<close>

definition FRONT_BACK_TRUNCATION_MARKER :: string where
  "FRONT_BACK_TRUNCATION_MARKER = [LF, LF] @ ''... (output truncated) ...'' @ [LF, LF]"

definition truncate_front_and_back :: "string \<Rightarrow> nat \<Rightarrow> string \<times> bool" where
  "truncate_front_and_back s max_chars =
     (if length s \<le> max_chars then (s, False)
      else let half = max_chars div 2;
               front_end = char_index_or (length s) s half;
               total_chars = char_count s;
               back_start = (if total_chars \<le> half then 0
                             else char_index_or 0 s (total_chars - half))
           in (take front_end s @ FRONT_BACK_TRUNCATION_MARKER @ drop back_start s, True))"

definition truncate_middle :: "string \<Rightarrow> nat \<Rightarrow> string" where
  "truncate_middle s max_chars =
     (let n = char_count s
      in if n \<le> max_chars then s
         else let remaining = max_chars - 3;
                  front_count = remaining div 2;
                  back_count = remaining - front_count;
                  front_end = char_index_or (length s) s front_count;
                  back_start = (if n \<le> back_count then 0 else char_index_or 0 s (n - back_count))
              in take front_end s @ ''...'' @ drop back_start s)"

definition truncate_lines_to_char_budget :: "string \<Rightarrow> nat \<Rightarrow> string \<times> bool" where
  "truncate_lines_to_char_budget content budget =
     (let trimmed = trim content
      in if length trimmed \<le> budget then (trimmed, False)
         else let byte_end = min budget (length trimmed);
                  safe_end = (case find (is_char_boundary trimmed) (rev [0..<byte_end + 1]) of
                                Some i \<Rightarrow> i | None \<Rightarrow> 0);
                  truncated = take safe_end trimmed
              in case find (\<lambda>i. truncated ! i = LF) (rev [0..<length truncated]) of
                   Some idx \<Rightarrow> (trim (take idx trimmed), True)
                 | None \<Rightarrow>
                     (''... [First line would be too large to fit within character budget] ...'',
                      True))"

section \<open>Properties of truncation\<close>

subsection \<open>Counting characters\<close>

lemma char_count_filter: "char_count s = length (filter (\<lambda>c. \<not> is_continuation c) s)"
proof -
  have "filter (\<lambda>c. \<not> is_continuation c) (map ((!) s) [0..<length s])
      = map ((!) s) (char_starts s)"
    by (simp add: filter_map o_def char_starts_def)
  then show ?thesis
    unfolding map_nth char_count_def by simp
qed

lemma char_count_append [simp]: "char_count (s @ t) = char_count s + char_count t"
  by (simp add: char_count_filter)

lemma char_count_le: "char_count s \<le> length s"
  by (simp add: char_count_filter)

lemma char_count_take_index:
  assumes "n < char_count s"
  shows "char_count (take (char_starts s ! n) s) = n"
proof -
  define i where "i = char_starts s ! n"
  let ?Q = "\<lambda>i. \<not> is_continuation (s ! i)"
  have "i \<in> set (char_starts s)" using assms by (simp add: char_count_def i_def)
  then have i: "i < length s" "?Q i" by (auto simp: char_starts_def)
  have "[0..<length s] = [0..<i] @ i # [Suc i..<length s]"
    using i(1) upt_add_eq_append [of 0 i "length s - i"] by (simp add: upt_conv_Cons)
  then have split: "char_starts s = filter ?Q [0..<i] @ i # filter ?Q [Suc i..<length s]"
    using i(2) by (simp add: char_starts_def)
  have "distinct (char_starts s)" by (simp add: char_starts_def)
  moreover have "char_starts s ! length (filter ?Q [0..<i]) = i"
    by (subst split) simp
  moreover have "length (filter ?Q [0..<i]) < length (char_starts s)"
    by (subst split) simp
  ultimately have "length (filter ?Q [0..<i]) = n"
    using assms nth_eq_iff_index_eq unfolding char_count_def by (metis i_def)
  moreover have "char_starts (take i s) = filter ?Q [0..<i]"
    using i(1) by (auto simp: char_starts_def intro!: filter_cong)
  ultimately show ?thesis by (simp add: char_count_def flip: i_def)
qed

lemma char_index_or_Some: "n < char_count s \<Longrightarrow> char_index_or d s n = char_starts s ! n"
  by (simp add: char_index_or_def nth_opt_def char_count_def)

lemma char_index_or_None: "n \<ge> char_count s \<Longrightarrow> char_index_or d s n = d"
  by (simp add: char_index_or_def nth_opt_def char_count_def)

lemma char_count_front: "n < char_count s \<Longrightarrow> char_count (take (char_index_or d s n) s) = n"
  by (simp add: char_index_or_Some char_count_take_index)

lemma char_count_back:
  assumes "n < char_count s"
  shows "char_count (drop (char_index_or d s n) s) = char_count s - n"
proof -
  have "char_count s = char_count (take (char_index_or d s n) s) + char_count (drop (char_index_or d s n) s)"
    by (simp flip: char_count_append)
  then show ?thesis using char_count_front [OF assms, of d] by simp
qed

lemma char_index_or_first: "s \<noteq> [] \<Longrightarrow> \<not> is_continuation (hd s) \<Longrightarrow> char_index_or d s 0 = 0"
  by (cases s) (simp_all add: char_index_or_def char_starts_def upt_conv_Cons del: upt_Suc)

text \<open>
  Cutting out the middle keeps to its budget of characters only from four characters on:
  then the result has exactly the budgeted number. With a smaller budget the text is not cut at
  all; it comes back whole behind the marker, longer than it was.
\<close>

theorem truncate_middle_budget:
  assumes "\<not> is_continuation (hd s)" and "max_chars < char_count s"
  shows "if max_chars \<le> 3 then truncate_middle s max_chars = ''...'' @ s
    else char_count (truncate_middle s max_chars) = max_chars"
proof (cases "max_chars \<le> 3")
  case True
  have "char_index_or (length s) s 0 = 0"
    using assms by (intro char_index_or_first) (auto simp: char_count_filter)
  then show ?thesis
    using True assms by (simp add: truncate_middle_def Let_def char_index_or_None)
next
  case False
  let ?front = "(max_chars - 3) div 2"
  let ?tail = "max_chars - 3 - ?front"
  have budget: "0 < ?tail" "?tail < char_count s" "?front < char_count s"
    using False assms by auto
  have dots: "char_count (CHR ''.'' # CHR ''.'' # CHR ''.'' # t) = 3 + char_count t" for t
    by (simp add: char_count_filter is_continuation_def)
  have cut: "char_count s - ?tail < char_count s"
    using budget by (intro diff_less) auto
  have "char_count (truncate_middle s max_chars) = ?front + 3 + ?tail"
    using assms False budget char_count_front [OF budget(3), of "length s"]
      char_count_back [OF cut, of 0]
    by (simp add: truncate_middle_def Let_def dots)
  also have "\<dots> = max_chars" using False by simp
  finally show ?thesis using False by simp
qed

theorem truncate_middle_budget_witness:
  "truncate_middle ''abcdef'' 3 = ''...abcdef''
   \<and> char_count (truncate_middle ''abcdef'' 5) = 5"
proof -
  have "char_count ''abcdef'' = 6" by code_simp
  then show ?thesis
    using truncate_middle_budget [of "''abcdef''" 3] truncate_middle_budget [of "''abcdef''" 5]
    by (simp add: is_continuation_def)
qed

text \<open>
  Cutting front and back measures the budget in bytes but cuts in characters: a text that is
  over the budget in bytes and has at most half that many characters comes back twice.
\<close>

lemma front_and_back_twice:
  assumes "max_chars < length s" and "char_count s \<le> max_chars div 2"
  shows "truncate_front_and_back s max_chars = (s @ FRONT_BACK_TRUNCATION_MARKER @ s, True)"
  using assms by (simp add: truncate_front_and_back_def Let_def char_index_or_None)

subsection \<open>Byte budgets\<close>

lemma back_to_boundary_le: "back_to_boundary s n \<le> n"
  by (induction s n rule: back_to_boundary.induct) auto

lemma back_to_boundary_ok: "is_char_boundary s (back_to_boundary s n)"
  by (induction s n rule: back_to_boundary.induct) (auto simp: is_char_boundary_def)

text \<open>The step back is short: only continuation bytes are skipped.\<close>

lemma back_to_boundary_skips:
  "back_to_boundary s n < j \<Longrightarrow> j \<le> n \<Longrightarrow> \<not> is_char_boundary s j"
proof (induction s n rule: back_to_boundary.induct)
  case (2 s n)
  then show ?case by (cases "j = Suc n") (auto split: if_splits)
qed simp

text \<open>
  Cutting a text to a byte budget stays within the budget, returns a fitting text as it is,
  and otherwise keeps the longest whole-character prefix that leaves room for the marker, which
  is dropped when it does not fit itself.
\<close>

theorem truncate_str_with_marker_fits:
  "length (truncate_str_with_marker s max_bytes) \<le> max_bytes
   \<and> (if length s \<le> max_bytes then truncate_str_with_marker s max_bytes = s
      else \<exists>i marker. truncate_str_with_marker s max_bytes = take i s @ marker
        \<and> is_char_boundary s i
        \<and> marker = (if max_bytes < 3 then [] else TRUNCATION_MARKER)
        \<and> (\<forall>j. is_char_boundary s j \<and> j + length marker \<le> max_bytes \<longrightarrow> j \<le> i))"
proof -
  have marker: "length TRUNCATION_MARKER = 3" by (simp add: TRUNCATION_MARKER_def)
  have longest: "j \<le> back_to_boundary s n" if "is_char_boundary s j" "j \<le> n" for j n
    using back_to_boundary_skips [of s n j] that by (meson not_le)
  consider (fits) "length s \<le> max_bytes" | (bare) "max_bytes < length s" "max_bytes < 3"
    | (marked) "max_bytes < length s" "3 \<le> max_bytes"
    by linarith
  then show ?thesis
  proof cases
    case bare
    then have "truncate_str_with_marker s max_bytes = take (back_to_boundary s max_bytes) s @ []"
      by (simp add: truncate_str_with_marker_def truncate_str_def marker)
    then show ?thesis
      using bare longest back_to_boundary_ok back_to_boundary_le [of s max_bytes]
      by (auto intro!: exI [of _ "back_to_boundary s max_bytes"])
  next
    case marked
    let ?i = "back_to_boundary s (max_bytes - 3)"
    have "truncate_str_with_marker s max_bytes = take ?i s @ TRUNCATION_MARKER"
      using marked by (simp add: truncate_str_with_marker_def marker)
    then show ?thesis
      using marked longest [of _ "max_bytes - 3"] back_to_boundary_ok
        back_to_boundary_le [of s "max_bytes - 3"]
      by (auto simp: marker intro!: exI [of _ ?i])
  qed (simp add: truncate_str_with_marker_def)
qed

theorem truncate_str_with_marker_fits_witness:
  "length (truncate_str_with_marker ''abcdef'' 5) \<le> 5"
  using truncate_str_with_marker_fits [of "''abcdef''" 5] by simp

subsection \<open>Soft wrapping loses nothing\<close>

lemma soft_wrap_chars_content:
  "LF \<notin> set s \<Longrightarrow> filter (\<lambda>c. c \<noteq> LF) (soft_wrap_chars width n s) = s"
  by (induction width n s rule: soft_wrap_chars.induct) auto

lemma LF_not_continuation: "\<not> is_continuation LF"
  by (simp add: LF_def is_continuation_def)

lemma char_count_Cons: "char_count (c # s) = (if is_continuation c then 0 else 1) + char_count s"
  by (simp add: char_count_filter)

lemma soft_wrap_chars_pieces:
  assumes "0 < width" and "n \<le> width" and "LF \<notin> set s"
  shows "\<exists>p ps. split_char LF (soft_wrap_chars width n s) = p # ps
    \<and> n + char_count p \<le> width \<and> (\<forall>q \<in> set ps. char_count q \<le> width)"
  using assms
proof (induction width n s rule: soft_wrap_chars.induct)
  case (1 width n)
  then show ?case by (simp add: char_count_filter)
next
  case (2 width n c s)
  then have c: "c \<noteq> LF" by auto
  have pieces: "split_char LF (c # t) = (c # p) # ps" if "split_char LF t = p # ps" for t p ps
    using that c by simp
  show ?case
  proof (cases "is_continuation c")
    case True
    then obtain p ps where "split_char LF (soft_wrap_chars width n s) = p # ps"
      "n + char_count p \<le> width" "\<forall>q \<in> set ps. char_count q \<le> width"
      using 2 by auto
    then show ?thesis using True c by (simp add: pieces char_count_Cons)
  next
    case False
    note start = this
    show ?thesis
    proof (cases "n < width")
      case True
      then obtain p ps where "split_char LF (soft_wrap_chars width (n + 1) s) = p # ps"
        "n + 1 + char_count p \<le> width" "\<forall>q \<in> set ps. char_count q \<le> width"
        using 2 start by auto
      then show ?thesis using True start c by (simp add: pieces char_count_Cons)
    next
      case False
      then obtain p ps where "split_char LF (soft_wrap_chars width 1 s) = p # ps"
        "1 + char_count p \<le> width" "\<forall>q \<in> set ps. char_count q \<le> width"
        using 2 start by auto
      then show ?thesis
        using False start 2(5) c by (simp add: pieces char_count_Cons) (simp add: char_count_filter)
    qed
  qed
qed

text \<open>
  Soft wrapping loses nothing and keeps to its width: for a positive width and a line
  without line feeds it answers a text that gives the line back when the inserted line feeds are
  dropped, and none of whose lines has more characters than the width.
\<close>

theorem soft_wrap_roundtrip:
  assumes "0 < width" and "LF \<notin> set line"
  shows "\<exists>out. soft_wrap_line line width = Some out \<and> filter (\<lambda>c. c \<noteq> LF) out = line
    \<and> (\<forall>q \<in> set (split_char LF out). char_count q \<le> width)"
proof (cases "char_count line \<le> width")
  case True
  have "filter (\<lambda>c. c \<noteq> LF) line = line" using assms(2) by (auto simp: filter_id_conv)
  then show ?thesis
    using True assms(2) by (simp add: soft_wrap_line_def split_char_no)
next
  case False
  moreover from this have "width < length line" using char_count_le [of line] by linarith
  ultimately show ?thesis
    using assms soft_wrap_chars_content [of line width 0]
      soft_wrap_chars_pieces [of width 0 line]
    by (auto simp: soft_wrap_line_def)
qed

theorem soft_wrap_roundtrip_witness:
  "\<exists>out. soft_wrap_line ''abcdef'' 4 = Some out \<and> filter (\<lambda>c. c \<noteq> LF) out = ''abcdef''
    \<and> (\<forall>q \<in> set (split_char LF out). char_count q \<le> 4)"
  by (rule soft_wrap_roundtrip) (simp_all add: LF_def)

end
