(* ===== verification/GB_Diff.thy ===== *)
theory GB_Diff
  imports GB_Paths GB_Text
begin

section \<open>Hunks of a changed file (xai-hunk-tracker/src/diff.rs, types.rs)\<close>

text \<open>
  The line diff that the hunk tracker shows to the user: the hunks of a baseline and a current
  text, their matching across recomputations, the patches they print and the replacement of
  lines that accepts or rejects one. The diff algorithm is the crate \<open>similar\<close>: its list of
  changes is a parameter, with its documented reading (\<open>diff_ok\<close>) as the hypothesis of the
  theorems. Line numbers are \<open>usize\<close>; hunks of texts under the size limit keep far below
  overflow, and only the saturating additions are written out. An identifier is a uuid in the
  code and the next number of a counter here. \<open>created_at\<close> is left out.
\<close>

subsection \<open>Hunks\<close>

type_synonym hunk_id = nat

record hunk_line_info =
  old_start :: nat
  old_count :: nat
  new_start :: nat
  new_count :: nat

text \<open>\<open>HunkLineInfo\<close> displayed.\<close>

definition show_line_info :: "hunk_line_info \<Rightarrow> string" where
  "show_line_info li =
     ''@@ -'' @ dec_digits (old_start li) @ '','' @ dec_digits (old_count li)
     @ '' +'' @ dec_digits (new_start li) @ '','' @ dec_digits (new_count li) @ '' @@''"

datatype hunk_source = AgentEdit nat | ExternalEditOnAgentFile | External

fun is_agent_edit :: "hunk_source \<Rightarrow> bool" where
  "is_agent_edit (AgentEdit _) = True"
| "is_agent_edit _ = False"

fun is_agent_tracked :: "hunk_source \<Rightarrow> bool" where
  "is_agent_tracked External = False"
| "is_agent_tracked _ = True"

fun is_external :: "hunk_source \<Rightarrow> bool" where
  "is_external (AgentEdit _) = False"
| "is_external _ = True"

fun source_prompt_index :: "hunk_source \<Rightarrow> nat option" where
  "source_prompt_index (AgentEdit p) = Some p"
| "source_prompt_index _ = None"

record hunk =
  h_id :: hunk_id
  h_path :: path
  h_line_info :: hunk_line_info
  h_source :: hunk_source
  h_old_text :: "string option"
  h_new_text :: string
  h_patch :: "string option"
  h_selected :: bool

text \<open>The whole-file hunks of a created and of a deleted file.\<close>

definition file_created :: "hunk_id \<Rightarrow> path \<Rightarrow> string \<Rightarrow> hunk_source \<Rightarrow> hunk" where
  "file_created i p content src =
     (let line_count = max (length (text_lines content)) 1
      in \<lparr>h_id = i, h_path = p,
          h_line_info = \<lparr>old_start = 0, old_count = 0, new_start = 1, new_count = line_count\<rparr>,
          h_source = src, h_old_text = None, h_new_text = content, h_patch = None,
          h_selected = False\<rparr>)"

definition file_deleted :: "hunk_id \<Rightarrow> path \<Rightarrow> string \<Rightarrow> hunk_source \<Rightarrow> hunk" where
  "file_deleted i p content src =
     (let line_count = max (length (text_lines content)) 1
      in \<lparr>h_id = i, h_path = p,
          h_line_info = \<lparr>old_start = 1, old_count = line_count, new_start = 0, new_count = 0\<rparr>,
          h_source = src, h_old_text = Some content, h_new_text = [], h_patch = None,
          h_selected = False\<rparr>)"

definition hunk_summary :: "hunk \<Rightarrow> string" where
  "hunk_summary h =
     (let additions = length (text_lines (h_new_text h));
          deletions = (case h_old_text h of Some t \<Rightarrow> length (text_lines t) | None \<Rightarrow> 0)
      in ''+'' @ dec_digits additions @ ''/-'' @ dec_digits deletions)"

definition hunk_display_path :: "hunk \<Rightarrow> string" where
  "hunk_display_path h = h_path h @ '':'' @ dec_digits (new_start (h_line_info h))"

subsection \<open>compute_hunks\<close>

definition MAX_DIFF_FILE_SIZE :: nat where "MAX_DIFF_FILE_SIZE = 1024 * 1024"

definition CONTEXT_LINES :: nat where "CONTEXT_LINES = 3"

text \<open>The crate's changes, in order; no result stands for a diff that hit the timeout.\<close>

datatype change_tag = Equal | Delete | Insert

type_synonym change = "change_tag \<times> string"
type_synonym line_diff = "string \<Rightarrow> string \<Rightarrow> change list option"

record hunk_builder =
  hb_old_start :: nat
  hb_new_start :: nat
  hb_old_lines :: "string list"
  hb_new_lines :: "string list"

definition builder_new :: "nat \<Rightarrow> nat \<Rightarrow> hunk_builder" where
  "builder_new old_line new_line =
     \<lparr>hb_old_start = old_line, hb_new_start = new_line, hb_old_lines = [], hb_new_lines = []\<rparr>"

definition add_old_line :: "hunk_builder \<Rightarrow> string \<Rightarrow> hunk_builder" where
  "add_old_line b l = b\<lparr>hb_old_lines := hb_old_lines b @ [l]\<rparr>"

definition add_new_line :: "hunk_builder \<Rightarrow> string \<Rightarrow> hunk_builder" where
  "add_new_line b l = b\<lparr>hb_new_lines := hb_new_lines b @ [l]\<rparr>"

definition builder_build :: "hunk_builder \<Rightarrow> path \<Rightarrow> hunk_source \<Rightarrow> hunk_id \<Rightarrow> hunk" where
  "builder_build b p src i =
     \<lparr>h_id = i, h_path = p,
      h_line_info = \<lparr>old_start = hb_old_start b, old_count = length (hb_old_lines b),
                     new_start = hb_new_start b, new_count = length (hb_new_lines b)\<rparr>,
      h_source = src,
      h_old_text = (if hb_old_lines b = [] then None else Some (concat (hb_old_lines b))),
      h_new_text = concat (hb_new_lines b), h_patch = None, h_selected = False\<rparr>"

text \<open>
  The loop over the changes with its four variables: the line positions, the hunk in progress
  and, for the identifiers, the counter.
\<close>

fun hunk_loop :: "path \<Rightarrow> hunk_source \<Rightarrow> hunk_id \<Rightarrow> nat \<Rightarrow> nat \<Rightarrow> hunk_builder option
    \<Rightarrow> change list \<Rightarrow> hunk list" where
  "hunk_loop p src i old_line new_line cur [] =
     (case cur of None \<Rightarrow> [] | Some b \<Rightarrow> [builder_build b p src i])"
| "hunk_loop p src i old_line new_line cur ((Equal, l) # cs) =
     (case cur of
        None \<Rightarrow> hunk_loop p src i (old_line + 1) (new_line + 1) None cs
      | Some b \<Rightarrow>
          builder_build b p src i # hunk_loop p src (i + 1) (old_line + 1) (new_line + 1) None cs)"
| "hunk_loop p src i old_line new_line cur ((Delete, l) # cs) =
     (let b = (case cur of None \<Rightarrow> builder_new old_line new_line | Some b \<Rightarrow> b)
      in hunk_loop p src i (old_line + 1) new_line (Some (add_old_line b l)) cs)"
| "hunk_loop p src i old_line new_line cur ((Insert, l) # cs) =
     (let b = (case cur of None \<Rightarrow> builder_new old_line new_line | Some b \<Rightarrow> b)
      in hunk_loop p src i old_line (new_line + 1) (Some (add_new_line b l)) cs)"

text \<open>The hunks take the identifiers \<open>i, i + 1, \<dots>\<close> in order.\<close>

definition compute_hunks ::
    "line_diff \<Rightarrow> hunk_id \<Rightarrow> path \<Rightarrow> string \<Rightarrow> string \<Rightarrow> hunk_source \<Rightarrow> hunk list" where
  "compute_hunks diff i p baseline current src =
     (if baseline = current then []
      else if length baseline > MAX_DIFF_FILE_SIZE \<or> length current > MAX_DIFF_FILE_SIZE then []
      else case diff baseline current of
             None \<Rightarrow> []
           | Some changes \<Rightarrow> hunk_loop p src i 1 1 None changes)"

subsection \<open>Patches and line replacement\<close>

definition patch_lines :: "string \<Rightarrow> nat \<Rightarrow> nat \<Rightarrow> string \<Rightarrow> string" where
  "patch_lines content start_line remove_count insert_text =
     (let lines = text_lines content;
          start_idx = start_line - 1;
          result = take (min start_idx (length lines)) lines
                   @ (if insert_text = [] then [] else text_lines insert_text)
                   @ drop (min (start_idx + remove_count) (length lines)) lines;
          output = join_with [LF] result
      in if ends_with content [LF] \<and> output \<noteq> [] then output @ [LF] else output)"

text \<open>
  The two totals of the header are sums with a subtraction that wraps around when the hunk
  reaches beyond the text.
\<close>

definition usize_of_int :: "int \<Rightarrow> nat" where
  "usize_of_int k = nat (k mod 2 ^ 64)"

definition generate_hunk_patch :: "string \<Rightarrow> string \<Rightarrow> hunk \<Rightarrow> string" where
  "generate_hunk_patch baseline current h =
     (let old_lines = text_lines baseline;
          new_lines = text_lines current;
          li = h_line_info h;
          old_start_idx = old_start li - 1;
          new_start_idx = new_start li - 1;
          before_start = old_start_idx - CONTEXT_LINES;
          before_end = old_start_idx;
          end_new = new_start_idx + new_count li;
          after_end = min (end_new + CONTEXT_LINES) (length new_lines);
          end_old = old_start_idx + old_count li;
          after_end_old = min (end_old + CONTEXT_LINES) (length old_lines);
          total_old_lines = usize_of_int (int (before_end - before_start) + int (old_count li)
                                          + (int after_end_old - int end_old));
          total_new_lines = usize_of_int (int (before_end - before_start) + int (new_count li)
                                          + (int after_end - int end_new))
      in writeln (''@@ -'' @ dec_digits (before_start + 1) @ '','' @ dec_digits total_old_lines
                  @ '' +'' @ dec_digits (before_start + 1) @ '','' @ dec_digits total_new_lines
                  @ '' @@'')
         @ concat (map (\<lambda>i. case nth_opt old_lines i of
                              Some l \<Rightarrow> writeln ('' '' @ l) | None \<Rightarrow> []) [before_start..<before_end])
         @ (case h_old_text h of
              Some t \<Rightarrow> concat (map (\<lambda>l. writeln (''-'' @ l)) (text_lines t)) | None \<Rightarrow> [])
         @ concat (map (\<lambda>l. writeln (''+'' @ l)) (text_lines (h_new_text h)))
         @ concat (map (\<lambda>i. case nth_opt new_lines i of
                              Some l \<Rightarrow> writeln ('' '' @ l) | None \<Rightarrow> []) [end_new..<after_end]))"

definition format_unified_diff :: "hunk \<Rightarrow> string" where
  "format_unified_diff h =
     writeln (''--- a/'' @ h_path h) @ writeln (''+++ b/'' @ h_path h)
     @ writeln (show_line_info (h_line_info h))
     @ (case h_old_text h of
          Some t \<Rightarrow> concat (map (\<lambda>l. writeln (''-'' @ l)) (text_lines t)) | None \<Rightarrow> [])
     @ concat (map (\<lambda>l. writeln (''+'' @ l)) (text_lines (h_new_text h)))"

text \<open>
  The whole-file patch: the crate's unified diff, a parameter that is given the context radius
  and the two file headers.
\<close>

definition generate_unified_patch ::
    "(string \<Rightarrow> string \<Rightarrow> nat \<Rightarrow> string \<Rightarrow> string \<Rightarrow> string option)
     \<Rightarrow> path \<Rightarrow> string \<Rightarrow> string \<Rightarrow> string option" where
  "generate_unified_patch unified_diff p baseline current =
     (if baseline = current then None
      else if length baseline > MAX_DIFF_FILE_SIZE \<or> length current > MAX_DIFF_FILE_SIZE then None
      else case unified_diff baseline current CONTEXT_LINES (''a/'' @ p) (''b/'' @ p) of
             None \<Rightarrow> None
           | Some unified \<Rightarrow> if unified = [] then None else Some unified)"

subsection \<open>Matching hunks\<close>

definition hunks_match_content :: "hunk \<Rightarrow> hunk \<Rightarrow> bool" where
  "hunks_match_content a b \<longleftrightarrow>
     h_path a = h_path b \<and> h_old_text a = h_old_text b \<and> h_new_text a = h_new_text b"

definition hunk_moved :: "hunk \<Rightarrow> hunk \<Rightarrow> bool" where
  "hunk_moved old new \<longleftrightarrow> hunks_match_content old new \<and> h_line_info old \<noteq> h_line_info new"

definition hunks_overlap :: "hunk \<Rightarrow> hunk \<Rightarrow> bool" where
  "hunks_overlap a b =
     (if h_path a \<noteq> h_path b then False
      else
        let a_start = old_start (h_line_info a);
            a_end = usize_sat_add a_start (old_count (h_line_info a));
            b_start = old_start (h_line_info b);
            b_end = usize_sat_add b_start (old_count (h_line_info b))
        in if old_count (h_line_info a) = 0 \<and> old_count (h_line_info b) = 0 then a_start = b_start
           else if old_count (h_line_info a) = 0 then a_start \<ge> b_start \<and> a_start \<le> b_end
           else if old_count (h_line_info b) = 0 then b_start \<ge> a_start \<and> b_start \<le> a_end
           else \<not> (a_end < b_start \<or> b_end < a_start))"

definition calculate_overlap_size :: "hunk_line_info \<Rightarrow> hunk_line_info \<Rightarrow> nat" where
  "calculate_overlap_size a b =
     (let a_end = old_start a + old_count a;
          b_end = old_start b + old_count b
      in min a_end b_end - max (old_start a) (old_start b))"

definition abs_diff :: "nat \<Rightarrow> nat \<Rightarrow> nat" where
  "abs_diff a b = (a - b) + (b - a)"

text \<open>\<open>Iterator::min_by_key\<close> keeps the first least element, \<open>max_by_key\<close> the last greatest.\<close>

fun min_by_key :: "('a \<Rightarrow> nat) \<Rightarrow> 'a list \<Rightarrow> 'a option" where
  "min_by_key k [] = None"
| "min_by_key k (x # xs) =
     (case min_by_key k xs of
        None \<Rightarrow> Some x
      | Some y \<Rightarrow> Some (if k x \<le> k y then x else y))"

fun max_by_key :: "('a \<Rightarrow> nat) \<Rightarrow> 'a list \<Rightarrow> 'a option" where
  "max_by_key k [] = None"
| "max_by_key k (x # xs) =
     (case max_by_key k xs of
        None \<Rightarrow> Some x
      | Some y \<Rightarrow> Some (if k x \<le> k y then y else x))"

definition find_matching_old_hunk :: "hunk \<Rightarrow> hunk list \<Rightarrow> hunk option" where
  "find_matching_old_hunk new_hunk old_hunks =
     (let content_matches = filter (\<lambda>o1. hunks_match_content o1 new_hunk) old_hunks
      in if content_matches \<noteq> [] then
           min_by_key (\<lambda>o1. abs_diff (new_start (h_line_info o1)) (new_start (h_line_info new_hunk)))
             content_matches
         else
           max_by_key (\<lambda>o1. calculate_overlap_size (h_line_info o1) (h_line_info new_hunk))
             (filter (\<lambda>o1. hunks_overlap o1 new_hunk) old_hunks))"

definition find_overlapping_hunks :: "hunk \<Rightarrow> hunk list \<Rightarrow> hunk list" where
  "find_overlapping_hunks new_hunk old_hunks = filter (\<lambda>o1. hunks_overlap o1 new_hunk) old_hunks"

subsection \<open>Lines and their texts\<close>

text \<open>A text of complete lines: every line ends in a line feed, and no carriage return occurs.\<close>

definition plain_line :: "string \<Rightarrow> bool" where
  "plain_line l \<longleftrightarrow> LF \<notin> set l \<and> CR \<notin> set l"

definition complete_text :: "string \<Rightarrow> bool" where
  "complete_text s \<longleftrightarrow> s \<noteq> [] \<and> last s = LF \<and> CR \<notin> set s"

lemma concat_split_inclusive: "concat (split_inclusive s) = s"
  by (induction s) (auto split: list.splits)

lemma split_inclusive_line: "LF \<notin> set l \<Longrightarrow> split_inclusive (l @ LF # s) = (l @ [LF]) # split_inclusive s"
  by (induction l) auto

lemma split_writelns:
  "\<forall>l \<in> set ls. plain_line l \<Longrightarrow> split_inclusive (writelns ls) = map writeln ls"
  by (induction ls) (auto simp: writelns_def writeln_def plain_line_def split_inclusive_line)

lemma strip_line_end_writeln: "plain_line l \<Longrightarrow> strip_line_end (writeln l) = l"
proof -
  assume l: "plain_line l"
  have a: "strip_suffix (writeln l) [LF] = Some l"
    by (simp add: strip_suffix_Some writeln_def)
  have "strip_suffix l [CR] = None"
  proof (rule ccontr)
    assume "strip_suffix l [CR] \<noteq> None"
    then obtain r where "l = r @ [CR]" using strip_suffix_Some by blast
    then show False using l by (simp add: plain_line_def)
  qed
  then show ?thesis by (simp add: strip_line_end_def a)
qed

lemma text_lines_writelns: "\<forall>l \<in> set ls. plain_line l \<Longrightarrow> text_lines (writelns ls) = ls"
  by (simp add: text_lines_def split_writelns map_idI strip_line_end_writeln)

lemma writelns_append [simp]: "writelns (xs @ ys) = writelns xs @ writelns ys"
  by (simp add: writelns_def)

lemma writelns_Nil [simp]: "writelns [] = []"
  by (simp add: writelns_def)

lemma writelns_Cons [simp]: "writelns (l # ls) = l @ LF # writelns ls"
  by (simp add: writelns_def writeln_def)

lemma concat_writeln: "concat (map writeln ls) = writelns ls"
  by (simp add: writelns_def)

lemma writelns_join: "ls \<noteq> [] \<Longrightarrow> writelns ls = join_with [LF] ls @ [LF]"
  by (induction ls rule: induct_list012) auto

lemma join_with_empty: "join_with [LF] ls = [] \<longleftrightarrow> ls = [] \<or> ls = [[]]"
  by (induction ls rule: induct_list012) auto

text \<open>A complete text is the text of its lines.\<close>

lemma complete_lines:
  assumes "complete_text s \<or> s = []"
  shows "(\<forall>l \<in> set (text_lines s). plain_line l) \<and> writelns (text_lines s) = s"
proof -
  have "\<exists>ls. (\<forall>l \<in> set ls. plain_line l) \<and> s = writelns ls"
    using assms
  proof (induction "length s" arbitrary: s rule: less_induct)
    case less
    show ?case
    proof (cases "s = []")
      case True
      then show ?thesis by (intro exI [of _ "[]"]) simp
    next
      case False
      then have c: "complete_text s" using less.prems by blast
      then have "LF \<in> set s" unfolding complete_text_def using last_in_set by metis
      then obtain l r where s: "s = l @ LF # r" "LF \<notin> set l" by (meson split_list_first)
      have "complete_text r \<or> r = []" using c s by (auto simp: complete_text_def)
      then obtain ls where ls: "\<forall>l \<in> set ls. plain_line l" "r = writelns ls"
        using less.hyps [of r] s by auto
      have "plain_line l" using c s by (simp add: complete_text_def plain_line_def)
      then show ?thesis using ls s by (intro exI [of _ "l # ls"]) simp
    qed
  qed
  then show ?thesis using text_lines_writelns by auto
qed

lemma split_complete:
  "complete_text s \<or> s = [] \<Longrightarrow> split_inclusive s = map writeln (text_lines s)"
  by (metis complete_lines split_writelns)

lemma complete_writelns:
  "\<forall>l \<in> set ls. plain_line l \<Longrightarrow> ls \<noteq> [] \<Longrightarrow> complete_text (writelns ls)"
  by (induction ls rule: rev_induct)
    (auto simp: complete_text_def plain_line_def LF_def CR_def writelns_def writeln_def)

text \<open>
  On complete texts \<open>patch_lines\<close> replaces lines, unless what remains is nothing or one blank
  line: then the result is the empty text.
\<close>

definition splice :: "'a list \<Rightarrow> nat \<Rightarrow> nat \<Rightarrow> 'a list \<Rightarrow> 'a list" where
  "splice ls start n new = take (start - 1) ls @ new @ drop (start - 1 + n) ls"

lemma patch_lines_writelns:
  assumes "\<forall>l \<in> set ls. plain_line l" "ls \<noteq> []" "\<forall>l \<in> set new. plain_line l"
  shows "patch_lines (writelns ls) start n (writelns new) =
    (let r = splice ls start n new in if r = [] \<or> r = [[]] then [] else writelns r)"
proof -
  have lines: "text_lines (writelns ls) = ls" "text_lines (writelns new) = new"
    using assms(1,3) by (simp_all add: text_lines_writelns)
  have new: "(if writelns new = [] then [] else new) = new"
    by (cases new) auto
  have ends: "ends_with (writelns ls) [LF]"
    using writelns_join [OF assms(2)] by (simp add: ends_with_def)
  have take: "take (min a (length ls)) ls = take a ls" for a by (simp add: min_def)
  have drop: "drop (min a (length ls)) ls = drop a ls" for a by (simp add: min_def)
  show ?thesis
    unfolding patch_lines_def Let_def lines new take drop splice_def [symmetric]
    using ends writelns_join [of "splice ls start n new"]
    by (simp add: join_with_empty)
qed

subsection \<open>What hunks say of the two texts\<close>

text \<open>
  The documented reading of a list of changes: without the insertions it is the lines of the
  old text, without the deletions those of the new one.
\<close>

definition old_side :: "change list \<Rightarrow> string list" where
  "old_side cs = map snd (filter (\<lambda>c. fst c \<noteq> Insert) cs)"

definition new_side :: "change list \<Rightarrow> string list" where
  "new_side cs = map snd (filter (\<lambda>c. fst c \<noteq> Delete) cs)"

definition diff_ok :: "change list \<Rightarrow> string \<Rightarrow> string \<Rightarrow> bool" where
  "diff_ok cs baseline current \<longleftrightarrow>
     old_side cs = split_inclusive baseline \<and> new_side cs = split_inclusive current"

text \<open>
  The hunks partition two lists of lines that start at the lines \<open>i\<close> and \<open>j\<close>: before a hunk
  the lines are common, at least \<open>m\<close> of them; a hunk holds the lines of both sides at its
  positions and is not empty; two hunks are apart.
\<close>

fun hunks_between :: "nat \<Rightarrow> nat \<Rightarrow> nat \<Rightarrow> string list \<Rightarrow> string list \<Rightarrow> hunk list \<Rightarrow> bool" where
  "hunks_between m i j as bs [] \<longleftrightarrow> as = bs"
| "hunks_between m i j as bs (h # hs) \<longleftrightarrow>
     (let li = h_line_info h; k = old_start li - i in
      i + m \<le> old_start li \<and> new_start li = j + k \<and>
      k + old_count li \<le> length as \<and> k + new_count li \<le> length bs \<and>
      take k as = take k bs \<and>
      h_old_text h =
        (if old_count li = 0 then None else Some (concat (take (old_count li) (drop k as)))) \<and>
      h_new_text h = concat (take (new_count li) (drop k bs)) \<and>
      0 < old_count li + new_count li \<and>
      hunks_between 1 (i + k + old_count li) (j + k + new_count li)
        (drop (k + old_count li) as) (drop (k + new_count li) bs) hs)"

text \<open>The lines outside the hunks.\<close>

fun unchanged_lines :: "nat \<Rightarrow> string list \<Rightarrow> hunk list \<Rightarrow> string list" where
  "unchanged_lines i as [] = as"
| "unchanged_lines i as (h # hs) =
     (let li = h_line_info h; k = old_start li - i in
      take k as @ unchanged_lines (i + k + old_count li) (drop (k + old_count li) as) hs)"

lemma hunks_between_shift:
  "hunks_between 0 (Suc i) (Suc j) as bs hs \<Longrightarrow> hunks_between 1 i j (l # as) (l # bs) hs
     \<and> hunks_between 0 i j (l # as) (l # bs) hs
     \<and> unchanged_lines i (l # as) hs = l # unchanged_lines (Suc i) as hs"
proof (cases hs)
  case (Cons h hs')
  assume a: "hunks_between 0 (Suc i) (Suc j) as bs hs"
  define k where "k = old_start (h_line_info h) - Suc i"
  have k: "old_start (h_line_info h) - i = Suc k" "Suc i \<le> old_start (h_line_info h)"
    using a Cons by (auto simp: k_def Let_def)
  show ?thesis using a Cons k by (simp add: Let_def k_def [symmetric])
qed simp

lemma hunk_loop_between:
  "(case cur of
      None \<Rightarrow>
        hunks_between 0 i j (old_side cs) (new_side cs) (hunk_loop p src n i j cur cs)
        \<and> {l. (Equal, l) \<in> set cs} \<subseteq> set (unchanged_lines i (old_side cs) (hunk_loop p src n i j cur cs))
    | Some b \<Rightarrow>
        hb_old_start b + length (hb_old_lines b) = i \<longrightarrow>
        hb_new_start b + length (hb_new_lines b) = j \<longrightarrow>
        0 < length (hb_old_lines b) + length (hb_new_lines b) \<longrightarrow>
        hunks_between 0 (hb_old_start b) (hb_new_start b) (hb_old_lines b @ old_side cs)
          (hb_new_lines b @ new_side cs) (hunk_loop p src n i j cur cs)
        \<and> {l. (Equal, l) \<in> set cs}
             \<subseteq> set (unchanged_lines (hb_old_start b) (hb_old_lines b @ old_side cs)
                      (hunk_loop p src n i j cur cs)))"
proof (induction p src n i j cur cs rule: hunk_loop.induct)
  case (1 p src n i j cur)
  then show ?case
    by (auto simp: old_side_def new_side_def builder_build_def split: option.split)
next
  case (2 p src n i j cur l cs)
  show ?case
  proof (cases cur)
    case None
    show ?thesis
      using 2(1) [OF None] hunks_between_shift [of i j "old_side cs" "new_side cs" _ l] None
      by (auto simp: old_side_def new_side_def)
  next
    case (Some b)
    show ?thesis
      using 2(2) [OF Some] hunks_between_shift [of i j "old_side cs" "new_side cs" _ l] Some
      by (auto simp: old_side_def new_side_def builder_build_def)
  qed
next
  case (3 p src n i j cur l cs)
  show ?case
    using 3 [OF refl]
    by (auto simp: old_side_def new_side_def builder_new_def add_old_line_def split: option.splits)
next
  case (4 p src n i j cur l cs)
  show ?case
    using 4 [OF refl]
    by (auto simp: old_side_def new_side_def builder_new_def add_new_line_def split: option.splits)
qed

lemma hunks_between_step:
  "hunks_between m i j as bs (h # hs) \<longleftrightarrow>
     (\<exists>k. old_start (h_line_info h) = i + k \<and> new_start (h_line_info h) = j + k \<and> m \<le> k \<and>
        k + old_count (h_line_info h) \<le> length as \<and> k + new_count (h_line_info h) \<le> length bs \<and>
        take k as = take k bs \<and>
        h_old_text h = (if old_count (h_line_info h) = 0 then None
                        else Some (concat (take (old_count (h_line_info h)) (drop k as)))) \<and>
        h_new_text h = concat (take (new_count (h_line_info h)) (drop k bs)) \<and>
        0 < old_count (h_line_info h) + new_count (h_line_info h) \<and>
        hunks_between 1 (i + k + old_count (h_line_info h)) (j + k + new_count (h_line_info h))
          (drop (k + old_count (h_line_info h)) as) (drop (k + new_count (h_line_info h)) bs) hs)"
  (is "?l \<longleftrightarrow> (\<exists>k. ?P k)")
proof
  assume l: ?l
  then have "i \<le> old_start (h_line_info h)" by (simp add: Let_def)
  then obtain k where k: "old_start (h_line_info h) = i + k" using le_iff_add by blast
  have "?P k" using l unfolding hunks_between.simps Let_def k by simp
  then show "\<exists>k. ?P k" by blast
next
  assume "\<exists>k. ?P k"
  then obtain k where "?P k" by blast
  moreover from this have "old_start (h_line_info h) - i = k" by simp
  ultimately show ?l unfolding hunks_between.simps Let_def by simp
qed

lemma unchanged_step:
  "old_start (h_line_info h) = i + k \<Longrightarrow>
     unchanged_lines i as (h # hs) =
     take k as @ unchanged_lines (i + k + old_count (h_line_info h))
       (drop (k + old_count (h_line_info h)) as) hs"
  by (simp add: Let_def)

text \<open>Lines still in both texts after the hunks are exchanged.\<close>

lemma unchanged_subset:
  "hunks_between m i j as bs hs \<Longrightarrow> set (unchanged_lines i as hs) \<subseteq> set as \<inter> set bs"
proof (induction hs arbitrary: m i j as bs)
  case (Cons h hs)
  then obtain k where k: "old_start (h_line_info h) = i + k" "take k as = take k bs"
    and b: "hunks_between 1 (i + k + old_count (h_line_info h)) (j + k + new_count (h_line_info h))
      (drop (k + old_count (h_line_info h)) as) (drop (k + new_count (h_line_info h)) bs) hs"
    unfolding hunks_between_step by blast
  have "set (take k as) \<subseteq> set as \<inter> set bs"
    using k set_take_subset [of k as] set_take_subset [of k bs] by auto
  then show ?case
    unfolding unchanged_step [OF k(1)]
    using Cons.IH [OF b] by (simp, meson in_set_dropD subset_iff)
qed simp

text \<open>The hunks read from the new text to the old one.\<close>

definition swap_line_info :: "hunk_line_info \<Rightarrow> hunk_line_info" where
  "swap_line_info li = \<lparr>old_start = new_start li, old_count = new_count li,
     new_start = old_start li, new_count = old_count li\<rparr>"

definition swap_hunk :: "hunk \<Rightarrow> hunk" where
  "swap_hunk h = h\<lparr>h_line_info := swap_line_info (h_line_info h),
     h_old_text := (if new_count (h_line_info h) = 0 then None else Some (h_new_text h)),
     h_new_text := (case h_old_text h of None \<Rightarrow> [] | Some t \<Rightarrow> t)\<rparr>"

lemma swap_hunk_simps [simp]:
  "h_line_info (swap_hunk h) = swap_line_info (h_line_info h)"
  "old_start (swap_line_info li) = new_start li" "new_start (swap_line_info li) = old_start li"
  "old_count (swap_line_info li) = new_count li" "new_count (swap_line_info li) = old_count li"
  "h_old_text (swap_hunk h) = (if new_count (h_line_info h) = 0 then None else Some (h_new_text h))"
  "h_new_text (swap_hunk h) = (case h_old_text h of None \<Rightarrow> [] | Some t \<Rightarrow> t)"
  by (simp_all add: swap_hunk_def swap_line_info_def)

lemma hunks_between_swap:
  "hunks_between m i j as bs hs \<Longrightarrow>
     hunks_between m j i bs as (map swap_hunk hs)
     \<and> unchanged_lines j bs (map swap_hunk hs) = unchanged_lines i as hs"
proof (induction hs arbitrary: m i j as bs)
  case (Cons h hs)
  from Cons.prems obtain k where k: "old_start (h_line_info h) = i + k" "new_start (h_line_info h) = j + k"
    "m \<le> k" "k + old_count (h_line_info h) \<le> length as" "k + new_count (h_line_info h) \<le> length bs"
    "take k as = take k bs" "0 < old_count (h_line_info h) + new_count (h_line_info h)"
    and t: "h_old_text h = (if old_count (h_line_info h) = 0 then None
        else Some (concat (take (old_count (h_line_info h)) (drop k as))))"
      "h_new_text h = concat (take (new_count (h_line_info h)) (drop k bs))"
    and b: "hunks_between 1 (i + k + old_count (h_line_info h)) (j + k + new_count (h_line_info h))
      (drop (k + old_count (h_line_info h)) as) (drop (k + new_count (h_line_info h)) bs) hs"
    unfolding hunks_between_step by (elim exE conjE) (rule that)
  have "hunks_between m j i bs as (swap_hunk h # map swap_hunk hs)"
    unfolding hunks_between_step
    by (rule exI [of _ k]) (use k t Cons.IH [OF b] in auto)
  moreover have "unchanged_lines j bs (swap_hunk h # map swap_hunk hs) = unchanged_lines i as (h # hs)"
  proof -
    have k': "old_start (h_line_info (swap_hunk h)) = j + k" using k by simp
    show ?thesis
      unfolding unchanged_step [OF k(1)] unchanged_step [OF k'] using Cons.IH [OF b] k(6) by simp
  qed
  ultimately show ?case by simp
qed simp

lemma text_lines_concat:
  assumes "\<forall>l \<in> set ls. plain_line l"
  shows "concat (take n (drop k (map writeln ls))) = writelns (take n (drop k ls))"
  by (simp add: writelns_def drop_map take_map)

text \<open>
  Replacing the lines of every hunk, the last hunk first, turns the one text into the other,
  as long as a line that is not blank stays.
\<close>

definition exchange :: "hunk \<Rightarrow> string \<Rightarrow> string" where
  "exchange h s =
     patch_lines s (old_start (h_line_info h)) (old_count (h_line_info h)) (h_new_text h)"

lemma exchange_all_lines:
  assumes "hunks_between m (Suc (length pre)) j (map writeln as) (map writeln bs) hs"
    and "\<forall>l \<in> set pre \<union> set as \<union> set bs. plain_line l"
    and "\<exists>l \<in> set (map writeln pre) \<union> set (unchanged_lines (Suc (length pre)) (map writeln as) hs).
           l \<noteq> [LF]"
  shows "foldr exchange hs (writelns (pre @ as)) = writelns (pre @ bs)"
  using assms
proof (induction hs arbitrary: m pre j as bs)
  case Nil
  have "inj writeln" by (simp add: inj_def writeln_def)
  then have "as = bs" using Nil by (simp add: inj_map_eq_map)
  then show ?case by simp
next
  case (Cons h hs)
  define li where "li = h_line_info h"
  define k where "k = old_start li - Suc (length pre)"
  define pre' where "pre' = pre @ take (k + old_count li) as"
  define as' where "as' = drop (k + old_count li) as"
  define bs' where "bs' = drop (k + new_count li) bs"
  have inj: "inj writeln" by (simp add: inj_def writeln_def)
  have h: "old_start li = Suc (length pre) + k" "k + old_count li \<le> length as"
    "k + new_count li \<le> length bs"
    "h_new_text h = concat (take (new_count li) (drop k (map writeln bs)))"
    "hunks_between 1 (Suc (length pre')) (j + k + new_count li) (map writeln as') (map writeln bs') hs"
    and tk: "map writeln (take k as) = map writeln (take k bs)"
  proof -
    obtain k' where k': "old_start li = Suc (length pre) + k'" "k' + old_count li \<le> length as"
      "k' + new_count li \<le> length bs" "take k' (map writeln as) = take k' (map writeln bs)"
      "h_new_text h = concat (take (new_count li) (drop k' (map writeln bs)))"
      "hunks_between 1 (Suc (length pre) + k' + old_count li) (j + k' + new_count li)
         (drop (k' + old_count li) (map writeln as)) (drop (k' + new_count li) (map writeln bs)) hs"
      using Cons.prems(1) unfolding hunks_between_step li_def by auto
    have "k' = k" using k' by (simp add: k_def)
    then show "old_start li = Suc (length pre) + k" "k + old_count li \<le> length as"
      "k + new_count li \<le> length bs"
      "h_new_text h = concat (take (new_count li) (drop k (map writeln bs)))"
      "hunks_between 1 (Suc (length pre')) (j + k + new_count li) (map writeln as') (map writeln bs') hs"
      "map writeln (take k as) = map writeln (take k bs)"
      using k' by (simp_all add: pre'_def as'_def bs'_def drop_map take_map min.absorb2 add.assoc)
  qed
  have tk: "take k as = take k bs" using tk inj by (simp add: inj_map_eq_map)
  have un: "unchanged_lines (Suc (length pre)) (map writeln as) (h # hs) =
      map writeln (take k as) @ unchanged_lines (Suc (length pre')) (map writeln as') hs"
    using unchanged_step [OF h(1) [unfolded li_def], of "map writeln as" hs] h(2)
    by (simp only: li_def [symmetric])
      (simp del: unchanged_lines.simps add: pre'_def as'_def drop_map take_map min.absorb2 add.assoc)
  obtain l where l: "l \<noteq> [LF]"
    "l \<in> set (map writeln pre) \<union> set (map writeln (take k as))
         \<union> set (unchanged_lines (Suc (length pre')) (map writeln as') hs)"
    using Cons.prems(3) un by auto
  have take_in: "set (take k as) \<subseteq> set (take (k + old_count li) as)"
    by (rule set_take_subset_set_take) simp
  have pl: "\<forall>l \<in> set pre' \<union> set as' \<union> set bs'. plain_line l"
    using Cons.prems(2) by (auto simp: pre'_def as'_def bs'_def dest: in_set_takeD in_set_dropD)
  have "foldr exchange hs (writelns (pre' @ as')) = writelns (pre' @ bs')"
    by (rule Cons.IH [OF h(5) pl]) (use l take_in in \<open>auto simp: pre'_def\<close>)
  then have step: "foldr exchange (h # hs) (writelns (pre @ as)) = exchange h (writelns (pre' @ bs'))"
    by (simp add: pre'_def as'_def)
  have new: "h_new_text h = writelns (take (new_count li) (drop k bs))"
    using h(4) Cons.prems(2) by (simp add: text_lines_concat)
  define r where "r = splice (pre' @ bs') (old_start li) (old_count li) (take (new_count li) (drop k bs))"
  have pre'_take: "take (length pre + k) pre' = pre @ take k bs"
    using h(2) by (simp add: pre'_def tk [symmetric] min_def)
  have pre'_len: "length pre' = length pre + k + old_count li"
    using h(2) by (simp add: pre'_def min_def)
  have r: "r = pre @ bs"
    using h(1) pre'_take pre'_len
    by (simp add: r_def splice_def bs'_def)
      (metis add.commute append.assoc append_take_drop_id drop_drop take_add)
  have un_bs: "set (unchanged_lines (Suc (length pre')) (map writeln as') hs) \<subseteq> set (map writeln bs')"
    using unchanged_subset [OF h(5)] by blast
  then have lr: "l \<in> set (map writeln (pre @ bs))"
  proof -
    have "set bs' \<subseteq> set bs" "set (take k as) \<subseteq> set bs"
      using tk set_drop_subset [of _ bs] set_take_subset [of k bs] by (simp_all add: bs'_def)
    then have "set (map writeln bs') \<subseteq> set (map writeln bs)"
      "set (map writeln (take k as)) \<subseteq> set (map writeln bs)"
      by (simp_all add: image_mono)
    then have "l \<in> set (map writeln pre) \<union> set (map writeln bs)" using l(2) un_bs by blast
    then show ?thesis by simp
  qed
  then obtain x where x: "x \<in> set r" "l = writeln x" using r by (metis imageE set_map)
  then have "r \<noteq> [] \<and> r \<noteq> [[]]" using l(1) by (metis append_Nil empty_iff empty_set set_ConsD writeln_def)
  moreover have "pre' @ bs' \<noteq> []"
    using l(2) un_bs take_in by (cases "k = 0") (auto simp: pre'_def)
  ultimately have "exchange h (writelns (pre' @ bs')) = writelns r"
    unfolding exchange_def new li_def [symmetric] r_def
    using pl Cons.prems(2) by (subst patch_lines_writelns) (auto dest: in_set_takeD in_set_dropD)
  then show ?case using step r by simp
qed

text \<open>The same for the hunks of one diff, in both directions.\<close>

definition revert :: "hunk \<Rightarrow> string \<Rightarrow> string" where
  "revert h s =
     patch_lines s (new_start (h_line_info h)) (new_count (h_line_info h))
       (case h_old_text h of None \<Rightarrow> [] | Some t \<Rightarrow> t)"

lemma revert_swap: "revert = (\<lambda>h. exchange (swap_hunk h))"
  by (intro ext) (simp add: revert_def exchange_def)

lemma exchange_all:
  assumes "complete_text baseline" "complete_text current"
    and "hunks_between 0 1 1 (split_inclusive baseline) (split_inclusive current) hs"
    and "\<exists>l \<in> set (unchanged_lines 1 (split_inclusive baseline) hs). l \<noteq> [LF]"
  shows "foldr exchange hs baseline = current" and "foldr revert hs current = baseline"
proof -
  have pl: "\<forall>l \<in> set (text_lines baseline). plain_line l" "\<forall>l \<in> set (text_lines current). plain_line l"
    and w: "writelns (text_lines baseline) = baseline" "writelns (text_lines current) = current"
    using assms(1,2) complete_lines by auto
  have sp: "split_inclusive baseline = map writeln (text_lines baseline)"
    "split_inclusive current = map writeln (text_lines current)"
    using assms(1,2) split_complete by auto
  show "foldr exchange hs baseline = current"
    using exchange_all_lines [of 0 "[]" 1 "text_lines baseline" "text_lines current" hs] assms(3,4) sp pl w
    by auto
  have sw: "hunks_between 0 1 1 (split_inclusive current) (split_inclusive baseline) (map swap_hunk hs)"
    "unchanged_lines 1 (split_inclusive current) (map swap_hunk hs)
       = unchanged_lines 1 (split_inclusive baseline) hs"
    using hunks_between_swap [OF assms(3)] by auto
  have "foldr exchange (map swap_hunk hs) current = baseline"
    using exchange_all_lines [of 0 "[]" 1 "text_lines current" "text_lines baseline" "map swap_hunk hs"]
      assms(4) sw sp pl w
    by auto
  then show "foldr revert hs current = baseline"
    by (simp add: foldr_map revert_swap comp_def)
qed

text \<open>Positions grow strictly along the hunks, on both sides.\<close>

lemma hunks_between_sorted:
  "hunks_between m i j as bs hs \<Longrightarrow>
     sorted_wrt (\<lambda>g h. old_start (h_line_info g) < old_start (h_line_info h)
       \<and> new_start (h_line_info g) < new_start (h_line_info h)) hs
     \<and> (\<forall>h \<in> set hs. i + m \<le> old_start (h_line_info h) \<and> j + m \<le> new_start (h_line_info h))"
proof (induction hs arbitrary: m i j as bs)
  case (Cons h hs)
  from Cons.prems obtain k where k: "old_start (h_line_info h) = i + k"
    "new_start (h_line_info h) = j + k" "m \<le> k"
    and b: "hunks_between 1 (i + k + old_count (h_line_info h)) (j + k + new_count (h_line_info h))
      (drop (k + old_count (h_line_info h)) as) (drop (k + new_count (h_line_info h)) bs) hs"
    unfolding hunks_between_step by (elim exE conjE) (rule that)
  show ?case using k Cons.IH [OF b] by fastforce
qed simp

lemma compute_hunks_facts:
  assumes "diff baseline current = Some changes" and "diff_ok changes baseline current"
    and "baseline \<noteq> current" and "length baseline \<le> MAX_DIFF_FILE_SIZE"
    and "length current \<le> MAX_DIFF_FILE_SIZE"
  shows "hunks_between 0 1 1 (split_inclusive baseline) (split_inclusive current)
           (compute_hunks diff i p baseline current src)"
    and "{l. (Equal, l) \<in> set changes} \<subseteq> set (unchanged_lines 1 (split_inclusive baseline)
           (compute_hunks diff i p baseline current src))"
proof -
  have "compute_hunks diff i p baseline current src = hunk_loop p src i 1 1 None changes"
    using assms by (simp add: compute_hunks_def)
  then show "hunks_between 0 1 1 (split_inclusive baseline) (split_inclusive current)
           (compute_hunks diff i p baseline current src)"
    and "{l. (Equal, l) \<in> set changes} \<subseteq> set (unchanged_lines 1 (split_inclusive baseline)
           (compute_hunks diff i p baseline current src))"
    using hunk_loop_between [where cur = None and i = 1 and j = 1 and cs = changes] assms(2)
    by (simp_all add: diff_ok_def)
qed

text \<open>A simple diff that meets the reading: common lines first, the rest replaced.\<close>

fun prefix_changes :: "string list \<Rightarrow> string list \<Rightarrow> change list" where
  "prefix_changes (a # as) (b # bs) =
     (if a = b then (Equal, a) # prefix_changes as bs
      else map (Pair Delete) (a # as) @ map (Pair Insert) (b # bs))"
| "prefix_changes as bs = map (Pair Delete) as @ map (Pair Insert) bs"

definition prefix_diff :: line_diff where
  "prefix_diff b c = Some (prefix_changes (split_inclusive b) (split_inclusive c))"

lemma prefix_changes_ok: "old_side (prefix_changes as bs) = as \<and> new_side (prefix_changes as bs) = bs"
  by (induction as bs rule: prefix_changes.induct)
    (auto simp: old_side_def new_side_def filter_map comp_def)

text \<open>
  C35. The hunks of a diff are exact: they cut both texts into lines outside every hunk, which
  are the same on both sides, and the lines of the hunks, in order, whose texts and positions
  are those of the two files.
\<close>
theorem compute_hunks_partition:
  assumes "diff baseline current = Some changes" and "diff_ok changes baseline current"
    and "baseline \<noteq> current" and "length baseline \<le> MAX_DIFF_FILE_SIZE"
    and "length current \<le> MAX_DIFF_FILE_SIZE"
  shows "hunks_between 0 1 1 (split_inclusive baseline) (split_inclusive current)
           (compute_hunks diff i p baseline current src)"
  using assms by (rule compute_hunks_facts)

theorem compute_hunks_partition_witness:
  "hunks_between 0 1 1 (split_inclusive (writelns [''a'', ''b''])) (split_inclusive (writelns [''a'', ''c'']))
     (compute_hunks prefix_diff 0 ''/f'' (writelns [''a'', ''b'']) (writelns [''a'', ''c'']) External)"
  by (rule compute_hunks_partition [OF prefix_diff_def])
    (simp_all add: diff_ok_def prefix_changes_ok MAX_DIFF_FILE_SIZE_def)

text \<open>
  Outside complete texts a replacement does not keep the file as it was: carriage returns of
  untouched lines are lost, and a missing line feed at the end of the file cannot be restored.
\<close>

lemma patch_lines_drops_carriage_returns:
  "patch_lines [CHR ''a'', CR, LF, CHR ''b'', CR, LF] 1 1 [CHR ''x'', CR, LF]
     = [CHR ''x'', LF, CHR ''b'', LF]"
  by (simp add: patch_lines_def text_lines_def strip_line_end_def strip_suffix_def ends_with_def suffix_Cons
      CR_def LF_def Let_def)

lemma patch_lines_keeps_final_newline:
  "patch_lines [CHR ''a'', LF] 1 1 ''a'' = [CHR ''a'', LF]"
  by (simp add: patch_lines_def text_lines_def strip_line_end_def strip_suffix_def ends_with_def suffix_Cons
      CR_def LF_def Let_def)

end
