(* ===== verification/GB_HunkState.thy ===== *)
theory GB_HunkState
  imports GB_Diff "HOL-Library.AList"
begin

section \<open>State of the hunk tracker (xai-hunk-tracker/src/actor, events.rs, types.rs)\<close>

text \<open>
  The actor's state, the classification of file contents, the reads of the disk and of git HEAD,
  and the recomputation of a file's hunks with the events it emits. A hash map is an association
  list: where the code iterates one, the order of the list stands for the unspecified order. The
  event channel is the list of the events sent, and the files written and removed are a list of
  effects. What the actor asks of its environment is the record \<open>host\<close>: the diff crate, the disk
  and the answers of the git library. The join error of a blocking task is not modelled.
\<close>

subsection \<open>File contents (state.rs, file_utils.rs)\<close>

definition MAX_TRACKED_TEXT_BYTES :: nat where "MAX_TRACKED_TEXT_BYTES = 1024 * 1024"

datatype file_content_state =
    Missing
  | Binary "nat option"
  | TooLarge nat
  | LfsPointer nat
  | Symlink
  | Full string

fun content_as_str :: "file_content_state \<Rightarrow> string option" where
  "content_as_str (Full s) = Some s"
| "content_as_str _ = None"

fun is_diffable :: "file_content_state \<Rightarrow> bool" where
  "is_diffable (Full _) = True"
| "is_diffable _ = False"

fun content_byte_len :: "file_content_state \<Rightarrow> nat option" where
  "content_byte_len Missing = Some 0"
| "content_byte_len (Binary n) = n"
| "content_byte_len (TooLarge n) = Some n"
| "content_byte_len (LfsPointer n) = Some n"
| "content_byte_len Symlink = None"
| "content_byte_len (Full s) = Some (length s)"

definition LFS_POINTER_PREFIX :: string where
  "LFS_POINTER_PREFIX = ''version https://git-lfs.github.com/spec/v1'' @ [LF]"

definition is_lfs_pointer :: "string \<Rightarrow> bool" where
  "is_lfs_pointer bytes \<longleftrightarrow> length bytes < 1024 \<and> starts_with bytes LFS_POINTER_PREFIX"

definition is_binary :: "string \<Rightarrow> bool" where
  "is_binary content =
     (let check_len = min (length content) 8000 in CHR 0x00 \<in> set (take check_len content))"

text \<open>\<open>String::from_utf8\<close> succeeds on well-formed UTF-8: the byte ranges of the standard.\<close>

definition byte_in :: "nat \<Rightarrow> nat \<Rightarrow> char \<Rightarrow> bool" where
  "byte_in lo hi c \<longleftrightarrow> lo \<le> of_char c \<and> of_char c \<le> hi"

definition second_byte_ok :: "nat \<Rightarrow> char \<Rightarrow> bool" where
  "second_byte_ok n c =
     byte_in (if n = 0xE0 then 0xA0 else if n = 0xF0 then 0x90 else 0x80)
             (if n = 0xED then 0x9F else if n = 0xF4 then 0x8F else 0xBF) c"

fun valid_utf8 :: "string \<Rightarrow> bool" where
  "valid_utf8 [] = True"
| "valid_utf8 (c # s) =
     (let n = of_char c :: nat
      in if n < 0x80 then valid_utf8 s
         else case s of
                [] \<Rightarrow> False
              | c1 # s1 \<Rightarrow>
                  if 0xC2 \<le> n \<and> n \<le> 0xDF then byte_in 0x80 0xBF c1 \<and> valid_utf8 s1
                  else (case s1 of
                          [] \<Rightarrow> False
                        | c2 # s2 \<Rightarrow>
                            if 0xE0 \<le> n \<and> n \<le> 0xEF
                            then second_byte_ok n c1 \<and> byte_in 0x80 0xBF c2 \<and> valid_utf8 s2
                            else (case s2 of
                                    [] \<Rightarrow> False
                                  | c3 # s3 \<Rightarrow>
                                      0xF0 \<le> n \<and> n \<le> 0xF4 \<and> second_byte_ok n c1
                                      \<and> byte_in 0x80 0xBF c2 \<and> byte_in 0x80 0xBF c3
                                      \<and> valid_utf8 s3)))"

definition classify_bytes :: "string \<Rightarrow> file_content_state" where
  "classify_bytes bytes =
     (let byte_len = length bytes
      in if byte_len > MAX_TRACKED_TEXT_BYTES then TooLarge byte_len
         else if is_lfs_pointer bytes then LfsPointer byte_len
         else if is_binary bytes then Binary (Some byte_len)
         else if valid_utf8 bytes then Full bytes else Binary (Some byte_len))"

definition classify_string :: "string \<Rightarrow> file_content_state" where
  "classify_string s =
     (let byte_len = length s
      in if byte_len > MAX_TRACKED_TEXT_BYTES then TooLarge byte_len
         else if is_lfs_pointer s then LfsPointer byte_len
         else if is_binary s then Binary (Some byte_len)
         else Full s)"

definition missing_content :: file_content_state where "missing_content = Missing"

subsection \<open>Events (events.rs)\<close>

datatype hunk_removal_reason = Accepted | Rejected | Superseded

datatype hunk_event =
    HunkAdded path hunk
  | HunkRemoved path hunk_id hunk_removal_reason
  | HunkMoved path hunk_id hunk_line_info
  | HunkContentChanged path hunk hunk_source nat nat
  | FileAdded path bool
  | FileRemoved path
  | BaselineUpdated path

subsection \<open>The actor's state (actor/mod.rs, state.rs, types.rs)\<close>

datatype tracking_mode = AgentOnly | AllDirty

datatype git_repo_state = Unknown | NotARepo | Discovered path

record repo_sync_state =
  rs_head_oid :: "string option"
  rs_index_mtime :: "nat option"

definition repo_sync_default :: repo_sync_state where
  "repo_sync_default = \<lparr>rs_head_oid = None, rs_index_mtime = None\<rparr>"

record file_hunk_state =
  fs_baseline :: file_content_state
  fs_current :: file_content_state
  fs_hunks :: "hunk list"
  fs_is_agent_file :: bool
  fs_baseline_accepted :: bool

record session_stats =
  accepted_hunks :: nat
  rejected_hunks :: nat
  accepted_lines_added :: nat
  accepted_lines_removed :: nat
  rejected_lines_added :: nat
  rejected_lines_removed :: nat

definition stats_default :: session_stats where
  "stats_default = \<lparr>accepted_hunks = 0, rejected_hunks = 0, accepted_lines_added = 0,
     accepted_lines_removed = 0, rejected_lines_added = 0, rejected_lines_removed = 0\<rparr>"

text \<open>Files the actor writes and removes.\<close>

datatype disk_effect = DiskWrite path string | DiskRemove path

record tracker =
  t_working_dir :: path
  t_files :: "(path \<times> file_hunk_state) list"
  t_turns :: "(nat \<times> hunk_id list) list"
  t_dirty :: "path list"
  t_staged :: "path list"
  t_repo :: git_repo_state
  t_sync :: repo_sync_state
  t_mode :: tracking_mode
  t_stats :: session_stats
  t_next :: hunk_id
  t_events :: "hunk_event list"
  t_disk :: "disk_effect list"

definition tracker_new :: "path \<Rightarrow> tracking_mode \<Rightarrow> tracker" where
  "tracker_new wd mode =
     \<lparr>t_working_dir = wd, t_files = [], t_turns = [], t_dirty = [], t_staged = [],
      t_repo = Unknown, t_sync = repo_sync_default, t_mode = mode, t_stats = stats_default,
      t_next = 0, t_events = [], t_disk = []\<rparr>"

definition send_event :: "hunk_event \<Rightarrow> tracker \<Rightarrow> tracker" where
  "send_event ev s = s\<lparr>t_events := t_events s @ [ev]\<rparr>"

definition send_events :: "hunk_event list \<Rightarrow> tracker \<Rightarrow> tracker" where
  "send_events evs s = s\<lparr>t_events := t_events s @ evs\<rparr>"

definition file_state :: "tracker \<Rightarrow> path \<Rightarrow> file_hunk_state option" where
  "file_state s p = map_of (t_files s) p"

definition put_file :: "path \<Rightarrow> file_hunk_state \<Rightarrow> tracker \<Rightarrow> tracker" where
  "put_file p st s = s\<lparr>t_files := AList.update p st (t_files s)\<rparr>"

definition drop_file :: "path \<Rightarrow> tracker \<Rightarrow> tracker" where
  "drop_file p s = s\<lparr>t_files := AList.delete p (t_files s)\<rparr>"

definition new_file_state :: "file_content_state \<Rightarrow> file_content_state \<Rightarrow> bool \<Rightarrow> file_hunk_state" where
  "new_file_state baseline current agent =
     \<lparr>fs_baseline = baseline, fs_current = current, fs_hunks = [], fs_is_agent_file = agent,
      fs_baseline_accepted = False\<rparr>"

subsection \<open>The environment\<close>

text \<open>
  A file of the disk is a link, or has a length and, when it can be opened and read, its bytes.
  An entry of the HEAD tree is a link or a blob. \<open>hs_status\<close> is git's status of the path
  specifications (none of them means the whole tree): the locations, each with whether it is a
  change between HEAD and the index.
\<close>

datatype disk_file = DiskLink | DiskFile nat "string option"

datatype tree_entry = LinkEntry | BlobEntry string

record host =
  hs_diff :: line_diff
  hs_file :: "path \<Rightarrow> disk_file option"
  hs_exists :: "path \<Rightarrow> bool"
  hs_is_dir :: "path \<Rightarrow> bool"
  hs_write_ok :: "path \<Rightarrow> bool"
  hs_remove_ok :: "path \<Rightarrow> bool"
  hs_canonicalize :: "path \<Rightarrow> path option"
  hs_discover :: "path \<Rightarrow> path option"
  hs_tree :: "string \<Rightarrow> tree_entry option"
  hs_index_len :: "nat option"
  hs_status :: "string list \<Rightarrow> (path \<times> bool) list option"
  hs_head_oid :: "string option"
  hs_index_mtime :: "nat option"

text \<open>\<open>read_file_bounded\<close>: the size first, then a prefix of at most 8000 bytes, then the rest.\<close>

definition read_file_bounded :: "host \<Rightarrow> path \<Rightarrow> file_content_state" where
  "read_file_bounded e p =
     (case hs_file e p of
        None \<Rightarrow> missing_content
      | Some DiskLink \<Rightarrow> Symlink
      | Some (DiskFile byte_len content) \<Rightarrow>
          if byte_len > MAX_TRACKED_TEXT_BYTES then TooLarge byte_len
          else case content of
                 None \<Rightarrow> missing_content
               | Some bytes \<Rightarrow>
                   let prefix_size = min 8000 byte_len;
                       prefix_buf = take prefix_size bytes
                   in if is_lfs_pointer prefix_buf then LfsPointer byte_len
                      else if is_binary prefix_buf then Binary (Some byte_len)
                      else let full_buf = (if byte_len > prefix_size then bytes else prefix_buf)
                           in if valid_utf8 full_buf then Full full_buf else Binary (Some byte_len))"

subsection \<open>Git (actor/git.rs)\<close>

text \<open>
  \<open>open_or_discover\<close>: the prefix of the working directory in the repository, and whether it was
  found just now. \<open>hs_discover\<close> gives the work tree of the repository found.
\<close>

definition open_or_discover :: "host \<Rightarrow> git_repo_state \<Rightarrow> path \<Rightarrow> (path \<times> path option) option" where
  "open_or_discover e cached wd =
     (case cached of
        Discovered pfx \<Rightarrow> Some (pfx, None)
      | Unknown \<Rightarrow>
          (case hs_discover e wd of
             None \<Rightarrow> None
           | Some repo_root \<Rightarrow>
               let canonical_wd = (case hs_canonicalize e wd of Some c \<Rightarrow> c | None \<Rightarrow> wd);
                   canonical_root = (case hs_canonicalize e repo_root of Some c \<Rightarrow> c | None \<Rightarrow> repo_root)
               in case path_strip_prefix canonical_wd canonical_root of
                    None \<Rightarrow> None
                  | Some pfx \<Rightarrow> Some (pfx, Some pfx))
      | NotARepo \<Rightarrow> None)"

text \<open>What is stored of a discovery, as each caller does after its task.\<close>

definition note_discovery :: "(path \<times> path option) option \<Rightarrow> tracker \<Rightarrow> tracker" where
  "note_discovery opened s =
     (case opened of
        None \<Rightarrow> if t_repo s = Unknown then s\<lparr>t_repo := NotARepo\<rparr> else s
      | Some (_, Some pfx) \<Rightarrow> s\<lparr>t_repo := Discovered pfx\<rparr>
      | Some (_, None) \<Rightarrow> s)"

definition canonicalize_or_parent :: "host \<Rightarrow> path \<Rightarrow> path" where
  "canonicalize_or_parent e p =
     (case hs_canonicalize e p of
        Some c \<Rightarrow> c
      | None \<Rightarrow>
          (case path_parent p of
             None \<Rightarrow> p
           | Some q \<Rightarrow>
               (case hs_canonicalize e q of
                  None \<Rightarrow> p
                | Some cp \<Rightarrow>
                    (case path_file_name p of None \<Rightarrow> p | Some f \<Rightarrow> path_push cp f))))"

text \<open>The content of one path in HEAD, given the prefix of the working directory.\<close>

definition head_content :: "host \<Rightarrow> path \<Rightarrow> path \<Rightarrow> path \<Rightarrow> file_content_state" where
  "head_content e wd repo_prefix p =
     (let canonical_wd = (case hs_canonicalize e wd of Some c \<Rightarrow> c | None \<Rightarrow> wd)
      in case path_strip_prefix (canonicalize_or_parent e p) canonical_wd of
           None \<Rightarrow> missing_content
         | Some rel \<Rightarrow>
             (case hs_tree e (path_push repo_prefix rel) of
                None \<Rightarrow> missing_content
              | Some LinkEntry \<Rightarrow> Symlink
              | Some (BlobEntry data) \<Rightarrow> classify_bytes data))"

definition read_baseline :: "host \<Rightarrow> path \<Rightarrow> tracker \<Rightarrow> file_content_state \<times> tracker" where
  "read_baseline e p s =
     (if t_repo s = NotARepo then (missing_content, s)
      else
        let opened = open_or_discover e (t_repo s) (t_working_dir s)
        in (case opened of
              None \<Rightarrow> missing_content
            | Some (pfx, _) \<Rightarrow> head_content e (t_working_dir s) pfx p,
            note_discovery opened s))"

definition read_baselines_batch ::
    "host \<Rightarrow> path list \<Rightarrow> tracker \<Rightarrow> (path \<times> file_content_state) list \<times> tracker" where
  "read_baselines_batch e paths s =
     (if paths = [] \<or> t_repo s = NotARepo then ([], s)
      else
        let opened = open_or_discover e (t_repo s) (t_working_dir s)
        in (map (\<lambda>p. (p, case opened of
                            None \<Rightarrow> missing_content
                          | Some (pfx, _) \<Rightarrow> head_content e (t_working_dir s) pfx p)) paths,
            note_discovery opened s))"

definition read_repo_sync_state :: "host \<Rightarrow> tracker \<Rightarrow> repo_sync_state option \<times> tracker" where
  "read_repo_sync_state e s =
     (if t_repo s = NotARepo then (None, s)
      else
        let opened = open_or_discover e (t_repo s) (t_working_dir s)
        in (case opened of
              None \<Rightarrow> None
            | Some _ \<Rightarrow> Some \<lparr>rs_head_oid = hs_head_oid e, rs_index_mtime = hs_index_mtime e\<rparr>,
            note_discovery opened s))"

subsection \<open>The turn index\<close>

definition turn_ids :: "tracker \<Rightarrow> nat \<Rightarrow> hunk_id list" where
  "turn_ids s p = (case map_of (t_turns s) p of None \<Rightarrow> [] | Some ids \<Rightarrow> ids)"

definition remove_from_turn_index :: "hunk_id \<Rightarrow> hunk_source \<Rightarrow> tracker \<Rightarrow> tracker" where
  "remove_from_turn_index i src s =
     (case source_prompt_index src of
        None \<Rightarrow> s
      | Some p \<Rightarrow>
          (case map_of (t_turns s) p of
             None \<Rightarrow> s
           | Some ids \<Rightarrow> s\<lparr>t_turns := AList.update p (removeAll i ids) (t_turns s)\<rparr>))"

definition add_to_turn_index :: "hunk_id \<Rightarrow> hunk_source \<Rightarrow> tracker \<Rightarrow> tracker" where
  "add_to_turn_index i src s =
     (case source_prompt_index src of
        None \<Rightarrow> s
      | Some p \<Rightarrow> s\<lparr>t_turns := AList.update p (List.insert i (turn_ids s p)) (t_turns s)\<rparr>)"

definition unindex_hunks :: "hunk list \<Rightarrow> tracker \<Rightarrow> tracker" where
  "unindex_hunks hs s = foldl (\<lambda>s h. remove_from_turn_index (h_id h) (h_source h) s) s hs"

definition index_hunks :: "hunk list \<Rightarrow> tracker \<Rightarrow> tracker" where
  "index_hunks hs s = foldl (\<lambda>s h. add_to_turn_index (h_id h) (h_source h) s) s hs"

subsection \<open>Recomputing hunks (actor/hunks.rs)\<close>

text \<open>The hunks of a pair of contents, before identifiers are kept.\<close>

fun content_hunks ::
    "line_diff \<Rightarrow> hunk_id \<Rightarrow> path \<Rightarrow> hunk_source \<Rightarrow> file_content_state \<Rightarrow> file_content_state
     \<Rightarrow> hunk list" where
  "content_hunks diff i p src (Full baseline) (Full current) =
     compute_hunks diff i p baseline current src"
| "content_hunks diff i p src (Full baseline) Missing =
     (if baseline = [] then [] else [file_deleted i p baseline src])"
| "content_hunks diff i p src Missing (Full current) =
     (if current = [] then [] else [file_created i p current src])"
| "content_hunks diff i p src _ _ = []"

fun preserve_ids :: "hunk list \<Rightarrow> hunk_id list \<Rightarrow> hunk list \<Rightarrow> hunk list" where
  "preserve_ids old_hunks claimed [] = []"
| "preserve_ids old_hunks claimed (n # ns) =
     (case find_matching_old_hunk n old_hunks of
        None \<Rightarrow> n # preserve_ids old_hunks claimed ns
      | Some best \<Rightarrow>
          if h_id best \<in> set claimed then n # preserve_ids old_hunks claimed ns
          else n\<lparr>h_id := h_id best,
                 h_source := (if is_external (h_source n) \<and> is_agent_edit (h_source best)
                              then h_source best else h_source n)\<rparr>
               # preserve_ids old_hunks (h_id best # claimed) ns)"

definition removed_events :: "path \<Rightarrow> hunk list \<Rightarrow> hunk list \<Rightarrow> hunk_event list" where
  "removed_events p old_hunks new_hunks =
     map (\<lambda>o1. HunkRemoved p (h_id o1) Superseded)
       (filter (\<lambda>o1. \<not> (\<exists>n \<in> set new_hunks. hunks_overlap o1 n \<or> hunks_match_content o1 n)) old_hunks)"

definition new_hunk_event :: "path \<Rightarrow> hunk list \<Rightarrow> hunk_source \<Rightarrow> hunk \<Rightarrow> hunk_event list" where
  "new_hunk_event p old_hunks trigger n =
     (case find (\<lambda>o1. hunks_match_content o1 n) old_hunks of
        Some o1 \<Rightarrow> if hunk_moved o1 n then [HunkMoved p (h_id o1) (h_line_info n)] else []
      | None \<Rightarrow>
          if \<not> (\<exists>o1 \<in> set old_hunks. hunks_overlap o1 n) then [HunkAdded p n]
          else
            let prev = (case find (\<lambda>o1. h_id o1 = h_id n) old_hunks of
                          Some o1 \<Rightarrow> Some o1
                        | None \<Rightarrow> find (\<lambda>o1. hunks_overlap o1 n) old_hunks);
                (prev_added, prev_removed) =
                  (case prev of
                     Some o1 \<Rightarrow> (new_count (h_line_info o1), old_count (h_line_info o1))
                   | None \<Rightarrow> (0, 0))
            in [HunkContentChanged p n trigger prev_added prev_removed])"

definition hunk_diff_events :: "path \<Rightarrow> hunk list \<Rightarrow> hunk list \<Rightarrow> hunk_source \<Rightarrow> hunk_event list" where
  "hunk_diff_events p old_hunks new_hunks trigger =
     removed_events p old_hunks new_hunks
     @ concat (map (new_hunk_event p old_hunks trigger) new_hunks)"

definition recompute_hunks ::
    "host \<Rightarrow> path \<Rightarrow> file_content_state option \<Rightarrow> hunk_source \<Rightarrow> tracker \<Rightarrow> tracker" where
  "recompute_hunks e p new_current src s =
     (case file_state s p of
        None \<Rightarrow> s
      | Some st \<Rightarrow>
          let old_hunks = fs_hunks st;
              current = (case new_current of Some c \<Rightarrow> c | None \<Rightarrow> missing_content);
              computed = content_hunks (hs_diff e) (t_next s) p src (fs_baseline st) current;
              new_hunks = preserve_ids old_hunks [] computed;
              s1 = put_file p (st\<lparr>fs_current := current, fs_hunks := new_hunks\<rparr>) s;
              s2 = s1\<lparr>t_next := t_next s + length computed\<rparr>;
              s3 = index_hunks new_hunks (unindex_hunks old_hunks s2)
          in send_events (hunk_diff_events p old_hunks new_hunks src) s3)"

end
