(* ===== verification/GB_HunkActor.thy ===== *)
theory GB_HunkActor
  imports GB_HunkState
begin

section \<open>File changes and commits (xai-hunk-tracker/src/actor/mutations.rs, git.rs)\<close>

text \<open>
  The handlers of agent writes, file notifications and commits. Each takes the environment as it
  is while the handler runs: the actor processes one command at a time.
\<close>

definition strip_single_trailing_newline :: "string \<Rightarrow> string" where
  "strip_single_trailing_newline content =
     (case strip_suffix content [CR, LF] of
        Some s \<Rightarrow> s
      | None \<Rightarrow> (case strip_suffix content [LF] of Some s \<Rightarrow> s | None \<Rightarrow> content))"

text \<open>A path relative to the working directory, where it can be made so.\<close>

definition rel_to_wd :: "tracker \<Rightarrow> path \<Rightarrow> path" where
  "rel_to_wd s p = (case path_strip_prefix p (t_working_dir s) of Some rel \<Rightarrow> rel | None \<Rightarrow> p)"

definition in_dirty_cache :: "tracker \<Rightarrow> path \<Rightarrow> bool" where
  "in_dirty_cache s p \<longleftrightarrow> rel_to_wd s p \<in> set (t_dirty s)"

definition record_agent_write ::
    "host \<Rightarrow> path \<Rightarrow> string \<Rightarrow> nat \<Rightarrow> string option \<Rightarrow> tracker \<Rightarrow> tracker" where
  "record_agent_write e p content prompt_index previous_content s =
     (let current = classify_string content
      in if \<not> is_diffable current then
           (case file_state s p of
              None \<Rightarrow>
                let (baseline, s1) =
                      (case previous_content of
                         Some prev \<Rightarrow> (classify_string prev, s)
                       | None \<Rightarrow> read_baseline e p s)
                in send_event (FileAdded p True) (put_file p (new_file_state baseline current True) s1)
            | Some st \<Rightarrow>
                put_file p (st\<lparr>fs_is_agent_file := True, fs_current := current, fs_hunks := []\<rparr>) s)
         else
           let s2 =
             (case file_state s p of
                None \<Rightarrow>
                  let (head, s1) = read_baseline e p s;
                      baseline = (if head = Missing
                                  then (case previous_content of
                                          Some prev \<Rightarrow> classify_string prev
                                        | None \<Rightarrow> missing_content)
                                  else head)
                  in send_event (FileAdded p True) (put_file p (new_file_state baseline current True) s1)
              | Some st \<Rightarrow> put_file p (st\<lparr>fs_is_agent_file := True\<rparr>) s)
           in recompute_hunks e p (Some current) (AgentEdit prompt_index) s2)"

text \<open>
  \<open>process_file_change\<close>. An untracked path with no baseline that git does not report is ignored,
  unless it is a directory.
\<close>

definition gitignored :: "host \<Rightarrow> tracker \<Rightarrow> path \<Rightarrow> file_content_state \<Rightarrow> bool" where
  "gitignored e s p baseline \<longleftrightarrow>
     t_mode s = AllDirty \<and> baseline = Missing \<and> \<not> hs_is_dir e p \<and> \<not> in_dirty_cache s p"

definition external_source :: "tracker \<Rightarrow> path \<Rightarrow> hunk_source" where
  "external_source s p =
     (case file_state s p of
        Some st \<Rightarrow> if fs_is_agent_file st then ExternalEditOnAgentFile else External
      | None \<Rightarrow> External)"

fun content_matches_head :: "bool \<Rightarrow> file_content_state \<Rightarrow> file_content_state \<Rightarrow> bool" where
  "content_matches_head dirty (Full current) (Full head) \<longleftrightarrow>
     strip_single_trailing_newline current = strip_single_trailing_newline head"
| "content_matches_head dirty Missing Missing \<longleftrightarrow> True"
| "content_matches_head dirty (Binary _) (Binary _) \<longleftrightarrow> True"
| "content_matches_head dirty (TooLarge _) (TooLarge _) \<longleftrightarrow> True"
| "content_matches_head dirty (LfsPointer _) (LfsPointer _) \<longleftrightarrow> True"
| "content_matches_head dirty Symlink Symlink \<longleftrightarrow> True"
| "content_matches_head dirty Symlink (Full _) \<longleftrightarrow> \<not> dirty"
| "content_matches_head dirty (Full _) Symlink \<longleftrightarrow> \<not> dirty"
| "content_matches_head dirty _ _ \<longleftrightarrow> False"

definition process_file_change ::
    "host \<Rightarrow> path \<Rightarrow> file_content_state option \<Rightarrow> tracker \<Rightarrow> tracker" where
  "process_file_change e p preloaded s =
     (let is_tracked = file_state s p \<noteq> None;
          current = read_file_bounded e p;
          get_baseline = (\<lambda>s. case preloaded of Some b \<Rightarrow> (b, s) | None \<Rightarrow> read_baseline e p s)
      in if t_mode s = AgentOnly \<and> \<not> is_tracked then s
         else if \<not> is_diffable current \<and> \<not> is_tracked then
           let (baseline, s1) = (if t_mode s = AllDirty then get_baseline s else (missing_content, s))
           in if gitignored e s1 p baseline then s1
              else
                let s2 = send_event (FileAdded p False)
                           (put_file p (new_file_state baseline current False) s1)
                in if is_diffable baseline then recompute_hunks e p None External s2 else s2
         else
           case file_state s p of
             None \<Rightarrow>
               let (baseline, s1) = get_baseline s
               in if gitignored e s1 p baseline then s1
                  else
                    let s2 = send_event (FileAdded p False)
                               (put_file p (new_file_state baseline missing_content False) s1)
                    in recompute_hunks e p (Some current) (external_source s2 p) s2
           | Some st \<Rightarrow>
               if fs_baseline_accepted st then
                 let (head, s1) = get_baseline s
                 in if content_matches_head (in_dirty_cache s1 p) current head
                    then put_file p (st\<lparr>fs_baseline := head, fs_current := head,
                                        fs_baseline_accepted := False, fs_hunks := []\<rparr>) s1
                    else recompute_hunks e p (Some current) (external_source s1 p) s1
               else recompute_hunks e p (Some current) (external_source s p) s)"

definition handle_file_change :: "host \<Rightarrow> path \<Rightarrow> tracker \<Rightarrow> tracker" where
  "handle_file_change e p s = process_file_change e p None s"

text \<open>
  A batch reads the baselines it needs once; each is used by the first occurrence of its path.
\<close>

definition needs_baseline :: "tracker \<Rightarrow> path \<Rightarrow> bool" where
  "needs_baseline s p =
     (case file_state s p of
        None \<Rightarrow> t_mode s \<noteq> AgentOnly
      | Some st \<Rightarrow> fs_baseline_accepted st)"

fun process_changes ::
    "host \<Rightarrow> (path \<times> file_content_state) list \<Rightarrow> path list \<Rightarrow> tracker \<Rightarrow> tracker" where
  "process_changes e baselines [] s = s"
| "process_changes e baselines (p # ps) s =
     process_changes e (AList.delete p baselines) ps (process_file_change e p (map_of baselines p) s)"

definition handle_file_changes_batch :: "host \<Rightarrow> path list \<Rightarrow> tracker \<Rightarrow> tracker" where
  "handle_file_changes_batch e paths s =
     (if paths = [] then s
      else
        let baseline_paths = filter (needs_baseline s) paths;
            (baselines, s1) = (if baseline_paths = [] then ([], s)
                               else read_baselines_batch e baseline_paths s)
        in process_changes e baselines paths s1)"

definition handle_file_deleted :: "host \<Rightarrow> path \<Rightarrow> tracker \<Rightarrow> tracker" where
  "handle_file_deleted e p s =
     (case file_state s p of
        None \<Rightarrow>
          if t_mode s = AgentOnly then s
          else if hs_exists e p then s
          else
            let (baseline, s1) = read_baseline e p s
            in if baseline = Missing then s1
               else recompute_hunks e p None External
                      (send_event (FileAdded p False)
                        (put_file p (new_file_state baseline missing_content False) s1))
      | Some st \<Rightarrow>
          if hs_exists e p then handle_file_change e p s
          else recompute_hunks e p None (external_source s p) s)"

definition drop_hunk_events :: "path \<Rightarrow> hunk_removal_reason \<Rightarrow> hunk list \<Rightarrow> hunk_event list" where
  "drop_hunk_events p reason hs = map (\<lambda>h. HunkRemoved p (h_id h) reason) hs"

definition reset_baseline :: "path \<Rightarrow> tracker \<Rightarrow> tracker" where
  "reset_baseline p s =
     (case file_state s p of
        None \<Rightarrow> s
      | Some st \<Rightarrow>
          let s1 = put_file p (st\<lparr>fs_baseline := fs_current st, fs_baseline_accepted := False,
                                  fs_hunks := []\<rparr>) s;
              s2 = unindex_hunks (fs_hunks st) s1
          in send_event (BaselineUpdated p)
               (send_events (drop_hunk_events p Superseded (fs_hunks st)) s2))"

subsection \<open>The caches of git's status (git.rs)\<close>

definition status_pathspecs :: "path \<Rightarrow> path list option \<Rightarrow> string list" where
  "status_pathspecs repo_prefix scope =
     (case scope of
        None \<Rightarrow> []
      | Some rels \<Rightarrow> map (\<lambda>rel. '':(top,literal)'' @ path_push repo_prefix rel) rels)"

text \<open>The dirty and the staged paths of a status, relative to the working directory.\<close>

definition status_sets :: "path \<Rightarrow> (path \<times> bool) list \<Rightarrow> path list \<times> path list" where
  "status_sets repo_prefix items =
     (let rels = List.map_filter
                   (\<lambda>(p, staged). case path_strip_prefix p repo_prefix of
                                    None \<Rightarrow> None | Some rel \<Rightarrow> Some (rel, staged)) items
      in (remdups (map fst rels), remdups (map fst (filter snd rels))))"

definition git_status :: "host \<Rightarrow> path list option \<Rightarrow> tracker \<Rightarrow> path list \<times> path list" where
  "git_status e scope s =
     (case open_or_discover e (t_repo s) (t_working_dir s) of
        None \<Rightarrow> ([], [])
      | Some (repo_prefix, _) \<Rightarrow>
          (case hs_index_len e of
             None \<Rightarrow> ([], [])
           | Some len \<Rightarrow>
               if len = 0 then ([], [])
               else (case hs_status e (status_pathspecs repo_prefix scope) of
                       None \<Rightarrow> ([], [])
                     | Some items \<Rightarrow> status_sets repo_prefix items)))"

definition refresh_git_dirty_cache :: "host \<Rightarrow> path list option \<Rightarrow> tracker \<Rightarrow> tracker" where
  "refresh_git_dirty_cache e scope s =
     (if t_repo s = NotARepo then s
      else
        let opened = open_or_discover e (t_repo s) (t_working_dir s);
            (dirty, staged) = git_status e scope s;
            s1 = note_discovery opened s;
            to_track = filter (\<lambda>rel. file_state s1 (path_push (t_working_dir s1) rel) = None) dirty;
            s2 = s1\<lparr>t_dirty := dirty, t_staged := staged\<rparr>
        in if t_mode s2 = AllDirty
           then foldl (\<lambda>s rel. handle_file_change e (path_push (t_working_dir s) rel) s) s2 to_track
           else s2)"

subsection \<open>Reconciling with a new HEAD\<close>

fun is_clean :: "bool \<Rightarrow> bool \<Rightarrow> file_content_state \<Rightarrow> file_content_state \<Rightarrow> bool" where
  "is_clean exists dirty (Full b) (Full c) \<longleftrightarrow>
     strip_single_trailing_newline b = strip_single_trailing_newline c"
| "is_clean exists dirty (Binary _) (Binary _) \<longleftrightarrow> \<not> dirty"
| "is_clean exists dirty (TooLarge _) (TooLarge _) \<longleftrightarrow> \<not> dirty"
| "is_clean exists dirty (LfsPointer _) _ \<longleftrightarrow> \<not> dirty"
| "is_clean exists dirty Symlink Symlink \<longleftrightarrow> \<not> dirty"
| "is_clean exists dirty _ (LfsPointer _) \<longleftrightarrow> \<not> dirty"
| "is_clean exists dirty Symlink (Full _) \<longleftrightarrow> \<not> dirty"
| "is_clean exists dirty (Full _) Symlink \<longleftrightarrow> \<not> dirty"
| "is_clean exists dirty Missing Missing \<longleftrightarrow> \<not> exists"
| "is_clean exists dirty Missing _ \<longleftrightarrow> \<not> dirty"
| "is_clean exists dirty _ _ \<longleftrightarrow> False"

definition refresh_file ::
    "host \<Rightarrow> file_content_state \<Rightarrow> file_content_state \<Rightarrow> path \<Rightarrow> tracker \<Rightarrow> tracker" where
  "refresh_file e new_baseline new_current p s =
     (case file_state s p of
        None \<Rightarrow> s
      | Some st \<Rightarrow>
          let st1 = st\<lparr>fs_baseline := new_baseline, fs_current := new_current,
                       fs_baseline_accepted := False\<rparr>;
              s1 = put_file p st1 s;
              clean = is_clean (hs_exists e p) (in_dirty_cache s p) new_baseline new_current
          in if clean \<and> \<not> fs_is_agent_file st then
               send_event (FileRemoved p)
                 (send_events (drop_hunk_events p Superseded (fs_hunks st))
                   (unindex_hunks (fs_hunks st) (drop_file p s1)))
             else if clean \<and> fs_is_agent_file st then
               send_event (BaselineUpdated p)
                 (send_events (drop_hunk_events p Superseded (fs_hunks st))
                   (unindex_hunks (fs_hunks st) (put_file p (st1\<lparr>fs_hunks := []\<rparr>) s)))
             else
               send_event (BaselineUpdated p)
                 (recompute_hunks e p (Some new_current)
                   (if fs_is_agent_file st then ExternalEditOnAgentFile else External) s1))"

definition refresh_scope :: "tracker \<Rightarrow> path list option" where
  "refresh_scope s =
     (if t_mode s = AllDirty then None
      else Some (List.map_filter (\<lambda>p. path_strip_prefix p (t_working_dir s)) (map fst (t_files s))))"

definition or_missing :: "file_content_state option \<Rightarrow> file_content_state" where
  "or_missing c = (case c of Some x \<Rightarrow> x | None \<Rightarrow> missing_content)"

definition refresh_all_baselines_except :: "host \<Rightarrow> path list \<Rightarrow> tracker \<Rightarrow> tracker" where
  "refresh_all_baselines_except e skip s =
     (if t_mode s = AgentOnly \<and> t_files s = [] then s
      else
        let (sync, s1) = read_repo_sync_state e s
        in if sync = Some (t_sync s1) then s1
           else
             let s2 = (case sync of Some st \<Rightarrow> s1\<lparr>t_sync := st\<rparr> | None \<Rightarrow> s1);
                 scope = refresh_scope s2;
                 s3 = (if scope = Some [] then s2\<lparr>t_dirty := [], t_staged := []\<rparr>
                       else refresh_git_dirty_cache e scope s2);
                 paths = filter (\<lambda>p. p \<notin> set skip) (map fst (t_files s3));
                 (baselines, s4) = read_baselines_batch e paths s3
             in foldl (\<lambda>s p. refresh_file e (or_missing (map_of baselines p)) (read_file_bounded e p) p s)
                  s4 paths)"

definition refresh_all_baselines :: "host \<Rightarrow> tracker \<Rightarrow> tracker" where
  "refresh_all_baselines e s = refresh_all_baselines_except e [] s"

definition untrack_file :: "path \<Rightarrow> tracker \<Rightarrow> tracker" where
  "untrack_file p s =
     (case file_state s p of
        None \<Rightarrow> s
      | Some st \<Rightarrow>
          send_event (FileRemoved p)
            (send_events (drop_hunk_events p Superseded (fs_hunks st))
              (unindex_hunks (fs_hunks st) (drop_file p s))))"

definition set_mode :: "host \<Rightarrow> tracking_mode \<Rightarrow> tracker \<Rightarrow> tracker" where
  "set_mode e mode s =
     (let old_mode = t_mode s;
          s1 = s\<lparr>t_mode := mode\<rparr>
      in if old_mode = AgentOnly \<and> mode = AllDirty then refresh_git_dirty_cache e None s1
         else if old_mode = AllDirty \<and> mode = AgentOnly then
           foldl (\<lambda>s p. untrack_file p s) s1
             (map fst (filter (\<lambda>(p, st). \<not> fs_is_agent_file st) (t_files s1)))
         else s1)"

end
