(* ===== verification/GB_HunkActions.thy ===== *)
theory GB_HunkActions
  imports GB_HunkActor
begin

section \<open>Accepting and rejecting hunks (xai-hunk-tracker/src/actor/actions.rs)\<close>

text \<open>
  Accepting patches the baseline, rejecting patches the file on disk; both then recompute the
  hunks that are left. An action returns its result with the state it leaves, which an error
  leaves as the code does: with what was changed before the failing write.
\<close>

datatype hunk_action = AcceptHunk | RejectHunk

datatype hunk_action_error =
    HunkNotFound hunk_id
  | WriteError path
  | DeleteError path
  | ReadError path

definition update_session_stats :: "hunk_line_info \<Rightarrow> bool \<Rightarrow> tracker \<Rightarrow> tracker" where
  "update_session_stats li accepted s =
     (let st = t_stats s
      in s\<lparr>t_stats :=
         (if accepted then
            st\<lparr>accepted_hunks := usize_sat_add (accepted_hunks st) 1,
               accepted_lines_added := usize_sat_add (accepted_lines_added st) (new_count li),
               accepted_lines_removed := usize_sat_add (accepted_lines_removed st) (old_count li)\<rparr>
          else
            st\<lparr>rejected_hunks := usize_sat_add (rejected_hunks st) 1,
               rejected_lines_added := usize_sat_add (rejected_lines_added st) (new_count li),
               rejected_lines_removed := usize_sat_add (rejected_lines_removed st) (old_count li)\<rparr>)\<rparr>)"

text \<open>The source for the recomputation of what remains.\<close>

definition remaining_source :: "tracker \<Rightarrow> path \<Rightarrow> hunk_source" where
  "remaining_source s p =
     (case file_state s p of
        None \<Rightarrow> External
      | Some st \<Rightarrow> (case fs_hunks st of [] \<Rightarrow> External | h # _ \<Rightarrow> h_source h))"

definition without_ids :: "hunk_id list \<Rightarrow> hunk list \<Rightarrow> hunk list" where
  "without_ids ids hs = filter (\<lambda>h. h_id h \<notin> set ids) hs"

text \<open>Files written and removed on disk.\<close>

definition write_file :: "host \<Rightarrow> path \<Rightarrow> string \<Rightarrow> tracker \<Rightarrow> hunk_action_error + tracker" where
  "write_file e p content s =
     (if hs_write_ok e p then Inr (s\<lparr>t_disk := t_disk s @ [DiskWrite p content]\<rparr>)
      else Inl (WriteError p))"

definition remove_file :: "host \<Rightarrow> path \<Rightarrow> tracker \<Rightarrow> hunk_action_error + tracker" where
  "remove_file e p s =
     (if hs_remove_ok e p then Inr (s\<lparr>t_disk := t_disk s @ [DiskRemove p]\<rparr>)
      else Inl (DeleteError p))"

definition accepted_events :: "path \<Rightarrow> hunk list \<Rightarrow> hunk_event list" where
  "accepted_events p hs = drop_hunk_events p Accepted hs @ [BaselineUpdated p]"

subsection \<open>One hunk\<close>

definition accept_hunk :: "host \<Rightarrow> path \<Rightarrow> hunk \<Rightarrow> tracker \<Rightarrow> tracker" where
  "accept_hunk e p h s =
     (case file_state s p of
        None \<Rightarrow> s
      | Some st \<Rightarrow>
          let rest = without_ids [h_id h] (fs_hunks st)
          in if fs_baseline st = Missing then
               send_events (accepted_events p [h])
                 (put_file p (st\<lparr>fs_baseline := fs_current st, fs_baseline_accepted := True,
                                 fs_hunks := rest\<rparr>) s)
             else
               let baseline = (case fs_baseline st of
                                 Full b \<Rightarrow> Full (exchange h b) | other \<Rightarrow> other);
                   s1 = send_events (accepted_events p [h])
                          (put_file p (st\<lparr>fs_baseline := baseline, fs_baseline_accepted := True,
                                          fs_hunks := rest\<rparr>) s)
               in recompute_hunks e p (Some (fs_current st)) (remaining_source s1 p) s1)"

datatype reject_plan =
    RestoreDeleted string
  | DeleteCreated
  | RevertChange string
  | NoOp

fun reject_plan_of :: "hunk \<Rightarrow> file_content_state \<Rightarrow> file_content_state \<Rightarrow> reject_plan" where
  "reject_plan_of h (Full baseline) Missing = RestoreDeleted baseline"
| "reject_plan_of h Missing (Full current) = DeleteCreated"
| "reject_plan_of h _ (Full current) = RevertChange (revert h current)"
| "reject_plan_of h _ _ = NoOp"

definition reject_hunk :: "host \<Rightarrow> path \<Rightarrow> hunk \<Rightarrow> tracker \<Rightarrow> (hunk_action_error + unit) \<times> tracker" where
  "reject_hunk e p h s =
     (case file_state s p of
        None \<Rightarrow> (Inr (), s)
      | Some st \<Rightarrow>
          let rest = without_ids [h_id h] (fs_hunks st)
          in case reject_plan_of h (fs_baseline st) (fs_current st) of
               NoOp \<Rightarrow> (Inr (), s)
             | RestoreDeleted baseline \<Rightarrow>
                 (case write_file e p baseline s of
                    Inl err \<Rightarrow> (Inl err, s)
                  | Inr s1 \<Rightarrow>
                      (Inr (), send_event (HunkRemoved p (h_id h) Rejected)
                         (put_file p (st\<lparr>fs_current := Full baseline, fs_hunks := rest\<rparr>) s1)))
             | DeleteCreated \<Rightarrow>
                 (case remove_file e p s of
                    Inl err \<Rightarrow> (Inl err, s)
                  | Inr s1 \<Rightarrow>
                      (Inr (), send_event (HunkRemoved p (h_id h) Rejected)
                         (put_file p (st\<lparr>fs_current := Missing, fs_hunks := rest\<rparr>) s1)))
             | RevertChange patched \<Rightarrow>
                 (case write_file e p patched s of
                    Inl err \<Rightarrow> (Inl err, s)
                  | Inr s1 \<Rightarrow>
                      let s2 = send_event (HunkRemoved p (h_id h) Rejected)
                                 (put_file p (st\<lparr>fs_current := Full patched, fs_hunks := rest\<rparr>) s1)
                      in (Inr (), recompute_hunks e p (Some (Full patched)) (remaining_source s2 p) s2)))"

definition find_hunk :: "tracker \<Rightarrow> hunk_id \<Rightarrow> (path \<times> hunk) option" where
  "find_hunk s i =
     first_opt (List.map_filter
       (\<lambda>(p, st). case find (\<lambda>h. h_id h = i) (fs_hunks st) of
                    None \<Rightarrow> None | Some h \<Rightarrow> Some (p, h)) (t_files s))"

text \<open>An action on one hunk: the counters and the turn index first, then the action.\<close>

definition note_action :: "hunk_action \<Rightarrow> hunk \<Rightarrow> tracker \<Rightarrow> tracker" where
  "note_action a h s =
     remove_from_turn_index (h_id h) (h_source h)
       (update_session_stats (h_line_info h) (a = AcceptHunk) s)"

definition apply_hunk_action ::
    "host \<Rightarrow> hunk_id \<Rightarrow> hunk_action \<Rightarrow> tracker \<Rightarrow> (hunk_action_error + unit) \<times> tracker" where
  "apply_hunk_action e i a s =
     (case find_hunk s i of
        None \<Rightarrow> (Inl (HunkNotFound i), s)
      | Some (p, h) \<Rightarrow>
          let s1 = note_action a h s
          in case a of
               AcceptHunk \<Rightarrow> (Inr (), accept_hunk e p h s1)
             | RejectHunk \<Rightarrow> reject_hunk e p h s1)"

subsection \<open>All hunks of a file\<close>

definition sorted_desc :: "(hunk \<Rightarrow> nat) \<Rightarrow> hunk list \<Rightarrow> hunk list" where
  "sorted_desc key hs = sort_key (\<lambda>h. - int (key h)) hs"

definition by_old_start :: "hunk \<Rightarrow> nat" where "by_old_start h = old_start (h_line_info h)"
definition by_new_start :: "hunk \<Rightarrow> nat" where "by_new_start h = new_start (h_line_info h)"

definition accept_hunks_batch :: "host \<Rightarrow> path \<Rightarrow> hunk list \<Rightarrow> tracker \<Rightarrow> tracker" where
  "accept_hunks_batch e p hs s =
     (if hs = [] then s
      else case file_state s p of
        None \<Rightarrow> s
      | Some st \<Rightarrow>
          let rest = without_ids (map h_id hs) (fs_hunks st)
          in if fs_baseline st = Missing then
               send_events (accepted_events p hs)
                 (put_file p (st\<lparr>fs_baseline := fs_current st, fs_baseline_accepted := True,
                                 fs_hunks := rest\<rparr>) s)
             else
               let baseline = (case fs_baseline st of
                                 Full b \<Rightarrow> Full (fold exchange (sorted_desc by_old_start hs) b)
                               | other \<Rightarrow> other);
                   s1 = send_events (accepted_events p hs)
                          (put_file p (st\<lparr>fs_baseline := baseline, fs_baseline_accepted := True,
                                          fs_hunks := rest\<rparr>) s)
               in recompute_hunks e p (Some (fs_current st)) (remaining_source s1 p) s1)"

definition reject_hunks_batch ::
    "host \<Rightarrow> path \<Rightarrow> hunk list \<Rightarrow> tracker \<Rightarrow> (hunk_action_error + unit) \<times> tracker" where
  "reject_hunks_batch e p hs s =
     (if hs = [] then (Inr (), s)
      else case file_state s p of
        None \<Rightarrow> (Inr (), s)
      | Some st \<Rightarrow>
          let rest = without_ids (map h_id hs) (fs_hunks st);
              gone = drop_hunk_events p Rejected hs
          in case (fs_baseline st, fs_current st) of
               (Full baseline, Missing) \<Rightarrow>
                 (case write_file e p baseline s of
                    Inl err \<Rightarrow> (Inl err, s)
                  | Inr s1 \<Rightarrow>
                      (Inr (), send_events gone
                         (put_file p (st\<lparr>fs_current := Full baseline, fs_hunks := rest\<rparr>) s1)))
             | (Missing, Full current) \<Rightarrow>
                 (case remove_file e p s of
                    Inl err \<Rightarrow> (Inl err, s)
                  | Inr s1 \<Rightarrow>
                      (Inr (), send_events gone
                         (put_file p (st\<lparr>fs_current := Missing, fs_hunks := rest\<rparr>) s1)))
             | (_, Full current) \<Rightarrow>
                 let patched = fold revert (sorted_desc by_new_start hs) current
                 in (case write_file e p patched s of
                       Inl err \<Rightarrow> (Inl err, s)
                     | Inr s1 \<Rightarrow>
                         let s2 = send_events gone
                                    (put_file p (st\<lparr>fs_current := Full patched, fs_hunks := rest\<rparr>) s1)
                         in (Inr (), recompute_hunks e p (Some (Full patched)) (remaining_source s2 p) s2))
             | _ \<Rightarrow> (Inr (), s))"

text \<open>The batch processor: file by file, stopping at the first error.\<close>

definition note_actions :: "hunk_action \<Rightarrow> hunk list \<Rightarrow> tracker \<Rightarrow> tracker" where
  "note_actions a hs s = foldl (\<lambda>s h. note_action a h s) s hs"

definition batch_file ::
    "host \<Rightarrow> hunk_action \<Rightarrow> path \<Rightarrow> hunk list \<Rightarrow> tracker \<Rightarrow> (hunk_action_error + unit) \<times> tracker" where
  "batch_file e a p hs s =
     (case a of
        AcceptHunk \<Rightarrow> (Inr (), accept_hunks_batch e p hs (note_actions a hs s))
      | RejectHunk \<Rightarrow> reject_hunks_batch e p hs (note_actions a hs s))"

fun apply_action_batch ::
    "host \<Rightarrow> hunk_action \<Rightarrow> (path \<times> hunk list) list \<Rightarrow> tracker
     \<Rightarrow> (hunk_action_error + hunk_id list) \<times> tracker" where
  "apply_action_batch e a [] s = (Inr [], s)"
| "apply_action_batch e a ((p, hs) # rest) s =
     (case batch_file e a p hs s of
        (Inl err, s1) \<Rightarrow> (Inl err, s1)
      | (Inr _, s1) \<Rightarrow>
          (case apply_action_batch e a rest s1 of
             (Inl err, s2) \<Rightarrow> (Inl err, s2)
           | (Inr ids, s2) \<Rightarrow> (Inr (map h_id hs @ ids), s2)))"

definition apply_file_action ::
    "host \<Rightarrow> path \<Rightarrow> hunk_action \<Rightarrow> tracker \<Rightarrow> (hunk_action_error + hunk_id list) \<times> tracker" where
  "apply_file_action e p a s =
     (case file_state s p of
        None \<Rightarrow> (Inr [], s)
      | Some st \<Rightarrow>
          if fs_hunks st = [] then (Inr [], s)
          else apply_action_batch e a [(p, fs_hunks st)] s)"

definition pending_of_files :: "(hunk \<Rightarrow> bool) \<Rightarrow> tracker \<Rightarrow> (path \<times> hunk list) list" where
  "pending_of_files want s =
     filter (\<lambda>(p, hs). hs \<noteq> []) (map (\<lambda>(p, st). (p, filter want (fs_hunks st))) (t_files s))"

definition apply_all_action ::
    "host \<Rightarrow> hunk_action \<Rightarrow> tracker \<Rightarrow> (hunk_action_error + hunk_id list) \<times> tracker" where
  "apply_all_action e a s = apply_action_batch e a (pending_of_files (\<lambda>_. True) s) s"

definition apply_turn_action ::
    "host \<Rightarrow> nat \<Rightarrow> hunk_action \<Rightarrow> tracker \<Rightarrow> (hunk_action_error + hunk_id list) \<times> tracker" where
  "apply_turn_action e n a s =
     apply_action_batch e a (pending_of_files (\<lambda>h. source_prompt_index (h_source h) = Some n) s) s"

end
