(* ===== verification/GB_HunkCommands.thy ===== *)
theory GB_HunkCommands
  imports GB_HunkActions
begin

section \<open>Queries, snapshots and the command loop (xai-hunk-tracker/src/actor)\<close>

text \<open>
  The read-only queries (\<open>queries.rs\<close>), snapshots and the remount of the working directory
  (\<open>mod.rs\<close>, \<open>types.rs\<close>), and the actor's commands (\<open>commands.rs\<close>) with the coalescing of queued
  notifications.
\<close>

subsection \<open>Queries\<close>

definition get_all_hunks :: "tracker \<Rightarrow> hunk list" where
  "get_all_hunks s = concat (map (\<lambda>(p, st). fs_hunks st) (t_files s))"

definition get_hunks_for_path :: "tracker \<Rightarrow> path \<Rightarrow> hunk list" where
  "get_hunks_for_path s p = (case file_state s p of Some st \<Rightarrow> fs_hunks st | None \<Rightarrow> [])"

datatype file_content_status = StMissing | StBinary | StTooLarge | StLfsPointer | StSymlink | StFull

record file_content_view =
  fv_status :: file_content_status
  fv_byte_len :: "nat option"
  fv_content :: "string option"

fun from_content_state :: "file_content_state \<Rightarrow> file_content_view" where
  "from_content_state Missing = \<lparr>fv_status = StMissing, fv_byte_len = None, fv_content = None\<rparr>"
| "from_content_state (Binary n) = \<lparr>fv_status = StBinary, fv_byte_len = n, fv_content = None\<rparr>"
| "from_content_state (TooLarge n) =
     \<lparr>fv_status = StTooLarge, fv_byte_len = Some n, fv_content = None\<rparr>"
| "from_content_state (LfsPointer n) =
     \<lparr>fv_status = StLfsPointer, fv_byte_len = Some n, fv_content = None\<rparr>"
| "from_content_state Symlink = \<lparr>fv_status = StSymlink, fv_byte_len = None, fv_content = None\<rparr>"
| "from_content_state (Full s) =
     \<lparr>fv_status = StFull, fv_byte_len = Some (length s), fv_content = Some s\<rparr>"

definition view_default :: file_content_view where
  "view_default = \<lparr>fv_status = StMissing, fv_byte_len = None, fv_content = None\<rparr>"

record file_hunk_data =
  fd_hunks :: "hunk list"
  fd_baseline :: file_content_view
  fd_current :: file_content_view
  fd_baseline_content :: "string option"
  fd_current_content :: "string option"

definition hunk_patch :: "string option \<Rightarrow> string option \<Rightarrow> hunk \<Rightarrow> string option" where
  "hunk_patch baseline current h =
     (case (baseline, current) of
        (Some b, Some c) \<Rightarrow> Some (generate_hunk_patch b c h)
      | (None, Some c) \<Rightarrow> Some (generate_hunk_patch [] c h)
      | (Some b, None) \<Rightarrow> Some (generate_hunk_patch b [] h)
      | (None, None) \<Rightarrow> None)"

definition get_file_hunk_data :: "tracker \<Rightarrow> path \<Rightarrow> file_hunk_data" where
  "get_file_hunk_data s p =
     (case file_state s p of
        None \<Rightarrow> \<lparr>fd_hunks = [], fd_baseline = view_default, fd_current = view_default,
                 fd_baseline_content = None, fd_current_content = None\<rparr>
      | Some st \<Rightarrow>
          let b = content_as_str (fs_baseline st);
              c = content_as_str (fs_current st);
              baseline = from_content_state (fs_baseline st);
              current = from_content_state (fs_current st)
          in \<lparr>fd_hunks = map (\<lambda>h. h\<lparr>h_patch := hunk_patch b c h\<rparr>) (fs_hunks st),
              fd_baseline = baseline, fd_current = current,
              fd_baseline_content = fv_content baseline, fd_current_content = fv_content current\<rparr>)"

definition get_all_tracked_paths :: "tracker \<Rightarrow> path list" where
  "get_all_tracked_paths s = map fst (t_files s)"

datatype hunk_source_filter = AgentHunks | ExternalHunks

fun source_wanted :: "hunk_source_filter \<Rightarrow> hunk \<Rightarrow> bool" where
  "source_wanted AgentHunks h = is_agent_edit (h_source h)"
| "source_wanted ExternalHunks h = is_external (h_source h)"

definition get_hunks_by_source :: "tracker \<Rightarrow> hunk_source_filter \<Rightarrow> hunk list" where
  "get_hunks_by_source s f = filter (source_wanted f) (get_all_hunks s)"

definition get_hunk :: "tracker \<Rightarrow> hunk_id \<Rightarrow> hunk option" where
  "get_hunk s i = find (\<lambda>h. h_id h = i) (get_all_hunks s)"

definition get_hunks_for_turn :: "tracker \<Rightarrow> nat \<Rightarrow> hunk list" where
  "get_hunks_for_turn s n = List.map_filter (get_hunk s) (turn_ids s n)"

record turn_summary =
  ts_prompt_index :: nat
  ts_files :: "path list"
  ts_pending_hunks :: "hunk list"
  ts_lines_added :: nat
  ts_lines_removed :: nat

record session_summary =
  ss_stats :: session_stats
  ss_turns :: "turn_summary list"
  ss_files_modified :: nat
  ss_files_with_pending :: nat
  ss_pending_hunks :: nat
  ss_pending_lines_added :: nat
  ss_pending_lines_removed :: nat
  ss_unattributed_pending :: nat

text \<open>
  The pass over the files and their hunks: the data by prompt, the files with agent hunks, the
  count of hunks of no prompt.
\<close>

definition turn_empty :: "nat \<Rightarrow> turn_summary" where
  "turn_empty n = \<lparr>ts_prompt_index = n, ts_files = [], ts_pending_hunks = [],
     ts_lines_added = 0, ts_lines_removed = 0\<rparr>"

definition add_pending :: "path \<Rightarrow> hunk \<Rightarrow> turn_summary \<Rightarrow> turn_summary" where
  "add_pending p h t =
     t\<lparr>ts_files := List.insert p (ts_files t), ts_pending_hunks := ts_pending_hunks t @ [h],
       ts_lines_added := ts_lines_added t + new_count (h_line_info h),
       ts_lines_removed := ts_lines_removed t + old_count (h_line_info h)\<rparr>"

type_synonym summary_acc = "(nat \<times> turn_summary) list \<times> nat"

definition summarize_hunk :: "path \<Rightarrow> summary_acc \<Rightarrow> hunk \<Rightarrow> summary_acc" where
  "summarize_hunk p acc h =
     (case acc of (by_prompt, unattributed) \<Rightarrow>
        case source_prompt_index (h_source h) of
          Some n \<Rightarrow>
            (AList.update n
               (add_pending p h (case map_of by_prompt n of Some t \<Rightarrow> t | None \<Rightarrow> turn_empty n))
               by_prompt, unattributed)
        | None \<Rightarrow> (by_prompt, unattributed + 1))"

definition summarize_files :: "(path \<times> file_hunk_state) list \<Rightarrow> summary_acc" where
  "summarize_files fss =
     foldl (\<lambda>acc (p, st). foldl (summarize_hunk p) acc (fs_hunks st)) ([], 0) fss"

definition has_agent_hunks :: "file_hunk_state \<Rightarrow> bool" where
  "has_agent_hunks st \<longleftrightarrow> (\<exists>h \<in> set (fs_hunks st). source_prompt_index (h_source h) \<noteq> None)"

definition compute_session_summary :: "tracker \<Rightarrow> session_summary" where
  "compute_session_summary s =
     (let (by_prompt, unattributed) = summarize_files (t_files s);
          turns = sort_key ts_prompt_index (map snd by_prompt);
          modified = length (filter (\<lambda>(p, st). has_agent_hunks st) (t_files s))
      in \<lparr>ss_stats = t_stats s, ss_turns = turns, ss_files_modified = modified,
          ss_files_with_pending = modified,
          ss_pending_hunks = sum_list (map (\<lambda>t. length (ts_pending_hunks t)) turns),
          ss_pending_lines_added = sum_list (map ts_lines_added turns),
          ss_pending_lines_removed = sum_list (map ts_lines_removed turns),
          ss_unattributed_pending = unattributed\<rparr>)"

record file_content_entry =
  fe_path :: path
  fe_baseline :: file_content_view
  fe_current :: file_content_view
  fe_is_agent_file :: bool
  fe_staged :: bool

definition get_all_file_contents :: "tracker \<Rightarrow> file_content_entry list" where
  "get_all_file_contents s =
     map (\<lambda>(p, st). \<lparr>fe_path = p, fe_baseline = from_content_state (fs_baseline st),
                      fe_current = from_content_state (fs_current st),
                      fe_is_agent_file = fs_is_agent_file st,
                      fe_staged = rel_to_wd s p \<in> set (t_staged s)\<rparr>) (t_files s)"

definition get_staged_files :: "tracker \<Rightarrow> path list" where
  "get_staged_files s = remdups (map (path_push (t_working_dir s)) (t_staged s))"

definition is_agent_file :: "tracker \<Rightarrow> path \<Rightarrow> bool" where
  "is_agent_file s p = (case file_state s p of Some st \<Rightarrow> fs_is_agent_file st | None \<Rightarrow> False)"

subsection \<open>Snapshots\<close>

text \<open>A snapshot of a file has the fields of its state.\<close>

record file_snapshot =
  sn_baseline :: file_content_state
  sn_current_content :: file_content_state
  sn_hunks :: "hunk list"
  sn_is_agent_file :: bool
  sn_baseline_accepted :: bool

record tracker_snapshot =
  ts_file_states :: "(path \<times> file_snapshot) list"
  ts_turn_index :: "(nat \<times> hunk_id list) list"
  ts_session_stats :: session_stats

record turn_delta =
  td_prompt_index :: nat
  td_file_states :: "(path \<times> file_snapshot) list"
  td_hunk_ids :: "hunk_id list"

definition snapshot_file_state :: "file_hunk_state \<Rightarrow> file_snapshot" where
  "snapshot_file_state st =
     \<lparr>sn_baseline = fs_baseline st, sn_current_content = fs_current st, sn_hunks = fs_hunks st,
      sn_is_agent_file = fs_is_agent_file st, sn_baseline_accepted = fs_baseline_accepted st\<rparr>"

definition take_snapshot :: "tracker \<Rightarrow> tracker_snapshot" where
  "take_snapshot s =
     \<lparr>ts_file_states = map (\<lambda>(p, st). (p, snapshot_file_state st)) (t_files s),
      ts_turn_index = t_turns s, ts_session_stats = t_stats s\<rparr>"

definition take_turn_delta :: "tracker \<Rightarrow> nat \<Rightarrow> turn_delta" where
  "take_turn_delta s n =
     (let hunk_ids = turn_ids s n
      in \<lparr>td_prompt_index = n,
          td_file_states =
            map (\<lambda>(p, st). (p, snapshot_file_state st))
              (filter (\<lambda>(p, st). \<exists>h \<in> set (fs_hunks st). h_id h \<in> set hunk_ids) (t_files s)),
          td_hunk_ids = hunk_ids\<rparr>)"

definition restore_file_state :: "file_snapshot \<Rightarrow> file_hunk_state" where
  "restore_file_state sn =
     \<lparr>fs_baseline = sn_baseline sn, fs_current = sn_current_content sn, fs_hunks = sn_hunks sn,
      fs_is_agent_file = sn_is_agent_file sn, fs_baseline_accepted = sn_baseline_accepted sn\<rparr>"

text \<open>
  A uuid is never given twice: the counter that stands for it moves past the identifiers that
  come from outside.
\<close>

definition snapshot_ids :: "tracker_snapshot \<Rightarrow> hunk_id list" where
  "snapshot_ids sn =
     concat (map (\<lambda>(p, f). map h_id (sn_hunks f)) (ts_file_states sn)) @ concat (map snd (ts_turn_index sn))"

definition restore_snapshot :: "tracker_snapshot \<Rightarrow> tracker \<Rightarrow> tracker" where
  "restore_snapshot sn s =
     s\<lparr>t_files := map (\<lambda>(p, f). (p, restore_file_state f)) (ts_file_states sn),
       t_turns := ts_turn_index sn, t_stats := ts_session_stats sn,
       t_next := fold max (map Suc (snapshot_ids sn)) (t_next s)\<rparr>"

text \<open>Rewriting the paths of a snapshot, and of the tracker on a remount.\<close>

definition rewrite_single_path :: "path \<Rightarrow> path \<Rightarrow> path \<Rightarrow> path \<Rightarrow> path option" where
  "rewrite_single_path p old_cwd canonical_old new_cwd =
     map_option (path_push new_cwd)
       (case path_strip_prefix p canonical_old of
          Some rel \<Rightarrow> Some rel
        | None \<Rightarrow> path_strip_prefix p old_cwd)"

definition rewrite_paths :: "path \<Rightarrow> path \<Rightarrow> path \<Rightarrow> tracker_snapshot \<Rightarrow> tracker_snapshot" where
  "rewrite_paths old_cwd canonical_old new_cwd sn =
     sn\<lparr>ts_file_states :=
       foldl (\<lambda>m (p, f).
           let target = (case rewrite_single_path p old_cwd canonical_old new_cwd of
                           Some q \<Rightarrow> q | None \<Rightarrow> p)
           in AList.update target
                (f\<lparr>sn_hunks := map (\<lambda>h. h\<lparr>h_path := target\<rparr>) (sn_hunks f)\<rparr>) m)
         [] (ts_file_states sn)\<rparr>"

definition path_is_under :: "path \<Rightarrow> path \<Rightarrow> bool" where
  "path_is_under p base \<longleftrightarrow> path_strip_prefix p base \<noteq> None"

definition rekey_path :: "path \<Rightarrow> path \<Rightarrow> path \<Rightarrow> path" where
  "rekey_path old new_cwd p =
     (if path_is_under p new_cwd then p
      else case rewrite_single_path p old old new_cwd of Some q \<Rightarrow> q | None \<Rightarrow> p)"

definition rekey_state :: "path \<Rightarrow> file_hunk_state \<Rightarrow> file_hunk_state" where
  "rekey_state new_path st = st\<lparr>fs_hunks := map (\<lambda>h. h\<lparr>h_path := new_path\<rparr>) (fs_hunks st)\<rparr>"

definition rekey_insert ::
    "(path \<times> file_hunk_state) list \<Rightarrow> path \<Rightarrow> file_hunk_state \<Rightarrow> (path \<times> file_hunk_state) list" where
  "rekey_insert next new_path st =
     (case map_of next new_path of
        None \<Rightarrow> AList.update new_path st next
      | Some dest \<Rightarrow>
          AList.update new_path
            (dest\<lparr>fs_hunks := fs_hunks dest @ fs_hunks st,
                  fs_is_agent_file := fs_is_agent_file dest \<or> fs_is_agent_file st,
                  fs_baseline_accepted := fs_baseline_accepted dest \<or> fs_baseline_accepted st\<rparr>) next)"

definition rekey_paths_for_working_dir :: "path \<Rightarrow> tracker \<Rightarrow> tracker" where
  "rekey_paths_for_working_dir new_cwd s =
     (if new_cwd = t_working_dir s then s
      else
        let rewrite = rekey_path (t_working_dir s) new_cwd;
            already = filter (\<lambda>(p, st). path_is_under p new_cwd) (t_files s);
            rewritten = filter (\<lambda>(p, st). \<not> path_is_under p new_cwd) (t_files s);
            next1 = foldl (\<lambda>m (p, st). AList.update (rewrite p) (rekey_state (rewrite p) st) m) [] already;
            next2 = foldl (\<lambda>m (p, st). rekey_insert m (rewrite p) (rekey_state (rewrite p) st)) next1 rewritten
        in s\<lparr>t_files := next2, t_dirty := remdups (map rewrite (t_dirty s)),
             t_staged := remdups (map rewrite (t_staged s))\<rparr>)"

definition set_working_dir :: "path \<Rightarrow> tracker \<Rightarrow> tracker" where
  "set_working_dir wd s =
     (rekey_paths_for_working_dir wd s)\<lparr>t_working_dir := wd, t_repo := Unknown,
        t_sync := repo_sync_default\<rparr>"

subsection \<open>Commands\<close>

datatype hunk_command =
    RecordAgentWrite path string nat "string option"
  | HandleFileChange path
  | HandleFileDeleted path
  | RefreshGitDirtyCache
  | ResetBaseline path
  | SetMode tracking_mode
  | SetWorkingDir path
  | HunkAction hunk_id hunk_action
  | FileAction path hunk_action
  | AllAction hunk_action
  | TurnAction nat hunk_action
  | GetAllHunks
  | GetHunksForPath path
  | GetFileHunkData path
  | GetHunksBySource hunk_source_filter
  | GetHunk hunk_id
  | IsAgentFile path
  | GetAllTrackedPaths
  | GetStagedFiles
  | GetAllFileContents
  | GetSessionSummary
  | GetTurnHunks nat
  | ResetStats
  | RefreshAllBaselines
  | SnapshotState
  | SnapshotTurnDelta nat
  | RestoreState tracker_snapshot

datatype hunk_reply =
    NoReply
  | ReplyUnit
  | ReplyAction "hunk_action_error + unit"
  | ReplyIds "hunk_action_error + hunk_id list"
  | ReplyHunks "hunk list"
  | ReplyFileData file_hunk_data
  | ReplyHunk "hunk option"
  | ReplyBool bool
  | ReplyPaths "path list"
  | ReplyContents "file_content_entry list"
  | ReplySummary session_summary
  | ReplySnapshot tracker_snapshot
  | ReplyDelta turn_delta

fun handle_command :: "host \<Rightarrow> hunk_command \<Rightarrow> tracker \<Rightarrow> hunk_reply \<times> tracker" where
  "handle_command e (RecordAgentWrite p c n prev) s = (NoReply, record_agent_write e p c n prev s)"
| "handle_command e (HandleFileChange p) s = (NoReply, handle_file_change e p s)"
| "handle_command e (HandleFileDeleted p) s = (NoReply, handle_file_deleted e p s)"
| "handle_command e RefreshGitDirtyCache s = (NoReply, refresh_git_dirty_cache e None s)"
| "handle_command e (ResetBaseline p) s = (NoReply, reset_baseline p s)"
| "handle_command e (SetMode m) s = (NoReply, set_mode e m s)"
| "handle_command e (SetWorkingDir wd) s = (ReplyUnit, set_working_dir wd s)"
| "handle_command e (HunkAction i a) s = (case apply_hunk_action e i a s of (r, s1) \<Rightarrow> (ReplyAction r, s1))"
| "handle_command e (FileAction p a) s = (case apply_file_action e p a s of (r, s1) \<Rightarrow> (ReplyIds r, s1))"
| "handle_command e (AllAction a) s = (case apply_all_action e a s of (r, s1) \<Rightarrow> (ReplyIds r, s1))"
| "handle_command e (TurnAction n a) s = (case apply_turn_action e n a s of (r, s1) \<Rightarrow> (ReplyIds r, s1))"
| "handle_command e GetAllHunks s = (ReplyHunks (get_all_hunks s), s)"
| "handle_command e (GetHunksForPath p) s = (ReplyHunks (get_hunks_for_path s p), s)"
| "handle_command e (GetFileHunkData p) s = (ReplyFileData (get_file_hunk_data s p), s)"
| "handle_command e (GetHunksBySource f) s = (ReplyHunks (get_hunks_by_source s f), s)"
| "handle_command e (GetHunk i) s = (ReplyHunk (get_hunk s i), s)"
| "handle_command e (IsAgentFile p) s = (ReplyBool (is_agent_file s p), s)"
| "handle_command e GetAllTrackedPaths s = (ReplyPaths (get_all_tracked_paths s), s)"
| "handle_command e GetStagedFiles s = (ReplyPaths (get_staged_files s), s)"
| "handle_command e GetAllFileContents s = (ReplyContents (get_all_file_contents s), s)"
| "handle_command e GetSessionSummary s = (ReplySummary (compute_session_summary s), s)"
| "handle_command e (GetTurnHunks n) s = (ReplyHunks (get_hunks_for_turn s n), s)"
| "handle_command e ResetStats s = (NoReply, s\<lparr>t_stats := stats_default\<rparr>)"
| "handle_command e RefreshAllBaselines s = (NoReply, refresh_all_baselines e s)"
| "handle_command e SnapshotState s = (ReplySnapshot (take_snapshot s), s)"
| "handle_command e (SnapshotTurnDelta n) s = (ReplyDelta (take_turn_delta s n), s)"
| "handle_command e (RestoreState sn) s = (NoReply, restore_snapshot sn s)"

subsection \<open>Coalescing queued notifications\<close>

datatype coalesced_action = Changed | Deleted | DeletedThenChanged

record coalesced_batch =
  cb_file_actions :: "(path \<times> coalesced_action) list"
  cb_refresh_all :: bool
  cb_refresh_dirty :: bool
  cb_other_commands :: "hunk_command list"
  cb_command_count :: nat

definition batch_new :: coalesced_batch where
  "batch_new = \<lparr>cb_file_actions = [], cb_refresh_all = False, cb_refresh_dirty = False,
     cb_other_commands = [], cb_command_count = 0\<rparr>"

definition batch_add :: "coalesced_batch \<Rightarrow> hunk_command \<Rightarrow> coalesced_batch" where
  "batch_add b cmd =
     (let b1 = b\<lparr>cb_command_count := cb_command_count b + 1\<rparr>
      in case cmd of
           HandleFileChange p \<Rightarrow>
             b1\<lparr>cb_file_actions := AList.update p
                  (case map_of (cb_file_actions b) p of
                     None \<Rightarrow> Changed
                   | Some Deleted \<Rightarrow> DeletedThenChanged
                   | Some a \<Rightarrow> a) (cb_file_actions b)\<rparr>
         | HandleFileDeleted p \<Rightarrow>
             b1\<lparr>cb_file_actions := AList.update p Deleted (cb_file_actions b)\<rparr>
         | RefreshAllBaselines \<Rightarrow> b1\<lparr>cb_refresh_all := True\<rparr>
         | RefreshGitDirtyCache \<Rightarrow> b1\<lparr>cb_refresh_dirty := True\<rparr>
         | _ \<Rightarrow> b1\<lparr>cb_other_commands := cb_other_commands b @ [cmd]\<rparr>)"

definition drain_and_coalesce :: "hunk_command \<Rightarrow> hunk_command list \<Rightarrow> coalesced_batch" where
  "drain_and_coalesce first queued = foldl batch_add (batch_add batch_new first) queued"

fun is_coalescable :: "hunk_command \<Rightarrow> bool" where
  "is_coalescable (HandleFileChange _) = True"
| "is_coalescable (HandleFileDeleted _) = True"
| "is_coalescable RefreshAllBaselines = True"
| "is_coalescable RefreshGitDirtyCache = True"
| "is_coalescable _ = False"

text \<open>With a full refresh the pass handles only paths the refresh will not.\<close>

fun batch_with_refresh ::
    "host \<Rightarrow> (path \<times> coalesced_action) list \<Rightarrow> path list \<Rightarrow> tracker \<Rightarrow> path list \<times> tracker" where
  "batch_with_refresh e [] done s = (done, s)"
| "batch_with_refresh e ((p, Deleted) # acts) done s =
     batch_with_refresh e acts done (if file_state s p \<noteq> None then handle_file_deleted e p s else s)"
| "batch_with_refresh e ((p, _) # acts) done s =
     (if file_state s p = None
      then batch_with_refresh e acts (p # done) (handle_file_change e p s)
      else batch_with_refresh e acts done s)"

definition handle_deletions :: "host \<Rightarrow> (path \<times> coalesced_action) list \<Rightarrow> tracker \<Rightarrow> tracker" where
  "handle_deletions e acts s =
     foldl (\<lambda>s (p, a). if a = Deleted then handle_file_deleted e p s else s) s acts"

definition handle_commands :: "host \<Rightarrow> hunk_command list \<Rightarrow> tracker \<Rightarrow> tracker" where
  "handle_commands e cmds s = foldl (\<lambda>s c. snd (handle_command e c s)) s cmds"

definition handle_coalesced_batch :: "host \<Rightarrow> coalesced_batch \<Rightarrow> tracker \<Rightarrow> tracker" where
  "handle_coalesced_batch e b s =
     (let s1 = (if cb_refresh_dirty b \<and> \<not> cb_refresh_all b then refresh_git_dirty_cache e None s else s);
          s2 = (if cb_refresh_all b then
                  let (done, s3) = batch_with_refresh e (cb_file_actions b) [] s1
                  in refresh_all_baselines_except e done s3
                else
                  handle_file_changes_batch e
                    (map fst (filter (\<lambda>(p, a). a \<noteq> Deleted) (cb_file_actions b)))
                    (handle_deletions e (cb_file_actions b) s1))
      in handle_commands e (cb_other_commands b) s2)"

text \<open>One turn of the actor's loop, with the commands that are queued when the first arrives.\<close>

definition actor_turn :: "host \<Rightarrow> hunk_command \<Rightarrow> hunk_command list \<Rightarrow> tracker \<Rightarrow> tracker" where
  "actor_turn e first queued s =
     (if is_coalescable first then handle_coalesced_batch e (drain_and_coalesce first queued) s
      else snd (handle_command e first s))"

subsection \<open>What coalescing keeps\<close>

text \<open>The action left for a path by the commands about it, and those commands only.\<close>

definition about :: "path \<Rightarrow> hunk_command \<Rightarrow> bool" where
  "about p c \<longleftrightarrow> c = HandleFileChange p \<or> c = HandleFileDeleted p"

definition final_action :: "path \<Rightarrow> hunk_command list \<Rightarrow> coalesced_action option" where
  "final_action p cmds =
     (let cs = filter (about p) cmds
      in if cs = [] then None
         else if last cs = HandleFileDeleted p then Some Deleted
         else if HandleFileDeleted p \<in> set cs then Some DeletedThenChanged
         else Some Changed)"

definition coalesced :: "hunk_command list \<Rightarrow> coalesced_batch \<Rightarrow> bool" where
  "coalesced cmds b \<longleftrightarrow>
     (\<forall>p. map_of (cb_file_actions b) p = final_action p cmds) \<and>
     distinct (map fst (cb_file_actions b)) \<and>
     (cb_refresh_all b \<longleftrightarrow> RefreshAllBaselines \<in> set cmds) \<and>
     (cb_refresh_dirty b \<longleftrightarrow> RefreshGitDirtyCache \<in> set cmds) \<and>
     cb_other_commands b = filter (\<lambda>c. \<not> is_coalescable c) cmds \<and>
     cb_command_count b = length cmds"

lemma final_action_snoc:
  "final_action p (cmds @ [c]) =
     (if c = HandleFileDeleted p then Some Deleted
      else if c = HandleFileChange p then
        (case final_action p cmds of
           None \<Rightarrow> Some Changed
         | Some Changed \<Rightarrow> Some Changed
         | Some _ \<Rightarrow> Some DeletedThenChanged)
      else final_action p cmds)"
proof (cases "about p c")
  case True
  show ?thesis
  proof (cases "filter (about p) cmds = []")
    case False
    have "last (filter (about p) cmds) \<in> set (filter (about p) cmds)" using False by (rule last_in_set)
    then show ?thesis using True False by (auto simp: final_action_def Let_def about_def)
  qed (use True in \<open>auto simp: final_action_def Let_def about_def\<close>)
qed (auto simp: final_action_def Let_def about_def)

lemma coalesced_step:
  assumes "coalesced cmds b"
  shows "coalesced (cmds @ [c]) (batch_add b c)"
proof -
  have m: "map_of (cb_file_actions b) p = final_action p cmds" for p using assms by (simp add: coalesced_def)
  show ?thesis
    using assms unfolding coalesced_def
    by (cases c) (auto simp: batch_add_def Let_def final_action_snoc update_conv' distinct_update m
        split: option.splits coalesced_action.splits)
qed

text \<open>
  Draining the queue into one batch loses nothing: every path ends with the action that its
  own notifications call for, in their order; both refreshes are wanted exactly when one was
  queued; and all other commands are kept, in order.
\<close>
theorem coalescing_loses_nothing: "coalesced (first # queued) (drain_and_coalesce first queued)"
proof -
  have fold: "coalesced cmds b \<Longrightarrow> coalesced (cmds @ cs) (foldl batch_add b cs)" for cmds b cs
  proof (induction cs arbitrary: cmds b)
    case (Cons c cs)
    then show ?case using coalesced_step [OF Cons.prems, of c] Cons.IH [of "cmds @ [c]"] by simp
  qed simp
  have "coalesced [] batch_new" by (simp add: coalesced_def batch_new_def final_action_def)
  from coalesced_step [OF this, of first] have "coalesced [first] (batch_add batch_new first)" by simp
  from fold [OF this, of queued] show ?thesis by (simp add: drain_and_coalesce_def)
qed

end
