(* ===== verification/GB_HunkInvariants.thy ===== *)
theory GB_HunkInvariants
  imports GB_HunkCommands
begin

section \<open>Invariants of the hunk tracker\<close>

text \<open>
  The invariants every command of the actor keeps: the identifiers of pending hunks are unique,
  the turn index files each of them under its own prompt, and the hunks of a file describe the
  difference of its two contents. The first part is the effect of the small operations on the
  components of the state.
\<close>

named_theorems tracker_simps "effects of the tracker's small operations"

subsection \<open>Frame lemmas\<close>

lemma send_event_sel [tracker_simps]:
  "t_files (send_event ev s) = t_files s" "t_turns (send_event ev s) = t_turns s"
  "t_next (send_event ev s) = t_next s" "t_mode (send_event ev s) = t_mode s"
  "t_disk (send_event ev s) = t_disk s" "t_working_dir (send_event ev s) = t_working_dir s"
  "t_events (send_event ev s) = t_events s @ [ev]" "t_stats (send_event ev s) = t_stats s"
  by (simp_all add: send_event_def)

lemma send_events_sel [tracker_simps]:
  "t_files (send_events evs s) = t_files s" "t_turns (send_events evs s) = t_turns s"
  "t_next (send_events evs s) = t_next s" "t_mode (send_events evs s) = t_mode s"
  "t_disk (send_events evs s) = t_disk s" "t_working_dir (send_events evs s) = t_working_dir s"
  "t_events (send_events evs s) = t_events s @ evs" "t_stats (send_events evs s) = t_stats s"
  by (simp_all add: send_events_def)

lemma put_file_sel [tracker_simps]:
  "t_turns (put_file p st s) = t_turns s" "t_next (put_file p st s) = t_next s"
  "t_disk (put_file p st s) = t_disk s" "t_events (put_file p st s) = t_events s"
  "t_stats (put_file p st s) = t_stats s" "t_mode (put_file p st s) = t_mode s"
  "distinct (map fst (t_files s)) \<Longrightarrow> distinct (map fst (t_files (put_file p st s)))"
  by (simp_all add: put_file_def distinct_update)

lemma drop_file_sel [tracker_simps]:
  "t_turns (drop_file p s) = t_turns s" "t_next (drop_file p s) = t_next s"
  "distinct (map fst (t_files s)) \<Longrightarrow> distinct (map fst (t_files (drop_file p s)))"
  by (simp_all add: drop_file_def distinct_delete)

lemma file_state_frame [tracker_simps]:
  "file_state (send_event ev s) = file_state s" "file_state (send_events evs s) = file_state s"
  "file_state (put_file p st s) = (file_state s)(p \<mapsto> st)"
  "file_state (drop_file p s) = (file_state s)(p := None)"
  by (rule ext, simp add: file_state_def send_event_def send_events_def put_file_def drop_file_def
      update_conv' delete_conv')+

lemma turn_ids_frame [tracker_simps]:
  "turn_ids (send_event ev s) = turn_ids s" "turn_ids (send_events evs s) = turn_ids s"
  "turn_ids (put_file p st s) = turn_ids s" "turn_ids (drop_file p s) = turn_ids s"
  by (rule ext, simp add: turn_ids_def tracker_simps)+

lemma remove_from_turn_index_sel [tracker_simps]:
  "t_files (remove_from_turn_index i src s) = t_files s"
  "t_next (remove_from_turn_index i src s) = t_next s"
  "t_disk (remove_from_turn_index i src s) = t_disk s"
  "t_mode (remove_from_turn_index i src s) = t_mode s"
  by (simp_all add: remove_from_turn_index_def split: option.splits)

lemma add_to_turn_index_sel [tracker_simps]:
  "t_files (add_to_turn_index i src s) = t_files s"
  "t_next (add_to_turn_index i src s) = t_next s"
  "t_disk (add_to_turn_index i src s) = t_disk s"
  "t_mode (add_to_turn_index i src s) = t_mode s"
  by (simp_all add: add_to_turn_index_def split: option.splits)

lemma unindex_index_sel [tracker_simps]:
  "t_files (unindex_hunks hs s) = t_files s" "t_next (unindex_hunks hs s) = t_next s"
  "t_disk (unindex_hunks hs s) = t_disk s" "t_mode (unindex_hunks hs s) = t_mode s"
  "t_files (index_hunks hs s) = t_files s" "t_next (index_hunks hs s) = t_next s"
  "t_disk (index_hunks hs s) = t_disk s" "t_mode (index_hunks hs s) = t_mode s"
  unfolding unindex_hunks_def index_hunks_def
  by (induction hs arbitrary: s) (simp_all add: tracker_simps)

lemma file_state_index [tracker_simps]:
  "file_state (remove_from_turn_index i src s) = file_state s"
  "file_state (unindex_hunks hs s) = file_state s" "file_state (index_hunks hs s) = file_state s"
  by (rule ext, simp add: file_state_def tracker_simps)+

lemma turn_ids_remove:
  "turn_ids (remove_from_turn_index i src s) n =
     (if source_prompt_index src = Some n then removeAll i (turn_ids s n) else turn_ids s n)"
  by (simp add: turn_ids_def remove_from_turn_index_def update_conv' split: option.split)

lemma turn_ids_add:
  "turn_ids (add_to_turn_index i src s) n =
     (if source_prompt_index src = Some n then List.insert i (turn_ids s n) else turn_ids s n)"
  by (simp add: turn_ids_def add_to_turn_index_def update_conv' split: option.split)

definition ids_of_turn :: "nat \<Rightarrow> hunk list \<Rightarrow> hunk_id set" where
  "ids_of_turn n hs = h_id ` {h \<in> set hs. source_prompt_index (h_source h) = Some n}"

lemma turn_ids_unindex:
  "set (turn_ids (unindex_hunks hs s) n) = set (turn_ids s n) - ids_of_turn n hs"
  "distinct (turn_ids s n) \<Longrightarrow> distinct (turn_ids (unindex_hunks hs s) n)"
  unfolding unindex_hunks_def
  by (induction hs arbitrary: s) (auto simp: turn_ids_remove ids_of_turn_def distinct_removeAll)

lemma turn_ids_index:
  "set (turn_ids (index_hunks hs s) n) = set (turn_ids s n) \<union> ids_of_turn n hs"
  "distinct (turn_ids s n) \<Longrightarrow> distinct (turn_ids (index_hunks hs s) n)"
  unfolding index_hunks_def
  by (induction hs arbitrary: s) (auto simp: turn_ids_add ids_of_turn_def)

subsection \<open>The turn index\<close>

text \<open>
  \<open>X\<close> excuses identifiers that are no longer indexed: none between commands whose writes
  succeed, those in hand during an action.
\<close>

definition hunks_at :: "tracker \<Rightarrow> path \<Rightarrow> hunk list" where
  "hunks_at s p = (case file_state s p of Some st \<Rightarrow> fs_hunks st | None \<Rightarrow> [])"

definition index_inv :: "hunk_id set \<Rightarrow> tracker \<Rightarrow> bool" where
  "index_inv X s \<longleftrightarrow>
     distinct (map fst (t_files s)) \<and>
     (\<forall>p. distinct (map h_id (hunks_at s p))) \<and>
     (\<forall>p q. \<forall>h \<in> set (hunks_at s p). \<forall>g \<in> set (hunks_at s q). h_id h = h_id g \<longrightarrow> p = q) \<and>
     (\<forall>p. \<forall>h \<in> set (hunks_at s p). h_id h < t_next s) \<and>
     (\<forall>n. distinct (turn_ids s n) \<and> (\<forall>i \<in> set (turn_ids s n). i < t_next s)) \<and>
     (\<forall>p n. \<forall>h \<in> set (hunks_at s p). h_id h \<in> set (turn_ids s n)
        \<longrightarrow> source_prompt_index (h_source h) = Some n) \<and>
     (\<forall>p n. \<forall>h \<in> set (hunks_at s p). h_id h \<notin> X \<longrightarrow> source_prompt_index (h_source h) = Some n
        \<longrightarrow> h_id h \<in> set (turn_ids s n))"

lemma index_invD:
  assumes "index_inv X s"
  shows "distinct (map fst (t_files s))"
    and "distinct (map h_id (hunks_at s p))"
    and "h \<in> set (hunks_at s p) \<Longrightarrow> g \<in> set (hunks_at s q) \<Longrightarrow> h_id h = h_id g \<Longrightarrow> p = q"
    and "h \<in> set (hunks_at s p) \<Longrightarrow> h_id h < t_next s"
    and "distinct (turn_ids s n)"
    and "i \<in> set (turn_ids s n) \<Longrightarrow> i < t_next s"
    and "h \<in> set (hunks_at s p) \<Longrightarrow> h_id h \<in> set (turn_ids s n)
        \<Longrightarrow> source_prompt_index (h_source h) = Some n"
    and "h \<in> set (hunks_at s p) \<Longrightarrow> h_id h \<notin> X
        \<Longrightarrow> source_prompt_index (h_source h) = Some n \<Longrightarrow> h_id h \<in> set (turn_ids s n)"
  using assms unfolding index_inv_def by blast+

text \<open>
  The hunks of one file are replaced: by hunks with some of the same identifiers or new ones,
  and the index follows.
\<close>

lemma index_inv_replace:
  assumes inv: "index_inv X s"
    and keys: "distinct (map fst (t_files s'))"
    and other: "\<And>q. q \<noteq> p \<Longrightarrow> hunks_at s' q = hunks_at s q"
    and dist: "distinct (map h_id (hunks_at s' p))"
    and ids: "\<And>h. h \<in> set (hunks_at s' p) \<Longrightarrow>
        (h_id h \<in> h_id ` set (hunks_at s p) \<or> t_next s \<le> h_id h) \<and> h_id h < t_next s'"
    and nx: "t_next s \<le> t_next s'"
    and turns: "\<And>n. set (turn_ids s' n) =
        set (turn_ids s n) - ids_of_turn n (hunks_at s p) \<union> ids_of_turn n (hunks_at s' p)"
    and dturns: "\<And>n. distinct (turn_ids s' n)"
  shows "index_inv X s'"
proof -
  note uniq = index_invD(3) [OF inv] and bound = index_invD(4) [OF inv]
    and tbound = index_invD(6) [OF inv] and sound = index_invD(7) [OF inv]
    and compl = index_invD(8) [OF inv] and dist0 = index_invD(2) [OF inv]
  have loc: "hunks_at s' q = (if q = p then hunks_at s' p else hunks_at s q)" for q
    using other by simp
  have fresh: "h_id h \<noteq> h_id g" if "h \<in> set (hunks_at s' p)" "g \<in> set (hunks_at s q)" "q \<noteq> p" for h g q
    using ids [OF that(1)] bound [OF that(2)] uniq [OF that(2)] that(3) by fastforce
  have dist': "distinct (map h_id (hunks_at s' q))" for q
    using dist other [of q] dist0 [of q] by (cases "q = p") auto
  have not_old: "i \<notin> ids_of_turn n (hunks_at s p)"
    if "h \<in> set (hunks_at s q)" "q \<noteq> p" "i = h_id h" for h q i n
    using uniq [OF that(1)] that(2,3) by (auto simp: ids_of_turn_def)
  have old_src: "h_id h \<in> ids_of_turn n (hunks_at s p)"
    if a: "h_id h \<in> set (turn_ids s n)" "h_id h \<in> h_id ` set (hunks_at s p)" for h n
  proof -
    obtain g where "g \<in> set (hunks_at s p)" "h_id g = h_id h" using a(2) by auto
    then show ?thesis using sound [of g p n] a(1) by (force simp: ids_of_turn_def)
  qed
  show ?thesis
    unfolding index_inv_def
  proof (intro conjI allI impI ballI)
    show "distinct (map fst (t_files s'))" by (rule keys)
  next
    fix q show "distinct (map h_id (hunks_at s' q))" by (rule dist')
  next
    fix q r h g assume a: "h \<in> set (hunks_at s' q)" "g \<in> set (hunks_at s' r)" "h_id h = h_id g"
    show "q = r"
      using a fresh uniq loc [of q] loc [of r] by (metis (no_types, lifting))
  next
    fix q h assume "h \<in> set (hunks_at s' q)"
    then show "h_id h < t_next s'"
      using ids [of h] bound [of h q] nx loc [of q] by (cases "q = p") fastforce+
  next
    fix n show "distinct (turn_ids s' n)" by (rule dturns)
  next
    fix n i assume "i \<in> set (turn_ids s' n)"
    then show "i < t_next s'"
      using turns [of n] tbound [of i n] ids nx by (fastforce simp: ids_of_turn_def)
  next
    fix q h n assume a: "h \<in> set (hunks_at s' q)" "h_id h \<in> set (turn_ids s' n)"
    show "source_prompt_index (h_source h) = Some n"
    proof (cases "q = p")
      case True
      have "h_id h \<notin> set (turn_ids s n) - ids_of_turn n (hunks_at s p)"
        using ids [of h] a(1) True old_src [of h n] tbound [of "h_id h" n] by fastforce
      then have "h_id h \<in> ids_of_turn n (hunks_at s' p)" using a(2) turns by blast
      then obtain g where g: "g \<in> set (hunks_at s' p)" "h_id g = h_id h"
        "source_prompt_index (h_source g) = Some n"
        by (auto simp: ids_of_turn_def)
      then have "g = h" using dist a(1) True by (metis distinct_map inj_on_eq_iff)
      then show ?thesis using g by simp
    next
      case False
      have "h_id h \<notin> ids_of_turn n (hunks_at s' p)"
        using fresh [of _ h q] a(1) loc [of q] False by (force simp: ids_of_turn_def)
      then show ?thesis using a loc [of q] False turns sound by auto
    qed
  next
    fix q h n assume a: "h \<in> set (hunks_at s' q)" "h_id h \<notin> X" "source_prompt_index (h_source h) = Some n"
    show "h_id h \<in> set (turn_ids s' n)"
    proof (cases "q = p")
      case True
      then show ?thesis using a turns by (auto simp: ids_of_turn_def)
    next
      case False
      then show ?thesis using a loc [of q] compl [of h q n] not_old [of h q "h_id h" n] turns by auto
    qed
  qed
qed

text \<open>Hunks or index entries are taken away.\<close>

lemma index_inv_fewer:
  assumes inv: "index_inv X s"
    and keys: "distinct (map fst (t_files s'))"
    and fewer: "\<And>q. \<exists>P. hunks_at s' q = filter P (hunks_at s q)"
    and nx: "t_next s' = t_next s"
    and turns: "\<And>n. set (turn_ids s' n) = set (turn_ids s n) - D n"
    and dturns: "\<And>n. distinct (turn_ids s' n)"
    and kept: "\<And>q h n. h \<in> set (hunks_at s' q) \<Longrightarrow> h_id h \<notin> X' \<Longrightarrow> h_id h \<notin> D n \<and> h_id h \<notin> X"
  shows "index_inv X' s'"
proof -
  have sub: "set (hunks_at s' q) \<subseteq> set (hunks_at s q)" for q
    using fewer [of q] by auto
  note uniq = index_invD(3) [OF inv] and bound = index_invD(4) [OF inv]
    and tbound = index_invD(6) [OF inv] and sound = index_invD(7) [OF inv]
    and compl = index_invD(8) [OF inv] and dist0 = index_invD(2) [OF inv]
  have dist': "distinct (map h_id (hunks_at s' q))" for q
    using fewer [of q] dist0 [of q] distinct_map_filter by metis
  show ?thesis
    unfolding index_inv_def
  proof (intro conjI allI ballI impI)
    show "\<And>q r h g. h \<in> set (hunks_at s' q) \<Longrightarrow> g \<in> set (hunks_at s' r) \<Longrightarrow> h_id h = h_id g \<Longrightarrow> q = r"
      using sub uniq by blast
    show "\<And>q h. h \<in> set (hunks_at s' q) \<Longrightarrow> h_id h < t_next s'"
      using sub bound nx by (metis subsetD)
    show "\<And>q h n. h \<in> set (hunks_at s' q) \<Longrightarrow> h_id h \<in> set (turn_ids s' n)
        \<Longrightarrow> source_prompt_index (h_source h) = Some n"
      using sub sound turns by blast
    show "\<And>q n h. h \<in> set (hunks_at s' q) \<Longrightarrow> h_id h \<notin> X'
        \<Longrightarrow> source_prompt_index (h_source h) = Some n \<Longrightarrow> h_id h \<in> set (turn_ids s' n)"
      using sub compl turns kept by blast
  qed (use keys dist' nx turns tbound dturns in auto)
qed

text \<open>Nothing the invariant reads changes.\<close>

lemma index_inv_same:
  assumes "index_inv X s" "distinct (map fst (t_files s'))" "\<And>q. hunks_at s' q = hunks_at s q"
    "t_next s' = t_next s" "\<And>n. turn_ids s' n = turn_ids s n" "X \<subseteq> X'"
  shows "index_inv X' s'"
  by (rule index_inv_fewer [OF assms(1,2), where D = "\<lambda>_. {}"])
    (use assms in \<open>auto simp: index_inv_def intro: exI [of _ "\<lambda>_. True"]\<close>)

subsection \<open>Identifiers across a recomputation\<close>

lemma min_by_key_in: "min_by_key k xs = Some x \<Longrightarrow> x \<in> set xs"
  by (induction xs arbitrary: x) (auto split: option.splits if_splits)

lemma max_by_key_in: "max_by_key k xs = Some x \<Longrightarrow> x \<in> set xs"
  by (induction xs arbitrary: x) (auto split: option.splits if_splits)

lemma find_matching_in: "find_matching_old_hunk n old = Some o1 \<Longrightarrow> o1 \<in> set old"
  by (auto simp: find_matching_old_hunk_def Let_def split: if_splits
      dest!: min_by_key_in max_by_key_in)

lemma upt_step: "i # [Suc i..<Suc i + k] = [i..<i + Suc k]"
  by (simp add: upt_conv_Cons)

lemma hunk_loop_ids: "\<exists>k. map h_id (hunk_loop p src i a b cur cs) = [i..<i + k]"
proof (induction p src i a b cur cs rule: hunk_loop.induct)
  case (1 p src i a b cur)
  then show ?case
    by (cases cur) (auto simp: builder_build_def intro: exI [of _ 0] exI [of _ 1])
next
  case (2 p src i a b cur l cs)
  show ?case
  proof (cases cur)
    case None
    then show ?thesis using 2(1) by simp
  next
    case (Some c)
    obtain k where "map h_id (hunk_loop p src (i + 1) (a + 1) (b + 1) None cs) = [i + 1..<i + 1 + k]"
      using 2(2) [OF Some] by blast
    then have "map h_id (hunk_loop p src i a b cur ((Equal, l) # cs)) = [i..<i + Suc k]"
      using Some upt_step [of i k] by (simp add: builder_build_def del: upt_Suc)
    then show ?thesis by blast
  qed
qed (simp_all add: Let_def)

lemma content_hunks_ids:
  "map h_id (content_hunks diff i p src b c) = [i..<i + length (content_hunks diff i p src b c)]"
proof -
  have nil: "\<exists>k. map h_id [] = [i..<i + k]" by (intro exI [of _ 0]) simp
  have one: "\<exists>k. map h_id (compute_hunks diff i p x y src) = [i..<i + k]" for x y
    unfolding compute_hunks_def using hunk_loop_ids nil by (simp split: option.split)
  have "\<exists>k. map h_id (content_hunks diff i p src b c) = [i..<i + k]"
  proof -
    have single: "\<exists>k. [i] = [i..<i + k]" by (intro exI [of _ 1]) simp
    show ?thesis
      using one nil single by (cases b; cases c) (simp_all add: file_created_def file_deleted_def Let_def)
  qed
  then obtain k where k: "map h_id (content_hunks diff i p src b c) = [i..<i + k]" by blast
  then have "length (content_hunks diff i p src b c) = k" by (metis length_map length_upt diff_add_inverse)
  then show ?thesis using k by simp
qed

lemma preserve_ids_ids:
  assumes "distinct (map h_id ns)" "h_id ` set ns \<inter> h_id ` set old = {}"
  shows "distinct (map h_id (preserve_ids old claimed ns))
    \<and> h_id ` set (preserve_ids old claimed ns) \<subseteq> (h_id ` set old - set claimed) \<union> h_id ` set ns"
  using assms
proof (induction ns arbitrary: claimed)
  case (Cons n ns)
  define O1 where "O1 = h_id ` set old"
  define N1 where "N1 = h_id ` set ns"
  have n: "h_id n \<notin> N1" "h_id n \<notin> O1" "N1 \<inter> O1 = {}" "distinct (map h_id ns)"
    using Cons.prems by (auto simp: O1_def N1_def)
  have IH: "distinct (map h_id (preserve_ids old c ns))"
    "h_id ` set (preserve_ids old c ns) \<subseteq> (O1 - set c) \<union> N1" for c
    using Cons.IH [of c] n by (simp_all add: O1_def N1_def)
  have keep: "distinct (h_id n # map h_id (preserve_ids old claimed ns))
      \<and> insert (h_id n) (h_id ` set (preserve_ids old claimed ns)) \<subseteq> (O1 - set claimed) \<union> insert (h_id n) N1"
    using IH [of claimed] n by (simp, blast)
  show ?case
  proof (cases "find_matching_old_hunk n old")
    case None
    then show ?thesis using keep by (simp add: O1_def N1_def)
  next
    case (Some best)
    have b: "h_id best \<in> O1" using find_matching_in [OF Some] by (simp add: O1_def)
    show ?thesis
    proof (cases "h_id best \<in> set claimed")
      case True
      then show ?thesis using keep Some by (simp add: O1_def N1_def)
    next
      case False
      have "h_id best \<notin> h_id ` set (preserve_ids old (h_id best # claimed) ns)"
        using IH(2) [of "h_id best # claimed"] b n(3) by (simp, blast)
      moreover have "insert (h_id best) (h_id ` set (preserve_ids old (h_id best # claimed) ns))
          \<subseteq> (O1 - set claimed) \<union> insert (h_id n) N1"
        using IH(2) [of "h_id best # claimed"] b False by (simp, blast)
      ultimately show ?thesis
        using IH(1) [of "h_id best # claimed"] Some False by (simp add: O1_def N1_def)
    qed
  qed
qed simp

lemma hunks_at_frame [tracker_simps]:
  "hunks_at (send_event ev s) q = hunks_at s q" "hunks_at (send_events evs s) q = hunks_at s q"
  "hunks_at (put_file p st s) q = (if q = p then fs_hunks st else hunks_at s q)"
  "hunks_at (drop_file p s) q = (if q = p then [] else hunks_at s q)"
  "hunks_at (unindex_hunks hs s) q = hunks_at s q" "hunks_at (index_hunks hs s) q = hunks_at s q"
  "hunks_at (remove_from_turn_index i src s) q = hunks_at s q"
  "hunks_at (s\<lparr>t_next := k\<rparr>) q = hunks_at s q"
  by (simp_all add: hunks_at_def tracker_simps) (simp add: file_state_def)

lemma index_inv_recompute:
  assumes inv: "index_inv X s"
  shows "index_inv X (recompute_hunks e p new_current src s)"
proof (cases "file_state s p")
  case None
  then show ?thesis using inv by (simp add: recompute_hunks_def)
next
  case (Some st)
  define current where "current = (case new_current of Some c \<Rightarrow> c | None \<Rightarrow> missing_content)"
  define computed where "computed = content_hunks (hs_diff e) (t_next s) p src (fs_baseline st) current"
  define new where "new = preserve_ids (fs_hunks st) [] computed"
  define s2 where "s2 = (put_file p (st\<lparr>fs_current := current, fs_hunks := new\<rparr>) s)
      \<lparr>t_next := t_next s + length computed\<rparr>"
  define s' where "s' = recompute_hunks e p new_current src s"
  have s': "s' = send_events (hunk_diff_events p (fs_hunks st) new src)
      (index_hunks new (unindex_hunks (fs_hunks st) s2))"
    using Some by (simp add: s'_def recompute_hunks_def Let_def current_def computed_def new_def s2_def)
  have hp: "hunks_at s p = fs_hunks st" using Some by (simp add: hunks_at_def)
  have old: "h_id ` set (fs_hunks st) \<subseteq> {..<t_next s}" "distinct (map fst (t_files s))"
    "\<And>n. distinct (turn_ids s n)"
    using index_invD(4) [OF inv, where p = p] index_invD(1,5) [OF inv] hp by auto
  have cids: "h_id ` set computed = {t_next s..<t_next s + length computed}"
    "distinct (map h_id computed)"
    using content_hunks_ids [of "hs_diff e" "t_next s" p src "fs_baseline st" current]
    by (metis computed_def atLeastLessThan_upt set_map, metis computed_def distinct_upt)
  have new: "distinct (map h_id new)" "h_id ` set new \<subseteq> h_id ` set (fs_hunks st) \<union> h_id ` set computed"
  proof -
    have "h_id ` set computed \<inter> h_id ` set (fs_hunks st) = {}" using old(1) cids(1) by auto
    then show "distinct (map h_id new)" "h_id ` set new \<subseteq> h_id ` set (fs_hunks st) \<union> h_id ` set computed"
      using preserve_ids_ids [OF cids(2), of "fs_hunks st" "[]"] by (simp_all add: new_def)
  qed
  have "index_inv X s'"
  proof (rule index_inv_replace [OF inv, where p = p])
    show "distinct (map fst (t_files s'))"
      using old(2) by (simp add: s' s2_def tracker_simps)
    show "\<And>q. q \<noteq> p \<Longrightarrow> hunks_at s' q = hunks_at s q" by (simp add: s' s2_def tracker_simps)
    have at_p: "hunks_at s' p = new" by (simp add: s' s2_def tracker_simps)
    show "distinct (map h_id (hunks_at s' p))" using new(1) at_p by simp
    have nx: "t_next s' = t_next s + length computed" by (simp add: s' s2_def tracker_simps)
    show "t_next s \<le> t_next s'" using nx by simp
    show "(h_id h \<in> h_id ` set (hunks_at s p) \<or> t_next s \<le> h_id h) \<and> h_id h < t_next s'"
      if "h \<in> set (hunks_at s' p)" for h
    proof -
      have "h_id h \<in> h_id ` set (fs_hunks st) \<union> {t_next s..<t_next s + length computed}"
        using that new(2) cids(1) at_p by blast
      then show ?thesis using old(1) nx hp by auto
    qed
    have t2: "turn_ids s2 n = turn_ids s n" for n by (simp add: s2_def turn_ids_def tracker_simps)
    show "set (turn_ids s' n) = set (turn_ids s n) - ids_of_turn n (hunks_at s p)
        \<union> ids_of_turn n (hunks_at s' p)" for n
      unfolding at_p hp by (simp add: s' tracker_simps turn_ids_index turn_ids_unindex t2)
    show "distinct (turn_ids s' n)" for n
      using old(3) by (simp add: s' tracker_simps turn_ids_index turn_ids_unindex t2)
  qed
  then show ?thesis by (simp add: s'_def)
qed

subsection \<open>Every command keeps the index\<close>

named_theorems index_intros "operations that keep the index invariant"

lemma index_inv_core:
  "t_files s' = t_files s \<Longrightarrow> t_turns s' = t_turns s \<Longrightarrow> t_next s' = t_next s \<Longrightarrow> index_inv X s' = index_inv X s"
  by (simp add: index_inv_def hunks_at_def file_state_def turn_ids_def)

lemma note_discovery_sel [tracker_simps]:
  "t_files (note_discovery d s) = t_files s" "t_turns (note_discovery d s) = t_turns s"
  "t_next (note_discovery d s) = t_next s" "t_mode (note_discovery d s) = t_mode s"
  "t_disk (note_discovery d s) = t_disk s" "t_working_dir (note_discovery d s) = t_working_dir s"
  by (auto simp: note_discovery_def split: option.splits prod.splits)

lemma read_sel [tracker_simps]:
  "t_files (snd (read_baseline e p s)) = t_files s" "t_turns (snd (read_baseline e p s)) = t_turns s"
  "t_next (snd (read_baseline e p s)) = t_next s" "t_mode (snd (read_baseline e p s)) = t_mode s"
  "t_files (snd (read_baselines_batch e ps s)) = t_files s"
  "t_turns (snd (read_baselines_batch e ps s)) = t_turns s"
  "t_next (snd (read_baselines_batch e ps s)) = t_next s"
  "t_files (snd (read_repo_sync_state e s)) = t_files s"
  "t_turns (snd (read_repo_sync_state e s)) = t_turns s"
  "t_next (snd (read_repo_sync_state e s)) = t_next s"
  by (simp_all add: read_baseline_def read_baselines_batch_def read_repo_sync_state_def Let_def
      tracker_simps)

lemma file_state_read [tracker_simps]:
  "file_state (snd (read_baseline e p s)) = file_state s"
  by (rule ext) (simp add: file_state_def tracker_simps)

lemma index_inv_frame [index_intros]:
  "index_inv X s \<Longrightarrow> index_inv X (send_event ev s)"
  "index_inv X s \<Longrightarrow> index_inv X (send_events evs s)"
  "index_inv X s \<Longrightarrow> index_inv X (snd (read_baseline e p s))"
  "index_inv X s \<Longrightarrow> index_inv X (snd (read_baselines_batch e ps s))"
  "index_inv X s \<Longrightarrow> index_inv X (snd (read_repo_sync_state e s))"
  "index_inv X s \<Longrightarrow> index_inv X (note_discovery d s)"
  "index_inv X s \<Longrightarrow> index_inv X (s\<lparr>t_dirty := ds, t_staged := ss\<rparr>)"
  "index_inv X s \<Longrightarrow> index_inv X (s\<lparr>t_sync := sy\<rparr>)"
  "index_inv X s \<Longrightarrow> index_inv X (s\<lparr>t_mode := m\<rparr>)"
  "index_inv X s \<Longrightarrow> index_inv X (s\<lparr>t_stats := st\<rparr>)"
  "index_inv X s \<Longrightarrow> index_inv X (s\<lparr>t_disk := dk\<rparr>)"
  by (erule index_inv_core [THEN iffD2, rotated 3]; simp add: tracker_simps)+

lemma index_inv_put:
  assumes "index_inv X s" "fs_hunks st = hunks_at s p \<or> fs_hunks st = []"
  shows "index_inv X (put_file p st s)"
proof (rule index_inv_fewer [OF assms(1), where D = "\<lambda>_. {}"])
  show "\<exists>P. hunks_at (put_file p st s) q = filter P (hunks_at s q)" for q
  proof (cases "q = p \<and> fs_hunks st = []")
    case True
    then show ?thesis by (intro exI [of _ "\<lambda>_. False"]) (simp add: tracker_simps)
  next
    case False
    then show ?thesis using assms(2) by (intro exI [of _ "\<lambda>_. True"]) (auto simp: tracker_simps)
  qed
qed (use index_invD(1,5) [OF assms(1)] in \<open>simp_all add: tracker_simps\<close>)

lemma index_inv_put_new [index_intros]:
  "index_inv X s \<Longrightarrow> index_inv X (put_file p (new_file_state b c a) s)"
  by (rule index_inv_put) (simp_all add: new_file_state_def)

lemma index_inv_put_clear [index_intros]:
  "index_inv X s \<Longrightarrow> fs_hunks st = [] \<Longrightarrow> index_inv X (put_file p st s)"
  by (rule index_inv_put) simp_all

lemma index_inv_put_keep [index_intros]:
  "index_inv X s \<Longrightarrow> file_state s p = Some st0 \<Longrightarrow> fs_hunks st = fs_hunks st0 \<Longrightarrow> index_inv X (put_file p st s)"
  by (rule index_inv_put) (simp_all add: hunks_at_def)

declare index_inv_recompute [index_intros]

text \<open>A file's hunks leave the tracker and the index together.\<close>

lemma index_inv_drop:
  assumes inv: "index_inv X s" and h: "hunks_at s p = hs"
    and at_p: "hunks_at s' p = []" and other: "\<And>q. q \<noteq> p \<Longrightarrow> hunks_at s' q = hunks_at s q"
    and keys: "distinct (map fst (t_files s'))" and nx: "t_next s' = t_next s"
    and turns: "\<And>n. turn_ids s' n = turn_ids s n"
  shows "index_inv X (unindex_hunks hs s')"
proof (rule index_inv_fewer [OF inv, where D = "\<lambda>n. ids_of_turn n hs"])
  show "\<exists>P. hunks_at (unindex_hunks hs s') q = filter P (hunks_at s q)" for q
  proof (cases "q = p")
    case True
    then show ?thesis using at_p by (intro exI [of _ "\<lambda>_. False"]) (simp add: tracker_simps)
  next
    case False
    then show ?thesis using other by (intro exI [of _ "\<lambda>_. True"]) (simp add: tracker_simps)
  qed
  show "h_id h \<notin> ids_of_turn n hs \<and> h_id h \<notin> X"
    if a: "h \<in> set (hunks_at (unindex_hunks hs s') q)" "h_id h \<notin> X" for q h n
  proof -
    have q: "h \<in> set (hunks_at s q)" "q \<noteq> p"
      using a(1) at_p other by (auto simp: tracker_simps, metis empty_iff list.set(1))
    then have "h_id h \<noteq> h_id g" if "g \<in> set hs" for g
      using index_invD(3) [OF inv, of h q g p] h that by blast
    then show ?thesis using a(2) by (auto simp: ids_of_turn_def)
  qed
qed (use index_invD(1,5) [OF inv] keys nx turns in \<open>simp_all add: tracker_simps turn_ids_unindex\<close>)

lemma hunks_at_Some: "file_state s p = Some st \<Longrightarrow> hunks_at s p = fs_hunks st"
  by (simp add: hunks_at_def)

lemma index_inv_write [index_intros]:
  assumes "index_inv X s"
  shows "index_inv X (record_agent_write e p c n prev s)"
proof -
  note rb = index_inv_frame(3) [OF assms, of e p]
  show ?thesis
    using assms rb
    by (auto simp: record_agent_write_def Let_def split: option.split prod.splits
        intro!: index_inv_recompute index_inv_frame(1) index_inv_put_new intro: index_inv_put_clear index_inv_put_keep)
qed

lemma index_inv_change [index_intros]:
  assumes "index_inv X s"
  shows "index_inv X (process_file_change e p preloaded s)"
proof -
  have gb: "index_inv X (snd (case preloaded of Some b \<Rightarrow> (b, s) | None \<Rightarrow> read_baseline e p s))"
    using assms index_inv_frame(3) by (cases preloaded) auto
  show ?thesis
    using assms gb
    by (auto simp: process_file_change_def Let_def split: option.splits prod.splits
        intro!: index_inv_recompute index_inv_frame(1) index_inv_put_new intro: index_inv_put_clear)
qed

lemma index_inv_handle_change [index_intros]:
  "index_inv X s \<Longrightarrow> index_inv X (handle_file_change e p s)"
  unfolding handle_file_change_def by (rule index_inv_change)

lemma index_inv_changes: "index_inv X s \<Longrightarrow> index_inv X (process_changes e bs ps s)"
  by (induction e bs ps s rule: process_changes.induct) (simp_all add: index_inv_change)

lemma index_inv_changes_batch [index_intros]:
  "index_inv X s \<Longrightarrow> index_inv X (handle_file_changes_batch e ps s)"
  using index_inv_frame(4) [of X s e]
  by (auto simp: handle_file_changes_batch_def Let_def split: prod.split intro!: index_inv_changes)
    (metis snd_conv)

lemma index_inv_deleted [index_intros]:
  assumes "index_inv X s"
  shows "index_inv X (handle_file_deleted e p s)"
  using assms index_inv_frame(3) [OF assms, of e p]
  by (auto simp: handle_file_deleted_def Let_def split: option.split prod.split
      intro!: index_inv_recompute index_inv_frame(1) index_inv_put_new index_inv_handle_change)

lemma keys_put: "index_inv X s \<Longrightarrow> distinct (map fst (t_files (put_file p st s)))"
  by (simp add: tracker_simps index_invD(1))

lemma index_inv_reset [index_intros]:
  assumes "index_inv X s"
  shows "index_inv X (reset_baseline p s)"
proof (cases "file_state s p")
  case None
  then show ?thesis using assms by (simp add: reset_baseline_def)
next
  case (Some st)
  have "index_inv X (unindex_hunks (fs_hunks st) (put_file p st' s))" if "fs_hunks st' = []" for st'
    by (rule index_inv_drop [OF assms hunks_at_Some [OF Some]])
      (use that keys_put [OF assms] in \<open>simp_all add: tracker_simps\<close>)
  then show ?thesis using Some by (auto simp: reset_baseline_def Let_def intro!: index_inv_frame(1,2))
qed

lemma index_inv_untrack [index_intros]:
  assumes "index_inv X s" "file_state s p = Some st"
  shows "index_inv X (unindex_hunks (fs_hunks st) (drop_file p s))"
  by (rule index_inv_drop [OF assms(1) hunks_at_Some [OF assms(2)]])
    (use index_invD(1) [OF assms(1)] in \<open>simp_all add: tracker_simps\<close>)

lemma drop_put_file: "drop_file p (put_file p st s) = drop_file p s"
  by (simp add: drop_file_def put_file_def delete_update_same)

lemma index_inv_refresh_file [index_intros]:
  assumes "index_inv X s"
  shows "index_inv X (refresh_file e b c p s)"
proof (cases "file_state s p")
  case None
  then show ?thesis using assms by (simp add: refresh_file_def)
next
  case (Some st)
  have clear: "index_inv X (unindex_hunks (fs_hunks st) (put_file p st' s))" if "fs_hunks st' = []" for st'
    by (rule index_inv_drop [OF assms hunks_at_Some [OF Some]])
      (use that keys_put [OF assms] in \<open>simp_all add: tracker_simps\<close>)
  have keep: "index_inv X (put_file p st' s)" if "fs_hunks st' = fs_hunks st" for st'
    by (rule index_inv_put_keep [OF assms Some that])
  show ?thesis
    using Some clear keep index_inv_untrack [OF assms Some]
    by (auto simp: refresh_file_def Let_def drop_put_file
        intro!: index_inv_frame(1,2) index_inv_recompute)
qed

lemma index_inv_foldl:
  "index_inv X s \<Longrightarrow> (\<And>s a. index_inv X s \<Longrightarrow> index_inv X (f s a)) \<Longrightarrow> index_inv X (foldl f s as)"
  by (induction as arbitrary: s) simp_all

lemma index_inv_dirty_cache [index_intros]:
  assumes "index_inv X s"
  shows "index_inv X (refresh_git_dirty_cache e scope s)"
  unfolding refresh_git_dirty_cache_def Let_def
  by (auto split: prod.split intro!: index_inv_foldl index_inv_handle_change index_inv_frame assms)

lemma index_inv_refresh_all [index_intros]:
  assumes "index_inv X s"
  shows "index_inv X (refresh_all_baselines_except e skip s)"
proof -
  obtain sy s1 where s1: "read_repo_sync_state e s = (sy, s1)" by (cases "read_repo_sync_state e s")
  have i1: "index_inv X s1" using index_inv_frame(5) [OF assms, of e] s1 by simp
  define s2 where "s2 = (case sy of Some st \<Rightarrow> s1\<lparr>t_sync := st\<rparr> | None \<Rightarrow> s1)"
  have i2: "index_inv X s2" using i1 by (auto simp: s2_def split: option.split intro: index_inv_frame)
  define s3 where "s3 = (if refresh_scope s2 = Some [] then s2\<lparr>t_dirty := [], t_staged := []\<rparr>
      else refresh_git_dirty_cache e (refresh_scope s2) s2)"
  have i3: "index_inv X s3"
    using i2 by (auto simp: s3_def intro: index_inv_frame index_inv_dirty_cache)
  define paths where "paths = filter (\<lambda>p. p \<notin> set skip) (map fst (t_files s3))"
  have i4: "index_inv X (snd (read_baselines_batch e paths s3))"
    by (rule index_inv_frame(4) [OF i3])
  have "refresh_all_baselines_except e skip s =
      (if t_mode s = AgentOnly \<and> t_files s = [] then s
       else if sy = Some (t_sync s1) then s1
       else foldl (\<lambda>s p. refresh_file e (or_missing (map_of (fst (read_baselines_batch e paths s3)) p))
              (read_file_bounded e p) p s) (snd (read_baselines_batch e paths s3)) paths)"
    unfolding refresh_all_baselines_except_def Let_def s1 prod.case s2_def [symmetric]
      s3_def [symmetric] paths_def [symmetric]
    by (simp add: case_prod_beta)
  then show ?thesis
    using assms i1 i4 by (auto intro!: index_inv_foldl index_inv_refresh_file)
qed

lemma index_inv_set_mode [index_intros]:
  assumes "index_inv X s"
  shows "index_inv X (set_mode e m s)"
proof -
  have "index_inv X (untrack_file p s)" if "index_inv X s" for p s
    using that
    by (auto simp: untrack_file_def split: option.split intro!: index_inv_frame(1,2) index_inv_untrack)
  then show ?thesis
    using assms
    by (auto simp: set_mode_def Let_def intro!: index_inv_foldl index_inv_dirty_cache index_inv_frame(9))
qed

subsection \<open>Actions and the index\<close>

lemma update_session_stats_sel [tracker_simps]:
  "t_files (update_session_stats li a s) = t_files s" "t_turns (update_session_stats li a s) = t_turns s"
  "t_next (update_session_stats li a s) = t_next s" "t_disk (update_session_stats li a s) = t_disk s"
  by (simp_all add: update_session_stats_def Let_def)

lemma note_action_sel [tracker_simps]:
  "t_files (note_action a h s) = t_files s" "t_next (note_action a h s) = t_next s"
  "t_disk (note_action a h s) = t_disk s"
  by (simp_all add: note_action_def tracker_simps)

lemma note_action_at [tracker_simps]:
  "file_state (note_action a h s) = file_state s" "hunks_at (note_action a h s) q = hunks_at s q"
  by (simp_all add: file_state_def hunks_at_def tracker_simps fun_eq_iff)

lemma turn_ids_note:
  "turn_ids (note_action a h s) n =
     (if source_prompt_index (h_source h) = Some n then removeAll (h_id h) (turn_ids s n) else turn_ids s n)"
  by (simp add: note_action_def turn_ids_remove) (simp add: turn_ids_def tracker_simps)

lemma index_inv_note:
  assumes "index_inv X s"
  shows "index_inv (insert (h_id h) X) (note_action a h s)"
  by (rule index_inv_fewer [OF assms, where D = "\<lambda>n. if source_prompt_index (h_source h) = Some n then {h_id h} else {}"])
    (use index_invD(1,5) [OF assms] in
      \<open>auto simp: tracker_simps turn_ids_note distinct_removeAll intro: exI [of _ "\<lambda>_. True"]\<close>)

lemma note_actions_at [tracker_simps]:
  "file_state (note_actions a hs s) = file_state s" "hunks_at (note_actions a hs s) q = hunks_at s q"
  "t_disk (note_actions a hs s) = t_disk s" "t_files (note_actions a hs s) = t_files s"
  unfolding note_actions_def by (induction hs arbitrary: s) (simp_all add: tracker_simps)

lemma index_inv_notes:
  "index_inv X s \<Longrightarrow> index_inv (h_id ` set hs \<union> X) (note_actions a hs s)"
  unfolding note_actions_def
proof (induction hs arbitrary: s X)
  case (Cons h hs)
  show ?case using Cons.IH [OF index_inv_note [OF Cons.prems, of h a]] by simp
qed simp

text \<open>Hunks of one file leave it: they need no excuse any more.\<close>

lemma index_inv_remove:
  assumes inv: "index_inv X s" and hs: "set hs \<subseteq> set (hunks_at s p)"
    and rest: "fs_hunks st = without_ids (map h_id hs) (hunks_at s p)"
  shows "index_inv (X - h_id ` set hs) (put_file p st s)"
proof (rule index_inv_fewer [OF inv, where D = "\<lambda>_. {}"])
  show "\<exists>P. hunks_at (put_file p st s) q = filter P (hunks_at s q)" for q
  proof (cases "q = p")
    case True
    then show ?thesis using rest by (auto simp: tracker_simps without_ids_def)
  next
    case False
    then show ?thesis by (intro exI [of _ "\<lambda>_. True"]) (simp add: tracker_simps)
  qed
  show "h_id h \<notin> {} \<and> h_id h \<notin> X"
    if a: "h \<in> set (hunks_at (put_file p st s) q)" "h_id h \<notin> X - h_id ` set hs" for q h
  proof -
    have False if i: "h_id h \<in> h_id ` set hs"
    proof -
      obtain g where g: "g \<in> set hs" "h_id g = h_id h" using i by auto
      show False
      proof (cases "q = p")
        case True
        then show False using a(1) rest i by (simp add: tracker_simps without_ids_def)
      next
        case False
        then have "h \<in> set (hunks_at s q)" using a(1) by (simp add: tracker_simps)
        then show False using index_invD(3) [OF inv, of h q g p] g hs False by auto
      qed
    qed
    then show ?thesis using a(2) by auto
  qed
qed (use index_invD(1,5) [OF inv] in \<open>simp_all add: tracker_simps\<close>)

lemma index_inv_accept_hunk:
  assumes inv: "index_inv X s" and h: "h \<in> set (hunks_at s p)"
  shows "index_inv (X - {h_id h}) (accept_hunk e p h s)"
proof -
  obtain st where st: "file_state s p = Some st" using h by (cases "file_state s p") (auto simp: hunks_at_def)
  have rm: "index_inv (X - {h_id h}) (put_file p st' s)"
    if "fs_hunks st' = without_ids [h_id h] (fs_hunks st)" for st'
    using index_inv_remove [OF inv, of "[h]" p st'] h that hunks_at_Some [OF st] by simp
  show ?thesis
    using st rm
    by (auto simp: accept_hunk_def Let_def intro!: index_inv_recompute index_inv_frame(2))
qed

lemma index_inv_accept_batch:
  assumes inv: "index_inv X s" and h: "set hs \<subseteq> set (hunks_at s p)"
  shows "index_inv (X - h_id ` set hs) (accept_hunks_batch e p hs s)"
proof (cases "hs = []")
  case True
  then show ?thesis using inv by (simp add: accept_hunks_batch_def)
next
  case False
  then obtain st where st: "file_state s p = Some st"
    using h by (cases "file_state s p") (auto simp: hunks_at_def)
  have rm: "index_inv (X - h_id ` set hs) (put_file p st' s)"
    if "fs_hunks st' = without_ids (map h_id hs) (fs_hunks st)" for st'
    using index_inv_remove [OF inv h] that hunks_at_Some [OF st] by simp
  show ?thesis
    using st rm False
    by (auto simp: accept_hunks_batch_def Let_def intro!: index_inv_recompute index_inv_frame(2))
qed

lemma write_file_Inr: "write_file e p c s = Inr s1 \<Longrightarrow> s1 = s\<lparr>t_disk := t_disk s @ [DiskWrite p c]\<rparr>"
  by (simp add: write_file_def split: if_splits)

lemma remove_file_Inr: "remove_file e p s = Inr s1 \<Longrightarrow> s1 = s\<lparr>t_disk := t_disk s @ [DiskRemove p]\<rparr>"
  by (simp add: remove_file_def split: if_splits)

lemma hunks_at_disk [tracker_simps]: "hunks_at (s\<lparr>t_disk := d\<rparr>) q = hunks_at s q"
  by (simp add: hunks_at_def file_state_def)

lemma index_inv_remove_disk:
  assumes "index_inv X s" "set hs \<subseteq> set (hunks_at s p)"
    "fs_hunks st = without_ids (map h_id hs) (hunks_at s p)"
  shows "index_inv (X - h_id ` set hs) (put_file p st (s\<lparr>t_disk := d\<rparr>))"
  by (rule index_inv_remove [OF index_inv_frame(11) [OF assms(1)]])
    (use assms(2,3) in \<open>simp_all add: tracker_simps\<close>)

text \<open>A successful reject of pending hunks; without success nothing is lost but the index.\<close>

definition patchable :: "file_hunk_state \<Rightarrow> bool" where
  "patchable st \<longleftrightarrow>
     (case (fs_baseline st, fs_current st) of
        (Full _, Full _) \<Rightarrow> True | (Full _, Missing) \<Rightarrow> True | (Missing, Full _) \<Rightarrow> True | _ \<Rightarrow> False)"

lemma index_inv_reject_hunk:
  assumes inv: "index_inv X s" and h: "h \<in> set (hunks_at s p)"
    and ok: "hs_write_ok e p" "hs_remove_ok e p" "\<And>st. file_state s p = Some st \<Longrightarrow> patchable st"
  shows "index_inv (X - {h_id h}) (snd (reject_hunk e p h s))"
proof -
  obtain st where st: "file_state s p = Some st" using h by (cases "file_state s p") (auto simp: hunks_at_def)
  have rm: "index_inv (X - {h_id h}) (put_file p st' (s\<lparr>t_disk := d\<rparr>))"
    if "fs_hunks st' = without_ids [h_id h] (fs_hunks st)" for st' d
    using index_inv_remove_disk [OF inv, of "[h]" p st' d] h that hunks_at_Some [OF st] by simp
  show ?thesis
    using st rm ok
    by (cases "fs_baseline st"; cases "fs_current st")
      (auto simp: reject_hunk_def write_file_def remove_file_def Let_def patchable_def
        intro!: index_inv_recompute index_inv_frame(1))
qed

lemma index_inv_reject_batch:
  assumes inv: "index_inv X s" and h: "set hs \<subseteq> set (hunks_at s p)"
    and ok: "hs_write_ok e p" "hs_remove_ok e p" "\<And>st. file_state s p = Some st \<Longrightarrow> patchable st"
  shows "index_inv (X - h_id ` set hs) (snd (reject_hunks_batch e p hs s))"
proof (cases "hs = []")
  case True
  then show ?thesis using inv by (simp add: reject_hunks_batch_def)
next
  case False
  then obtain st where st: "file_state s p = Some st"
    using h by (cases "file_state s p") (auto simp: hunks_at_def)
  have rm: "index_inv (X - h_id ` set hs) (put_file p st' (s\<lparr>t_disk := d\<rparr>))"
    if "fs_hunks st' = without_ids (map h_id hs) (fs_hunks st)" for st' d
    using index_inv_remove_disk [OF inv h] that hunks_at_Some [OF st] by simp
  show ?thesis
    using st rm ok False
    by (cases "fs_baseline st"; cases "fs_current st")
      (auto simp: reject_hunks_batch_def write_file_def remove_file_def Let_def patchable_def
        intro!: index_inv_recompute index_inv_frame(2))
qed

end
