(* ===== verification/GB_HunkExact.thy ===== *)
theory GB_HunkExact
  imports GB_HunkInvariants
begin

section \<open>Pending hunks describe the files\<close>

text \<open>
  The second invariant: the hunks of a file are those of its baseline and its current content.
  The diff crate is a parameter; what is assumed of it is its documented reading, on texts
  without a lone carriage return (it ends a line there, \<open>str::lines\<close> does not).
\<close>

fun no_lone_cr :: "string \<Rightarrow> bool" where
  "no_lone_cr [] = True"
| "no_lone_cr [c] \<longleftrightarrow> c \<noteq> CR"
| "no_lone_cr (c # d # s) \<longleftrightarrow> (c = CR \<longrightarrow> d = LF) \<and> no_lone_cr (d # s)"

definition diff_faithful :: "line_diff \<Rightarrow> bool" where
  "diff_faithful diff \<longleftrightarrow>
     (\<forall>b c cs. diff b c = Some cs \<longrightarrow> no_lone_cr b \<longrightarrow> no_lone_cr c \<longrightarrow> diff_ok cs b c)"

lemma prefix_diff_faithful: "diff_faithful prefix_diff"
  by (simp add: diff_faithful_def prefix_diff_def diff_ok_def prefix_changes_ok)

lemma no_lone_cr_plain: "CR \<notin> set s \<Longrightarrow> no_lone_cr s"
  by (induction s rule: no_lone_cr.induct) auto

definition whole_deletion :: "string \<Rightarrow> hunk \<Rightarrow> bool" where
  "whole_deletion b h \<longleftrightarrow> h_old_text h = Some b \<and> h_new_text h = []
     \<and> new_count (h_line_info h) = 0 \<and> new_start (h_line_info h) = 0"

definition whole_creation :: "string \<Rightarrow> hunk \<Rightarrow> bool" where
  "whole_creation c h \<longleftrightarrow> h_old_text h = None \<and> h_new_text h = c
     \<and> old_count (h_line_info h) = 0 \<and> old_start (h_line_info h) = 0"

fun hunks_describe :: "file_content_state \<Rightarrow> file_content_state \<Rightarrow> hunk list \<Rightarrow> bool" where
  "hunks_describe (Full b) (Full c) hs \<longleftrightarrow>
     hs = [] \<or> (no_lone_cr b \<longrightarrow> no_lone_cr c \<longrightarrow>
       hunks_between 0 1 1 (split_inclusive b) (split_inclusive c) hs)"
| "hunks_describe (Full b) Missing hs \<longleftrightarrow> hs = [] \<or> (\<exists>h. hs = [h] \<and> whole_deletion b h)"
| "hunks_describe Missing (Full c) hs \<longleftrightarrow> hs = [] \<or> (\<exists>h. hs = [h] \<and> whole_creation c h)"
| "hunks_describe _ _ hs \<longleftrightarrow> hs = []"

definition file_exact :: "file_hunk_state \<Rightarrow> bool" where
  "file_exact st \<longleftrightarrow> hunks_describe (fs_baseline st) (fs_current st) (fs_hunks st)"

text \<open>Keeping an old identifier changes neither the text nor the position of a hunk.\<close>

lemma preserve_between:
  "hunks_between m i j as bs (preserve_ids old cl hs) = hunks_between m i j as bs hs"
proof (induction hs arbitrary: m i j as bs cl)
  case (Cons h hs)
  then show ?case by (simp add: Let_def split: option.split)
qed simp

lemma preserve_one:
  "\<exists>h'. preserve_ids old cl [h] = [h'] \<and> h_old_text h' = h_old_text h \<and> h_new_text h' = h_new_text h
     \<and> h_line_info h' = h_line_info h"
  by (simp split: option.split)

lemma content_hunks_describe:
  assumes "diff_faithful diff"
  shows "hunks_describe b c (preserve_ids old cl (content_hunks diff i p src b c))"
proof -
  have full: "hunks_describe (Full x) (Full y) (preserve_ids old cl (compute_hunks diff i p x y src))" for x y
  proof (cases "compute_hunks diff i p x y src = []")
    case False
    then obtain cs where "diff x y = Some cs" "x \<noteq> y" "length x \<le> MAX_DIFF_FILE_SIZE" "length y \<le> MAX_DIFF_FILE_SIZE"
      by (auto simp: compute_hunks_def split: if_splits option.splits)
    then show ?thesis
      using assms compute_hunks_facts(1) [of diff x y cs] by (auto simp: diff_faithful_def preserve_between)
  qed simp
  have del: "\<exists>h. preserve_ids old cl [file_deleted i p x src] = [h] \<and> whole_deletion x h" for x
    using preserve_one [of old cl "file_deleted i p x src"]
    by (auto simp: whole_deletion_def file_deleted_def Let_def)
  have cre: "\<exists>h. preserve_ids old cl [file_created i p x src] = [h] \<and> whole_creation x h" for x
    using preserve_one [of old cl "file_created i p x src"]
    by (auto simp: whole_creation_def file_created_def Let_def)
  have fm: "hunks_describe (Full x) Missing
      (preserve_ids old cl (if x = [] then [] else [file_deleted i p x src]))" for x
    unfolding hunks_describe.simps using del [of x] by (simp only: preserve_ids.simps(1) simp_thms split: if_split)
  have mf: "hunks_describe Missing (Full x)
      (preserve_ids old cl (if x = [] then [] else [file_created i p x src]))" for x
    unfolding hunks_describe.simps using cre [of x] by (simp only: preserve_ids.simps(1) simp_thms split: if_split)
  show ?thesis
    by (cases b; cases c)
      (simp_all only: content_hunks.simps full fm mf, simp_all)
qed

subsection \<open>The invariant\<close>

text \<open>Every file outside \<open>P\<close> is exact; \<open>P\<close> holds the file in hand.\<close>

definition exact_inv :: "path set \<Rightarrow> tracker \<Rightarrow> bool" where
  "exact_inv P s \<longleftrightarrow> (\<forall>p st. p \<notin> P \<longrightarrow> file_state s p = Some st \<longrightarrow> file_exact st)"

named_theorems exact_intros "operations that keep the exactness invariant"

lemma file_state_core: "t_files s' = t_files s \<Longrightarrow> file_state s' = file_state s"
  by (rule ext) (simp add: file_state_def)

lemma exact_inv_core: "t_files s' = t_files s \<Longrightarrow> exact_inv P s' = exact_inv P s"
  using file_state_core [of s' s] by (simp add: exact_inv_def)

lemma exact_inv_frame [exact_intros]:
  "exact_inv P s \<Longrightarrow> exact_inv P (send_event ev s)"
  "exact_inv P s \<Longrightarrow> exact_inv P (send_events evs s)"
  "exact_inv P s \<Longrightarrow> exact_inv P (snd (read_baseline e p s))"
  "exact_inv P s \<Longrightarrow> exact_inv P (snd (read_baselines_batch e ps s))"
  "exact_inv P s \<Longrightarrow> exact_inv P (snd (read_repo_sync_state e s))"
  "exact_inv P s \<Longrightarrow> exact_inv P (note_discovery d s)"
  "exact_inv P s \<Longrightarrow> exact_inv P (s\<lparr>t_dirty := ds, t_staged := ss\<rparr>)"
  "exact_inv P s \<Longrightarrow> exact_inv P (s\<lparr>t_sync := sy\<rparr>)"
  "exact_inv P s \<Longrightarrow> exact_inv P (s\<lparr>t_mode := m\<rparr>)"
  "exact_inv P s \<Longrightarrow> exact_inv P (s\<lparr>t_stats := st\<rparr>)"
  "exact_inv P s \<Longrightarrow> exact_inv P (s\<lparr>t_disk := dk\<rparr>)"
  "exact_inv P s \<Longrightarrow> exact_inv P (note_action a h s)"
  "exact_inv P s \<Longrightarrow> exact_inv P (note_actions a hs s)"
  "exact_inv P s \<Longrightarrow> exact_inv P (unindex_hunks hs s)"
  "exact_inv P s \<Longrightarrow> exact_inv P (index_hunks hs s)"
  by (erule exact_inv_core [THEN iffD2, rotated 1]; simp add: tracker_simps)+

lemma exact_inv_put: "exact_inv P s \<Longrightarrow> exact_inv (insert p P) (put_file p st s)"
  by (auto simp: exact_inv_def tracker_simps)

lemma exact_inv_put_exact: "exact_inv (insert p P) s \<Longrightarrow> file_exact st \<Longrightarrow> exact_inv P (put_file p st s)"
  by (auto simp: exact_inv_def tracker_simps)

lemma exact_inv_mono: "exact_inv P s \<Longrightarrow> P \<subseteq> Q \<Longrightarrow> exact_inv Q s"
  by (auto simp: exact_inv_def)

lemma file_exact_clear: "fs_hunks st = [] \<Longrightarrow> file_exact st"
  by (cases "fs_baseline st"; cases "fs_current st") (simp_all add: file_exact_def)

lemma exact_inv_put_clear [exact_intros]:
  "exact_inv P s \<Longrightarrow> fs_hunks st = [] \<Longrightarrow> exact_inv P (put_file p st s)"
  by (auto simp: exact_inv_def tracker_simps file_exact_clear)

lemma exact_inv_drop [exact_intros]: "exact_inv P s \<Longrightarrow> exact_inv P (drop_file p s)"
  by (auto simp: exact_inv_def tracker_simps)

lemma recompute_file_state:
  "file_state (recompute_hunks e p nc src s) =
     (case file_state s p of
        None \<Rightarrow> file_state s
      | Some st \<Rightarrow>
          let c = (case nc of Some c \<Rightarrow> c | None \<Rightarrow> missing_content)
          in (file_state s)(p \<mapsto> st\<lparr>fs_current := c,
               fs_hunks := preserve_ids (fs_hunks st) []
                 (content_hunks (hs_diff e) (t_next s) p src (fs_baseline st) c)\<rparr>))"
proof (cases "file_state s p")
  case (Some st)
  have "file_state (s'\<lparr>t_next := k\<rparr>) = file_state s'" for s' :: tracker and k
    by (rule ext) (simp add: file_state_def)
  then show ?thesis using Some by (simp add: recompute_hunks_def Let_def tracker_simps)
qed (simp add: recompute_hunks_def)

lemma exact_inv_recompute [exact_intros]:
  assumes "exact_inv (insert p P) s" "diff_faithful (hs_diff e)"
  shows "exact_inv P (recompute_hunks e p nc src s)"
proof (cases "file_state s p")
  case None
  have "recompute_hunks e p nc src s = s" using None by (simp add: recompute_hunks_def)
  moreover have "exact_inv P s"
    using assms(1) None unfolding exact_inv_def by (metis insertE option.distinct(1))
  ultimately show ?thesis by simp
next
  case (Some st)
  then show ?thesis
    using assms content_hunks_describe [OF assms(2)]
    by (auto simp: exact_inv_def recompute_file_state Let_def file_exact_def)
qed

subsection \<open>Every handler keeps it\<close>

lemma exact_put_recompute:
  "exact_inv {} s \<Longrightarrow> diff_faithful (hs_diff e) \<Longrightarrow>
     exact_inv {} (recompute_hunks e p nc src (put_file p st s))"
  by (rule exact_inv_recompute [OF exact_inv_put])

lemma exact_event_recompute:
  "exact_inv {} s \<Longrightarrow> diff_faithful (hs_diff e) \<Longrightarrow>
     exact_inv {} (recompute_hunks e p nc src (send_event ev (put_file p st s)))"
  by (rule exact_inv_recompute [OF exact_inv_frame(1) [OF exact_inv_put]])

lemma exact_recompute:
  "exact_inv {} s \<Longrightarrow> diff_faithful (hs_diff e) \<Longrightarrow> exact_inv {} (recompute_hunks e p nc src s)"
  by (rule exact_inv_recompute [OF exact_inv_mono]) auto

lemma new_file_state_hunks [simp]: "fs_hunks (new_file_state b c a) = []"
  by (simp add: new_file_state_def)

lemma exact_write:
  assumes "exact_inv {} s" "diff_faithful (hs_diff e)"
  shows "exact_inv {} (record_agent_write e p c n prev s)"
proof -
  note rb = exact_inv_frame(3) [OF assms(1), of e p]
  show ?thesis
    using assms rb
    by (auto simp: record_agent_write_def Let_def split: option.split prod.splits
        intro!: exact_put_recompute exact_event_recompute exact_inv_frame(1) exact_inv_put_clear)
qed

lemma exact_change:
  assumes "exact_inv {} s" "diff_faithful (hs_diff e)"
  shows "exact_inv {} (process_file_change e p preloaded s)"
proof -
  have gb: "exact_inv {} (snd (case preloaded of Some b \<Rightarrow> (b, s) | None \<Rightarrow> read_baseline e p s))"
    using assms(1) exact_inv_frame(3) by (cases preloaded) auto
  show ?thesis
    using assms gb
    by (auto simp: process_file_change_def Let_def split: option.splits prod.splits
        intro!: exact_recompute exact_inv_frame(1) exact_inv_put_clear)
qed

lemma exact_changes:
  "exact_inv {} s \<Longrightarrow> diff_faithful (hs_diff e) \<Longrightarrow> exact_inv {} (process_changes e bs ps s)"
  by (induction e bs ps s rule: process_changes.induct) (simp_all add: exact_change)

lemma exact_changes_batch:
  "exact_inv {} s \<Longrightarrow> diff_faithful (hs_diff e) \<Longrightarrow> exact_inv {} (handle_file_changes_batch e ps s)"
  using exact_inv_frame(4) [of "{}" s e]
  by (auto simp: handle_file_changes_batch_def Let_def split: prod.split intro!: exact_changes)
    (metis snd_conv)

lemma exact_deleted:
  assumes "exact_inv {} s" "diff_faithful (hs_diff e)"
  shows "exact_inv {} (handle_file_deleted e p s)"
  using assms exact_inv_frame(3) [OF assms(1), of e p]
  by (auto simp: handle_file_deleted_def handle_file_change_def Let_def split: option.split prod.split
      intro!: exact_recompute exact_inv_frame(1) exact_inv_put_clear exact_change)

lemma exact_reset: "exact_inv {} s \<Longrightarrow> exact_inv {} (reset_baseline p s)"
  by (auto simp: reset_baseline_def Let_def split: option.split
      intro!: exact_inv_frame(1,2,14) exact_inv_put_clear)

lemma exact_refresh_file:
  assumes "exact_inv {} s" "diff_faithful (hs_diff e)"
  shows "exact_inv {} (refresh_file e b c p s)"
  using assms
  by (auto simp: refresh_file_def Let_def drop_put_file split: option.split
      intro!: exact_inv_frame(1,2,14) exact_inv_put_clear exact_put_recompute exact_inv_drop)

lemma exact_foldl:
  "exact_inv {} s \<Longrightarrow> (\<And>s a. exact_inv {} s \<Longrightarrow> exact_inv {} (f s a)) \<Longrightarrow> exact_inv {} (foldl f s as)"
  by (induction as arbitrary: s) simp_all

lemma exact_dirty_cache:
  assumes "exact_inv {} s" "diff_faithful (hs_diff e)"
  shows "exact_inv {} (refresh_git_dirty_cache e scope s)"
  unfolding refresh_git_dirty_cache_def handle_file_change_def Let_def
  by (auto split: prod.split intro!: exact_foldl exact_change exact_inv_frame assms)

text \<open>
  A refresh in its steps: the same frame serves any property that these steps keep.
\<close>

lemma refresh_all_steps:
  assumes "Q s"
    and "\<And>s. Q s \<Longrightarrow> Q (snd (read_repo_sync_state e s))" "\<And>s sy. Q s \<Longrightarrow> Q (s\<lparr>t_sync := sy\<rparr>)"
    and "\<And>s. Q s \<Longrightarrow> Q (s\<lparr>t_dirty := [], t_staged := []\<rparr>)"
    and "\<And>s scope. Q s \<Longrightarrow> Q (refresh_git_dirty_cache e scope s)"
    and "\<And>s ps. Q s \<Longrightarrow> Q (snd (read_baselines_batch e ps s))"
    and "\<And>s b c p. Q s \<Longrightarrow> Q (refresh_file e b c p s)"
  shows "Q (refresh_all_baselines_except e skip s)"
proof -
  obtain sy s1 where s1: "read_repo_sync_state e s = (sy, s1)" by (cases "read_repo_sync_state e s")
  have q1: "Q s1" using assms(2) [OF assms(1)] s1 by simp
  define s2 where "s2 = (case sy of Some st \<Rightarrow> s1\<lparr>t_sync := st\<rparr> | None \<Rightarrow> s1)"
  have q2: "Q s2" using q1 assms(3) by (simp add: s2_def split: option.split)
  define s3 where "s3 = (if refresh_scope s2 = Some [] then s2\<lparr>t_dirty := [], t_staged := []\<rparr>
      else refresh_git_dirty_cache e (refresh_scope s2) s2)"
  have q3: "Q s3" using q2 assms(4,5) by (simp add: s3_def)
  define paths where "paths = filter (\<lambda>p. p \<notin> set skip) (map fst (t_files s3))"
  have q4: "Q (snd (read_baselines_batch e paths s3))" by (rule assms(6) [OF q3])
  have fold: "Q (foldl (\<lambda>s p. refresh_file e (g p) (read_file_bounded e p) p s) t ps)" if "Q t" for g t ps
    using that assms(7) by (induction ps arbitrary: t) simp_all
  have "refresh_all_baselines_except e skip s =
      (if t_mode s = AgentOnly \<and> t_files s = [] then s
       else if sy = Some (t_sync s1) then s1
       else foldl (\<lambda>s p. refresh_file e (or_missing (map_of (fst (read_baselines_batch e paths s3)) p))
              (read_file_bounded e p) p s) (snd (read_baselines_batch e paths s3)) paths)"
    unfolding refresh_all_baselines_except_def Let_def s1 prod.case s2_def [symmetric]
      s3_def [symmetric] paths_def [symmetric]
    by (simp add: case_prod_beta)
  then show ?thesis using assms(1) q1 fold [OF q4] by simp
qed

lemma exact_refresh_all:
  assumes "exact_inv {} s" "diff_faithful (hs_diff e)"
  shows "exact_inv {} (refresh_all_baselines_except e skip s)"
  by (rule refresh_all_steps [where Q = "exact_inv {}", OF assms(1)])
    (rule exact_inv_frame exact_dirty_cache exact_refresh_file; (assumption | rule assms(2)))+

lemma exact_untrack: "exact_inv {} s \<Longrightarrow> exact_inv {} (untrack_file p s)"
  by (auto simp: untrack_file_def split: option.split intro!: exact_inv_frame(1,2,14) exact_inv_drop)

lemma exact_set_mode:
  assumes "exact_inv {} s" "diff_faithful (hs_diff e)"
  shows "exact_inv {} (set_mode e m s)"
  using assms exact_untrack
  by (auto simp: set_mode_def Let_def intro!: exact_foldl exact_dirty_cache exact_inv_frame(9))

subsection \<open>Actions\<close>

lemma without_one: "h \<in> set [g] \<Longrightarrow> h_id h \<in> set ids \<Longrightarrow> without_ids ids [g] = []"
  by (simp add: without_ids_def)

lemma exact_accept_batch:
  assumes inv: "exact_inv {} s" "diff_faithful (hs_diff e)" and h: "set hs \<subseteq> set (hunks_at s p)"
  shows "exact_inv {} (accept_hunks_batch e p hs s)"
proof (cases "hs = []")
  case True
  then show ?thesis using inv by (simp add: accept_hunks_batch_def)
next
  case False
  then obtain st where st: "file_state s p = Some st"
    using h by (cases "file_state s p") (auto simp: hunks_at_def)
  have hp: "hunks_at s p = fs_hunks st" using hunks_at_Some [OF st] .
  have ex: "file_exact st" using inv(1) st by (simp add: exact_inv_def)
  have created: "without_ids (map h_id hs) (fs_hunks st) = []" if miss: "fs_baseline st = Missing"
  proof -
    have "fs_hunks st \<noteq> []" using h False hp by (cases hs) auto
    then obtain g where g: "fs_hunks st = [g]"
      using ex miss by (cases "fs_current st") (auto simp: file_exact_def)
    then have "g \<in> set hs" using h False hp by (cases hs) auto
    then show ?thesis using g by (simp add: without_ids_def)
  qed
  show ?thesis
  proof (cases "fs_baseline st = Missing")
    case True
    then show ?thesis
      using st False inv created
      by (auto simp: accept_hunks_batch_def Let_def intro!: exact_inv_frame(2) exact_inv_put_clear)
  next
    case notmissing: False
    show ?thesis
      using st False notmissing inv
      by (auto simp: accept_hunks_batch_def Let_def
          intro!: exact_inv_recompute exact_inv_frame(2) exact_inv_put)
  qed
qed

lemma accept_hunk_batch: "accept_hunk e p h s = accept_hunks_batch e p [h] s"
  by (auto simp: accept_hunk_def accept_hunks_batch_def sorted_desc_def Let_def split: option.split
      file_content_state.split)

lemma reject_hunk_batch: "reject_hunk e p h s = reject_hunks_batch e p [h] s"
proof (cases "file_state s p")
  case (Some st)
  then show ?thesis
    by (cases "fs_baseline st"; cases "fs_current st")
      (auto simp: reject_hunk_def reject_hunks_batch_def sorted_desc_def Let_def drop_hunk_events_def
        send_event_def send_events_def split: sum.split)
qed (simp add: reject_hunk_def reject_hunks_batch_def)

lemma exact_reject_batch:
  assumes inv: "exact_inv {} s" "diff_faithful (hs_diff e)" and h: "set hs \<subseteq> set (hunks_at s p)"
  shows "exact_inv {} (snd (reject_hunks_batch e p hs s))"
proof (cases "hs = []")
  case True
  then show ?thesis using inv by (simp add: reject_hunks_batch_def)
next
  case False
  then obtain st where st: "file_state s p = Some st"
    using h by (cases "file_state s p") (auto simp: hunks_at_def)
  have hp: "hunks_at s p = fs_hunks st" using hunks_at_Some [OF st] .
  have ex: "file_exact st" using inv(1) st by (simp add: exact_inv_def)
  have ne: "fs_hunks st \<noteq> []" using h False hp by (cases hs) auto
  have one: "without_ids (map h_id hs) (fs_hunks st) = []" if "fs_hunks st = [g]" for g
  proof -
    have "g \<in> set hs" using h False hp that by (cases hs) auto
    then show ?thesis using that by (simp add: without_ids_def)
  qed
  have disk: "exact_inv {} (s\<lparr>t_disk := d\<rparr>)" for d using inv(1) by (rule exact_inv_frame)
  show ?thesis
    using st ex ne one inv False disk
    by (cases "fs_baseline st"; cases "fs_current st")
      (auto simp: reject_hunks_batch_def write_file_def remove_file_def Let_def file_exact_def
        intro!: exact_inv_recompute exact_inv_frame(2) exact_inv_put exact_inv_put_clear)
qed

end
