(* ===== verification/GB_HunkSession.thy ===== *)
theory GB_HunkSession
  imports GB_HunkExact "HOL-Library.Multiset"
begin

section \<open>Sessions of the hunk tracker\<close>

text \<open>
  What the tracker promises over a whole session: the runs of the actor from its start, and the
  properties of every state they reach.
\<close>

subsection \<open>Actions keep the invariants\<close>

lemma recompute_other: "q \<noteq> p \<Longrightarrow> file_state (recompute_hunks e p nc src s) q = file_state s q"
  by (simp add: recompute_file_state Let_def split: option.split)

lemma batch_file_other:
  assumes "q \<noteq> p"
  shows "file_state (snd (batch_file e a p hs s)) q = file_state s q"
proof -
  have d: "file_state (s\<lparr>t_disk := x\<rparr>) = file_state s" for s :: tracker and x
    by (rule ext) (simp add: file_state_def)
  have acc: "file_state (accept_hunks_batch e p hs s) q = file_state s q" for s
    using assms by (simp add: accept_hunks_batch_def Let_def recompute_other tracker_simps split: option.split)
  have rej: "file_state (snd (reject_hunks_batch e p hs s)) q = file_state s q" for s
    using assms
    by (auto simp: reject_hunks_batch_def Let_def recompute_other tracker_simps write_file_def
        remove_file_def d split: option.split file_content_state.split)
  show ?thesis by (cases a) (simp_all add: batch_file_def acc rej tracker_simps)
qed

definition all_ok :: "host \<Rightarrow> bool" where
  "all_ok e \<longleftrightarrow> (\<forall>p. hs_write_ok e p \<and> hs_remove_ok e p)"

lemma exact_patchable:
  assumes "exact_inv {} s" "file_state s p = Some st" "fs_hunks st \<noteq> []"
  shows "patchable st"
  using assms
  by (cases "fs_baseline st"; cases "fs_current st") (force simp: exact_inv_def file_exact_def patchable_def)+

lemma exact_batch_file:
  assumes "exact_inv {} s" "diff_faithful (hs_diff e)" "set hs \<subseteq> set (hunks_at s p)"
  shows "exact_inv {} (snd (batch_file e a p hs s))"
  using exact_accept_batch [OF exact_inv_frame(13) [OF assms(1)] assms(2)]
    exact_reject_batch [OF exact_inv_frame(13) [OF assms(1)] assms(2)] assms(3)
  by (cases a) (simp_all add: batch_file_def tracker_simps)

lemma index_batch_file:
  assumes inv: "index_inv {} s" "exact_inv {} s" and hs: "set hs \<subseteq> set (hunks_at s p)" and ok: "all_ok e"
  shows "index_inv {} (snd (batch_file e a p hs s))"
proof (cases "hs = []")
  case True
  then show ?thesis using inv
    by (cases a) (simp_all add: batch_file_def note_actions_def accept_hunks_batch_def reject_hunks_batch_def)
next
  case False
  define s1 where "s1 = note_actions a hs s"
  have i1: "index_inv (h_id ` set hs) s1" using index_inv_notes [OF inv(1), of hs a] by (simp add: s1_def)
  have at1: "set hs \<subseteq> set (hunks_at s1 p)" using hs by (simp add: s1_def tracker_simps)
  have patch: "patchable st" if "file_state s1 p = Some st" for st
  proof (rule exact_patchable [OF inv(2)])
    show "file_state s p = Some st" using that by (simp add: s1_def tracker_simps)
    then show "fs_hunks st \<noteq> []" using hs False hunks_at_Some by (cases hs) fastforce+
  qed
  have "index_inv (h_id ` set hs - h_id ` set hs) (accept_hunks_batch e p hs s1)"
    by (rule index_inv_accept_batch [OF i1 at1])
  moreover have "index_inv (h_id ` set hs - h_id ` set hs) (snd (reject_hunks_batch e p hs s1))"
    by (rule index_inv_reject_batch [OF i1 at1]) (use ok patch in \<open>auto simp: all_ok_def\<close>)
  ultimately show ?thesis by (cases a) (simp_all add: batch_file_def s1_def)
qed

text \<open>Without any assumption on the writes, the index never files a hunk under a wrong turn.\<close>

lemma index_UNIV_rest:
  assumes "index_inv UNIV s" "fs_hunks st = filter P (hunks_at s p)"
  shows "index_inv UNIV (put_file p st (s\<lparr>t_disk := d\<rparr>))"
proof (rule index_inv_fewer [OF index_inv_frame(11) [OF assms(1), of d], where D = "\<lambda>_. {}"])
  show "\<exists>P. hunks_at (put_file p st (s\<lparr>t_disk := d\<rparr>)) q = filter P (hunks_at (s\<lparr>t_disk := d\<rparr>) q)" for q
    using assms(2)
    by (cases "q = p") (auto simp: tracker_simps intro: exI [of _ "\<lambda>_. True"])
qed (use index_invD(1,5) [OF index_inv_frame(11) [OF assms(1), of d]] in \<open>simp_all add: tracker_simps turn_ids_def\<close>)

lemma index_UNIV_rest0:
  "index_inv UNIV s \<Longrightarrow> fs_hunks st = filter P (hunks_at s p) \<Longrightarrow> index_inv UNIV (put_file p st s)"
  using index_UNIV_rest [of s st P p "t_disk s"] by simp

lemma index_UNIV_batch_file:
  assumes "index_inv UNIV s"
  shows "index_inv UNIV (snd (batch_file e a p hs s))"
proof -
  define s1 where "s1 = note_actions a hs s"
  have i1: "index_inv UNIV s1" using index_inv_notes [OF assms, of hs a] by (simp add: s1_def)
  have "index_inv UNIV (accept_hunks_batch e p hs s1)"
    using i1 index_UNIV_rest0 [OF i1]
    by (auto simp: accept_hunks_batch_def Let_def without_ids_def hunks_at_Some split: option.split
        intro!: index_inv_recompute index_inv_frame(2))
  moreover have "index_inv UNIV (snd (reject_hunks_batch e p hs s1))"
    using i1 index_UNIV_rest [OF i1]
    by (auto simp: reject_hunks_batch_def Let_def without_ids_def hunks_at_Some write_file_def remove_file_def
        split: option.split file_content_state.split intro!: index_inv_recompute index_inv_frame(2))
  ultimately show ?thesis by (cases a) (simp_all add: batch_file_def s1_def)
qed

text \<open>A batch is a sequence of files with hunks of their own.\<close>

lemma action_batch_induct:
  assumes step: "\<And>s p hs. Q s \<Longrightarrow> set hs \<subseteq> set (hunks_at s p) \<Longrightarrow> Q (snd (batch_file e a p hs s))"
  shows "Q s \<Longrightarrow> distinct (map fst fs) \<Longrightarrow> (\<And>p hs. (p, hs) \<in> set fs \<Longrightarrow> set hs \<subseteq> set (hunks_at s p))
    \<Longrightarrow> Q (snd (apply_action_batch e a fs s))"
proof (induction fs arbitrary: s)
  case (Cons f fs)
  obtain p hs where f: "f = (p, hs)" by (cases f)
  obtain r s1 where s1: "batch_file e a p hs s = (r, s1)" by (cases "batch_file e a p hs s")
  have q1: "Q s1" using step [OF Cons.prems(1), of hs p] Cons.prems(3) [of p hs] s1 f by simp
  have at_q: "set gs \<subseteq> set (hunks_at s1 q)" if m: "(q, gs) \<in> set fs" for q gs
  proof -
    have "q \<noteq> p" using m Cons.prems(2) f by force
    then have "hunks_at s1 q = hunks_at s q"
      using batch_file_other [of q p e a hs s] s1 by (simp add: hunks_at_def)
    then show ?thesis using Cons.prems(3) m by simp
  qed
  have "Q (snd (apply_action_batch e a fs s1))"
    using Cons.IH [OF q1] Cons.prems(2) at_q by simp
  then show ?case using f s1 q1 by (auto split: sum.split prod.split)
qed simp

lemma pending_of_files_at:
  assumes "distinct (map fst (t_files s))"
  shows "distinct (map fst (pending_of_files want s))"
    and "(p, hs) \<in> set (pending_of_files want s) \<Longrightarrow> set hs \<subseteq> set (hunks_at s p)"
proof -
  have "map fst (map (\<lambda>(p, st). (p, filter want (fs_hunks st))) (t_files s)) = map fst (t_files s)"
    by (simp add: case_prod_beta comp_def)
  then show "distinct (map fst (pending_of_files want s))"
    using assms unfolding pending_of_files_def by (metis distinct_map_filter)
  show "set hs \<subseteq> set (hunks_at s p)" if "(p, hs) \<in> set (pending_of_files want s)"
    using that assms by (auto simp: pending_of_files_def hunks_at_def file_state_def)
qed

lemma find_hunk_at:
  assumes "find_hunk s i = Some (p, h)" "distinct (map fst (t_files s))"
  shows "h \<in> set (hunks_at s p) \<and> h_id h = i"
proof -
  obtain rest where "List.map_filter (\<lambda>(p, st). case find (\<lambda>h. h_id h = i) (fs_hunks st) of
      None \<Rightarrow> None | Some h \<Rightarrow> Some (p, h)) (t_files s) = (p, h) # rest"
    using assms(1) by (auto simp: find_hunk_def first_opt_Some)
  then have "(p, h) \<in> set (List.map_filter (\<lambda>(p, st). case find (\<lambda>h. h_id h = i) (fs_hunks st) of
      None \<Rightarrow> None | Some h \<Rightarrow> Some (p, h)) (t_files s))"
    by simp
  then obtain st where st: "(p, st) \<in> set (t_files s)" "find (\<lambda>h. h_id h = i) (fs_hunks st) = Some h"
    by (force simp: List.map_filter_def split: option.splits)
  then have "h \<in> set (fs_hunks st) \<and> h_id h = i" by (auto simp: find_Some_iff)
  moreover have "file_state s p = Some st" using st(1) assms(2) by (simp add: file_state_def)
  ultimately show ?thesis by (simp add: hunks_at_def)
qed

lemma hunk_action_batch:
  "apply_hunk_action e i a s =
     (case find_hunk s i of
        None \<Rightarrow> (Inl (HunkNotFound i), s)
      | Some (p, h) \<Rightarrow> batch_file e a p [h] s)"
  by (auto simp: apply_hunk_action_def batch_file_def note_actions_def accept_hunk_batch reject_hunk_batch Let_def
      split: option.split hunk_action.split)

text \<open>All four actions at once.\<close>

lemma actions_induct:
  assumes step: "\<And>s p hs. Q s \<Longrightarrow> set hs \<subseteq> set (hunks_at s p) \<Longrightarrow> Q (snd (batch_file e a p hs s))"
    and q: "Q s" and d: "distinct (map fst (t_files s))"
  shows "Q (snd (apply_hunk_action e i a s))" "Q (snd (apply_file_action e p a s))"
    "Q (snd (apply_all_action e a s))" "Q (snd (apply_turn_action e n a s))"
proof -
  show "Q (snd (apply_hunk_action e i a s))"
    using q find_hunk_at [of s i] d step [of s "[_]"]
    by (auto simp: hunk_action_batch split: option.split)
  show "Q (snd (apply_file_action e p a s))"
  proof (cases "file_state s p")
    case (Some st)
    have "Q (snd (apply_action_batch e a [(p, fs_hunks st)] s))"
      by (rule action_batch_induct [where Q = Q, OF step q]) (use hunks_at_Some [OF Some] in auto)
    then show ?thesis using Some q by (simp add: apply_file_action_def)
  qed (use q in \<open>simp add: apply_file_action_def\<close>)
  show "Q (snd (apply_all_action e a s))" "Q (snd (apply_turn_action e n a s))"
    unfolding apply_all_action_def apply_turn_action_def
    by (rule action_batch_induct [where Q = Q, OF step q]; use pending_of_files_at [OF d] in blast)+
qed

lemma actions_keep:
  assumes step: "\<forall>s p hs a. Q s \<longrightarrow> set hs \<subseteq> set (hunks_at s p) \<longrightarrow> Q (snd (batch_file e a p hs s))"
    and "Q s" "distinct (map fst (t_files s))"
  shows "Q (snd (apply_hunk_action e i a s))" "Q (snd (apply_file_action e p a s))"
    "Q (snd (apply_all_action e a s))" "Q (snd (apply_turn_action e n a s))"
  by (rule actions_induct [where Q = Q, OF _ assms(2,3)]; use step in blast)+

subsection \<open>Runs of the actor\<close>

text \<open>
  The commands of a session between remounts and restores: those two replace the files' states
  from outside.
\<close>

fun session_command :: "hunk_command \<Rightarrow> bool" where
  "session_command (SetWorkingDir _) = False"
| "session_command (RestoreState _) = False"
| "session_command _ = True"

inductive reachable :: "(host \<Rightarrow> bool) \<Rightarrow> tracker \<Rightarrow> bool" for ok where
  start: "reachable ok (tracker_new wd mode)"
| turn: "reachable ok s \<Longrightarrow> ok e \<Longrightarrow> \<forall>c \<in> set (first # queued). session_command c
     \<Longrightarrow> reachable ok (actor_turn e first queued s)"

inductive_cases reachable_elim: "reachable ok s"

locale session_invariant =
  fixes ok :: "host \<Rightarrow> bool" and Q :: "tracker \<Rightarrow> bool"
  assumes new: "Q (tracker_new wd mode)"
    and command: "ok e \<Longrightarrow> session_command c \<Longrightarrow> Q s \<Longrightarrow> Q (snd (handle_command e c s))"
    and refresh: "ok e \<Longrightarrow> Q s \<Longrightarrow> Q (refresh_all_baselines_except e skip s)"
    and changes: "ok e \<Longrightarrow> Q s \<Longrightarrow> Q (handle_file_changes_batch e ps s)"
begin

lemma commands: "ok e \<Longrightarrow> \<forall>c \<in> set cs. session_command c \<Longrightarrow> Q s \<Longrightarrow> Q (handle_commands e cs s)"
  unfolding handle_commands_def by (induction cs arbitrary: s) (simp_all add: command)

lemma change: "ok e \<Longrightarrow> Q s \<Longrightarrow> Q (handle_file_change e p s)"
  using command [of e "HandleFileChange p" s] by simp

lemma deleted: "ok e \<Longrightarrow> Q s \<Longrightarrow> Q (handle_file_deleted e p s)"
  using command [of e "HandleFileDeleted p" s] by simp

lemma deletions: "ok e \<Longrightarrow> Q s \<Longrightarrow> Q (handle_deletions e acts s)"
  unfolding handle_deletions_def
  by (induction acts arbitrary: s) (auto simp: deleted split: prod.split)

lemma with_refresh: "ok e \<Longrightarrow> Q s \<Longrightarrow> Q (snd (batch_with_refresh e acts done s))"
  by (induction e acts "done" s rule: batch_with_refresh.induct) (simp_all add: deleted change)

lemma others_subset: "set (cb_other_commands (batch_add b c)) \<subseteq> insert c (set (cb_other_commands b))"
  by (auto simp: batch_add_def Let_def split: hunk_command.splits)

lemma drained_others: "set (cb_other_commands (drain_and_coalesce first queued)) \<subseteq> set (first # queued)"
proof -
  have "set (cb_other_commands (foldl batch_add b cs)) \<subseteq> set (cb_other_commands b) \<union> set cs" for b cs
  proof (induction cs arbitrary: b)
    case (Cons c cs)
    then show ?case using others_subset [of b c] Cons [of "batch_add b c"] by auto
  qed simp
  from this [of "batch_add batch_new first" queued] show ?thesis
    using others_subset [of batch_new first] by (auto simp: drain_and_coalesce_def batch_new_def)
qed

lemma turn_keeps:
  assumes "ok e" "Q s" "\<forall>c \<in> set (first # queued). session_command c"
  shows "Q (actor_turn e first queued s)"
proof -
  have d: "Q (refresh_git_dirty_cache e None s)"
    using command [OF assms(1), of RefreshGitDirtyCache s] assms(2) by simp
  have "Q (handle_coalesced_batch e b s)" if "\<forall>c \<in> set (cb_other_commands b). session_command c" for b
    using that assms(1,2) d with_refresh [OF assms(1), of _ "cb_file_actions b" "[]"]
    by (auto simp: handle_coalesced_batch_def Let_def split: prod.split
        intro!: commands refresh changes deletions) (metis snd_conv)+
  then show ?thesis
    using assms command [of e first s] drained_others [of first queued]
    by (auto simp: actor_turn_def)
qed

lemma reach: "reachable ok s \<Longrightarrow> Q s"
  by (induction rule: reachable.induct) (simp_all add: new turn_keeps)

end

lemma index_new: "index_inv X (tracker_new wd mode)" and exact_new: "exact_inv P (tracker_new wd mode)"
  by (simp_all add: index_inv_def exact_inv_def tracker_new_def hunks_at_def file_state_def turn_ids_def)

lemma index_command:
  assumes "session_command c" "index_inv X s"
    and "\<And>i a. c = HunkAction i a \<Longrightarrow> index_inv X (snd (apply_hunk_action e i a s))"
    and "\<And>p a. c = FileAction p a \<Longrightarrow> index_inv X (snd (apply_file_action e p a s))"
    and "\<And>a. c = AllAction a \<Longrightarrow> index_inv X (snd (apply_all_action e a s))"
    and "\<And>n a. c = TurnAction n a \<Longrightarrow> index_inv X (snd (apply_turn_action e n a s))"
  shows "index_inv X (snd (handle_command e c s))"
  using assms
  by (cases c) (auto simp: case_prod_beta refresh_all_baselines_def intro: index_intros index_inv_frame(10))

lemma exact_command:
  assumes "session_command c" "exact_inv {} s" "diff_faithful (hs_diff e)"
    and "distinct (map fst (t_files s))"
  shows "exact_inv {} (snd (handle_command e c s))"
proof -
  have step: "\<forall>s p hs a. exact_inv {} s \<longrightarrow> set hs \<subseteq> set (hunks_at s p)
      \<longrightarrow> exact_inv {} (snd (batch_file e a p hs s))"
    using exact_batch_file assms(3) by blast
  note acts = actions_keep [where Q = "exact_inv {}", OF step assms(2,4)]
  show ?thesis
    using assms(1-3) acts
    by (cases c)
      (auto simp: case_prod_beta refresh_all_baselines_def handle_file_change_def
        intro: exact_write exact_change exact_deleted exact_dirty_cache exact_reset exact_set_mode
          exact_refresh_all exact_inv_frame(10))
qed

interpretation filed: session_invariant "\<lambda>_. True" "index_inv UNIV"
proof
  fix e c s assume a: "session_command c" "index_inv UNIV s"
  have step: "\<forall>s p hs b. index_inv UNIV s \<longrightarrow> set hs \<subseteq> set (hunks_at s p)
      \<longrightarrow> index_inv UNIV (snd (batch_file e b p hs s))"
    using index_UNIV_batch_file by blast
  show "index_inv UNIV (snd (handle_command e c s))"
    by (rule index_command [OF a];
        rule actions_keep [where Q = "index_inv UNIV", OF step a(2) index_invD(1) [OF a(2)]])
qed (auto intro: index_new index_inv_refresh_all index_inv_changes_batch)

interpretation described: session_invariant "\<lambda>e. diff_faithful (hs_diff e)"
  "\<lambda>s. exact_inv {} s \<and> index_inv UNIV s"
  by unfold_locales
    (auto intro: index_new exact_new exact_command index_invD(1) exact_refresh_all exact_changes_batch
      filed.refresh filed.changes filed.command)

interpretation indexed: session_invariant "\<lambda>e. diff_faithful (hs_diff e) \<and> all_ok e"
  "\<lambda>s. exact_inv {} s \<and> index_inv {} s"
proof
  fix e c s
  assume e: "diff_faithful (hs_diff e) \<and> all_ok e" and c: "session_command c"
    and q: "exact_inv {} s \<and> index_inv {} s"
  have step: "\<forall>s p hs a. exact_inv {} s \<and> index_inv {} s \<longrightarrow> set hs \<subseteq> set (hunks_at s p)
      \<longrightarrow> exact_inv {} (snd (batch_file e a p hs s)) \<and> index_inv {} (snd (batch_file e a p hs s))"
    using exact_batch_file index_batch_file e by blast
  have d: "distinct (map fst (t_files s))" using q index_invD(1) by blast
  note acts = actions_keep [where Q = "\<lambda>s. exact_inv {} s \<and> index_inv {} s", OF step q d]
  show "exact_inv {} (snd (handle_command e c s)) \<and> index_inv {} (snd (handle_command e c s))"
    using exact_command [of c s e] index_command [of c "{}" s e] acts c q e d by blast
qed (auto intro: index_new exact_new exact_refresh_all exact_changes_batch
    index_inv_refresh_all index_inv_changes_batch)

subsection \<open>Turns\<close>

lemma all_hunks_at:
  assumes "distinct (map fst (t_files s))"
  shows "set (get_all_hunks s) = (\<Union>p. set (hunks_at s p))"
proof -
  have st: "(p, st) \<in> set (t_files s) \<longleftrightarrow> file_state s p = Some st" for p st
    using assms by (simp add: file_state_def)
  have at_p: "h \<in> set (hunks_at s p) \<longleftrightarrow> (\<exists>st. file_state s p = Some st \<and> h \<in> set (fs_hunks st))" for h p
    by (cases "file_state s p") (simp_all add: hunks_at_def)
  have "h \<in> set (get_all_hunks s) \<longleftrightarrow> (\<exists>p st. (p, st) \<in> set (t_files s) \<and> h \<in> set (fs_hunks st))" for h
    unfolding get_all_hunks_def by (simp add: case_prod_beta) (metis fst_conv snd_conv surj_pair)
  then have "h \<in> set (get_all_hunks s) \<longleftrightarrow> (\<exists>p. h \<in> set (hunks_at s p))" for h
    unfolding st at_p .
  then show ?thesis by blast
qed

lemma get_hunk_Some: "get_hunk s i = Some h \<Longrightarrow> h \<in> set (get_all_hunks s) \<and> h_id h = i"
  by (auto simp: get_hunk_def find_Some_iff)

lemma get_hunk_pending:
  assumes inv: "index_inv X s" and h: "h \<in> set (get_all_hunks s)"
  shows "get_hunk s (h_id h) = Some h"
proof -
  have all: "set (get_all_hunks s) = (\<Union>p. set (hunks_at s p))"
    by (rule all_hunks_at [OF index_invD(1) [OF inv]])
  obtain g where g: "get_hunk s (h_id h) = Some g"
    using h by (cases "get_hunk s (h_id h)") (auto simp: get_hunk_def find_None_iff)
  then have g2: "g \<in> set (get_all_hunks s)" "h_id g = h_id h" using get_hunk_Some by blast+
  obtain p q where pq: "g \<in> set (hunks_at s p)" "h \<in> set (hunks_at s q)" using g2 h all by auto
  then have "p = q" using index_invD(3) [OF inv] g2(2) by blast
  then have "g = h" using index_invD(2) [OF inv, of q] pq g2(2) by (metis distinct_map inj_onD)
  then show ?thesis using g by simp
qed

lemma turn_query_subset:
  assumes "index_inv X s"
  shows "set (get_hunks_for_turn s n)
     \<subseteq> {h \<in> set (get_all_hunks s). source_prompt_index (h_source h) = Some n}"
proof
  fix h assume "h \<in> set (get_hunks_for_turn s n)"
  then obtain i where i: "i \<in> set (turn_ids s n)" "get_hunk s i = Some h"
    by (auto simp: get_hunks_for_turn_def List.map_filter_def)
  then have h: "h \<in> set (get_all_hunks s)" "h_id h = i" using get_hunk_Some by blast+
  then obtain p where "h \<in> set (hunks_at s p)" using all_hunks_at [OF index_invD(1) [OF assms]] by auto
  then have "source_prompt_index (h_source h) = Some n" using index_invD(7) [OF assms] i(1) h(2) by blast
  then show "h \<in> {h \<in> set (get_all_hunks s). source_prompt_index (h_source h) = Some n}" using h(1) by simp
qed

lemma turn_query_distinct: "distinct (turn_ids s n) \<Longrightarrow> distinct (map h_id (get_hunks_for_turn s n))"
proof -
  have "map h_id (List.map_filter (get_hunk s) is) = filter (\<lambda>i. get_hunk s i \<noteq> None) is" for "is"
    using get_hunk_Some by (induction "is") (auto simp: List.map_filter_simps split: option.split)
  then show "distinct (turn_ids s n) \<Longrightarrow> ?thesis" by (simp add: get_hunks_for_turn_def)
qed

text \<open>
  C25. In every state a session reaches without remounts and restores, while its writes succeed and
  the differ is faithful, the query for a turn returns exactly the pending hunks of that turn, each once, though it reads only the index.
\<close>
theorem turn_query_exact:
  assumes "reachable (\<lambda>e. diff_faithful (hs_diff e) \<and> all_ok e) s"
  shows "set (get_hunks_for_turn s n)
       = {h \<in> set (get_all_hunks s). source_prompt_index (h_source h) = Some n}
     \<and> distinct (map h_id (get_hunks_for_turn s n))"
proof -
  have inv: "index_inv {} s" using indexed.reach [OF assms] by simp
  have "h \<in> set (get_hunks_for_turn s n)"
    if h: "h \<in> set (get_all_hunks s)" "source_prompt_index (h_source h) = Some n" for h
  proof -
    obtain p where "h \<in> set (hunks_at s p)" using h all_hunks_at [OF index_invD(1) [OF inv]] by auto
    then have "h_id h \<in> set (turn_ids s n)" using index_invD(8) [OF inv] h(2) by simp
    then show ?thesis using get_hunk_pending [OF inv h(1)]
      by (force simp: get_hunks_for_turn_def List.map_filter_def)
  qed
  then show ?thesis
    using turn_query_subset [OF inv, of n] turn_query_distinct [OF index_invD(5) [OF inv]] by blast
qed

text \<open>
  Whatever the writes and the diff do, no state of a session makes the query for a turn
  return a hunk of another turn or one that is no longer pending.
\<close>
theorem turn_query_sound:
  assumes "reachable (\<lambda>_. True) s"
  shows "set (get_hunks_for_turn s n)
     \<subseteq> {h \<in> set (get_all_hunks s). source_prompt_index (h_source h) = Some n}"
  using turn_query_subset [OF filed.reach [OF assms]] .

text \<open>
  C26. In every state a session reaches without remounts and restores, with a faithful differ and
  failed writes included, a file with pending hunks has a baseline and a current text, which the
  hunks partition when neither text has a carriage return without a line feed, or it is created or
  deleted as a whole by its one hunk.
\<close>
theorem pending_hunks_describe:
  assumes "reachable (\<lambda>e. diff_faithful (hs_diff e)) s" and "file_state s p = Some st"
    and "fs_hunks st \<noteq> []"
  shows "(\<exists>b c. fs_baseline st = Full b \<and> fs_current st = Full c
            \<and> (no_lone_cr b \<longrightarrow> no_lone_cr c \<longrightarrow>
                 hunks_between 0 1 1 (split_inclusive b) (split_inclusive c) (fs_hunks st)))
       \<or> (\<exists>b h. fs_baseline st = Full b \<and> fs_current st = Missing \<and> fs_hunks st = [h] \<and> whole_deletion b h)
       \<or> (\<exists>c h. fs_baseline st = Missing \<and> fs_current st = Full c \<and> fs_hunks st = [h] \<and> whole_creation c h)"
proof -
  have "file_exact st" using described.reach [OF assms(1)] assms(2) by (simp add: exact_inv_def)
  then show ?thesis using assms(3)
    by (cases "fs_baseline st"; cases "fs_current st") (auto simp: file_exact_def)
qed

subsection \<open>Accepting and rejecting a file\<close>

lemma sorted_desc_rev:
  assumes "sorted_wrt (\<lambda>g h. key g < key h) hs"
  shows "sorted_desc key hs = rev hs"
  unfolding sorted_desc_def
proof (rule sort_key_inj_key_eq)
  have lt: "key (hs ! i) < key (hs ! j)" if "i < j" "j < length hs" for i j
    using assms that by (simp add: sorted_wrt_iff_nth_less)
  show "inj_on (\<lambda>h. - int (key h)) (set hs)"
  proof (rule inj_onI)
    fix x y assume a: "x \<in> set hs" "y \<in> set hs" "- int (key x) = - int (key y)"
    then obtain i j where ij: "i < length hs" "j < length hs" "x = hs ! i" "y = hs ! j"
      by (auto simp: in_set_conv_nth)
    then show "x = y" using lt [of i j] lt [of j i] a(3) by (metis linorder_neqE_nat minus_equation_iff
          nat_int nat_less_le minus_minus)
  qed
  have "sorted_wrt (\<lambda>g h. - int (key g) \<le> - int (key h)) (rev hs)"
    using assms by (auto simp: sorted_wrt_rev elim: sorted_wrt_mono_rel [rotated])
  then show "sorted (map (\<lambda>h. - int (key h)) (rev hs))" by (simp add: sorted_wrt_map)
qed simp

lemma describe_exchange:
  assumes "hunks_between 0 1 1 (split_inclusive b) (split_inclusive c) hs"
    and "complete_text b" "complete_text c"
    and "\<exists>l \<in> set (unchanged_lines 1 (split_inclusive b) hs). l \<noteq> [LF]"
  shows "fold exchange (sorted_desc by_old_start hs) b = c"
    and "fold revert (sorted_desc by_new_start hs) c = b"
proof -
  note so = hunks_between_sorted [OF assms(1)]
  have "sorted_desc by_old_start hs = rev hs" "sorted_desc by_new_start hs = rev hs"
    by (rule sorted_desc_rev, use so in \<open>auto simp: by_old_start_def by_new_start_def elim: sorted_wrt_mono_rel [rotated]\<close>)+
  then show "fold exchange (sorted_desc by_old_start hs) b = c" "fold revert (sorted_desc by_new_start hs) c = b"
    using exchange_all [OF assms(2,3,1,4)] by (simp_all add: foldr_conv_fold)
qed

lemma complete_no_lone_cr: "complete_text s \<Longrightarrow> no_lone_cr s"
  by (simp add: complete_text_def no_lone_cr_plain)

lemma without_all [simp]: "without_ids (map h_id hs) hs = []"
  by (simp add: without_ids_def)

lemma reached_between:
  assumes "reachable (\<lambda>e. diff_faithful (hs_diff e)) s" and "file_state s p = Some st"
    and "fs_baseline st = Full b" and "fs_current st = Full c"
    and "complete_text b" "complete_text c" and "fs_hunks st \<noteq> []"
  shows "hunks_between 0 1 1 (split_inclusive b) (split_inclusive c) (fs_hunks st)"
proof -
  have "file_exact st" using described.reach [OF assms(1)] assms(2) by (simp add: exact_inv_def)
  then show ?thesis using assms(3-) complete_no_lone_cr by (auto simp: file_exact_def)
qed

text \<open>
  Accepting all hunks of a file, in any state of a session, makes the current content the
  baseline and leaves no hunk and no file touched; the reply lists the hunks. Both texts have
  complete lines, and a line that is not blank is common to them.
\<close>
theorem accept_file_settles:
  assumes "reachable (\<lambda>e. diff_faithful (hs_diff e)) s" and "file_state s p = Some st"
    and "fs_baseline st = Full b" and "fs_current st = Full c"
    and "complete_text b" and "complete_text c" and "fs_hunks st \<noteq> []"
    and "\<exists>l \<in> set (unchanged_lines 1 (split_inclusive b) (fs_hunks st)). l \<noteq> [LF]"
  shows "fst (apply_file_action e p AcceptHunk s) = Inr (map h_id (fs_hunks st))
     \<and> file_state (snd (apply_file_action e p AcceptHunk s)) p
         = Some (st\<lparr>fs_baseline := Full c, fs_hunks := [], fs_baseline_accepted := True\<rparr>)
     \<and> t_disk (snd (apply_file_action e p AcceptHunk s)) = t_disk s"
proof -
  have x: "fold exchange (sorted_desc by_old_start (fs_hunks st)) b = c"
    using describe_exchange(1) [OF reached_between [OF assms(1-7)] assms(5,6,8)] .
  define s1 where "s1 = note_actions AcceptHunk (fs_hunks st) s"
  have s1: "file_state s1 p = Some st" "t_disk s1 = t_disk s"
    using assms(2) by (simp_all add: s1_def tracker_simps)
  have d: "t_disk (recompute_hunks e p nc src s') = t_disk s'" for nc src s'
    by (simp add: recompute_hunks_def Let_def tracker_simps split: option.split)
  show ?thesis
    using assms(2-4,7) s1 x
    by (simp add: apply_file_action_def batch_file_def s1_def [symmetric] accept_hunks_batch_def Let_def
        recompute_file_state tracker_simps compute_hunks_def d)
qed

text \<open>
  C27. Rejecting all hunks of a file, in any state a session reaches without remounts and restores,
  writes the baseline back to the disk and leaves a clean file: both texts are nonempty and of complete
  lines without carriage returns, some line outside the hunks is not blank, and the write succeeds.
\<close>
theorem reject_file_restores:
  assumes "reachable (\<lambda>e. diff_faithful (hs_diff e)) s" and "file_state s p = Some st"
    and "fs_baseline st = Full b" and "fs_current st = Full c"
    and "complete_text b" and "complete_text c" and "fs_hunks st \<noteq> []"
    and "\<exists>l \<in> set (unchanged_lines 1 (split_inclusive b) (fs_hunks st)). l \<noteq> [LF]"
    and "hs_write_ok e p"
  shows "fst (apply_file_action e p RejectHunk s) = Inr (map h_id (fs_hunks st))
     \<and> file_state (snd (apply_file_action e p RejectHunk s)) p
         = Some (st\<lparr>fs_current := Full b, fs_hunks := []\<rparr>)
     \<and> t_disk (snd (apply_file_action e p RejectHunk s)) = t_disk s @ [DiskWrite p b]"
proof -
  have x: "fold revert (sorted_desc by_new_start (fs_hunks st)) c = b"
    using describe_exchange(2) [OF reached_between [OF assms(1-7)] assms(5,6,8)] .
  define s1 where "s1 = note_actions RejectHunk (fs_hunks st) s"
  have s1: "file_state s1 p = Some st" "t_disk s1 = t_disk s"
    using assms(2) by (simp_all add: s1_def tracker_simps)
  have d: "t_disk (recompute_hunks e p nc src s') = t_disk s'" for nc src s'
    by (simp add: recompute_hunks_def Let_def tracker_simps split: option.split)
  have f: "file_state (s'\<lparr>t_disk := k\<rparr>) = file_state s'" for s' :: tracker and k
    by (rule ext) (simp add: file_state_def)
  show ?thesis
    using assms(2-4,7,9) s1 x
    by (simp add: apply_file_action_def batch_file_def s1_def [symmetric] reject_hunks_batch_def Let_def
        write_file_def recompute_file_state tracker_simps compute_hunks_def d f)
qed

subsection \<open>Failing writes\<close>

text \<open>
  An action on a hunk that fails changes no tracked file, writes nothing and sends no event;
  the error is that of an unknown identifier, or of the write or the removal that failed.
\<close>
theorem action_error_keeps_files:
  assumes "fst (apply_hunk_action e i a s) = Inl err"
  shows "t_files (snd (apply_hunk_action e i a s)) = t_files s
     \<and> t_disk (snd (apply_hunk_action e i a s)) = t_disk s
     \<and> t_events (snd (apply_hunk_action e i a s)) = t_events s
     \<and> (err = HunkNotFound i \<and> find_hunk s i = None
        \<or> a = RejectHunk \<and> (\<exists>p. err = WriteError p \<and> \<not> hs_write_ok e p
                            \<or> err = DeleteError p \<and> \<not> hs_remove_ok e p))"
proof (cases "find_hunk s i")
  case None
  then show ?thesis using assms by (simp add: apply_hunk_action_def)
next
  case (Some ph)
  obtain p h where ph: "ph = (p, h)" by (cases ph)
  have a: "a = RejectHunk" using assms Some ph by (cases a) (auto simp: apply_hunk_action_def Let_def)
  define s1 where "s1 = note_action RejectHunk h s"
  have s1: "t_files s1 = t_files s" "t_disk s1 = t_disk s" "t_events s1 = t_events s"
    by (simp_all add: s1_def note_action_def remove_from_turn_index_def update_session_stats_def Let_def
        split: option.split)
  have act: "apply_hunk_action e i a s = reject_hunk e p h s1"
    using Some ph a by (simp add: apply_hunk_action_def s1_def)
  have "snd (reject_hunk e p h s1) = s1
      \<and> (err = WriteError p \<and> \<not> hs_write_ok e p \<or> err = DeleteError p \<and> \<not> hs_remove_ok e p)"
    using assms unfolding act
    by (auto simp: reject_hunk_def write_file_def remove_file_def Let_def
        split: option.splits reject_plan.splits if_splits)
  then show ?thesis using act s1 a by auto
qed

text \<open>
  The error leaves its mark elsewhere: the counters and the turn index were updated before the
  write, so the hunk is still pending but the query for its turn no longer returns it.
\<close>
lemma failed_reject_forgets_turn:
  assumes "find_hunk s i = Some (p, h)" and "source_prompt_index (h_source h) = Some n"
    and "file_state s p = Some st" and "fs_baseline st = Full b" and "fs_current st = Full c"
    and "\<not> hs_write_ok e p"
  defines "s' \<equiv> snd (apply_hunk_action e i RejectHunk s)"
  shows "get_all_hunks s' = get_all_hunks s \<and> h_id h \<notin> set (turn_ids s' n)
     \<and> t_stats s' = t_stats (update_session_stats (h_line_info h) False s)"
proof -
  have "s' = note_action RejectHunk h s"
    using assms by (simp add: s'_def apply_hunk_action_def reject_hunk_def write_file_def Let_def tracker_simps)
  moreover have "t_stats (note_action RejectHunk h s) = t_stats (update_session_stats (h_line_info h) False s)"
    by (simp add: note_action_def remove_from_turn_index_def split: option.split)
  ultimately show ?thesis
    using assms(2) by (simp add: get_all_hunks_def turn_ids_note tracker_simps)
qed

subsection \<open>A session\<close>

text \<open>One agent write to a file, and the states it gives.\<close>

definition demo_host :: host where
  "demo_host = \<lparr>hs_diff = prefix_diff, hs_file = \<lambda>_. None, hs_exists = \<lambda>_. True, hs_is_dir = \<lambda>_. False,
     hs_write_ok = \<lambda>_. True, hs_remove_ok = \<lambda>_. True, hs_canonicalize = \<lambda>_. None,
     hs_discover = \<lambda>_. None, hs_tree = \<lambda>_. None, hs_index_len = None, hs_status = \<lambda>_. None,
     hs_head_oid = None, hs_index_mtime = None\<rparr>"

definition demo_old :: string where "demo_old = [CHR ''a'', LF, CHR ''b'', LF]"
definition demo_new :: string where "demo_new = [CHR ''a'', LF, CHR ''c'', LF]"

definition demo_write :: hunk_command where
  "demo_write = RecordAgentWrite ''/w/f'' demo_new 7 (Some demo_old)"

definition demo_state :: tracker where
  "demo_state = actor_turn demo_host demo_write [] (tracker_new ''/w'' AgentOnly)"

definition demo_hunk :: hunk where
  "demo_hunk = \<lparr>h_id = 0, h_path = ''/w/f'',
     h_line_info = \<lparr>old_start = 2, old_count = 1, new_start = 2, new_count = 1\<rparr>,
     h_source = AgentEdit 7, h_old_text = Some [CHR ''b'', LF], h_new_text = [CHR ''c'', LF],
     h_patch = None, h_selected = False\<rparr>"

definition demo_file :: file_hunk_state where
  "demo_file = \<lparr>fs_baseline = Full demo_old, fs_current = Full demo_new, fs_hunks = [demo_hunk],
     fs_is_agent_file = True, fs_baseline_accepted = False\<rparr>"

lemma demo_classify: "classify_string demo_old = Full demo_old" "classify_string demo_new = Full demo_new"
  by (simp_all add: classify_string_def demo_old_def demo_new_def MAX_TRACKED_TEXT_BYTES_def
      is_lfs_pointer_def LFS_POINTER_PREFIX_def starts_with_def is_binary_def LF_def)

lemma demo_compute:
  "compute_hunks prefix_diff 0 ''/w/f'' demo_old demo_new (AgentEdit 7) = [demo_hunk]"
  by (simp add: compute_hunks_def demo_old_def demo_new_def MAX_DIFF_FILE_SIZE_def prefix_diff_def LF_def
      builder_new_def add_old_line_def add_new_line_def builder_build_def demo_hunk_def)

lemma demo_hunk_sel: "h_id demo_hunk = 0" "h_source demo_hunk = AgentEdit 7" "h_path demo_hunk = ''/w/f''"
  by (simp_all add: demo_hunk_def)

lemma demo_states:
  "file_state demo_state ''/w/f'' = Some demo_file" "t_turns demo_state = [(7, [0])]"
  "t_files demo_state = [(''/w/f'', demo_file)]"
  by (simp_all add: demo_state_def demo_write_def actor_turn_def record_agent_write_def demo_classify
      tracker_new_def file_state_def read_baseline_def open_or_discover_def demo_host_def
      note_discovery_def put_file_def new_file_state_def send_event_def recompute_hunks_def
      demo_compute demo_file_def find_matching_old_hunk_def missing_content_def send_events_def
      index_hunks_def unindex_hunks_def add_to_turn_index_def turn_ids_def Let_def demo_hunk_sel)

lemma demo_reachable:
  assumes "ok demo_host"
  shows "reachable ok demo_state"
  unfolding demo_state_def
  by (rule reachable.turn, rule reachable.start, rule assms) (simp add: demo_write_def)

lemma demo_faithful: "diff_faithful (hs_diff demo_host)" and demo_all_ok: "all_ok demo_host"
  by (simp_all add: demo_host_def prefix_diff_faithful all_ok_def)

lemma demo_texts: "complete_text demo_old" "complete_text demo_new"
  by (simp_all add: demo_old_def demo_new_def complete_text_def LF_def CR_def)

lemma demo_unchanged:
  "\<exists>l \<in> set (unchanged_lines 1 (split_inclusive demo_old) (fs_hunks demo_file)). l \<noteq> [LF]"
  by (simp add: demo_file_def demo_hunk_def demo_old_def LF_def)

lemma demo_file_sel: "fs_baseline demo_file = Full demo_old" "fs_current demo_file = Full demo_new"
  "fs_hunks demo_file = [demo_hunk]"
  by (simp_all add: demo_file_def)

lemma demo_all: "get_all_hunks demo_state = [demo_hunk]"
  by (simp add: get_all_hunks_def demo_states demo_file_sel)

theorem turn_query_exact_witness:
  "demo_hunk \<in> set (get_hunks_for_turn demo_state 7) \<and> set (get_hunks_for_turn demo_state 7) \<subseteq> {demo_hunk}"
proof -
  have "set (get_hunks_for_turn demo_state 7)
      = {h \<in> set (get_all_hunks demo_state). source_prompt_index (h_source h) = Some 7}"
    by (rule turn_query_exact [THEN conjunct1], rule demo_reachable) (simp add: demo_faithful demo_all_ok)
  then show ?thesis unfolding demo_all using demo_hunk_sel(2) by auto
qed

theorem turn_query_sound_witness: "set (get_hunks_for_turn demo_state 7) \<subseteq> {demo_hunk}"
proof -
  have "set (get_hunks_for_turn demo_state 7)
      \<subseteq> {h \<in> set (get_all_hunks demo_state). source_prompt_index (h_source h) = Some 7}"
    by (rule turn_query_sound, rule demo_reachable) simp
  then show ?thesis unfolding demo_all by auto
qed

theorem pending_hunks_describe_witness:
  "hunks_between 0 1 1 (split_inclusive demo_old) (split_inclusive demo_new) [demo_hunk]"
  using pending_hunks_describe [of demo_state "''/w/f''" demo_file, OF demo_reachable]
    demo_faithful demo_states(1) demo_file_sel demo_texts complete_no_lone_cr
  by simp

theorem accept_file_settles_witness:
  "file_state (snd (apply_file_action demo_host ''/w/f'' AcceptHunk demo_state)) ''/w/f''
     = Some (demo_file\<lparr>fs_baseline := Full demo_new, fs_hunks := [], fs_baseline_accepted := True\<rparr>)"
  using accept_file_settles [OF demo_reachable demo_states(1) demo_file_sel(1,2) demo_texts _ demo_unchanged,
      of demo_host] demo_faithful
  by (simp add: demo_file_sel)

theorem reject_file_restores_witness:
  "t_disk (snd (apply_file_action demo_host ''/w/f'' RejectHunk demo_state))
     = t_disk demo_state @ [DiskWrite ''/w/f'' demo_old]"
  using reject_file_restores [OF demo_reachable demo_states(1) demo_file_sel(1,2) demo_texts _ demo_unchanged,
      of demo_host] demo_faithful demo_all_ok
  by (simp add: demo_file_sel all_ok_def)

theorem action_error_keeps_files_witness:
  "t_files (snd (apply_hunk_action (demo_host\<lparr>hs_write_ok := \<lambda>_. False\<rparr>) 0 RejectHunk demo_state))
     = t_files demo_state"
proof -
  have f: "find_hunk demo_state 0 = Some (''/w/f'', demo_hunk)"
    by (simp add: find_hunk_def demo_states demo_file_sel demo_hunk_sel List.map_filter_def)
  have "fst (apply_hunk_action (demo_host\<lparr>hs_write_ok := \<lambda>_. False\<rparr>) 0 RejectHunk demo_state)
      = Inl (WriteError ''/w/f'')"
    using f by (simp add: apply_hunk_action_def reject_hunk_def tracker_simps demo_states demo_file_sel
        write_file_def Let_def)
  then show ?thesis by (rule action_error_keeps_files [THEN conjunct1])
qed

end
