(* ===== verification/GB_HunkLoc.thy ===== *)
theory GB_HunkLoc
  imports GB_HunkState
begin

section \<open>Lines of code by author (xai-hunk-tracker/src/loc/mod.rs)\<close>

text \<open>
  The sink that turns the tracker's events into attribution records. Records are what the sink
  hands to its writer, in order; a write that fails is only logged. Counts are far below the
  range of \<open>i64\<close> and are integers here; timestamps are left out.
\<close>

datatype author_type = Agent | Human

datatype source_type = SrcAgentEdit | SrcExternalEditOnAgentFile | SrcExternal

datatype event_type = EvAdded | EvUpdated | EvRemoved

record hunk_record =
  hr_hunk_id :: hunk_id
  hr_file_path :: path
  hr_hunk_start :: nat
  hr_hunk_end :: nat
  hr_lines_added :: int
  hr_lines_removed :: int
  hr_author_type :: "author_type option"
  hr_author_id :: "string option"
  hr_agent_id :: string
  hr_session_id :: string
  hr_prompt_index :: "nat option"
  hr_source_type :: "source_type option"
  hr_event_type :: event_type
  hr_removal_reason :: "hunk_removal_reason option"

record loc_context =
  lc_session_id :: string
  lc_agent_id :: string
  lc_user_id :: "string option"
  lc_has_aggregates :: bool

text \<open>Author, author id, prompt and source type of a source.\<close>

fun attribution ::
    "loc_context \<Rightarrow> hunk_source \<Rightarrow> author_type \<times> string option \<times> nat option \<times> source_type" where
  "attribution ctx (AgentEdit n) = (Agent, Some (lc_agent_id ctx), Some n, SrcAgentEdit)"
| "attribution ctx ExternalEditOnAgentFile = (Human, lc_user_id ctx, None, SrcExternalEditOnAgentFile)"
| "attribution ctx External = (Human, lc_user_id ctx, None, SrcExternal)"

definition from_hunk :: "hunk \<Rightarrow> loc_context \<Rightarrow> event_type \<Rightarrow> hunk_source \<Rightarrow> hunk_record" where
  "from_hunk h ctx ev source =
     (let (author, author_id, prompt, source_type) = attribution ctx source;
          li = h_line_info h;
          (start, count) = (if new_count li = 0 then (old_start li, old_count li)
                            else (new_start li, new_count li))
      in \<lparr>hr_hunk_id = h_id h, hr_file_path = h_path h, hr_hunk_start = start,
          hr_hunk_end = (if count = 0 then start else start + count - 1),
          hr_lines_added = int (new_count li), hr_lines_removed = int (old_count li),
          hr_author_type = Some author, hr_author_id = author_id,
          hr_agent_id = lc_agent_id ctx, hr_session_id = lc_session_id ctx,
          hr_prompt_index = prompt, hr_source_type = Some source_type, hr_event_type = ev,
          hr_removal_reason = None\<rparr>)"

datatype loc_aggregate =
    LinesChanged author_type int int path
  | LinesReverted int int

record loc_sink =
  lk_acc :: "(hunk_id \<times> (int \<times> int)) list"
  lk_records :: "hunk_record list"
  lk_aggregates :: "loc_aggregate list"

definition sink_new :: loc_sink where
  "sink_new = \<lparr>lk_acc = [], lk_records = [], lk_aggregates = []\<rparr>"

definition acc_of :: "loc_sink \<Rightarrow> hunk_id \<Rightarrow> int \<times> int" where
  "acc_of k i = (case map_of (lk_acc k) i of Some v \<Rightarrow> v | None \<Rightarrow> (0, 0))"

text \<open>A record of lines: accumulated, sent to the bridge if there is one, and written.\<close>

definition note_lines :: "loc_context \<Rightarrow> author_type \<Rightarrow> hunk_record \<Rightarrow> loc_sink \<Rightarrow> loc_sink" where
  "note_lines ctx default_author r k =
     (let (a, d) = acc_of k (hr_hunk_id r);
          author = (case hr_author_type r of Some t \<Rightarrow> t | None \<Rightarrow> default_author)
      in \<lparr>lk_acc = AList.update (hr_hunk_id r) (a + hr_lines_added r, d + hr_lines_removed r) (lk_acc k),
          lk_records = lk_records k @ [r],
          lk_aggregates = lk_aggregates k
            @ (if lc_has_aggregates ctx
               then [LinesChanged author (hr_lines_added r) (hr_lines_removed r) (hr_file_path r)]
               else [])\<rparr>)"

definition removal_record :: "loc_context \<Rightarrow> path \<Rightarrow> hunk_id \<Rightarrow> hunk_removal_reason \<Rightarrow> int \<Rightarrow> int \<Rightarrow> hunk_record" where
  "removal_record ctx p i reason added removed =
     \<lparr>hr_hunk_id = i, hr_file_path = p, hr_hunk_start = 0, hr_hunk_end = 0,
      hr_lines_added = - added, hr_lines_removed = - removed, hr_author_type = None,
      hr_author_id = None, hr_agent_id = lc_agent_id ctx, hr_session_id = lc_session_id ctx,
      hr_prompt_index = None, hr_source_type = None, hr_event_type = EvRemoved,
      hr_removal_reason = Some reason\<rparr>"

fun handle_event :: "loc_context \<Rightarrow> loc_sink \<Rightarrow> hunk_event \<Rightarrow> loc_sink" where
  "handle_event ctx k (HunkAdded p h) = note_lines ctx Agent (from_hunk h ctx EvAdded (h_source h)) k"
| "handle_event ctx k (HunkContentChanged p h trigger prev_added prev_removed) =
     note_lines ctx Human
       ((from_hunk h ctx EvUpdated trigger)
          \<lparr>hr_lines_added := int (new_count (h_line_info h)) - int prev_added,
           hr_lines_removed := int (old_count (h_line_info h)) - int prev_removed\<rparr>) k"
| "handle_event ctx k (HunkRemoved p i reason) =
     (if reason = Accepted then k\<lparr>lk_acc := AList.delete i (lk_acc k)\<rparr>
      else
        case map_of (lk_acc k) i of
          None \<Rightarrow> k\<lparr>lk_acc := AList.delete i (lk_acc k)\<rparr>
        | Some (added, removed) \<Rightarrow>
            let k1 = k\<lparr>lk_acc := AList.delete i (lk_acc k)\<rparr>
            in if added \<noteq> 0 \<or> removed \<noteq> 0 then
                 k1\<lparr>lk_aggregates := lk_aggregates k1
                      @ (if lc_has_aggregates ctx
                         then [LinesReverted (max added 0) (max removed 0)] else []),
                    lk_records := lk_records k1 @ [removal_record ctx p i reason added removed]\<rparr>
               else k1)"
| "handle_event ctx k _ = k"

definition run_loc_sink :: "loc_context \<Rightarrow> hunk_event list \<Rightarrow> loc_sink" where
  "run_loc_sink ctx events = foldl (handle_event ctx) sink_new events"

subsection \<open>What the records add up to\<close>

text \<open>
  The lines of a hunk by its events alone: those pending, and those kept by an accept. An
  event on another hunk changes nothing.
\<close>

definition add2 :: "int \<times> int \<Rightarrow> int \<times> int \<Rightarrow> int \<times> int" where
  "add2 x y = (fst x + fst y, snd x + snd y)"

fun lines_step :: "hunk_id \<Rightarrow> (int \<times> int) \<times> (int \<times> int) \<Rightarrow> hunk_event \<Rightarrow> (int \<times> int) \<times> (int \<times> int)" where
  "lines_step i (kept, pend) (HunkAdded p h) =
     (kept, if h_id h = i then add2 pend (int (new_count (h_line_info h)), int (old_count (h_line_info h)))
            else pend)"
| "lines_step i (kept, pend) (HunkContentChanged p h trigger prev_added prev_removed) =
     (kept, if h_id h = i
            then add2 pend (int (new_count (h_line_info h)) - int prev_added,
                         int (old_count (h_line_info h)) - int prev_removed)
            else pend)"
| "lines_step i (kept, pend) (HunkRemoved p j reason) =
     (if j = i then (if reason = Accepted then add2 kept pend else kept, (0, 0)) else (kept, pend))"
| "lines_step i acc _ = acc"

definition hunk_lines :: "hunk_id \<Rightarrow> hunk_event list \<Rightarrow> (int \<times> int) \<times> (int \<times> int)" where
  "hunk_lines i events = foldl (lines_step i) ((0, 0), (0, 0)) events"

definition records_sum :: "hunk_id \<Rightarrow> hunk_record list \<Rightarrow> int \<times> int" where
  "records_sum i rs =
     (sum_list (map hr_lines_added (filter (\<lambda>r. hr_hunk_id r = i) rs)),
      sum_list (map hr_lines_removed (filter (\<lambda>r. hr_hunk_id r = i) rs)))"

lemma from_hunk_sel [simp]:
  "hr_hunk_id (from_hunk h ctx ev src) = h_id h"
  "hr_lines_added (from_hunk h ctx ev src) = int (new_count (h_line_info h))"
  "hr_lines_removed (from_hunk h ctx ev src) = int (old_count (h_line_info h))"
  by (simp_all add: from_hunk_def Let_def case_prod_beta)

lemma sink_step:
  assumes "records_sum i (lk_records k) = add2 (fst v) (snd v)" "acc_of k i = snd v"
  shows "records_sum i (lk_records (handle_event ctx k ev)) = add2 (fst (lines_step i v ev)) (snd (lines_step i v ev))
    \<and> acc_of (handle_event ctx k ev) i = snd (lines_step i v ev)"
proof -
  obtain a b c d where v: "v = ((a, b), (c, d))" by (metis surj_pair)
  have rs: "records_sum i (lk_records k) = (a + c, b + d)" and ac: "acc_of k i = (c, d)"
    using assms v by (simp_all add: add2_def)
  have lines: "records_sum i (lk_records (note_lines ctx t r k))
        = (if hr_hunk_id r = i then (a + c + hr_lines_added r, b + d + hr_lines_removed r) else (a + c, b + d))
      \<and> acc_of (note_lines ctx t r k) i
        = (if hr_hunk_id r = i then (c + hr_lines_added r, d + hr_lines_removed r) else (c, d))" for t r
    using rs ac
    by (auto simp: note_lines_def records_sum_def acc_of_def update_conv' Let_def split: prod.splits)
  show ?thesis
  proof (cases ev)
    case (HunkRemoved p j reason)
    show ?thesis
      using assms HunkRemoved v
      by (cases "map_of (lk_acc k) j")
        (auto simp: acc_of_def records_sum_def delete_conv' removal_record_def Let_def add2_def)
  qed (use lines assms v in \<open>auto simp: add2_def\<close>)
qed

lemma sink_run:
  "records_sum i (lk_records (run_loc_sink ctx events)) = add2 (fst (hunk_lines i events)) (snd (hunk_lines i events))
    \<and> acc_of (run_loc_sink ctx events) i = snd (hunk_lines i events)"
proof (induction events rule: rev_induct)
  case Nil
  show ?case
    by (simp add: run_loc_sink_def hunk_lines_def sink_new_def records_sum_def acc_of_def add2_def)
next
  case (snoc ev events)
  then show ?case
    using sink_step [of i "run_loc_sink ctx events" "hunk_lines i events" ctx ev]
    by (simp add: run_loc_sink_def hunk_lines_def)
qed

text \<open>
  Over any stream of events the records of a hunk add up to the lines kept by its accepts
  plus those still pending: a rejected or superseded hunk leaves nothing, an accepted one leaves
  its lines.
\<close>
theorem loc_records_sum:
  "records_sum i (lk_records (run_loc_sink ctx events))
     = add2 (fst (hunk_lines i events)) (snd (hunk_lines i events))"
  using sink_run by blast

end
