(* ===== verification/GB_Rules.thy ===== *)
theory GB_Rules
  imports GB_ShellAccess
begin

section \<open>Rules as text (permission/rules.rs, the policy types of permission/types.rs)\<close>

text \<open>
  The parser of permission rules: the text \<open>Tool(content)\<close> with backslash escapes, a bare tool
  name, or the \<open>mcp__server__tool\<close> spelling, and the recognized values of
  \<open>permissions.defaultMode\<close>. Byte positions are list positions of the UTF-8 text.
\<close>

subsection \<open>Default modes\<close>

datatype prompt_policy = PromptAsk | PromptDeny | PromptAuto | PromptAllow

datatype default_permission_mode =
  ModeDefault | ModeAcceptEdits | ModePlan | ModeAuto | ModeDontAsk | ModeBypassPermissions

definition default_mode_from_str :: "string \<Rightarrow> string + default_permission_mode" where
  "default_mode_from_str s =
     (if s = ''default'' then Inr ModeDefault
      else if s = ''acceptEdits'' then Inr ModeAcceptEdits
      else if s = ''plan'' then Inr ModePlan
      else if s = ''auto'' then Inr ModeAuto
      else if s = ''dontAsk'' then Inr ModeDontAsk
      else if s = ''bypassPermissions'' then Inr ModeBypassPermissions
      else Inl s)"

record default_mode_effects =
  dme_prompt_policy :: prompt_policy
  dme_accept_edits :: bool
  dme_bypass_permissions :: bool

definition no_effects :: default_mode_effects where
  "no_effects = \<lparr>dme_prompt_policy = PromptAsk, dme_accept_edits = False,
                 dme_bypass_permissions = False\<rparr>"

fun default_mode_effects_of :: "default_permission_mode \<Rightarrow> default_mode_effects" where
  "default_mode_effects_of ModeAcceptEdits = no_effects\<lparr>dme_accept_edits := True\<rparr>"
| "default_mode_effects_of ModeBypassPermissions = no_effects\<lparr>dme_bypass_permissions := True\<rparr>"
| "default_mode_effects_of ModeDefault = no_effects"
| "default_mode_effects_of ModePlan = no_effects"
| "default_mode_effects_of ModeDontAsk = no_effects\<lparr>dme_prompt_policy := PromptDeny\<rparr>"
| "default_mode_effects_of ModeAuto = no_effects\<lparr>dme_prompt_policy := PromptAuto\<rparr>"

subsection \<open>Escapes\<close>

datatype rule_parse_error =
  UnsupportedToolPrefix string | UnknownToolPrefix string | MalformedRule string

definition rule_error_text :: "rule_parse_error \<Rightarrow> string" where
  "rule_error_text e =
     (case e of
        UnsupportedToolPrefix p \<Rightarrow> ''unsupported tool prefix: '' @ p
      | UnknownToolPrefix p \<Rightarrow> ''unknown tool prefix: '' @ p
      | MalformedRule d \<Rightarrow> ''malformed rule: '' @ d)"

fun count_backslashes :: "string \<Rightarrow> nat \<Rightarrow> nat" where
  "count_backslashes s 0 = 0"
| "count_backslashes s (Suc j) = (if s ! j = backslash then Suc (count_backslashes s j) else 0)"

definition is_unescaped :: "string \<Rightarrow> nat \<Rightarrow> bool" where
  "is_unescaped s pos \<longleftrightarrow> even (count_backslashes s pos)"

definition find_first_unescaped :: "string \<Rightarrow> char \<Rightarrow> nat option" where
  "find_first_unescaped s t = find (\<lambda>i. s ! i = t \<and> is_unescaped s i) [0..<length s]"

definition find_last_unescaped :: "string \<Rightarrow> char \<Rightarrow> nat option" where
  "find_last_unescaped s t = find (\<lambda>i. s ! i = t \<and> is_unescaped s i) (rev [0..<length s])"

text \<open>\<open>s.replace(pat, to)\<close> for a pattern of the two bytes \<open>a\<close> and \<open>b\<close>.\<close>

fun replace_pair :: "char \<Rightarrow> char \<Rightarrow> string \<Rightarrow> string \<Rightarrow> string" where
  "replace_pair a b to (x # y # r) =
     (if x = a \<and> y = b then to @ replace_pair a b to r else x # replace_pair a b to (y # r))"
| "replace_pair a b to r = r"

definition unescape_rule_content :: "string \<Rightarrow> string" where
  "unescape_rule_content s =
     (if \<not> contains_char s backslash then s
      else replace_pair backslash backslash [backslash]
             (replace_pair backslash (CHR '')'') '')''
                (replace_pair backslash (CHR ''('') ''('' s)))"

definition strip_domain_prefix :: "string \<Rightarrow> string \<times> pattern_mode" where
  "strip_domain_prefix p =
     (case strip_prefix p ''domain:'' of Some d \<Rightarrow> (d, DomainMode) | None \<Rightarrow> (p, GlobMode))"

definition strip_bash_colon_wildcard :: "string \<Rightarrow> string" where
  "strip_bash_colon_wildcard p = (case strip_suffix p '':*'' of Some q \<Rightarrow> q | None \<Rightarrow> p)"

subsection \<open>The parser\<close>

definition tool_name_to_filter :: "string \<Rightarrow> tool_filter option" where
  "tool_name_to_filter name =
     (if name = ''Bash'' then Some ToolBash
      else if name = ''Read'' then Some ToolRead
      else if name = ''Edit'' \<or> name = ''Write'' then Some ToolEdit
      else if name = ''MCPTool'' then Some ToolMcp
      else if name = ''Grep'' \<or> name = ''Glob'' then Some ToolGrep
      else if name = ''WebFetch'' then Some ToolWebFetch
      else if name = ''WebSearch'' then Some ToolWebSearch
      else if name = ''AgentMessage'' \<or> name = ''SendSubagentMessage''
                \<or> name = ''SendAgentMessage'' then Some ToolAgentMessage
      else None)"

definition unsupported_prefix :: "string \<Rightarrow> bool" where
  "unsupported_prefix s \<longleftrightarrow> s \<in> {''EnterWorktree'', ''NotebookEdit'', ''NotebookRead''}"

definition string_to_option :: "string \<Rightarrow> string option" where
  "string_to_option s = (if s = [] then None else Some s)"

text \<open>The arm of a rule with an opening parenthesis at \<open>open_paren\<close>.\<close>

definition parse_tool_rule ::
  "string \<Rightarrow> nat \<Rightarrow> rule_action \<Rightarrow> rule_parse_error + permission_rule" where
  "parse_tool_rule rule open_paren action =
     (let prefix_trimmed = trim (take open_paren rule);
          content_and_close = drop (open_paren + 1) rule
      in case find_last_unescaped content_and_close (CHR '')'') of
           None \<Rightarrow> Inl (MalformedRule ''missing closing parenthesis'')
         | Some close_paren \<Rightarrow>
             (let raw_content = trim (take close_paren content_and_close);
                  pattern = (if raw_content = [] \<or> raw_content = ''*'' then []
                             else unescape_rule_content raw_content)
              in case tool_name_to_filter prefix_trimmed of
                   None \<Rightarrow>
                     Inl (if unsupported_prefix prefix_trimmed
                          then UnsupportedToolPrefix prefix_trimmed
                          else UnknownToolPrefix prefix_trimmed)
                 | Some tool \<Rightarrow>
                     (let pattern = (if tool = ToolBash then strip_bash_colon_wildcard pattern
                                     else pattern);
                          (pattern, pattern_mode) = strip_domain_prefix pattern
                      in Inr \<lparr>pr_action = action, pr_tool = tool,
                              pr_pattern = string_to_option pattern,
                              pr_pattern_mode = pattern_mode\<rparr>)))"

text \<open>The pattern of \<open>mcp__rest\<close>.\<close>

definition mcp_rule_pattern :: "string \<Rightarrow> string option" where
  "mcp_rule_pattern rest =
     (if rest = ''*'' then None
      else if contains_str rest ''__'' then Some rest
      else Some (rest @ ''__*''))"

definition parse_bare_rule :: "string \<Rightarrow> rule_action \<Rightarrow> rule_parse_error + permission_rule" where
  "parse_bare_rule rule action =
     (if unsupported_prefix rule then Inl (UnsupportedToolPrefix rule)
      else let result = (\<lambda>tool pattern.
             Inr \<lparr>pr_action = action, pr_tool = tool, pr_pattern = pattern,
                  pr_pattern_mode = GlobMode\<rparr>)
      in case tool_name_to_filter rule of
           Some tool \<Rightarrow> result tool None
         | None \<Rightarrow>
             (case strip_prefix rule ''mcp__'' of
                Some rest \<Rightarrow>
                  if rest \<noteq> [] then result ToolMcp (mcp_rule_pattern rest)
                  else result ToolAny (string_to_option rule)
              | None \<Rightarrow> result ToolAny (string_to_option rule)))"

definition parse_permission_rule ::
  "string \<Rightarrow> rule_action \<Rightarrow> rule_parse_error + permission_rule" where
  "parse_permission_rule rule0 action =
     (let rule = trim rule0
      in case find_first_unescaped rule (CHR ''('') of
           Some open_paren \<Rightarrow> parse_tool_rule rule open_paren action
         | None \<Rightarrow> parse_bare_rule rule action)"

section \<open>Properties of the parser\<close>

subsection \<open>Escaping and its inverse\<close>

text \<open>
  The spelling the parser undoes: a backslash before every parenthesis and every backslash. The
  stages of the inverse drop one escaped byte after the other.
\<close>

definition escape_in :: "char set \<Rightarrow> string \<Rightarrow> string" where
  "escape_in K s = concat (map (\<lambda>c. if c \<in> K then [backslash, c] else [c]) s)"

abbreviation escape_rule_content :: "string \<Rightarrow> string" where
  "escape_rule_content s \<equiv> escape_in {backslash, CHR ''('', CHR '')''} s"

lemma escape_in_simps [simp]:
  "escape_in K [] = []"
  "escape_in K (c # s) = (if c \<in> K then backslash # c # escape_in K s else c # escape_in K s)"
  "escape_in K (s @ t) = escape_in K s @ escape_in K t"
  by (simp_all add: escape_in_def)

lemma escape_in_head: "p \<in> K \<Longrightarrow> p \<noteq> backslash \<Longrightarrow> escape_in K s \<noteq> p # t"
  by (cases s) auto

lemma replace_pair_skip: "x \<noteq> a \<Longrightarrow> replace_pair a b to (x # r) = x # replace_pair a b to r"
  by (cases r) auto

lemma replace_pair_escape:
  assumes "backslash \<in> K" and "p \<noteq> backslash"
  shows "replace_pair backslash p [p] (escape_in (insert p K) s) = escape_in (K - {p}) s"
proof (induction s)
  case (Cons c s)
  have step: "replace_pair backslash p [p] (backslash # escape_in (insert p K) s)
      = backslash # replace_pair backslash p [p] (escape_in (insert p K) s)"
    using escape_in_head [of p "insert p K" s] assms(2)
    by (cases "escape_in (insert p K) s") auto
  consider "c = p" | "c = backslash" "c \<noteq> p" | "c \<in> K" "c \<noteq> backslash" "c \<noteq> p" | "c \<noteq> p" "c \<notin> K" "c \<noteq> backslash"
    using assms(1) by blast
  then show ?case
    using Cons step assms by cases (auto simp: replace_pair_skip)
qed simp

lemma replace_pair_backslashes:
  "replace_pair backslash backslash [backslash] (escape_in {backslash} s) = s"
  by (induction s) (auto simp: replace_pair_skip)

lemma unescape_escape: "unescape_rule_content (escape_rule_content s) = s"
proof (cases "contains_char (escape_rule_content s) backslash")
  case True
  have sets: "insert (CHR ''('') {backslash, CHR '')''} = {backslash, CHR ''('', CHR '')''}"
    "{backslash, CHR '')''} - {CHR ''(''} = {backslash, CHR '')''}"
    "insert (CHR '')'') {backslash} = {backslash, CHR '')''}"
    "{backslash} - {CHR '')''} = {backslash}"
    by (auto simp: backslash_def)
  have "replace_pair backslash (CHR ''('') ''('' (escape_rule_content s)
      = escape_in {backslash, CHR '')''} s"
    using replace_pair_escape [of "{backslash, CHR '')''}" "CHR ''(''" s]
    unfolding sets by (simp add: backslash_def)
  moreover have "replace_pair backslash (CHR '')'') '')'' (escape_in {backslash, CHR '')''} s)
      = escape_in {backslash} s"
    using replace_pair_escape [of "{backslash}" "CHR '')''" s]
    unfolding sets by (simp add: backslash_def)
  ultimately show ?thesis
    using True by (simp add: unescape_rule_content_def replace_pair_backslashes)
next
  case False
  then have "escape_rule_content s = s"
    by (induction s) (auto simp: contains_char_def split: if_splits)
  then show ?thesis using False by (simp add: unescape_rule_content_def)
qed

text \<open>An escaped text never ends in an open escape.\<close>

lemma count_backslashes_append:
  "j \<le> length s \<Longrightarrow> count_backslashes (s @ t) j = count_backslashes s j"
  by (induction j) (auto simp: nth_append)

lemma escape_end_even:
  "even (count_backslashes (escape_rule_content s) (length (escape_rule_content s)))"
proof (induction s rule: rev_induct)
  case (snoc c s)
  have "count_backslashes (escape_rule_content s @ t) (length (escape_rule_content s))
      = count_backslashes (escape_rule_content s) (length (escape_rule_content s))" for t
    by (simp add: count_backslashes_append)
  then show ?case
    using snoc by (auto simp: nth_append count_backslashes_append backslash_def)
qed simp

lemma unescaped_after_escape: "is_unescaped (escape_rule_content s @ t) (length (escape_rule_content s))"
  using escape_end_even [of s] by (simp add: is_unescaped_def count_backslashes_append)

lemma find_last_unescaped_end:
  "is_unescaped (s @ [c]) (length s) \<Longrightarrow> find_last_unescaped (s @ [c]) c = Some (length s)"
  by (simp add: find_last_unescaped_def)

lemma find_first_unescaped_app:
  assumes "c \<notin> set s" and "backslash \<notin> set s"
  shows "find_first_unescaped (s @ c # t) c = Some (length s)"
proof -
  have "count_backslashes (s @ c # t) (length s) = count_backslashes s (length s)"
    by (simp add: count_backslashes_append)
  also have "\<dots> = 0" using assms(2) by (cases s rule: rev_cases) auto
  finally have "is_unescaped (s @ c # t) (length s)" by (simp add: is_unescaped_def)
  then show ?thesis
    using assms(1)
    by (auto simp: find_first_unescaped_def find_Some_iff nth_append intro!: exI [of _ "length s"])
qed

subsection \<open>A rule text and the rule it stands for\<close>

lemma tool_name_known:
  "tool_name_to_filter name = Some f \<Longrightarrow> name \<in> set
     [''Bash'', ''Read'', ''Edit'', ''Write'', ''MCPTool'', ''Grep'', ''Glob'', ''WebFetch'',
      ''WebSearch'', ''AgentMessage'', ''SendSubagentMessage'', ''SendAgentMessage'']"
  by (rule ccontr) (simp add: tool_name_to_filter_def)

lemma tool_name_graphic:
  assumes "tool_name_to_filter name = Some f"
  shows "name \<noteq> []" and "list_all is_graphic name" and "CHR ''('' \<notin> set name"
    and "backslash \<notin> set name"
proof -
  have "list_all (\<lambda>n. n \<noteq> [] \<and> list_all is_graphic n \<and> CHR ''('' \<notin> set n \<and> backslash \<notin> set n)
     [''Bash'', ''Read'', ''Edit'', ''Write'', ''MCPTool'', ''Grep'', ''Glob'', ''WebFetch'',
      ''WebSearch'', ''AgentMessage'', ''SendSubagentMessage'', ''SendAgentMessage'']"
    by code_simp
  then have "name \<noteq> [] \<and> list_all is_graphic name \<and> CHR ''('' \<notin> set name \<and> backslash \<notin> set name"
    using tool_name_known [OF assms] unfolding list_all_iff by blast
  then show "name \<noteq> []" "list_all is_graphic name" "CHR ''('' \<notin> set name" "backslash \<notin> set name"
    by auto
qed

lemma trim_tool_name: "tool_name_to_filter name = Some f \<Longrightarrow> trim name = name"
  using tool_name_graphic [of name f] by (intro trim_graphic) (auto simp: list_all_iff)

lemma trim_rule_text:
  assumes "tool_name_to_filter name = Some f"
  shows "trim (name @ ''('' @ body @ '')'') = name @ ''('' @ body @ '')''"
  using tool_name_graphic [OF assms]
  by (intro trim_graphic) (auto simp: list_all_iff is_graphic_def hd_append)

definition plain_pattern :: "tool_filter \<Rightarrow> string \<Rightarrow> bool" where
  "plain_pattern f s \<longleftrightarrow>
     s \<noteq> [] \<and> s \<noteq> ''*'' \<and> is_graphic (hd s) \<and> is_graphic (last s)
     \<and> \<not> starts_with s ''domain:'' \<and> (f = ToolBash \<longrightarrow> \<not> ends_with s '':*'')"

lemma escape_ends:
  assumes "s \<noteq> []" and "is_graphic (hd s)" and "is_graphic (last s)"
  shows "trim (escape_rule_content s) = escape_rule_content s"
proof -
  obtain c t where c: "s = c # t" using assms(1) by (cases s) auto
  obtain u d where d: "s = u @ [d]" using assms(1) by (cases s rule: rev_cases) auto
  have "is_graphic (hd (escape_rule_content s))"
    using assms(2) by (simp add: c) (simp add: backslash_def is_graphic_def)
  moreover have "is_graphic (last (escape_rule_content s))"
    using assms(3) by (simp add: d)
  moreover have "escape_rule_content s \<noteq> []" by (simp add: c)
  ultimately show ?thesis by (intro trim_graphic)
qed

lemma escape_not_star: "s \<noteq> ''*'' \<Longrightarrow> escape_rule_content s \<noteq> ''*''"
  by (cases s; cases "tl s") (auto simp: backslash_def)

lemma parse_rule_text:
  assumes name: "tool_name_to_filter name = Some f"
    and s: "s \<noteq> []" "s \<noteq> ''*''" "is_graphic (hd s)" "is_graphic (last s)"
  shows "parse_permission_rule (name @ ''('' @ escape_rule_content s @ '')'') action =
    (let (pattern, mode) = strip_domain_prefix (if f = ToolBash then strip_bash_colon_wildcard s else s)
     in Inr \<lparr>pr_action = action, pr_tool = f, pr_pattern = string_to_option pattern,
             pr_pattern_mode = mode\<rparr>)"
proof -
  let ?body = "escape_rule_content s"
  have first: "find_first_unescaped (name @ CHR ''('' # ?body @ '')'') (CHR ''('') = Some (length name)"
    using tool_name_graphic [OF name] by (intro find_first_unescaped_app)
  have last: "find_last_unescaped (?body @ '')'') (CHR '')'') = Some (length ?body)"
    using unescaped_after_escape by (rule find_last_unescaped_end)
  have "?body \<noteq> []" using s(1) by (cases s) auto
  then show ?thesis
    using trim_rule_text [OF name, of ?body] first last escape_ends [OF s(1,3,4)]
      escape_not_star [OF s(2)]
    by (simp add: parse_permission_rule_def parse_tool_rule_def Let_def trim_tool_name [OF name]
        name unescape_escape)
qed

text \<open>
  Writing a rule and parsing it gives the rule back: for every tool name and every pattern
  that starts and ends with a printable character, is not the bare wildcard, carries no domain
  marker and, for Bash, no trailing colon wildcard, the text with the pattern's backslashes and
  parentheses escaped parses to exactly that tool and that pattern.
\<close>

theorem rule_text_roundtrip:
  assumes "tool_name_to_filter name = Some f" and "plain_pattern f s"
  shows "parse_permission_rule (name @ ''('' @ escape_rule_content s @ '')'') action =
    Inr \<lparr>pr_action = action, pr_tool = f, pr_pattern = Some s, pr_pattern_mode = GlobMode\<rparr>"
proof -
  have "strip_domain_prefix s = (s, GlobMode)"
    using assms(2) strip_prefix_None [of s "''domain:''"]
    by (simp add: strip_domain_prefix_def plain_pattern_def)
  moreover have "strip_suffix s '':*'' = None" if "f = ToolBash"
    using assms(2) that strip_suffix_Some [of s "'':*''"]
    by (cases "strip_suffix s '':*''") (auto simp: plain_pattern_def ends_with_def suffix_def)
  ultimately show ?thesis
    using parse_rule_text [OF assms(1), of s action] assms(2)
    by (cases "f = ToolBash")
      (simp_all add: plain_pattern_def strip_bash_colon_wildcard_def string_to_option_def)
qed

theorem rule_text_roundtrip_witness:
  "parse_permission_rule
     (''Edit(src/a'' @ [CHR 0x5C] @ ''(1'' @ [CHR 0x5C] @ '').rs)'') RuleDeny =
    Inr \<lparr>pr_action = RuleDeny, pr_tool = ToolEdit, pr_pattern = Some ''src/a(1).rs'',
        pr_pattern_mode = GlobMode\<rparr>"
  using rule_text_roundtrip [of "''Edit''" ToolEdit "''src/a(1).rs''" RuleDeny]
  by (simp add: tool_name_to_filter_def plain_pattern_def is_graphic_def backslash_def
      ends_with_def)

lemma strip_domain_empty: "fst (strip_domain_prefix p) = [] \<longleftrightarrow> p = [] \<or> p = ''domain:''"
proof (cases "strip_prefix p ''domain:''")
  case None
  then show ?thesis by (cases p) (auto simp: strip_domain_prefix_def)
next
  case (Some d)
  then have "p = ''domain:'' @ d" by (simp add: strip_prefix_Some)
  then show ?thesis by (simp add: strip_domain_prefix_def)
qed

lemma strip_colon_is: "strip_bash_colon_wildcard p = q \<longleftrightarrow>
    p = q @ '':*'' \<or> (p = q \<and> \<not> ends_with p '':*'')"
proof (cases "strip_suffix p '':*''")
  case None
  then have "\<not> ends_with p '':*''"
    using strip_suffix_Some [of p "'':*''"] by (auto simp: ends_with_def suffix_def)
  then show ?thesis
    using None by (auto simp: strip_bash_colon_wildcard_def ends_with_def suffixI)
next
  case (Some r)
  then have "p = r @ '':*''" by (simp add: strip_suffix_Some)
  moreover have "strip_bash_colon_wildcard p = r" by (simp add: strip_bash_colon_wildcard_def Some)
  ultimately show ?thesis by (auto simp: ends_with_def suffix_def)
qed

text \<open>
  When a rule covers its whole tool: the parsed rule has no pattern exactly when the text in
  the parentheses is the bare wildcard, an empty domain, or, for Bash, a colon wildcard with
  nothing before it. So an allow rule whose domain was left out opens every URL.
\<close>

theorem tool_wide_rule_texts:
  assumes "tool_name_to_filter name = Some f"
    and "s \<noteq> []" and "is_graphic (hd s)" and "is_graphic (last s)"
  shows "parse_permission_rule (name @ ''('' @ escape_rule_content s @ '')'') action
      \<in> {Inr \<lparr>pr_action = action, pr_tool = f, pr_pattern = None, pr_pattern_mode = mode\<rparr> | mode. True}
    \<longleftrightarrow> s = ''*'' \<or> s = ''domain:'' \<or> (f = ToolBash \<and> (s = '':*'' \<or> s = ''domain::*''))"
proof (cases "s = ''*''")
  case True
  have "find_first_unescaped (name @ ''(*)'') (CHR ''('') = Some (length name)"
    using tool_name_graphic [OF assms(1)] find_first_unescaped_app [of "CHR ''(''" name "''*)''"]
    by simp
  moreover have "find_last_unescaped ''*)'' (CHR '')'') = Some 1"
    using find_last_unescaped_end [of "''*''" "CHR '')''"]
    by (simp add: is_unescaped_def backslash_def)
  moreover have "trim ''*'' = ''*''" by (rule trim_graphic) (simp_all add: is_graphic_def)
  moreover have "trim (name @ ''(*)'') = name @ ''(*)''"
    using trim_rule_text [OF assms(1), of "''*''"] by simp
  ultimately show ?thesis
    using True assms(1)
    by (simp add: parse_permission_rule_def parse_tool_rule_def Let_def backslash_def
        trim_tool_name [OF assms(1)] strip_bash_colon_wildcard_def strip_suffix_def
        strip_domain_prefix_def string_to_option_def)
next
  case False
  let ?q = "if f = ToolBash then strip_bash_colon_wildcard s else s"
  have "parse_permission_rule (name @ ''('' @ escape_rule_content s @ '')'') action
      \<in> {Inr \<lparr>pr_action = action, pr_tool = f, pr_pattern = None, pr_pattern_mode = mode\<rparr> | mode. True}
      \<longleftrightarrow> fst (strip_domain_prefix ?q) = []"
    using parse_rule_text [OF assms(1,2) False assms(3,4), of action]
    by (auto simp: string_to_option_def split: prod.split)
  also have "\<dots> \<longleftrightarrow> ?q = [] \<or> ?q = ''domain:''" by (rule strip_domain_empty)
  also have "\<dots> \<longleftrightarrow> s = ''domain:'' \<or> (f = ToolBash \<and> (s = '':*'' \<or> s = ''domain::*''))"
    using assms(2) by (auto simp: strip_colon_is ends_with_def suffix_def)
  finally show ?thesis using False by simp
qed

theorem tool_wide_rule_texts_witness:
  "parse_permission_rule ''WebFetch(domain:)'' RuleAllow
     \<in> {Inr \<lparr>pr_action = RuleAllow, pr_tool = ToolWebFetch, pr_pattern = None,
             pr_pattern_mode = mode\<rparr> | mode. True}"
  using tool_wide_rule_texts [of "''WebFetch''" ToolWebFetch "''domain:''" RuleAllow]
  by (simp add: tool_name_to_filter_def is_graphic_def backslash_def)

text \<open>
  A denied command prefix binds: the text \<open>Bash(cmd:*)\<close> read as a deny rule makes every
  policy that contains it reject every Bash request whose command starts with \<open>cmd\<close>, whatever
  the other rules say.
\<close>

theorem denied_prefix_text_binds:
  assumes "cmd \<noteq> []" and "is_graphic (hd cmd)" and "\<not> starts_with cmd ''domain:''"
    and "parse_permission_rule (''Bash('' @ escape_rule_content cmd @ '':*)'') RuleDeny \<in> Inr ` set rules"
    and "starts_with (trim_start command) cmd"
  shows "\<exists>reason. evaluate_lexical_with_cwd w (compile_policy w rules) (Bash command) cwd
    = Some (Reject reason)"
proof -
  let ?s = "cmd @ '':*''"
  have bash: "tool_name_to_filter ''Bash'' = Some ToolBash" by (simp add: tool_name_to_filter_def)
  have graphic: "is_graphic (hd ?s)" "is_graphic (last ?s)" "?s \<noteq> ''*''"
    using assms(1,2) by (auto simp: is_graphic_def hd_append append_eq_Cons_conv)
  have colon: "strip_bash_colon_wildcard ?s = cmd" by (simp add: strip_colon_is)
  have domain: "strip_domain_prefix cmd = (cmd, GlobMode)"
    using assms(3) strip_prefix_None [of cmd "''domain:''"] by (simp add: strip_domain_prefix_def)
  define r where "r = \<lparr>pr_action = RuleDeny, pr_tool = ToolBash, pr_pattern = Some cmd,
    pr_pattern_mode = GlobMode\<rparr>"
  have "parse_permission_rule (''Bash('' @ escape_rule_content cmd @ '':*)'') RuleDeny = Inr r"
    using parse_rule_text [OF bash _ graphic(3,1,2), of RuleDeny] assms(1)
    by (simp add: colon domain r_def string_to_option_def backslash_def)
  then have "r \<in> set rules" using assms(4) by auto
  moreover have "rule_applies w (Bash command) cwd r (rule_matcher w r)"
    using assms(5) by (simp add: rule_applies_def tool_filter_matches_def pattern_matches_def r_def)
  ultimately have "some_rule_applies w rules (Bash command) cwd RuleDeny"
    unfolding some_rule_applies_def using permission_rule.simps(1) by (metis r_def)
  then show ?thesis
    by (auto simp: evaluate_lexical_with_cwd_def Let_def
        dest!: scan_rules_deny [where ask = False and allow = False])
qed

theorem denied_prefix_text_binds_witness:
  "\<exists>reason. evaluate_lexical_with_cwd sample_world
      (compile_policy sample_world
        [\<lparr>pr_action = RuleAllow, pr_tool = ToolBash, pr_pattern = None, pr_pattern_mode = GlobMode\<rparr>,
         \<lparr>pr_action = RuleDeny, pr_tool = ToolBash, pr_pattern = Some ''git push'',
          pr_pattern_mode = GlobMode\<rparr>])
      (Bash ''git push -f'') None = Some (Reject reason)"
proof (rule denied_prefix_text_binds [of "''git push''"])
  show "starts_with (trim_start ''git push -f'') ''git push''"
    using trim_with_id [of white_space "CHR ''g''" "''it push -f''"] white_space_bytes
    by (simp add: trim_start_def is_graphic_def)
  have "parse_permission_rule ''Bash(git push:*)'' RuleDeny =
      Inr \<lparr>pr_action = RuleDeny, pr_tool = ToolBash, pr_pattern = Some ''git push'',
          pr_pattern_mode = GlobMode\<rparr>"
    by code_simp
  then show "parse_permission_rule (''Bash('' @ escape_rule_content ''git push'' @ '':*)'') RuleDeny
      \<in> Inr ` set [\<lparr>pr_action = RuleAllow, pr_tool = ToolBash, pr_pattern = None,
                      pr_pattern_mode = GlobMode\<rparr>,
                     \<lparr>pr_action = RuleDeny, pr_tool = ToolBash, pr_pattern = Some ''git push'',
                      pr_pattern_mode = GlobMode\<rparr>]"
    by (simp add: backslash_def)
qed (simp_all add: is_graphic_def)

text \<open>An allow rule, in contrast, stops at the end of a word.\<close>

lemma allowed_prefix_ends_a_word:
  "\<not> bash_command_matches_pattern sample_world ''gitk'' ''git'' None"
  by code_simp

end
