(* ===== verification/GB_Routine.thy ===== *)
theory GB_Routine
  imports GB_ExecRisk GB_ShellAccess GB_Text
begin

section \<open>Routine shell commands (permission/auto_mode/mod.rs, routine_git.rs)\<close>

text \<open>
  The deterministic part of auto mode: which shell scripts are provably routine. A script is
  taken apart by the grammar, its environment assignments and written files are checked, and
  every command, behind wrappers and package-manager launchers, must be on a list of routine
  commands. Everything not recognized is blocked.
\<close>

subsection \<open>Risk of environment variables\<close>

datatype env_risk = EnvSafe | EnvUnvetted | EnvInjected

fun env_risk_rank :: "env_risk \<Rightarrow> nat" where
  "env_risk_rank EnvSafe = 0"
| "env_risk_rank EnvUnvetted = 1"
| "env_risk_rank EnvInjected = 2"

instantiation env_risk :: linorder
begin

definition less_eq_env_risk :: "env_risk \<Rightarrow> env_risk \<Rightarrow> bool" where
  "less_eq_env_risk a b \<longleftrightarrow> env_risk_rank a \<le> env_risk_rank b"

definition less_env_risk :: "env_risk \<Rightarrow> env_risk \<Rightarrow> bool" where
  "less_env_risk a b \<longleftrightarrow> env_risk_rank a < env_risk_rank b"

instance
proof
  fix x y z :: env_risk
  show "x \<le> y \<Longrightarrow> y \<le> x \<Longrightarrow> x = y"
    by (cases x; cases y) (auto simp: less_eq_env_risk_def)
qed (auto simp: less_eq_env_risk_def less_env_risk_def)

end

lemma env_risk_least [simp]: "EnvSafe \<le> r"
  by (simp add: less_eq_env_risk_def)

lemma env_risk_safe_iff [simp]: "r \<le> EnvSafe \<longleftrightarrow> r = EnvSafe"
  by (cases r) (simp_all add: less_eq_env_risk_def)

lemma max_safe_iff [simp]: "max a b = EnvSafe \<longleftrightarrow> a = EnvSafe \<and> b = EnvSafe"
  by (auto simp: max_def)

definition SAFE_ENV_KEYS :: "string list" where
  "SAFE_ENV_KEYS =
     [''CARGO_TERM_COLOR'', ''CARGO_TERM_PROGRESS_WHEN'', ''RUST_LOG'', ''RUST_LOG_STYLE'',
      ''RUST_BACKTRACE'', ''RUST_TEST_THREADS'', ''RUST_MIN_STACK'', ''NO_COLOR'', ''CLICOLOR'',
      ''CLICOLOR_FORCE'', ''FORCE_COLOR'', ''COLORTERM'']"

definition INJECTION_ENV_KEYS :: "string list" where
  "INJECTION_ENV_KEYS =
     [''LD_PRELOAD'', ''LD_AUDIT'', ''BASH_ENV'', ''ENV'', ''IFS'', ''PATH'',
      ''GIT_EXTERNAL_DIFF'', ''GIT_PROXY_COMMAND'', ''PROMPT_COMMAND'']"

definition INJECTION_ENV_KEY_PREFIXES :: "string list" where
  "INJECTION_ENV_KEY_PREFIXES = [''DYLD_'', ''GIT_CONFIG'']"

definition is_safe_env_key :: "string \<Rightarrow> bool" where
  "is_safe_env_key key \<longleftrightarrow> key \<in> set SAFE_ENV_KEYS"

definition env_key_risk :: "string \<Rightarrow> env_risk" where
  "env_key_risk key =
     (if is_safe_env_key key then EnvSafe
      else if key \<in> set INJECTION_ENV_KEYS
              \<or> list_ex (\<lambda>p. starts_with key p) INJECTION_ENV_KEY_PREFIXES
      then EnvInjected else EnvUnvetted)"

definition split_once :: "char \<Rightarrow> string \<Rightarrow> (string \<times> string) option" where
  "split_once c s =
     (case dropWhile (\<lambda>d. d \<noteq> c) s of
        [] \<Rightarrow> None
      | _ # rest \<Rightarrow> Some (before_char c s, rest))"

text \<open>
  The arguments of one \<open>env\<close> call: an option before \<open>--\<close> ends the analysis with the highest
  risk (\<open>None\<close>), the first plain word ends the assignments.
\<close>

fun env_args_risk :: "string list \<Rightarrow> bool \<Rightarrow> env_risk \<Rightarrow> env_risk option" where
  "env_args_risk [] options_done risk = Some risk"
| "env_args_risk (arg # args) options_done risk =
     (if arg = ''--'' then env_args_risk args True risk
      else if \<not> options_done \<and> starts_with arg ''-'' then None
      else case split_once (CHR ''='') arg of
             Some (key, _) \<Rightarrow> env_args_risk args options_done (max risk (env_key_risk key))
           | None \<Rightarrow> Some risk)"

fun command_env_loop :: "nat \<Rightarrow> string list \<Rightarrow> env_risk \<Rightarrow> env_risk" where
  "command_env_loop 0 current risk = risk"
| "command_env_loop (Suc n) current risk =
     (case (if map_option basename (first_opt current) = Some ''env''
            then env_args_risk (drop 1 current) False risk else Some risk) of
        None \<Rightarrow> EnvInjected
      | Some risk' \<Rightarrow>
          (case strip_wrapper_command current of
             Some inner \<Rightarrow> command_env_loop n inner risk'
           | None \<Rightarrow> risk'))"

definition command_env_risk :: "string list \<Rightarrow> env_risk" where
  "command_env_risk words = command_env_loop 8 words EnvSafe"

definition assignment_key :: "node \<Rightarrow> string \<Rightarrow> string" where
  "assignment_key n src =
     (case find_map (\<lambda>c. if nd_kind c = ''variable_name'' then utf8_text src c else None)
             (nd_children n) of
        Some key \<Rightarrow> key
      | None \<Rightarrow>
          (case utf8_text src n of
             Some t \<Rightarrow> before_char (CHR ''='') t
           | None \<Rightarrow> []))"

text \<open>The tree is visited in some order; the risk is the highest one, so the order is free.\<close>

definition script_env_risk :: "node \<Rightarrow> string \<Rightarrow> plain_command list \<Rightarrow> env_risk" where
  "script_env_risk root src cmds =
     (let risk = foldl (\<lambda>r n. if nd_kind n = ''variable_assignment''
                              then max r (env_key_risk (assignment_key n src)) else r)
                   EnvSafe (dfs root)
      in foldl (\<lambda>r c. max r (command_env_risk (pc_words c))) risk cmds)"

subsection \<open>Git\<close>

definition BRANCH_SWITCH_BENIGN_FLAGS :: "string list" where
  "BRANCH_SWITCH_BENIGN_FLAGS =
     [''-q'', ''--quiet'', ''-d'', ''--detach'', ''-t'', ''--track'', ''--no-track'', ''--guess'',
      ''--no-guess'', ''--progress'', ''--no-progress'', ''--recurse-submodules'',
      ''--no-recurse-submodules'']"

definition operand_reads_as_path :: "string \<Rightarrow> bool" where
  "operand_reads_as_path op =
     (if list_ex (\<lambda>c. starts_with c ''.'' \<or> ends_with c ''.lock'') (split_char (CHR ''/'') op)
         \<or> ends_with op ''/'' \<or> ends_with op ''.''
         \<or> contains_str op ''..'' \<or> contains_str op [CHR 0x40, CHR 0x7B]
         \<or> list_ex (contains_char op) [CHR ''~'', CHR ''^'', CHR '':'', backslash]
         \<or> contains_whitespace op then True
      else if starts_with op ''/'' \<or> list_ex (contains_char op) [CHR ''*'', CHR ''?'', CHR ''['']
      then True
      else case rsplit_once (CHR ''.'') op of
             None \<Rightarrow> False
           | Some (stem, ext) \<Rightarrow>
               let stem_leaf = last (split_char (CHR ''/'') stem)
               in if ext = ''x'' \<and> list_ex is_ascii_digit stem_leaf
                     \<and> list_all (\<lambda>b. is_ascii_digit b \<or> b = CHR ''.'') stem_leaf
                  then False
                  else 1 \<le> length ext \<and> length ext \<le> 5 \<and> list_all is_ascii_alnum ext
                       \<and> list_ex is_ascii_alpha ext)"

text \<open>The number of operands, \<open>None\<close> when a word rules the command out.\<close>

fun branch_switch_loop :: "string list \<Rightarrow> nat \<Rightarrow> nat option" where
  "branch_switch_loop [] operands = Some operands"
| "branch_switch_loop (word # it) operands =
     (if word \<in> {''-b'', ''-B'', ''-c'', ''-C'', ''--orphan''}
      then branch_switch_loop (drop 1 it) operands
      else if word = ''-'' then branch_switch_loop it (operands + 1)
      else if word \<in> set BRANCH_SWITCH_BENIGN_FLAGS then branch_switch_loop it operands
      else if starts_with word ''-'' then None
      else if operand_reads_as_path word then None
      else branch_switch_loop it (operands + 1))"

definition is_routine_branch_switch :: "string list \<Rightarrow> bool" where
  "is_routine_branch_switch args =
     (case branch_switch_loop args 0 of None \<Rightarrow> False | Some operands \<Rightarrow> operands \<le> 1)"

text \<open>The subcommand word of \<open>git stash\<close>; \<open>None\<close> for an option that is not listed.\<close>

fun stash_subcommand :: "string list \<Rightarrow> string option option" where
  "stash_subcommand [] = Some None"
| "stash_subcommand (word # it) =
     (if word = ''-m'' \<or> word = ''--message'' then stash_subcommand (drop 1 it)
      else if word = ''-q'' \<or> word = ''--quiet'' then stash_subcommand it
      else if starts_with word ''-'' then None
      else Some (Some word))"

definition is_routine_stash :: "string list \<Rightarrow> bool" where
  "is_routine_stash args =
     (case stash_subcommand args of
        None \<Rightarrow> False
      | Some None \<Rightarrow> True
      | Some (Some sub) \<Rightarrow>
          sub \<in> {''push'', ''save'', ''pop'', ''apply'', ''list'', ''show'', ''branch''})"

definition git_words_are_routine :: "string list \<Rightarrow> bool" where
  "git_words_are_routine words =
     (if first_opt words \<noteq> Some ''git'' then False
      else if git_words_are_read_only_query words then True
      else if git_words_have_unsafe_query_option words then False
      else case nth_opt words 1 of
             None \<Rightarrow> False
           | Some verb \<Rightarrow>
               let args = drop 2 words
               in if verb \<in> {''add'', ''commit'', ''pull'', ''fetch''} then True
                  else if verb = ''worktree'' then first_opt args = Some ''list''
                  else if verb = ''checkout'' \<or> verb = ''switch'' then is_routine_branch_switch args
                  else if verb = ''stash'' then is_routine_stash args
                  else False)"

subsection \<open>Package managers\<close>

definition NPM_SAFE_SUBCOMMANDS :: "string list" where
  "NPM_SAFE_SUBCOMMANDS =
     [''install'', ''i'', ''ci'', ''add'', ''remove'', ''rm'', ''uninstall'', ''update'', ''up'',
      ''upgrade'', ''test'', ''t'', ''run'', ''run-script'', ''start'', ''build'', ''audit'', ''list'',
      ''ls'', ''ll'', ''outdated'', ''why'', ''view'', ''info'', ''dedupe'', ''prune'', ''version'',
      ''pack'', ''config'', ''link'', ''unlink'', ''rebuild'', ''store'', ''fetch'', ''import'']"

definition UV_SAFE_SUBCOMMANDS :: "string list" where
  "UV_SAFE_SUBCOMMANDS =
     [''sync'', ''pip'', ''lock'', ''venv'', ''add'', ''remove'', ''tree'', ''export'', ''build'',
      ''version'', ''python'', ''cache'', ''init'', ''self'', ''help'']"

definition RUSTUP_SAFE_SUBCOMMANDS :: "string list" where
  "RUSTUP_SAFE_SUBCOMMANDS =
     [''show'', ''toolchain'', ''component'', ''target'', ''default'', ''update'', ''which'',
      ''doc'', ''self'', ''completions'', ''set'', ''override'']"

definition is_npm_family :: "string \<Rightarrow> bool" where
  "is_npm_family head \<longleftrightarrow> head \<in> {''npm'', ''pnpm'', ''yarn''}"

definition is_package_manager :: "string \<Rightarrow> bool" where
  "is_package_manager prog \<longleftrightarrow>
     prog \<in> {''uv'', ''uvx'', ''npm'', ''npx'', ''pnpm'', ''yarn'', ''rustup''}"

definition launcher_subcommand :: "string \<Rightarrow> string list \<Rightarrow> string option" where
  "launcher_subcommand head inner =
     (case nth_opt inner 1 of
        None \<Rightarrow> None
      | Some sub \<Rightarrow>
          Some (if is_npm_family head \<and> sub = ''x'' then ''exec''
                else if is_npm_family head \<and> sub = ''innit'' then ''init''
                else sub))"

definition is_remote_launcher :: "string \<Rightarrow> string list \<Rightarrow> bool" where
  "is_remote_launcher head inner =
     (if head = ''npx'' \<or> head = ''uvx'' then True
      else if head = ''uv'' \<and> nth_opt inner 1 = Some ''tool'' \<and> nth_opt inner 2 = Some ''run''
      then True
      else case launcher_subcommand head inner of
             None \<Rightarrow> False
           | Some sub \<Rightarrow>
               is_npm_family head
               \<and> (sub \<in> {''dlx'', ''create'', ''explore''}
                  \<or> (sub = ''init''
                     \<and> (case nth_opt inner 2 of
                          Some a \<Rightarrow> \<not> starts_with a ''-'' | None \<Rightarrow> False))))"

datatype launch_target = NotLauncher | LaunchInner "string list" | LaunchUnresolved

text \<open>The index of the launched command; \<open>Inl\<close> is an early answer.\<close>

definition launch_start :: "string \<Rightarrow> string \<Rightarrow> string list \<Rightarrow> launch_target + nat" where
  "launch_start head sub inner =
     (if head = ''uv'' \<and> sub = ''run'' then Inr 2
      else if head = ''rustup'' \<and> sub = ''run'' then
        (case nth_opt inner 2 of
           Some toolchain \<Rightarrow>
             if \<not> starts_with toolchain ''-'' then Inr 3 else Inl LaunchUnresolved
         | None \<Rightarrow> Inl LaunchUnresolved)
      else if is_npm_family head \<and> sub = ''exec'' then
        Inr (if nth_opt inner 2 = Some ''--'' then 3 else 2)
      else Inl NotLauncher)"

definition explicit_launch_target :: "string \<Rightarrow> string list \<Rightarrow> launch_target" where
  "explicit_launch_target head inner =
     (case launcher_subcommand head inner of
        None \<Rightarrow> NotLauncher
      | Some sub \<Rightarrow>
          (case launch_start head sub inner of
             Inl answer \<Rightarrow> answer
           | Inr start \<Rightarrow>
               (case nth_opt inner start of
                  Some tok \<Rightarrow>
                    if \<not> starts_with tok ''-'' then LaunchInner (drop start inner)
                    else LaunchUnresolved
                | None \<Rightarrow> LaunchUnresolved)))"

definition launched_writes_nonsink :: "string list \<Rightarrow> bool" where
  "launched_writes_nonsink words =
     list_ex (\<lambda>p. \<not> is_safe_write_sink p) (command_words_write_paths words)"

text \<open>
  What \<open>package_manager_subcommand_is_routine\<close> finds: no package manager, an answer, or a
  launched command that is classified in its turn.
\<close>

datatype package_manager_verdict =
  NotPackageManager | PackageManagerSays bool | PackageManagerLaunches "string list"

definition package_manager_subcommand_is_routine ::
  "string \<Rightarrow> string list \<Rightarrow> package_manager_verdict" where
  "package_manager_subcommand_is_routine prog inner =
     (if \<not> is_package_manager prog then NotPackageManager
      else if is_remote_launcher prog inner then PackageManagerSays False
      else case explicit_launch_target prog inner of
             LaunchUnresolved \<Rightarrow> PackageManagerSays False
           | LaunchInner launched \<Rightarrow> PackageManagerLaunches launched
           | NotLauncher \<Rightarrow>
               (let sub = launcher_subcommand prog inner;
                    listed = (\<lambda>safe. case sub of Some s \<Rightarrow> s \<in> set safe | None \<Rightarrow> False)
                in PackageManagerSays
                     (if is_npm_family prog then listed NPM_SAFE_SUBCOMMANDS
                      else if prog = ''uv'' then listed UV_SAFE_SUBCOMMANDS
                      else if prog = ''rustup'' then listed RUSTUP_SAFE_SUBCOMMANDS
                      else False)))"

subsection \<open>One command\<close>

definition ROUTINE_PREFIXES :: "string list" where
  "ROUTINE_PREFIXES =
     [''cargo '', ''pytest'', ''python '', ''python3 '', ''node '', ''rustc '', ''rustfmt'',
      ''clippy'', ''make '', ''cmake '', ''cd'', ''pushd'', ''popd'', ''ls'', ''pwd'', ''echo '',
      ''printf '', ''cat '', ''head '', ''tail '', ''wc '', ''rg '', ''grep '', ''which '', ''type '',
      ''true'', ''false'', ''test '', ''sort '', ''uniq '', ''tr '', ''cut '', ''diff '', ''jq '',
      ''date'', ''whoami'', ''hostname'', ''uname'', ''nproc'', ''printenv'', ''stat '', ''file '',
      ''tree'', ''basename '', ''dirname '', ''realpath '', ''readlink '', ''strings '', ''sleep '',
      ''df '', ''du '', ''ps '', ''top'', ''htop'', ''bazel '', ''just '', ''go '', ''kubectl get'',
      ''kubectl logs'', ''kubectl describe'', ''set'']"

definition KUBECTL_UNSAFE_FLAGS :: "string list" where
  "KUBECTL_UNSAFE_FLAGS =
     [''--kubeconfig'', ''--context'', ''--cluster'', ''--server'', ''-s'', ''--token'', ''--user'',
      ''--as'', ''--as-group'', ''--as-uid'', ''--as-user-extra'', ''--username'', ''--password'',
      ''--client-certificate'', ''--client-key'', ''--certificate-authority'']"

definition has_kubectl_unsafe_flag :: "string list \<Rightarrow> bool" where
  "has_kubectl_unsafe_flag words =
     list_ex (\<lambda>w. (case split_once (CHR ''='') w of Some (name, _) \<Rightarrow> name | None \<Rightarrow> w)
                  \<in> set KUBECTL_UNSAFE_FLAGS) (drop 1 words)"

definition has_rg_pre :: "string list \<Rightarrow> bool" where
  "has_rg_pre words = list_ex (\<lambda>w. w = ''--pre'' \<or> starts_with w ''--pre='') words"

definition is_lone_wrapper :: "string list \<Rightarrow> bool" where
  "is_lone_wrapper words \<longleftrightarrow> length words = 1 \<and> is_wrapper_command words"

definition find_is_read_only :: "string list \<Rightarrow> bool" where
  "find_is_read_only words =
     (\<not> list_ex (\<lambda>w. w \<in> {''-delete'', ''-exec'', ''-execdir'', ''-ok'', ''-okdir'', ''-fprint'',
                          ''-fprint0'', ''-fprintf'', ''-fls''}) words)"

definition nonflag_tokens :: "string list \<Rightarrow> nat \<Rightarrow> string list" where
  "nonflag_tokens inner n = take n (filter (\<lambda>w. \<not> starts_with w ''-'') (drop 1 inner))"

definition gh_subcommand_is_read_only :: "string list \<Rightarrow> bool" where
  "gh_subcommand_is_read_only inner =
     (case nonflag_tokens inner 2 of
        [grp, sub] \<Rightarrow>
          (grp \<in> {''pr'', ''issue'', ''release'', ''run'', ''workflow'', ''repo'', ''gist''}
           \<and> sub \<in> {''view'', ''list'', ''status'', ''checks'', ''diff''})
          \<or> (grp = ''auth'' \<and> sub = ''status'')
      | [only] \<Rightarrow> only = ''status''
      | _ \<Rightarrow> False)"

definition tree_writes_output :: "string list \<Rightarrow> bool" where
  "tree_writes_output inner =
     list_ex (\<lambda>w. (starts_with w ''-'' \<and> \<not> starts_with w ''--'' \<and> contains_char w (CHR ''o''))
                  \<or> starts_with w ''--output'') inner"

text \<open>The checks of a command that is no package manager.\<close>

definition plain_command_is_routine :: "string \<Rightarrow> string list \<Rightarrow> bool" where
  "plain_command_is_routine head inner =
     (if head = ''find'' then find_is_read_only inner
      else if head = ''git'' then git_words_are_routine inner
      else if head = ''tree'' \<and> tree_writes_output inner then False
      else if head = ''rg'' \<and> has_rg_pre inner then False
      else if head = ''kubectl'' \<and> has_kubectl_unsafe_flag inner then False
      else if head = ''gh'' then gh_subcommand_is_read_only inner
      else let joined = ascii_lower (join_words inner)
           in list_ex (\<lambda>p. let base = trim p
                           in joined = base
                              \<or> (starts_with joined base
                                 \<and> starts_with (drop (length base) joined) '' ''))
                ROUTINE_PREFIXES)"

definition command_head :: "string list \<Rightarrow> string" where
  "command_head inner = ascii_lower (basename (hd inner))"

text \<open>A launched command is shorter than the command that launches it.\<close>

lemma explicit_launch_suffix:
  assumes "explicit_launch_target head inner = LaunchInner launched"
  shows "\<exists>start \<ge> 2. launched = drop start inner \<and> start < length inner"
proof -
  obtain sub start where "launcher_subcommand head inner = Some sub"
    "launch_start head sub inner = Inr start" "start < length inner" "launched = drop start inner"
    using assms
    by (auto simp: explicit_launch_target_def nth_opt_def launch_start_def
        split: option.splits sum.splits if_splits)
  moreover from this(2) have "2 \<le> start"
    by (auto simp: launch_start_def split: if_splits option.splits)
  ultimately show ?thesis by blast
qed

lemma package_manager_launches:
  "package_manager_subcommand_is_routine prog inner = PackageManagerLaunches launched \<longleftrightarrow>
     is_package_manager prog \<and> \<not> is_remote_launcher prog inner
     \<and> explicit_launch_target prog inner = LaunchInner launched"
  unfolding package_manager_subcommand_is_routine_def Let_def
  by (simp split: launch_target.split)

lemma unwrap_loop_suffix: "suffix (cw_words (unwrap_loop n current ch sp un)) current"
proof (induction n arbitrary: current ch sp un)
  case (Suc n)
  show ?case
  proof (cases "strip_wrapper_command current")
    case (Some inner)
    then have "suffix inner current"
      using strip_wrapper_suffix suffix_drop suffix_order.trans by blast
    then show ?thesis using Suc Some by (simp add: Let_def) (meson suffix_order.trans)
  qed (simp add: Let_def)
qed simp

lemma unwrap_wrappers_suffix: "suffix (unwrap_wrappers words) words"
  by (simp add: unwrap_wrappers_def unwrap_wrappers_checked_def unwrap_loop_suffix)

lemma launched_is_shorter:
  assumes "package_manager_subcommand_is_routine head (unwrap_wrappers words)
      = PackageManagerLaunches launched"
  shows "length launched < length words"
proof -
  obtain start where "launched = drop start (unwrap_wrappers words)" "2 \<le> start"
    "start < length (unwrap_wrappers words)"
    using assms explicit_launch_suffix [of head "unwrap_wrappers words" launched]
    by (auto simp: package_manager_launches)
  moreover have "length (unwrap_wrappers words) \<le> length words"
    using unwrap_wrappers_suffix suffix_length_le by blast
  ultimately show ?thesis by simp
qed

function bash_command_is_routine :: "string list \<Rightarrow> bool" where
  "bash_command_is_routine words =
     (let inner = unwrap_wrappers words
      in if inner = [] \<or> is_lone_wrapper inner then True
         else case package_manager_subcommand_is_routine (command_head inner) inner of
                PackageManagerSays routine \<Rightarrow> routine
              | PackageManagerLaunches launched \<Rightarrow>
                  command_env_risk launched = EnvSafe \<and> \<not> launched_writes_nonsink launched
                  \<and> bash_command_is_routine launched
              | NotPackageManager \<Rightarrow> plain_command_is_routine (command_head inner) inner)"
  by pat_completeness auto
termination by (relation "measure length") (auto dest: launched_is_shorter)

declare bash_command_is_routine.simps [simp del]

subsection \<open>Scripts\<close>

datatype classifier_verdict = VerdictAllow | VerdictBlock | VerdictUnavailable

definition classify_bash :: "world \<Rightarrow> string \<Rightarrow> classifier_verdict" where
  "classify_bash w cmd =
     (case w_parse w cmd of
        None \<Rightarrow> VerdictBlock
      | Some tree \<Rightarrow>
          (case try_parse_word_only_commands_sequence tree cmd of
             None \<Rightarrow> VerdictBlock
           | Some cmds \<Rightarrow>
               if script_env_risk (tr_root tree) cmd cmds \<noteq> EnvSafe then VerdictBlock
               else if list_ex (\<lambda>p. \<not> is_safe_write_sink p)
                         (command_write_paths_in_tree w (tr_root tree) cmd)
               then VerdictBlock
               else if cmds \<noteq> [] \<and> list_all (\<lambda>c. bash_command_is_routine (pc_words c)) cmds
               then VerdictAllow
               else VerdictBlock))"

section \<open>Properties of the routine check\<close>

subsection \<open>Launchers\<close>

text \<open>One step of a package manager that runs another command.\<close>

definition launches :: "string list \<Rightarrow> string list \<Rightarrow> bool" where
  "launches words launched \<longleftrightarrow>
     (let inner = unwrap_wrappers words
      in inner \<noteq> [] \<and> \<not> is_lone_wrapper inner
         \<and> package_manager_subcommand_is_routine (command_head inner) inner
             = PackageManagerLaunches launched)"

lemma launches_shorter: "launches words launched \<Longrightarrow> length launched + 2 \<le> length words"
  using explicit_launch_suffix [of "command_head (unwrap_wrappers words)" "unwrap_wrappers words" launched]
    suffix_length_le [OF unwrap_wrappers_suffix [of words]]
  by (auto simp: launches_def Let_def package_manager_launches)

text \<open>
  C33. The classification of a command ends: every launcher step shortens the command by at least
  two words, so a command of \<open>n\<close> words unfolds at most \<open>n div 2\<close> launchers, and no chain of
  launchers is infinite.
\<close>

theorem launcher_chain_ends:
  "((launches ^^ n) words launched \<longrightarrow> length launched + 2 * n \<le> length words)
   \<and> wfP (\<lambda>launched words. launches words launched)"
proof
  show "(launches ^^ n) words launched \<longrightarrow> length launched + 2 * n \<le> length words"
  proof (induction n arbitrary: launched)
    case (Suc n)
    then show ?case by (fastforce dest: launches_shorter)
  qed simp
  have "{(launched, words). launches words launched} \<subseteq> measure length"
    by (auto dest: launches_shorter)
  then show "wfP (\<lambda>launched words. launches words launched)"
    unfolding wfp_def using wf_subset [OF wf_measure] by blast
qed

theorem launcher_chain_ends_witness:
  "(launches ^^ 1) [''uv'', ''run'', ''ls''] [''ls''] \<and> length [''ls''] + 2 * 1 \<le> length [''uv'', ''run'', ''ls'']"
proof -
  have "launches [''uv'', ''run'', ''ls''] [''ls'']" by code_simp
  then have "(launches ^^ 1) [''uv'', ''run'', ''ls''] [''ls'']" by auto
  then show ?thesis
    using launcher_chain_ends [of 1 "[''uv'', ''run'', ''ls'']" "[''ls'']"] by blast
qed

lemma routine_launches:
  assumes "bash_command_is_routine words" and "launches words launched"
  shows "command_env_risk launched = EnvSafe \<and> \<not> launched_writes_nonsink launched
    \<and> bash_command_is_routine launched"
  using assms by (subst (asm) bash_command_is_routine.simps) (simp add: launches_def Let_def)

lemma routine_not_remote:
  assumes "bash_command_is_routine words" and "unwrap_wrappers words = inner" and "inner \<noteq> []"
    and "\<not> is_lone_wrapper inner" and "is_package_manager (command_head inner)"
  shows "\<not> is_remote_launcher (command_head inner) inner"
  using assms
  by (subst (asm) bash_command_is_routine.simps)
    (auto simp: package_manager_subcommand_is_routine_def)

text \<open>The command a chain of launchers starts.\<close>

definition runs_remote_code :: "string list \<Rightarrow> bool" where
  "runs_remote_code words \<longleftrightarrow>
     (let inner = unwrap_wrappers words
      in inner \<noteq> [] \<and> \<not> is_lone_wrapper inner \<and> is_package_manager (command_head inner)
         \<and> is_remote_launcher (command_head inner) inner)"

lemma routine_chain:
  assumes "bash_command_is_routine words" and "launches\<^sup>*\<^sup>* words launched"
  shows "bash_command_is_routine launched"
  using assms(2,1) by (induction rule: rtranclp_induct) (auto dest: routine_launches)

lemma env_key_safe_iff: "env_key_risk key = EnvSafe \<longleftrightarrow> is_safe_env_key key"
  by (simp add: env_key_risk_def)

lemma fold_max_safe:
  "foldl (\<lambda>r x. max r (f x)) r0 xs = EnvSafe \<longleftrightarrow> r0 = EnvSafe \<and> (\<forall>x \<in> set xs. f x = EnvSafe)"
  by (induction xs arbitrary: r0) auto

lemma fold_max_if_safe:
  "foldl (\<lambda>r x. if P x then max r (f x) else r) r0 xs = EnvSafe \<longleftrightarrow>
     r0 = EnvSafe \<and> (\<forall>x \<in> set xs. P x \<longrightarrow> f x = EnvSafe)"
  by (induction xs arbitrary: r0) auto

lemma script_env_safe_iff:
  "script_env_risk root src cmds = EnvSafe \<longleftrightarrow>
     (\<forall>n \<in> set (dfs root). nd_kind n = ''variable_assignment'' \<longrightarrow> is_safe_env_key (assignment_key n src))
     \<and> (\<forall>c \<in> set cmds. command_env_risk (pc_words c) = EnvSafe)"
  by (simp add: script_env_risk_def Let_def fold_max_safe fold_max_if_safe env_key_safe_iff)

text \<open>
  What may run unasked, written down apart from the code that decides it: the programs whose name
  is enough, and what is asked of \<open>find\<close>, \<open>git\<close>, \<open>gh\<close> and the package managers.
\<close>

definition vetted_names :: "string list" where
  "vetted_names =
     [''cargo'', ''pytest'', ''python'', ''python3'', ''node'', ''rustc'', ''rustfmt'', ''clippy'',
      ''make'', ''cmake'', ''cd'', ''pushd'', ''popd'', ''ls'', ''pwd'', ''echo'', ''printf'', ''cat'',
      ''head'', ''tail'', ''wc'', ''rg'', ''grep'', ''which'', ''type'', ''true'', ''false'', ''test'',
      ''sort'', ''uniq'', ''tr'', ''cut'', ''diff'', ''jq'', ''date'', ''whoami'', ''hostname'',
      ''uname'', ''nproc'', ''printenv'', ''stat'', ''file'', ''tree'', ''basename'', ''dirname'',
      ''realpath'', ''readlink'', ''strings'', ''sleep'', ''df'', ''du'', ''ps'', ''top'', ''htop'',
      ''bazel'', ''just'', ''go'', ''kubectl get'', ''kubectl logs'', ''kubectl describe'', ''set'']"

definition vetted_plain :: "string \<Rightarrow> string list \<Rightarrow> bool" where
  "vetted_plain head inner \<longleftrightarrow>
     (\<exists>name \<in> set vetted_names. ascii_lower (join_words inner) = name
        \<or> (\<exists>rest. ascii_lower (join_words inner) = name @ '' '' @ rest))
     \<and> (head = ''tree'' \<longrightarrow> \<not> tree_writes_output inner)
     \<and> (head = ''rg'' \<longrightarrow> \<not> has_rg_pre inner)
     \<and> (head = ''kubectl'' \<longrightarrow> \<not> has_kubectl_unsafe_flag inner)"

definition vetted_find :: "string list \<Rightarrow> bool" where
  "vetted_find inner \<longleftrightarrow>
     set inner \<inter> {''-delete'', ''-exec'', ''-execdir'', ''-ok'', ''-okdir'', ''-fprint'', ''-fprint0'',
                  ''-fprintf'', ''-fls''} = {}"

definition vetted_verb :: "string \<Rightarrow> string list \<Rightarrow> bool" where
  "vetted_verb verb args \<longleftrightarrow>
     verb \<in> {''add'', ''commit'', ''pull'', ''fetch''}
     \<or> verb = ''worktree'' \<and> first_opt args = Some ''list''
     \<or> verb \<in> {''checkout'', ''switch''} \<and> is_routine_branch_switch args
     \<or> verb = ''stash''
       \<and> stash_subcommand args
           \<in> {Some None, Some (Some ''push''), Some (Some ''save''), Some (Some ''pop''),
              Some (Some ''apply''), Some (Some ''list''), Some (Some ''show''),
              Some (Some ''branch'')}"

definition vetted_git :: "string list \<Rightarrow> bool" where
  "vetted_git inner \<longleftrightarrow>
     first_opt inner = Some ''git''
     \<and> (git_words_are_read_only_query inner
        \<or> \<not> git_words_have_unsafe_query_option inner
          \<and> (\<exists>verb args. drop 1 inner = verb # args \<and> vetted_verb verb args))"

definition vetted_gh :: "string list \<Rightarrow> bool" where
  "vetted_gh inner \<longleftrightarrow>
     (\<exists>grp sub. nonflag_tokens inner 2 = [grp, sub]
        \<and> sub \<in> {''view'', ''list'', ''status'', ''checks'', ''diff''})
     \<or> nonflag_tokens inner 2 = [''status'']"

text \<open>A package manager runs a listed subcommand of its own, or launches another command.\<close>

definition vetted_manager :: "string \<Rightarrow> string list \<Rightarrow> bool" where
  "vetted_manager head words \<longleftrightarrow>
     (\<exists>l. launches words l)
     \<or> (\<exists>sub. launcher_subcommand head (unwrap_wrappers words) = Some sub
          \<and> (head \<in> {''npm'', ''pnpm'', ''yarn''} \<and> sub \<in> set NPM_SAFE_SUBCOMMANDS
             \<or> head = ''uv'' \<and> sub \<in> set UV_SAFE_SUBCOMMANDS
             \<or> head = ''rustup'' \<and> sub \<in> set RUSTUP_SAFE_SUBCOMMANDS))"

definition vetted :: "string list \<Rightarrow> bool" where
  "vetted words \<longleftrightarrow>
     (let inner = unwrap_wrappers words; head = command_head inner
      in inner = [] \<or> is_lone_wrapper inner
         \<or> (if is_package_manager head then vetted_manager head words
            else if head = ''find'' then vetted_find inner
            else if head = ''git'' then vetted_git inner
            else if head = ''gh'' then vetted_gh inner
            else vetted_plain head inner))"

lemma trimmed_prefixes: "map trim ROUTINE_PREFIXES = vetted_names"
  by code_simp

lemma starts_with_append: "starts_with s p \<longleftrightarrow> (\<exists>rest. s = p @ rest)"
  by (auto simp: starts_with_def prefix_def)

lemma vetted_prefix:
  assumes "list_ex (\<lambda>p. let base = trim p in s = base
      \<or> (starts_with s base \<and> starts_with (drop (length base) s) '' '')) ROUTINE_PREFIXES"
  shows "\<exists>name \<in> set vetted_names. s = name \<or> (\<exists>rest. s = name @ '' '' @ rest)"
proof -
  obtain p where p: "p \<in> set ROUTINE_PREFIXES"
    "s = trim p \<or> (starts_with s (trim p) \<and> starts_with (drop (length (trim p)) s) '' '')"
    using assms by (auto simp: list_ex_iff Let_def)
  have "trim p \<in> set vetted_names" using p(1) by (simp flip: trimmed_prefixes)
  moreover have "s = trim p \<or> (\<exists>rest. s = trim p @ '' '' @ rest)"
    using p(2) by (auto simp: starts_with_append)
  ultimately show ?thesis by blast
qed

lemma verb_and_args: "nth_opt ws 1 = Some verb \<Longrightarrow> drop (Suc 0) ws = verb # drop 2 ws"
  by (auto simp: nth_opt_def numeral_2_eq_2 Cons_nth_drop_Suc split: if_splits)

lemma vetted_git_command:
  assumes "git_words_are_routine inner"
  shows "vetted_git inner"
proof (cases "git_words_are_read_only_query inner")
  case True
  then show ?thesis using assms by (simp add: git_words_are_routine_def vetted_git_def split: if_splits)
next
  case False
  then obtain verb where v: "first_opt inner = Some ''git''" "\<not> git_words_have_unsafe_query_option inner"
    "nth_opt inner 1 = Some verb"
    using assms by (auto simp: git_words_are_routine_def split: if_splits option.splits)
  let ?args = "drop 2 inner"
  have d: "drop 1 inner = verb # ?args" using verb_and_args [OF v(3)] by simp
  have stash: "is_routine_stash ?args \<Longrightarrow> vetted_verb ''stash'' ?args"
    by (simp add: is_routine_stash_def vetted_verb_def split: option.splits)
  have "vetted_verb verb ?args"
    using assms v False stash
    unfolding vetted_verb_def
    by (simp add: git_words_are_routine_def Let_def split: if_split_asm) (elim disjE; simp)
  then show ?thesis unfolding vetted_git_def using v(1,2) d by metis
qed

lemma vetted_plain_command:
  assumes "plain_command_is_routine head inner"
  shows "if head = ''find'' then vetted_find inner
         else if head = ''git'' then vetted_git inner
         else if head = ''gh'' then vetted_gh inner
         else vetted_plain head inner"
proof -
  have "vetted_find inner" if "find_is_read_only inner"
    using that by (auto simp: find_is_read_only_def vetted_find_def list_ex_iff)
  moreover have "vetted_git inner" if "git_words_are_routine inner"
    by (rule vetted_git_command [OF that])
  moreover have "vetted_gh inner" if "gh_subcommand_is_read_only inner"
    using that by (auto simp: gh_subcommand_is_read_only_def vetted_gh_def split: list.splits)
  ultimately show ?thesis
    using assms vetted_prefix [of "ascii_lower (join_words inner)"]
    by (auto simp: plain_command_is_routine_def vetted_plain_def Let_def split: if_splits)
qed

lemma routine_vetted:
  assumes "bash_command_is_routine words"
  shows "vetted words"
proof -
  let ?inner = "unwrap_wrappers words"
  let ?head = "command_head ?inner"
  consider "?inner = [] \<or> is_lone_wrapper ?inner"
    | "package_manager_subcommand_is_routine ?head ?inner = PackageManagerSays True"
    | l where "launches words l"
    | "\<not> is_package_manager ?head" "plain_command_is_routine ?head ?inner"
    using assms
    by (subst (asm) bash_command_is_routine.simps)
      (auto simp: Let_def launches_def package_manager_subcommand_is_routine_def
        split: package_manager_verdict.splits if_splits launch_target.splits)
  then show ?thesis
  proof cases
    case 2
    then have "is_package_manager ?head \<and> vetted_manager ?head words"
      by (auto simp: package_manager_subcommand_is_routine_def vetted_manager_def is_npm_family_def Let_def
          split: if_splits launch_target.splits option.splits)
    then show ?thesis by (simp add: vetted_def Let_def)
  next
    case (3 l)
    then have "is_package_manager ?head"
      by (auto simp: launches_def Let_def package_manager_launches)
    then show ?thesis using 3 by (auto simp: vetted_def vetted_manager_def Let_def)
  next
    case 4
    then show ?thesis using vetted_plain_command [of ?head ?inner] by (simp add: vetted_def Let_def)
  qed (unfold vetted_def Let_def, blast)
qed

text \<open>
  C32. What the routine check lets through without asking a model: the script was taken apart
  completely, every variable it assigns is one of the cosmetic keys, no \<open>env\<close> call of a command
  carries an option or another key, every file it writes is a sink, and every command of it, and
  every command a chain of package-manager launchers starts from it, is vetted: a program of the
  list, a \<open>find\<close> without an action, a \<open>git\<close>, \<open>gh\<close> or package-manager subcommand of the lists, a
  launcher of such a command, or nothing but a wrapper; none fetches remote code, and a launched
  command moreover sets no risky variable and writes only sinks.
\<close>

theorem routine_script_sound:
  assumes "classify_bash w cmd = VerdictAllow"
  shows "\<exists>tree cmds. w_parse w cmd = Some tree
    \<and> try_parse_word_only_commands_sequence tree cmd = Some cmds \<and> cmds \<noteq> []
    \<and> (\<forall>n \<in> set (dfs (tr_root tree)). nd_kind n = ''variable_assignment'' \<longrightarrow>
         is_safe_env_key (assignment_key n cmd))
    \<and> (\<forall>p \<in> set (command_write_paths_in_tree w (tr_root tree) cmd). is_safe_write_sink p)
    \<and> (\<forall>c \<in> set cmds. \<forall>l. launches\<^sup>*\<^sup>* (pc_words c) l \<longrightarrow>
         vetted l \<and> command_env_risk l = EnvSafe \<and> \<not> runs_remote_code l
         \<and> (launches\<^sup>+\<^sup>+ (pc_words c) l \<longrightarrow> \<not> launched_writes_nonsink l))"
proof -
  obtain tree cmds where parse: "w_parse w cmd = Some tree"
    "try_parse_word_only_commands_sequence tree cmd = Some cmds" "cmds \<noteq> []"
    and env: "script_env_risk (tr_root tree) cmd cmds = EnvSafe"
    and sinks: "\<forall>p \<in> set (command_write_paths_in_tree w (tr_root tree) cmd). is_safe_write_sink p"
    and routine: "\<forall>c \<in> set cmds. bash_command_is_routine (pc_words c)"
    using assms
    by (auto simp: classify_bash_def list_ex_iff list_all_iff split: option.splits if_splits)
  have step: "command_env_risk l = EnvSafe \<and> \<not> launched_writes_nonsink l"
    if "c \<in> set cmds" "launches\<^sup>+\<^sup>+ (pc_words c) l" for c l
  proof -
    obtain m where "launches\<^sup>*\<^sup>* (pc_words c) m" "launches m l"
      using \<open>launches\<^sup>+\<^sup>+ (pc_words c) l\<close> tranclpD rtranclp_tranclp_tranclp
      by (metis tranclp.cases tranclp_into_rtranclp rtranclp.rtrancl_refl)
    then show ?thesis using routine \<open>c \<in> set cmds\<close> routine_chain routine_launches by blast
  qed
  have "command_env_risk l = EnvSafe \<and> \<not> runs_remote_code l"
    if "c \<in> set cmds" "launches\<^sup>*\<^sup>* (pc_words c) l" for c l
  proof
    show "command_env_risk l = EnvSafe"
      using that step env by (metis rtranclpD script_env_safe_iff)
    have "bash_command_is_routine l" using that routine routine_chain by blast
    then show "\<not> runs_remote_code l"
      using routine_not_remote by (auto simp: runs_remote_code_def Let_def)
  qed
  moreover have "vetted l" if "c \<in> set cmds" "launches\<^sup>*\<^sup>* (pc_words c) l" for c l
    using that routine routine_chain routine_vetted by blast
  ultimately have chain: "\<forall>c \<in> set cmds. \<forall>l. launches\<^sup>*\<^sup>* (pc_words c) l \<longrightarrow>
      vetted l \<and> command_env_risk l = EnvSafe \<and> \<not> runs_remote_code l
      \<and> (launches\<^sup>+\<^sup>+ (pc_words c) l \<longrightarrow> \<not> launched_writes_nonsink l)"
    using step by blast
  note keys = env [unfolded script_env_safe_iff, THEN conjunct1]
  show ?thesis
    by (rule exI [of _ tree], rule exI [of _ cmds], intro conjI parse keys sinks chain)
qed

theorem routine_script_sound_witness:
  "classify_bash sample_world ''ls a'' = VerdictAllow
   \<and> (\<exists>tree. w_parse sample_world ''ls a'' = Some tree)"
proof -
  have "classify_bash sample_world ''ls a'' = VerdictAllow" by code_simp
  note sound = routine_script_sound [OF this]
  have "\<exists>tree. w_parse sample_world ''ls a'' = Some tree"
    using sound by (elim exE conjE) (rule exI)
  with \<open>classify_bash sample_world ''ls a'' = VerdictAllow\<close> show ?thesis by (rule conjI)
qed

text \<open>
  For \<open>find\<close>, \<open>gh\<close> and the package managers only the last component of the head is compared, so
  a program of that name in any directory passes, where the git check insists on the bare name.
\<close>

lemma path_qualified_heads_pass:
  "bash_command_is_routine [''./find'', ''.''] \<and> bash_command_is_routine [''/tmp/x/gh'', ''status'']
   \<and> \<not> bash_command_is_routine [''./git'', ''status'']"
  by code_simp

end
