(* ===== verification/GB_Search.thy ===== *)
theory GB_Search
  imports GB_Text
begin

section \<open>Searching and replacing in a text (Rust's str)\<close>

text \<open>
  \<open>str::find\<close>, \<open>rfind\<close>, \<open>contains\<close>, \<open>replace\<close> and \<open>split_whitespace\<close> on byte texts, with what
  the components need of them: where the first occurrence is, and which texts occur after a
  replacement. A pattern of \<open>replace_all\<close> is never empty.
\<close>

definition find_sub :: "string \<Rightarrow> string \<Rightarrow> nat option" where
  "find_sub s p = find (\<lambda>i. starts_with (drop i s) p) [0..<length s + 1]"

definition rfind_sub :: "string \<Rightarrow> string \<Rightarrow> nat option" where
  "rfind_sub s p = find (\<lambda>i. starts_with (drop i s) p) (rev [0..<length s + 1])"

fun contains_sub :: "string \<Rightarrow> string \<Rightarrow> bool" where
  "contains_sub [] p = (p = [])"
| "contains_sub (c # s) p = (starts_with (c # s) p \<or> contains_sub s p)"

function replace_all :: "string \<Rightarrow> string \<Rightarrow> string \<Rightarrow> string" where
  "replace_all pat to [] = []"
| "replace_all pat to (c # s) =
     (if pat \<noteq> [] \<and> starts_with (c # s) pat
      then to @ replace_all pat to (drop (length pat) (c # s))
      else c # replace_all pat to s)"
  by pat_completeness auto
termination
  by (relation "measure (\<lambda>(pat, to, s). length s)") (auto simp: neq_Nil_conv)

fun matches_count :: "nat \<Rightarrow> string \<Rightarrow> string \<Rightarrow> nat" where
  "matches_count 0 s p = 0"
| "matches_count (Suc n) s p =
     (case find_sub s p of
        None \<Rightarrow> 0
      | Some i \<Rightarrow> Suc (matches_count n (drop (i + length p) s) p))"

text \<open>\<open>s.matches(p).count()\<close>: at most one match per byte.\<close>

definition count_matches :: "string \<Rightarrow> string \<Rightarrow> nat" where
  "count_matches s p = matches_count (length s) s p"

text \<open>\<open>split_whitespace\<close>: white space is dropped from the front, a word runs to the next one.\<close>

function split_whitespace :: "string \<Rightarrow> string \<Rightarrow> string list" where
  "split_whitespace current [] = (if current = [] then [] else [current])"
| "split_whitespace current (c # s) =
     (let n = ws_prefix_len white_space (c # s)
      in if n = 0 then split_whitespace (current @ [c]) s
         else (if current = [] then [] else [current]) @ split_whitespace [] (drop (n - 1) s))"
  by pat_completeness auto
termination by (relation "measure (\<lambda>(_, s). length s)") auto

text \<open>\<open>split_whitespace().collect::<Vec<_>>().join(" ")\<close>\<close>

definition collapsed_ws :: "string \<Rightarrow> string" where
  "collapsed_ws s = join_words (split_whitespace [] s)"

subsection \<open>Occurrences\<close>

lemma contains_sub_iff: "contains_sub s p \<longleftrightarrow> (\<exists>a b. s = a @ p @ b)"
proof (induction s)
  case (Cons c s)
  show ?case
  proof
    assume "contains_sub (c # s) p"
    then consider "starts_with (c # s) p" | "contains_sub s p" by auto
    then show "\<exists>a b. c # s = a @ p @ b"
    proof cases
      case 1
      then obtain b where "c # s = [] @ p @ b" by (auto simp: starts_with_def prefix_def)
      then show ?thesis by blast
    next
      case 2
      then obtain a b where "c # s = (c # a) @ p @ b" using Cons by auto
      then show ?thesis by blast
    qed
  next
    assume "\<exists>a b. c # s = a @ p @ b"
    then obtain a b where ab: "c # s = a @ p @ b" by blast
    show "contains_sub (c # s) p"
    proof (cases a)
      case Nil
      then have "starts_with (c # s) p" using ab by (metis append_Nil prefixI starts_with_def)
      then show ?thesis by simp
    next
      case (Cons d a')
      then have "s = a' @ p @ b" using ab by simp
      then show ?thesis using Cons.IH by auto
    qed
  qed
qed auto

lemma contains_sub_drop: "contains_sub (drop n s) p \<Longrightarrow> contains_sub s p"
  unfolding contains_sub_iff by (metis append.assoc append_take_drop_id)

lemma contains_sub_take: "contains_sub (take n s) p \<Longrightarrow> contains_sub s p"
  unfolding contains_sub_iff by (metis append.assoc append_take_drop_id)

lemma contains_sub_suffix: "suffix t s \<Longrightarrow> contains_sub t p \<Longrightarrow> contains_sub s p"
  unfolding contains_sub_iff suffix_def by (metis append.assoc)

lemma contains_sub_rev: "contains_sub (rev s) (rev p) \<longleftrightarrow> contains_sub s p"
proof -
  have "contains_sub (rev s) (rev p)" if "contains_sub s p" for s p :: string
    using that unfolding contains_sub_iff by (metis append.assoc rev_append)
  from this [of s p] this [of "rev s" "rev p"] show ?thesis by auto
qed

lemma trim_sub: "contains_sub (trim s) p \<Longrightarrow> contains_sub s p"
proof -
  assume "contains_sub (trim s) p"
  then have "contains_sub (trim_with (map rev white_space) (rev (trim_start s))) (rev p)"
    by (simp add: trim_def trim_end_def contains_sub_rev [of "trim_with _ _", symmetric])
  then have "contains_sub (rev (trim_start s)) (rev p)"
    by (rule contains_sub_suffix [OF trim_with_suffix])
  then show "contains_sub s p"
    using contains_sub_suffix [OF trim_start_suffix] by (simp add: contains_sub_rev)
qed

lemma find_sub_Some:
  assumes "find_sub s p = Some i"
  shows "s = take i s @ p @ drop (i + length p) s" and "i + length p \<le> length s"
    and "\<And>j. j < i \<Longrightarrow> \<not> starts_with (drop j s) p"
proof -
  from assms obtain j where j: "j < length [0..<length s + 1]" "i = [0..<length s + 1] ! j"
    "starts_with (drop i s) p" "\<And>k. k < j \<Longrightarrow> \<not> starts_with (drop ([0..<length s + 1] ! k) s) p"
    unfolding find_sub_def find_Some_iff by (auto simp del: upt_Suc)
  then have ij: "i = j" "i \<le> length s" by (simp_all add: nth_upt del: upt_Suc)
  from j(3) obtain b where b: "drop i s = p @ b" by (auto simp: starts_with_def prefix_def)
  then have "drop (i + length p) s = b" by (metis append_eq_conv_conj drop_drop add.commute)
  then show "s = take i s @ p @ drop (i + length p) s" using b by (metis append_take_drop_id)
  show "i + length p \<le> length s" using b ij
    by (metis add_diff_inverse_nat length_append length_drop nat_add_left_cancel_le le_add1 not_less)
  show "\<not> starts_with (drop k s) p" if "k < i" for k
    using j(4) [of k] that ij by (simp add: nth_upt del: upt_Suc)
qed

lemma find_sub_None: "find_sub s p = None \<longleftrightarrow> \<not> contains_sub s p"
proof -
  have "contains_sub s p" if "i \<le> length s" "starts_with (drop i s) p" for i
  proof -
    from that(2) obtain b where "drop i s = p @ b" by (auto simp: starts_with_def prefix_def)
    then have "s = take i s @ p @ b" by (metis append_take_drop_id)
    then show ?thesis unfolding contains_sub_iff by blast
  qed
  moreover have "\<exists>i \<le> length s. starts_with (drop i s) p" if occ: "contains_sub s p"
  proof -
    from occ obtain a b where "s = a @ p @ b" unfolding contains_sub_iff by blast
    then have "length a \<le> length s" "starts_with (drop (length a) s) p"
      by (simp_all add: starts_with_def)
    then show ?thesis by blast
  qed
  moreover have "find_sub s p = None \<longleftrightarrow> \<not> (\<exists>i \<le> length s. starts_with (drop i s) p)"
    unfolding find_sub_def find_None_iff by (auto simp: less_Suc_eq_le simp del: upt_Suc)
  ultimately show ?thesis by blast
qed

lemma find_sub_middle: "find_sub (a @ p @ b) p \<noteq> None"
  unfolding find_sub_None contains_sub_iff by blast

lemma find_sub_first:
  assumes "\<And>j. j < length a \<Longrightarrow> \<not> starts_with (drop j (a @ p @ b)) p"
  shows "find_sub (a @ p @ b) p = Some (length a)"
proof -
  obtain i where i: "find_sub (a @ p @ b) p = Some i" using find_sub_middle [of a p b] by blast
  have "\<not> length a < i"
    using find_sub_Some(3) [OF i, of "length a"] by (auto simp: starts_with_def)
  moreover have "\<not> i < length a"
  proof
    assume "i < length a"
    moreover have "starts_with (drop i (a @ p @ b)) p"
      using find_sub_Some(1,2) [OF i]
      by (metis append_eq_conv_conj drop_append length_take min.absorb2 prefix_def starts_with_def
          add_leD1 append_take_drop_id same_append_eq)
    ultimately show False using assms by blast
  qed
  ultimately show ?thesis using i by simp
qed

subsection \<open>Replacing\<close>

lemma replace_all_no_occ: "\<not> contains_sub s pat \<Longrightarrow> replace_all pat to s = s"
  by (induction pat to s rule: replace_all.induct) auto

text \<open>Where pattern and replacement begin with \<open>c\<close>, a text without \<open>c\<close> begins the result only
  where it began the original.\<close>

lemma replace_all_starts:
  "c \<notin> set q \<Longrightarrow> starts_with (replace_all (c # p) (c # t) s) q \<Longrightarrow> starts_with s q"
proof (induction s arbitrary: q)
  case (Cons d s)
  show ?case
  proof (cases "starts_with (d # s) (c # p)")
    case True
    then show ?thesis using Cons.prems by (cases q) auto
  next
    case False
    then show ?thesis using Cons by (cases q) auto
  qed
qed simp

lemma contains_sub_skip:
  "hd tok \<notin> set a \<Longrightarrow> tok \<noteq> [] \<Longrightarrow> contains_sub (a @ b) tok \<Longrightarrow> contains_sub b tok"
proof (induction a)
  case (Cons x a)
  then show ?case by (cases tok) auto
qed simp

lemma replace_all_occ:
  assumes "c \<notin> set q" and "z \<notin> set (take 1 q)" and "q \<noteq> []" and "c \<notin> set (z # r)"
  shows "contains_sub (replace_all (c # p) (c # z # r) s) (c # q) \<Longrightarrow> contains_sub s (c # q) \<and> q \<noteq> p"
proof (induction "c # p" "c # z # r" s rule: replace_all.induct)
  case (2 d s)
  show ?case
  proof (cases "starts_with (d # s) (c # p)")
    case True
    let ?rest = "replace_all (c # p) (c # z # r) (drop (length (c # p)) (d # s))"
    have "\<not> starts_with (c # z # r @ ?rest) (c # q)"
      using assms(2,3) by (cases q) auto
    then have "contains_sub ((z # r) @ ?rest) (c # q)" using 2(3) True by auto
    then have "contains_sub ?rest (c # q)"
      using assms(4) contains_sub_skip [of "c # q" "z # r" ?rest] by simp
    then have "contains_sub (drop (length p) s) (c # q) \<and> q \<noteq> p" using 2(1) True by simp
    then show ?thesis using contains_sub_drop [of "length p" s] by simp
  next
    case False
    then have split: "starts_with (d # replace_all (c # p) (c # z # r) s) (c # q)
        \<or> contains_sub (replace_all (c # p) (c # z # r) s) (c # q)"
      using 2(3) by auto
    have "starts_with s q" if "starts_with (replace_all (c # p) (c # z # r) s) q"
      by (rule replace_all_starts [OF assms(1) that])
    then show ?thesis using split False 2(2) by auto
  qed
qed simp

lemma replace_all_occ_other:
  assumes "c \<notin> set tok" and "tok \<noteq> []" and "hd tok \<notin> set t"
  shows "contains_sub (replace_all (c # p) (c # t) s) tok \<Longrightarrow> contains_sub s tok"
proof (induction "c # p" "c # t" s rule: replace_all.induct)
  case (2 d s)
  show ?case
  proof (cases "starts_with (d # s) (c # p)")
    case True
    let ?rest = "replace_all (c # p) (c # t) (drop (length (c # p)) (d # s))"
    have "contains_sub ((c # t) @ ?rest) tok" using 2(3) True by auto
    then have "contains_sub ?rest tok"
      using assms contains_sub_skip [of tok "c # t" ?rest] by (cases tok) auto
    then show ?thesis using 2(1) True contains_sub_drop [of "length (c # p)" "d # s"] by auto
  next
    case False
    then have split: "starts_with (d # replace_all (c # p) (c # t) s) tok
        \<or> contains_sub (replace_all (c # p) (c # t) s) tok"
      using 2(3) by auto
    have "starts_with (d # s) tok" if "starts_with (d # replace_all (c # p) (c # t) s) tok"
      using that assms(1) replace_all_starts [of c "tl tok" p t s] by (cases tok) auto
    then show ?thesis using split False 2(2) by auto
  qed
qed simp

lemma replace_all_shorter:
  assumes "length to < length pat"
  shows "length (replace_all pat to s) \<le> length s"
    and "contains_sub s pat \<Longrightarrow> length (replace_all pat to s) < length s"
proof -
  have le: "length (replace_all pat to s) \<le> length s" for s
    using assms
  proof (induction pat to s rule: replace_all.induct)
    case (2 pat to c s)
    show ?case
    proof (cases "pat \<noteq> [] \<and> starts_with (c # s) pat")
      case True
      then have "length pat \<le> length (c # s)" by (metis prefix_length_le starts_with_def)
      then show ?thesis using 2(1) [OF True 2(3)] True 2(3) by simp
    next
      case False
      then show ?thesis using 2(2) [OF False 2(3)] by auto
    qed
  qed simp
  show "length (replace_all pat to s) \<le> length s" by (rule le)
  show "length (replace_all pat to s) < length s" if "contains_sub s pat"
    using that assms
  proof (induction s)
    case (Cons c s)
    show ?case
    proof (cases "starts_with (c # s) pat")
      case True
      then have "length pat \<le> length (c # s)" by (auto simp: starts_with_def dest!: prefix_length_le)
      then show ?thesis using True le [of "drop (length pat) (c # s)"] Cons.prems(2) by auto
    next
      case False
      then show ?thesis using Cons by auto
    qed
  qed simp
qed

end
