(* ===== verification/GB_PermissionState.thy ===== *)
theory GB_PermissionState
  imports GB_Text GB_PolicyMatch
begin

section \<open>The stored grants of a project (permission/state.rs)\<close>

text \<open>
  The grants and denies a user gave in a project, how two of them merge, and the store on disk:
  a file per client and a shared one, in the directory of the repository root, with the
  directory of the exact working directory as a read-only older location. A \<open>HashSet\<close> is a list
  in its iteration order; an insertion puts a new entry in front. The TOML printer and parser,
  the location of the session directories, the discovery of the repository root and the clock
  are parameters; the files are a map that the operations thread through.
\<close>

subsection \<open>The state\<close>

datatype edit_policy = EditAsk | EditAllow | EditReject

record permission_state =
  ps_edit_policy :: edit_policy
  ps_allow_bash_execute :: bool
  ps_allowed_bash_commands :: "string list"
  ps_disallowed_bash_commands :: "string list"
  ps_allowed_bash_globs :: "string list"
  ps_allowed_web_fetch_domains :: "string list"
  ps_allowed_mcp_tools :: "string list"
  ps_allowed_mcp_servers :: "string list"
  ps_disallowed_mcp_tools :: "string list"
  ps_disallowed_web_fetch_domains :: "string list"
  ps_validated_mcp_server_grants_version :: int

definition VALIDATED_MCP_SERVER_GRANTS_VERSION :: int where
  "VALIDATED_MCP_SERVER_GRANTS_VERSION = 1"

definition default_permission_state :: permission_state where
  "default_permission_state =
     \<lparr>ps_edit_policy = EditAsk, ps_allow_bash_execute = False, ps_allowed_bash_commands = [],
      ps_disallowed_bash_commands = [], ps_allowed_bash_globs = [],
      ps_allowed_web_fetch_domains = [], ps_allowed_mcp_tools = [], ps_allowed_mcp_servers = [],
      ps_disallowed_mcp_tools = [], ps_disallowed_web_fetch_domains = [],
      ps_validated_mcp_server_grants_version = VALIDATED_MCP_SERVER_GRANTS_VERSION\<rparr>"

text \<open>The stored marker: an integer that is not negative, else the legacy version 0.\<close>

definition deserialize_grants_version :: "int option \<Rightarrow> int" where
  "deserialize_grants_version v =
     (case v of Some version \<Rightarrow> if version \<ge> 0 then version else 0 | None \<Rightarrow> 0)"

definition merge_grants_from :: "permission_state \<Rightarrow> permission_state \<Rightarrow> permission_state" where
  "merge_grants_from self other =
     self\<lparr>ps_allow_bash_execute := ps_allow_bash_execute self \<or> ps_allow_bash_execute other,
          ps_allowed_bash_commands :=
            List.union (ps_allowed_bash_commands other) (ps_allowed_bash_commands self),
          ps_disallowed_bash_commands :=
            List.union (ps_disallowed_bash_commands other) (ps_disallowed_bash_commands self),
          ps_allowed_bash_globs :=
            List.union (ps_allowed_bash_globs other) (ps_allowed_bash_globs self),
          ps_allowed_web_fetch_domains :=
            List.union (ps_allowed_web_fetch_domains other) (ps_allowed_web_fetch_domains self),
          ps_allowed_mcp_tools :=
            List.union (ps_allowed_mcp_tools other) (ps_allowed_mcp_tools self),
          ps_allowed_mcp_servers :=
            List.union (ps_allowed_mcp_servers other) (ps_allowed_mcp_servers self),
          ps_disallowed_mcp_tools :=
            List.union (ps_disallowed_mcp_tools other) (ps_disallowed_mcp_tools self),
          ps_disallowed_web_fetch_domains :=
            List.union (ps_disallowed_web_fetch_domains other)
              (ps_disallowed_web_fetch_domains self)\<rparr>"

subsection \<open>Files\<close>

datatype stored_file = FileMissing | FileUnreadable | FileText string nat

type_synonym disk = "string \<Rightarrow> stored_file"

record store_env =
  se_print :: "permission_state \<Rightarrow> string option"
  se_parse :: "string \<Rightarrow> permission_state option"
  se_writable :: "string \<Rightarrow> bool"
  se_now :: nat
  se_sessions_cwd_dir :: "string \<Rightarrow> string"
  se_git_root :: "string \<Rightarrow> string option"

definition sanitize_client_id :: "string \<Rightarrow> string" where
  "sanitize_client_id i =
     map (\<lambda>c. if is_ascii_alnum c \<or> c = CHR ''-'' \<or> c = CHR ''_'' then c else CHR ''_'')
       (filter (\<lambda>c. \<not> is_continuation c) i)"

definition state_file_path :: "string \<Rightarrow> string option \<Rightarrow> string" where
  "state_file_path dir client =
     (case client of
        Some i \<Rightarrow> dir @ ''/permission_'' @ sanitize_client_id i @ ''.toml''
      | None \<Rightarrow> dir @ ''/permission.toml'')"

text \<open>A failed print or write leaves the file as it is.\<close>

definition persist_state_to_path ::
  "store_env \<Rightarrow> disk \<Rightarrow> string \<Rightarrow> permission_state \<Rightarrow> disk" where
  "persist_state_to_path se d path st =
     (case se_print se st of
        Some contents \<Rightarrow> if se_writable se path then d(path := FileText contents (se_now se)) else d
      | None \<Rightarrow> d)"

definition try_load_state ::
  "store_env \<Rightarrow> disk \<Rightarrow> string \<Rightarrow> permission_state option \<times> disk" where
  "try_load_state se d path =
     (case d path of
        FileText s _ \<Rightarrow>
          (let st = (case se_parse se s of Some st \<Rightarrow> st | None \<Rightarrow> default_permission_state)
           in if ps_validated_mcp_server_grants_version st < VALIDATED_MCP_SERVER_GRANTS_VERSION
              then let st' = st\<lparr>ps_allowed_mcp_servers := [],
                               ps_validated_mcp_server_grants_version :=
                                 VALIDATED_MCP_SERVER_GRANTS_VERSION\<rparr>
                   in (Some st', persist_state_to_path se d path st')
              else (Some st, d))
      | FileMissing \<Rightarrow> (None, d)
      | FileUnreadable \<Rightarrow> (None, d))"

definition load_shared_state ::
  "store_env \<Rightarrow> disk \<Rightarrow> string \<Rightarrow> permission_state \<times> disk" where
  "load_shared_state se d dir =
     (let (loaded, d') = try_load_state se d (state_file_path dir None)
      in (case loaded of Some st \<Rightarrow> st | None \<Rightarrow> default_permission_state, d'))"

definition load_state_from_dir ::
  "store_env \<Rightarrow> disk \<Rightarrow> string \<Rightarrow> string option \<Rightarrow> permission_state \<times> disk" where
  "load_state_from_dir se d dir client =
     (case client of
        Some i \<Rightarrow>
          (case try_load_state se d (state_file_path dir (Some i)) of
             (Some st, d') \<Rightarrow> (st, d')
           | (None, d') \<Rightarrow> load_shared_state se d' dir)
      | None \<Rightarrow> load_shared_state se d dir)"

text \<open>An error of the existence check counts as present.\<close>

definition state_dir_has_store :: "disk \<Rightarrow> string \<Rightarrow> string option \<Rightarrow> bool" where
  "state_dir_has_store d dir client \<longleftrightarrow>
     (client \<noteq> None \<and> d (state_file_path dir client) \<noteq> FileMissing)
     \<or> d (state_file_path dir None) \<noteq> FileMissing"

definition load_state_with_fallback ::
  "store_env \<Rightarrow> disk \<Rightarrow> string \<Rightarrow> string option \<Rightarrow> string option \<Rightarrow> permission_state \<times> disk" where
  "load_state_with_fallback se d dir legacy_dir client =
     (case legacy_dir of
        Some legacy \<Rightarrow>
          if \<not> state_dir_has_store d dir client then load_state_from_dir se d legacy client
          else load_state_from_dir se d dir client
      | None \<Rightarrow> load_state_from_dir se d dir client)"

subsection \<open>Locations\<close>

record store_dirs =
  sd_dir :: string
  sd_legacy_dir :: "string option"

definition permission_scope_root :: "store_env \<Rightarrow> string \<Rightarrow> string" where
  "permission_scope_root se cwd = (case se_git_root se cwd of Some root \<Rightarrow> root | None \<Rightarrow> cwd)"

definition legacy_state_dir :: "store_env \<Rightarrow> string \<Rightarrow> string \<Rightarrow> string option" where
  "legacy_state_dir se cwd dir =
     (let legacy = se_sessions_cwd_dir se cwd in if legacy \<noteq> dir then Some legacy else None)"

definition resolve_store_dirs :: "store_env \<Rightarrow> string \<Rightarrow> store_dirs" where
  "resolve_store_dirs se cwd =
     (let dir = se_sessions_cwd_dir se (permission_scope_root se cwd)
      in \<lparr>sd_dir = dir, sd_legacy_dir = legacy_state_dir se cwd dir\<rparr>)"

definition load_state_from_disk ::
  "store_env \<Rightarrow> disk \<Rightarrow> string \<Rightarrow> string option \<Rightarrow> permission_state \<times> disk" where
  "load_state_from_disk se d cwd client =
     (let dirs = resolve_store_dirs se cwd
      in load_state_with_fallback se d (sd_dir dirs) (sd_legacy_dir dirs) client)"

subsection \<open>The cached store\<close>

record cached_state_store =
  cs_dir :: string
  cs_legacy_dir :: "string option"
  cs_client_identifier :: "string option"
  cs_last_sig :: "(nat \<times> nat) option"

definition current_sig :: "disk \<Rightarrow> cached_state_store \<Rightarrow> (nat \<times> nat) option" where
  "current_sig d store =
     (case d (state_file_path (cs_dir store) (cs_client_identifier store)) of
        FileText s mtime \<Rightarrow> Some (mtime, length s)
      | _ \<Rightarrow> None)"

definition store_read ::
  "store_env \<Rightarrow> disk \<Rightarrow> cached_state_store \<Rightarrow> permission_state \<times> disk" where
  "store_read se d store =
     load_state_with_fallback se d (cs_dir store) (cs_legacy_dir store) (cs_client_identifier store)"

definition resolve_and_load ::
  "store_env \<Rightarrow> disk \<Rightarrow> string \<Rightarrow> string option
   \<Rightarrow> (cached_state_store \<times> permission_state) \<times> disk" where
  "resolve_and_load se d cwd client =
     (let dirs = resolve_store_dirs se cwd;
          store = \<lparr>cs_dir = sd_dir dirs, cs_legacy_dir = sd_legacy_dir dirs,
                   cs_client_identifier = client, cs_last_sig = None\<rparr>;
          store' = store\<lparr>cs_last_sig := current_sig d store\<rparr>;
          (st, d') = store_read se d store'
      in ((store', st), d'))"

definition reload_if_changed ::
  "store_env \<Rightarrow> disk \<Rightarrow> cached_state_store
   \<Rightarrow> (permission_state option \<times> cached_state_store) \<times> disk" where
  "reload_if_changed se d store =
     (let sig = current_sig d store
      in if sig = cs_last_sig store then ((None, store), d)
         else let store' = store\<lparr>cs_last_sig := sig\<rparr>;
                  (st, d') = store_read se d store'
              in ((Some st, store'), d'))"

subsection \<open>Writing\<close>

definition persist_state_to_dir ::
  "store_env \<Rightarrow> disk \<Rightarrow> string \<Rightarrow> permission_state \<Rightarrow> string option \<Rightarrow> disk" where
  "persist_state_to_dir se d dir st client =
     persist_state_to_path se d (state_file_path dir client) st"

definition persist_state_merging_to_dir ::
  "store_env \<Rightarrow> disk \<Rightarrow> string \<Rightarrow> permission_state \<Rightarrow> string option \<Rightarrow> disk" where
  "persist_state_merging_to_dir se d dir st client =
     (let (on_disk, d') = try_load_state se d (state_file_path dir client);
          merged = (case on_disk of Some other \<Rightarrow> merge_grants_from st other | None \<Rightarrow> st)
      in persist_state_to_dir se d' dir merged client)"

definition persist_state ::
  "store_env \<Rightarrow> disk \<Rightarrow> string \<Rightarrow> permission_state \<Rightarrow> string option \<Rightarrow> disk" where
  "persist_state se d cwd st client =
     persist_state_merging_to_dir se d (sd_dir (resolve_store_dirs se cwd)) st client"

definition replace_state_on_disk ::
  "store_env \<Rightarrow> disk \<Rightarrow> string \<Rightarrow> permission_state \<Rightarrow> string option \<Rightarrow> disk" where
  "replace_state_on_disk se d cwd st client =
     persist_state_to_dir se d (sd_dir (resolve_store_dirs se cwd)) st client"

text \<open>
  The clean-up of stale stores: of the files of the session directories, those named like a
  store whose age is known and over the limit are removed.
\<close>

definition is_stale_store :: "nat \<Rightarrow> string \<times> nat option \<Rightarrow> bool" where
  "is_stale_store max_age file =
     (case file of
        (name, age) \<Rightarrow>
          starts_with name ''permission'' \<and> ends_with name ''.toml''
          \<and> (case age of Some a \<Rightarrow> a > max_age | None \<Rightarrow> False))"

definition cleanup_stale_permission_state ::
  "nat \<Rightarrow> (string \<times> nat option) list list \<Rightarrow> (string \<times> nat option) list list" where
  "cleanup_stale_permission_state max_age dirs =
     map (filter (\<lambda>file. \<not> is_stale_store max_age file)) dirs"

section \<open>Properties of the store\<close>

text \<open>One state knows at least the grants and denies of another.\<close>

definition knows_grants_of :: "permission_state \<Rightarrow> permission_state \<Rightarrow> bool" where
  "knows_grants_of a b \<longleftrightarrow>
     (ps_allow_bash_execute b \<longrightarrow> ps_allow_bash_execute a)
     \<and> set (ps_allowed_bash_commands b) \<subseteq> set (ps_allowed_bash_commands a)
     \<and> set (ps_allowed_bash_globs b) \<subseteq> set (ps_allowed_bash_globs a)
     \<and> set (ps_allowed_web_fetch_domains b) \<subseteq> set (ps_allowed_web_fetch_domains a)
     \<and> set (ps_allowed_mcp_tools b) \<subseteq> set (ps_allowed_mcp_tools a)
     \<and> set (ps_allowed_mcp_servers b) \<subseteq> set (ps_allowed_mcp_servers a)"

definition knows_denies_of :: "permission_state \<Rightarrow> permission_state \<Rightarrow> bool" where
  "knows_denies_of a b \<longleftrightarrow>
     set (ps_disallowed_bash_commands b) \<subseteq> set (ps_disallowed_bash_commands a)
     \<and> set (ps_disallowed_mcp_tools b) \<subseteq> set (ps_disallowed_mcp_tools a)
     \<and> set (ps_disallowed_web_fetch_domains b) \<subseteq> set (ps_disallowed_web_fetch_domains a)"

lemma merge_knows:
  "knows_grants_of (merge_grants_from a b) a" "knows_grants_of (merge_grants_from a b) b"
  "knows_denies_of (merge_grants_from a b) a" "knows_denies_of (merge_grants_from a b) b"
  by (auto simp: knows_grants_of_def knows_denies_of_def merge_grants_from_def)

lemma merge_least:
  assumes "knows_grants_of c a" "knows_grants_of c b" "knows_denies_of c a" "knows_denies_of c b"
  shows "knows_grants_of c (merge_grants_from a b) \<and> knows_denies_of c (merge_grants_from a b)"
  using assms by (auto simp: knows_grants_of_def knows_denies_of_def merge_grants_from_def)

lemma merge_version [simp]:
  "ps_validated_mcp_server_grants_version (merge_grants_from a b)
   = ps_validated_mcp_server_grants_version a"
  by (simp add: merge_grants_from_def)

text \<open>The printed text of a state parses back, as the documentation of the TOML crate promises.\<close>

definition prints_back :: "store_env \<Rightarrow> permission_state \<Rightarrow> bool" where
  "prints_back se st \<longleftrightarrow> (\<exists>s. se_print se st = Some s \<and> se_parse se s = Some st)"

abbreviation current_version :: "permission_state \<Rightarrow> bool" where
  "current_version st \<equiv>
     ps_validated_mcp_server_grants_version st \<ge> VALIDATED_MCP_SERVER_GRANTS_VERSION"

lemma load_after_persist:
  assumes "prints_back se st" and "se_writable se (state_file_path dir client)"
    and "current_version st"
  shows "load_state_with_fallback se (persist_state_to_dir se d dir st client) dir legacy client
    = (st, persist_state_to_dir se d dir st client)"
proof -
  obtain s where s: "se_print se st = Some s" "se_parse se s = Some st"
    using assms(1) by (auto simp: prints_back_def)
  let ?d = "persist_state_to_dir se d dir st client"
  have written: "?d (state_file_path dir client) = FileText s (se_now se)"
    using s(1) assms(2) by (simp add: persist_state_to_dir_def persist_state_to_path_def)
  then have "try_load_state se ?d (state_file_path dir client) = (Some st, ?d)"
    using s(2) assms(3) by (simp add: try_load_state_def Let_def)
  moreover have "state_dir_has_store ?d dir client"
    using written by (cases client) (auto simp: state_dir_has_store_def)
  ultimately show ?thesis
    by (auto simp: load_state_with_fallback_def load_state_from_dir_def load_shared_state_def
        split: option.split)
qed

text \<open>The state the store file of a client and directory stands for, and what a save writes.\<close>

definition stored_state :: "store_env \<Rightarrow> disk \<Rightarrow> string \<Rightarrow> string option \<Rightarrow> permission_state option" where
  "stored_state se d dir client = fst (try_load_state se d (state_file_path dir client))"

definition saved_state :: "permission_state option \<Rightarrow> permission_state \<Rightarrow> permission_state" where
  "saved_state before st = (case before of Some other \<Rightarrow> merge_grants_from st other | None \<Rightarrow> st)"

lemma saved_knows:
  "knows_grants_of (saved_state before st) st" "knows_denies_of (saved_state before st) st"
  "before = Some other \<Longrightarrow> knows_grants_of (saved_state before st) other"
  "before = Some other \<Longrightarrow> knows_denies_of (saved_state before st) other"
  using merge_knows by (auto simp: saved_state_def knows_grants_of_def knows_denies_of_def
      split: option.split)

text \<open>
  C31. One save loses nothing of a concurrent session of the same client: after a session with state
  \<open>st\<close> has saved into its store file, which can be written and parses back, and \<open>st\<close> has the current version, every later load of
  the same client in the same project knows all grants and denies of \<open>st\<close> and all that the file
  held before. Other clients have store files of their own.
\<close>

theorem persist_keeps_both_sessions:
  fixes se d cwd st client
  defines "dir \<equiv> sd_dir (resolve_store_dirs se cwd)"
  assumes "prints_back se (saved_state (stored_state se d dir client) st)" and "current_version st"
    and "se_writable se (state_file_path dir client)"
  shows "let loaded = fst (load_state_from_disk se (persist_state se d cwd st client) cwd client)
         in knows_grants_of loaded st \<and> knows_denies_of loaded st
            \<and> (\<forall>other. stored_state se d dir client = Some other \<longrightarrow>
                 knows_grants_of loaded other \<and> knows_denies_of loaded other)"
proof -
  let ?before = "stored_state se d dir client"
  obtain before d1 where split: "try_load_state se d (state_file_path dir client) = (before, d1)"
    by (cases "try_load_state se d (state_file_path dir client)")
  then have before: "?before = before" by (simp add: stored_state_def)
  have "current_version (saved_state ?before st)"
    using assms(3) by (simp add: saved_state_def split: option.split)
  then have "fst (load_state_from_disk se (persist_state se d cwd st client) cwd client)
      = saved_state ?before st"
    using load_after_persist [OF assms(2,4)]
    unfolding before
    by (simp add: load_state_from_disk_def persist_state_def persist_state_merging_to_dir_def
        Let_def split saved_state_def flip: dir_def)
  then show ?thesis using saved_knows [of ?before] by (simp add: Let_def)
qed

text \<open>
  A reset is final: after the reset every load of the client that reset starts from the
  default state, without a single grant, whatever stores the older locations still hold.
\<close>

theorem reset_is_final:
  assumes "prints_back se default_permission_state"
    and "se_writable se (state_file_path (sd_dir (resolve_store_dirs se cwd)) client)"
  shows "fst (load_state_from_disk se
      (replace_state_on_disk se d cwd default_permission_state client) cwd client)
    = default_permission_state"
  using load_after_persist [OF assms, of d]
  by (simp add: load_state_from_disk_def replace_state_on_disk_def Let_def default_permission_state_def)

text \<open>
  A load never hands out a server grant of a file without the marker of validated grants.
\<close>

lemma legacy_server_grants_dropped:
  "fst (try_load_state se d path) = Some st \<Longrightarrow> current_version st"
  by (auto simp: try_load_state_def Let_def split: stored_file.splits if_splits)

text \<open>
  The reset of one client does not end the older location for another: the other client, with no
  file of its own and no shared file, still loads the older store.
\<close>

lemma reset_leaves_other_client:
  assumes "d (state_file_path dir None) = FileMissing" and "se_writable se (state_file_path dir (Some i))"
  shows "load_state_with_fallback se (persist_state_to_dir se d dir default_permission_state (Some i))
      dir (Some legacy) None
    = load_state_from_dir se (persist_state_to_dir se d dir default_permission_state (Some i)) legacy None"
proof -
  have "state_file_path dir None \<noteq> state_file_path dir (Some i)"
    by (simp add: state_file_path_def)
  then have "persist_state_to_dir se d dir default_permission_state (Some i) (state_file_path dir None)
      = FileMissing"
    using assms(1)
    by (simp add: persist_state_to_dir_def persist_state_to_path_def split: option.split)
  then show ?thesis by (simp add: load_state_with_fallback_def state_dir_has_store_def)
qed

subsection \<open>A concrete store\<close>

text \<open>A printer for the states with one grant list.\<close>

definition grant_state :: "string list \<Rightarrow> permission_state" where
  "grant_state gs = default_permission_state\<lparr>ps_allowed_bash_commands := gs\<rparr>"

definition sample_store :: store_env where
  "sample_store =
     \<lparr>se_print = (\<lambda>st. Some (join_with [LF] (ps_allowed_bash_commands st))),
      se_parse = (\<lambda>s. Some (grant_state (if s = [] then [] else split_char LF s))),
      se_writable = (\<lambda>_. True), se_now = 5, se_sessions_cwd_dir = (\<lambda>s. ''/s'' @ s),
      se_git_root = (\<lambda>_. Some ''/repo'')\<rparr>"

lemmas sample_store_eval =
  sample_store_def grant_state_def default_permission_state_def prints_back_def
  resolve_store_dirs_def permission_scope_root_def state_file_path_def stored_state_def
  saved_state_def try_load_state_def VALIDATED_MCP_SERVER_GRANTS_VERSION_def

theorem persist_keeps_both_sessions_witness:
  "let d = (\<lambda>_. FileMissing)(''/s/repo/permission.toml'' := FileText ''ls'' 1);
       loaded = fst (load_state_from_disk sample_store
                  (persist_state sample_store d ''/repo/a'' (grant_state [''cat'']) None) ''/repo/a'' None)
   in set (ps_allowed_bash_commands loaded) \<supseteq> {''ls'', ''cat''}"
proof -
  let ?d = "(\<lambda>_. FileMissing)(''/s/repo/permission.toml'' := FileText ''ls'' 1)"
  have dir: "sd_dir (resolve_store_dirs sample_store ''/repo/a'') = ''/s/repo''"
    by (simp add: sample_store_eval Let_def)
  have stored: "stored_state sample_store ?d ''/s/repo'' None = Some (grant_state [''ls''])"
    by (simp add: sample_store_eval LF_def Let_def)
  have "saved_state (Some (grant_state [''ls''])) (grant_state [''cat'']) = grant_state [''ls'', ''cat'']"
    by (simp add: saved_state_def merge_grants_from_def grant_state_def default_permission_state_def
        List.union_def)
  then have "prints_back sample_store
      (saved_state (stored_state sample_store ?d ''/s/repo'' None) (grant_state [''cat'']))"
    unfolding stored by (simp add: sample_store_eval LF_def)
  then show ?thesis
    using persist_keeps_both_sessions [of sample_store ?d "''/repo/a''" None "grant_state [''cat'']"]
    unfolding dir stored
    by (simp add: Let_def knows_grants_of_def)
      (simp add: sample_store_eval)
qed

theorem reset_is_final_witness:
  "ps_allowed_bash_commands (fst (load_state_from_disk sample_store
     (replace_state_on_disk sample_store (\<lambda>_. FileText ''ls'' 1) ''/repo/a'' default_permission_state
        (Some ''cli'')) ''/repo/a'' (Some ''cli''))) = []"
proof -
  have "prints_back sample_store default_permission_state"
    by (simp add: sample_store_eval)
  then show ?thesis
    using reset_is_final [of sample_store "''/repo/a''" "Some ''cli''" "\<lambda>_. FileText ''ls'' 1"]
    by (simp add: default_permission_state_def sample_store_def)
qed

end
