(* ===== verification/GB_Grants.thy ===== *)
theory GB_Grants
  imports GB_Classifier GB_PermissionState GB_Gate
begin

section \<open>Grants and denies of a session (manager/mod.rs, web_fetch/domain.rs)\<close>

text \<open>
  What the stored grants and denies of a project say about one request: exact and server-wide
  grants of MCP tools, domains of web fetches, and the evaluation of a shell script against the
  safe lists, the granted command prefixes and the static findings.
\<close>

subsection \<open>Reasons\<close>

datatype decision_reason =
  YOLO | POLICY_ALLOW | POLICY_DENY | REASON_POLICY_ASK | REASON_BASH_COMMAND_GATE_ASK
| REASON_SHELL_FILE_GATE_ASK | AUTO_FAST_PATH | AUTO_CLASSIFIER_ALLOW | AUTO_CLASSIFIER_DENY
| AUTO_CLASSIFIER_TIMEOUT | AUTO_CLASSIFIER_UNAVAILABLE | AUTO_DENIAL_LIMIT | SANDBOX_AUTO
| PERSISTED_GRANT | SESSION_GRANT | STATIC_ALLOWLIST | SAFE_COMMAND | SESSION_DENY
| PROMPT_DENY | PROMPT_ALLOW | NEEDS_USER | BASH_REQUEST_FLOOR | REASON_OPAQUE_SHELL | HOOK_ASK
| REQUESTER_GONE

subsection \<open>MCP tools\<close>

definition is_id_char :: "char \<Rightarrow> bool" where
  "is_id_char c \<longleftrightarrow> is_ascii_alnum c \<or> c = CHR ''_'' \<or> c = CHR ''-''"

definition is_valid_segment :: "string \<Rightarrow> bool" where
  "is_valid_segment s \<longleftrightarrow> s \<noteq> [] \<and> list_all is_id_char s"

definition is_well_formed_tool_id :: "string \<Rightarrow> bool" where
  "is_well_formed_tool_id s =
     (case split_char (CHR '':'') s of
        [first] \<Rightarrow> is_valid_segment first
      | [first, second] \<Rightarrow> is_valid_segment first \<and> is_valid_segment second
      | _ \<Rightarrow> False)"

definition tool_id_new :: "string \<Rightarrow> string option" where
  "tool_id_new s = (if s \<noteq> [] \<and> is_well_formed_tool_id s then Some s else None)"

text \<open>The server and the tool of a qualified name: the delimiter occurs exactly once.\<close>

definition delimiter_boundaries :: "string \<Rightarrow> nat list" where
  "delimiter_boundaries name =
     filter (\<lambda>i. starts_with (drop i name) ''__'') [0..<length name]"

definition parse_mcp_qualified_name :: "string \<Rightarrow> (string \<times> string \<times> string) option" where
  "parse_mcp_qualified_name name =
     (case delimiter_boundaries name of
        [boundary] \<Rightarrow>
          (let server = take boundary name; tool = drop (boundary + 2) name
           in if server = [] \<or> tool = [] then None
              else map_option (\<lambda>i. (i, server, tool)) (tool_id_new name))
      | _ \<Rightarrow> None)"

definition mcp_server_prefix_allowed :: "string \<Rightarrow> string list \<Rightarrow> bool" where
  "mcp_server_prefix_allowed name servers \<longleftrightarrow>
     servers \<noteq> []
     \<and> (case parse_mcp_qualified_name name of
          Some (_, server, _) \<Rightarrow> server \<in> set servers | None \<Rightarrow> False)"

definition previously_rejected :: "string \<Rightarrow> string" where
  "previously_rejected what = ''User previously rejected `'' @ what @ ''` in this project''"

definition mcp_pre_decision ::
  "string \<Rightarrow> permission_state \<Rightarrow> bool \<Rightarrow> bool \<Rightarrow> decision option" where
  "mcp_pre_decision name st forced remember_tool_approvals =
     (if name \<in> set (ps_disallowed_mcp_tools st) then Some (Reject (previously_rejected name))
      else if forced \<and> \<not> remember_tool_approvals then None
      else if name \<in> set (ps_allowed_mcp_tools st) then Some Allow
      else if mcp_server_prefix_allowed name (ps_allowed_mcp_servers st) then Some Allow
      else None)"

subsection \<open>Web fetches\<close>

definition web_fetch_deny_key :: "world \<Rightarrow> string \<Rightarrow> string" where
  "web_fetch_deny_key w host = w_lowercase w (trim_end_matches (CHR ''.'') (trim host))"

definition web_fetch_deny_key_from_url :: "world \<Rightarrow> string \<Rightarrow> string option" where
  "web_fetch_deny_key_from_url w url =
     (case w_url_host w url of
        None \<Rightarrow> None
      | Some host \<Rightarrow>
          (let key = web_fetch_deny_key w host in if key \<noteq> [] then Some key else None))"

definition denied_domain_matches :: "string \<Rightarrow> string \<Rightarrow> bool" where
  "denied_domain_matches domain denied \<longleftrightarrow>
     denied \<noteq> []
     \<and> (domain = denied
        \<or> (length domain > length denied + 1 \<and> ends_with domain denied
           \<and> domain ! (length domain - length denied - 1) = CHR ''.''))"

definition denied_web_fetch_domain :: "world \<Rightarrow> string \<Rightarrow> string list \<Rightarrow> string option" where
  "denied_web_fetch_domain w host disallowed =
     (if disallowed = [] then None
      else find (denied_domain_matches (web_fetch_deny_key w host)) disallowed)"

definition web_fetch_deny_pre_decision ::
  "world \<Rightarrow> string \<Rightarrow> permission_state \<Rightarrow> decision option" where
  "web_fetch_deny_pre_decision w url st =
     (case w_url_host w url of
        None \<Rightarrow> None
      | Some host \<Rightarrow>
          map_option (\<lambda>denied. Reject (previously_rejected denied))
            (denied_web_fetch_domain w host (ps_disallowed_web_fetch_domains st)))"

text \<open>The static allowlist; a host maps to any path or to a list of path pres.\<close>

datatype host_entry = AnyPath | PathPrefixes "string list"

type_synonym domain_matcher = "string \<rightharpoonup> host_entry"

definition add_path_prefix :: "domain_matcher \<Rightarrow> string \<Rightarrow> string \<Rightarrow> domain_matcher" where
  "add_path_prefix entries host pre =
     (case entries host of
        Some (PathPrefixes v) \<Rightarrow>
          if pre \<notin> set v then entries(host \<mapsto> PathPrefixes (v @ [pre])) else entries
      | Some AnyPath \<Rightarrow> entries
      | None \<Rightarrow> entries(host \<mapsto> PathPrefixes [pre]))"

definition add_domain_entry :: "world \<Rightarrow> domain_matcher \<Rightarrow> string \<Rightarrow> domain_matcher" where
  "add_domain_entry w entries raw =
     (let normalized = normalize_domain w raw
      in if normalized = [] then entries
         else if \<not> contains_char normalized (CHR ''/'') then entries(normalized \<mapsto> AnyPath)
         else let host = before_char (CHR ''/'') normalized;
                  raw_path = drop (length host) normalized
              in if entries host = Some AnyPath then entries
                 else let pre = trim_end_matches (CHR ''/'') raw_path
                      in if pre = [] \<or> pre = ''/'' then entries(host \<mapsto> AnyPath)
                         else add_path_prefix entries host
                                (if starts_with pre ''/'' then pre else ''/'' @ pre))"

definition domain_matcher_new :: "world \<Rightarrow> string list \<Rightarrow> domain_matcher" where
  "domain_matcher_new w raw_entries = foldl (add_domain_entry w) (\<lambda>_. None) raw_entries"

text \<open>\<open>check\<close>: the host that is not allowed, or \<open>None\<close>. \<open>url_path\<close> is the path of the URL.\<close>

definition domain_check ::
  "world \<Rightarrow> (string \<Rightarrow> string) \<Rightarrow> domain_matcher \<Rightarrow> string \<Rightarrow> string option" where
  "domain_check w url_path entries url =
     (case w_url_host w url of
        None \<Rightarrow> Some []
      | Some raw_host \<Rightarrow>
          (let host = normalize_domain w raw_host
           in case entries host of
                Some AnyPath \<Rightarrow> None
              | Some (PathPrefixes pres) \<Rightarrow>
                  (let p = w_lowercase w (url_path url)
                   in if list_ex (\<lambda>pre. p = pre
                                   \<or> (starts_with p pre
                                      \<and> nth_opt p (length pre) = Some (CHR ''/''))) pres
                      then None else Some host)
              | None \<Rightarrow> Some host))"

subsection \<open>Safe commands\<close>

definition rg_has_pre_flag :: "string list \<Rightarrow> bool" where
  "rg_has_pre_flag words =
     (if normalized_command_head words \<noteq> Some ''rg'' then False
      else list_ex (\<lambda>w. w = ''--pre'' \<or> starts_with w ''--pre='') words)"

definition kubectl_has_unsafe_flag :: "string list \<Rightarrow> bool" where
  "kubectl_has_unsafe_flag words =
     (if normalized_command_head words \<noteq> Some ''kubectl'' then False
      else list_ex (\<lambda>w. (case split_once (CHR ''='') w of Some (name, _) \<Rightarrow> name | None \<Rightarrow> w)
                        \<in> set KUBECTL_UNSAFE_FLAGS) (drop 1 words))"

definition PS_VALUE_FLAGS :: "string list" where
  "PS_VALUE_FLAGS =
     [''-o'', ''-O'', ''--format'', ''--sort'', ''-p'', ''-q'', ''-t'', ''-u'', ''-U'', ''-g'', ''-G'',
      ''-C'', ''-s'', ''--pid'', ''--ppid'', ''--sid'', ''--tty'', ''--user'', ''--group'', ''--cols'',
      ''--columns'', ''--width'', ''o'', ''O'']"

fun ps_loop :: "string list \<Rightarrow> bool" where
  "ps_loop [] = False"
| "ps_loop (s # rest) =
     (if starts_with s ''--format='' \<or> starts_with s ''--sort='' then ps_loop rest
      else if s \<in> set PS_VALUE_FLAGS then ps_loop (drop 1 rest)
      else if starts_with s ''-o'' \<or> starts_with s ''-O'' then ps_loop rest
      else let dashless = \<not> starts_with s ''-'';
               short = (starts_with s ''-'' \<and> \<not> starts_with s ''--'');
               bsd_selector_cluster =
                 (short \<and> (contains_char s (CHR ''a'') \<or> contains_char s (CHR ''x'')))
           in if contains_char s (CHR ''E'')
                 \<or> (contains_char s (CHR ''e'') \<and> (dashless \<or> bsd_selector_cluster)) then True
              else if short \<and> (ends_with s ''o'' \<or> ends_with s ''O'') then ps_loop (drop 1 rest)
              else ps_loop rest)"

definition ps_dumps_environment :: "string list \<Rightarrow> bool" where
  "ps_dumps_environment words =
     (if normalized_command_head words \<noteq> Some ''ps'' then False else ps_loop (drop 1 words))"

definition is_safe_git_query_prefix :: "string \<Rightarrow> bool" where
  "is_safe_git_query_prefix cmd =
     (case strip_prefix cmd ''git '' of
        Some rest \<Rightarrow> list_ex (matches_command_prefix rest) SAFE_GIT_SUBCOMMANDS
      | None \<Rightarrow> False)"

definition SAFE_COMMAND_PREFIXES :: "string list" where
  "SAFE_COMMAND_PREFIXES =
     [''ls'', ''cat'', ''pwd'', ''date'', ''whoami'', ''hostname'', ''uptime'', ''grep'', ''rg'',
      ''kubectl get'', ''kubectl logs'', ''kubectl describe'', ''ps'', ''bin/explorer ls'', ''head'',
      ''tail'', ''wc'', ''sort'', ''uniq'', ''tr'', ''cut'', ''echo'', ''printf'']"

definition is_safe_command_words_str :: "string \<Rightarrow> bool" where
  "is_safe_command_words_str cmd \<longleftrightarrow>
     list_ex (matches_command_prefix cmd) SAFE_COMMAND_PREFIXES \<or> is_safe_git_query_prefix cmd"

definition is_safe_command_words :: "string list \<Rightarrow> bool" where
  "is_safe_command_words words =
     (if words = [] then False
      else if rg_has_pre_flag words then False
      else if kubectl_has_unsafe_flag words then False
      else if ps_dumps_environment words then False
      else if first_opt words = Some ''git'' then git_words_are_read_only_query words
      else is_safe_command_words_str (join_words words))"

definition ALWAYS_SAFE_COMMANDS :: "string list" where
  "ALWAYS_SAFE_COMMANDS =
     [''ls'', ''cat'', ''pwd'', ''date'', ''whoami'', ''hostname'', ''uptime'', ''ps'', ''grep'', ''rg'',
      ''kubectl get'', ''kubectl logs'', ''kubectl describe'', ''bin/explorer ls'']"

definition is_safe_creation_command :: "string list \<Rightarrow> bool" where
  "is_safe_creation_command words =
     (case first_opt words of Some w \<Rightarrow> is_creation_program w | None \<Rightarrow> False)"

definition is_always_safe_command_words :: "string list \<Rightarrow> bool" where
  "is_always_safe_command_words words =
     (if words = [] then False
      else if rg_has_pre_flag words then False
      else if kubectl_has_unsafe_flag words then False
      else if ps_dumps_environment words then False
      else if first_opt words = Some ''git'' then git_words_are_read_only_query words
      else list_ex (matches_command_prefix (join_words words)) ALWAYS_SAFE_COMMANDS)"

subsection \<open>Dangerous commands and the scope of a grant\<close>

definition DANGEROUS_PREFIXES :: "string list" where
  "DANGEROUS_PREFIXES =
     [''rm'', ''chmod'', ''chown'', ''chgrp'', ''chattr'', ''pkill'', ''kill'', ''killall'', ''git push'']"

definition is_dangerous_command_words :: "string list \<Rightarrow> bool" where
  "is_dangerous_command_words words =
     (case normalized_command_head words of
        None \<Rightarrow> False
      | Some head \<Rightarrow>
          (let joined = (if length words = 1 then head
                         else head @ '' '' @ join_words (drop 1 words))
           in list_ex (matches_command_prefix joined) DANGEROUS_PREFIXES))"

definition always_allow_scope_pinned :: "string list \<Rightarrow> bool" where
  "always_allow_scope_pinned words \<longleftrightarrow>
     is_dangerous_command_words words \<or> head_is_exec_vehicle words
     \<or> normalized_command_head words = Some ''sed''"

definition gh_always_allow_scope :: "string list \<Rightarrow> nat option" where
  "gh_always_allow_scope words =
     (if normalized_command_head words \<noteq> Some ''gh'' then None
      else Some (case (nth_opt words 1, nth_opt words 2) of
                   (Some grp, Some verb) \<Rightarrow>
                     if \<not> starts_with grp ''-'' \<and> \<not> starts_with verb ''-'' then 3
                     else length words
                 | _ \<Rightarrow> length words))"

text \<open>\<open>while n < words.len() && words[n].starts_with('-') { n += 1 }\<close>\<close>

definition flags_end :: "string list \<Rightarrow> nat \<Rightarrow> nat" where
  "flags_end words n = n + length (takeWhile (\<lambda>w. starts_with w ''-'') (drop n words))"

definition base_scope :: "string list \<Rightarrow> nat" where
  "base_scope words =
     (if is_safe_command_words words \<and> is_safe_command_words_str (hd words) then 1
      else if is_safe_command_words words \<and> length words \<ge> 2
              \<and> is_safe_command_words_str (join_words (take 2 words)) then 2
      else flags_end words (min (length words) 2))"

definition default_always_allow_scope :: "string list \<Rightarrow> nat" where
  "default_always_allow_scope words =
     (if words = [] then 0
      else if always_allow_scope_pinned words then length words
      else case gh_always_allow_scope words of Some n \<Rightarrow> n | None \<Rightarrow> base_scope words)"

definition default_always_deny_scope :: "string list \<Rightarrow> nat" where
  "default_always_deny_scope words = (if words = [] then 0 else base_scope words)"

definition minimum_always_allow_scope :: "string list \<Rightarrow> nat" where
  "minimum_always_allow_scope words =
     (if always_allow_scope_pinned words then length words
      else case gh_always_allow_scope words of Some n \<Rightarrow> n | None \<Rightarrow> 1)"

definition matches_whitelist_prefix :: "string \<Rightarrow> string \<Rightarrow> bool" where
  "matches_whitelist_prefix segment_str allowed_prefix =
     matches_command_prefix segment_str allowed_prefix"

definition matches_bash_glob :: "world \<Rightarrow> string \<Rightarrow> string \<Rightarrow> bool" where
  "matches_bash_glob w segment_str pattern = bash_pattern_matches_command w pattern segment_str"

end
