(* ===== verification/GB_BashGrants.thy ===== *)
theory GB_BashGrants
  imports GB_Grants
begin

section \<open>Shell grants (manager/mod.rs, manager/bash_grants.rs)\<close>

text \<open>
  The one evaluation of a shell script that every later step of a request reads (\<open>evaluate_bash\<close>),
  the decision the stored grants give on it, and the routines that store a grant for a label the
  prompt showed.
\<close>

subsection \<open>The evaluation of a script\<close>

datatype segment_evaluation =
  AutoAllow bool | SegReject string | NeedsPrompts "string list" | Unparseable

record bash_evaluation =
  be_segments :: segment_evaluation
  be_exact_grant :: bool
  be_all_segments_granted :: bool
  be_assessment :: assessment
  be_redirect_write :: bool
  be_ambient_segments :: "string list list option"
  be_creation_paths :: "string list"
  be_has_cwd_change :: bool

definition unparseable_exec_risk :: "string \<Rightarrow> bool" where
  "unparseable_exec_risk cmd = script_may_invoke_git cmd"

definition env_risk_finding :: "env_risk \<Rightarrow> finding option" where
  "env_risk_finding r =
     (case r of EnvInjected \<Rightarrow> Some EnvInjection | EnvUnvetted \<Rightarrow> Some UnvettedEnv
      | EnvSafe \<Rightarrow> None)"

definition raw_deny_rejection :: "string \<Rightarrow> permission_state \<Rightarrow> segment_evaluation option" where
  "raw_deny_rejection cmd st =
     map_option (\<lambda>d. SegReject (previously_rejected d))
       (find (matches_whitelist_prefix cmd) (ps_disallowed_bash_commands st))"

definition words_join_unambiguously :: "world \<Rightarrow> string list \<Rightarrow> bool" where
  "words_join_unambiguously w words =
     (let joined = join_words words
      in case Option.bind (w_parse w joined)
                (\<lambda>tree. try_parse_word_only_commands_sequence tree joined) of
           Some [only] \<Rightarrow> spans_whole_script only joined \<and> pc_words only = words
         | _ \<Rightarrow> False)"

definition whole_script_grant ::
  "world \<Rightarrow> string \<Rightarrow> plain_command list \<Rightarrow> permission_state \<Rightarrow> bool" where
  "whole_script_grant w cmd segments st =
     (if cmd \<in> set (ps_allowed_bash_commands st) then True
      else case segments of
             [only] \<Rightarrow>
               if spans_whole_script only cmd \<and> words_join_unambiguously w (pc_words only)
               then join_words (pc_words only) \<in> set (ps_allowed_bash_commands st) else False
           | _ \<Rightarrow> False)"

definition matched_command_grant :: "permission_state \<Rightarrow> string list \<Rightarrow> bool" where
  "matched_command_grant st words =
     (if always_allow_scope_pinned words
      then join_words words \<in> set (ps_allowed_bash_commands st)
      else list_ex (matches_whitelist_prefix (join_words words)) (ps_allowed_bash_commands st))"

definition matched_grant :: "world \<Rightarrow> permission_state \<Rightarrow> string list \<Rightarrow> bool" where
  "matched_grant w st words \<longleftrightarrow>
     matched_command_grant st words
     \<or> list_ex (matches_bash_glob w (join_words words)) (ps_allowed_bash_globs st)"

definition special_surface :: "string list \<Rightarrow> bool" where
  "special_surface words \<longleftrightarrow>
     kubectl_has_unsafe_flag words \<or> rg_has_pre_flag words \<or> ps_dumps_environment words
     \<or> git_words_have_unsafe_query_option words"

definition matched_safe :: "bool \<Rightarrow> string list \<Rightarrow> bool" where
  "matched_safe honor_safe_lists words \<longleftrightarrow>
     honor_safe_lists
     \<and> (is_safe_command_words words \<or> is_always_safe_command_words words
        \<or> is_safe_creation_command words)"

text \<open>The variables the loop over the segments updates.\<close>

record bash_loop =
  bl_assessment :: assessment
  bl_needs_prompt :: "string list"
  bl_via_session_grant :: bool
  bl_all_segments_granted :: bool
  bl_exec_risk :: bool
  bl_has_git_command :: bool

text \<open>The facts of a segment that are recorded before the setup check and the denies.\<close>

definition note_segment :: "string list \<Rightarrow> bash_loop \<Rightarrow> bash_loop" where
  "note_segment raw_words l =
     (let words = unwrap_wrappers raw_words; facts = segment_exec_facts raw_words
      in l\<lparr>bl_assessment :=
             bl_assessment l
             \<union> (if words_are_opaque_shell (map Literal words) then {OpaqueShell} else {})
             \<union> (if sf_exec_risk facts then {ExecOrAmbientGit} else {}),
           bl_exec_risk := bl_exec_risk l \<or> sf_exec_risk facts,
           bl_has_git_command := bl_has_git_command l \<or> sf_has_git facts\<rparr>)"

text \<open>The rest of an iteration, for a segment that no deny matches.\<close>

definition grant_segment ::
  "world \<Rightarrow> permission_state \<Rightarrow> bool \<Rightarrow> string list \<Rightarrow> bash_loop \<Rightarrow> bash_loop" where
  "grant_segment w st honor_safe_lists words l =
     (let s = join_words words;
          granted = matched_grant w st words;
          l = l\<lparr>bl_all_segments_granted := bl_all_segments_granted l \<and> granted\<rparr>
      in if is_dangerous_command_words words
         then l\<lparr>bl_assessment := bl_assessment l \<union> {DangerousCommand},
                bl_needs_prompt := bl_needs_prompt l @ [s]\<rparr>
         else if special_surface words \<and> s \<notin> set (ps_allowed_bash_commands st)
         then l\<lparr>bl_assessment := bl_assessment l \<union> {SpecialExecSurface},
                bl_needs_prompt := bl_needs_prompt l @ [s]\<rparr>
         else if granted \<or> matched_safe honor_safe_lists words
         then l\<lparr>bl_via_session_grant := bl_via_session_grant l \<or> granted\<rparr>
         else l\<lparr>bl_needs_prompt := bl_needs_prompt l @ [s]\<rparr>)"

text \<open>The loop: \<open>Inl\<close> is the early return of a segment a stored deny matches.\<close>

fun segment_loop ::
  "world \<Rightarrow> permission_state \<Rightarrow> bool \<Rightarrow> string list list \<Rightarrow> bash_loop
   \<Rightarrow> string \<times> bash_loop + bash_loop" where
  "segment_loop w st honor_safe_lists [] l = Inr l"
| "segment_loop w st honor_safe_lists (raw_words # rest) l =
     (let l = note_segment raw_words l; words = unwrap_wrappers raw_words
      in if is_setup_command words then segment_loop w st honor_safe_lists rest l
         else case find (matches_whitelist_prefix (join_words words))
                     (ps_disallowed_bash_commands st) of
                Some d \<Rightarrow> Inl (previously_rejected d, l)
              | None \<Rightarrow>
                  segment_loop w st honor_safe_lists rest
                    (grant_segment w st honor_safe_lists words l))"

definition undecomposable :: "string \<Rightarrow> permission_state \<Rightarrow> assessment \<Rightarrow> bash_evaluation" where
  "undecomposable cmd st a =
     \<lparr>be_segments = (case raw_deny_rejection cmd st of Some r \<Rightarrow> r | None \<Rightarrow> Unparseable),
      be_exact_grant = (cmd \<in> set (ps_allowed_bash_commands st)),
      be_all_segments_granted = False,
      be_assessment = a \<union> (if unparseable_exec_risk cmd then {ExecOrAmbientGit} else {}),
      be_redirect_write = True, be_ambient_segments = None, be_creation_paths = [],
      be_has_cwd_change = False\<rparr>"

text \<open>The findings on the whole tree, before it is split into segments.\<close>

definition redirect_write :: "write_paths_split \<Rightarrow> bool" where
  "redirect_write writes \<longleftrightarrow>
     wp_unextracted_write_redirect writes
     \<or> list_ex (\<lambda>p. \<not> is_safe_write_sink p) (wp_redirect_paths writes)"

definition tree_findings ::
  "tree \<Rightarrow> string \<Rightarrow> write_paths_split \<Rightarrow> plain_command list option \<Rightarrow> assessment" where
  "tree_findings tree cmd writes segments =
     (if redirect_write writes \<or> list_ex (\<lambda>p. \<not> is_safe_write_sink p) (wp_word_paths writes)
      then {FileWrite} else {})
     \<union> set_option
         (env_risk_finding
            (script_env_risk (tr_root tree) cmd
               (case segments of Some s \<Rightarrow> s | None \<Rightarrow> [])))"

definition evaluate_segments ::
  "world \<Rightarrow> string \<Rightarrow> permission_state \<Rightarrow> bool \<Rightarrow> tree \<Rightarrow> write_paths_split \<Rightarrow> plain_command list
   \<Rightarrow> bash_evaluation" where
  "evaluate_segments w cmd st honor_safe_lists tree writes segments =
     (let exact = whole_script_grant w cmd segments st;
          l0 = \<lparr>bl_assessment = tree_findings tree cmd writes (Some segments),
                bl_needs_prompt = [], bl_via_session_grant = False,
                bl_all_segments_granted = True, bl_exec_risk = False,
                bl_has_git_command = False\<rparr>
      in case segment_loop w st honor_safe_lists (map pc_words segments) l0 of
           Inl (reason, l) \<Rightarrow>
             \<lparr>be_segments = SegReject reason, be_exact_grant = exact,
              be_all_segments_granted = bl_all_segments_granted l,
              be_assessment = bl_assessment l, be_redirect_write = redirect_write writes,
              be_ambient_segments = None, be_creation_paths = [], be_has_cwd_change = False\<rparr>
         | Inr l \<Rightarrow>
             \<lparr>be_segments =
                (if bl_needs_prompt l = [] then AutoAllow (bl_via_session_grant l)
                 else NeedsPrompts (bl_needs_prompt l)),
              be_exact_grant = exact, be_all_segments_granted = bl_all_segments_granted l,
              be_assessment = bl_assessment l, be_redirect_write = redirect_write writes,
              be_ambient_segments =
                (if bl_has_git_command l \<and> \<not> bl_exec_risk l
                 then Some (map pc_words segments) else None),
              be_creation_paths = wp_creation_paths writes,
              be_has_cwd_change = script_has_cwd_change w (tr_root tree) cmd\<rparr>)"

definition evaluate_bash ::
  "world \<Rightarrow> string \<Rightarrow> permission_state \<Rightarrow> bool \<Rightarrow> bash_evaluation" where
  "evaluate_bash w cmd st honor_safe_lists =
     (case w_parse w cmd of
        None \<Rightarrow> undecomposable cmd st {UnparseableShell}
      | Some tree \<Rightarrow>
          (let writes = command_write_paths_split w (tr_root tree) cmd;
               segments = try_parse_word_only_commands_sequence tree cmd
           in case segments of
                None \<Rightarrow>
                  undecomposable cmd st
                    (tree_findings tree cmd writes None \<union> {UnparseableShell}
                     \<union> (if tree_has_opaque_shell (tr_root tree) cmd then {OpaqueShell} else {}))
              | Some segs \<Rightarrow> evaluate_segments w cmd st honor_safe_lists tree writes segs))"

subsection \<open>What an evaluation allows\<close>

text \<open>The pin of the managed configuration; \<open>yolo_pin.is_none()\<close> is \<open>\<not> pin\<close>.\<close>

definition clamp_yolo :: "bool \<Rightarrow> bool \<Rightarrow> bool" where
  "clamp_yolo requested pin \<longleftrightarrow> requested \<and> \<not> pin"

definition MAX_RECORDED_PERMISSION_DECISIONS :: nat where
  "MAX_RECORDED_PERMISSION_DECISIONS = 12"

definition prompted_decision_approved :: "decision \<Rightarrow> string \<Rightarrow> bool option" where
  "prompted_decision_approved d outcome_str =
     (case d of
        Allow \<Rightarrow> Some True
      | Reject _ \<Rightarrow> if outcome_str \<noteq> ''error'' then Some False else None
      | _ \<Rightarrow> None)"

definition auto_prompt_blocks_allow :: "access_kind \<Rightarrow> bool" where
  "auto_prompt_blocks_allow access = (case access of Bash _ \<Rightarrow> False | _ \<Rightarrow> True)"

definition persisted_bash_auto_allows :: "permission_state \<Rightarrow> string \<Rightarrow> bool \<Rightarrow> bool" where
  "persisted_bash_auto_allows st cmd pin \<longleftrightarrow>
     ps_allow_bash_execute st \<and> \<not> pin \<or> cmd \<in> set (ps_allowed_bash_commands st)"

definition bash_request_floor_requires_prompt :: "bash_evaluation option \<Rightarrow> bool" where
  "bash_request_floor_requires_prompt ev =
     (case ev of
        None \<Rightarrow> False
      | Some e \<Rightarrow> \<not> be_exact_grant e \<and> constrains_broad_grant (be_assessment e))"

definition narrow_allow_clears_write_floor ::
  "world \<Rightarrow> bash_evaluation option \<Rightarrow> compiled_policy option \<Rightarrow> access_kind \<Rightarrow> bool" where
  "narrow_allow_clears_write_floor w ev policy access \<longleftrightarrow>
     (case ev of None \<Rightarrow> False
      | Some e \<Rightarrow> is_file_write_only (be_assessment e) \<and> \<not> be_redirect_write e)
     \<and> (case policy of None \<Rightarrow> False | Some p \<Rightarrow> narrow_allow_authorizes w p access)"

definition bash_assessment_is_clear :: "bash_evaluation option \<Rightarrow> bool" where
  "bash_assessment_is_clear ev = (case ev of None \<Rightarrow> True | Some e \<Rightarrow> be_assessment e = {})"

definition classifier_assessment :: "bash_evaluation option \<Rightarrow> bool \<Rightarrow> assessment" where
  "classifier_assessment ev fail_closed =
     (case ev of None \<Rightarrow> {} | Some e \<Rightarrow> be_assessment e)
     \<union> (if fail_closed then {FailClosedPolicy} else {})"

definition sandbox_may_auto_allow_bash :: "bash_evaluation option \<Rightarrow> bool \<Rightarrow> bool" where
  "sandbox_may_auto_allow_bash ev sandbox_active \<longleftrightarrow>
     sandbox_active \<and> \<not> bash_request_floor_requires_prompt ev"

record bash_grant_opts =
  go_honor_safe_lists :: bool
  go_allow_blanket :: bool
  go_conservative_blanket :: bool

definition PRE_CLASSIFIER :: bash_grant_opts where
  "PRE_CLASSIFIER =
     \<lparr>go_honor_safe_lists = True, go_allow_blanket = True, go_conservative_blanket = True\<rparr>"

definition ASK_FLOOR_REMEMBER :: bash_grant_opts where
  "ASK_FLOOR_REMEMBER =
     \<lparr>go_honor_safe_lists = False, go_allow_blanket = False, go_conservative_blanket = False\<rparr>"

definition post_classify :: "bool \<Rightarrow> bash_grant_opts" where
  "post_classify auto_forced_prompt =
     \<lparr>go_honor_safe_lists = True, go_allow_blanket = \<not> auto_forced_prompt,
      go_conservative_blanket = False\<rparr>"

type_synonym reasoned = "(decision \<times> decision_reason) option"

definition grant_allow :: "decision_reason \<Rightarrow> reasoned" where
  "grant_allow reason = Some (Allow, reason)"

definition then_session_grant :: "bool \<Rightarrow> reasoned" where
  "then_session_grant b = (if b then Some (Allow, SESSION_GRANT) else None)"

definition bash_grant_pre_decision ::
  "string \<Rightarrow> bash_evaluation \<Rightarrow> permission_state \<Rightarrow> bool \<Rightarrow> bash_grant_opts \<Rightarrow> reasoned" where
  "bash_grant_pre_decision cmd e st pin opts =
     (case be_segments e of
        SegReject reason \<Rightarrow> Some (Reject reason, SESSION_DENY)
      | segments \<Rightarrow>
          if bash_request_floor_requires_prompt (Some e) then None
          else case segments of
                 AutoAllow via_session_grant \<Rightarrow>
                   if \<not> go_honor_safe_lists opts \<and> \<not> be_all_segments_granted e then None
                   else grant_allow (if via_session_grant then SESSION_GRANT else SAFE_COMMAND)
               | NeedsPrompts _ \<Rightarrow>
                   if \<not> go_allow_blanket opts then None
                   else if go_conservative_blanket opts \<and> DangerousCommand \<in> be_assessment e
                   then then_session_grant (be_exact_grant e)
                   else then_session_grant (persisted_bash_auto_allows st cmd pin)
               | _ \<Rightarrow>
                   if \<not> go_allow_blanket opts then None
                   else then_session_grant
                          (if go_conservative_blanket opts then be_exact_grant e
                           else persisted_bash_auto_allows st cmd pin))"

definition mcp_grant_pre_decision :: "string \<Rightarrow> permission_state \<Rightarrow> reasoned" where
  "mcp_grant_pre_decision name st =
     map_option (\<lambda>d. (d, case d of Reject _ \<Rightarrow> SESSION_DENY | _ \<Rightarrow> SESSION_GRANT))
       (mcp_pre_decision name st False False)"

definition web_fetch_grant_pre_decision ::
  "world \<Rightarrow> (string \<Rightarrow> bool) \<Rightarrow> (string \<Rightarrow> string) \<Rightarrow> string \<Rightarrow> permission_state \<Rightarrow> domain_matcher \<Rightarrow> bool
   \<Rightarrow> reasoned" where
  "web_fetch_grant_pre_decision w url_ok url_path url st dm honor_static_web_allowlist =
     (if \<not> url_ok url then None
      else case web_fetch_deny_pre_decision w url st of
             Some reject \<Rightarrow> Some (reject, SESSION_DENY)
           | None \<Rightarrow>
               if honor_static_web_allowlist \<and> domain_check w url_path dm url = None
               then grant_allow STATIC_ALLOWLIST
               else case w_url_host w url of
                      None \<Rightarrow> None
                    | Some host \<Rightarrow>
                        if normalize_domain w host \<in> set (ps_allowed_web_fetch_domains st)
                        then grant_allow SESSION_GRANT else None)"

definition session_grant_pre_decision ::
  "world \<Rightarrow> (string \<Rightarrow> bool) \<Rightarrow> (string \<Rightarrow> string) \<Rightarrow> access_kind \<Rightarrow> bash_evaluation option
   \<Rightarrow> permission_state \<Rightarrow> bool \<Rightarrow> domain_matcher \<Rightarrow> bool \<Rightarrow> bool \<Rightarrow> reasoned" where
  "session_grant_pre_decision w url_ok url_path access ev st allow_edits_for_session dm
     honor_static_web_allowlist pin =
     (case access of
        MCPTool name _ \<Rightarrow> mcp_grant_pre_decision name st
      | WebFetch url \<Rightarrow>
          web_fetch_grant_pre_decision w url_ok url_path url st dm honor_static_web_allowlist
      | Edit _ \<Rightarrow> if allow_edits_for_session then grant_allow SESSION_GRANT else None
      | Bash cmd \<Rightarrow>
          Option.bind ev (\<lambda>e. bash_grant_pre_decision cmd e st pin PRE_CLASSIFIER)
      | _ \<Rightarrow> None)"

subsection \<open>Storing a grant\<close>

definition always_allow_scope_persists :: "world \<Rightarrow> bash_command_highlights \<Rightarrow> nat \<Rightarrow> bool" where
  "always_allow_scope_persists w h n =
     (let words = bh_highlighted_words h
      in if n = 0 \<or> n > length words \<or> n < minimum_always_allow_scope words then False
         else words_join_unambiguously w (take n words)
              \<or> n = length words \<and> bh_prefix h = [] \<and> bh_suffix h = [])"

definition MAX_SEGMENT_GRANTS :: nat where
  "MAX_SEGMENT_GRANTS = 5"

definition segment_grantable :: "world \<Rightarrow> string list \<Rightarrow> bool" where
  "segment_grantable w words \<longleftrightarrow>
     words \<noteq> [] \<and> \<not> is_setup_command words \<and> \<not> is_dangerous_command_words words
     \<and> \<not> head_is_exec_vehicle words \<and> words_join_unambiguously w words"

definition bash_grant_segments :: "world \<Rightarrow> string \<Rightarrow> string list" where
  "bash_grant_segments w cmd =
     (case all_commands_from_script (w_parse w) cmd of
        None \<Rightarrow> []
      | Some segments \<Rightarrow>
          (let grants =
                 map join_words
                   (filter (segment_grantable w) (map (\<lambda>c. unwrap_wrappers (pc_words c)) segments))
           in if length grants > MAX_SEGMENT_GRANTS then [] else grants))"

definition insert_grant :: "permission_state \<Rightarrow> string \<Rightarrow> permission_state" where
  "insert_grant st g =
     st\<lparr>ps_allowed_bash_commands := List.insert g (ps_allowed_bash_commands st)\<rparr>"

definition persist_bash_always_allow ::
  "world \<Rightarrow> permission_state \<Rightarrow> string \<Rightarrow> string \<Rightarrow> permission_state" where
  "persist_bash_always_allow w st cmd label =
     (case primary_command_from_script (w_parse w) cmd of
        None \<Rightarrow> st
      | Some h \<Rightarrow>
          (let words = bh_highlighted_words h;
               min_scope = minimum_always_allow_scope words;
               labeled_words_verified =
                 list_ex (\<lambda>n. words_join_unambiguously w (take n words)
                              \<and> join_words (take n words) = label)
                   [min_scope..<Suc (length words)]
           in if labeled_words_verified then insert_grant st label
              else if bh_prefix h = [] \<and> bh_suffix h = [] \<and> join_words words = label
              then insert_grant st cmd
              else st))"

definition bash_glob_covers_script :: "world \<Rightarrow> string \<Rightarrow> string \<Rightarrow> bool" where
  "bash_glob_covers_script w cmd pattern =
     (if bash_glob_is_catchall w pattern then False
      else case all_commands_from_script (w_parse w) cmd of
             None \<Rightarrow> bash_pattern_matches_command w pattern cmd
           | Some segments \<Rightarrow>
               list_ex (\<lambda>seg. let words = unwrap_wrappers (pc_words seg)
                              in words \<noteq> [] \<and> \<not> is_setup_command words
                                 \<and> bash_pattern_matches_command w pattern (join_words words))
                 segments)"

definition always_allow_row_is_effective :: "world \<Rightarrow> string \<Rightarrow> bool" where
  "always_allow_row_is_effective w cmd =
     (case primary_command_from_script (w_parse w) cmd of
        None \<Rightarrow> False
      | Some h \<Rightarrow>
          (let scope = default_always_allow_scope (bh_highlighted_words h)
           in if \<not> always_allow_scope_persists w h scope then False
              else let scratch =
                         persist_bash_always_allow w default_permission_state cmd
                           (join_words (take scope (bh_highlighted_words h)))
                   in case bash_grant_pre_decision cmd (evaluate_bash w cmd scratch True) scratch
                             False PRE_CLASSIFIER of
                        Some (Allow, _) \<Rightarrow> True
                      | _ \<Rightarrow> False))"

section \<open>Properties of the evaluation\<close>

subsection \<open>The loop over the segments\<close>

text \<open>The words the rules see, and the segments they look at.\<close>

definition ruled_segments :: "plain_command list \<Rightarrow> string list list" where
  "ruled_segments cmds =
     filter (\<lambda>ws. \<not> is_setup_command ws) (map (\<lambda>c. unwrap_wrappers (pc_words c)) cmds)"

text \<open>
  The commands the rules do not look at, named one by one: they change the state of the shell or
  wait, and run no program of their own.
\<close>

definition only_sets_up :: "string list \<Rightarrow> bool" where
  "only_sets_up ws \<longleftrightarrow>
     ws = [] \<or> list_ex ((=) (hd ws))
       [''cd'', ''pushd'', ''popd'', ''export'', ''unset'', ''set'', ''sleep'', ''timeout'']"

lemma setup_commands: "is_setup_command ws \<longleftrightarrow> only_sets_up ws"
  by (auto simp: is_setup_command_def only_sets_up_def split: list.split)

lemma in_ruled_segments:
  "c \<in> set cmds \<Longrightarrow> \<not> only_sets_up (unwrap_wrappers (pc_words c)) \<Longrightarrow>
     unwrap_wrappers (pc_words c) \<in> set (ruled_segments cmds)"
  by (auto simp: ruled_segments_def setup_commands)

lemma ruled_segments_iff:
  "(\<exists>ws \<in> set (ruled_segments cmds). P ws)
   \<longleftrightarrow> (\<exists>c \<in> set cmds. \<not> only_sets_up (unwrap_wrappers (pc_words c)) \<and> P (unwrap_wrappers (pc_words c)))"
  by (auto simp: ruled_segments_def setup_commands)

definition deny_matches :: "permission_state \<Rightarrow> string \<Rightarrow> bool" where
  "deny_matches st s \<longleftrightarrow> list_ex (matches_whitelist_prefix s) (ps_disallowed_bash_commands st)"

lemma find_None_deny:
  "find (matches_whitelist_prefix s) (ps_disallowed_bash_commands st) = None
     \<longleftrightarrow> \<not> deny_matches st s"
  by (auto simp: deny_matches_def find_None_iff list_ex_iff)

lemma find_Some_deny:
  "find (matches_whitelist_prefix s) (ps_disallowed_bash_commands st) = Some d \<Longrightarrow> deny_matches st s"
  using find_None_deny[of s st] by (cases "deny_matches st s") auto

lemma ruled_segments_Cons:
  "ruled_segments (c # cmds) =
     (if is_setup_command (unwrap_wrappers (pc_words c)) then [] else [unwrap_wrappers (pc_words c)])
     @ ruled_segments cmds"
  by (simp add: ruled_segments_def)

lemma segment_loop_Inl:
  "(\<exists>r. segment_loop w st h (map pc_words cmds) l = Inl r)
     \<longleftrightarrow> (\<exists>ws \<in> set (ruled_segments cmds). deny_matches st (join_words ws))"
proof (induction cmds arbitrary: l)
  case Nil
  then show ?case by (simp add: ruled_segments_def)
next
  case (Cons c cmds)
  then show ?case
    by (auto simp: ruled_segments_Cons Let_def find_None_deny split: option.split
        dest: find_Some_deny)
qed

lemma note_segment_keeps [simp]:
  "bl_needs_prompt (note_segment raw l) = bl_needs_prompt l"
  "bl_via_session_grant (note_segment raw l) = bl_via_session_grant l"
  "bl_all_segments_granted (note_segment raw l) = bl_all_segments_granted l"
  by (simp_all add: note_segment_def Let_def)

lemma note_segment_grows: "bl_assessment l \<subseteq> bl_assessment (note_segment raw l)"
  by (auto simp: note_segment_def Let_def)

lemma grant_segment_grows:
  "bl_assessment l \<subseteq> bl_assessment (grant_segment w st h ws l)"
  by (auto simp: grant_segment_def Let_def)

lemma grant_segment_prompts:
  "\<exists>new. bl_needs_prompt (grant_segment w st h ws l) = bl_needs_prompt l @ new"
  by (simp add: grant_segment_def Let_def)

lemma segment_loop_grows:
  "segment_loop w st h segs l = Inr l' \<Longrightarrow>
     bl_assessment l \<subseteq> bl_assessment l'
     \<and> (\<exists>new. bl_needs_prompt l' = bl_needs_prompt l @ new)"
proof (induction segs arbitrary: l)
  case Nil
  then show ?case by simp
next
  case (Cons raw segs)
  let ?n = "note_segment raw l" and ?ws = "unwrap_wrappers raw"
  consider "is_setup_command ?ws" "segment_loop w st h segs ?n = Inr l'"
    | "segment_loop w st h segs (grant_segment w st h ?ws ?n) = Inr l'"
    using Cons.prems by (auto simp: Let_def split: if_splits option.splits)
  then show ?case
  proof cases
    case 1
    then show ?thesis using Cons.IH[OF 1(2)] note_segment_grows[of l raw] by auto
  next
    case 2
    then show ?thesis
      using Cons.IH[OF 2] note_segment_grows[of l raw]
        grant_segment_grows[of ?n w st h ?ws] grant_segment_prompts[of w st h ?ws ?n]
      by (metis append.assoc note_segment_keeps(1) order_trans)
  qed
qed

text \<open>What a ruled segment leaves behind when the loop ends without a reject.\<close>

definition segment_settled :: "world \<Rightarrow> permission_state \<Rightarrow> bool \<Rightarrow> string list \<Rightarrow> bool" where
  "segment_settled w st h ws \<longleftrightarrow>
     \<not> is_dangerous_command_words ws
     \<and> (special_surface ws \<longrightarrow> join_words ws \<in> set (ps_allowed_bash_commands st))
     \<and> (matched_grant w st ws \<or> matched_safe h ws)"

lemma grant_segment_settled:
  "bl_needs_prompt (grant_segment w st h ws l) = [] \<longleftrightarrow>
     bl_needs_prompt l = [] \<and> segment_settled w st h ws"
  by (auto simp: grant_segment_def segment_settled_def Let_def)

lemma segment_loop_settled:
  "segment_loop w st h (map pc_words cmds) l = Inr l' \<Longrightarrow>
     bl_needs_prompt l' = [] \<longleftrightarrow>
       bl_needs_prompt l = [] \<and> (\<forall>ws \<in> set (ruled_segments cmds). segment_settled w st h ws)"
  by (induction cmds arbitrary: l)
    (auto simp: ruled_segments_Cons Let_def grant_segment_settled ruled_segments_def
      split: if_splits option.splits)

lemma grant_segment_dangerous:
  "is_dangerous_command_words ws \<Longrightarrow> DangerousCommand \<in> bl_assessment (grant_segment w st h ws l)"
  by (simp add: grant_segment_def Let_def)

lemma segment_loop_dangerous:
  "segment_loop w st h (map pc_words cmds) l = Inr l' \<Longrightarrow>
     ws \<in> set (ruled_segments cmds) \<Longrightarrow> is_dangerous_command_words ws \<Longrightarrow>
     DangerousCommand \<in> bl_assessment l'"
proof (induction cmds arbitrary: l)
  case Nil
  then show ?case by (simp add: ruled_segments_def)
next
  case (Cons c cmds)
  let ?u = "unwrap_wrappers (pc_words c)" and ?n = "note_segment (pc_words c) l"
  consider "is_setup_command ?u" "segment_loop w st h (map pc_words cmds) ?n = Inr l'"
    | "\<not> is_setup_command ?u"
      "segment_loop w st h (map pc_words cmds) (grant_segment w st h ?u ?n) = Inr l'"
    using Cons.prems(1) by (auto simp: Let_def split: if_splits option.splits)
  then show ?case
  proof cases
    case 1
    then show ?thesis using Cons.IH[OF 1(2)] Cons.prems by (simp add: ruled_segments_Cons)
  next
    case 2
    show ?thesis
    proof (cases "ws = ?u")
      case True
      then show ?thesis
        using segment_loop_grows[OF 2(2)] grant_segment_dangerous[OF Cons.prems(3)] by auto
    next
      case False
      then show ?thesis
        using Cons.IH[OF 2(2)] Cons.prems 2(1) by (simp add: ruled_segments_Cons)
    qed
  qed
qed

text \<open>Every finding of the loop that a segment causes is kept, so an empty floor means none did.\<close>

lemma segment_loop_special:
  "segment_loop w st h (map pc_words cmds) l = Inr l' \<Longrightarrow>
     ws \<in> set (ruled_segments cmds) \<Longrightarrow> special_surface ws \<Longrightarrow>
     join_words ws \<notin> set (ps_allowed_bash_commands st) \<Longrightarrow>
     DangerousCommand \<in> bl_assessment l' \<or> SpecialExecSurface \<in> bl_assessment l'"
proof (induction cmds arbitrary: l)
  case Nil
  then show ?case by (simp add: ruled_segments_def)
next
  case (Cons c cmds)
  let ?u = "unwrap_wrappers (pc_words c)" and ?n = "note_segment (pc_words c) l"
  consider "is_setup_command ?u" "segment_loop w st h (map pc_words cmds) ?n = Inr l'"
    | "\<not> is_setup_command ?u"
      "segment_loop w st h (map pc_words cmds) (grant_segment w st h ?u ?n) = Inr l'"
    using Cons.prems(1) by (auto simp: Let_def split: if_splits option.splits)
  then show ?case
  proof cases
    case 1
    then show ?thesis using Cons.IH[OF 1(2)] Cons.prems by (simp add: ruled_segments_Cons)
  next
    case 2
    show ?thesis
    proof (cases "ws = ?u")
      case True
      have "DangerousCommand \<in> bl_assessment (grant_segment w st h ?u ?n)
        \<or> SpecialExecSurface \<in> bl_assessment (grant_segment w st h ?u ?n)"
        using Cons.prems(3,4) True by (simp add: grant_segment_def Let_def)
      then show ?thesis using segment_loop_grows[OF 2(2)] by auto
    next
      case False
      then show ?thesis
        using Cons.IH[OF 2(2)] Cons.prems 2(1) by (simp add: ruled_segments_Cons)
    qed
  qed
qed

subsection \<open>Denies\<close>

lemma all_commands_cases:
  obtains (unparsed) "w_parse w cmd = None" "all_commands_from_script (w_parse w) cmd = None"
  | (opaque) tree where "w_parse w cmd = Some tree"
      "try_parse_word_only_commands_sequence tree cmd = None"
      "all_commands_from_script (w_parse w) cmd = None"
  | (segments) tree cmds where "w_parse w cmd = Some tree"
      "try_parse_word_only_commands_sequence tree cmd = Some cmds"
      "all_commands_from_script (w_parse w) cmd = Some cmds"
  by (cases "w_parse w cmd"; cases "all_commands_from_script (w_parse w) cmd")
    (auto simp: all_commands_from_script_def)

lemma undecomposed_evaluation:
  assumes "all_commands_from_script (w_parse w) cmd = None"
  obtains a where "evaluate_bash w cmd st h = undecomposable cmd st a" and "UnparseableShell \<in> a"
  using assms
  by (cases w cmd rule: all_commands_cases) (auto simp: evaluate_bash_def Let_def)

lemma decomposed_evaluation:
  assumes "all_commands_from_script (w_parse w) cmd = Some cmds"
  obtains tree writes where "evaluate_bash w cmd st h = evaluate_segments w cmd st h tree writes cmds"
  using assms
  by (cases w cmd rule: all_commands_cases) (auto simp: evaluate_bash_def Let_def)

lemma undecomposable_rejects:
  "(\<exists>r. be_segments (undecomposable cmd st a) = SegReject r) \<longleftrightarrow> deny_matches st cmd"
  by (auto simp: undecomposable_def raw_deny_rejection_def find_None_deny split: option.split
      dest: find_Some_deny)

lemma evaluate_segments_rejects:
  "(\<exists>r. be_segments (evaluate_segments w cmd st h tree writes cmds) = SegReject r)
     \<longleftrightarrow> (\<exists>ws \<in> set (ruled_segments cmds). deny_matches st (join_words ws))"
  by (subst segment_loop_Inl[symmetric, where w = w and h = h
        and l = "\<lparr>bl_assessment = tree_findings tree cmd writes (Some cmds),
                bl_needs_prompt = [], bl_via_session_grant = False,
                bl_all_segments_granted = True, bl_exec_risk = False,
                bl_has_git_command = False\<rparr>"])
    (auto simp: evaluate_segments_def Let_def split: sum.split)

lemma pre_decision_rejects:
  "(\<exists>r. bash_grant_pre_decision cmd e st pin opts = Some (Reject r, SESSION_DENY))
     \<longleftrightarrow> (\<exists>r. be_segments e = SegReject r)"
  by (cases "be_segments e")
    (auto simp: bash_grant_pre_decision_def grant_allow_def then_session_grant_def)

text \<open>
  C28. What a remembered deny rejects, in the lookup of the session's grants: whatever the other
  grants, the safe lists, the pin and the options of the lookup are, it answers a session deny
  exactly when a deny is a word prefix of some command of the script, taken out of its wrappers
  and other than \<open>cd\<close>, \<open>pushd\<close>, \<open>popd\<close>, \<open>export\<close>, \<open>unset\<close>, \<open>set\<close>, \<open>sleep\<close> and \<open>timeout\<close>, or, for a
  script that cannot be taken apart, of its text.
\<close>

theorem remembered_deny_rejects:
  "(\<exists>reason. bash_grant_pre_decision cmd (evaluate_bash w cmd st h) st pin opts
      = Some (Reject reason, SESSION_DENY)) \<longleftrightarrow>
   (case all_commands_from_script (w_parse w) cmd of
      None \<Rightarrow> deny_matches st cmd
    | Some cmds \<Rightarrow>
        (\<exists>c \<in> set cmds. \<not> only_sets_up (unwrap_wrappers (pc_words c))
           \<and> deny_matches st (join_words (unwrap_wrappers (pc_words c)))))"
proof (cases "all_commands_from_script (w_parse w) cmd")
  case None
  then obtain a where "evaluate_bash w cmd st h = undecomposable cmd st a"
    by (rule undecomposed_evaluation)
  then show ?thesis by (simp add: None pre_decision_rejects undecomposable_rejects)
next
  case (Some cmds)
  then obtain tree writes
    where "evaluate_bash w cmd st h = evaluate_segments w cmd st h tree writes cmds"
    by (rule decomposed_evaluation)
  then show ?thesis
    by (simp add: Some pre_decision_rejects evaluate_segments_rejects ruled_segments_iff)
qed

subsection \<open>Grants\<close>

definition exactly_granted :: "world \<Rightarrow> permission_state \<Rightarrow> string \<Rightarrow> bool" where
  "exactly_granted w st cmd \<longleftrightarrow>
     cmd \<in> set (ps_allowed_bash_commands st)
     \<or> (\<exists>only. all_commands_from_script (w_parse w) cmd = Some [only]
          \<and> spans_whole_script only cmd \<and> words_join_unambiguously w (pc_words only)
          \<and> join_words (pc_words only) \<in> set (ps_allowed_bash_commands st))"

lemma evaluated_exact_grant:
  "be_exact_grant (evaluate_bash w cmd st h) \<Longrightarrow> exactly_granted w st cmd"
proof (cases "all_commands_from_script (w_parse w) cmd")
  case None
  assume "be_exact_grant (evaluate_bash w cmd st h)"
  moreover obtain a where "evaluate_bash w cmd st h = undecomposable cmd st a"
    using undecomposed_evaluation[OF None] .
  ultimately show ?thesis by (simp add: undecomposable_def exactly_granted_def)
next
  case (Some cmds)
  assume "be_exact_grant (evaluate_bash w cmd st h)"
  moreover obtain tree writes
    where "evaluate_bash w cmd st h = evaluate_segments w cmd st h tree writes cmds"
    using decomposed_evaluation[OF Some] .
  ultimately have "whole_script_grant w cmd cmds st"
    by (simp add: evaluate_segments_def Let_def split: sum.splits prod.splits)
  then show ?thesis
    by (auto simp: whole_script_grant_def exactly_granted_def Some split: if_splits list.splits)
qed

lemma granted_command_is_exact:
  "cmd \<in> set (ps_allowed_bash_commands st) \<Longrightarrow> be_exact_grant (evaluate_bash w cmd st h)"
  by (cases w cmd rule: all_commands_cases)
    (auto simp: evaluate_bash_def Let_def undecomposable_def evaluate_segments_def
      whole_script_grant_def split: sum.split)

lemma undecomposable_not_auto:
  "be_segments (undecomposable cmd st a) = Unparseable
     \<or> (\<exists>r. be_segments (undecomposable cmd st a) = SegReject r)"
  by (auto simp: undecomposable_def raw_deny_rejection_def split: option.split)

lemma evaluated_auto_allow:
  assumes "be_segments (evaluate_segments w cmd st h tree writes cmds) = AutoAllow via"
  shows "\<forall>ws \<in> set (ruled_segments cmds). segment_settled w st h ws"
  using assms
  by (auto simp: evaluate_segments_def Let_def split: sum.splits if_splits
      dest!: segment_loop_settled)

lemma evaluated_needs_prompts:
  assumes "be_segments (evaluate_segments w cmd st h tree writes cmds) = NeedsPrompts ps"
    and "ws \<in> set (ruled_segments cmds)" and "is_dangerous_command_words ws"
  shows "DangerousCommand \<in> be_assessment (evaluate_segments w cmd st h tree writes cmds)"
  using assms
  by (auto simp: evaluate_segments_def Let_def split: sum.splits if_splits
      intro: segment_loop_dangerous)

lemma pre_classifier_allow:
  assumes "bash_grant_pre_decision cmd e st pin PRE_CLASSIFIER = Some (Allow, reason)"
    and "\<not> be_exact_grant e"
    and exact: "cmd \<in> set (ps_allowed_bash_commands st) \<Longrightarrow> be_exact_grant e"
  shows "\<not> constrains_broad_grant (be_assessment e)
    \<and> ((\<exists>via. be_segments e = AutoAllow via)
       \<or> (\<exists>ps. be_segments e = NeedsPrompts ps) \<and> DangerousCommand \<notin> be_assessment e
          \<and> ps_allow_bash_execute st \<and> \<not> pin)"
  using assms
  by (cases "be_segments e")
    (auto simp: bash_grant_pre_decision_def PRE_CLASSIFIER_def then_session_grant_def
      persisted_bash_auto_allows_def bash_request_floor_requires_prompt_def split: if_splits)

text \<open>
  C6. What a stored grant may let through before the classifier looks: either the user granted
  this very command, or the script was taken apart completely, the static analysis found no
  effect that constrains a broad grant (no write to a real file, no risky environment, no
  opaque shell, no execution vehicle), and each command of it, out of its wrappers, is one of
  \<open>cd\<close>, \<open>pushd\<close>, \<open>popd\<close>, \<open>export\<close>, \<open>unset\<close>, \<open>set\<close>, \<open>sleep\<close> and \<open>timeout\<close>, which the rules do not look
  at, or is not dangerous and is granted or on a safe list, or the user allowed all commands and
  no policy pins that switch off.
\<close>

theorem grant_before_classifier_sound:
  assumes "bash_grant_pre_decision cmd (evaluate_bash w cmd st h) st pin PRE_CLASSIFIER
    = Some (Allow, reason)"
  shows "exactly_granted w st cmd
    \<or> (\<exists>cmds. all_commands_from_script (w_parse w) cmd = Some cmds
        \<and> \<not> constrains_broad_grant (be_assessment (evaluate_bash w cmd st h))
        \<and> (\<forall>c \<in> set cmds. \<forall>ws. ws = unwrap_wrappers (pc_words c) \<longrightarrow>
             only_sets_up ws
             \<or> \<not> is_dangerous_command_words ws
               \<and> (matched_grant w st ws \<or> matched_safe h ws \<or> ps_allow_bash_execute st \<and> \<not> pin)))"
proof (cases "be_exact_grant (evaluate_bash w cmd st h)")
  case True
  then show ?thesis using evaluated_exact_grant by blast
next
  case False
  note allow = pre_classifier_allow[OF assms False granted_command_is_exact]
  show ?thesis
  proof (cases "all_commands_from_script (w_parse w) cmd")
    case None
    then obtain a where "evaluate_bash w cmd st h = undecomposable cmd st a"
      by (rule undecomposed_evaluation)
    then show ?thesis using allow undecomposable_not_auto[of cmd st a] by auto
  next
    case (Some cmds)
    then obtain tree writes
      where e: "evaluate_bash w cmd st h = evaluate_segments w cmd st h tree writes cmds"
      by (rule decomposed_evaluation)
    have "\<forall>ws \<in> set (ruled_segments cmds). \<not> is_dangerous_command_words ws
        \<and> (matched_grant w st ws \<or> matched_safe h ws \<or> ps_allow_bash_execute st \<and> \<not> pin)"
      using allow evaluated_auto_allow[of w cmd st h tree writes cmds]
        evaluated_needs_prompts[of w cmd st h tree writes cmds]
      unfolding e segment_settled_def by blast
    then show ?thesis using allow Some in_ruled_segments by blast
  qed
qed

theorem grant_before_classifier_sound_witness:
  "bash_grant_pre_decision ''ls a'' (evaluate_bash sample_world ''ls a'' default_permission_state True)
     default_permission_state False PRE_CLASSIFIER = Some (Allow, SAFE_COMMAND)
   \<and> (\<exists>cmds. all_commands_from_script (w_parse sample_world) ''ls a'' = Some cmds
        \<and> (\<forall>c \<in> set cmds. only_sets_up (unwrap_wrappers (pc_words c))
             \<or> matched_safe True (unwrap_wrappers (pc_words c))))"
proof -
  let ?s = default_permission_state
  have allow: "bash_grant_pre_decision ''ls a'' (evaluate_bash sample_world ''ls a'' ?s True)
     ?s False PRE_CLASSIFIER = Some (Allow, SAFE_COMMAND)" by code_simp
  have "\<not> exactly_granted sample_world ?s ''ls a''"
    by (simp add: exactly_granted_def default_permission_state_def)
  moreover have "\<And>ws. \<not> matched_grant sample_world ?s ws"
    by (simp add: matched_grant_def matched_command_grant_def default_permission_state_def)
  moreover have "\<not> ps_allow_bash_execute ?s" by (simp add: default_permission_state_def)
  ultimately show ?thesis
    using allow grant_before_classifier_sound [OF allow] by blast
qed

subsection \<open>What a stored label promises\<close>

lemma join_words_snoc:
  "xs \<noteq> [] \<Longrightarrow> join_words (xs @ [y]) = join_words xs @ '' '' @ y"
  by (simp add: join_words_def join_with_append)

lemma join_take_grows:
  assumes "0 < m" and "m < n" and "n \<le> length ws"
  shows "length (join_words (take m ws)) < length (join_words (take n ws))"
  using assms(2,3)
proof (induction n)
  case (Suc n)
  have ne: "take n ws \<noteq> []" using Suc.prems assms(1) by (auto simp: less_Suc_eq_le)
  have n: "n < length ws" using Suc.prems by simp
  have step: "length (join_words (take n ws)) < length (join_words (take (Suc n) ws))"
    unfolding take_Suc_conv_app_nth[OF n] join_words_snoc[OF ne] by simp
  show ?case
  proof (cases "m = n")
    case True
    then show ?thesis using step by simp
  next
    case False
    then show ?thesis using Suc.IH Suc.prems step by simp
  qed
qed simp

lemma join_take_eq:
  assumes "0 < m" "0 < n" "m \<le> length ws" "n \<le> length ws"
  shows "join_words (take m ws) = join_words (take n ws) \<longleftrightarrow> m = n"
  using join_take_grows[of m n ws] join_take_grows[of n m ws] assms
  by (metis less_irrefl linorder_neqE_nat)

lemma minimum_scope_bounds:
  "ws \<noteq> [] \<Longrightarrow> 0 < minimum_always_allow_scope ws \<and> minimum_always_allow_scope ws \<le> length ws"
  by (cases ws)
    (auto simp: minimum_always_allow_scope_def gh_always_allow_scope_def nth_opt_def
      split: option.split)

definition scope_verified :: "world \<Rightarrow> string list \<Rightarrow> nat \<Rightarrow> bool" where
  "scope_verified w ws n \<longleftrightarrow>
     minimum_always_allow_scope ws \<le> n \<and> words_join_unambiguously w (take n ws)"

lemma labeled_words_verified_iff:
  assumes "0 < n" and "n \<le> length ws"
  shows "list_ex (\<lambda>m. words_join_unambiguously w (take m ws)
                     \<and> join_words (take m ws) = join_words (take n ws))
           [minimum_always_allow_scope ws..<Suc (length ws)]
         \<longleftrightarrow> scope_verified w ws n"
proof -
  have "ws \<noteq> []" using assms by auto
  then have "0 < minimum_always_allow_scope ws" using minimum_scope_bounds by blast
  then have "\<And>m. minimum_always_allow_scope ws \<le> m \<Longrightarrow> m \<le> length ws \<Longrightarrow>
      join_words (take m ws) = join_words (take n ws) \<longleftrightarrow> m = n"
    using join_take_eq assms by (metis less_le_trans)
  then show ?thesis
    using assms by (auto simp: list_ex_iff scope_verified_def simp flip: less_Suc_eq_le)
qed

text \<open>
  C30. What an always-allow choice stores is what the prompt promised: for a row that shows the
  first \<open>n\<close> words of the command a script runs, a grant is stored exactly when the check that
  offers the row says it persists, and the stored text is the one shown, or the whole script
  when the shown words are the whole script but would not parse back to the same words.
\<close>

theorem shown_scope_is_stored:
  assumes "primary_command_from_script (w_parse w) cmd = Some h"
    and "0 < n" and "n \<le> length (bh_highlighted_words h)"
  shows "persist_bash_always_allow w st cmd (join_words (take n (bh_highlighted_words h)))
    = (if always_allow_scope_persists w h n
       then insert_grant st
              (if words_join_unambiguously w (take n (bh_highlighted_words h))
               then join_words (take n (bh_highlighted_words h)) else cmd)
       else st)"
proof -
  let ?ws = "bh_highlighted_words h"
  have full: "join_words ?ws = join_words (take n ?ws) \<longleftrightarrow> n = length ?ws"
    using join_take_eq[of "length ?ws" n ?ws] assms(2,3) by fastforce
  have ne: "?ws \<noteq> []" using assms(2,3) by auto
  have min: "minimum_always_allow_scope ?ws \<le> length ?ws" using minimum_scope_bounds[OF ne] by simp
  show ?thesis
    using assms min
    by (simp add: persist_bash_always_allow_def Let_def labeled_words_verified_iff[OF assms(2,3)]
        full scope_verified_def always_allow_scope_persists_def del: upt_Suc)
qed

theorem shown_scope_is_stored_witness:
  "persist_bash_always_allow sample_world default_permission_state ''ls a''
     (join_words (take 2 [''ls'', ''a'']))
   = insert_grant default_permission_state ''ls a''"
proof -
  let ?h = "\<lparr>bh_prefix = [], bh_highlighted_words = [''ls'', ''a''], bh_suffix = []\<rparr>"
  have h: "primary_command_from_script (w_parse sample_world) ''ls a'' = Some ?h" by code_simp
  have p: "always_allow_scope_persists sample_world ?h 2" by code_simp
  have u: "words_join_unambiguously sample_world [''ls'', ''a'']" by code_simp
  show ?thesis
    using shown_scope_is_stored [OF h, of 2 default_permission_state] p u
    by (simp add: join_words_def)
qed

lemma primary_words_nonempty:
  assumes "primary_command_from_script parse cmd = Some h"
  shows "bh_highlighted_words h \<noteq> []"
proof -
  obtain c where c: "is_primary c"
    and h: "bh_highlighted_words h
      = drop (length (pc_words c) - length (unwrap_wrappers (pc_words c))) (pc_words c)"
    using assms
    by (auto simp: primary_command_from_script_def Let_def find_Some_iff split: option.splits)
  have "unwrap_wrappers (pc_words c) \<noteq> []" using c by (simp add: is_primary_def Let_def)
  moreover have "suffix (unwrap_wrappers (pc_words c)) (pc_words c)" by (rule unwrap_wrappers_suffix)
  ultimately have "0 < length (unwrap_wrappers (pc_words c))"
    and "length (unwrap_wrappers (pc_words c)) \<le> length (pc_words c)"
    by (auto dest: suffix_length_le)
  then show ?thesis unfolding h drop_eq_Nil by linarith
qed

text \<open>A label that is not a long enough start of the command stores nothing at all.\<close>

lemma forged_label_stores_nothing:
  assumes "persist_bash_always_allow w st cmd label \<noteq> st"
  obtains h n where "primary_command_from_script (w_parse w) cmd = Some h"
    and "minimum_always_allow_scope (bh_highlighted_words h) \<le> n"
    and "n \<le> length (bh_highlighted_words h)"
    and "label = join_words (take n (bh_highlighted_words h))"
proof (cases "primary_command_from_script (w_parse w) cmd")
  case None
  then show ?thesis using assms that by (simp add: persist_bash_always_allow_def)
next
  case (Some h)
  then show ?thesis
    using assms that[OF Some] minimum_scope_bounds[OF primary_words_nonempty[OF Some]]
    by (fastforce simp: persist_bash_always_allow_def Let_def list_ex_iff
        split: if_splits)
qed

text \<open>So a label of a dangerous command is always the whole command, with its arguments.\<close>

lemma dangerous_label_is_whole_command:
  assumes "persist_bash_always_allow w st cmd label \<noteq> st"
    and "primary_command_from_script (w_parse w) cmd = Some h"
    and "always_allow_scope_pinned (bh_highlighted_words h)"
  shows "label = join_words (bh_highlighted_words h)"
  using assms(1)
  by (rule forged_label_stores_nothing)
    (use assms(2,3) in \<open>auto simp: minimum_always_allow_scope_def\<close>)

end
