(* ===== verification/GB_PermissionRequest.thy ===== *)
theory GB_PermissionRequest
  imports GB_BashGrants
begin

section \<open>Permission requests (types.rs, request_classification.rs, prompter.rs, resources.rs)\<close>

text \<open>
  The values a request to the permission manager is made of: the client, the question of a hook,
  the path a model names, the classification of the request, the event that reports the decision
  and the answers of a prompt. Strings are UTF-8 byte lists, so the dash of the prompt header is
  three characters.
\<close>

subsection \<open>Reasons\<close>

fun reason_str :: "decision_reason \<Rightarrow> string" where
  "reason_str YOLO = ''yolo''"
| "reason_str POLICY_ALLOW = ''policy_allow''"
| "reason_str POLICY_DENY = ''policy_deny''"
| "reason_str REASON_POLICY_ASK = ''policy_ask''"
| "reason_str REASON_BASH_COMMAND_GATE_ASK = ''bash_command_gate_ask''"
| "reason_str REASON_SHELL_FILE_GATE_ASK = ''shell_file_gate_ask''"
| "reason_str AUTO_FAST_PATH = ''auto_fast_path''"
| "reason_str AUTO_CLASSIFIER_ALLOW = ''auto_classifier_allow''"
| "reason_str AUTO_CLASSIFIER_DENY = ''auto_classifier_deny''"
| "reason_str AUTO_CLASSIFIER_TIMEOUT = ''auto_classifier_timeout''"
| "reason_str AUTO_CLASSIFIER_UNAVAILABLE = ''auto_classifier_unavailable''"
| "reason_str AUTO_DENIAL_LIMIT = ''auto_denial_limit''"
| "reason_str SANDBOX_AUTO = ''sandbox_auto''"
| "reason_str PERSISTED_GRANT = ''persisted_grant''"
| "reason_str SESSION_GRANT = ''session_grant''"
| "reason_str STATIC_ALLOWLIST = ''static_allowlist''"
| "reason_str SAFE_COMMAND = ''safe_command''"
| "reason_str SESSION_DENY = ''session_deny''"
| "reason_str PROMPT_DENY = ''prompt_deny''"
| "reason_str PROMPT_ALLOW = ''prompt_allow''"
| "reason_str NEEDS_USER = ''needs_user''"
| "reason_str BASH_REQUEST_FLOOR = ''bash_request_floor''"
| "reason_str REASON_OPAQUE_SHELL = ''opaque_shell''"
| "reason_str HOOK_ASK = ''hook_ask''"
| "reason_str REQUESTER_GONE = ''requester_gone''"

subsection \<open>Clients\<close>

datatype client_type =
  ClientGeneric | GrokTUI | GrokWeb | Nebula | Extension | GrokPager | Desktop

fun user_agent_label :: "client_type \<Rightarrow> string" where
  "user_agent_label ClientGeneric = ''grok-shell''"
| "user_agent_label GrokTUI = ''grok-tui''"
| "user_agent_label GrokWeb = ''grok-web''"
| "user_agent_label Nebula = ''nebula''"
| "user_agent_label Extension = ''grok-code-extension''"
| "user_agent_label GrokPager = ''grok-pager''"
| "user_agent_label Desktop = ''grok-desktop''"

definition from_client_identifier :: "string option \<Rightarrow> client_type" where
  "from_client_identifier i =
     (if i = Some ''grok-web'' then GrokWeb
      else if i = Some ''nebula'' then Nebula
      else if i = Some ''grok-code-extension'' then Extension
      else if i = Some ''grok-desktop'' then Desktop
      else if i = Some ''grok-pager'' then GrokPager
      else ClientGeneric)"

fun feedback_label :: "client_type \<Rightarrow> string" where
  "feedback_label GrokTUI = ''tui''"
| "feedback_label GrokPager = ''tui''"
| "feedback_label GrokWeb = ''web''"
| "feedback_label Nebula = ''nebula''"
| "feedback_label Extension = ''extension''"
| "feedback_label ClientGeneric = ''agent''"
| "feedback_label Desktop = ''desktop''"

definition can_present_permission_prompt :: "client_type \<Rightarrow> bool" where
  "can_present_permission_prompt c \<longleftrightarrow> c \<noteq> ClientGeneric"

subsection \<open>Requests\<close>

record request_path_context =
  pc_real_cwd :: path
  pc_display_cwd :: "path option"

record hook_ask =
  ha_hook_name :: string
  ha_reason :: "string option"

definition HOOK_ASK_META_KEY :: string where "HOOK_ASK_META_KEY = ''hookAsk''"

definition HOOK_ASK_SEPARATOR :: string where
  "HOOK_ASK_SEPARATOR = [CHR 0x20, CHR 0xE2, CHR 0x80, CHR 0x94, CHR 0x20]"

definition ask_line :: "hook_ask \<Rightarrow> string" where
  "ask_line h =
     (let reason = join_words (split_whitespace [] (case ha_reason h of Some r \<Rightarrow> r | None \<Rightarrow> []))
      in if reason = [] then ''hook '' @ [quote1] @ ha_hook_name h @ [quote1]
                             @ '' asks for confirmation''
         else ''hook '' @ [quote1] @ ha_hook_name h @ [quote1] @ '' asks: '' @ reason)"

definition prompt_header :: "hook_ask \<Rightarrow> string \<Rightarrow> string" where
  "prompt_header h action = action @ HOOK_ASK_SEPARATOR @ ask_line h"

definition strip_prompt_header :: "hook_ask \<Rightarrow> string \<Rightarrow> string" where
  "strip_prompt_header h title =
     (case Option.bind (strip_suffix title (ask_line h))
             (\<lambda>action. strip_suffix action HOOK_ASK_SEPARATOR) of
        Some action \<Rightarrow> action | None \<Rightarrow> title)"

record permission_request =
  rq_access :: access_kind
  rq_tool_call_id :: string
  rq_path_context :: "request_path_context option"
  rq_session_id :: "string option"
  rq_subagent_type :: "string option"
  rq_subagent_description :: "string option"
  rq_hook_ask :: "hook_ask option"

definition permission_request_new :: "access_kind \<Rightarrow> string \<Rightarrow> permission_request" where
  "permission_request_new access tool_call_id =
     \<lparr>rq_access = access, rq_tool_call_id = tool_call_id, rq_path_context = None,
      rq_session_id = None, rq_subagent_type = None, rq_subagent_description = None,
      rq_hook_ask = None\<rparr>"

definition tool_name_for_access :: "access_kind \<Rightarrow> string" where
  "tool_name_for_access access =
     (case access of
        Read _ \<Rightarrow> ''read_file''
      | Grep _ _ \<Rightarrow> ''grep''
      | Edit _ \<Rightarrow> ''search_replace''
      | Bash _ \<Rightarrow> ''run_terminal_command''
      | MCPTool name _ \<Rightarrow> ''mcp:'' @ name
      | WebFetch _ \<Rightarrow> ''web_fetch''
      | WebSearch _ \<Rightarrow> ''web_search''
      | AgentMessage _ \<Rightarrow> ''send_subagent_message'')"

definition access_event_detail :: "classifier_env \<Rightarrow> access_kind \<Rightarrow> string \<times> string option" where
  "access_event_detail ce access =
     (case access of
        Read _ \<Rightarrow> (''read'', None)
      | Grep p _ \<Rightarrow> (''grep'', p)
      | Edit p \<Rightarrow> (''edit'', Some p)
      | Bash cmd \<Rightarrow> (''bash'', Some cmd)
      | MCPTool name input \<Rightarrow> (''mcp'', Some (mcp_access_detail ce name input))
      | WebFetch url \<Rightarrow> (''web_fetch'', Some url)
      | WebSearch query \<Rightarrow> (''web_search'', Some query)
      | AgentMessage subagent_id \<Rightarrow> (''agent_message'', Some subagent_id))"

subsection \<open>Paths a model names\<close>

text \<open>\<open>trim_matches\<close> of the two quotes, and the loop over trailing literal escapes.\<close>

definition trim_quote_chars :: "string \<Rightarrow> string" where
  "trim_quote_chars s =
     rev (dropWhile (\<lambda>c. c \<in> {quote1, quote2}) (rev (dropWhile (\<lambda>c. c \<in> {quote1, quote2}) s)))"

definition strip_literal_escape :: "string \<Rightarrow> string option" where
  "strip_literal_escape s =
     (case strip_suffix s [backslash, CHR ''n''] of
        Some r \<Rightarrow> Some r
      | None \<Rightarrow>
          (case strip_suffix s [backslash, CHR ''r''] of
             Some r \<Rightarrow> Some r
           | None \<Rightarrow> strip_suffix s [backslash, CHR ''t'']))"

lemma strip_literal_escape_shorter: "strip_literal_escape s = Some r \<Longrightarrow> length r < length s"
  by (auto simp: strip_literal_escape_def strip_suffix_Some split: option.splits)

lemma trim_end_shorter: "length (trim_end s) \<le> length s"
  using suffix_length_le[OF trim_with_suffix[of "map rev white_space" "rev s"]]
  by (simp add: trim_end_def)

function strip_escapes :: "string \<Rightarrow> string" where
  "strip_escapes result =
     (case strip_literal_escape result of
        Some stripped \<Rightarrow> strip_escapes (trim_end stripped)
      | None \<Rightarrow> result)"
  by pat_completeness auto
termination
  by (relation "measure length")
    (auto intro: le_less_trans[OF trim_end_shorter strip_literal_escape_shorter])

declare strip_escapes.simps [simp del]

definition sanitize_model_path_arg :: "string \<Rightarrow> string" where
  "sanitize_model_path_arg input =
     (let trimmed = trim input;
          quote_wrapped =
            (length trimmed \<ge> 2 \<and> hd trimmed \<in> {quote1, quote2} \<and> last trimmed \<in> {quote1, quote2});
          unquoted = trim (trim_quote_chars trimmed)
      in if \<not> quote_wrapped then unquoted else strip_escapes unquoted)"

text \<open>\<open>tilde\<close> is the expansion of a leading tilde by the \<open>shellexpand\<close> crate.\<close>

definition resolve_model_path ::
  "(string \<Rightarrow> string) \<Rightarrow> path \<Rightarrow> path option \<Rightarrow> string \<Rightarrow> path" where
  "resolve_model_path tilde cwd display_cwd input =
     (let expanded = tilde (sanitize_model_path_arg input)
      in if display_cwd \<noteq> None \<and> is_absolute expanded
         then case path_strip_prefix expanded (the display_cwd) of
                Some tail \<Rightarrow> path_push cwd tail
              | None \<Rightarrow> expanded
         else if \<not> is_absolute expanded \<and> expanded \<noteq> []
         then case path_strip_prefix (slash # expanded)
                     (case display_cwd of Some d \<Rightarrow> d | None \<Rightarrow> cwd) of
                Some tail \<Rightarrow> path_push cwd tail
              | None \<Rightarrow> path_push cwd expanded
         else path_push cwd expanded)"

definition display_cwd_or_cwd :: "path \<Rightarrow> path option \<Rightarrow> path" where
  "display_cwd_or_cwd cwd display_cwd = (case display_cwd of Some d \<Rightarrow> d | None \<Rightarrow> cwd)"

subsection \<open>The classification of a request\<close>

definition AUTO_DENY_CONSECUTIVE_LIMIT :: nat where "AUTO_DENY_CONSECUTIVE_LIMIT = 3"
definition AUTO_DENY_TOTAL_LIMIT :: nat where "AUTO_DENY_TOTAL_LIMIT = 20"

definition AUTO_DENY_GUIDANCE :: string where
  "AUTO_DENY_GUIDANCE =
     ''Take a safer approach that stays within what the user asked for; do not retry this exact action or attempt to work around the denial. If no safer alternative exists, ask the user how to proceed.''"

record denial_counters =
  dc_consecutive :: nat
  dc_total :: nat

datatype classification_source = FromClassifier classifier_source | NotWiredSource

fun classification_kind :: "classification_source \<Rightarrow> classifier_source_kind" where
  "classification_kind (FromClassifier src) = source_kind src"
| "classification_kind NotWiredSource = KindNotWired"

record classification_outcome =
  co_verdict :: classifier_verdict
  co_source :: classification_source
  co_latency_ms :: "nat option"

datatype request_classification =
  NotClassified | FastPathAllowed | Classified assessment "classification_outcome option"

fun rc_classifier_source :: "request_classification \<Rightarrow> classifier_source_kind option" where
  "rc_classifier_source NotClassified = None"
| "rc_classifier_source FastPathAllowed = Some KindFastPath"
| "rc_classifier_source (Classified _ outcome) =
     map_option (\<lambda>o'. classification_kind (co_source o')) outcome"

fun rc_classifier_verdict :: "request_classification \<Rightarrow> classifier_verdict option" where
  "rc_classifier_verdict (Classified _ (Some o')) = Some (co_verdict o')"
| "rc_classifier_verdict _ = None"

fun rc_classifier_latency_ms :: "request_classification \<Rightarrow> nat option" where
  "rc_classifier_latency_ms (Classified _ (Some o')) = co_latency_ms o'"
| "rc_classifier_latency_ms _ = None"

fun security_findings_tokens :: "request_classification \<Rightarrow> string list option" where
  "security_findings_tokens (Classified a _) = Some (assessment_tokens a)"
| "security_findings_tokens _ = None"

datatype permission_mode = ModeAlwaysApprove | ModeAutoClassifier | ModeAsk

fun permission_mode_artifact_str :: "permission_mode \<Rightarrow> string" where
  "permission_mode_artifact_str ModeAlwaysApprove = ''always-approve''"
| "permission_mode_artifact_str ModeAutoClassifier = ''auto''"
| "permission_mode_artifact_str ModeAsk = ''ask''"

subsection \<open>Events\<close>

text \<open>The event of a decision, without the two clock readings.\<close>

record permission_event =
  ev_tool_id :: string
  ev_tool_name :: string
  ev_access_kind :: string
  ev_access_detail :: "string option"
  ev_yolo_mode :: bool
  ev_auto_approved :: bool
  ev_user_prompted :: bool
  ev_decision :: string
  ev_prompt_outcome :: "string option"
  ev_reject_reason :: "string option"
  ev_subagent_session_id :: "string option"
  ev_subagent_type :: "string option"
  ev_subagent_description :: "string option"
  ev_permission_mode :: "string option"
  ev_decision_reason :: "string option"
  ev_classifier_source :: "string option"
  ev_classifier_latency_ms :: "nat option"
  ev_auto_denials_consecutive :: "nat option"
  ev_auto_denials_total :: "nat option"
  ev_queue_depth :: "nat option"
  ev_security_findings :: "string list option"
  ev_classifier_verdict :: "string option"
  ev_remember_tool_approvals :: "bool option"

definition decision_event_str :: "decision \<Rightarrow> string \<times> string option" where
  "decision_event_str d =
     (case d of
        Allow \<Rightarrow> (''allow'', None)
      | Ask \<Rightarrow> (''ask'', None)
      | Reject reason \<Rightarrow> (''reject'', Some reason)
      | PolicyDeny reason \<Rightarrow> (''reject'', Some reason)
      | FollowupMessage _ \<Rightarrow> (''followup'', None)
      | Cancelled \<Rightarrow> (''cancelled'', None))"

subsection \<open>Prompt answers\<close>

datatype prompt_outcome =
  OutAllowOnce | OutAllowAlways | OutAllowEditsForSession
| OutAllowAlwaysBashCommand string | OutAllowAlwaysBashGlob string
| OutAllowAlwaysDomain string | OutAllowAlwaysMcpTool string | OutAllowAlwaysMcpServer string
| OutRejectOnce | OutRejectAlwaysBashCommand string | OutRejectAlwaysMcpTool string
| OutRejectAlwaysDomain string | OutCancelled | OutFollowupMessage string | OutError string

datatype prompt_outcome_kind =
  OkAllowOnce | OkAllowAlways | OkAllowEditsForSession | OkAllowAlwaysBash
| OkAllowAlwaysBashGlob | OkAllowAlwaysDomain | OkAllowAlwaysMcpTool | OkAllowAlwaysMcpServer
| OkRejectOnce | OkRejectAlwaysBash | OkRejectAlwaysMcpTool | OkRejectAlwaysDomain
| OkCancelled | OkFollowup | OkError

fun outcome_wire_str :: "prompt_outcome_kind \<Rightarrow> string" where
  "outcome_wire_str OkAllowOnce = ''allow_once''"
| "outcome_wire_str OkAllowAlways = ''allow_always''"
| "outcome_wire_str OkAllowEditsForSession = ''allow_edits_for_session''"
| "outcome_wire_str OkAllowAlwaysBash = ''allow_always_bash''"
| "outcome_wire_str OkAllowAlwaysBashGlob = ''allow_always_bash_glob''"
| "outcome_wire_str OkAllowAlwaysDomain = ''allow_always_domain''"
| "outcome_wire_str OkAllowAlwaysMcpTool = ''allow_always_mcp_tool''"
| "outcome_wire_str OkAllowAlwaysMcpServer = ''allow_always_mcp_server''"
| "outcome_wire_str OkRejectOnce = ''reject_once''"
| "outcome_wire_str OkRejectAlwaysBash = ''reject_always_bash''"
| "outcome_wire_str OkRejectAlwaysMcpTool = ''reject_always_mcp_tool''"
| "outcome_wire_str OkRejectAlwaysDomain = ''reject_always_domain''"
| "outcome_wire_str OkCancelled = ''cancelled''"
| "outcome_wire_str OkFollowup = ''followup''"
| "outcome_wire_str OkError = ''error''"

fun outcome_kind :: "prompt_outcome \<Rightarrow> prompt_outcome_kind" where
  "outcome_kind OutAllowOnce = OkAllowOnce"
| "outcome_kind OutAllowAlways = OkAllowAlways"
| "outcome_kind OutAllowEditsForSession = OkAllowEditsForSession"
| "outcome_kind (OutAllowAlwaysBashCommand _) = OkAllowAlwaysBash"
| "outcome_kind (OutAllowAlwaysBashGlob _) = OkAllowAlwaysBashGlob"
| "outcome_kind (OutAllowAlwaysDomain _) = OkAllowAlwaysDomain"
| "outcome_kind (OutAllowAlwaysMcpTool _) = OkAllowAlwaysMcpTool"
| "outcome_kind (OutAllowAlwaysMcpServer _) = OkAllowAlwaysMcpServer"
| "outcome_kind OutRejectOnce = OkRejectOnce"
| "outcome_kind (OutRejectAlwaysBashCommand _) = OkRejectAlwaysBash"
| "outcome_kind (OutRejectAlwaysMcpTool _) = OkRejectAlwaysMcpTool"
| "outcome_kind (OutRejectAlwaysDomain _) = OkRejectAlwaysDomain"
| "outcome_kind OutCancelled = OkCancelled"
| "outcome_kind (OutFollowupMessage _) = OkFollowup"
| "outcome_kind (OutError _) = OkError"

subsection \<open>The built-in domains of web fetches\<close>

definition DEFAULT_ALLOWED_DOMAINS :: "string list" where
  "DEFAULT_ALLOWED_DOMAINS =
     [''x.ai'', ''console.x.ai'', ''docs.x.ai'', ''api.x.ai'', ''docs.python.org'',
      ''en.cppreference.com'', ''docs.oracle.com'', ''learn.microsoft.com'',
      ''developer.mozilla.org'', ''go.dev'', ''pkg.go.dev'', ''www.php.net'',
      ''docs.swift.org'', ''kotlinlang.org'', ''ruby-doc.org'', ''doc.rust-lang.org'',
      ''docs.rs'', ''www.typescriptlang.org'', ''react.dev'', ''angular.io'',
      ''vuejs.org'', ''nextjs.org'', ''expressjs.com'', ''nodejs.org'', ''bun.sh'',
      ''jquery.com'', ''getbootstrap.com'', ''tailwindcss.com'', ''d3js.org'',
      ''threejs.org'', ''redux.js.org'', ''webpack.js.org'', ''jestjs.io'',
      ''reactrouter.com'', ''docs.djangoproject.com'', ''flask.palletsprojects.com'',
      ''fastapi.tiangolo.com'', ''pandas.pydata.org'', ''numpy.org'',
      ''www.tensorflow.org'', ''pytorch.org'', ''scikit-learn.org'', ''matplotlib.org'',
      ''requests.readthedocs.io'', ''jupyter.org'', ''laravel.com'', ''symfony.com'',
      ''wordpress.org'', ''docs.spring.io'', ''hibernate.org'', ''tomcat.apache.org'',
      ''gradle.org'', ''maven.apache.org'', ''asp.net'', ''dotnet.microsoft.com'',
      ''nuget.org'', ''blazor.net'', ''reactnative.dev'', ''docs.flutter.dev'',
      ''developer.apple.com'', ''developer.android.com'', ''keras.io'',
      ''spark.apache.org'', ''huggingface.co'', ''www.kaggle.com'', ''redis.io'',
      ''www.postgresql.org'', ''dev.mysql.com'', ''www.sqlite.org'', ''graphql.org'',
      ''prisma.io'', ''docs.aws.amazon.com'', ''cloud.google.com'', ''kubernetes.io'',
      ''www.docker.com'', ''www.terraform.io'', ''www.ansible.com'', ''vercel.com/docs'',
      ''docs.netlify.com'', ''devcenter.heroku.com'', ''cypress.io'', ''selenium.dev'',
      ''docs.unity.com'', ''docs.unrealengine.com'', ''git-scm.com'', ''nginx.org'',
      ''httpd.apache.org'']"

section \<open>Properties of requests\<close>

text \<open>The header of a hook question comes off again, and nothing else is taken from a title.\<close>

lemma strip_prompt_header_roundtrip: "strip_prompt_header h (prompt_header h action) = action"
proof -
  have "strip_suffix (action @ HOOK_ASK_SEPARATOR @ ask_line h) (ask_line h)
      = Some (action @ HOOK_ASK_SEPARATOR)"
    by (simp add: strip_suffix_Some)
  moreover have "strip_suffix (action @ HOOK_ASK_SEPARATOR) HOOK_ASK_SEPARATOR = Some action"
    by (simp add: strip_suffix_Some)
  ultimately show ?thesis by (simp add: strip_prompt_header_def prompt_header_def)
qed

lemma strip_prompt_header_cases:
  "strip_prompt_header h title = title \<or> title = prompt_header h (strip_prompt_header h title)"
  by (auto simp: strip_prompt_header_def prompt_header_def strip_suffix_Some bind_eq_Some_conv
      split: option.split)

text \<open>A cleaned argument is a fixed point of the escape loop.\<close>

lemma strip_escapes_done: "strip_literal_escape (strip_escapes s) = None"
  by (induction s rule: strip_escapes.induct)
    (subst strip_escapes.simps, auto split: option.split)

end
