(* ===== verification/GB_Manager.thy ===== *)
theory GB_Manager
  imports GB_PermissionRequest GB_Rules
begin

section \<open>The permission manager (manager/mod.rs)\<close>

text \<open>
  The actor that answers every request to run a tool. Its state is one record; a request goes
  through the stages of the source in their order, each of them a function that answers a
  decision or lets the request pass. What the actor cannot know from its state is a parameter:
  the answer of the prompt, the moments at which the requester is found gone, the result of the
  Git scan, the sandbox and the clock. The flags the handles share with the actor are part of the
  state, and a send on the command channel appends to its queue.
\<close>

subsection \<open>State\<close>

type_synonym shared_classifier =
  "string \<Rightarrow> access_kind \<Rightarrow> string option \<Rightarrow> classifier_context \<Rightarrow> classifier_outcome"

record manager_env =
  me_world :: world
  me_cenv :: classifier_env
  me_store_env :: store_env
  me_url_ok :: "string \<Rightarrow> bool"
  me_url_path :: "string \<Rightarrow> string"
  me_tilde :: "string \<Rightarrow> string"
  me_parse_bool :: "string \<Rightarrow> bool option"
  me_config_entries :: "path \<Rightarrow> (string \<times> string) list option"
  me_sandbox_auto_allow :: bool
  me_cwd :: path
  me_client_id :: "string option"
  me_client_type :: client_type
  me_pin :: bool
  me_remember :: bool
  me_policy :: "compiled_policy option"
  me_prompt_policy :: prompt_policy
  me_static_matcher :: domain_matcher
  me_allowlist_is_default :: bool

datatype permission_command =
  CmdRequest permission_request | CmdSetYoloMode bool | CmdSetAutoMode bool
| CmdSetClassifier "shared_classifier option" | CmdSetClassifierTranscript "classifier_turn list"
| CmdSetProjectInstructions "string option" | CmdResetState | CmdShutdown

record manager_state =
  ms_store :: cached_state_store
  ms_state :: permission_state
  ms_disk :: disk
  ms_yolo_mode :: bool
  ms_auto_mode :: bool
  ms_yolo_state :: bool
  ms_auto_state :: bool
  ms_side_query_wired :: bool
  ms_classifier :: "shared_classifier option"
  ms_consecutive_denials :: nat
  ms_total_denials :: nat
  ms_turns :: "classifier_turn list"
  ms_recorded :: "classifier_turn list"
  ms_instructions :: "string option"
  ms_pin_refusal_logged :: bool
  ms_allow_edits :: bool
  ms_prompt_notify :: bool
  ms_notified :: nat
  ms_events :: "permission_event list"
  ms_queue :: "permission_command list"
  ms_running :: bool

subsection \<open>Start\<close>

record manager_config =
  mc_permission_config :: "(permission_rule list \<times> prompt_policy) option"
  mc_web_fetch_allowed_domains :: "string list"
  mc_initial_yolo :: bool

definition manager_env_of :: "manager_env \<Rightarrow> manager_config \<Rightarrow> manager_env" where
  "manager_env_of me cfg =
     me\<lparr>me_policy := map_option (\<lambda>(rules, _). compile_policy (me_world me) rules)
                        (mc_permission_config cfg),
        me_prompt_policy :=
          (case mc_permission_config cfg of Some (_, p) \<Rightarrow> p | None \<Rightarrow> PromptAsk),
        me_static_matcher := domain_matcher_new (me_world me) (mc_web_fetch_allowed_domains cfg),
        me_allowlist_is_default :=
          (mc_web_fetch_allowed_domains cfg = DEFAULT_ALLOWED_DOMAINS)\<rparr>"

definition default_classifier :: "manager_env \<Rightarrow> shared_classifier" where
  "default_classifier me =
     llm_classify (me_world me) (me_cenv me) default_auto_mode_classifier"

definition persist_manager_state :: "manager_env \<Rightarrow> manager_state \<Rightarrow> manager_state" where
  "persist_manager_state me ms =
     ms\<lparr>ms_disk :=
          persist_state (me_store_env me) (ms_disk ms) (me_cwd me) (ms_state ms) (me_client_id me)\<rparr>"

text \<open>Loading a legacy state that allows all edits turns that into asking, and stores it.\<close>

definition migrate_edit_policy :: "manager_env \<Rightarrow> manager_state \<Rightarrow> manager_state" where
  "migrate_edit_policy me ms =
     (if ps_edit_policy (ms_state ms) = EditAllow
      then persist_manager_state me (ms\<lparr>ms_state := (ms_state ms)\<lparr>ps_edit_policy := EditAsk\<rparr>\<rparr>)
      else ms)"

definition spawn_permission_manager ::
  "manager_env \<Rightarrow> manager_config \<Rightarrow> disk \<Rightarrow> manager_state" where
  "spawn_permission_manager me cfg d =
     (let initial_yolo = clamp_yolo (mc_initial_yolo cfg) (me_pin me);
          seed_auto = (\<not> initial_yolo
                       \<and> map_option snd (mc_permission_config cfg) = Some PromptAuto);
          ((store, st), d') =
            resolve_and_load (me_store_env me) d (me_cwd me) (me_client_id me)
      in migrate_edit_policy me
           \<lparr>ms_store = store, ms_state = st, ms_disk = d', ms_yolo_mode = initial_yolo,
            ms_auto_mode = seed_auto, ms_yolo_state = initial_yolo, ms_auto_state = seed_auto,
            ms_side_query_wired = False, ms_classifier = Some (default_classifier me),
            ms_consecutive_denials = 0, ms_total_denials = 0, ms_turns = [], ms_recorded = [],
            ms_instructions = None, ms_pin_refusal_logged = False, ms_allow_edits = False,
            ms_prompt_notify = False, ms_notified = 0, ms_events = [], ms_queue = [],
            ms_running = True\<rparr>)"

subsection \<open>Commands of the mode\<close>

definition set_yolo_mode_command :: "manager_env \<Rightarrow> bool \<Rightarrow> manager_state \<Rightarrow> manager_state" where
  "set_yolo_mode_command me enabled ms =
     (let clamped = clamp_yolo enabled (me_pin me);
          ms = ms\<lparr>ms_pin_refusal_logged := ms_pin_refusal_logged ms \<or> (enabled \<and> \<not> clamped),
                  ms_yolo_mode := clamped, ms_yolo_state := clamped\<rparr>
      in if clamped then ms\<lparr>ms_auto_mode := False, ms_auto_state := False\<rparr> else ms)"

definition set_auto_mode_command :: "manager_env \<Rightarrow> bool \<Rightarrow> manager_state \<Rightarrow> manager_state" where
  "set_auto_mode_command me enabled ms =
     (let ms = ms\<lparr>ms_auto_mode := enabled, ms_auto_state := enabled\<rparr>
      in if enabled
         then ms\<lparr>ms_yolo_mode := False, ms_yolo_state := False,
                 ms_classifier :=
                   (case ms_classifier ms of
                      None \<Rightarrow> Some (default_classifier me) | Some c \<Rightarrow> Some c)\<rparr>
         else ms)"

definition reset_state_command :: "manager_env \<Rightarrow> manager_state \<Rightarrow> manager_state" where
  "reset_state_command me ms =
     ms\<lparr>ms_state := default_permission_state,
        ms_disk := replace_state_on_disk (me_store_env me) (ms_disk ms) (me_cwd me)
                     default_permission_state (me_client_id me),
        ms_allow_edits := False\<rparr>"

subsection \<open>The facts of a request\<close>

text \<open>What the actor observes while it answers: the closed channel, the scan and the prompt.\<close>

record request_obs =
  ro_gone_at_dequeue :: bool
  ro_scan_joined :: bool
  ro_gone_after_scan :: bool
  ro_gone_in_classify :: bool
  ro_latency_ms :: nat
  ro_gone_before_prompt :: bool
  ro_gone_in_prompt :: bool
  ro_prompt_outcome :: prompt_outcome
  ro_gone_after_prompt :: bool
  ro_queue_depth :: nat

record request_ctx =
  rx_request :: permission_request
  rx_evaluation :: "bash_evaluation option"
  rx_protected :: "protected_edit_reason option"
  rx_preflight :: gate_preflight

definition rx_access :: "request_ctx \<Rightarrow> access_kind" where
  "rx_access rx = rq_access (rx_request rx)"

definition rx_tool_name :: "request_ctx \<Rightarrow> string" where
  "rx_tool_name rx = tool_name_for_access (rx_access rx)"

definition hook_forced_prompt :: "request_ctx \<Rightarrow> bool" where
  "hook_forced_prompt rx \<longleftrightarrow> rq_hook_ask (rx_request rx) \<noteq> None"

definition pre_classifier_forced_prompt :: "request_ctx \<Rightarrow> bool" where
  "pre_classifier_forced_prompt rx \<longleftrightarrow>
     policy_forced_prompt (rx_preflight rx) \<or> shell_forced_prompt (rx_preflight rx)
     \<or> hook_forced_prompt rx"

definition current_permission_mode :: "manager_state \<Rightarrow> permission_mode" where
  "current_permission_mode ms =
     (if ms_yolo_mode ms then ModeAlwaysApprove
      else if ms_auto_mode ms then ModeAutoClassifier else ModeAsk)"

text \<open>The event of a decision, and the answer: a requester that is gone is sent none.\<close>

definition emit_event ::
  "manager_env \<Rightarrow> manager_state \<Rightarrow> permission_request \<Rightarrow> nat \<Rightarrow> request_classification
   \<Rightarrow> decision \<Rightarrow> bool \<Rightarrow> bool \<Rightarrow> string option \<Rightarrow> string \<Rightarrow> permission_event" where
  "emit_event me ms rq queue_depth rc d auto_approved user_prompted prompt_outcome reason =
     (let (kind, detail) = access_event_detail (me_cenv me) (rq_access rq);
          (decision_str, reject_reason) = decision_event_str d
      in \<lparr>ev_tool_id = rq_tool_call_id rq, ev_tool_name = tool_name_for_access (rq_access rq),
          ev_access_kind = kind, ev_access_detail = detail, ev_yolo_mode = ms_yolo_mode ms,
          ev_auto_approved = auto_approved, ev_user_prompted = user_prompted,
          ev_decision = decision_str, ev_prompt_outcome = prompt_outcome,
          ev_reject_reason = reject_reason, ev_subagent_session_id = rq_session_id rq,
          ev_subagent_type = rq_subagent_type rq,
          ev_subagent_description = rq_subagent_description rq,
          ev_permission_mode =
            Some (permission_mode_artifact_str (current_permission_mode ms)),
          ev_decision_reason = Some reason,
          ev_classifier_source = map_option source_kind_wire_str (rc_classifier_source rc),
          ev_classifier_latency_ms = rc_classifier_latency_ms rc,
          ev_auto_denials_consecutive =
            (if ms_auto_mode ms then Some (ms_consecutive_denials ms) else None),
          ev_auto_denials_total = (if ms_auto_mode ms then Some (ms_total_denials ms) else None),
          ev_queue_depth = Some queue_depth,
          ev_security_findings = security_findings_tokens rc,
          ev_classifier_verdict = map_option verdict_wire_str (rc_classifier_verdict rc),
          ev_remember_tool_approvals = Some (me_remember me)\<rparr>)"

datatype response = Answered decision permission_event | Abandoned permission_event

definition answer ::
  "manager_env \<Rightarrow> request_obs \<Rightarrow> permission_request \<Rightarrow> request_classification \<Rightarrow> manager_state
   \<Rightarrow> decision \<Rightarrow> bool \<Rightarrow> decision_reason \<Rightarrow> manager_state \<times> response" where
  "answer me ob rq rc ms d auto_approved reason =
     (let ev = emit_event me ms rq (ro_queue_depth ob) rc d auto_approved False None
                 (reason_str reason)
      in (ms\<lparr>ms_events := ms_events ms @ [ev]\<rparr>, Answered d ev))"

definition abandon ::
  "manager_env \<Rightarrow> request_obs \<Rightarrow> permission_request \<Rightarrow> request_classification \<Rightarrow> manager_state
   \<Rightarrow> manager_state \<times> response" where
  "abandon me ob rq rc ms =
     (let ev = emit_event me ms rq (ro_queue_depth ob) rc Cancelled False False None
                 (reason_str REQUESTER_GONE)
      in (ms\<lparr>ms_events := ms_events ms @ [ev]\<rparr>, Abandoned ev))"

subsection \<open>Evaluation\<close>

definition reads_grants :: "access_kind \<Rightarrow> bool" where
  "reads_grants access =
     (case access of Bash _ \<Rightarrow> True | MCPTool _ _ \<Rightarrow> True | WebFetch _ \<Rightarrow> True | _ \<Rightarrow> False)"

definition refresh_grants :: "manager_env \<Rightarrow> access_kind \<Rightarrow> manager_state \<Rightarrow> manager_state" where
  "refresh_grants me access ms =
     (if reads_grants access
      then let ((fresh, store), d) =
                 reload_if_changed (me_store_env me) (ms_disk ms) (ms_store ms)
           in ms\<lparr>ms_store := store, ms_disk := d,
                 ms_state := (case fresh of Some other \<Rightarrow> merge_grants_from (ms_state ms) other
                              | None \<Rightarrow> ms_state ms)\<rparr>
      else ms)"

definition request_cwd :: "manager_env \<Rightarrow> permission_request \<Rightarrow> path" where
  "request_cwd me rq =
     (case rq_path_context rq of Some ctx \<Rightarrow> pc_real_cwd ctx | None \<Rightarrow> me_cwd me)"

definition ambient_risk ::
  "manager_env \<Rightarrow> request_obs \<Rightarrow> string list list \<Rightarrow> path \<Rightarrow> bool" where
  "ambient_risk me ob raw cwd =
     (case ambient_scan_plan_from_segments raw cwd of
        PlanFailClosed \<Rightarrow> True
      | CheckDirs dirs \<Rightarrow>
          if ro_scan_joined ob
          then ambient_exec_risk_from_plan (me_parse_bool me) (me_config_entries me)
                 (CheckDirs dirs)
          else True)"

text \<open>\<open>None\<close> when the requester is gone after the scan of the working directories.\<close>

definition scan_evaluation ::
  "manager_env \<Rightarrow> request_obs \<Rightarrow> path \<Rightarrow> bash_evaluation \<Rightarrow> bash_evaluation option" where
  "scan_evaluation me ob cwd e =
     (case be_ambient_segments e of
        None \<Rightarrow> Some e
      | Some raw \<Rightarrow>
          if ro_gone_after_scan ob then None
          else let e = e\<lparr>be_ambient_segments := None\<rparr>
               in Some (if ambient_risk me ob raw cwd
                        then e\<lparr>be_assessment := be_assessment e \<union> {ExecOrAmbientGit}\<rparr> else e))"

definition request_evaluation ::
  "manager_env \<Rightarrow> request_obs \<Rightarrow> permission_request \<Rightarrow> manager_state
   \<Rightarrow> bash_evaluation option option" where
  "request_evaluation me ob rq ms =
     (case rq_access rq of
        Bash cmd \<Rightarrow>
          map_option Some
            (scan_evaluation me ob (request_cwd me rq)
               (evaluate_bash (me_world me) cmd (ms_state ms) True))
      | _ \<Rightarrow> Some None)"

definition target_protection ::
  "manager_env \<Rightarrow> permission_request \<Rightarrow> string \<Rightarrow> protected_edit_reason option" where
  "target_protection me rq p =
     edit_target_protection (me_world me)
       (case rq_path_context rq of
          Some ctx \<Rightarrow> resolve_model_path (me_tilde me) (pc_real_cwd ctx) (pc_display_cwd ctx) p
        | None \<Rightarrow> resolve_model_path (me_tilde me) (me_cwd me) None p)"

definition request_protected_edit ::
  "manager_env \<Rightarrow> permission_request \<Rightarrow> bash_evaluation option \<Rightarrow> protected_edit_reason option" where
  "request_protected_edit me rq ev =
     (case rq_access rq of
        Edit p \<Rightarrow> target_protection me rq p
      | Bash _ \<Rightarrow>
          Option.bind ev (\<lambda>e.
            if be_has_cwd_change e \<and> list_ex (\<lambda>p. \<not> is_absolute p) (be_creation_paths e)
            then Some Sensitive
            else find_map (target_protection me rq) (be_creation_paths e))
      | _ \<Rightarrow> None)"

subsection \<open>Before the classifier\<close>

definition policy_denies :: "request_ctx \<Rightarrow> string option" where
  "policy_denies rx =
     (case policy_decision (rx_preflight rx) of Some (Reject reason) \<Rightarrow> Some reason | _ \<Rightarrow> None)"

definition narrow_policy_authorizes :: "manager_env \<Rightarrow> request_ctx \<Rightarrow> bool" where
  "narrow_policy_authorizes me rx =
     (case me_policy me of
        None \<Rightarrow> False
      | Some p \<Rightarrow> narrow_allow_authorizes (me_world me) p (rx_access rx))"

definition policy_allow_before_classifier ::
  "manager_env \<Rightarrow> manager_state \<Rightarrow> request_ctx \<Rightarrow> bool" where
  "policy_allow_before_classifier me ms rx \<longleftrightarrow>
     ms_auto_mode ms \<and> \<not> pre_classifier_forced_prompt rx \<and> rx_protected rx = None
     \<and> policy_decision (rx_preflight rx) = Some Allow
     \<and> (bash_assessment_is_clear (rx_evaluation rx)
        \<or> (\<not> bash_request_floor_requires_prompt (rx_evaluation rx)
           \<and> narrow_policy_authorizes me rx))"

definition session_grant :: "manager_env \<Rightarrow> manager_state \<Rightarrow> request_ctx \<Rightarrow> reasoned" where
  "session_grant me ms rx =
     (if \<not> pre_classifier_forced_prompt rx \<and> rx_protected rx = None
      then session_grant_pre_decision (me_world me) (me_url_ok me) (me_url_path me) (rx_access rx)
             (rx_evaluation rx) (ms_state ms) (ms_allow_edits ms) (me_static_matcher me)
             (\<not> (ms_auto_mode ms \<and> me_allowlist_is_default me)) (me_pin me)
      else None)"

text \<open>A decision, whether it counts as auto-approved, and its reason.\<close>

type_synonym ruling = "(decision \<times> bool \<times> decision_reason) option"

definition decide_before_classifier ::
  "manager_env \<Rightarrow> manager_state \<Rightarrow> request_ctx \<Rightarrow> ruling" where
  "decide_before_classifier me ms rx =
     (case policy_denies rx of
        Some reason \<Rightarrow> Some (PolicyDeny reason, False, POLICY_DENY)
      | None \<Rightarrow>
          if ms_yolo_mode ms \<and> \<not> shell_forced_prompt (rx_preflight rx) \<and> \<not> hook_forced_prompt rx
          then Some (Allow, True, YOLO)
          else case session_grant me ms rx of
                 Some (d, reason) \<Rightarrow> Some (d, True, reason)
               | None \<Rightarrow>
                   if policy_allow_before_classifier me ms rx
                   then Some (Allow, True, POLICY_ALLOW) else None)"

subsection \<open>The auto mode\<close>

datatype route_result = RouteCompleted classifier_outcome | RouteNotWired | RouteAbandoned

definition classify_route ::
  "manager_env \<Rightarrow> request_obs \<Rightarrow> manager_state \<Rightarrow> request_ctx \<Rightarrow> assessment \<Rightarrow> route_result" where
  "classify_route me ob ms rx a =
     (case ms_classifier ms of
        Some clf \<Rightarrow>
          if ro_gone_in_classify ob then RouteAbandoned
          else RouteCompleted
                 (clf (rx_tool_name rx) (rx_access rx)
                    (snd (access_event_detail (me_cenv me) (rx_access rx)))
                    \<lparr>cc_turns = ms_turns ms @ ms_recorded ms,
                     cc_project_instructions = ms_instructions ms,
                     cc_security_findings = a\<rparr>)
      | None \<Rightarrow>
          (case rx_access rx of
             AgentMessage _ \<Rightarrow> RouteCompleted (heuristic_outcome VerdictBlock)
           | _ \<Rightarrow> RouteNotWired))"

definition route_classification ::
  "request_obs \<Rightarrow> assessment \<Rightarrow> route_result \<Rightarrow> request_classification" where
  "route_classification ob a route =
     (case route of
        RouteAbandoned \<Rightarrow> Classified a None
      | RouteNotWired \<Rightarrow>
          Classified a (Some \<lparr>co_verdict = VerdictUnavailable, co_source = NotWiredSource,
                             co_latency_ms = None\<rparr>)
      | RouteCompleted o' \<Rightarrow>
          Classified a (Some \<lparr>co_verdict = oc_verdict o',
                             co_source = FromClassifier (outcome_source o'),
                             co_latency_ms = Some (ro_latency_ms ob)\<rparr>))"

definition auto_deny_text :: "classifier_outcome option \<Rightarrow> string" where
  "auto_deny_text outcome =
     (case Option.bind outcome oc_reason of
        Some r \<Rightarrow>
          ''Auto mode blocked this action ('' @ trim_end_matches (CHR ''.'') r @ ''). ''
          @ AUTO_DENY_GUIDANCE
      | None \<Rightarrow> ''Auto mode blocked this action. '' @ AUTO_DENY_GUIDANCE)"

text \<open>
  What the auto mode answers: a decision, an abandoned request, or a request that goes on,
  forced to a prompt with a reason or not.
\<close>

datatype auto_answer =
  AutoDecides decision bool decision_reason
| AutoAbandons
| AutoPasses bool "decision_reason option"

definition below_denial_limits :: "manager_state \<Rightarrow> bool" where
  "below_denial_limits ms \<longleftrightarrow>
     ms_consecutive_denials ms < AUTO_DENY_CONSECUTIVE_LIMIT
     \<and> ms_total_denials ms < AUTO_DENY_TOTAL_LIMIT"

definition on_verdict ::
  "manager_env \<Rightarrow> request_ctx \<Rightarrow> classifier_outcome option \<Rightarrow> manager_state
   \<Rightarrow> manager_state \<times> auto_answer" where
  "on_verdict me rx outcome ms =
     (case (case outcome of Some o' \<Rightarrow> oc_verdict o' | None \<Rightarrow> VerdictUnavailable) of
        VerdictAllow \<Rightarrow>
          (ms\<lparr>ms_consecutive_denials := 0\<rparr>,
           if \<not> hook_forced_prompt rx then AutoDecides Allow True AUTO_CLASSIFIER_ALLOW
           else AutoPasses False None)
      | VerdictBlock \<Rightarrow>
          if can_present_permission_prompt (me_client_type me)
          then (ms, AutoPasses True (Some AUTO_CLASSIFIER_DENY))
          else if below_denial_limits ms
          then (ms\<lparr>ms_consecutive_denials := ms_consecutive_denials ms + 1,
                   ms_total_denials := ms_total_denials ms + 1\<rparr>,
                AutoDecides (PolicyDeny (auto_deny_text outcome)) False AUTO_CLASSIFIER_DENY)
          else (ms, AutoPasses True (Some AUTO_DENIAL_LIMIT))
      | VerdictUnavailable \<Rightarrow>
          (ms, AutoPasses True
                 (Some (case outcome of
                          Some o' \<Rightarrow> if outcome_is_timeout o' then AUTO_CLASSIFIER_TIMEOUT
                                    else AUTO_CLASSIFIER_UNAVAILABLE
                        | None \<Rightarrow> AUTO_CLASSIFIER_UNAVAILABLE))))"

definition auto_classify ::
  "manager_env \<Rightarrow> request_obs \<Rightarrow> request_ctx \<Rightarrow> manager_state
   \<Rightarrow> manager_state \<times> request_classification \<times> auto_answer" where
  "auto_classify me ob rx ms =
     (let a = classifier_assessment (rx_evaluation rx) (defers_gate_ask (rx_preflight rx));
          route = classify_route me ob ms rx a;
          rc = route_classification ob a route
      in case route of
           RouteAbandoned \<Rightarrow> (ms, rc, AutoAbandons)
         | RouteNotWired \<Rightarrow> (let (ms, ans) = on_verdict me rx None ms in (ms, rc, ans))
         | RouteCompleted o' \<Rightarrow> (let (ms, ans) = on_verdict me rx (Some o') ms in (ms, rc, ans)))"

definition auto_mode_step ::
  "manager_env \<Rightarrow> request_obs \<Rightarrow> request_ctx \<Rightarrow> manager_state
   \<Rightarrow> manager_state \<times> request_classification \<times> auto_answer" where
  "auto_mode_step me ob rx ms =
     (if ms_auto_mode ms \<and> admits_auto_classifier (rx_preflight rx)
      then let needs_user =
                 (rx_protected rx \<noteq> None
                  \<or> access_requires_user_interaction (rx_tool_name rx) (rx_access rx))
           in case auto_mode_fast_path (rx_access rx) (rx_tool_name rx) needs_user of
                FastAllow \<Rightarrow>
                  if hook_forced_prompt rx then (ms, NotClassified, AutoPasses False None)
                  else (ms, FastPathAllowed, AutoDecides Allow True AUTO_FAST_PATH)
              | FastPromptUser \<Rightarrow> (ms, NotClassified, AutoPasses True (Some NEEDS_USER))
              | FastClassify \<Rightarrow> auto_classify me ob rx ms
      else (ms, NotClassified, AutoPasses False None))"

subsection \<open>After the classifier\<close>

definition sandbox_allows :: "manager_env \<Rightarrow> request_ctx \<Rightarrow> bool \<Rightarrow> bool" where
  "sandbox_allows me rx auto_forced \<longleftrightarrow>
     (case rx_access rx of Bash _ \<Rightarrow> True | _ \<Rightarrow> False)
     \<and> sandbox_may_auto_allow_bash (rx_evaluation rx) (me_sandbox_auto_allow me)
     \<and> \<not> policy_forced_prompt (rx_preflight rx) \<and> \<not> auto_forced
     \<and> \<not> hook_forced_prompt rx \<and> rx_protected rx = None"

definition policy_allow_is_deferred :: "manager_env \<Rightarrow> request_ctx \<Rightarrow> bool \<Rightarrow> bool" where
  "policy_allow_is_deferred me rx auto_forced \<longleftrightarrow>
     rx_protected rx \<noteq> None \<or> auto_forced \<or> hook_forced_prompt rx
     \<or> (bash_request_floor_requires_prompt (rx_evaluation rx)
        \<and> \<not> narrow_allow_clears_write_floor (me_world me) (rx_evaluation rx) (me_policy me)
              (rx_access rx))"

definition policy_ruling :: "manager_env \<Rightarrow> request_ctx \<Rightarrow> bool \<Rightarrow> decision option" where
  "policy_ruling me rx auto_forced =
     (case policy_decision (rx_preflight rx) of
        Some Ask \<Rightarrow> None
      | Some Allow \<Rightarrow> if policy_allow_is_deferred me rx auto_forced then None else Some Allow
      | Some d \<Rightarrow> Some d
      | None \<Rightarrow> None)"

definition edit_pre_decision :: "manager_state \<Rightarrow> request_ctx \<Rightarrow> reasoned" where
  "edit_pre_decision ms rx =
     (if ms_allow_edits ms \<and> rx_protected rx = None then Some (Allow, PERSISTED_GRANT)
      else case ps_edit_policy (ms_state ms) of
             EditReject \<Rightarrow> Some (Reject ''edits prohibited'', SESSION_DENY)
           | _ \<Rightarrow> None)"

definition bash_pre_decision ::
  "manager_env \<Rightarrow> manager_state \<Rightarrow> request_ctx \<Rightarrow> bool \<Rightarrow> string \<Rightarrow> reasoned" where
  "bash_pre_decision me ms rx auto_forced cmd =
     (if rx_protected rx \<noteq> None \<or> bash_request_floor_requires_prompt (rx_evaluation rx) then None
      else Option.bind (rx_evaluation rx) (\<lambda>e.
        if policy_forced_prompt (rx_preflight rx)
        then if me_remember me \<and> \<not> auto_forced \<and> \<not> shell_file_forced_prompt (rx_preflight rx)
             then bash_grant_pre_decision cmd e (ms_state ms) (me_pin me) ASK_FLOOR_REMEMBER
             else None
        else bash_grant_pre_decision cmd e (ms_state ms) (me_pin me) (post_classify auto_forced)))"

definition web_fetch_pre_decision ::
  "manager_env \<Rightarrow> manager_state \<Rightarrow> string \<Rightarrow> reasoned" where
  "web_fetch_pre_decision me ms url =
     (if \<not> me_url_ok me url then None
      else case web_fetch_deny_pre_decision (me_world me) url (ms_state ms) of
             Some reject \<Rightarrow> Some (reject, SESSION_DENY)
           | None \<Rightarrow>
               if domain_check (me_world me) (me_url_path me) (me_static_matcher me) url = None
               then Some (Allow, STATIC_ALLOWLIST)
               else case w_url_host (me_world me) url of
                      None \<Rightarrow> None
                    | Some host \<Rightarrow>
                        if normalize_domain (me_world me) host
                           \<in> set (ps_allowed_web_fetch_domains (ms_state ms))
                        then Some (Allow, PERSISTED_GRANT) else None)"

definition access_pre_decision ::
  "manager_env \<Rightarrow> manager_state \<Rightarrow> request_ctx \<Rightarrow> bool \<Rightarrow> reasoned" where
  "access_pre_decision me ms rx auto_forced =
     (case rx_access rx of
        Read _ \<Rightarrow> if policy_forced_prompt (rx_preflight rx) then None else Some (Allow, SAFE_COMMAND)
      | Grep _ _ \<Rightarrow>
          if policy_forced_prompt (rx_preflight rx) then None else Some (Allow, SAFE_COMMAND)
      | WebSearch _ \<Rightarrow> Some (Allow, SAFE_COMMAND)
      | MCPTool name _ \<Rightarrow>
          map_option (\<lambda>d. (d, case d of Reject _ \<Rightarrow> SESSION_DENY | _ \<Rightarrow> PERSISTED_GRANT))
            (mcp_pre_decision name (ms_state ms) (policy_forced_prompt (rx_preflight rx))
               (me_remember me))
      | Edit _ \<Rightarrow> edit_pre_decision ms rx
      | Bash cmd \<Rightarrow> bash_pre_decision me ms rx auto_forced cmd
      | AgentMessage _ \<Rightarrow> None
      | WebFetch url \<Rightarrow> web_fetch_pre_decision me ms url)"

definition is_allow :: "reasoned \<Rightarrow> bool" where
  "is_allow r = (case r of Some (Allow, _) \<Rightarrow> True | _ \<Rightarrow> False)"

definition webfetch_static_fallback ::
  "request_ctx \<Rightarrow> decision_reason option \<Rightarrow> reasoned \<Rightarrow> bool" where
  "webfetch_static_fallback rx auto_reason r \<longleftrightarrow>
     auto_reason \<in> {Some AUTO_CLASSIFIER_TIMEOUT, Some AUTO_CLASSIFIER_UNAVAILABLE}
     \<and> (case rx_access rx of WebFetch _ \<Rightarrow> True | _ \<Rightarrow> False)
     \<and> r \<in> {Some (Allow, STATIC_ALLOWLIST), Some (Allow, PERSISTED_GRANT)}"

definition neutralized_pre_decision ::
  "request_ctx \<Rightarrow> bool \<Rightarrow> decision_reason option \<Rightarrow> reasoned \<Rightarrow> reasoned" where
  "neutralized_pre_decision rx auto_forced auto_reason r =
     (let r = (if auto_forced \<and> auto_prompt_blocks_allow (rx_access rx) \<and> is_allow r
                  \<and> \<not> webfetch_static_fallback rx auto_reason r
               then None else r)
      in if hook_forced_prompt rx \<and> is_allow r then None else r)"

definition decide_after_classifier ::
  "manager_env \<Rightarrow> manager_state \<Rightarrow> request_ctx \<Rightarrow> bool \<Rightarrow> decision_reason option \<Rightarrow> ruling" where
  "decide_after_classifier me ms rx auto_forced auto_reason =
     (if sandbox_allows me rx auto_forced then Some (Allow, True, SANDBOX_AUTO)
      else case policy_ruling me rx auto_forced of
        Some d \<Rightarrow> Some (d, True, POLICY_ALLOW)
      | None \<Rightarrow>
          (case neutralized_pre_decision rx auto_forced auto_reason
                  (access_pre_decision me ms rx auto_forced) of
             Some (d, reason) \<Rightarrow> Some (d, True, reason)
           | None \<Rightarrow>
               if me_prompt_policy me = PromptDeny
               then Some (PolicyDeny ''denied by prompt policy (tool not pre-approved)'', False,
                          PROMPT_DENY)
               else if me_prompt_policy me = PromptAllow \<and> \<not> hook_forced_prompt rx
               then Some (Allow, True, PROMPT_ALLOW)
               else None))"

subsection \<open>The prompt\<close>

definition opaque_floor :: "request_ctx \<Rightarrow> bool" where
  "opaque_floor rx =
     (case rx_evaluation rx of
        None \<Rightarrow> False | Some e \<Rightarrow> \<not> be_exact_grant e \<and> OpaqueShell \<in> be_assessment e)"

fun prompt_reason_str :: "prompt_reason \<Rightarrow> string" where
  "prompt_reason_str POLICY_ASK = reason_str REASON_POLICY_ASK"
| "prompt_reason_str BASH_COMMAND_GATE_ASK = reason_str REASON_BASH_COMMAND_GATE_ASK"
| "prompt_reason_str SHELL_FILE_GATE_ASK = reason_str REASON_SHELL_FILE_GATE_ASK"
| "prompt_reason_str (OtherReason s) = s"

definition request_prompt_trigger :: "request_ctx \<Rightarrow> decision_reason option \<Rightarrow> string" where
  "request_prompt_trigger rx auto_reason =
     (case prompt_trigger (rx_preflight rx)
             (map_option (\<lambda>r. OtherReason (reason_str r)) auto_reason) of
        Some r \<Rightarrow> prompt_reason_str r
      | None \<Rightarrow>
          reason_str
            (if hook_forced_prompt rx then HOOK_ASK
             else if opaque_floor rx then REASON_OPAQUE_SHELL
             else if bash_request_floor_requires_prompt (rx_evaluation rx)
             then BASH_REQUEST_FLOOR else NEEDS_USER))"

definition rejected_execution :: string where
  "rejected_execution = ''User rejected the execution''"

definition rejected_and_excluded :: "string \<Rightarrow> string" where
  "rejected_and_excluded what =
     ''User rejected the execution and excluded `'' @ what
     @ ''` from future runs in this project''"

definition failed_prompt :: "string \<Rightarrow> string" where
  "failed_prompt e = ''Failed to request permission from user: '' @ e"

definition update_state ::
  "manager_env \<Rightarrow> (permission_state \<Rightarrow> permission_state) \<Rightarrow> manager_state \<Rightarrow> manager_state" where
  "update_state me f ms = persist_manager_state me (ms\<lparr>ms_state := f (ms_state ms)\<rparr>)"

definition insert_glob :: "string \<Rightarrow> permission_state \<Rightarrow> permission_state" where
  "insert_glob g st = st\<lparr>ps_allowed_bash_globs := List.insert g (ps_allowed_bash_globs st)\<rparr>"

definition insert_bash_deny :: "string \<Rightarrow> permission_state \<Rightarrow> permission_state" where
  "insert_bash_deny p st =
     st\<lparr>ps_disallowed_bash_commands := List.insert p (ps_disallowed_bash_commands st)\<rparr>"

definition insert_mcp_tool :: "string \<Rightarrow> permission_state \<Rightarrow> permission_state" where
  "insert_mcp_tool n st = st\<lparr>ps_allowed_mcp_tools := List.insert n (ps_allowed_mcp_tools st)\<rparr>"

definition insert_mcp_server :: "string \<Rightarrow> permission_state \<Rightarrow> permission_state" where
  "insert_mcp_server n st = st\<lparr>ps_allowed_mcp_servers := List.insert n (ps_allowed_mcp_servers st)\<rparr>"

definition insert_mcp_deny :: "string \<Rightarrow> permission_state \<Rightarrow> permission_state" where
  "insert_mcp_deny n st =
     st\<lparr>ps_disallowed_mcp_tools := List.insert n (ps_disallowed_mcp_tools st)\<rparr>"

definition insert_domain :: "string \<Rightarrow> permission_state \<Rightarrow> permission_state" where
  "insert_domain d st =
     st\<lparr>ps_allowed_web_fetch_domains := List.insert d (ps_allowed_web_fetch_domains st)\<rparr>"

definition insert_domain_deny :: "string \<Rightarrow> permission_state \<Rightarrow> permission_state" where
  "insert_domain_deny d st =
     st\<lparr>ps_disallowed_web_fetch_domains := List.insert d (ps_disallowed_web_fetch_domains st)\<rparr>"

text \<open>What an answer does to the state, the decision it gives, and the kind that is reported.\<close>

fun bash_outcome ::
  "manager_env \<Rightarrow> string \<Rightarrow> prompt_outcome \<Rightarrow> manager_state
   \<Rightarrow> manager_state \<times> decision \<times> prompt_outcome_kind" where
  "bash_outcome me cmd OutAllowOnce ms = (ms, Allow, OkAllowOnce)"
| "bash_outcome me cmd OutAllowAlways ms =
     (update_state me
        (\<lambda>st. foldl insert_grant (insert_grant st cmd) (bash_grant_segments (me_world me) cmd)) ms,
      Allow, OkAllowAlways)"
| "bash_outcome me cmd (OutAllowAlwaysBashCommand label) ms =
     (update_state me (\<lambda>st. persist_bash_always_allow (me_world me) st cmd label) ms,
      Allow, OkAllowAlwaysBash)"
| "bash_outcome me cmd (OutAllowAlwaysBashGlob pattern) ms =
     (if bash_glob_covers_script (me_world me) cmd pattern
      then update_state me (insert_glob pattern) ms else ms,
      Allow, OkAllowAlwaysBashGlob)"
| "bash_outcome me cmd (OutAllowAlwaysDomain _) ms = (ms, Allow, OkAllowOnce)"
| "bash_outcome me cmd (OutAllowAlwaysMcpTool _) ms = (ms, Allow, OkAllowOnce)"
| "bash_outcome me cmd (OutAllowAlwaysMcpServer _) ms = (ms, Allow, OkAllowOnce)"
| "bash_outcome me cmd OutAllowEditsForSession ms = (ms, Allow, OkAllowOnce)"
| "bash_outcome me cmd OutRejectOnce ms = (ms, Reject rejected_execution, OkRejectOnce)"
| "bash_outcome me cmd (OutRejectAlwaysBashCommand label) ms =
     (update_state me (insert_bash_deny label) ms, Reject (rejected_and_excluded label),
      OkRejectAlwaysBash)"
| "bash_outcome me cmd (OutRejectAlwaysMcpTool _) ms =
     (ms, Reject rejected_execution, OkRejectOnce)"
| "bash_outcome me cmd (OutRejectAlwaysDomain _) ms =
     (ms, Reject rejected_execution, OkRejectOnce)"
| "bash_outcome me cmd OutCancelled ms = (ms, Cancelled, OkCancelled)"
| "bash_outcome me cmd (OutFollowupMessage m) ms = (ms, FollowupMessage m, OkFollowup)"
| "bash_outcome me cmd (OutError e) ms = (ms, Reject (failed_prompt e), OkError)"

text \<open>A message to another agent is allowed or rejected for this one call, never for more.\<close>

definition one_call_outcome :: "access_kind \<Rightarrow> prompt_outcome \<Rightarrow> prompt_outcome" where
  "one_call_outcome access outcome =
     (case access of
        AgentMessage _ \<Rightarrow>
          (case outcome of
             OutAllowOnce \<Rightarrow> OutAllowOnce | OutAllowAlways \<Rightarrow> OutAllowOnce
           | OutAllowEditsForSession \<Rightarrow> OutAllowOnce
           | OutAllowAlwaysBashCommand _ \<Rightarrow> OutAllowOnce
           | OutAllowAlwaysBashGlob _ \<Rightarrow> OutAllowOnce
           | OutAllowAlwaysDomain _ \<Rightarrow> OutAllowOnce
           | OutAllowAlwaysMcpTool _ \<Rightarrow> OutAllowOnce
           | OutAllowAlwaysMcpServer _ \<Rightarrow> OutAllowOnce
           | OutRejectOnce \<Rightarrow> OutRejectOnce
           | OutRejectAlwaysBashCommand _ \<Rightarrow> OutRejectOnce
           | OutRejectAlwaysMcpTool _ \<Rightarrow> OutRejectOnce
           | OutRejectAlwaysDomain _ \<Rightarrow> OutRejectOnce
           | other \<Rightarrow> other)
      | _ \<Rightarrow> outcome)"

definition access_web_domain :: "manager_env \<Rightarrow> access_kind \<Rightarrow> string option" where
  "access_web_domain me access =
     (case access of
        WebFetch url \<Rightarrow>
          if me_url_ok me url
          then map_option (normalize_domain (me_world me)) (w_url_host (me_world me) url)
          else None
      | _ \<Rightarrow> None)"

definition access_web_deny_key :: "manager_env \<Rightarrow> access_kind \<Rightarrow> string option" where
  "access_web_deny_key me access =
     (case access of
        WebFetch url \<Rightarrow>
          if me_url_ok me url then web_fetch_deny_key_from_url (me_world me) url else None
      | _ \<Rightarrow> None)"

definition insert_mcp_scope :: "string \<Rightarrow> string \<Rightarrow> permission_state \<Rightarrow> permission_state" where
  "insert_mcp_scope access_name server_prefix st =
     (case parse_mcp_qualified_name access_name of
        Some (_, server, _) \<Rightarrow>
          if server = server_prefix then insert_mcp_server server st
          else insert_mcp_tool access_name st
      | None \<Rightarrow> insert_mcp_tool access_name st)"

fun other_outcome ::
  "manager_env \<Rightarrow> access_kind \<Rightarrow> prompt_outcome \<Rightarrow> manager_state
   \<Rightarrow> manager_state \<times> decision \<times> prompt_outcome_kind" where
  "other_outcome me access OutAllowOnce ms = (ms, Allow, OkAllowOnce)"
| "other_outcome me access OutAllowEditsForSession ms =
     (ms\<lparr>ms_allow_edits := True\<rparr>, Allow, OkAllowEditsForSession)"
| "other_outcome me access OutAllowAlways ms =
     (update_state me
        (case access of MCPTool name _ \<Rightarrow> insert_mcp_tool name | _ \<Rightarrow> (\<lambda>st. st)) ms,
      Allow, OkAllowAlways)"
| "other_outcome me access (OutAllowAlwaysBashCommand _) ms = (ms, Allow, OkAllowAlwaysBash)"
| "other_outcome me access (OutAllowAlwaysBashGlob _) ms = (ms, Allow, OkAllowAlwaysBash)"
| "other_outcome me access (OutAllowAlwaysDomain client_domain) ms =
     (case access_web_domain me access of
        Some domain \<Rightarrow> update_state me (insert_domain domain) ms | None \<Rightarrow> ms,
      Allow, OkAllowAlwaysDomain)"
| "other_outcome me access (OutAllowAlwaysMcpTool tool_name) ms =
     (case access of
        MCPTool name _ \<Rightarrow> update_state me (insert_mcp_tool name) ms | _ \<Rightarrow> ms,
      Allow, OkAllowAlwaysMcpTool)"
| "other_outcome me access (OutAllowAlwaysMcpServer server_prefix) ms =
     (case access of
        MCPTool name _ \<Rightarrow> update_state me (insert_mcp_scope name server_prefix) ms | _ \<Rightarrow> ms,
      Allow, OkAllowAlwaysMcpServer)"
| "other_outcome me access (OutRejectAlwaysBashCommand _) ms =
     (ms, Reject rejected_execution, OkRejectAlwaysBash)"
| "other_outcome me access (OutRejectAlwaysMcpTool tool_name) ms =
     (case access of
        MCPTool name _ \<Rightarrow>
          (update_state me (insert_mcp_deny name) ms, Reject (rejected_and_excluded name),
           OkRejectAlwaysMcpTool)
      | _ \<Rightarrow> (ms, Reject rejected_execution, OkRejectOnce))"
| "other_outcome me access (OutRejectAlwaysDomain client_domain) ms =
     (case access_web_deny_key me access of
        Some domain \<Rightarrow>
          (update_state me (insert_domain_deny domain) ms, Reject (rejected_and_excluded domain),
           OkRejectAlwaysDomain)
      | None \<Rightarrow> (ms, Reject rejected_execution, OkRejectOnce))"
| "other_outcome me access OutRejectOnce ms = (ms, Reject rejected_execution, OkRejectOnce)"
| "other_outcome me access OutCancelled ms = (ms, Cancelled, OkCancelled)"
| "other_outcome me access (OutError e) ms = (ms, Reject (failed_prompt e), OkError)"
| "other_outcome me access (OutFollowupMessage m) ms = (ms, FollowupMessage m, OkFollowup)"

definition apply_outcome ::
  "manager_env \<Rightarrow> access_kind \<Rightarrow> prompt_outcome \<Rightarrow> manager_state
   \<Rightarrow> manager_state \<times> decision \<times> prompt_outcome_kind" where
  "apply_outcome me access outcome ms =
     (case access of
        Bash cmd \<Rightarrow> bash_outcome me cmd outcome ms
      | _ \<Rightarrow> other_outcome me access (one_call_outcome access outcome) ms)"

definition record_permission_decision ::
  "manager_env \<Rightarrow> access_kind \<Rightarrow> decision \<Rightarrow> string \<Rightarrow> manager_state \<Rightarrow> manager_state" where
  "record_permission_decision me access d outcome_str ms =
     (case prompted_decision_approved d outcome_str of
        None \<Rightarrow> ms
      | Some approved \<Rightarrow>
          (let recorded =
                 ms_recorded ms
                 @ [PermissionDecision (tool_name_for_access access)
                      (permission_decision_args (me_cenv me) access
                         (snd (access_event_detail (me_cenv me) access)))
                      approved]
           in ms\<lparr>ms_recorded :=
                   (if length recorded > MAX_RECORDED_PERMISSION_DECISIONS
                    then drop (length recorded - MAX_RECORDED_PERMISSION_DECISIONS) recorded
                    else recorded)\<rparr>))"

definition prompt_user ::
  "manager_env \<Rightarrow> request_obs \<Rightarrow> request_ctx \<Rightarrow> request_classification
   \<Rightarrow> decision_reason option \<Rightarrow> manager_state \<Rightarrow> manager_state \<times> response" where
  "prompt_user me ob rx rc auto_reason ms =
     (if ro_gone_before_prompt ob then abandon me ob (rx_request rx) rc ms
      else
        let ms = (if ms_prompt_notify ms then ms\<lparr>ms_notified := ms_notified ms + 1\<rparr> else ms);
            outcome = (if ro_gone_in_prompt ob then OutCancelled else ro_prompt_outcome ob);
            (ms, d, kind) = apply_outcome me (rx_access rx) outcome ms;
            outcome_str = outcome_wire_str kind;
            ms = record_permission_decision me (rx_access rx) d outcome_str ms;
            requester_gone = (d = Cancelled \<and> ro_gone_after_prompt ob);
            trigger = (if requester_gone then reason_str REQUESTER_GONE
                       else request_prompt_trigger rx auto_reason);
            ev = emit_event me ms (rx_request rx) (ro_queue_depth ob) rc d False True
                   (Some outcome_str) trigger;
            ms = ms\<lparr>ms_events := ms_events ms @ [ev]\<rparr>
        in (if outcome_str \<noteq> ''error'' \<and> \<not> requester_gone
            then ms\<lparr>ms_consecutive_denials := 0, ms_total_denials := 0\<rparr> else ms,
            Answered d ev))"

subsection \<open>A request\<close>

definition request_context ::
  "manager_env \<Rightarrow> manager_state \<Rightarrow> permission_request \<Rightarrow> bash_evaluation option \<Rightarrow> request_ctx" where
  "request_context me ms rq ev =
     \<lparr>rx_request = rq, rx_evaluation = ev, rx_protected = request_protected_edit me rq ev,
      rx_preflight = preflight_evaluate (me_world me) (me_policy me) (rq_access rq)
                       (request_cwd me rq) (ms_auto_mode ms)\<rparr>"

definition decide_request ::
  "manager_env \<Rightarrow> request_obs \<Rightarrow> request_ctx \<Rightarrow> manager_state \<Rightarrow> manager_state \<times> response" where
  "decide_request me ob rx ms =
     (case decide_before_classifier me ms rx of
        Some (d, auto_approved, reason) \<Rightarrow>
          answer me ob (rx_request rx) NotClassified ms d auto_approved reason
      | None \<Rightarrow>
          (case auto_mode_step me ob rx ms of
             (ms, rc, AutoDecides d auto_approved reason) \<Rightarrow>
               answer me ob (rx_request rx) rc ms d auto_approved reason
           | (ms, rc, AutoAbandons) \<Rightarrow> abandon me ob (rx_request rx) rc ms
           | (ms, rc, AutoPasses auto_forced auto_reason) \<Rightarrow>
               (case decide_after_classifier me ms rx auto_forced auto_reason of
                  Some (d, auto_approved, reason) \<Rightarrow>
                    answer me ob (rx_request rx) rc ms d auto_approved reason
                | None \<Rightarrow> prompt_user me ob rx rc auto_reason ms)))"

definition request_command ::
  "manager_env \<Rightarrow> request_obs \<Rightarrow> permission_request \<Rightarrow> manager_state
   \<Rightarrow> manager_state \<times> response" where
  "request_command me ob rq ms =
     (if ro_gone_at_dequeue ob then abandon me ob rq NotClassified ms
      else
        let ms = refresh_grants me (rq_access rq) ms
        in case request_evaluation me ob rq ms of
             None \<Rightarrow> abandon me ob rq NotClassified ms
           | Some ev \<Rightarrow> decide_request me ob (request_context me ms rq ev) ms)"

text \<open>The loop of the actor: one command of the queue; a shutdown ends it.\<close>

definition actor_command ::
  "manager_env \<Rightarrow> request_obs \<Rightarrow> permission_command \<Rightarrow> manager_state
   \<Rightarrow> manager_state \<times> response option" where
  "actor_command me ob c ms =
     (case c of
        CmdSetYoloMode enabled \<Rightarrow> (set_yolo_mode_command me enabled ms, None)
      | CmdSetAutoMode enabled \<Rightarrow> (set_auto_mode_command me enabled ms, None)
      | CmdSetClassifier classifier \<Rightarrow> (ms\<lparr>ms_classifier := classifier\<rparr>, None)
      | CmdSetClassifierTranscript turns \<Rightarrow> (ms\<lparr>ms_turns := turns\<rparr>, None)
      | CmdSetProjectInstructions instructions \<Rightarrow> (ms\<lparr>ms_instructions := instructions\<rparr>, None)
      | CmdResetState \<Rightarrow> (reset_state_command me ms, None)
      | CmdRequest rq \<Rightarrow> (let (ms, r) = request_command me ob rq ms in (ms, Some r))
      | CmdShutdown \<Rightarrow> (ms\<lparr>ms_running := False\<rparr>, None))"

definition receive_command ::
  "manager_env \<Rightarrow> request_obs \<Rightarrow> manager_state \<Rightarrow> (manager_state \<times> response option) option" where
  "receive_command me ob ms =
     (case ms_queue ms of
        c # rest \<Rightarrow>
          if ms_running ms then Some (actor_command me ob c (ms\<lparr>ms_queue := rest\<rparr>)) else None
      | [] \<Rightarrow> None)"

subsection \<open>The handle\<close>

datatype permission_handle = ActorHandle | AllowAllHandle

definition send_command :: "permission_command \<Rightarrow> manager_state \<Rightarrow> manager_state" where
  "send_command c ms = (if ms_running ms then ms\<lparr>ms_queue := ms_queue ms @ [c]\<rparr> else ms)"

fun set_yolo_mode ::
  "permission_handle \<Rightarrow> manager_env \<Rightarrow> bool \<Rightarrow> manager_state \<Rightarrow> manager_state" where
  "set_yolo_mode ActorHandle me enabled ms =
     (let clamped = clamp_yolo enabled (me_pin me);
          ms = ms\<lparr>ms_yolo_state := clamped\<rparr>;
          ms = (if clamped then ms\<lparr>ms_auto_state := False\<rparr> else ms)
      in send_command (CmdSetYoloMode enabled) ms)"
| "set_yolo_mode AllowAllHandle me enabled ms = ms"

fun set_auto_mode :: "permission_handle \<Rightarrow> bool \<Rightarrow> manager_state \<Rightarrow> manager_state" where
  "set_auto_mode ActorHandle enabled ms =
     (let ms = ms\<lparr>ms_auto_state := enabled\<rparr>;
          ms = (if enabled then ms\<lparr>ms_yolo_state := False\<rparr> else ms)
      in send_command (CmdSetAutoMode enabled) ms)"
| "set_auto_mode AllowAllHandle enabled ms = ms"

fun set_classifier ::
  "permission_handle \<Rightarrow> shared_classifier option \<Rightarrow> manager_state \<Rightarrow> manager_state" where
  "set_classifier ActorHandle classifier ms =
     send_command (CmdSetClassifier classifier) (ms\<lparr>ms_side_query_wired := False\<rparr>)"
| "set_classifier AllowAllHandle classifier ms = ms"

fun set_classifier_with_side_query ::
  "permission_handle \<Rightarrow> shared_classifier \<Rightarrow> bool \<Rightarrow> manager_state \<Rightarrow> manager_state" where
  "set_classifier_with_side_query ActorHandle classifier wired ms =
     send_command (CmdSetClassifier (Some classifier)) (ms\<lparr>ms_side_query_wired := wired\<rparr>)"
| "set_classifier_with_side_query AllowAllHandle classifier wired ms = ms"

fun set_llm_side_query_wired ::
  "permission_handle \<Rightarrow> bool \<Rightarrow> manager_state \<Rightarrow> manager_state" where
  "set_llm_side_query_wired ActorHandle wired ms = ms\<lparr>ms_side_query_wired := wired\<rparr>"
| "set_llm_side_query_wired AllowAllHandle wired ms = ms"

fun set_classifier_transcript ::
  "permission_handle \<Rightarrow> classifier_turn list \<Rightarrow> manager_state \<Rightarrow> manager_state" where
  "set_classifier_transcript ActorHandle turns ms =
     send_command (CmdSetClassifierTranscript turns) ms"
| "set_classifier_transcript AllowAllHandle turns ms = ms"

fun set_project_instructions ::
  "permission_handle \<Rightarrow> string option \<Rightarrow> manager_state \<Rightarrow> manager_state" where
  "set_project_instructions ActorHandle instructions ms =
     send_command (CmdSetProjectInstructions instructions) ms"
| "set_project_instructions AllowAllHandle instructions ms = ms"

fun reset_state :: "permission_handle \<Rightarrow> manager_state \<Rightarrow> manager_state" where
  "reset_state ActorHandle ms = send_command CmdResetState ms"
| "reset_state AllowAllHandle ms = ms"

text \<open>The first writer wins while its listener lives; \<open>closed\<close> says that it does not.\<close>

fun set_user_prompt_notify :: "permission_handle \<Rightarrow> bool \<Rightarrow> manager_state \<Rightarrow> manager_state" where
  "set_user_prompt_notify ActorHandle closed ms =
     (if ms_prompt_notify ms \<and> \<not> closed then ms
      else ms\<lparr>ms_prompt_notify := True, ms_notified := 0\<rparr>)"
| "set_user_prompt_notify AllowAllHandle closed ms = ms"

fun is_yolo_mode :: "permission_handle \<Rightarrow> manager_state \<Rightarrow> bool" where
  "is_yolo_mode AllowAllHandle ms = True"
| "is_yolo_mode ActorHandle ms = ms_yolo_state ms"

fun is_auto_mode :: "permission_handle \<Rightarrow> manager_state \<Rightarrow> bool" where
  "is_auto_mode AllowAllHandle ms = False"
| "is_auto_mode ActorHandle ms = ms_auto_state ms"

fun has_llm_side_query :: "permission_handle \<Rightarrow> manager_state \<Rightarrow> bool" where
  "has_llm_side_query AllowAllHandle ms = False"
| "has_llm_side_query ActorHandle ms = ms_side_query_wired ms"

fun handle_deny_read_globs :: "permission_handle \<Rightarrow> string list \<Rightarrow> string list" where
  "handle_deny_read_globs AllowAllHandle globs = []"
| "handle_deny_read_globs ActorHandle globs = globs"

text \<open>
  A request through the handle: the answer at once when the handle allows everything or the
  actor is gone (\<open>Inl\<close>), else the command is queued (\<open>Inr\<close>) and the answer is the response of
  the actor, or a rejection when it drops the request.
\<close>

fun handle_request ::
  "permission_handle \<Rightarrow> permission_request \<Rightarrow> manager_state \<Rightarrow> decision + manager_state" where
  "handle_request AllowAllHandle rq ms = Inl Allow"
| "handle_request ActorHandle rq ms =
     (if ms_running ms then Inr (send_command (CmdRequest rq) ms)
      else Inl (Reject ''permission manager unavailable''))"

definition received_decision :: "response option \<Rightarrow> decision" where
  "received_decision r =
     (case r of
        Some (Answered d _) \<Rightarrow> d
      | _ \<Rightarrow> Reject ''failed to receive permission decision'')"

end
