(* ===== verification/GB_ManagerProps.thy ===== *)
theory GB_ManagerProps
  imports GB_Manager
begin

section \<open>Properties of the permission manager\<close>

text \<open>
  The invariants of the actor and its handles over every interleaving of handle calls, commands
  and changes of the store by other processes, and what a decision of a request rests on.
\<close>

subsection \<open>What a request leaves alone\<close>

definition modes :: "manager_state \<Rightarrow> bool \<times> bool \<times> bool \<times> bool" where
  "modes ms = (ms_yolo_mode ms, ms_auto_mode ms, ms_yolo_state ms, ms_auto_state ms)"

definition channel :: "manager_state \<Rightarrow> permission_command list \<times> bool" where
  "channel ms = (ms_queue ms, ms_running ms)"

definition denial_count :: "manager_state \<Rightarrow> nat \<times> nat" where
  "denial_count ms = (ms_consecutive_denials ms, ms_total_denials ms)"

lemmas view_defs = modes_def channel_def denial_count_def

lemma answer_frame [simp]:
  "modes (fst (answer me ob rq rc ms d a r)) = modes ms"
  "channel (fst (answer me ob rq rc ms d a r)) = channel ms"
  "denial_count (fst (answer me ob rq rc ms d a r)) = denial_count ms"
  "ms_recorded (fst (answer me ob rq rc ms d a r)) = ms_recorded ms"
  "ms_state (fst (answer me ob rq rc ms d a r)) = ms_state ms"
  by (simp_all add: answer_def Let_def view_defs)

lemma abandon_frame [simp]:
  "modes (fst (abandon me ob rq rc ms)) = modes ms"
  "channel (fst (abandon me ob rq rc ms)) = channel ms"
  "denial_count (fst (abandon me ob rq rc ms)) = denial_count ms"
  "ms_recorded (fst (abandon me ob rq rc ms)) = ms_recorded ms"
  "ms_state (fst (abandon me ob rq rc ms)) = ms_state ms"
  by (simp_all add: abandon_def Let_def view_defs)

lemma refresh_frame [simp]:
  "modes (refresh_grants me access ms) = modes ms"
  "channel (refresh_grants me access ms) = channel ms"
  "denial_count (refresh_grants me access ms) = denial_count ms"
  "ms_recorded (refresh_grants me access ms) = ms_recorded ms"
  "ms_allow_edits (refresh_grants me access ms) = ms_allow_edits ms"
  by (simp_all add: refresh_grants_def Let_def view_defs split: prod.split)

lemma persist_frame [simp]:
  "modes (persist_manager_state me ms) = modes ms"
  "channel (persist_manager_state me ms) = channel ms"
  "denial_count (persist_manager_state me ms) = denial_count ms"
  "ms_recorded (persist_manager_state me ms) = ms_recorded ms"
  "ms_state (persist_manager_state me ms) = ms_state ms"
  by (simp_all add: persist_manager_state_def view_defs)

lemma update_state_frame [simp]:
  "modes (update_state me f ms) = modes ms"
  "channel (update_state me f ms) = channel ms"
  "denial_count (update_state me f ms) = denial_count ms"
  "ms_recorded (update_state me f ms) = ms_recorded ms"
  "ms_state (update_state me f ms) = f (ms_state ms)"
  by (simp_all add: update_state_def) (simp_all add: view_defs)

lemma bash_outcome_frame:
  "modes (fst (bash_outcome me cmd out ms)) = modes ms
   \<and> channel (fst (bash_outcome me cmd out ms)) = channel ms
   \<and> denial_count (fst (bash_outcome me cmd out ms)) = denial_count ms
   \<and> ms_recorded (fst (bash_outcome me cmd out ms)) = ms_recorded ms"
  by (cases out) auto

lemma allow_edits_frame [simp]:
  "modes (ms\<lparr>ms_allow_edits := b\<rparr>) = modes ms" "channel (ms\<lparr>ms_allow_edits := b\<rparr>) = channel ms"
  "denial_count (ms\<lparr>ms_allow_edits := b\<rparr>) = denial_count ms"
  by (simp_all add: view_defs)

lemma other_outcome_frame:
  "modes (fst (other_outcome me access out ms)) = modes ms
   \<and> channel (fst (other_outcome me access out ms)) = channel ms
   \<and> denial_count (fst (other_outcome me access out ms)) = denial_count ms
   \<and> ms_recorded (fst (other_outcome me access out ms)) = ms_recorded ms"
  by (cases out) (auto split: access_kind.split option.split)

lemma apply_outcome_frame:
  "modes (fst (apply_outcome me access out ms)) = modes ms
   \<and> channel (fst (apply_outcome me access out ms)) = channel ms
   \<and> denial_count (fst (apply_outcome me access out ms)) = denial_count ms
   \<and> ms_recorded (fst (apply_outcome me access out ms)) = ms_recorded ms"
  by (simp add: apply_outcome_def bash_outcome_frame other_outcome_frame split: access_kind.split)

lemma record_frame [simp]:
  "modes (record_permission_decision me access d s ms) = modes ms"
  "channel (record_permission_decision me access d s ms) = channel ms"
  "denial_count (record_permission_decision me access d s ms) = denial_count ms"
  "ms_state (record_permission_decision me access d s ms) = ms_state ms"
  by (simp_all add: record_permission_decision_def Let_def view_defs split: option.split)

lemma record_bound:
  "length (ms_recorded ms) \<le> MAX_RECORDED_PERMISSION_DECISIONS \<Longrightarrow>
   length (ms_recorded (record_permission_decision me access d s ms))
     \<le> MAX_RECORDED_PERMISSION_DECISIONS"
  by (auto simp: record_permission_decision_def Let_def split: option.split)

text \<open>The bounds of the denial counters and of the recorded decisions.\<close>

definition counters_ok :: "manager_state \<Rightarrow> bool" where
  "counters_ok ms \<longleftrightarrow>
     (case denial_count ms of
        (c, t) \<Rightarrow> c \<le> t \<and> c \<le> AUTO_DENY_CONSECUTIVE_LIMIT \<and> t \<le> AUTO_DENY_TOTAL_LIMIT)
     \<and> length (ms_recorded ms) \<le> MAX_RECORDED_PERMISSION_DECISIONS"

lemma on_verdict_frame:
  "modes (fst (on_verdict me rx outcome ms)) = modes ms
   \<and> channel (fst (on_verdict me rx outcome ms)) = channel ms
   \<and> ms_state (fst (on_verdict me rx outcome ms)) = ms_state ms
   \<and> (counters_ok ms \<longrightarrow> counters_ok (fst (on_verdict me rx outcome ms)))"
  by (simp add: on_verdict_def view_defs counters_ok_def below_denial_limits_def
      split: classifier_verdict.split)

lemma auto_mode_step_frame:
  "auto_mode_step me ob rx ms = (ms', rc, ans) \<Longrightarrow>
   modes ms' = modes ms \<and> channel ms' = channel ms \<and> ms_state ms' = ms_state ms
   \<and> (counters_ok ms \<longrightarrow> counters_ok ms')"
  using on_verdict_frame[of me rx None ms] on_verdict_frame[of me rx _ ms]
  by (auto simp: auto_mode_step_def auto_classify_def Let_def
      split: if_splits auto_fast_path.splits route_result.splits prod.splits) (metis fst_conv)+

lemma prompt_user_frame:
  "modes (fst (prompt_user me ob rx rc r ms)) = modes ms
   \<and> channel (fst (prompt_user me ob rx rc r ms)) = channel ms
   \<and> (counters_ok ms \<longrightarrow> counters_ok (fst (prompt_user me ob rx rc r ms)))"
proof (cases "ro_gone_before_prompt ob")
  case True
  then show ?thesis by (simp add: prompt_user_def counters_ok_def)
next
  case False
  define ms1 where "ms1 = (if ms_prompt_notify ms then ms\<lparr>ms_notified := ms_notified ms + 1\<rparr> else ms)"
  define out where "out = (if ro_gone_in_prompt ob then OutCancelled else ro_prompt_outcome ob)"
  obtain ms2 d k where ap: "apply_outcome me (rx_access rx) out ms1 = (ms2, d, k)"
    by (cases "apply_outcome me (rx_access rx) out ms1") auto
  define ms3 where "ms3 = record_permission_decision me (rx_access rx) d (outcome_wire_str k) ms2"
  have f1: "modes ms1 = modes ms" "channel ms1 = channel ms" "denial_count ms1 = denial_count ms"
    "ms_recorded ms1 = ms_recorded ms"
    by (auto simp: ms1_def view_defs)
  have f2: "modes ms2 = modes ms1" "channel ms2 = channel ms1"
    "denial_count ms2 = denial_count ms1" "ms_recorded ms2 = ms_recorded ms1"
    using apply_outcome_frame[of me "rx_access rx" out ms1] by (simp_all add: ap)
  have f3: "modes ms3 = modes ms" "channel ms3 = channel ms" "denial_count ms3 = denial_count ms"
    using f1 f2 by (simp_all add: ms3_def)
  have "counters_ok ms \<Longrightarrow> counters_ok ms3"
    using f1 f2 f3 record_bound[of ms2] by (simp add: counters_ok_def ms3_def)
  then show ?thesis
    using False f3
    by (simp add: prompt_user_def Let_def ms1_def[symmetric] out_def[symmetric] ap
        ms3_def[symmetric] view_defs counters_ok_def)
qed

lemma decide_request_frame:
  "modes (fst (decide_request me ob rx ms)) = modes ms
   \<and> channel (fst (decide_request me ob rx ms)) = channel ms
   \<and> (counters_ok ms \<longrightarrow> counters_ok (fst (decide_request me ob rx ms)))"
proof (cases "decide_before_classifier me ms rx")
  case (Some dar)
  then show ?thesis by (cases dar) (simp add: decide_request_def counters_ok_def)
next
  case None
  obtain ms1 rc ans where am: "auto_mode_step me ob rx ms = (ms1, rc, ans)"
    by (cases "auto_mode_step me ob rx ms") auto
  have f: "modes ms1 = modes ms \<and> channel ms1 = channel ms
    \<and> (counters_ok ms \<longrightarrow> counters_ok ms1)"
    using auto_mode_step_frame[OF am] by simp
  show ?thesis
  proof (cases ans)
    case (AutoPasses forced reason)
    show ?thesis
    proof (cases "decide_after_classifier me ms1 rx forced reason")
      case (Some dar)
      then show ?thesis
        using None am AutoPasses f by (cases dar) (simp add: decide_request_def counters_ok_def)
    next
      case no: None
      then show ?thesis
        using None am AutoPasses f prompt_user_frame[of me ob rx rc reason ms1]
        by (simp add: decide_request_def)
    qed
  qed (use None am f in \<open>simp_all add: decide_request_def counters_ok_def\<close>)
qed

lemma request_command_frame:
  "modes (fst (request_command me ob rq ms)) = modes ms
   \<and> channel (fst (request_command me ob rq ms)) = channel ms
   \<and> (counters_ok ms \<longrightarrow> counters_ok (fst (request_command me ob rq ms)))"
  using decide_request_frame[of me ob _ "refresh_grants me (rq_access rq) ms"]
  by (simp add: request_command_def Let_def counters_ok_def split: option.split)

subsection \<open>The sessions of the actor\<close>

text \<open>
  One step of a session: the actor handles the next command under any observation, a handle is
  called, or another process changes the files of the store. What the environment answers may
  change from step to step; the pin of the managed policy does not.
\<close>

inductive session_step :: "bool \<Rightarrow> manager_state \<Rightarrow> manager_state \<Rightarrow> bool" for pin where
  actor: "receive_command me ob ms = Some (ms', r) \<Longrightarrow> me_pin me = pin \<Longrightarrow> session_step pin ms ms'"
| yolo: "me_pin me = pin \<Longrightarrow> session_step pin ms (set_yolo_mode h me enabled ms)"
| auto_on: "session_step pin ms (set_auto_mode h enabled ms)"
| classifier: "session_step pin ms (set_classifier h c ms)"
| side_query: "session_step pin ms (set_classifier_with_side_query h c' wired ms)"
| wired: "session_step pin ms (set_llm_side_query_wired h wired ms)"
| transcript: "session_step pin ms (set_classifier_transcript h turns ms)"
| instructions: "session_step pin ms (set_project_instructions h is ms)"
| reset: "session_step pin ms (reset_state h ms)"
| notify: "session_step pin ms (set_user_prompt_notify h closed ms)"
| request: "handle_request h rq ms = Inr ms' \<Longrightarrow> session_step pin ms ms'"
| shutdown: "session_step pin ms (send_command CmdShutdown ms)"
| other_process: "session_step pin ms (ms\<lparr>ms_disk := d\<rparr>)"

inductive session_reachable :: "bool \<Rightarrow> manager_state \<Rightarrow> bool" for pin where
  spawned: "me_pin me = pin \<Longrightarrow> session_reachable pin (spawn_permission_manager me cfg d)"
| stepped: "session_reachable pin ms \<Longrightarrow> session_step pin ms ms' \<Longrightarrow> session_reachable pin ms'"

definition modes_ok :: "bool \<Rightarrow> manager_state \<Rightarrow> bool" where
  "modes_ok pin ms \<longleftrightarrow>
     (case modes ms of
        (y, a, ys, as) \<Rightarrow> (pin \<longrightarrow> \<not> y \<and> \<not> ys) \<and> \<not> (y \<and> a) \<and> \<not> (ys \<and> as))"

definition session_ok :: "bool \<Rightarrow> manager_state \<Rightarrow> bool" where
  "session_ok pin ms \<longleftrightarrow> modes_ok pin ms \<and> counters_ok ms"

lemmas session_ok_defs = session_ok_def modes_ok_def counters_ok_def view_defs

lemma spawn_ok: "me_pin me = pin \<Longrightarrow> session_ok pin (spawn_permission_manager me cfg d)"
  by (auto simp: spawn_permission_manager_def migrate_edit_policy_def persist_manager_state_def
      Let_def session_ok_defs clamp_yolo_def split: prod.split)

lemma actor_command_ok:
  assumes "session_ok pin ms" and "me_pin me = pin"
  shows "session_ok pin (fst (actor_command me ob c ms))"
proof (cases c)
  case (CmdRequest rq)
  then show ?thesis
    using assms(1) request_command_frame[of me ob rq ms]
    by (simp add: actor_command_def Let_def case_prod_unfold session_ok_def modes_ok_def)
qed (use assms in \<open>auto simp: actor_command_def set_yolo_mode_command_def Let_def clamp_yolo_def
      set_auto_mode_command_def reset_state_command_def session_ok_defs\<close>)

lemma send_command_fields [simp]:
  "ms_yolo_mode (send_command c ms) = ms_yolo_mode ms"
  "ms_auto_mode (send_command c ms) = ms_auto_mode ms"
  "ms_yolo_state (send_command c ms) = ms_yolo_state ms"
  "ms_auto_state (send_command c ms) = ms_auto_state ms"
  "ms_consecutive_denials (send_command c ms) = ms_consecutive_denials ms"
  "ms_total_denials (send_command c ms) = ms_total_denials ms"
  "ms_recorded (send_command c ms) = ms_recorded ms"
  "ms_running (send_command c ms) = ms_running ms"
  "ms_queue (send_command c ms) = ms_queue ms @ (if ms_running ms then [c] else [])"
  by (simp_all add: send_command_def)

lemma send_command_ok [simp]: "session_ok pin (send_command c ms) = session_ok pin ms"
  by (simp add: session_ok_defs)

lemma session_step_ok:
  assumes "session_step pin ms ms'" and "session_ok pin ms"
  shows "session_ok pin ms'"
  using assms
proof cases
  case (actor me ob r)
  then obtain c rest where q: "ms_queue ms = c # rest"
    and r: "actor_command me ob c (ms\<lparr>ms_queue := rest\<rparr>) = (ms', r)"
    by (auto simp: receive_command_def split: list.splits if_splits)
  have "session_ok pin (ms\<lparr>ms_queue := rest\<rparr>)" using assms(2) by (simp add: session_ok_defs)
  then show ?thesis using actor_command_ok[OF _ actor(2), of _ ob c] r by (metis fst_conv)
next
  case (yolo me h enabled)
  then show ?thesis
    using assms(2) by (cases h) (auto simp: Let_def clamp_yolo_def session_ok_defs)
next
  case (auto_on h enabled)
  then show ?thesis using assms(2) by (cases h) (auto simp: Let_def session_ok_defs)
next
  case (classifier h c)
  then show ?thesis using assms(2) by (cases h) (auto simp: session_ok_defs)
next
  case (side_query h c wired)
  then show ?thesis using assms(2) by (cases h) (auto simp: session_ok_defs)
next
  case (wired h w)
  then show ?thesis using assms(2) by (cases h) (auto simp: session_ok_defs)
next
  case (transcript h turns)
  then show ?thesis using assms(2) by (cases h) auto
next
  case (instructions h i)
  then show ?thesis using assms(2) by (cases h) auto
next
  case (reset h)
  then show ?thesis using assms(2) by (cases h) auto
next
  case (notify h closed)
  then show ?thesis using assms(2) by (cases h) (auto simp: session_ok_defs)
next
  case (request h rq)
  then show ?thesis using assms(2) by (cases h) (auto split: if_splits)
next
  case shutdown
  then show ?thesis using assms(2) by simp
next
  case (other_process d)
  then show ?thesis using assms(2) by (simp add: session_ok_defs)
qed

subsection \<open>A session on sample data\<close>

definition sample_manager :: manager_env where
  "sample_manager =
     \<lparr>me_world = sample_world, me_cenv = sample_env, me_store_env = sample_store,
      me_url_ok = (\<lambda>_. True), me_url_path = (\<lambda>_. ''/''), me_tilde = (\<lambda>s. s),
      me_parse_bool = (\<lambda>_. None), me_config_entries = (\<lambda>_. None),
      me_sandbox_auto_allow = False, me_cwd = ''/w'', me_client_id = None,
      me_client_type = GrokTUI, me_pin = True, me_remember = False, me_policy = None,
      me_prompt_policy = PromptAsk, me_static_matcher = (\<lambda>_. None),
      me_allowlist_is_default = False\<rparr>"

definition sample_config :: manager_config where
  "sample_config =
     \<lparr>mc_permission_config = None, mc_web_fetch_allowed_domains = [], mc_initial_yolo = True\<rparr>"

definition sample_session :: manager_state where
  "sample_session = spawn_permission_manager sample_manager sample_config (\<lambda>_. FileMissing)"

definition sample_obs :: request_obs where
  "sample_obs =
     \<lparr>ro_gone_at_dequeue = False, ro_scan_joined = True, ro_gone_after_scan = False,
      ro_gone_in_classify = False, ro_latency_ms = 1, ro_gone_before_prompt = False,
      ro_gone_in_prompt = False, ro_prompt_outcome = OutAllowOnce,
      ro_gone_after_prompt = False, ro_queue_depth = 1\<rparr>"

text \<open>
  C7. In every state a session can reach, always-approve is off, and is reported off, while the
  managed policy pins it; always-approve and the auto mode are never on together; a client that
  cannot prompt is denied at most three times in a row and twenty times in all before it must
  ask; and at most twelve prompted decisions are kept for the classifier.
\<close>

theorem manager_session_invariant:
  assumes "session_reachable pin ms"
  shows "(pin \<longrightarrow> \<not> ms_yolo_mode ms \<and> \<not> is_yolo_mode ActorHandle ms)
    \<and> \<not> (ms_yolo_mode ms \<and> ms_auto_mode ms)
    \<and> \<not> (is_yolo_mode ActorHandle ms \<and> is_auto_mode ActorHandle ms)
    \<and> ms_consecutive_denials ms \<le> min 3 (ms_total_denials ms) \<and> ms_total_denials ms \<le> 20
    \<and> length (ms_recorded ms) \<le> 12"
proof -
  have "session_ok pin ms"
    using assms by induction (auto intro: spawn_ok session_step_ok)
  then show ?thesis
    by (auto simp: session_ok_defs AUTO_DENY_CONSECUTIVE_LIMIT_def AUTO_DENY_TOTAL_LIMIT_def
        MAX_RECORDED_PERMISSION_DECISIONS_def)
qed

theorem manager_session_invariant_witness:
  "session_reachable True (set_yolo_mode ActorHandle sample_manager True sample_session)
   \<and> \<not> is_yolo_mode ActorHandle (set_yolo_mode ActorHandle sample_manager True sample_session)"
proof -
  have pin: "me_pin sample_manager = True" by (simp add: sample_manager_def)
  have "session_reachable True sample_session"
    unfolding sample_session_def using pin by (rule spawned)
  then have r: "session_reachable True
      (set_yolo_mode ActorHandle sample_manager True sample_session)"
    by (rule stepped) (rule session_step.yolo, rule pin)
  then show ?thesis using manager_session_invariant [OF r] by blast
qed

subsection \<open>What a handle reports\<close>

text \<open>The queued commands that will set a mode, for always-approve and for the auto mode.\<close>

definition sets_yolo :: "permission_command \<Rightarrow> bool" where
  "sets_yolo c \<longleftrightarrow> (\<exists>e. c = CmdSetYoloMode e) \<or> c = CmdSetAutoMode True"

definition sets_auto :: "bool \<Rightarrow> permission_command \<Rightarrow> bool" where
  "sets_auto pin c \<longleftrightarrow> (\<exists>e. c = CmdSetAutoMode e) \<or> (c = CmdSetYoloMode True \<and> \<not> pin)"

definition reports_ok :: "bool \<Rightarrow> manager_state \<Rightarrow> bool" where
  "reports_ok pin ms \<longleftrightarrow>
     (ms_running ms \<longrightarrow>
       (list_ex sets_yolo (ms_queue ms) \<or> ms_yolo_state ms = ms_yolo_mode ms)
       \<and> (list_ex (sets_auto pin) (ms_queue ms) \<or> ms_auto_state ms = ms_auto_mode ms))"

lemmas report_defs = reports_ok_def sets_yolo_def sets_auto_def

lemma spawn_reports: "reports_ok pin (spawn_permission_manager me cfg d)"
  by (simp add: spawn_permission_manager_def migrate_edit_policy_def persist_manager_state_def
      Let_def report_defs split: prod.split)

lemma frame_reports:
  "modes ms' = modes ms \<Longrightarrow> channel ms' = channel ms \<Longrightarrow> reports_ok pin ms \<Longrightarrow> reports_ok pin ms'"
  by (simp add: reports_ok_def view_defs)

lemma receive_reports:
  assumes "receive_command me ob ms = Some (ms', r)" and "me_pin me = pin" and "reports_ok pin ms"
  shows "reports_ok pin ms'"
proof -
  obtain c rest where q: "ms_queue ms = c # rest" "ms_running ms"
    and h: "actor_command me ob c (ms\<lparr>ms_queue := rest\<rparr>) = (ms', r)"
    using assms(1) by (auto simp: receive_command_def split: list.splits if_splits)
  let ?ms = "ms\<lparr>ms_queue := rest\<rparr>"
  show ?thesis
  proof (cases c)
    case (CmdRequest rq)
    have "ms' = fst (request_command me ob rq ?ms)"
      using h CmdRequest by (simp add: actor_command_def Let_def case_prod_unfold)
    moreover have "reports_ok pin ?ms"
      using assms(3) q CmdRequest by (simp add: report_defs)
    ultimately show ?thesis using request_command_frame[of me ob rq ?ms] frame_reports by metis
  next
    case (CmdSetYoloMode e)
    have "ms' = set_yolo_mode_command me e ?ms"
      using h CmdSetYoloMode by (simp add: actor_command_def)
    then show ?thesis
      using assms(2,3) q CmdSetYoloMode
      by (auto simp: set_yolo_mode_command_def Let_def clamp_yolo_def report_defs)
  next
    case (CmdSetAutoMode e)
    have "ms' = set_auto_mode_command me e ?ms"
      using h CmdSetAutoMode by (simp add: actor_command_def)
    then show ?thesis
      using assms(2,3) q CmdSetAutoMode
      by (auto simp: set_auto_mode_command_def Let_def report_defs)
  qed (use h assms(3) q in \<open>auto simp: actor_command_def reset_state_command_def report_defs\<close>)
qed

lemma step_reports:
  assumes "session_step pin ms ms'" and "reports_ok pin ms"
  shows "reports_ok pin ms'"
  using assms
proof cases
  case (actor me ob r)
  then show ?thesis using receive_reports assms(2) by blast
next
  case (yolo me h enabled)
  then show ?thesis using assms(2) by (cases h) (auto simp: Let_def clamp_yolo_def report_defs)
next
  case (auto_on h enabled)
  then show ?thesis using assms(2) by (cases h) (auto simp: Let_def report_defs)
next
  case (classifier h c)
  then show ?thesis using assms(2) by (cases h) (auto simp: report_defs)
next
  case (side_query h c wired)
  then show ?thesis using assms(2) by (cases h) (auto simp: report_defs)
next
  case (wired h w)
  then show ?thesis using assms(2) by (cases h) (auto simp: report_defs)
next
  case (transcript h turns)
  then show ?thesis using assms(2) by (cases h) (auto simp: report_defs)
next
  case (instructions h i)
  then show ?thesis using assms(2) by (cases h) (auto simp: report_defs)
next
  case (reset h)
  then show ?thesis using assms(2) by (cases h) (auto simp: report_defs)
next
  case (notify h closed)
  then show ?thesis using assms(2) by (cases h) (auto simp: report_defs)
next
  case (request h rq)
  then show ?thesis using assms(2) by (cases h) (auto simp: report_defs split: if_splits)
next
  case shutdown
  then show ?thesis using assms(2) by (auto simp: report_defs)
next
  case (other_process d)
  then show ?thesis using assms(2) by (simp add: report_defs)
qed

text \<open>
  Once the actor has caught up, the handles tell the truth: in every reachable state of a
  running session in which no queued command sets a mode, the modes a handle reports are the
  modes the actor decides by.
\<close>

theorem handles_report_actor_modes:
  assumes "session_reachable pin ms" and "ms_running ms"
    and "\<forall>c \<in> set (ms_queue ms). \<not> sets_yolo c \<and> \<not> sets_auto pin c"
  shows "is_yolo_mode ActorHandle ms = ms_yolo_mode ms
    \<and> is_auto_mode ActorHandle ms = ms_auto_mode ms"
proof -
  have "reports_ok pin ms"
    using assms(1) by induction (auto intro: spawn_reports step_reports)
  then show ?thesis using assms(2,3) by (auto simp: reports_ok_def list_ex_iff)
qed

theorem handles_report_actor_modes_witness:
  "session_reachable True (set_classifier ActorHandle None sample_session)
   \<and> is_yolo_mode ActorHandle (set_classifier ActorHandle None sample_session)
     = ms_yolo_mode (set_classifier ActorHandle None sample_session)"
proof -
  have "session_reachable True sample_session"
    unfolding sample_session_def by (rule spawned) (simp add: sample_manager_def)
  then have r: "session_reachable True (set_classifier ActorHandle None sample_session)"
    by (rule stepped) (rule session_step.classifier)
  have q: "ms_queue sample_session = []" "ms_running sample_session"
    by (simp_all add: sample_session_def spawn_permission_manager_def migrate_edit_policy_def
        persist_manager_state_def Let_def split: prod.split)
  have "ms_running (set_classifier ActorHandle None sample_session)"
    "\<forall>c \<in> set (ms_queue (set_classifier ActorHandle None sample_session)).
       \<not> sets_yolo c \<and> \<not> sets_auto True c"
    using q by (simp_all add: sets_yolo_def sets_auto_def)
  then show ?thesis using handles_report_actor_modes [OF r] r by blast
qed

text \<open>
  Before that they may not: a handle that switched always-approve on and off again reads it as
  on when the actor has handled the first of the two commands only.
\<close>

lemma stale_report_of_yolo:
  assumes "ms_running ms" and "ms_queue ms = []" and "\<not> me_pin me"
  shows "\<exists>ms' r. receive_command me ob
      (set_yolo_mode ActorHandle me False (set_yolo_mode ActorHandle me True ms)) = Some (ms', r)
    \<and> \<not> is_yolo_mode ActorHandle
        (set_yolo_mode ActorHandle me False (set_yolo_mode ActorHandle me True ms))
    \<and> is_yolo_mode ActorHandle ms'"
  using assms
  by (simp add: Let_def clamp_yolo_def send_command_def receive_command_def actor_command_def
      set_yolo_mode_command_def)

end
