(* ===== verification/GB_ManagerDecisions.thy ===== *)
theory GB_ManagerDecisions
  imports GB_ManagerProps
begin

section \<open>What a decision rests on\<close>

text \<open>
  The four ways a request is answered, and what each of them allows: an answer before the
  classifier, an answer of the auto mode, an answer after it, and the answer of the prompt.
\<close>

subsection \<open>The four ways\<close>

lemma emit_event_fields [simp]:
  "ev_user_prompted (emit_event me ms rq q rc d a u po reason) = u"
  "ev_auto_approved (emit_event me ms rq q rc d a u po reason) = a"
  "ev_decision_reason (emit_event me ms rq q rc d a u po reason) = Some reason"
  "ev_decision (emit_event me ms rq q rc d a u po reason) = fst (decision_event_str d)"
  by (simp_all add: emit_event_def split: prod.split)

lemma answer_Answered:
  "answer me ob rq rc ms d a reason = (ms', Answered d' ev) \<Longrightarrow>
     d' = d \<and> \<not> ev_user_prompted ev \<and> ev_auto_approved ev = a
     \<and> ev_decision_reason ev = Some (reason_str reason)
     \<and> ms' = ms\<lparr>ms_events := ms_events ms @ [ev]\<rparr>"
  by (auto simp: answer_def Let_def)

lemma abandon_not_Answered [simp]: "abandon me ob rq rc ms \<noteq> (ms', Answered d ev)"
  by (simp add: abandon_def Let_def)

lemma prompt_Answered:
  assumes "prompt_user me ob rx rc ar ms = (ms', Answered d ev)"
  obtains ms1 out kind where "ms_state ms1 = ms_state ms" and "ms_allow_edits ms1 = ms_allow_edits ms"
    and "out = (if ro_gone_in_prompt ob then OutCancelled else ro_prompt_outcome ob)"
    and "fst (snd (apply_outcome me (rx_access rx) out ms1)) = d"
    and "ms_state ms' = ms_state (fst (apply_outcome me (rx_access rx) out ms1))"
    and "ev_user_prompted ev"
proof -
  define ms1 where "ms1 = (if ms_prompt_notify ms then ms\<lparr>ms_notified := ms_notified ms + 1\<rparr> else ms)"
  define out where "out = (if ro_gone_in_prompt ob then OutCancelled else ro_prompt_outcome ob)"
  obtain ms2 d' k where ap: "apply_outcome me (rx_access rx) out ms1 = (ms2, d', k)"
    by (cases "apply_outcome me (rx_access rx) out ms1") auto
  have "ms_state ms1 = ms_state ms" "ms_allow_edits ms1 = ms_allow_edits ms"
    by (simp_all add: ms1_def)
  moreover have "d' = d \<and> ev_user_prompted ev \<and> ms_state ms' = ms_state ms2"
    using assms
    by (auto simp: prompt_user_def Let_def ms1_def[symmetric] out_def[symmetric] ap
        split: if_splits)
  ultimately show ?thesis using that out_def ap by (metis fst_conv snd_conv)
qed

lemma request_Answered:
  assumes "request_command me ob rq ms = (ms', Answered d ev)"
  obtains e where
    "request_evaluation me ob rq (refresh_grants me (rq_access rq) ms) = Some e"
    "decide_request me ob
       (request_context me (refresh_grants me (rq_access rq) ms) rq e)
       (refresh_grants me (rq_access rq) ms) = (ms', Answered d ev)"
  using assms
  by (auto simp: request_command_def Let_def split: if_splits option.splits)

lemma decide_Answered:
  assumes "decide_request me ob rx ms = (ms', Answered d ev)"
  obtains
    (before) a reason where "decide_before_classifier me ms rx = Some (d, a, reason)"
      "\<not> ev_user_prompted ev" "ev_decision_reason ev = Some (reason_str reason)"
      "ms_state ms' = ms_state ms"
  | (auto_mode) ms1 rc a reason where "decide_before_classifier me ms rx = None"
      "auto_mode_step me ob rx ms = (ms1, rc, AutoDecides d a reason)"
      "\<not> ev_user_prompted ev" "ev_decision_reason ev = Some (reason_str reason)"
      "ms_state ms' = ms_state ms"
  | (after) ms1 rc forced ar a reason where "decide_before_classifier me ms rx = None"
      "auto_mode_step me ob rx ms = (ms1, rc, AutoPasses forced ar)"
      "decide_after_classifier me ms1 rx forced ar = Some (d, a, reason)"
      "\<not> ev_user_prompted ev" "ev_decision_reason ev = Some (reason_str reason)"
      "ms_state ms' = ms_state ms"
  | (prompted) ms1 rc forced ar where "decide_before_classifier me ms rx = None"
      "auto_mode_step me ob rx ms = (ms1, rc, AutoPasses forced ar)"
      "decide_after_classifier me ms1 rx forced ar = None"
      "prompt_user me ob rx rc ar ms1 = (ms', Answered d ev)" "ev_user_prompted ev"
proof (cases "decide_before_classifier me ms rx")
  case (Some dar)
  then show ?thesis
    using assms before by (cases dar) (auto simp: decide_request_def dest!: answer_Answered)
next
  case None
  obtain ms1 rc ans where am: "auto_mode_step me ob rx ms = (ms1, rc, ans)"
    by (cases "auto_mode_step me ob rx ms") auto
  have st: "ms_state ms1 = ms_state ms" using auto_mode_step_frame[OF am] by simp
  show ?thesis
  proof (cases ans)
    case (AutoDecides d1 a1 r1)
    then show ?thesis
      using assms None am st auto_mode
      by (auto simp: decide_request_def dest!: answer_Answered)
  next
    case AutoAbandons
    then show ?thesis using assms None am by (simp add: decide_request_def)
  next
    case (AutoPasses forced ar)
    show ?thesis
    proof (cases "decide_after_classifier me ms1 rx forced ar")
      case (Some dar)
      then show ?thesis
        using assms None am st AutoPasses after
        by (cases dar) (auto simp: decide_request_def dest!: answer_Answered)
    next
      case no: None
      have p: "prompt_user me ob rx rc ar ms1 = (ms', Answered d ev)"
        using assms None am AutoPasses no by (simp add: decide_request_def)
      then have "ev_user_prompted ev" by (rule prompt_Answered)
      then show ?thesis using prompted None am AutoPasses no p by blast
    qed
  qed
qed

subsection \<open>Sample requests\<close>

definition sample_request :: "access_kind \<Rightarrow> permission_request" where
  "sample_request access = permission_request_new access ''call-1''"

definition deny_all :: permission_rule where
  "deny_all =
     \<lparr>pr_action = RuleDeny, pr_tool = ToolAny, pr_pattern = None, pr_pattern_mode = GlobMode\<rparr>"

definition denying_manager :: manager_env where
  "denying_manager =
     sample_manager\<lparr>me_policy := Some (compile_policy sample_world [deny_all])\<rparr>"

text \<open>A state of a session that always approves, or that remembers a deny.\<close>

definition approving_session :: manager_state where
  "approving_session = sample_session\<lparr>ms_yolo_mode := True\<rparr>"

definition remembering_session :: manager_state where
  "remembering_session =
     sample_session\<lparr>ms_state :=
       default_permission_state\<lparr>ps_disallowed_bash_commands := [''ls'']\<rparr>\<rparr>"

definition answered :: "manager_state \<times> response \<Rightarrow> (decision \<times> bool) option" where
  "answered r =
     (case snd r of Answered d ev \<Rightarrow> Some (d, ev_user_prompted ev) | Abandoned _ \<Rightarrow> None)"

lemma answered_Some:
  "answered r = Some (d, u) \<Longrightarrow>
     \<exists>ms' ev. r = (ms', Answered d ev) \<and> ev_user_prompted ev = u"
  by (cases r) (auto simp: answered_def split: response.splits)

lemma answered_cases:
  assumes "case answered r of Some _ \<Rightarrow> True | None \<Rightarrow> False"
  obtains ms' d ev where "r = (ms', Answered d ev)"
  using assms by (cases r) (auto simp: answered_def split: response.splits)

subsection \<open>The managed policy\<close>

text \<open>
  C3. A deny of the policy is final: when the rules and gates deny a request, it is denied for
  that reason and without a prompt, in every mode, whatever the grants of the user, the sandbox,
  the classifier and the prompt policy say.
\<close>

theorem policy_deny_is_final:
  assumes "request_command me ob rq ms = (ms', Answered d ev)"
    and "policy_decision (preflight_evaluate (me_world me) (me_policy me) (rq_access rq)
           (request_cwd me rq) (ms_auto_mode ms)) = Some (Reject reason)"
  shows "d = PolicyDeny reason \<and> ev_decision_reason ev = Some ''policy_deny''
    \<and> \<not> ev_user_prompted ev"
proof -
  let ?ms = "refresh_grants me (rq_access rq) ms"
  obtain e where d: "decide_request me ob (request_context me ?ms rq e) ?ms
      = (ms', Answered d ev)"
    using assms(1) by (rule request_Answered)
  have "ms_auto_mode ?ms = ms_auto_mode ms" using refresh_frame(1) by (simp add: modes_def)
  then have "decide_before_classifier me ?ms (request_context me ?ms rq e)
      = Some (PolicyDeny reason, False, POLICY_DENY)"
    using assms(2)
    by (simp add: decide_before_classifier_def policy_denies_def request_context_def)
  then show ?thesis
    using d by (auto simp: decide_request_def dest!: answer_Answered)
qed

theorem policy_deny_is_final_witness:
  "\<exists>ms' reason ev.
     request_command denying_manager sample_obs (sample_request (AgentMessage ''a''))
       approving_session = (ms', Answered (PolicyDeny reason) ev)
     \<and> ms_yolo_mode approving_session \<and> \<not> ev_user_prompted ev"
proof -
  let ?rq = "sample_request (AgentMessage ''a'')"
  have run: "case answered (request_command denying_manager sample_obs ?rq approving_session) of
      Some _ \<Rightarrow> True | None \<Rightarrow> False"
    by code_simp
  obtain ms' d ev where r: "request_command denying_manager sample_obs ?rq approving_session
      = (ms', Answered d ev)"
    using run by (rule answered_cases)
  have "case policy_decision (preflight_evaluate (me_world denying_manager)
      (me_policy denying_manager) (rq_access ?rq) (request_cwd denying_manager ?rq)
      (ms_auto_mode approving_session)) of Some (Reject _) \<Rightarrow> True | _ \<Rightarrow> False"
    by code_simp
  then obtain reason where "policy_decision (preflight_evaluate (me_world denying_manager)
      (me_policy denying_manager) (rq_access ?rq) (request_cwd denying_manager ?rq)
      (ms_auto_mode approving_session)) = Some (Reject reason)"
    by (auto split: option.splits decision.splits)
  then have "d = PolicyDeny reason \<and> \<not> ev_user_prompted ev"
    using policy_deny_is_final [OF r] by blast
  then show ?thesis using r by (auto simp: approving_session_def)
qed

subsection \<open>Questions of a hook\<close>

lemma neutralized_hook:
  "hook_forced_prompt rx \<Longrightarrow> neutralized_pre_decision rx f r p \<noteq> Some (Allow, reason)"
  by (auto simp: neutralized_pre_decision_def Let_def is_allow_def split: if_splits)

lemma hook_before: "hook_forced_prompt rx \<Longrightarrow> decide_before_classifier me ms rx \<noteq> Some (Allow, a, r)"
  by (auto simp: decide_before_classifier_def session_grant_def pre_classifier_forced_prompt_def
      policy_allow_before_classifier_def split: option.splits)

lemma hook_auto:
  "hook_forced_prompt rx \<Longrightarrow> auto_mode_step me ob rx ms \<noteq> (ms', rc, AutoDecides Allow a r)"
  by (auto simp: auto_mode_step_def auto_classify_def on_verdict_def Let_def
      split: auto_fast_path.splits route_result.splits prod.splits classifier_verdict.splits
        if_splits)

lemma policy_ruling_allow:
  "policy_ruling me rx f = Some Allow \<longleftrightarrow>
     policy_decision (rx_preflight rx) = Some Allow \<and> \<not> policy_allow_is_deferred me rx f"
  by (auto simp: policy_ruling_def split: option.splits decision.splits)

lemma hook_after:
  "hook_forced_prompt rx \<Longrightarrow> decide_after_classifier me ms rx f ar \<noteq> Some (Allow, a, r)"
  using neutralized_hook[of rx f ar "access_pre_decision me ms rx f"]
    policy_ruling_allow[of me rx f]
  by (auto simp: decide_after_classifier_def sandbox_allows_def policy_allow_is_deferred_def
      split: option.splits if_splits)

text \<open>
  C5. A question a hook raises reaches the user: a request that a hook asked about is never
  allowed by always-approve, a grant, a rule, the classifier, the sandbox or the prompt policy.
  It is allowed only when the prompt was shown and its answer was not a cancellation, a
  rejection, a message or an error.
\<close>

theorem hook_question_reaches_user:
  assumes "request_command me ob rq ms = (ms', Answered Allow ev)"
    and "rq_hook_ask rq \<noteq> None"
  shows "ev_user_prompted ev \<and> \<not> ro_gone_in_prompt ob
    \<and> outcome_kind (ro_prompt_outcome ob)
        \<in> {OkAllowOnce, OkAllowAlways, OkAllowEditsForSession, OkAllowAlwaysBash,
           OkAllowAlwaysBashGlob, OkAllowAlwaysDomain, OkAllowAlwaysMcpTool,
           OkAllowAlwaysMcpServer}"
proof -
  let ?ms = "refresh_grants me (rq_access rq) ms"
  obtain e where d: "decide_request me ob (request_context me ?ms rq e) ?ms
      = (ms', Answered Allow ev)"
    using assms(1) by (rule request_Answered)
  let ?rx = "request_context me ?ms rq e"
  have hook: "hook_forced_prompt ?rx"
    using assms(2) by (simp add: hook_forced_prompt_def request_context_def)
  from d show ?thesis
  proof (cases rule: decide_Answered)
    case (prompted ms1 rc f ar)
    obtain ms2 out where
        out: "out = (if ro_gone_in_prompt ob then OutCancelled else ro_prompt_outcome ob)"
      and allow: "fst (snd (apply_outcome me (rx_access ?rx) out ms2)) = Allow"
      using prompted(4) by (rule prompt_Answered)
    have "outcome_kind out
        \<in> {OkAllowOnce, OkAllowAlways, OkAllowEditsForSession, OkAllowAlwaysBash,
           OkAllowAlwaysBashGlob, OkAllowAlwaysDomain, OkAllowAlwaysMcpTool,
           OkAllowAlwaysMcpServer}"
      using allow
      by (cases out) (auto simp: apply_outcome_def one_call_outcome_def
          split: access_kind.splits option.splits)
    then show ?thesis using out prompted(5) by (auto split: if_splits)
  qed (use hook hook_before hook_auto hook_after in blast)+
qed

definition hooked_request :: permission_request where
  "hooked_request =
     (sample_request (AgentMessage ''a''))
       \<lparr>rq_hook_ask := Some \<lparr>ha_hook_name = ''h'', ha_reason = None\<rparr>\<rparr>"

theorem hook_question_reaches_user_witness:
  "\<exists>ms' ev. request_command sample_manager sample_obs hooked_request approving_session
     = (ms', Answered Allow ev) \<and> ms_yolo_mode approving_session \<and> ev_user_prompted ev"
proof -
  have "answered (request_command sample_manager sample_obs hooked_request approving_session)
      = Some (Allow, True)"
    by code_simp
  then obtain ms' ev where r: "request_command sample_manager sample_obs hooked_request
      approving_session = (ms', Answered Allow ev)"
    using answered_Some by blast
  have "rq_hook_ask hooked_request \<noteq> None" by (simp add: hooked_request_def)
  then have "ev_user_prompted ev" using hook_question_reaches_user [OF r] by blast
  then show ?thesis using r by (auto simp: approving_session_def)
qed

subsection \<open>The floor under shell commands\<close>

lemma floor_pre_decision:
  "bash_request_floor_requires_prompt (Some e) \<Longrightarrow>
     bash_grant_pre_decision cmd e st pin opts \<noteq> Some (Allow, reason)"
  by (simp add: bash_grant_pre_decision_def split: segment_evaluation.split)

lemma floor_before:
  assumes "rx_access rx = Bash cmd" and "rx_evaluation rx = Some e"
    and "bash_request_floor_requires_prompt (Some e)"
    and "decide_before_classifier me ms rx = Some (Allow, a, reason)"
  shows "ms_yolo_mode ms"
proof (rule ccontr)
  assume no_yolo: "\<not> ms_yolo_mode ms"
  have "\<And>r. session_grant me ms rx \<noteq> Some (Allow, r)"
    using floor_pre_decision[OF assms(3)] assms(1,2)
    by (auto simp: session_grant_def session_grant_pre_decision_def)
  moreover have "be_assessment e \<noteq> {}"
    using assms(3)
    by (auto simp: bash_request_floor_requires_prompt_def constrains_broad_grant_def
        findings_list_def)
  then have "\<not> policy_allow_before_classifier me ms rx"
    using assms(2,3) by (simp add: policy_allow_before_classifier_def bash_assessment_is_clear_def)
  ultimately show False
    using assms(4) no_yolo by (auto simp: decide_before_classifier_def split: option.splits)
qed

lemma auto_needs_auto_mode:
  "auto_mode_step me ob rx ms = (ms', rc, AutoDecides d a r) \<Longrightarrow> ms_auto_mode ms"
  by (auto simp: auto_mode_step_def split: if_splits)

lemma floor_after:
  assumes "rx_access rx = Bash cmd" and "rx_evaluation rx = Some e"
    and "bash_request_floor_requires_prompt (Some e)"
    and "decide_after_classifier me ms rx f ar = Some (Allow, a, reason)"
  shows "narrow_allow_clears_write_floor (me_world me) (Some e) (me_policy me) (Bash cmd)
    \<or> me_prompt_policy me = PromptAllow"
proof -
  have "\<not> sandbox_allows me rx f"
    using assms(1-3) by (simp add: sandbox_allows_def sandbox_may_auto_allow_bash_def)
  moreover have "access_pre_decision me ms rx f = None"
    using assms(1-3) by (simp add: access_pre_decision_def bash_pre_decision_def)
  moreover have "policy_ruling me rx f = Some Allow \<Longrightarrow>
      narrow_allow_clears_write_floor (me_world me) (Some e) (me_policy me) (Bash cmd)"
    using assms(1-3) by (auto simp: policy_ruling_allow policy_allow_is_deferred_def)
  ultimately show ?thesis
    using assms(4)
    by (auto simp: decide_after_classifier_def neutralized_pre_decision_def is_allow_def Let_def
        split: option.splits if_splits)
qed

text \<open>
  C4. A shell command with an effect the analysis found (a write to a real file, a risky
  environment, an opaque shell, an execution vehicle or Git configuration, an option that runs
  code), which the user did not grant word for word, runs without a prompt only by
  always-approve, in the auto mode, by a narrow allow rule for a plain file write, or by a prompt
  policy that allows everything: never by a prefix grant, a glob, the blanket grant, a safe
  list, a broad allow rule or the sandbox.
\<close>

theorem unprompted_effect_needs_authority:
  assumes "request_command me ob rq ms = (ms', Answered Allow ev)" and "\<not> ev_user_prompted ev"
    and "rq_access rq = Bash cmd"
    and "request_evaluation me ob rq (refresh_grants me (rq_access rq) ms) = Some (Some e)"
    and "constrains_broad_grant (be_assessment e)" and "\<not> be_exact_grant e"
  shows "ms_yolo_mode ms \<or> ms_auto_mode ms
    \<or> narrow_allow_clears_write_floor (me_world me) (Some e) (me_policy me) (Bash cmd)
    \<or> me_prompt_policy me = PromptAllow"
proof -
  let ?ms = "refresh_grants me (rq_access rq) ms"
  let ?rx = "request_context me ?ms rq (Some e)"
  have d: "decide_request me ob ?rx ?ms = (ms', Answered Allow ev)"
    using assms(1,4) by (elim request_Answered) simp
  have rx: "rx_access ?rx = Bash cmd" "rx_evaluation ?rx = Some e"
    using assms(3) by (simp_all add: request_context_def rx_access_def)
  have floor: "bash_request_floor_requires_prompt (Some e)"
    using assms(5,6) by (simp add: bash_request_floor_requires_prompt_def)
  have m: "ms_yolo_mode ?ms = ms_yolo_mode ms" "ms_auto_mode ?ms = ms_auto_mode ms"
    using refresh_frame(1)[of me "rq_access rq" ms] by (simp_all add: modes_def)
  from d show ?thesis
  proof (cases rule: decide_Answered)
    case (before a reason)
    then show ?thesis using floor_before[OF rx floor] m by blast
  next
    case (auto_mode ms1 rc a reason)
    then show ?thesis using auto_needs_auto_mode m by blast
  next
    case (after ms1 rc f ar a reason)
    then show ?thesis using floor_after[OF rx floor] by blast
  next
    case (prompted ms1 rc f ar)
    then show ?thesis using assms(2) by simp
  qed
qed

text \<open>A script that does not parse and names Git carries a finding of the floor.\<close>

definition lenient_manager :: manager_env where
  "lenient_manager = sample_manager\<lparr>me_prompt_policy := PromptAllow\<rparr>"

theorem unprompted_effect_needs_authority_witness:
  "\<exists>ms' ev. request_command lenient_manager sample_obs (sample_request (Bash ''git x''))
     sample_session = (ms', Answered Allow ev) \<and> \<not> ev_user_prompted ev
   \<and> me_prompt_policy lenient_manager = PromptAllow"
proof -
  let ?rq = "sample_request (Bash ''git x'')"
  let ?ms = "refresh_grants lenient_manager (rq_access ?rq) sample_session"
  have run: "answered (request_command lenient_manager sample_obs ?rq sample_session)
      = Some (Allow, False)"
    by code_simp
  then obtain ms' ev where r: "request_command lenient_manager sample_obs ?rq sample_session
      = (ms', Answered Allow ev)" and u: "\<not> ev_user_prompted ev"
    using answered_Some by blast
  have acc: "rq_access ?rq = Bash ''git x''"
    by (simp add: sample_request_def permission_request_new_def)
  have "case request_evaluation lenient_manager sample_obs ?rq ?ms of
      Some (Some e) \<Rightarrow> constrains_broad_grant (be_assessment e) \<and> \<not> be_exact_grant e
    | _ \<Rightarrow> False"
    by code_simp
  then obtain e where e: "request_evaluation lenient_manager sample_obs ?rq ?ms = Some (Some e)"
      "constrains_broad_grant (be_assessment e)" "\<not> be_exact_grant e"
    by (auto split: option.splits)
  have n: "\<not> ms_yolo_mode sample_session" "\<not> ms_auto_mode sample_session"
    "me_policy lenient_manager = None"
    by code_simp+
  have "me_prompt_policy lenient_manager = PromptAllow"
    using unprompted_effect_needs_authority [OF r u acc e] n
    by (auto simp: narrow_allow_clears_write_floor_def)
  then show ?thesis using r u by blast
qed

subsection \<open>Remembered denies\<close>

text \<open>
  A command the user rejected for good stays rejected where nothing forces a prompt: with
  always-approve off, no rule, gate or hook asking and no protected file in the script, a
  remembered deny that matches the script rejects it without a prompt, before the classifier,
  an allow rule or the sandbox is asked.
\<close>

theorem remembered_deny_binds:
  assumes "request_command me ob rq ms = (ms', Answered d ev)"
    and "rq_access rq = Bash cmd"
    and "request_evaluation me ob rq (refresh_grants me (rq_access rq) ms) = Some (Some e)"
    and "be_segments e = SegReject reason"
    and "\<not> ms_yolo_mode ms"
    and "\<not> pre_classifier_forced_prompt
            (request_context me (refresh_grants me (rq_access rq) ms) rq (Some e))"
    and "request_protected_edit me rq (Some e) = None"
    and "\<nexists>why. policy_decision (preflight_evaluate (me_world me) (me_policy me) (Bash cmd)
            (request_cwd me rq) (ms_auto_mode ms)) = Some (Reject why)"
  shows "d = Reject reason \<and> ev_decision_reason ev = Some ''session_deny''
    \<and> \<not> ev_user_prompted ev"
proof -
  let ?ms = "refresh_grants me (rq_access rq) ms"
  let ?rx = "request_context me ?ms rq (Some e)"
  have dr: "decide_request me ob ?rx ?ms = (ms', Answered d ev)"
    using assms(1,3) by (elim request_Answered) simp
  have m: "ms_yolo_mode ?ms = ms_yolo_mode ms" "ms_auto_mode ?ms = ms_auto_mode ms"
    using refresh_frame(1)[of me "rq_access rq" ms] by (simp_all add: modes_def)
  have "session_grant me ?ms ?rx = Some (Reject reason, SESSION_DENY)"
    using assms(2,4,6,7)
    by (simp add: session_grant_def session_grant_pre_decision_def request_context_def
        rx_access_def bash_grant_pre_decision_def)
  moreover have "policy_denies ?rx = None"
    using assms(2,8) m
    by (auto simp: policy_denies_def request_context_def split: option.split decision.split)
  ultimately have "decide_before_classifier me ?ms ?rx = Some (Reject reason, True, SESSION_DENY)"
    using assms(5) m by (simp add: decide_before_classifier_def)
  then show ?thesis using dr by (auto simp: decide_request_def dest!: answer_Answered)
qed

theorem remembered_deny_binds_witness:
  "\<exists>ms' reason ev. request_command sample_manager sample_obs (sample_request (Bash ''ls a''))
     remembering_session = (ms', Answered (Reject reason) ev) \<and> \<not> ev_user_prompted ev"
proof -
  let ?rq = "sample_request (Bash ''ls a'')"
  let ?ms = "refresh_grants sample_manager (rq_access ?rq) remembering_session"
  have run: "case answered (request_command sample_manager sample_obs ?rq remembering_session) of
      Some _ \<Rightarrow> True | None \<Rightarrow> False"
    by code_simp
  obtain ms' d ev where r: "request_command sample_manager sample_obs ?rq remembering_session
      = (ms', Answered d ev)"
    using run by (rule answered_cases)
  have acc: "rq_access ?rq = Bash ''ls a''"
    by (simp add: sample_request_def permission_request_new_def)
  have "case request_evaluation sample_manager sample_obs ?rq ?ms of
      Some (Some e) \<Rightarrow>
        (case be_segments e of SegReject _ \<Rightarrow> True | _ \<Rightarrow> False)
        \<and> \<not> pre_classifier_forced_prompt (request_context sample_manager ?ms ?rq (Some e))
        \<and> request_protected_edit sample_manager ?rq (Some e) = None
    | _ \<Rightarrow> False"
    by code_simp
  then obtain e reason where e: "request_evaluation sample_manager sample_obs ?rq ?ms = Some (Some e)"
    and s: "be_segments e = SegReject reason"
    and p: "\<not> pre_classifier_forced_prompt (request_context sample_manager ?ms ?rq (Some e))"
    and t: "request_protected_edit sample_manager ?rq (Some e) = None"
    by (auto split: option.splits segment_evaluation.splits)
  have y: "\<not> ms_yolo_mode remembering_session" by code_simp
  have pol: "policy_decision (preflight_evaluate (me_world sample_manager)
      (me_policy sample_manager) (Bash ''ls a'') (request_cwd sample_manager ?rq)
      (ms_auto_mode remembering_session)) = None"
    by code_simp
  have "d = Reject reason \<and> \<not> ev_user_prompted ev"
    using remembered_deny_binds [OF r acc e s y p t] pol by simp
  then show ?thesis using r by blast
qed

text \<open>
  Where an ask rule of the policy forces a prompt, the deny is not looked at: unlike the tool of
  an MCP server, whose remembered deny comes before the ask.
\<close>

lemma forced_prompt_skips_bash_deny:
  assumes "rx_access rx = Bash cmd" and "policy_forced_prompt (rx_preflight rx)"
    and "\<not> me_remember me"
  shows "session_grant me ms rx = None \<and> access_pre_decision me ms rx f = None"
  using assms
  by (cases "rx_evaluation rx")
    (auto simp: session_grant_def pre_classifier_forced_prompt_def access_pre_decision_def
      bash_pre_decision_def)

lemma forced_prompt_keeps_mcp_deny:
  assumes "rx_access rx = MCPTool name input" and "name \<in> set (ps_disallowed_mcp_tools (ms_state ms))"
  shows "access_pre_decision me ms rx f = Some (Reject (previously_rejected name), SESSION_DENY)"
  using assms by (simp add: access_pre_decision_def mcp_pre_decision_def)

lemma forced_prompt_denied_command_allowed:
  assumes "rx_access rx = Bash cmd" and "policy_forced_prompt (rx_preflight rx)"
    and "\<not> me_remember me" and "me_prompt_policy me = PromptAllow" and "\<not> hook_forced_prompt rx"
  shows "decide_after_classifier me ms rx False None = Some (Allow, True, PROMPT_ALLOW)"
  using assms forced_prompt_skips_bash_deny[OF assms(1-3)]
  by (simp add: decide_after_classifier_def sandbox_allows_def policy_ruling_def
      policy_forced_prompt_def neutralized_pre_decision_def is_allow_def Let_def)

subsection \<open>What an answer of the prompt stores\<close>

text \<open>A state without its lists of shell commands.\<close>

definition beyond_bash :: "permission_state \<Rightarrow> permission_state" where
  "beyond_bash st =
     st\<lparr>ps_allowed_bash_commands := [], ps_disallowed_bash_commands := [],
        ps_allowed_bash_globs := []\<rparr>"

lemma beyond_bash_inserts [simp]:
  "beyond_bash (insert_grant st g) = beyond_bash st"
  "beyond_bash (insert_glob g st) = beyond_bash st"
  "beyond_bash (insert_bash_deny g st) = beyond_bash st"
  by (simp_all add: beyond_bash_def insert_grant_def insert_glob_def insert_bash_deny_def)

lemma beyond_bash_grants [simp]: "beyond_bash (foldl insert_grant st gs) = beyond_bash st"
  by (induction gs arbitrary: st) auto

lemma beyond_bash_persist [simp]:
  "beyond_bash (persist_bash_always_allow w st cmd label) = beyond_bash st"
  by (simp add: persist_bash_always_allow_def Let_def split: option.split)

lemma bash_outcome_state: "beyond_bash (ms_state (fst (bash_outcome me cmd out ms))) = beyond_bash (ms_state ms)"
  by (cases out) auto

text \<open>What one answer may store, by the kind of the request.\<close>

definition storable ::
  "manager_env \<Rightarrow> access_kind \<Rightarrow> permission_state \<Rightarrow> permission_state \<Rightarrow> bool" where
  "storable me access st st' =
     (case access of
        Bash _ \<Rightarrow> beyond_bash st' = beyond_bash st
      | MCPTool name _ \<Rightarrow>
          st' \<in> {st, insert_mcp_tool name st, insert_mcp_deny name st}
          \<or> (\<exists>i server tool. parse_mcp_qualified_name name = Some (i, server, tool)
               \<and> st' = insert_mcp_server server st)
      | WebFetch _ \<Rightarrow>
          st' = st
          \<or> (\<exists>domain. access_web_domain me access = Some domain \<and> st' = insert_domain domain st)
          \<or> (\<exists>key. access_web_deny_key me access = Some key \<and> st' = insert_domain_deny key st)
      | _ \<Rightarrow> st' = st)"

lemma insert_mcp_scope_cases:
  "insert_mcp_scope name label st = insert_mcp_tool name st
   \<or> (\<exists>i server tool. parse_mcp_qualified_name name = Some (i, server, tool)
        \<and> insert_mcp_scope name label st = insert_mcp_server server st)"
  by (auto simp: insert_mcp_scope_def split: option.split)

lemma apply_outcome_storable:
  "storable me access (ms_state ms) (ms_state (fst (apply_outcome me access out ms)))"
proof (cases access)
  case (MCPTool name input)
  show ?thesis
    using insert_mcp_scope_cases[of name _ "ms_state ms"]
    by (cases out) (auto simp: MCPTool storable_def apply_outcome_def one_call_outcome_def
        access_web_domain_def access_web_deny_key_def)
next
  case (WebFetch url)
  show ?thesis
    by (cases out) (auto simp: WebFetch storable_def apply_outcome_def one_call_outcome_def
        split: option.split)
next
  case (Bash cmd)
  then show ?thesis by (simp add: storable_def apply_outcome_def bash_outcome_state)
next
  case (AgentMessage i)
  then show ?thesis
    by (cases out) (auto simp: storable_def apply_outcome_def one_call_outcome_def)
qed (cases out; simp add: storable_def apply_outcome_def one_call_outcome_def
  access_web_domain_def access_web_deny_key_def)+

lemma unchanged_storable [simp]: "storable me access st st"
  by (simp add: storable_def split: access_kind.split)

lemma prompt_user_storable:
  "storable me (rx_access rx) (ms_state ms) (ms_state (fst (prompt_user me ob rx rc ar ms)))"
proof -
  define ms1 where "ms1 = (if ms_prompt_notify ms then ms\<lparr>ms_notified := ms_notified ms + 1\<rparr> else ms)"
  define out where "out = (if ro_gone_in_prompt ob then OutCancelled else ro_prompt_outcome ob)"
  obtain ms2 d k where ap: "apply_outcome me (rx_access rx) out ms1 = (ms2, d, k)"
    by (cases "apply_outcome me (rx_access rx) out ms1") auto
  have st: "ms_state ms1 = ms_state ms" by (simp add: ms1_def)
  have "storable me (rx_access rx) (ms_state ms) (ms_state ms2)"
    using apply_outcome_storable[of me "rx_access rx" ms1 out] by (simp add: ap st)
  then show ?thesis
    by (simp add: prompt_user_def Let_def ms1_def[symmetric] out_def[symmetric] ap)
qed

lemma decide_request_storable:
  "storable me (rx_access rx) (ms_state ms) (ms_state (fst (decide_request me ob rx ms)))"
proof (cases "decide_before_classifier me ms rx")
  case (Some dar)
  then show ?thesis by (cases dar) (simp add: decide_request_def)
next
  case None
  obtain ms1 rc ans where am: "auto_mode_step me ob rx ms = (ms1, rc, ans)"
    by (cases "auto_mode_step me ob rx ms") auto
  have st: "ms_state ms1 = ms_state ms" using auto_mode_step_frame[OF am] by simp
  show ?thesis
  proof (cases ans)
    case (AutoPasses forced ar)
    show ?thesis
      using None am AutoPasses st prompt_user_storable[of me rx ms1 ob rc ar]
      by (cases "decide_after_classifier me ms1 rx forced ar")
        (auto simp: decide_request_def)
  qed (use None am st in \<open>simp_all add: decide_request_def\<close>)
qed

subsection \<open>The grant of all edits for the session\<close>

text \<open>
  The one session-wide grant an answer can open: edits without a question until the session ends.
  It is open to every request but a shell command and a message to another agent.
\<close>

definition opens_edits :: "access_kind \<Rightarrow> prompt_outcome \<Rightarrow> bool" where
  "opens_edits access out \<longleftrightarrow>
     out = OutAllowEditsForSession
     \<and> (case access of Bash _ \<Rightarrow> False | AgentMessage _ \<Rightarrow> False | _ \<Rightarrow> True)"

definition edits_after :: "access_kind \<Rightarrow> prompt_outcome \<Rightarrow> manager_state \<Rightarrow> manager_state \<Rightarrow> bool" where
  "edits_after access out ms ms' \<longleftrightarrow>
     (if opens_edits access out then ms_allow_edits ms \<longrightarrow> ms_allow_edits ms'
      else ms_allow_edits ms' = ms_allow_edits ms)"

lemma edits_after_same: "ms_allow_edits ms' = ms_allow_edits ms \<Longrightarrow> edits_after access out ms ms'"
  by (simp add: edits_after_def)

lemma edits_kept [simp]:
  "ms_allow_edits (update_state me f ms) = ms_allow_edits ms"
  "ms_allow_edits (fst (answer me ob rq rc ms d a r)) = ms_allow_edits ms"
  "ms_allow_edits (fst (abandon me ob rq rc ms)) = ms_allow_edits ms"
  "ms_allow_edits (record_permission_decision me access d o' ms) = ms_allow_edits ms"
  by (simp_all add: update_state_def persist_manager_state_def answer_def abandon_def
      record_permission_decision_def Let_def split: option.split)

lemma bash_edits_kept: "ms_allow_edits (fst (bash_outcome me cmd out ms)) = ms_allow_edits ms"
  by (cases out) auto

lemma other_edits_kept:
  "out \<noteq> OutAllowEditsForSession \<Longrightarrow>
   ms_allow_edits (fst (other_outcome me access out ms)) = ms_allow_edits ms"
  by (cases out) (auto split: access_kind.split option.split)

lemma apply_outcome_edits: "edits_after access out ms (fst (apply_outcome me access out ms))"
proof (cases "opens_edits access out")
  case True
  then show ?thesis
    by (cases access)
      (simp_all add: edits_after_def opens_edits_def apply_outcome_def one_call_outcome_def)
next
  case False
  then have "one_call_outcome access out \<noteq> OutAllowEditsForSession \<or> (\<exists>cmd. access = Bash cmd)"
    by (cases access; cases out) (simp_all add: opens_edits_def one_call_outcome_def)
  then have "ms_allow_edits (fst (apply_outcome me access out ms)) = ms_allow_edits ms"
    by (cases access) (simp_all add: apply_outcome_def bash_edits_kept other_edits_kept)
  then show ?thesis by (rule edits_after_same)
qed

lemma prompt_user_edits:
  "edits_after (rx_access rx) (ro_prompt_outcome ob) ms (fst (prompt_user me ob rx rc ar ms))"
proof (cases "ro_gone_before_prompt ob")
  case False
  define ms1 where "ms1 = (if ms_prompt_notify ms then ms\<lparr>ms_notified := ms_notified ms + 1\<rparr> else ms)"
  define out where "out = (if ro_gone_in_prompt ob then OutCancelled else ro_prompt_outcome ob)"
  obtain ms2 d k where ap: "apply_outcome me (rx_access rx) out ms1 = (ms2, d, k)"
    by (cases "apply_outcome me (rx_access rx) out ms1") auto
  have "edits_after (rx_access rx) out ms1 ms2"
    using apply_outcome_edits[of "rx_access rx" out ms1 me] by (simp add: ap)
  moreover have "ms_allow_edits ms1 = ms_allow_edits ms" by (simp add: ms1_def)
  moreover have "opens_edits (rx_access rx) out \<Longrightarrow> out = ro_prompt_outcome ob"
    by (simp add: out_def opens_edits_def split: if_splits)
  ultimately have "edits_after (rx_access rx) (ro_prompt_outcome ob) ms ms2"
    by (auto simp: edits_after_def split: if_splits)
  then show ?thesis
    using False
    by (auto simp: prompt_user_def Let_def ms1_def[symmetric] out_def[symmetric] ap edits_after_def)
qed (simp add: prompt_user_def edits_after_same)

lemma verdict_edits: "ms_allow_edits (fst (on_verdict me rx v ms)) = ms_allow_edits ms"
  by (simp add: on_verdict_def Let_def split: option.split classifier_verdict.split)

lemma verdict_edits_of: "on_verdict me rx v ms = (ms', a) \<Longrightarrow> ms_allow_edits ms' = ms_allow_edits ms"
  using verdict_edits[of me rx v ms] by simp

lemma auto_mode_step_edits:
  "auto_mode_step me ob rx ms = (ms', rc, ans) \<Longrightarrow> ms_allow_edits ms' = ms_allow_edits ms"
  by (auto simp: auto_mode_step_def auto_classify_def Let_def dest!: verdict_edits_of
      split: if_splits auto_fast_path.splits route_result.splits prod.splits)

lemma decide_request_edits:
  "edits_after (rx_access rx) (ro_prompt_outcome ob) ms (fst (decide_request me ob rx ms))"
proof (cases "decide_before_classifier me ms rx")
  case (Some dar)
  then show ?thesis by (cases dar) (simp add: decide_request_def edits_after_same)
next
  case None
  obtain ms1 rc ans where am: "auto_mode_step me ob rx ms = (ms1, rc, ans)"
    by (cases "auto_mode_step me ob rx ms") auto
  have st: "ms_allow_edits ms1 = ms_allow_edits ms" using auto_mode_step_edits[OF am] .
  show ?thesis
  proof (cases ans)
    case (AutoPasses forced ar)
    show ?thesis
      using None am AutoPasses st prompt_user_edits[of rx ob ms1 me rc ar]
      by (cases "decide_after_classifier me ms1 rx forced ar")
        (auto simp: decide_request_def edits_after_def)
  qed (use None am st in \<open>simp_all add: decide_request_def edits_after_same\<close>)
qed

text \<open>
  C29. A request stores nothing but what it is about: whatever label the answer of the prompt
  carries, the grants and denies after the request are those before it, refreshed from the
  store, with at most an entry for this very tool, its server or the domain of this URL, or new
  entries in the shell lists for a shell command; a read, an edit, a search and a message to
  another agent store nothing. The grant of all edits for the session changes only by the answer
  that allows the edits of the session, to a request other than a shell command or a message, and
  never closes.
\<close>

theorem request_stores_only_its_own:
  assumes "request_command me ob rq ms = (ms', r)"
  shows "(storable me (rq_access rq) (ms_state (refresh_grants me (rq_access rq) ms)) (ms_state ms')
      \<or> ms_state ms' = ms_state ms)
    \<and> (ms_allow_edits ms' = ms_allow_edits ms
       \<or> ms_allow_edits ms' \<and> ro_prompt_outcome ob = OutAllowEditsForSession
         \<and> (\<forall>cmd. rq_access rq \<noteq> Bash cmd) \<and> (\<forall>i. rq_access rq \<noteq> AgentMessage i))"
proof
  let ?ms = "refresh_grants me (rq_access rq) ms"
  have acc: "rx_access (request_context me ?ms rq e) = rq_access rq" for e
    by (simp add: rx_access_def request_context_def)
  have ms': "ms' = fst (request_command me ob rq ms)" using assms by simp
  then show "storable me (rq_access rq) (ms_state ?ms) (ms_state ms') \<or> ms_state ms' = ms_state ms"
    using decide_request_storable[of me "request_context me ?ms rq _" ?ms ob]
    by (auto simp: request_command_def Let_def acc split: option.split)
  have "edits_after (rq_access rq) (ro_prompt_outcome ob) ms ms'"
    using ms' decide_request_edits[of "request_context me ?ms rq _" ob ?ms me]
    by (auto simp: request_command_def Let_def acc edits_after_def split: option.split)
  then show "ms_allow_edits ms' = ms_allow_edits ms
       \<or> ms_allow_edits ms' \<and> ro_prompt_outcome ob = OutAllowEditsForSession
         \<and> (\<forall>cmd. rq_access rq \<noteq> Bash cmd) \<and> (\<forall>i. rq_access rq \<noteq> AgentMessage i)"
    by (auto simp: edits_after_def opens_edits_def split: if_splits)
qed

theorem request_stores_only_its_own_witness:
  "storable sample_manager (MCPTool ''a__b'' JNull)
     (ms_state (refresh_grants sample_manager (MCPTool ''a__b'' JNull) sample_session))
     (ms_state (fst (request_command sample_manager
        (sample_obs\<lparr>ro_prompt_outcome := OutAllowAlwaysMcpServer ''other''\<rparr>)
        (sample_request (MCPTool ''a__b'' JNull)) sample_session)))
   \<or> ms_state (fst (request_command sample_manager
        (sample_obs\<lparr>ro_prompt_outcome := OutAllowAlwaysMcpServer ''other''\<rparr>)
        (sample_request (MCPTool ''a__b'' JNull)) sample_session)) = ms_state sample_session"
  using request_stores_only_its_own [of sample_manager
      "sample_obs\<lparr>ro_prompt_outcome := OutAllowAlwaysMcpServer ''other''\<rparr>"
      "sample_request (MCPTool ''a__b'' JNull)" sample_session, OF prod.collapse[symmetric], THEN conjunct1]
  by (simp add: sample_request_def permission_request_new_def)

end
