(* ===== verification/GB_PolicyUrl.thy ===== *)
theory GB_PolicyUrl
  imports GB_Classifier GB_MessageDelivery GB_RetryPolicy
begin

section \<open>URL entries of the managed policy (permission/managed_policy/url_match.rs)\<close>

text \<open>
  How a \<open>serverUrl\<close> entry matches the URL of an MCP server. An allow entry is a positive grant:
  scheme, host, port and path match separately. A deny entry looks at host and path only.

  The crates \<open>url\<close> and \<open>glob\<close> are the fields of the parameter \<open>ue :: url_env\<close>; the Unicode table
  behind \<open>to_lowercase\<close> is one too. The addresses of the standard library are modelled: an IPv6
  address is the list of its eight groups, an IPv4 address the list of its four octets. Strings
  are UTF-8 byte lists. The warnings are values, in the order the code tests them.
\<close>

datatype url_host = HostDomain string | HostIpv4 "u8 list" | HostIpv6 "u16 list"

record parsed_url =
  pu_scheme :: string
  pu_host :: "url_host option"
  pu_port :: "u16 option"
  pu_path :: string

record url_env =
  ue_url_parse :: "string \<Rightarrow> parsed_url option"
  ue_host_parse :: "string \<Rightarrow> url_host option"
  ue_glob_error :: "string \<Rightarrow> string option"
  ue_glob_matches :: "string \<Rightarrow> string \<Rightarrow> bool \<Rightarrow> bool"
  ue_lowercase :: "string \<Rightarrow> string"

definition glob_ok :: "url_env \<Rightarrow> string \<Rightarrow> bool" where
  "glob_ok ue p \<longleftrightarrow> ue_glob_error ue p = None"

subsection \<open>Addresses of the standard library\<close>

text \<open>\<open>hex_val\<close> of \<open>decode_unreserved_escapes\<close>, also \<open>char::to_digit(16)\<close>.\<close>

definition hex_val :: "char \<Rightarrow> nat option" where
  "hex_val c =
     (let n = (of_char c :: nat)
      in if 48 \<le> n \<and> n \<le> 57 then Some (n - 48)
         else if 97 \<le> n \<and> n \<le> 102 then Some (n - 87)
         else if 65 \<le> n \<and> n \<le> 70 then Some (n - 55)
         else None)"

definition digit_of :: "nat \<Rightarrow> char \<Rightarrow> nat option" where
  "digit_of radix c =
     (case hex_val c of None \<Rightarrow> None | Some d \<Rightarrow> if d < radix then Some d else None)"

text \<open>
  \<open>Parser::read_number\<close>: all leading digits, at most \<open>max_digits\<close> of them, below \<open>bound\<close>, and
  without a leading zero unless allowed.
\<close>

definition read_number :: "nat \<Rightarrow> nat \<Rightarrow> bool \<Rightarrow> nat \<Rightarrow> string \<Rightarrow> (nat \<times> string) option" where
  "read_number radix max_digits zero_ok bound s =
     (let ds = takeWhile (\<lambda>c. digit_of radix c \<noteq> None) s;
          n = foldl (\<lambda>acc c. acc * radix + the (digit_of radix c)) 0 ds
      in if ds = [] \<or> length ds > max_digits \<or> \<not> zero_ok \<and> hd ds = CHR ''0'' \<and> length ds > 1
            \<or> bound \<le> n
         then None else Some (n, drop (length ds) s))"

definition read_separator :: "char \<Rightarrow> bool \<Rightarrow> string \<Rightarrow> string option" where
  "read_separator sep first s =
     (if first then Some s
      else (case s of [] \<Rightarrow> None | c # r \<Rightarrow> if c = sep then Some r else None))"

fun read_octets :: "nat \<Rightarrow> bool \<Rightarrow> string \<Rightarrow> (nat list \<times> string) option" where
  "read_octets 0 first s = Some ([], s)"
| "read_octets (Suc k) first s =
     Option.bind (Option.bind (read_separator (CHR ''.'') first s) (read_number 10 3 False 256))
       (\<lambda>(o1, r). map_option (\<lambda>(os, r'). (o1 # os, r')) (read_octets k False r))"

text \<open>\<open>read_groups\<close>: the groups read, whether they end in an IPv4 address, and the rest.\<close>

fun read_groups :: "nat \<Rightarrow> bool \<Rightarrow> string \<Rightarrow> nat list \<times> bool \<times> string" where
  "read_groups 0 first s = ([], False, s)"
| "read_groups (Suc k) first s =
     (case (if k > 0 then Option.bind (read_separator (CHR '':'') first s) (read_octets 4 True)
            else None) of
        Some (os, r) \<Rightarrow> ([os ! 0 * 256 + os ! 1, os ! 2 * 256 + os ! 3], True, r)
      | None \<Rightarrow>
          (case Option.bind (read_separator (CHR '':'') first s) (read_number 16 4 True 65536) of
             Some (g, r) \<Rightarrow> (let (gs, v4, r') = read_groups k False r in (g # gs, v4, r'))
           | None \<Rightarrow> ([], False, s)))"

definition read_ipv6 :: "string \<Rightarrow> (nat list \<times> string) option" where
  "read_ipv6 s =
     (let (head, v4, r) = read_groups 8 True s
      in if length head = 8 then Some (head, r)
         else if v4 then None
         else (case strip_prefix r ''::'' of
                 None \<Rightarrow> None
               | Some r' \<Rightarrow>
                   (let (tail, _, r'') = read_groups (8 - (length head + 1)) True r'
                    in Some (head @ replicate (8 - length head - length tail) 0 @ tail, r''))))"

definition parse_ipv6 :: "string \<Rightarrow> u16 list option" where
  "parse_ipv6 s =
     (case read_ipv6 s of Some (gs, []) \<Rightarrow> Some (map of_nat gs) | _ \<Rightarrow> None)"

definition ipv4_text :: "u8 list \<Rightarrow> string" where
  "ipv4_text os = join_with ''.'' (map (\<lambda>b. dec_digits (unat b)) os)"

definition high_byte :: "u16 \<Rightarrow> u8" where "high_byte g = of_nat (unat g div 256)"
definition low_byte :: "u16 \<Rightarrow> u8" where "low_byte g = of_nat (unat g mod 256)"

definition to_ipv4_mapped :: "u16 list \<Rightarrow> u8 list option" where
  "to_ipv4_mapped gs =
     (if length gs = 8 \<and> take 6 gs = [0, 0, 0, 0, 0, 0xFFFF]
      then Some [high_byte (gs ! 6), low_byte (gs ! 6), high_byte (gs ! 7), low_byte (gs ! 7)]
      else None)"

text \<open>The first longest run of zero groups, as start and length.\<close>

fun zero_span :: "nat \<Rightarrow> nat \<times> nat \<Rightarrow> nat \<times> nat \<Rightarrow> u16 list \<Rightarrow> nat \<times> nat" where
  "zero_span i current longest [] = longest"
| "zero_span i current longest (g # gs) =
     (if g = 0
      then let current' = (if snd current = 0 then i else fst current, snd current + 1)
           in zero_span (i + 1) current' (if snd current' > snd longest then current' else longest) gs
      else zero_span (i + 1) (0, 0) longest gs)"

definition groups_text :: "u16 list \<Rightarrow> string" where
  "groups_text gs = join_with '':'' (map (\<lambda>g. hex_nat (unat g)) gs)"

definition ipv6_text :: "u16 list \<Rightarrow> string" where
  "ipv6_text gs =
     (case to_ipv4_mapped gs of
        Some os \<Rightarrow> ''::ffff:'' @ ipv4_text os
      | None \<Rightarrow>
          (let (start, len) = zero_span 0 (0, 0) (0, 0) gs
           in if len > 1
              then groups_text (take start gs) @ ''::'' @ groups_text (drop (start + len) gs)
              else groups_text gs))"

datatype ip_addr = IpV4 "u8 list" | IpV6 "u16 list"

fun to_canonical :: "ip_addr \<Rightarrow> ip_addr" where
  "to_canonical (IpV4 os) = IpV4 os"
| "to_canonical (IpV6 gs) = (case to_ipv4_mapped gs of Some os \<Rightarrow> IpV4 os | None \<Rightarrow> IpV6 gs)"

fun ip_text :: "ip_addr \<Rightarrow> string" where
  "ip_text (IpV4 os) = ipv4_text os"
| "ip_text (IpV6 gs) = ipv6_text gs"

subsection \<open>Splitting\<close>

definition split_authority_path :: "string \<Rightarrow> string \<times> string" where
  "split_authority_path s = (before_char (CHR ''/'') s, dropWhile (\<lambda>c. c \<noteq> CHR ''/'') s)"

definition split_scheme :: "string \<Rightarrow> string option \<times> string" where
  "split_scheme s =
     (case find_sub s ''://'' of
        Some i \<Rightarrow> (Some (take i s), drop (i + 3) s)
      | None \<Rightarrow> (None, s))"

text \<open>\<open>rsplit('@').next()\<close>\<close>

definition after_userinfo :: "string \<Rightarrow> string" where
  "after_userinfo a = rev (takeWhile (\<lambda>c. c \<noteq> CHR 0x40) (rev a))"

definition is_bracketed_ipv6 :: "string \<Rightarrow> bool" where
  "is_bracketed_ipv6 authority =
     (case Option.bind (strip_prefix authority ''['') (split_once (CHR '']'')) of
        Some (addr, _) \<Rightarrow> parse_ipv6 addr \<noteq> None
      | None \<Rightarrow> False)"

definition has_glob_char :: "string \<Rightarrow> bool" where
  "has_glob_char s \<longleftrightarrow> list_ex (\<lambda>c. c = CHR ''*'' \<or> c = CHR ''?'' \<or> c = CHR ''['') s"

definition is_ascii_text :: "string \<Rightarrow> bool" where
  "is_ascii_text s = list_all (\<lambda>c. (of_char c :: nat) < 128) s"

subsection \<open>Canonical forms\<close>

definition canonical_label :: "url_env \<Rightarrow> string \<Rightarrow> string" where
  "canonical_label ue label =
     (if has_glob_char label \<or> is_ascii_text label \<and> CHR ''%'' \<notin> set label then ascii_lower label
      else (case ue_host_parse ue label of
              Some (HostDomain canonical) \<Rightarrow> canonical
            | _ \<Rightarrow> ascii_lower label))"

definition canonicalize_pattern_host :: "url_env \<Rightarrow> string \<Rightarrow> string" where
  "canonicalize_pattern_host ue host =
     (let host = trim_end_matches (CHR ''.'') host
      in if is_ascii_text host \<and> CHR ''%'' \<notin> set host then ascii_lower host
         else join_with ''.'' (map (canonical_label ue) (split_char (CHR ''.'') host)))"

definition ascii_upper_char :: "char \<Rightarrow> char" where
  "ascii_upper_char c =
     (let n = (of_char c :: nat) in if 97 \<le> n \<and> n \<le> 122 then char_of (n - 32) else c)"

definition unreserved :: "char \<Rightarrow> bool" where
  "unreserved c \<longleftrightarrow> is_ascii_alnum c \<or> c \<in> set ''-._~''"

fun decode_unreserved_escapes :: "string \<Rightarrow> string" where
  "decode_unreserved_escapes (c # a # b # rest) =
     (if c = CHR ''%'' \<and> hex_val a \<noteq> None \<and> hex_val b \<noteq> None
      then let decoded = (char_of (the (hex_val a) * 16 + the (hex_val b)) :: char)
           in if unreserved decoded then decoded # decode_unreserved_escapes rest
              else c # ascii_upper_char a # ascii_upper_char b # decode_unreserved_escapes rest
      else c # decode_unreserved_escapes (a # b # rest))"
| "decode_unreserved_escapes s = s"

definition dot_segment_step :: "string list \<Rightarrow> string \<Rightarrow> string list" where
  "dot_segment_step out seg =
     (if seg = ''.'' then out
      else if seg = ''..'' then (if length out > 1 then butlast out else out)
      else out @ [seg])"

definition resolve_pattern_dot_segments :: "string \<Rightarrow> string" where
  "resolve_pattern_dot_segments path =
     (if find_sub path ''/.'' = None then path
      else let segs = split_char (CHR ''/'') path;
               ends_dir = last segs \<in> {''.'', ''..''};
               joined = join_with ''/'' (foldl dot_segment_step [] segs);
               joined = (if joined = [] then ''/'' else joined)
           in if ends_dir \<and> \<not> ends_with joined ''/'' then joined @ ''/'' else joined)"

definition needs_encoding :: "char \<Rightarrow> bool" where
  "needs_encoding c \<longleftrightarrow>
     (let n = (of_char c :: nat)
      in 128 \<le> n \<or> n < 32 \<or> n = 127 \<or> c \<in> set '' #<>`{}'' \<or> n = 34)"

definition upper_hex_digit :: "nat \<Rightarrow> char" where
  "upper_hex_digit d = (if d < 10 then char_of (48 + d) else char_of (55 + d))"

definition encode_byte :: "char \<Rightarrow> string" where
  "encode_byte c =
     (if needs_encoding c
      then let n = (of_char c :: nat) in [CHR ''%'', upper_hex_digit (n div 16), upper_hex_digit (n mod 16)]
      else [c])"

definition canonicalize_pattern_path :: "string \<Rightarrow> string" where
  "canonicalize_pattern_path path =
     (let path = resolve_pattern_dot_segments (decode_unreserved_escapes path)
      in if \<not> list_ex needs_encoding path then path else concat (map encode_byte path))"

text \<open>\<open>collapse_empty_segments\<close>: a slash after a slash is dropped.\<close>

definition drop_slash_step :: "string \<Rightarrow> char \<Rightarrow> string" where
  "drop_slash_step out c = (if c = CHR ''/'' \<and> ends_with out ''/'' then out else out @ [c])"

definition collapse_empty_segments :: "string \<Rightarrow> string" where
  "collapse_empty_segments path = foldl drop_slash_step [] path"

subsection \<open>The URL of a server at run time\<close>

record runtime_url =
  ru_scheme :: string
  ru_host :: url_host
  ru_port :: "u16 option"
  ru_path :: string

definition runtime_parse :: "url_env \<Rightarrow> string \<Rightarrow> runtime_url option" where
  "runtime_parse ue url =
     Option.bind (ue_url_parse ue url) (\<lambda>parsed.
       map_option (\<lambda>host. \<lparr>ru_scheme = pu_scheme parsed, ru_host = host, ru_port = pu_port parsed,
                          ru_path = decode_unreserved_escapes (pu_path parsed)\<rparr>)
         (pu_host parsed))"

definition host_text :: "runtime_url \<Rightarrow> string" where
  "host_text ru =
     (case ru_host ru of
        HostDomain d \<Rightarrow> ascii_lower (trim_end_matches (CHR ''.'') d)
      | HostIpv4 a \<Rightarrow> ipv4_text a
      | HostIpv6 a \<Rightarrow> ipv6_text a)"

definition runtime_authority :: "runtime_url \<Rightarrow> string" where
  "runtime_authority ru =
     (let host = (case ru_host ru of HostIpv6 a \<Rightarrow> ''['' @ ipv6_text a @ '']'' | _ \<Rightarrow> host_text ru)
      in case ru_port ru of Some port \<Rightarrow> host @ '':'' @ dec_digits (unat port) | None \<Rightarrow> host)"

subsection \<open>Allow entries\<close>

definition SUPPORTED_REMOTE_SCHEMES :: "string list" where
  "SUPPORTED_REMOTE_SCHEMES = [''http'', ''https'']"

datatype allow_scheme = SchemeAny | SchemeLiteral string | SchemeNever

definition allow_scheme_new :: "string \<Rightarrow> allow_scheme" where
  "allow_scheme_new scheme =
     (if scheme = ''*'' then SchemeAny
      else if scheme = [] \<or> has_glob_char scheme then SchemeNever
      else SchemeLiteral scheme)"

fun allow_scheme_matches :: "allow_scheme \<Rightarrow> string \<Rightarrow> bool" where
  "allow_scheme_matches SchemeAny runtime_scheme =
     list_ex (\<lambda>s. eq_ignore_ascii_case s runtime_scheme) SUPPORTED_REMOTE_SCHEMES"
| "allow_scheme_matches (SchemeLiteral scheme) runtime_scheme =
     eq_ignore_ascii_case scheme runtime_scheme"
| "allow_scheme_matches SchemeNever runtime_scheme = False"

datatype allow_authority = BracketedIpv6 string | HostPort "string option" "string option"

record allow_parts =
  ap_scheme :: "string option"
  ap_authority :: string
  ap_bracketed_ipv6 :: bool
  ap_host :: string
  ap_port :: "string option"
  ap_path :: string

definition split_allow_pattern :: "string \<Rightarrow> allow_parts" where
  "split_allow_pattern pattern =
     (let (scheme, rest) = split_scheme pattern;
          (authority, path) = split_authority_path rest;
          authority = after_userinfo authority;
          bracketed = is_bracketed_ipv6 authority;
          (host, port) =
            (if bracketed then (authority, None)
             else (case rsplit_once (CHR '':'') authority of
                     Some (host, port) \<Rightarrow> (host, Some port)
                   | None \<Rightarrow> (authority, None)))
      in \<lparr>ap_scheme = scheme, ap_authority = authority, ap_bracketed_ipv6 = bracketed,
          ap_host = host, ap_port = port, ap_path = path\<rparr>)"

definition scheme_default_port :: "string \<Rightarrow> string option" where
  "scheme_default_port scheme =
     (if scheme = ''http'' \<or> scheme = ''ws'' then Some ''80''
      else if scheme = ''https'' \<or> scheme = ''wss'' then Some ''443''
      else None)"

definition strip_pattern_default_port :: "string \<Rightarrow> string \<Rightarrow> string" where
  "strip_pattern_default_port authority scheme =
     (case Option.bind (scheme_default_port scheme) parse_u16 of
        None \<Rightarrow> authority
      | Some default_port \<Rightarrow>
          (case rsplit_once (CHR '':'') authority of
             Some (host, port) \<Rightarrow>
               if ends_with host '']'' \<and> parse_u16 port = Some default_port then host else authority
           | None \<Rightarrow> authority))"

definition parse_ipv6_authority :: "string \<Rightarrow> (u16 list \<times> string) option" where
  "parse_ipv6_authority authority =
     Option.bind (strip_prefix authority ''['') (\<lambda>rest.
       Option.bind (split_once (CHR '']'') rest) (\<lambda>(addr, suffix).
         map_option (\<lambda>a. (a, suffix)) (parse_ipv6 addr)))"

definition ports_equal :: "string \<Rightarrow> string \<Rightarrow> bool" where
  "ports_equal a b \<longleftrightarrow>
     (case (map_option parse_u16 (strip_prefix a '':''), map_option parse_u16 (strip_prefix b '':'')) of
        (Some (Some pa), Some (Some pb)) \<Rightarrow> pa = pb
      | _ \<Rightarrow> a = b)"

definition ipv6_authorities_equal :: "string \<Rightarrow> string \<Rightarrow> bool" where
  "ipv6_authorities_equal a b \<longleftrightarrow>
     (case (parse_ipv6_authority a, parse_ipv6_authority b) of
        (Some (addr_a, port_a), Some (addr_b, port_b)) \<Rightarrow> addr_a = addr_b \<and> ports_equal port_a port_b
      | _ \<Rightarrow> eq_ignore_ascii_case a b)"

datatype allow_path = AllowAnyPath | AllowPathGlob string | AllowNoPath

definition allow_path_new :: "url_env \<Rightarrow> string \<Rightarrow> allow_path" where
  "allow_path_new ue canonical =
     (if canonical = [] \<or> canonical = ''/'' then AllowAnyPath
      else if glob_ok ue canonical then AllowPathGlob canonical
      else AllowNoPath)"

fun allow_path_matches :: "url_env \<Rightarrow> allow_path \<Rightarrow> string \<Rightarrow> bool" where
  "allow_path_matches ue AllowAnyPath url_path = True"
| "allow_path_matches ue (AllowPathGlob p) url_path = ue_glob_matches ue p url_path True"
| "allow_path_matches ue AllowNoPath url_path = False"

record compiled_allow =
  ca_scheme :: allow_scheme
  ca_authority :: allow_authority
  ca_path :: allow_path

definition allow_url_new :: "url_env \<Rightarrow> string \<Rightarrow> compiled_allow option" where
  "allow_url_new ue pattern =
     (let parts = split_allow_pattern pattern
      in case ap_scheme parts of
           None \<Rightarrow> None
         | Some scheme \<Rightarrow>
             (let authority =
                (if ap_bracketed_ipv6 parts then BracketedIpv6 (ap_authority parts)
                 else let h = canonicalize_pattern_host ue (ap_host parts)
                      in HostPort (if glob_ok ue h then Some h else None) (ap_port parts))
              in Some \<lparr>ca_scheme = allow_scheme_new scheme, ca_authority = authority,
                       ca_path = allow_path_new ue (canonicalize_pattern_path (ap_path parts))\<rparr>))"

definition allow_port_ok :: "string option \<Rightarrow> runtime_url \<Rightarrow> bool" where
  "allow_port_ok port runtime =
     (case (port, ru_port runtime) of
        (None, None) \<Rightarrow> True
      | (None, Some _) \<Rightarrow> False
      | (Some p, Some q) \<Rightarrow> parse_u16 p = Some q
      | (Some p, None) \<Rightarrow>
          (case scheme_default_port (ru_scheme runtime) of
             None \<Rightarrow> False
           | Some d \<Rightarrow> parse_u16 p = parse_u16 d))"

definition allow_authority_matches :: "url_env \<Rightarrow> allow_authority \<Rightarrow> runtime_url \<Rightarrow> bool" where
  "allow_authority_matches ue authority runtime =
     (case authority of
        BracketedIpv6 pat \<Rightarrow>
          ipv6_authorities_equal (strip_pattern_default_port pat (ru_scheme runtime))
            (runtime_authority runtime)
      | HostPort host port \<Rightarrow>
          (case host of None \<Rightarrow> False | Some h \<Rightarrow> ue_glob_matches ue h (host_text runtime) False)
          \<and> allow_port_ok port runtime)"

definition allow_url_matches :: "url_env \<Rightarrow> compiled_allow option \<Rightarrow> string \<Rightarrow> bool" where
  "allow_url_matches ue m url =
     (case m of
        None \<Rightarrow> False
      | Some compiled \<Rightarrow>
          (case runtime_parse ue url of
             None \<Rightarrow> False
           | Some runtime \<Rightarrow>
               allow_scheme_matches (ca_scheme compiled) (ru_scheme runtime)
               \<and> allow_authority_matches ue (ca_authority compiled) runtime
               \<and> allow_path_matches ue (ca_path compiled) (ru_path runtime)))"

subsection \<open>Deny entries\<close>

definition parse_ip_host :: "url_env \<Rightarrow> string \<Rightarrow> ip_addr option" where
  "parse_ip_host ue host =
     map_option to_canonical
       (case parse_ipv6 host of
          Some v6 \<Rightarrow> Some (IpV6 v6)
        | None \<Rightarrow>
            (case ue_host_parse ue host of
               Some (HostIpv4 a) \<Rightarrow> Some (IpV4 a)
             | Some (HostIpv6 a) \<Rightarrow> Some (IpV6 a)
             | _ \<Rightarrow> None))"

definition bracket_content :: "string \<Rightarrow> string option" where
  "bracket_content authority =
     (case strip_prefix authority ''['' of
        None \<Rightarrow> None
      | Some rest \<Rightarrow>
          (let content = before_char (CHR '']'') rest
           in if parse_ipv6 content \<noteq> None then Some content else None))"

definition numeric_port :: "string \<Rightarrow> bool" where
  "numeric_port port \<longleftrightarrow> port \<noteq> [] \<and> list_all is_ascii_digit port \<and> parse_u16 port \<noteq> None"

definition deny_host_of :: "string \<Rightarrow> string" where
  "deny_host_of authority =
     (case bracket_content authority of
        Some content \<Rightarrow> content
      | None \<Rightarrow>
          (let plain = (if parse_ipv6 authority \<noteq> None then authority
                        else before_char (CHR '':'') authority)
           in case rsplit_once (CHR '':'') authority of
                Some (before_port, port) \<Rightarrow>
                  if numeric_port port \<and> parse_ipv6 before_port \<noteq> None then before_port else plain
              | None \<Rightarrow> plain))"

definition split_host_path :: "string \<Rightarrow> string option \<times> string" where
  "split_host_path s =
     (let after_scheme = snd (split_scheme s);
          (authority, path) = split_authority_path after_scheme;
          host = ascii_lower (trim_end_matches (CHR ''.'') (deny_host_of (after_userinfo authority)))
      in if host = [] then (None, path) else (Some host, path))"

datatype deny_host = DenyHostGlob string | DenyHostLiteral string
datatype deny_path = DenyHostOnly | DenyPathGlob string | DenyPathBroken string

record compiled_deny =
  cd_ip :: "ip_addr option"
  cd_host :: deny_host
  cd_path :: deny_path
  cd_pattern :: string

definition deny_path_new :: "url_env \<Rightarrow> string \<Rightarrow> deny_path" where
  "deny_path_new ue pat_path =
     (let p = collapse_empty_segments (canonicalize_pattern_path pat_path)
      in if p = [] \<or> p = ''/'' then DenyHostOnly
         else (case ue_glob_error ue p of
                 None \<Rightarrow> DenyPathGlob p
               | Some e \<Rightarrow> DenyPathBroken e))"

definition deny_url_new :: "url_env \<Rightarrow> string \<Rightarrow> compiled_deny option" where
  "deny_url_new ue pattern =
     (case split_host_path pattern of
        (None, _) \<Rightarrow> None
      | (Some pat_host, pat_path) \<Rightarrow>
          (let canonical_host = canonicalize_pattern_host ue pat_host
           in Some \<lparr>cd_ip = parse_ip_host ue pat_host,
                    cd_host = (if glob_ok ue canonical_host then DenyHostGlob canonical_host
                               else DenyHostLiteral canonical_host),
                    cd_path = deny_path_new ue pat_path,
                    cd_pattern = pattern\<rparr>))"

fun deny_host_matches :: "url_env \<Rightarrow> deny_host \<Rightarrow> string \<Rightarrow> bool" where
  "deny_host_matches ue (DenyHostGlob p) url_host = ue_glob_matches ue p url_host False"
| "deny_host_matches ue (DenyHostLiteral canonical) url_host = eq_ignore_ascii_case canonical url_host"

fun deny_path_matches :: "url_env \<Rightarrow> deny_path \<Rightarrow> string \<Rightarrow> bool" where
  "deny_path_matches ue DenyHostOnly url_path = True"
| "deny_path_matches ue (DenyPathGlob p) url_path =
     ue_glob_matches ue p (collapse_empty_segments url_path) False"
| "deny_path_matches ue (DenyPathBroken e) url_path = True"

definition deny_url_matches :: "url_env \<Rightarrow> compiled_deny option \<Rightarrow> string \<Rightarrow> bool" where
  "deny_url_matches ue m url =
     (case m of
        None \<Rightarrow> False
      | Some compiled \<Rightarrow>
          (case runtime_parse ue url of
             None \<Rightarrow> True
           | Some runtime \<Rightarrow>
               (case (cd_ip compiled, parse_ip_host ue (host_text runtime)) of
                  (Some pat_ip, Some url_ip) \<Rightarrow> pat_ip = url_ip
                | _ \<Rightarrow> deny_host_matches ue (cd_host compiled) (host_text runtime))
               \<and> deny_path_matches ue (cd_path compiled) (ru_path runtime)))"

subsection \<open>Lints\<close>

definition dead_unicode_glob_label :: "string \<Rightarrow> bool" where
  "dead_unicode_glob_label host =
     list_ex (\<lambda>label. \<not> is_ascii_text label \<and> has_glob_char label) (split_char (CHR ''.'') host)"

datatype allow_url_warning =
    NoScheme | DeadScheme | PortNotNumber | NoHost | Ipv6NotCanonical "u16 list"
  | Ipv6NotBracketed | IpNotCanonical ip_addr | HostGlobBroken | DeadUnicodeLabel

definition warn_on_unmatchable_allow_url :: "url_env \<Rightarrow> string \<Rightarrow> allow_url_warning option" where
  "warn_on_unmatchable_allow_url ue pattern =
     (let parts = split_allow_pattern pattern
      in case map_option allow_scheme_new (ap_scheme parts) of
           None \<Rightarrow> Some NoScheme
         | Some SchemeNever \<Rightarrow> Some DeadScheme
         | Some _ \<Rightarrow>
             if ap_bracketed_ipv6 parts
             then (let suffix = (case split_once (CHR '']'') (ap_authority parts) of
                                   Some (_, rest) \<Rightarrow> rest | None \<Rightarrow> []);
                       port_ok = suffix = []
                         \<or> (case strip_prefix suffix '':'' of
                              Some p \<Rightarrow> parse_u16 p \<noteq> None | None \<Rightarrow> False)
                   in if port_ok then None else Some PortNotNumber)
             else (let host = trim_end_matches (CHR ''.'') (ap_host parts)
                   in if CHR '':'' \<notin> set host
                         \<and> (case ap_port parts of Some p \<Rightarrow> parse_u16 p = None | None \<Rightarrow> False)
                      then Some PortNotNumber
                      else if host = [] then Some NoHost
                      else (case parse_ipv6 host of
                              Some v6 \<Rightarrow> if ipv6_text v6 \<noteq> host then Some (Ipv6NotCanonical v6) else None
                            | None \<Rightarrow>
                                if CHR '':'' \<in> set host \<and> \<not> has_glob_char host
                                then Some Ipv6NotBracketed
                                else (case parse_ip_host ue host of
                                        Some ip \<Rightarrow>
                                          if ip_text ip \<noteq> host then Some (IpNotCanonical ip)
                                          else if \<not> glob_ok ue (canonicalize_pattern_host ue host)
                                          then Some HostGlobBroken
                                          else if dead_unicode_glob_label host
                                          then Some DeadUnicodeLabel else None
                                      | None \<Rightarrow>
                                          if \<not> glob_ok ue (canonicalize_pattern_host ue host)
                                          then Some HostGlobBroken
                                          else if dead_unicode_glob_label host
                                          then Some DeadUnicodeLabel else None))))"

text \<open>Whether a deny pattern can match nothing.\<close>

definition warn_on_unmatchable_deny_url :: "url_env \<Rightarrow> string \<Rightarrow> bool" where
  "warn_on_unmatchable_deny_url ue pattern =
     (case fst (split_host_path pattern) of
        None \<Rightarrow> True
      | Some host \<Rightarrow>
          \<not> glob_ok ue (canonicalize_pattern_host ue host) \<or> dead_unicode_glob_label host)"

subsection \<open>Commands\<close>

definition argv_matches :: "string list \<Rightarrow> string \<Rightarrow> string list \<Rightarrow> bool" where
  "argv_matches argv command args =
     (case argv of [] \<Rightarrow> False | first # rest \<Rightarrow> first = command \<and> rest = args)"

subsection \<open>Splitting a text at its first or last separator\<close>

lemma split_authority_path_append:
  "split_authority_path s = (a, p) \<Longrightarrow> s = a @ p \<and> CHR ''/'' \<notin> set a"
  by (auto simp: split_authority_path_def before_char_def dest: set_takeWhileD)

lemma rsplit_once_Some:
  assumes "rsplit_once c s = Some (a, b)"
  shows "s = a @ c # b \<and> c \<notin> set b"
proof -
  from assms have c: "c \<in> set s"
    and a: "a = rev (drop 1 (dropWhile (\<lambda>d. d \<noteq> c) (rev s)))"
    and b: "b = rev (takeWhile (\<lambda>d. d \<noteq> c) (rev s))"
    by (auto simp: rsplit_once_def split: if_splits)
  from c obtain d rest where dw: "dropWhile (\<lambda>d. d \<noteq> c) (rev s) = d # rest"
    by (cases "dropWhile (\<lambda>d. d \<noteq> c) (rev s)") (auto simp: dropWhile_eq_Nil_conv)
  then have d: "d = c" using hd_dropWhile [of "\<lambda>d. d \<noteq> c" "rev s"] by auto
  have "rev s = takeWhile (\<lambda>d. d \<noteq> c) (rev s) @ c # rest"
    using dw d takeWhile_dropWhile_id [of "\<lambda>d. d \<noteq> c" "rev s"] by simp
  then have "s = rev (takeWhile (\<lambda>d. d \<noteq> c) (rev s) @ c # rest)"
    by (metis rev_rev_ident)
  then have "s = a @ c # b" using a b dw d by simp
  moreover have "c \<notin> set b" unfolding b by (auto dest: set_takeWhileD)
  ultimately show ?thesis by blast
qed

lemma rsplit_once_None: "rsplit_once c s = None \<longleftrightarrow> c \<notin> set s"
  by (simp add: rsplit_once_def)

lemma before_char_absent: "c \<notin> set s \<Longrightarrow> before_char c s = s"
  unfolding before_char_def by (subst takeWhile_eq_all_conv [THEN iffD2]) auto

lemma before_char_append: "c \<notin> set a \<Longrightarrow> before_char c (a @ c # b) = a"
  unfolding before_char_def by (induction a) auto

subsection \<open>An IPv6 address has at least two colons\<close>

abbreviation colons :: "string \<Rightarrow> nat" where
  "colons s \<equiv> count_list s (CHR '':'')"

lemma colons_drop: "colons (drop n s) \<le> colons s"
  by (metis append_take_drop_id count_list_append le_add2)

lemma read_number_colons: "read_number r m z b s = Some (n, s') \<Longrightarrow> colons s' \<le> colons s"
  by (auto simp: read_number_def Let_def colons_drop split: if_splits)

lemma read_separator_colons:
  "read_separator sep first s = Some s' \<Longrightarrow>
     colons s' + (if first \<or> sep \<noteq> CHR '':'' then 0 else 1) \<le> colons s"
  by (auto simp: read_separator_def split: if_splits list.splits)

lemma read_octets_colons: "read_octets k first s = Some (os, s') \<Longrightarrow> colons s' \<le> colons s"
proof (induction k arbitrary: first s os s')
  case (Suc k)
  from Suc.prems obtain r o1 r' os' where "read_separator (CHR ''.'') first s = Some r"
    "read_number 10 3 False 256 r = Some (o1, r')" "read_octets k False r' = Some (os', s')"
    by (auto simp: bind_eq_Some_conv)
  then show ?case
    using Suc.IH [of False r'] read_number_colons [of 10 3 False 256 r o1 r']
      read_separator_colons [of "CHR ''.''" first s r] by fastforce
qed simp

lemma read_groups_colons:
  "read_groups k first s = (gs, v4, r) \<Longrightarrow>
     colons r + length gs \<le> colons s + (if first then 1 else 0) + (if v4 then 1 else 0)"
proof (induction k arbitrary: first s gs v4 r)
  case (Suc k)
  show ?case
  proof (cases "if k > 0 then Option.bind (read_separator (CHR '':'') first s) (read_octets 4 True)
                else None")
    case (Some osr)
    then obtain os r1 s1 where osr: "osr = (os, r1)"
      and s1: "read_separator (CHR '':'') first s = Some s1" "read_octets 4 True s1 = Some (os, r1)"
      by (cases osr) (auto simp: bind_eq_Some_conv split: if_splits)
    from Suc.prems Some osr have "r = r1" "v4" "length gs = 2" by auto
    then show ?thesis
      using read_separator_colons [OF s1(1)] read_octets_colons [OF s1(2)]
      by (auto split: if_splits)
  next
    case None
    show ?thesis
    proof (cases "Option.bind (read_separator (CHR '':'') first s) (read_number 16 4 True 65536)")
      case None2: None
      then show ?thesis using Suc.prems None by auto
    next
      case (Some gr)
      then obtain g r1 s1 where gr: "gr = (g, r1)"
        and s1: "read_separator (CHR '':'') first s = Some s1"
          "read_number 16 4 True 65536 s1 = Some (g, r1)"
        by (cases gr) (auto simp: bind_eq_Some_conv)
      obtain gs' v' r' where rec: "read_groups k False r1 = (gs', v', r')"
        by (cases "read_groups k False r1")
      from Suc.prems None Some gr rec have "gs = g # gs'" "v4 = v'" "r = r'" by auto
      then show ?thesis
        using Suc.IH [OF rec] read_separator_colons [OF s1(1)] read_number_colons [OF s1(2)]
        by (auto split: if_splits)
    qed
  qed
qed auto

lemma read_groups_Nil: "read_groups k first s = ([], v4, r) \<Longrightarrow> r = s"
  by (cases k) (auto split: option.splits prod.splits)

lemma parse_ipv6_colons:
  assumes "parse_ipv6 s \<noteq> None"
  shows "2 \<le> colons s"
proof -
  obtain head v4 r where h: "read_groups 8 True s = (head, v4, r)"
    by (cases "read_groups 8 True s")
  note c = read_groups_colons [OF h]
  show ?thesis
  proof (cases "length head = 8")
    case True
    then show ?thesis using c by (auto split: if_splits)
  next
    case False
    with assms h obtain r' where "\<not> v4" "r = ''::'' @ r'"
      by (auto simp: parse_ipv6_def read_ipv6_def str_simps split: if_splits option.splits)
    then show ?thesis using c h read_groups_Nil [of 8 True s v4 r] by (cases head) auto
  qed
qed

subsection \<open>A deny entry covers the allow entry of the same text\<close>

text \<open>A host without userinfo, port or escape; the \<open>[\<close> of a character class is allowed.\<close>

definition plain_host :: "string \<Rightarrow> bool" where
  "plain_host h \<longleftrightarrow> CHR '':'' \<notin> set h \<and> CHR ''%'' \<notin> set h \<and> is_ascii_text h
     \<and> trim_end_matches (CHR ''.'') h \<noteq> []"

lemma colons_of_rsplit:
  assumes "rsplit_once (CHR '':'') s = Some (a, b)" and "CHR '':'' \<notin> set a"
  shows "colons s = 1"
  using rsplit_once_Some [OF assms(1)] assms(2) by (simp add: count_list_0_iff)

lemma count_before_char: "colons (before_char c s) \<le> colons s"
  unfolding before_char_def
  by (metis count_list_append le_add1 takeWhile_dropWhile_id)

lemma bracket_content_None: "colons a \<le> 1 \<Longrightarrow> bracket_content a = None"
proof -
  assume a: "colons a \<le> 1"
  have "parse_ipv6 (before_char c rest) = None" if "strip_prefix a ''['' = Some rest" for c rest
  proof -
    have "colons (before_char c rest) \<le> 1"
      using that a count_before_char [of c rest] by (auto simp: str_simps)
    then show ?thesis using parse_ipv6_colons [of "before_char c rest"] by fastforce
  qed
  then show ?thesis by (auto simp: bracket_content_def Let_def split: option.split)
qed

lemma deny_host_of_plain:
  assumes "\<not> is_bracketed_ipv6 authority"
    and "(case rsplit_once (CHR '':'') authority of Some (h, _) \<Rightarrow> h | None \<Rightarrow> authority) = host"
    and "CHR '':'' \<notin> set host"
  shows "deny_host_of authority = host"
proof -
  have one: "colons authority \<le> 1"
    using assms(2,3) colons_of_rsplit [of authority]
    by (cases "rsplit_once (CHR '':'') authority")
      (auto simp: rsplit_once_None count_list_0_iff split: prod.splits)
  then have none: "parse_ipv6 authority = None" using parse_ipv6_colons [of authority] by fastforce
  have hostnone: "parse_ipv6 host = None"
    using parse_ipv6_colons [of host] assms(3) by (force simp: count_list_0_iff)
  show ?thesis
  proof (cases "rsplit_once (CHR '':'') authority")
    case None
    then have "CHR '':'' \<notin> set authority" by (simp add: rsplit_once_None)
    then show ?thesis using None assms(2) one
      by (simp add: deny_host_of_def bracket_content_None none before_char_absent)
  next
    case (Some hp)
    obtain h p where hp: "hp = (h, p)" by (cases hp)
    then have "h = host" using assms(2) Some by simp
    moreover have auth: "authority = h @ CHR '':'' # p" using rsplit_once_Some Some hp by blast
    ultimately have "before_char (CHR '':'') authority = host"
      using assms(3) by (simp add: before_char_append)
    then show ?thesis using Some hp one \<open>h = host\<close> hostnone
      by (simp add: deny_host_of_def bracket_content_None none)
  qed
qed

lemma ascii_lower_char_symbol:
  "ascii_lower_char c = CHR ''.'' \<longleftrightarrow> c = CHR ''.''"
  "ascii_lower_char c = CHR ''%'' \<longleftrightarrow> c = CHR ''%''"
  by (auto simp: ascii_lower_char_def Let_def of_char_of split: if_splits dest: arg_cong [of _ _ "of_char :: char \<Rightarrow> nat"])

lemma trim_ascii_lower:
  "trim_end_matches (CHR ''.'') (ascii_lower s) = ascii_lower (trim_end_matches (CHR ''.'') s)"
  by (simp add: ascii_lower_def rev_map dropWhile_map comp_def ascii_lower_char_symbol)

lemma trim_trim: "trim_end_matches c (trim_end_matches c s) = trim_end_matches c s"
  by (simp add: dropWhile_idem)

lemma ascii_lower_ascii: "is_ascii_text s \<Longrightarrow> is_ascii_text (ascii_lower s)"
  by (auto simp: is_ascii_text_def ascii_lower_def list_all_iff ascii_lower_char_def Let_def of_char_of)

lemma set_trim: "set (trim_end_matches c s) \<subseteq> set s"
  by (auto dest: set_dropWhileD)

lemma canonical_host_lower:
  assumes "plain_host h"
  shows "canonicalize_pattern_host ue (ascii_lower (trim_end_matches (CHR ''.'') h))
       = canonicalize_pattern_host ue h"
proof -
  let ?t = "trim_end_matches (CHR ''.'') h"
  have t: "is_ascii_text ?t" "CHR ''%'' \<notin> set ?t"
    using assms set_trim [of "CHR ''.''" h] by (auto simp: plain_host_def is_ascii_text_def list_all_iff simp del: trim_end_matches.simps)
  moreover have "is_ascii_text (ascii_lower ?t)" using t(1) by (rule ascii_lower_ascii)
  moreover have "CHR ''%'' \<notin> set (ascii_lower ?t)"
  proof
    assume "CHR ''%'' \<in> set (ascii_lower ?t)"
    then obtain c where "c \<in> set ?t" and "ascii_lower_char c = CHR ''%''"
      unfolding ascii_lower_def by (metis image_iff list.set_map)
    with t(2) show False by (simp only: ascii_lower_char_symbol)
  qed
  ultimately show ?thesis
    by (simp add: canonicalize_pattern_host_def Let_def trim_ascii_lower trim_trim ascii_lower_idem
        del: trim_end_matches.simps)
qed

lemma bracketed_has_colon:
  assumes "is_bracketed_ipv6 a"
  shows "CHR '':'' \<in> set a"
proof -
  from assms obtain rest addr x where a: "a = ''['' @ rest"
    and s: "split_once (CHR '']'') rest = Some (addr, x)" and ip: "parse_ipv6 addr \<noteq> None"
    by (auto simp: is_bracketed_ipv6_def bind_eq_Some_conv str_simps split: option.splits)
  from parse_ipv6_colons [OF ip] have "CHR '':'' \<in> set addr"
    by (metis count_notin not_numeral_le_zero)
  moreover have "set addr \<subseteq> set rest"
    using s by (auto simp: split_once_def before_char_def split: list.splits dest: set_takeWhileD)
  ultimately show ?thesis unfolding a by auto
qed

lemma split_allow_pattern_host:
  assumes "CHR '':'' \<notin> set (ap_host (split_allow_pattern p))"
  shows "deny_host_of (after_userinfo (fst (split_authority_path (snd (split_scheme p)))))
           = ap_host (split_allow_pattern p)"
proof -
  let ?a = "after_userinfo (fst (split_authority_path (snd (split_scheme p))))"
  have host: "ap_host (split_allow_pattern p) =
      (if is_bracketed_ipv6 ?a then ?a
       else (case rsplit_once (CHR '':'') ?a of Some (h, _) \<Rightarrow> h | None \<Rightarrow> ?a))"
    by (simp add: split_allow_pattern_def Let_def split: prod.splits option.splits)
  with assms have "\<not> is_bracketed_ipv6 ?a" using bracketed_has_colon [of ?a] by auto
  then show ?thesis using host assms deny_host_of_plain by (metis (no_types, lifting))
qed

lemma split_allow_pattern_path:
  "ap_path (split_allow_pattern p) = snd (split_authority_path (snd (split_scheme p)))"
  by (simp add: split_allow_pattern_def Let_def split: prod.splits option.splits)

lemma allow_match_host:
  assumes "allow_url_matches ue (allow_url_new ue p) url"
    and "CHR '':'' \<notin> set (ap_host (split_allow_pattern p))"
  obtains runtime where "runtime_parse ue url = Some runtime"
    and "glob_ok ue (canonicalize_pattern_host ue (ap_host (split_allow_pattern p)))"
    and "ue_glob_matches ue (canonicalize_pattern_host ue (ap_host (split_allow_pattern p)))
           (host_text runtime) False"
proof -
  have nb: "\<not> ap_bracketed_ipv6 (split_allow_pattern p)"
    using assms(2) bracketed_has_colon
    by (auto simp: split_allow_pattern_def Let_def split: prod.splits option.splits if_splits)
  show thesis
    using assms(1) nb that
    by (auto simp: allow_url_matches_def allow_url_new_def allow_authority_matches_def Let_def
        split: option.splits if_splits)
qed

text \<open>
  Whatever URL an allow entry for a host grants is denied by the deny entry of the same text:
  the host is the same whatever the scheme, the port or the userinfo of the text, and a deny looks
  at neither. The host is plain ASCII with no colon of its own, it is not an address, and the entry
  has no path; an unbracketed IPv6 text is outside, and does break this (below).
\<close>

theorem deny_covers_allow:
  assumes "allow_url_matches ue (allow_url_new ue p) url"
    and "plain_host (ap_host (split_allow_pattern p))"
    and "ap_path (split_allow_pattern p) \<in> {[], ''/''}"
    and "parse_ip_host ue (ascii_lower (trim_end_matches (CHR ''.'') (ap_host (split_allow_pattern p))))
         = None"
  shows "deny_url_matches ue (deny_url_new ue p) url"
proof -
  let ?h = "ap_host (split_allow_pattern p)"
  let ?t = "ascii_lower (trim_end_matches (CHR ''.'') ?h)"
  have colon: "CHR '':'' \<notin> set ?h" and ne: "?t \<noteq> []"
    using assms(2) by (auto simp: plain_host_def ascii_lower_def simp del: trim_end_matches.simps)
  have split: "split_host_path p = (Some ?t, ap_path (split_allow_pattern p))"
    using split_allow_pattern_host [OF colon] ne
    by (cases "split_authority_path (snd (split_scheme p))")
      (simp add: split_host_path_def split_allow_pattern_path Let_def del: trim_end_matches.simps)
  have path: "deny_path_new ue (ap_path (split_allow_pattern p)) = DenyHostOnly"
    using assms(3) by (auto simp: deny_path_new_def canonicalize_pattern_path_def
      resolve_pattern_dot_segments_def find_sub_def collapse_empty_segments_def drop_slash_step_def
      ends_with_def needs_encoding_def Let_def)
  obtain runtime where r: "runtime_parse ue url = Some runtime"
    and ok: "glob_ok ue (canonicalize_pattern_host ue ?h)"
    and m: "ue_glob_matches ue (canonicalize_pattern_host ue ?h) (host_text runtime) False"
    using allow_match_host [OF assms(1) colon] .
  show ?thesis
    using ok m assms(4) canonical_host_lower [OF assms(2)]
    by (simp add: deny_url_matches_def deny_url_new_def split path r Let_def
        del: trim_end_matches.simps)
qed

text \<open>A parser that knows one URL and a glob that compares texts, for the concrete inputs.\<close>

definition sample_urls :: url_env where
  "sample_urls =
     \<lparr>ue_url_parse = (\<lambda>u. if u = ''https://api.example:8443/mcp''
        then Some \<lparr>pu_scheme = ''https'', pu_host = Some (HostDomain ''api.example''),
                   pu_port = Some 8443, pu_path = ''/mcp''\<rparr> else None),
      ue_host_parse = (\<lambda>_. None), ue_glob_error = (\<lambda>_. None),
      ue_glob_matches = (\<lambda>p t _. p = t), ue_lowercase = ascii_lower\<rparr>"

lemma parse_ipv6_few: "colons s < 2 \<Longrightarrow> parse_ipv6 s = None"
  using parse_ipv6_colons [of s] by fastforce

lemma replicate_eq: "replicate (numeral n) x = x # replicate (pred_numeral n) x"
  by (simp add: numeral_eq_Suc)

lemmas read_groups_numeral =
  read_groups.simps(2) [of "pred_numeral n", folded numeral_eq_Suc] for n
lemmas read_octets_numeral =
  read_octets.simps(2) [of "pred_numeral n", folded numeral_eq_Suc] for n

text \<open>Evaluation of the address parser, and of an allow entry, by rewriting.\<close>

lemmas ipv6_eval = parse_ipv6_def read_ipv6_def read_groups_numeral read_octets_numeral
  read_separator_def read_number_def digit_of_def hex_val_def replicate_eq

lemmas allow_eval = allow_url_matches_def allow_url_new_def Let_def
  runtime_parse_def allow_scheme_new_def eq_ignore_ascii_case_def has_glob_char_def
  allow_authority_matches_def allow_port_ok_def parse_u16_def is_ascii_digit_def glob_ok_def
  canonicalize_pattern_host_def is_ascii_text_def host_text_def ascii_lower_def ascii_lower_char_def
  allow_path_new_def canonicalize_pattern_path_def resolve_pattern_dot_segments_def find_sub_def
  needs_encoding_def starts_with_def scheme_default_port_def char_of_eq_iff take_bit_eq_mod

lemma sample_split:
  "split_scheme ''https://API.example.:08443/'' = (Some ''https'', ''API.example.:08443/'')"
  "split_allow_pattern ''https://API.example.:08443/'' =
     \<lparr>ap_scheme = Some ''https'', ap_authority = ''API.example.:08443'', ap_bracketed_ipv6 = False,
      ap_host = ''API.example.'', ap_port = Some ''08443'', ap_path = ''/''\<rparr>"
  by code_simp+

lemma sample_lower: "ascii_lower ''API.example'' = ''api.example''" "ascii_lower ''2001'' = ''2001''"
  by code_simp+

theorem deny_covers_allow_witness:
  "allow_url_matches sample_urls (allow_url_new sample_urls ''https://API.example.:08443/'')
       ''https://api.example:8443/mcp''
   \<and> deny_url_matches sample_urls (deny_url_new sample_urls ''https://API.example.:08443/'')
       ''https://api.example:8443/mcp''"
proof -
  have allow: "allow_url_matches sample_urls (allow_url_new sample_urls ''https://API.example.:08443/'')
       ''https://api.example:8443/mcp''"
    by (simp add: allow_eval sample_split sample_urls_def)
  have "plain_host (ap_host (split_allow_pattern ''https://API.example.:08443/''))"
    unfolding sample_split by (simp only: allow_parts.simps) code_simp
  moreover have "parse_ip_host sample_urls (ascii_lower (trim_end_matches (CHR ''.'')
      (ap_host (split_allow_pattern ''https://API.example.:08443/'')))) = None"
    by (simp add: sample_split parse_ip_host_def parse_ipv6_few sample_urls_def sample_lower)
  ultimately show ?thesis using allow deny_covers_allow by (simp add: sample_split)
qed

subsection \<open>Two entries whose behaviour differs from the comments\<close>

text \<open>The lint calls an upper-case IPv6 host dead, and the matcher grants it.\<close>

definition ipv6_urls :: url_env where
  "ipv6_urls = sample_urls
     \<lparr>ue_url_parse := (\<lambda>u. if u = ''https://[2001:db8::1]/''
        then Some \<lparr>pu_scheme = ''https'', pu_host = Some (HostIpv6 [0x2001, 0xdb8, 0, 0, 0, 0, 0, 1]),
                   pu_port = None, pu_path = ''/''\<rparr> else None),
      ue_host_parse := (\<lambda>h. if h = ''2001'' then Some (HostIpv4 [0, 0, 7, 209]) else None),
      ue_glob_matches := (\<lambda>p t _. if p \<noteq> [] \<and> last p = CHR ''*'' then starts_with t (butlast p)
                                   else p = t)\<rparr>"

lemma upper_case_split:
  "split_allow_pattern ''https://2001:DB8::1:443'' =
     \<lparr>ap_scheme = Some ''https'', ap_authority = ''2001:DB8::1:443'', ap_bracketed_ipv6 = False,
      ap_host = ''2001:DB8::1'', ap_port = Some ''443'', ap_path = []\<rparr>"
  "split_allow_pattern ''https://2001:db8*:443'' =
     \<lparr>ap_scheme = Some ''https'', ap_authority = ''2001:db8*:443'', ap_bracketed_ipv6 = False,
      ap_host = ''2001:db8*'', ap_port = Some ''443'', ap_path = []\<rparr>"
  by code_simp+

lemma upper_case_address:
  "parse_ipv6 ''2001:DB8::1'' = Some [0x2001, 0xdb8, 0, 0, 0, 0, 0, 1]"
  by (simp add: ipv6_eval)

lemma address_text: "ipv6_text [0x2001, 0xdb8, 0, 0, 0, 0, 0, 1] = ''2001:db8::1''"
  by (simp add: ipv6_text_def to_ipv4_mapped_def groups_text_def hex_nat.simps hex_digit_def
      char_of_eq_iff take_bit_eq_mod)

lemma upper_case_ipv6_lint_is_wrong:
  "warn_on_unmatchable_allow_url ipv6_urls ''https://2001:DB8::1:443''
     = Some (Ipv6NotCanonical [0x2001, 0xdb8, 0, 0, 0, 0, 0, 1])
   \<and> allow_url_matches ipv6_urls (allow_url_new ipv6_urls ''https://2001:DB8::1:443'')
       ''https://[2001:db8::1]/''"
proof
  show "warn_on_unmatchable_allow_url ipv6_urls ''https://2001:DB8::1:443''
     = Some (Ipv6NotCanonical [0x2001, 0xdb8, 0, 0, 0, 0, 0, 1])"
    by (simp add: warn_on_unmatchable_allow_url_def upper_case_split upper_case_address address_text
        allow_scheme_new_def has_glob_char_def Let_def)
  show "allow_url_matches ipv6_urls (allow_url_new ipv6_urls ''https://2001:DB8::1:443'')
       ''https://[2001:db8::1]/''"
    by (simp add: allow_eval upper_case_split address_text ipv6_urls_def sample_urls_def)
qed

text \<open>
  A deny entry for a range of unbracketed IPv6 addresses passes the lint of unenforceable entries
  and denies none of them, while an allow entry with the same host grants them.
\<close>

lemma address_of_text: "parse_ipv6 ''2001:db8::1'' = Some [0x2001, 0xdb8, 0, 0, 0, 0, 0, 1]"
  by (simp add: ipv6_eval)

lemma unbracketed_split: "split_host_path ''https://2001:db8*:443'' = (Some ''2001'', [])"
proof -
  have "parse_ipv6 ''2001:db8*:443'' = None" and "parse_ipv6 ''2001:db8*'' = None"
    by (simp_all add: ipv6_eval)
  moreover have "split_scheme ''https://2001:db8*:443'' = (Some ''https'', ''2001:db8*:443'')"
    by code_simp
  ultimately show ?thesis
    by (simp add: split_host_path_def split_authority_path_def after_userinfo_def deny_host_of_def
        bracket_content_def rsplit_once_def before_char_def Let_def sample_lower)
qed

lemma unbracketed_ipv6_deny_is_empty:
  "\<not> warn_on_unmatchable_deny_url ipv6_urls ''https://2001:db8*:443''
   \<and> allow_url_matches ipv6_urls (allow_url_new ipv6_urls ''https://2001:db8*:443'')
       ''https://[2001:db8::1]/''
   \<and> \<not> deny_url_matches ipv6_urls (deny_url_new ipv6_urls ''https://2001:db8*:443'')
       ''https://[2001:db8::1]/''"
proof (intro conjI)
  show "\<not> warn_on_unmatchable_deny_url ipv6_urls ''https://2001:db8*:443''"
    by (simp add: warn_on_unmatchable_deny_url_def unbracketed_split glob_ok_def ipv6_urls_def
        sample_urls_def dead_unicode_glob_label_def is_ascii_text_def)
  show "allow_url_matches ipv6_urls (allow_url_new ipv6_urls ''https://2001:db8*:443'')
       ''https://[2001:db8::1]/''"
    by (simp add: allow_eval upper_case_split address_text ipv6_urls_def sample_urls_def)
  have "parse_ipv6 ''2001'' = None" by (simp add: parse_ipv6_few)
  then show "\<not> deny_url_matches ipv6_urls (deny_url_new ipv6_urls ''https://2001:db8*:443'')
       ''https://[2001:db8::1]/''"
    by (simp add: deny_url_matches_def deny_url_new_def unbracketed_split runtime_parse_def
        host_text_def address_text parse_ip_host_def address_of_text ipv6_urls_def sample_urls_def
        Let_def to_ipv4_mapped_def)
qed

subsection \<open>Dot segments of a pattern path\<close>

definition dot_free :: "string \<Rightarrow> bool" where
  "dot_free p = list_all (\<lambda>seg. seg \<noteq> ''.'' \<and> seg \<noteq> ''..'') (split_char (CHR ''/'') p)"

lemma upper_hex_digit_plain: "d < 16 \<Longrightarrow> upper_hex_digit d \<noteq> CHR ''/''"
  by (auto simp: upper_hex_digit_def dest: arg_cong [of _ _ "of_char :: char \<Rightarrow> nat"])

lemma encode_byte_slash: "CHR ''/'' \<in> set (encode_byte c) \<longleftrightarrow> c = CHR ''/''"
proof -
  have "(of_char c :: nat) < 256" by simp
  then have "upper_hex_digit (of_char c div 16) \<noteq> CHR ''/''"
    "upper_hex_digit (of_char c mod 16) \<noteq> CHR ''/''"
    by (auto intro!: upper_hex_digit_plain less_mult_imp_div_less)
  then show ?thesis by (auto simp: encode_byte_def Let_def needs_encoding_def)
qed

lemma split_encode:
  "split_char (CHR ''/'') (concat (map encode_byte s))
     = map (\<lambda>w. concat (map encode_byte w)) (split_char (CHR ''/'') s)"
proof (induction s)
  case (Cons c s)
  show ?case
  proof (cases "c = CHR ''/''")
    case True
    have "encode_byte (CHR ''/'') = ''/''" by code_simp
    then show ?thesis using Cons True by simp
  next
    case False
    have app: "split_char (CHR ''/'') (a @ b)
        = (a @ hd (split_char (CHR ''/'') b)) # tl (split_char (CHR ''/'') b)"
      if "CHR ''/'' \<notin> set a" for a b
      using that by (induction a) (auto split: list.splits)
    show ?thesis
      using Cons False app [of "encode_byte c" "concat (map encode_byte s)"] encode_byte_slash [of c]
      by (cases "split_char (CHR ''/'') s") auto
  qed
qed simp

lemma encode_unescaped:
  "CHR ''%'' \<notin> set (concat (map encode_byte w)) \<Longrightarrow> concat (map encode_byte w) = w"
  by (induction w) (auto simp: encode_byte_def Let_def split: if_splits)

lemma dot_free_encode: "dot_free s \<Longrightarrow> dot_free (concat (map encode_byte s))"
proof -
  assume s: "dot_free s"
  have "concat (map encode_byte w) \<noteq> ''.'' \<and> concat (map encode_byte w) \<noteq> ''..''"
    if "w \<in> set (split_char (CHR ''/'') s)" for w
  proof -
    have "w \<noteq> ''.'' \<and> w \<noteq> ''..''" using that s by (simp add: dot_free_def list_all_iff)
    moreover have "concat (map encode_byte w) = w" if "CHR ''%'' \<notin> set (concat (map encode_byte w))"
      using that by (rule encode_unescaped)
    ultimately show ?thesis by fastforce
  qed
  then show ?thesis by (simp add: dot_free_def split_encode list_all_iff)
qed

lemma split_hd_part: "split_char c s = v # vs \<Longrightarrow> \<exists>b. s = v @ b"
proof (induction c s arbitrary: v vs rule: split_char.induct)
  case (2 c d s)
  then show ?case by (cases "split_char c s") (auto split: if_splits)
qed simp

lemma split_tl_part:
  "w \<in> set (tl (split_char c s)) \<Longrightarrow> \<exists>a b. s = a @ c # w @ b"
proof (induction c s rule: split_char.induct)
  case (2 c d s)
  show ?case
  proof (cases "d = c")
    case True
    obtain v vs where v: "split_char c s = v # vs" by (cases "split_char c s") auto
    show ?thesis
    proof (cases "w \<in> set vs")
      case True
      then obtain a b where "s = a @ c # w @ b" using 2(1) \<open>d = c\<close> v by auto
      then show ?thesis by (metis append_Cons)
    next
      case False
      then have "w = v" using 2 v True by auto
      moreover have "\<exists>b. s = v @ b"
        using v by (rule split_hd_part)
      ultimately show ?thesis using True by (metis append_Nil)
    qed
  next
    case False
    then obtain a b where "s = a @ c # w @ b"
      using 2 by (cases "split_char c s") auto
    then show ?thesis by (metis append_Cons)
  qed
qed simp

lemma starts_slash_split:
  "starts_with s ''/'' \<Longrightarrow> split_char (CHR ''/'') s = [] # tl (split_char (CHR ''/'') s)"
  by (cases s) auto

lemma no_dot_slash_dot_free:
  assumes "starts_with s ''/''" and "find_sub s ''/.'' = None"
  shows "dot_free s"
proof -
  have "w \<noteq> ''.'' \<and> w \<noteq> ''..''" if "w \<in> set (tl (split_char (CHR ''/'') s))" for w
  proof -
    from split_tl_part [OF that] obtain a b where s: "s = a @ CHR ''/'' # w @ b" by blast
    have "w = CHR ''.'' # v \<Longrightarrow> False" for v
      using assms(2) find_sub_middle [of a "''/.''" "v @ b"] s by simp
    then show ?thesis by blast
  qed
  then have "list_all (\<lambda>w. w \<noteq> ''.'' \<and> w \<noteq> ''..'') ([] # tl (split_char (CHR ''/'') s))"
    by (simp add: list_all_iff)
  then show ?thesis unfolding dot_free_def by (subst starts_slash_split [OF assms(1)])
qed

definition dot_free_parts :: "string list \<Rightarrow> bool" where
  "dot_free_parts out \<longleftrightarrow> (\<forall>w \<in> set out. w \<noteq> ''.'' \<and> w \<noteq> ''..'' \<and> CHR ''/'' \<notin> set w)"

lemma dot_segment_step_free:
  "dot_free_parts out \<Longrightarrow> CHR ''/'' \<notin> set seg \<Longrightarrow> dot_free_parts (dot_segment_step out seg)"
  by (auto simp: dot_free_parts_def dot_segment_step_def dest: in_set_butlastD)

lemma dot_segment_step_nonempty: "out \<noteq> [] \<Longrightarrow> dot_segment_step out seg \<noteq> []"
  by (cases out rule: rev_cases) (auto simp: dot_segment_step_def)

lemma dot_segments_free:
  "dot_free_parts out \<Longrightarrow> \<forall>w \<in> set segs. CHR ''/'' \<notin> set w \<Longrightarrow>
     dot_free_parts (foldl dot_segment_step out segs)"
  by (induction segs arbitrary: out) (auto simp: dot_segment_step_free)

lemma dot_segments_nonempty: "out \<noteq> [] \<Longrightarrow> foldl dot_segment_step out segs \<noteq> []"
  by (induction segs arbitrary: out) (auto simp: dot_segment_step_nonempty)

lemma dot_free_slash: "dot_free s \<Longrightarrow> dot_free (s @ ''/'')"
  by (simp add: dot_free_def split_char_append)

lemma resolve_dot_free:
  assumes "starts_with s ''/''"
  shows "dot_free (resolve_pattern_dot_segments s)"
proof (cases "find_sub s ''/.'' = None")
  case True
  then show ?thesis using no_dot_slash_dot_free [OF assms] by (simp add: resolve_pattern_dot_segments_def)
next
  case False
  let ?segs = "split_char (CHR ''/'') s"
  let ?out = "foldl dot_segment_step [] ?segs"
  let ?joined = "if join_with ''/'' ?out = [] then ''/'' else join_with ''/'' ?out"
  have out: "?out = foldl dot_segment_step [[]] (tl ?segs)"
    by (subst starts_slash_split [OF assms]) (simp add: dot_segment_step_def)
  have parts: "dot_free_parts ?out"
    by (rule dot_segments_free) (auto simp: dot_free_parts_def dest: split_char_parts)
  moreover have "?out \<noteq> []" unfolding out by (rule dot_segments_nonempty) simp
  ultimately have "dot_free (join_with ''/'' ?out)"
    using split_join [of ?out "CHR ''/''"] by (auto simp: dot_free_parts_def dot_free_def list_all_iff)
  moreover have "dot_free ''/''" by code_simp
  ultimately have joined: "dot_free ?joined" by simp
  have "dot_free (resolve_pattern_dot_segments s) \<longleftrightarrow>
      dot_free (if last ?segs \<in> {''.'', ''..''} \<and> \<not> ends_with ?joined ''/''
                then ?joined @ ''/'' else ?joined)"
    unfolding resolve_pattern_dot_segments_def Let_def if_not_P [OF False] by (rule refl)
  then show ?thesis
    using joined dot_free_slash [of ?joined]
    by (cases "last ?segs \<in> {''.'', ''..''} \<and> \<not> ends_with ?joined ''/''") (simp_all only: if_True if_False simp_thms)
qed

lemma decode_keeps_slash:
  "starts_with s ''/'' \<Longrightarrow> starts_with (decode_unreserved_escapes s) ''/''"
  by (cases s rule: decode_unreserved_escapes.cases) auto

lemma canonical_path_dot_free:
  assumes "p = [] \<or> starts_with p ''/''"
  shows "dot_free (canonicalize_pattern_path p)"
proof (cases "p = []")
  case True
  then show ?thesis by (simp only:) code_simp
next
  case False
  then have "dot_free (resolve_pattern_dot_segments (decode_unreserved_escapes p))"
    using assms resolve_dot_free decode_keeps_slash by blast
  then show ?thesis by (simp add: canonicalize_pattern_path_def Let_def dot_free_encode)
qed

lemma split_path_slash:
  "snd (split_authority_path s) = [] \<or> starts_with (snd (split_authority_path s)) ''/''"
  using hd_dropWhile [of "\<lambda>c. c \<noteq> CHR ''/''" s]
  by (cases "dropWhile (\<lambda>c. c \<noteq> CHR ''/'') s") (auto simp: split_authority_path_def)

text \<open>
  The path an entry is compiled with has no dot segment left, for allow and deny entries and
  every text, escaped dots included: what it scopes to is the path the server sees.
\<close>

theorem entry_path_is_dot_free:
  "dot_free (canonicalize_pattern_path (ap_path (split_allow_pattern pattern)))
   \<and> dot_free (canonicalize_pattern_path (snd (split_host_path pattern)))"
proof -
  have "snd (split_host_path pattern) = snd (split_authority_path (snd (split_scheme pattern)))"
    by (simp add: split_host_path_def Let_def split: prod.splits)
  then show ?thesis
    using canonical_path_dot_free split_path_slash [of "snd (split_scheme pattern)"]
    by (simp add: split_allow_pattern_path)
qed

end
