(* ===== verification/GB_McpPolicy.thy ===== *)
theory GB_McpPolicy
  imports GB_PolicyUrl
begin

section \<open>MCP servers and marketplaces under the managed policy (permission/managed_policy)\<close>

text \<open>
  The layers a policy comes from (layer.rs), the allow and deny lists of one source and the policy
  over all sources (mcp.rs), the marketplaces (marketplace.rs). A source binds the definitions of
  the product itself only when it is native; a grant is accepted by a restriction of an
  administrator only from a layer of an administrator. Paths and commands are byte strings.
\<close>

subsection \<open>Layers\<close>

datatype policy_layer_tier =
  TierMdm | TierSystemRequirements | TierSystemManaged | TierUserRequirements | TierUserManaged
| TierVendor

datatype policy_source_authority = Native | Advisory
datatype policy_layer_ownership = OwnerAdmin | OwnerUser

fun tier_authority :: "policy_layer_tier \<Rightarrow> policy_source_authority" where
  "tier_authority TierVendor = Advisory"
| "tier_authority _ = Native"

fun tier_ownership :: "policy_layer_tier \<Rightarrow> policy_layer_ownership" where
  "tier_ownership TierUserRequirements = OwnerUser"
| "tier_ownership TierUserManaged = OwnerUser"
| "tier_ownership _ = OwnerAdmin"

text \<open>The derived order of the tiers.\<close>

fun tier_rank :: "policy_layer_tier \<Rightarrow> nat" where
  "tier_rank TierMdm = 0"
| "tier_rank TierSystemRequirements = 1"
| "tier_rank TierSystemManaged = 2"
| "tier_rank TierUserRequirements = 3"
| "tier_rank TierUserManaged = 4"
| "tier_rank TierVendor = 5"

datatype policy_pin = Unpinned | PinDisabled path policy_layer_ownership

fun pin_is_disabled :: "policy_pin \<Rightarrow> bool" where
  "pin_is_disabled Unpinned = False"
| "pin_is_disabled (PinDisabled _ _) = True"

fun pin_source :: "policy_pin \<Rightarrow> path option" where
  "pin_source Unpinned = None"
| "pin_source (PinDisabled source _) = Some source"

definition accepts_grant_from :: "policy_layer_ownership \<Rightarrow> policy_layer_ownership \<Rightarrow> bool" where
  "accepts_grant_from restriction grant \<longleftrightarrow> restriction = OwnerUser \<or> grant = OwnerAdmin"

subsection \<open>Servers and entries\<close>

datatype policy_subject_origin = GrokNative | ForeignOrigin

datatype mcp_server_def =
    ServerHttp string string
  | ServerSse string string
  | ServerStdio string string "string list"
  | ServerUnknown

fun mcp_server_name :: "mcp_server_def \<Rightarrow> string" where
  "mcp_server_name (ServerHttp name _) = name"
| "mcp_server_name (ServerSse name _) = name"
| "mcp_server_name (ServerStdio name _ _) = name"
| "mcp_server_name ServerUnknown = []"

fun server_url :: "mcp_server_def \<Rightarrow> string option" where
  "server_url (ServerHttp _ url) = Some url"
| "server_url (ServerSse _ url) = Some url"
| "server_url _ = None"

datatype allowed_mcp_server =
    EntryHttp string
  | EntryStdio string
  | EntryStdioArgv "string list"
  | EntryName string

definition MANAGED_MCP_PREFIX :: string where
  "MANAGED_MCP_PREFIX = ''grok_com_''"

definition MANAGED_MCP_NAME_MAX_CHARS :: nat where
  "MANAGED_MCP_NAME_MAX_CHARS = 39"

definition normalize_managed_name :: "url_env \<Rightarrow> string \<Rightarrow> string" where
  "normalize_managed_name ue bare =
     map (\<lambda>c. if c = CHR '' '' then CHR ''_'' else c) (ue_lowercase ue bare)"

definition mcp_name_key :: "url_env \<Rightarrow> string \<Rightarrow> string" where
  "mcp_name_key ue s =
     normalize_managed_name ue
       (case strip_prefix s MANAGED_MCP_PREFIX of Some bare \<Rightarrow> bare | None \<Rightarrow> s)"

definition truncate_name_key :: "string \<Rightarrow> string" where
  "truncate_name_key key =
     take (char_index_or (length key) key
             (MANAGED_MCP_NAME_MAX_CHARS - length MANAGED_MCP_PREFIX)) key"

definition mcp_name_matches :: "url_env \<Rightarrow> string \<Rightarrow> string \<Rightarrow> bool" where
  "mcp_name_matches ue pattern name =
     (let pattern_key = mcp_name_key ue pattern;
          name_key = mcp_name_key ue name;
          truncated = starts_with name MANAGED_MCP_PREFIX
                      \<and> char_count name = MANAGED_MCP_NAME_MAX_CHARS;
          pattern_key = (if truncated then truncate_name_key pattern_key else pattern_key);
          name_key = (if truncated then truncate_name_key name_key else name_key)
      in pattern_key \<noteq> [] \<and> pattern_key = name_key)"

definition mcp_entry_matches :: "url_env \<Rightarrow> allowed_mcp_server \<Rightarrow> mcp_server_def \<Rightarrow> bool" where
  "mcp_entry_matches ue entry server =
     (case (entry, server) of
        (EntryName name, _) \<Rightarrow> mcp_name_matches ue name (mcp_server_name server)
      | (EntryStdio command, ServerStdio _ server_command _) \<Rightarrow> command = server_command
      | (EntryStdioArgv argv, ServerStdio _ server_command args) \<Rightarrow>
          argv_matches argv server_command args
      | _ \<Rightarrow> False)"

definition mcp_entry_restricts :: "allowed_mcp_server \<Rightarrow> mcp_server_def \<Rightarrow> bool" where
  "mcp_entry_restricts entry server =
     (if server = ServerUnknown then True
      else (case entry of
              EntryName _ \<Rightarrow> True
            | EntryHttp _ \<Rightarrow> server_url server \<noteq> None
            | _ \<Rightarrow> (case server of ServerStdio _ _ _ \<Rightarrow> True | _ \<Rightarrow> False)))"

subsection \<open>The lists of one source\<close>

record 'm mcp_entry =
  mce_entry :: allowed_mcp_server
  mce_url_matcher :: "'m option"

fun compile_entry :: "(string \<Rightarrow> 'm) \<Rightarrow> allowed_mcp_server \<Rightarrow> 'm mcp_entry" where
  "compile_entry compile (EntryHttp url_pattern) =
     \<lparr>mce_entry = EntryHttp url_pattern, mce_url_matcher = Some (compile url_pattern)\<rparr>"
| "compile_entry compile entry = \<lparr>mce_entry = entry, mce_url_matcher = None\<rparr>"

definition compile_entries :: "allowed_mcp_server list \<Rightarrow> (string \<Rightarrow> 'm) \<Rightarrow> 'm mcp_entry list" where
  "compile_entries entries compile = map (compile_entry compile) entries"

record mcp_allowlist =
  al_entries :: "compiled_allow option mcp_entry list"
  al_deny_entries :: "compiled_deny option mcp_entry list"
  al_managed_only :: bool
  al_lockdown :: bool
  al_ownership :: policy_layer_ownership
  al_source_path :: "path option"
  al_authority :: policy_source_authority

definition mcp_allowlist_new ::
    "url_env \<Rightarrow> allowed_mcp_server list \<Rightarrow> allowed_mcp_server list \<Rightarrow> path option \<Rightarrow> mcp_allowlist" where
  "mcp_allowlist_new ue entries deny_entries source_path =
     \<lparr>al_entries = compile_entries entries (allow_url_new ue),
      al_deny_entries = compile_entries deny_entries (deny_url_new ue),
      al_managed_only = False, al_lockdown = False, al_ownership = OwnerUser,
      al_source_path = source_path, al_authority = Native\<rparr>"

definition with_managed_only :: "mcp_allowlist \<Rightarrow> mcp_allowlist" where
  "with_managed_only s = s\<lparr>al_managed_only := True\<rparr>"

definition with_lockdown :: "mcp_allowlist \<Rightarrow> mcp_allowlist" where
  "with_lockdown s = s\<lparr>al_lockdown := True\<rparr>"

definition with_authority :: "policy_source_authority \<Rightarrow> mcp_allowlist \<Rightarrow> mcp_allowlist" where
  "with_authority a s = s\<lparr>al_authority := a\<rparr>"

definition with_ownership :: "policy_layer_ownership \<Rightarrow> mcp_allowlist \<Rightarrow> mcp_allowlist" where
  "with_ownership o' s = s\<lparr>al_ownership := o'\<rparr>"

definition mcp_source_binds :: "policy_subject_origin \<Rightarrow> mcp_allowlist \<Rightarrow> bool" where
  "mcp_source_binds origin s \<longleftrightarrow> al_authority s = Native \<or> origin = ForeignOrigin"

definition mcp_source_restricted :: "mcp_allowlist \<Rightarrow> bool" where
  "mcp_source_restricted s \<longleftrightarrow>
     al_lockdown s \<or> al_managed_only s \<or> al_entries s \<noteq> [] \<or> al_deny_entries s \<noteq> []"

definition matches_allow_entry :: "url_env \<Rightarrow> mcp_allowlist \<Rightarrow> mcp_server_def \<Rightarrow> bool" where
  "matches_allow_entry ue s server =
     list_ex (\<lambda>compiled.
       (case mce_url_matcher compiled of
          Some m \<Rightarrow> (case server_url server of Some url \<Rightarrow> allow_url_matches ue m url | None \<Rightarrow> False)
        | None \<Rightarrow> mcp_entry_matches ue (mce_entry compiled) server)) (al_entries s)"

definition source_denies :: "url_env \<Rightarrow> mcp_server_def \<Rightarrow> mcp_allowlist \<Rightarrow> bool" where
  "source_denies ue server s =
     list_ex (\<lambda>compiled.
       (case mce_url_matcher compiled of
          Some m \<Rightarrow> (case server_url server of Some url \<Rightarrow> deny_url_matches ue m url | None \<Rightarrow> False)
        | None \<Rightarrow> mcp_entry_matches ue (mce_entry compiled) server)) (al_deny_entries s)"

definition allows_ignoring_managed_only :: "url_env \<Rightarrow> mcp_server_def \<Rightarrow> mcp_allowlist \<Rightarrow> bool" where
  "allows_ignoring_managed_only ue server s =
     (if al_lockdown s then False
      else if \<not> mcp_source_restricted s then True
      else \<not> list_ex (\<lambda>compiled. mcp_entry_restricts (mce_entry compiled) server) (al_entries s)
           \<or> matches_allow_entry ue s server)"

subsection \<open>The policy over all sources\<close>

type_synonym mcp_policy = "mcp_allowlist list"

definition mcp_is_restricted :: "mcp_policy \<Rightarrow> bool" where
  "mcp_is_restricted sources = list_ex mcp_source_restricted sources"

definition binding_sources :: "policy_subject_origin \<Rightarrow> mcp_policy \<Rightarrow> mcp_allowlist list" where
  "binding_sources origin sources = filter (mcp_source_binds origin) sources"

definition mcp_managed_only :: "policy_subject_origin \<Rightarrow> mcp_policy \<Rightarrow> bool" where
  "mcp_managed_only origin sources = list_ex al_managed_only (binding_sources origin sources)"

definition denying_source ::
    "url_env \<Rightarrow> mcp_policy \<Rightarrow> mcp_server_def \<Rightarrow> policy_subject_origin \<Rightarrow> mcp_allowlist option" where
  "denying_source ue sources server origin =
     find (source_denies ue server) (binding_sources origin sources)"

definition is_server_denied ::
    "url_env \<Rightarrow> mcp_policy \<Rightarrow> mcp_server_def \<Rightarrow> policy_subject_origin \<Rightarrow> bool" where
  "is_server_denied ue sources server origin \<longleftrightarrow> denying_source ue sources server origin \<noteq> None"

definition grants_exception ::
    "url_env \<Rightarrow> mcp_policy \<Rightarrow> mcp_server_def \<Rightarrow> policy_layer_ownership \<Rightarrow> bool" where
  "grants_exception ue sources server restriction =
     list_ex (\<lambda>s. accepts_grant_from restriction (al_ownership s) \<and> matches_allow_entry ue s server)
       sources"

definition blocking_allow_source ::
    "url_env \<Rightarrow> mcp_policy \<Rightarrow> mcp_server_def \<Rightarrow> policy_subject_origin \<Rightarrow> mcp_allowlist option" where
  "blocking_allow_source ue sources server origin =
     (case find (\<lambda>s. al_managed_only s \<and> \<not> grants_exception ue sources server (al_ownership s))
             (binding_sources origin sources) of
        Some s \<Rightarrow> Some s
      | None \<Rightarrow> find (\<lambda>s. \<not> allows_ignoring_managed_only ue server s) (binding_sources origin sources))"

definition is_server_allowed ::
    "url_env \<Rightarrow> mcp_policy \<Rightarrow> mcp_server_def \<Rightarrow> policy_subject_origin \<Rightarrow> bool" where
  "is_server_allowed ue sources server origin \<longleftrightarrow>
     \<not> is_server_denied ue sources server origin
     \<and> blocking_allow_source ue sources server origin = None"

definition mcp_entry_count :: "mcp_policy \<Rightarrow> nat" where
  "mcp_entry_count sources =
     sum_list (map (\<lambda>s. length (al_entries s) + length (al_deny_entries s)) sources)"

definition mcp_source_paths :: "mcp_policy \<Rightarrow> path list" where
  "mcp_source_paths sources = List.map_filter al_source_path sources"

subsection \<open>Marketplaces\<close>

definition normalize_git_url :: "string \<Rightarrow> string" where
  "normalize_git_url url =
     (let url = (case strip_suffix url ''.git'' of Some u \<Rightarrow> u | None \<Rightarrow> url)
      in case split_scheme url of
           (Some scheme, rest) \<Rightarrow>
             (let (authority, path) = split_authority_path rest
              in ascii_lower scheme @ ''://'' @ ascii_lower authority @ path)
         | (None, _) \<Rightarrow>
             (case split_once (CHR '':'') url of
                Some (user_host, path) \<Rightarrow>
                  if CHR 0x40 \<in> set user_host then ascii_lower user_host @ '':'' @ path else url
              | None \<Rightarrow> url))"

record marketplace_allowlist =
  ml_allowed_urls :: "string list"
  ml_source_path :: "path option"
  ml_authority :: policy_source_authority

definition marketplace_binds :: "policy_subject_origin \<Rightarrow> marketplace_allowlist \<Rightarrow> bool" where
  "marketplace_binds origin s \<longleftrightarrow> ml_authority s = Native \<or> origin = ForeignOrigin"

definition marketplace_is_lockdown :: "marketplace_allowlist \<Rightarrow> bool" where
  "marketplace_is_lockdown s \<longleftrightarrow> ml_allowed_urls s = []"

definition source_allows_url :: "string \<Rightarrow> marketplace_allowlist \<Rightarrow> bool" where
  "source_allows_url url s =
     list_ex (\<lambda>allowed. normalize_git_url allowed = normalize_git_url url) (ml_allowed_urls s)"

definition user_facing_policy_source :: "path \<Rightarrow> string" where
  "user_facing_policy_source p = (case path_file_name p of Some name \<Rightarrow> name | None \<Rightarrow> p)"

definition not_known_marketplace :: string where
  "not_known_marketplace = ''source not in strictKnownMarketplaces''"

definition source_block_reason :: "marketplace_allowlist \<Rightarrow> string" where
  "source_block_reason s =
     (case ml_source_path s of
        Some p \<Rightarrow> not_known_marketplace @ '' ('' @ p @ '')''
      | None \<Rightarrow> not_known_marketplace)"

definition user_facing_block_reason :: "marketplace_allowlist \<Rightarrow> string" where
  "user_facing_block_reason s =
     (case ml_source_path s of
        Some p \<Rightarrow> not_known_marketplace @ '' ('' @ user_facing_policy_source p @ '')''
      | None \<Rightarrow> not_known_marketplace)"

type_synonym marketplace_policy = "marketplace_allowlist list"

definition marketplace_is_restricted_for :: "marketplace_policy \<Rightarrow> policy_subject_origin \<Rightarrow> bool" where
  "marketplace_is_restricted_for sources origin = list_ex (marketplace_binds origin) sources"

definition is_url_allowed :: "marketplace_policy \<Rightarrow> string \<Rightarrow> policy_subject_origin \<Rightarrow> bool" where
  "is_url_allowed sources url origin =
     list_all (source_allows_url url) (filter (marketplace_binds origin) sources)"

definition marketplace_blocking_source ::
    "marketplace_policy \<Rightarrow> string \<Rightarrow> policy_subject_origin \<Rightarrow> marketplace_allowlist option" where
  "marketplace_blocking_source sources url origin =
     (case find (\<lambda>s. marketplace_binds origin s \<and> \<not> source_allows_url url s) sources of
        Some s \<Rightarrow> Some s
      | None \<Rightarrow> find (marketplace_binds origin) sources)"

definition marketplace_block_reason ::
    "marketplace_policy \<Rightarrow> string \<Rightarrow> policy_subject_origin \<Rightarrow> string" where
  "marketplace_block_reason sources url origin =
     (case marketplace_blocking_source sources url origin of
        Some s \<Rightarrow> source_block_reason s
      | None \<Rightarrow> not_known_marketplace)"

definition add_block_reason :: "marketplace_policy \<Rightarrow> string \<Rightarrow> string option" where
  "add_block_reason sources identity =
     (if marketplace_is_restricted_for sources ForeignOrigin \<and> \<not> is_url_allowed sources identity ForeignOrigin
      then Some (case marketplace_blocking_source sources identity ForeignOrigin of
                   Some s \<Rightarrow> user_facing_block_reason s
                 | None \<Rightarrow> not_known_marketplace)
      else None)"

definition marketplace_allowed_urls :: "marketplace_policy \<Rightarrow> string list" where
  "marketplace_allowed_urls sources =
     foldl (\<lambda>out source. foldl (\<lambda>out url. if url \<in> set out then out else out @ [url]) out
                            (ml_allowed_urls source)) [] sources"

datatype managed_marketplace_kind = MarketGit string "string option" | MarketLocal path

record managed_marketplace =
  mm_name :: string
  mm_kind :: managed_marketplace_kind
  mm_ownership :: policy_layer_ownership

end
