(* ===== verification/GB_ManagedSettings.thy ===== *)
theory GB_ManagedSettings
  imports GB_McpPolicy GB_Rules
begin

section \<open>Managed settings (permission/managed_policy: parse.rs, mod.rs, verdict.rs)\<close>

text \<open>
  The policy keys of one source are parsed out of its JSON object, failing closed on a key of the
  wrong type or spelled twice with different values, and folded into the settings layer by layer.
  The conversion of a TOML table to JSON is the parameter \<open>to_json\<close>. An object of JSON is the list
  of its members in iteration order; two objects are equal when they have the same members.
\<close>

subsection \<open>JSON and TOML values\<close>

fun json_eq :: "json \<Rightarrow> json \<Rightarrow> bool" where
  "json_eq (JObject a) (JObject b) \<longleftrightarrow>
     length a = length b
     \<and> list_all (\<lambda>m. case map_of b (fst m) of None \<Rightarrow> False | Some v \<Rightarrow> json_eq (snd m) v) a"
| "json_eq (JArray a) (JArray b) \<longleftrightarrow> list_all2 json_eq a b"
| "json_eq a b \<longleftrightarrow> a = b"

fun as_array :: "json \<Rightarrow> json list option" where
  "as_array (JArray xs) = Some xs"
| "as_array _ = None"

datatype toml =
    TString string
  | TInteger int
  | TFloat string
  | TBoolean bool
  | TDatetime string
  | TArray "toml list"
  | TTable "(string \<times> toml) list"

fun toml_table :: "toml \<Rightarrow> (string \<times> toml) list option" where
  "toml_table (TTable t) = Some t"
| "toml_table _ = None"

fun toml_get :: "toml \<Rightarrow> string \<Rightarrow> toml option" where
  "toml_get (TTable t) key = map_of t key"
| "toml_get _ key = None"

subsection \<open>Keys\<close>

datatype 'a policy_key = KeyAbsent | KeyPresent 'a | KeyMalformed

fun key_and_then :: "'a policy_key \<Rightarrow> ('a \<Rightarrow> 'b policy_key) \<Rightarrow> 'b policy_key" where
  "key_and_then KeyAbsent f = KeyAbsent"
| "key_and_then (KeyPresent v) f = f v"
| "key_and_then KeyMalformed f = KeyMalformed"

definition key_map :: "('a \<Rightarrow> 'b) \<Rightarrow> 'a policy_key \<Rightarrow> 'b policy_key" where
  "key_map f k = key_and_then k (\<lambda>v. KeyPresent (f v))"

definition key_is_absent :: "'a policy_key \<Rightarrow> bool" where
  "key_is_absent k \<longleftrightarrow> (case k of KeyAbsent \<Rightarrow> True | _ \<Rightarrow> False)"

definition key_is_malformed :: "'a policy_key \<Rightarrow> bool" where
  "key_is_malformed k \<longleftrightarrow> (case k of KeyMalformed \<Rightarrow> True | _ \<Rightarrow> False)"

definition locks_down :: "'a list policy_key \<Rightarrow> bool" where
  "locks_down k \<longleftrightarrow> (case k of KeyPresent e \<Rightarrow> e = [] | _ \<Rightarrow> False) \<or> key_is_malformed k"

definition key_entries :: "'a list policy_key \<Rightarrow> 'a list" where
  "key_entries k = (case k of KeyPresent e \<Rightarrow> e | _ \<Rightarrow> [])"

definition policy_field :: "json \<Rightarrow> string list \<Rightarrow> (string \<times> json) policy_key" where
  "policy_field j keys =
     (case List.map_filter (\<lambda>key. map_option (Pair key) (json_get j key)) keys of
        [] \<Rightarrow> KeyAbsent
      | first # present \<Rightarrow>
          if list_ex (\<lambda>kv. \<not> json_eq (snd kv) (snd first)) present then KeyMalformed
          else KeyPresent first)"

definition policy_bool :: "json \<Rightarrow> string list \<Rightarrow> bool \<Rightarrow> bool option" where
  "policy_bool j keys fail_closed =
     (case policy_field j keys of
        KeyAbsent \<Rightarrow> None
      | KeyMalformed \<Rightarrow> Some fail_closed
      | KeyPresent kv \<Rightarrow>
          (case json_bool (snd kv) of Some b \<Rightarrow> Some b | None \<Rightarrow> Some fail_closed))"

definition policy_array :: "json \<Rightarrow> string list \<Rightarrow> json list policy_key" where
  "policy_array j keys =
     (case policy_field j keys of
        KeyAbsent \<Rightarrow> KeyAbsent
      | KeyMalformed \<Rightarrow> KeyMalformed
      | KeyPresent kv \<Rightarrow>
          (case as_array (snd kv) of Some arr \<Rightarrow> KeyPresent arr | None \<Rightarrow> KeyMalformed))"

subsection \<open>MCP lists\<close>

datatype mcp_policy_list = AllowList | DenyList

fun mcp_list_keys :: "mcp_policy_list \<Rightarrow> string list" where
  "mcp_list_keys AllowList = [''allowedMcpServers'', ''allowed_mcp_servers'']"
| "mcp_list_keys DenyList = [''deniedMcpServers'', ''denied_mcp_servers'']"

definition SERVER_URL :: "string list" where "SERVER_URL = [''serverUrl'', ''server_url'']"
definition SERVER_COMMAND :: "string list" where
  "SERVER_COMMAND = [''serverCommand'', ''server_command'']"
definition SERVER_NAME :: "string list" where "SERVER_NAME = [''serverName'', ''server_name'']"

definition entry_field :: "json \<Rightarrow> string list \<Rightarrow> json option" where
  "entry_field entry keys = find_map (json_get entry) keys"

fun all_strings :: "json list \<Rightarrow> string list option" where
  "all_strings [] = Some []"
| "all_strings (j # js) =
     (case as_str j of None \<Rightarrow> None | Some s \<Rightarrow> map_option ((#) s) (all_strings js))"

definition command_argv :: "json \<Rightarrow> string list option" where
  "command_argv entry =
     (case Option.bind (Option.bind (entry_field entry SERVER_COMMAND) as_array) all_strings of
        Some argv \<Rightarrow> if argv = [] then None else Some argv
      | None \<Rightarrow> None)"

definition parse_mcp_entry :: "url_env \<Rightarrow> mcp_policy_list \<Rightarrow> json \<Rightarrow> allowed_mcp_server option" where
  "parse_mcp_entry ue lst entry =
     (if list_ex (\<lambda>keys. key_is_malformed (policy_field entry keys))
           [SERVER_URL, SERVER_COMMAND, SERVER_NAME]
      then None
      else (case Option.bind (entry_field entry SERVER_URL) as_str of
              Some url \<Rightarrow>
                if lst = DenyList \<and> warn_on_unmatchable_deny_url ue url then None
                else Some (EntryHttp url)
            | None \<Rightarrow>
                (case command_argv entry of
                   Some argv \<Rightarrow> Some (EntryStdioArgv argv)
                 | None \<Rightarrow>
                     (case Option.bind (json_get entry ''command'') as_str of
                        Some cmd \<Rightarrow> Some (EntryStdio cmd)
                      | None \<Rightarrow>
                          map_option EntryName (Option.bind (entry_field entry SERVER_NAME) as_str)))))"

definition parse_mcp_entries ::
    "url_env \<Rightarrow> mcp_policy_list \<Rightarrow> json list \<Rightarrow> allowed_mcp_server list option" where
  "parse_mcp_entries ue lst arr =
     (if lst = DenyList \<and> list_ex (\<lambda>entry. parse_mcp_entry ue lst entry = None) arr then None
      else Some (List.map_filter (parse_mcp_entry ue lst) arr))"

definition parse_mcp_entry_list ::
    "url_env \<Rightarrow> json \<Rightarrow> mcp_policy_list \<Rightarrow> allowed_mcp_server list policy_key" where
  "parse_mcp_entry_list ue j lst =
     key_and_then (policy_array j (mcp_list_keys lst))
       (\<lambda>arr. case parse_mcp_entries ue lst arr of None \<Rightarrow> KeyMalformed | Some es \<Rightarrow> KeyPresent es)"

subsection \<open>Marketplace lists\<close>

definition str_field :: "json \<Rightarrow> string \<Rightarrow> string option" where
  "str_field entry key = Option.bind (json_get entry key) as_str"

definition marketplace_source_from_json :: "json \<Rightarrow> managed_marketplace_kind option" where
  "marketplace_source_from_json entry =
     (let git_ref = Option.bind (case json_get entry ''ref'' of
                                   Some v \<Rightarrow> Some v | None \<Rightarrow> json_get entry ''branch'') as_str
      in case str_field entry ''source'' of
           None \<Rightarrow> None
         | Some source \<Rightarrow>
             if source = ''git''
             then map_option (\<lambda>url. MarketGit url git_ref) (str_field entry ''url'')
             else if source = ''github''
             then map_option (\<lambda>repo. MarketGit (''https://github.com/'' @ repo @ ''.git'') git_ref)
                    (str_field entry ''repo'')
             else if source = ''local'' then map_option MarketLocal (str_field entry ''path'')
             else None)"

definition parse_strict_marketplaces :: "json \<Rightarrow> string list policy_key" where
  "parse_strict_marketplaces j =
     key_map (List.map_filter (\<lambda>entry. case marketplace_source_from_json entry of
                                         Some (MarketGit url _) \<Rightarrow> Some url | _ \<Rightarrow> None))
       (policy_array j [''strictKnownMarketplaces'', ''strict_known_marketplaces''])"

record extra_marketplaces =
  em_entries :: "managed_marketplace list"
  em_pin_auto_update_off :: bool

definition extra_step ::
    "policy_layer_ownership \<Rightarrow> extra_marketplaces \<Rightarrow> string \<times> json \<Rightarrow> extra_marketplaces" where
  "extra_step ownership out member =
     (let (name, entry) = member
      in case as_object entry of
           None \<Rightarrow> out\<lparr>em_pin_auto_update_off := True\<rparr>
         | Some flds \<Rightarrow>
             (let out = (if policy_bool entry [''autoUpdate'', ''auto_update''] False = Some False
                         then out\<lparr>em_pin_auto_update_off := True\<rparr> else out)
              in case Option.bind (map_of flds ''source'') marketplace_source_from_json of
                   None \<Rightarrow> out
                 | Some kind \<Rightarrow>
                     out\<lparr>em_entries := em_entries out
                           @ [\<lparr>mm_name = name, mm_kind = kind, mm_ownership = ownership\<rparr>]\<rparr>))"

definition parse_extra_marketplaces :: "json \<Rightarrow> policy_layer_ownership \<Rightarrow> extra_marketplaces" where
  "parse_extra_marketplaces j ownership =
     (case policy_field j [''extraKnownMarketplaces'', ''extra_known_marketplaces''] of
        KeyAbsent \<Rightarrow> \<lparr>em_entries = [], em_pin_auto_update_off = False\<rparr>
      | KeyMalformed \<Rightarrow> \<lparr>em_entries = [], em_pin_auto_update_off = True\<rparr>
      | KeyPresent kv \<Rightarrow>
          (case as_object (snd kv) of
             None \<Rightarrow> \<lparr>em_entries = [], em_pin_auto_update_off = True\<rparr>
           | Some members \<Rightarrow>
               foldl (extra_step ownership) \<lparr>em_entries = [], em_pin_auto_update_off = False\<rparr>
                 members))"

subsection \<open>The settings and one source folded into them\<close>

datatype requirement_source =
    SourceUnknown
  | SourceRequirements path
  | SourceSystemRequirements path
  | SourceManagedSettings path
  | SourceManagedConfig path
  | SourceConfig path
  | SourceSettings path

record 'a sourced =
  sd_value :: 'a
  sd_source :: requirement_source

record managed_features =
  mf_disable_telemetry :: "bool option"
  mf_disable_feedback :: "bool option"
  mf_disable_yolo :: "bool option"
  mf_source_path :: "path option"

record managed_settings =
  ms_features :: managed_features
  ms_permissions :: "permission_rule sourced list"
  ms_default_mode :: "default_permission_mode option"
  ms_mcp_allowlist :: mcp_policy
  ms_marketplace_allowlist :: marketplace_policy
  ms_project_mcp :: policy_pin
  ms_plugin_auto_update :: policy_pin
  ms_extra_marketplaces :: "managed_marketplace list"

definition managed_settings_default :: managed_settings where
  "managed_settings_default =
     \<lparr>ms_features = \<lparr>mf_disable_telemetry = None, mf_disable_feedback = None,
                     mf_disable_yolo = None, mf_source_path = None\<rparr>,
      ms_permissions = [], ms_default_mode = None, ms_mcp_allowlist = [],
      ms_marketplace_allowlist = [], ms_project_mcp = Unpinned, ms_plugin_auto_update = Unpinned,
      ms_extra_marketplaces = []\<rparr>"

definition pin_disabled :: "policy_pin \<Rightarrow> path \<Rightarrow> policy_layer_ownership \<Rightarrow> policy_pin" where
  "pin_disabled pin source ownership =
     (let upgrades = ownership = OwnerAdmin
            \<and> (case pin of PinDisabled _ OwnerUser \<Rightarrow> True | _ \<Rightarrow> False)
      in if \<not> pin_is_disabled pin \<or> upgrades then PinDisabled source ownership else pin)"

definition pin_if :: "bool \<Rightarrow> policy_pin \<Rightarrow> path \<Rightarrow> policy_layer_ownership \<Rightarrow> policy_pin" where
  "pin_if b pin source ownership = (if b then pin_disabled pin source ownership else pin)"

fun claim_extra :: "managed_marketplace list \<Rightarrow> managed_marketplace \<Rightarrow> managed_marketplace list" where
  "claim_extra [] extra = [extra]"
| "claim_extra (m # ms) extra =
     (if mm_name m = mm_name extra
      then (if mm_ownership m = OwnerUser \<and> mm_ownership extra = OwnerAdmin
            then extra # ms else m # ms)
      else m # claim_extra ms extra)"

definition mcp_source_of ::
    "url_env \<Rightarrow> json \<Rightarrow> path \<Rightarrow> policy_layer_tier \<Rightarrow> mcp_allowlist option" where
  "mcp_source_of ue j source tier =
     (let allow = parse_mcp_entry_list ue j AllowList;
          deny = parse_mcp_entry_list ue j DenyList;
          managed_only =
            policy_bool j [''allowManagedMcpServersOnly'', ''allow_managed_mcp_servers_only''] True
              = Some True;
          lockdown = locks_down allow \<or> key_is_malformed deny;
          allow_entries = key_entries allow;
          deny_entries = key_entries deny
      in if lockdown \<or> allow_entries \<noteq> [] \<or> deny_entries \<noteq> [] \<or> managed_only
         then let s = with_ownership (tier_ownership tier) (with_authority (tier_authority tier)
                        (mcp_allowlist_new ue allow_entries deny_entries (Some source)));
                  s = (if managed_only then with_managed_only s else s)
              in Some (if lockdown then with_lockdown s else s)
         else None)"

definition push_some :: "'a list \<Rightarrow> 'a option \<Rightarrow> 'a list" where
  "push_some xs x = (case x of None \<Rightarrow> xs | Some y \<Rightarrow> xs @ [y])"

definition marketplace_source_of :: "json \<Rightarrow> path \<Rightarrow> policy_layer_tier \<Rightarrow> marketplace_allowlist option" where
  "marketplace_source_of j source tier =
     (let strict = parse_strict_marketplaces j
      in if key_is_absent strict then None
         else Some \<lparr>ml_allowed_urls = key_entries strict, ml_source_path = Some source,
                    ml_authority = tier_authority tier\<rparr>)"

definition apply_policy_source ::
    "url_env \<Rightarrow> managed_settings \<Rightarrow> json \<Rightarrow> path \<Rightarrow> policy_layer_tier \<Rightarrow> managed_settings" where
  "apply_policy_source ue ms j source tier =
     (let ownership = tier_ownership tier;
          project_off = policy_bool j
            [''enableAllProjectMcpServers'', ''enable_all_project_mcp_servers''] False = Some False;
          update_off =
            policy_bool j [''pluginAutoUpdate'', ''plugin_auto_update''] False = Some False;
          extras = parse_extra_marketplaces j ownership
      in ms\<lparr>ms_mcp_allowlist := push_some (ms_mcp_allowlist ms) (mcp_source_of ue j source tier),
            ms_project_mcp := pin_if project_off (ms_project_mcp ms) source ownership,
            ms_plugin_auto_update :=
              pin_if (em_pin_auto_update_off extras)
                (pin_if update_off (ms_plugin_auto_update ms) source ownership) source ownership,
            ms_marketplace_allowlist :=
              push_some (ms_marketplace_allowlist ms) (marketplace_source_of j source tier),
            ms_extra_marketplaces :=
              foldl claim_extra (ms_extra_marketplaces ms) (em_entries extras)\<rparr>)"

definition apply_unreadable_policy_source ::
    "url_env \<Rightarrow> managed_settings \<Rightarrow> path \<Rightarrow> policy_layer_tier \<Rightarrow> managed_settings" where
  "apply_unreadable_policy_source ue ms source tier =
     (let ownership = tier_ownership tier
      in ms\<lparr>ms_mcp_allowlist := ms_mcp_allowlist ms
              @ [with_lockdown (with_ownership ownership (with_authority (tier_authority tier)
                   (mcp_allowlist_new ue [] [] (Some source))))],
            ms_marketplace_allowlist := ms_marketplace_allowlist ms
              @ [\<lparr>ml_allowed_urls = [], ml_source_path = Some source,
                   ml_authority = tier_authority tier\<rparr>],
            ms_project_mcp := pin_disabled (ms_project_mcp ms) source ownership,
            ms_plugin_auto_update := pin_disabled (ms_plugin_auto_update ms) source ownership\<rparr>)"

subsection \<open>The layers\<close>

definition MANAGED_POLICY_CONFIG_KEYS :: "string list" where
  "MANAGED_POLICY_CONFIG_KEYS =
     [''allowedMcpServers'', ''allowed_mcp_servers'', ''deniedMcpServers'', ''denied_mcp_servers'',
      ''allowManagedMcpServersOnly'', ''allow_managed_mcp_servers_only'',
      ''enableAllProjectMcpServers'', ''enable_all_project_mcp_servers'', ''pluginAutoUpdate'',
      ''plugin_auto_update'', ''strictKnownMarketplaces'', ''strict_known_marketplaces'',
      ''extraKnownMarketplaces'', ''extra_known_marketplaces'']"

record policy_layer =
  pl_tier :: policy_layer_tier
  pl_path :: path
  pl_value :: toml

record managed_config_layer =
  mcl_value :: toml
  mcl_path :: path
  mcl_is_system :: bool

datatype requirements_source = ReqFile path | ReqMdm

record requirements_layer =
  rl_value :: toml
  rl_source :: requirements_source
  rl_is_system :: bool

text \<open>\<open>RequirementsSource::label\<close>; the label of the device-management source is a parameter.\<close>

fun requirements_label :: "string \<Rightarrow> requirements_source \<Rightarrow> string" where
  "requirements_label mdm (ReqFile p) = p"
| "requirements_label mdm ReqMdm = mdm"

definition managed_toml_policy_layers ::
    "string \<Rightarrow> managed_config_layer list \<Rightarrow> requirements_layer list \<Rightarrow> policy_layer list" where
  "managed_toml_policy_layers mdm managed requirements =
     map (\<lambda>l. \<lparr>pl_tier = (if mcl_is_system l then TierSystemManaged else TierUserManaged),
               pl_path = mcl_path l, pl_value = mcl_value l\<rparr>) managed
     @ map (\<lambda>l. \<lparr>pl_tier = (if rl_source l = ReqMdm then TierMdm
                             else if rl_is_system l then TierSystemRequirements
                             else TierUserRequirements),
                 pl_path = requirements_label mdm (rl_source l), pl_value = rl_value l\<rparr>)
         requirements"

definition policy_table :: "toml \<Rightarrow> (string \<times> toml) list" where
  "policy_table value =
     (case toml_table value of
        None \<Rightarrow> []
      | Some t \<Rightarrow> filter (\<lambda>kv. fst kv \<in> set MANAGED_POLICY_CONFIG_KEYS) t)"

definition apply_policy_layer ::
    "url_env \<Rightarrow> ((string \<times> toml) list \<Rightarrow> json option) \<Rightarrow> managed_settings \<Rightarrow> policy_layer
       \<Rightarrow> managed_settings" where
  "apply_policy_layer ue to_json ms layer =
     (let table = policy_table (pl_value layer)
      in if table = [] then ms
         else (case to_json table of
                 Some j \<Rightarrow> apply_policy_source ue ms j (pl_path layer) (pl_tier layer)
               | None \<Rightarrow> apply_unreadable_policy_source ue ms (pl_path layer) (pl_tier layer)))"

text \<open>
  \<open>resolve_managed_settings\<close>: the base of the vendor file, the TOML layers sorted by tier, the
  policy of the vendor file last. The parser of the base is the argument \<open>base\<close>.
\<close>

definition resolve_managed_settings ::
    "url_env \<Rightarrow> ((string \<times> toml) list \<Rightarrow> json option) \<Rightarrow> (json \<Rightarrow> path \<Rightarrow> managed_settings)
       \<Rightarrow> (json \<times> path) option \<Rightarrow> policy_layer list \<Rightarrow> managed_settings" where
  "resolve_managed_settings ue to_json base claude layers =
     (let ms = (case claude of Some (j, p) \<Rightarrow> base j p | None \<Rightarrow> managed_settings_default);
          ms = foldl (apply_policy_layer ue to_json) ms (sort_key (\<lambda>l. tier_rank (pl_tier l)) layers)
      in case claude of
           Some (j, p) \<Rightarrow> apply_policy_source ue ms j p TierVendor
         | None \<Rightarrow> ms)"

subsection \<open>Verdicts\<close>

datatype mcp_block_reason =
  BlockDeny path | BlockNotGranted path | BlockLockdown path | BlockProjectPin path

datatype mcp_verdict = McpAllowed | McpBlocked mcp_block_reason

record mcp_subject =
  sj_origin :: policy_subject_origin
  sj_project_scoped :: bool

fun block_source :: "mcp_block_reason \<Rightarrow> path" where
  "block_source (BlockDeny p) = p"
| "block_source (BlockNotGranted p) = p"
| "block_source (BlockLockdown p) = p"
| "block_source (BlockProjectPin p) = p"

fun block_rule :: "mcp_block_reason \<Rightarrow> string" where
  "block_rule (BlockDeny _) = ''matches deniedMcpServers''"
| "block_rule (BlockNotGranted _) = ''not in allowedMcpServers''"
| "block_rule (BlockLockdown _) = ''locked down by policy''"
| "block_rule (BlockProjectPin _) =
     ''project MCP disabled by enableAllProjectMcpServers = false''"

definition reason_with :: "mcp_block_reason \<Rightarrow> string \<Rightarrow> string" where
  "reason_with r source = block_rule r @ '' ('' @ source @ '')''"

definition user_facing_reason :: "mcp_block_reason \<Rightarrow> string" where
  "user_facing_reason r = reason_with r (user_facing_policy_source (block_source r))"

definition block_display :: "mcp_block_reason \<Rightarrow> string" where
  "block_display r = reason_with r (block_source r)"

definition path_or_empty :: "path option \<Rightarrow> path" where
  "path_or_empty p = (case p of Some q \<Rightarrow> q | None \<Rightarrow> [])"

definition mcp_project_pin_block ::
    "url_env \<Rightarrow> managed_settings \<Rightarrow> mcp_server_def \<Rightarrow> mcp_subject \<Rightarrow> mcp_block_reason option" where
  "mcp_project_pin_block ue ms server subject =
     (case ms_project_mcp ms of
        Unpinned \<Rightarrow> None
      | PinDisabled source ownership \<Rightarrow>
          if \<not> sj_project_scoped subject
             \<or> grants_exception ue (ms_mcp_allowlist ms) server ownership
          then None else Some (BlockProjectPin source))"

definition mcp_verdict_of ::
    "url_env \<Rightarrow> managed_settings \<Rightarrow> mcp_server_def \<Rightarrow> mcp_subject \<Rightarrow> mcp_verdict" where
  "mcp_verdict_of ue ms server subject =
     (case denying_source ue (ms_mcp_allowlist ms) server (sj_origin subject) of
        Some denying \<Rightarrow> McpBlocked (BlockDeny (path_or_empty (al_source_path denying)))
      | None \<Rightarrow>
          (case blocking_allow_source ue (ms_mcp_allowlist ms) server (sj_origin subject) of
             Some blocking \<Rightarrow>
               (let source = path_or_empty (al_source_path blocking)
                in McpBlocked (if al_lockdown blocking then BlockLockdown source
                               else BlockNotGranted source))
           | None \<Rightarrow>
               (case mcp_project_pin_block ue ms server subject of
                  Some reason \<Rightarrow> McpBlocked reason
                | None \<Rightarrow> McpAllowed)))"

end
