(* ===== verification/GB_ClaudeSettings.thy ===== *)
theory GB_ClaudeSettings
  imports GB_ManagedSettings
begin

section \<open>Settings files of a project (permission/claude_settings.rs, project_config.rs, xai-grok-agent/repo.rs)\<close>

text \<open>
  Which settings files count for a working directory and what they say. The outside world is the
  parameter \<open>se :: settings_env\<close>: the disk, the discovery of a repository, the parsers of JSON and
  TOML and the derived deserializers, and the layers the configuration loader delivers. Two paths
  are equal when their components are. A hash map is a map; log messages are left out.
\<close>

datatype file_kind = RegularFile | OtherKind

record parsed_permissions =
  pp_allow :: "string list"
  pp_deny :: "string list"
  pp_ask :: "string list"

record settings_env =
  se_world :: world
  se_json_parse :: "string \<Rightarrow> json option"
  se_toml_parse :: "string \<Rightarrow> toml option"
  se_parsed_permissions :: "json \<Rightarrow> parsed_permissions option"
  se_toml_rules :: "toml \<Rightarrow> permission_rule list option"
  se_metadata :: "path \<Rightarrow> file_kind option"
  se_read :: "path \<Rightarrow> string option"
  se_home :: "path option"
  se_git_workdir :: "path \<Rightarrow> path option"
  se_load_config :: "path \<Rightarrow> toml option"
  se_requirements :: "requirements_layer list"
  se_managed_config :: "managed_config_layer list"
  se_mdm_label :: string
  se_marker_override :: bool

definition path_exists :: "settings_env \<Rightarrow> path \<Rightarrow> bool" where
  "path_exists se p \<longleftrightarrow> se_metadata se p \<noteq> None"

definition path_is_file :: "settings_env \<Rightarrow> path \<Rightarrow> bool" where
  "path_is_file se p \<longleftrightarrow> se_metadata se p = Some RegularFile"

definition same_path :: "path \<Rightarrow> path \<Rightarrow> bool" where
  "same_path a b \<longleftrightarrow> components a = components b"

definition canonicalize_or_owned :: "settings_env \<Rightarrow> path \<Rightarrow> path" where
  "canonicalize_or_owned se p = (case w_canonicalize (se_world se) p of Some q \<Rightarrow> q | None \<Rightarrow> p)"

definition is_home_dir :: "settings_env \<Rightarrow> path \<Rightarrow> bool" where
  "is_home_dir se p =
     (case se_home se of
        None \<Rightarrow> False
      | Some home \<Rightarrow> same_path (canonicalize_or_owned se p) (canonicalize_or_owned se home))"

subsection \<open>The parent of a path is shorter\<close>

lemma length_join_with: "length (join_with [c] ws) = sum_list (map length ws) + (length ws - 1)"
  by (induction "[c]" ws rule: join_with.induct) auto

lemma join_split: "join_with [c] (split_char c s) = s"
proof (induction c s rule: split_char.induct)
  case (2 c d s)
  show ?case
  proof (cases "split_char c s")
    case Nil
    then show ?thesis by simp
  next
    case (Cons w ws)
    then show ?thesis using 2 by (cases ws) auto
  qed
qed simp

lemma dropWhile_rev_split:
  "\<exists>zs. xs = rev (dropWhile P (rev xs)) @ zs"
  by (metis rev_append rev_rev_ident takeWhile_dropWhile_id)

lemma length_join_prefix:
  "length (join_with [c] xs) \<le> length (join_with [c] (xs @ zs))"
  by (simp add: length_join_with)

lemma components_short:
  "length p \<le> 1 \<Longrightarrow> length (components p) \<le> 1"
  by (cases p) (auto simp: components_def is_absolute_def slash_def ignored_part_def)

lemma join_before_last:
  assumes "dropWhile P (rev ws) = w # rest" and "w \<noteq> []"
  shows "length (join_with [c] (rev (dropWhile P rest))) < length (join_with [c] ws)"
proof -
  obtain zs where ws: "ws = (rev rest @ [w]) @ zs"
    using dropWhile_rev_split [of ws P] assms(1) by auto
  obtain ys where "rev rest = rev (dropWhile P rest) @ ys"
    using dropWhile_rev_split [of "rev rest" P] by auto
  then have "length (join_with [c] (rev (dropWhile P rest))) \<le> length (join_with [c] (rev rest))"
    using length_join_prefix by metis
  also have "\<dots> < length (join_with [c] (rev rest @ [w]))"
    using assms(2) by (cases rest; cases w) (auto simp: length_join_with)
  also have "\<dots> \<le> length (join_with [c] ws)"
    unfolding ws by (rule length_join_prefix)
  finally show ?thesis .
qed

lemma parent_shorter:
  assumes "path_parent p = Some q"
  shows "length q < length p"
proof -
  obtain c rest where rc: "rev (components p) = c # rest" "c \<noteq> RootDir"
    using assms by (auto simp: path_parent_def split: list.splits component.splits)
  have nonempty: "p \<noteq> []" using rc by (auto simp: components_def is_absolute_def ignored_part_def)
  show ?thesis
  proof (cases "rest = [RootDir] \<or> rest = [CurDir]")
    case True
    then have "length (components p) = 2" using rc(1)
      by (metis One_nat_def Suc_1 length_Cons length_rev list.size(3))
    then have "\<not> length p \<le> 1" using components_short [of p] by auto
    moreover have "length q = 1"
      using assms rc True by (auto simp: path_parent_def split: component.splits)
    ultimately show ?thesis by simp
  next
    case False
    then have q: "q = join_with [slash]
        (rev (dropWhile ignored_part (drop 1 (dropWhile ignored_part (rev (split_char slash p))))))"
      using assms rc by (auto simp: path_parent_def split: component.splits)
    show ?thesis
    proof (cases "dropWhile ignored_part (rev (split_char slash p))")
      case Nil
      show ?thesis unfolding q Nil using nonempty by simp
    next
      case (Cons w ws)
      then have "w \<noteq> []" using hd_dropWhile [of ignored_part "rev (split_char slash p)"]
        by (auto simp: ignored_part_def)
      from join_before_last [OF Cons this, of slash] show ?thesis
        by (simp add: q Cons join_split)
    qed
  qed
qed

subsection \<open>The directories of a project\<close>

text \<open>The walk of \<open>RepoDirChain::resolve\<close> from the working directory up to the root.\<close>

function dir_chain :: "settings_env \<Rightarrow> path \<Rightarrow> path \<Rightarrow> path list" where
  "dir_chain se root_canonical dir =
     dir # (if same_path (canonicalize_or_owned se dir) root_canonical then []
            else (case path_parent dir of
                    Some parent \<Rightarrow> dir_chain se root_canonical parent
                  | None \<Rightarrow> []))"
  by pat_completeness auto
termination
  by (relation "measure (\<lambda>(_, _, dir). length dir)") (auto dest: parent_shorter)

declare dir_chain.simps [simp del]

record repo_dir_chain =
  rc_git_root :: "path option"
  rc_dirs :: "path list"

definition repo_dir_chain_resolve :: "settings_env \<Rightarrow> path \<Rightarrow> repo_dir_chain" where
  "repo_dir_chain_resolve se cwd =
     (let git_root = (case se_git_workdir se cwd of
                        None \<Rightarrow> None
                      | Some gr \<Rightarrow> if is_home_dir se gr then None else Some gr)
      in \<lparr>rc_git_root = git_root,
          rc_dirs = (case git_root of
                       Some gr \<Rightarrow> dir_chain se (canonicalize_or_owned se gr) cwd
                     | None \<Rightarrow> [cwd])\<rparr>)"

definition mcp_json_candidate_paths :: "settings_env \<Rightarrow> path \<Rightarrow> path list" where
  "mcp_json_candidate_paths se cwd =
     map (\<lambda>dir. path_push dir ''.mcp.json'') (rev (rc_dirs (repo_dir_chain_resolve se cwd)))"

definition find_mcp_json_files :: "settings_env \<Rightarrow> path \<Rightarrow> path list" where
  "find_mcp_json_files se cwd = filter (path_is_file se) (mcp_json_candidate_paths se cwd)"

definition is_user_grok_config_file :: "settings_env \<Rightarrow> path \<Rightarrow> bool" where
  "is_user_grok_config_file se config_path =
     (case w_user_grok_home (se_world se) of
        None \<Rightarrow> False
      | Some user_home \<Rightarrow>
          (let user_config = path_push user_home ''config.toml''
           in if same_path config_path user_config then True
              else (case w_canonicalize (se_world se) config_path of
                      None \<Rightarrow> False
                    | Some c \<Rightarrow> same_path c (canonicalize_or_owned se user_config))))"

definition find_project_configs :: "settings_env \<Rightarrow> path \<Rightarrow> path list" where
  "find_project_configs se cwd =
     filter (\<lambda>p. path_is_file se p \<and> \<not> is_user_grok_config_file se p)
       (map (\<lambda>dir. path_push (path_push dir ''.grok'') ''config.toml'')
         (rev (rc_dirs (repo_dir_chain_resolve se cwd))))"

subsection \<open>Settings files under .claude\<close>

function find_repo_root :: "settings_env \<Rightarrow> path \<Rightarrow> path option" where
  "find_repo_root se current =
     (if path_exists se (path_push current ''.git'') then Some current
      else (case path_parent current of
              Some parent \<Rightarrow> find_repo_root se parent
            | None \<Rightarrow> None))"
  by pat_completeness auto
termination
  by (relation "measure (\<lambda>(_, current). length current)") (auto dest: parent_shorter)

declare find_repo_root.simps [simp del]

definition settings_in :: "path \<Rightarrow> path list" where
  "settings_in claude_dir =
     [path_push claude_dir ''settings.local.json'', path_push claude_dir ''settings.json'']"

function claude_walk :: "path \<Rightarrow> path \<Rightarrow> path list" where
  "claude_walk repo_root current =
     settings_in (path_push current ''.claude'')
     @ (if same_path current repo_root then []
        else (case path_parent current of
                Some parent \<Rightarrow> claude_walk repo_root parent
              | None \<Rightarrow> []))"
  by pat_completeness auto
termination
  by (relation "measure (\<lambda>(_, current). length current)") (auto dest: parent_shorter)

declare claude_walk.simps [simp del]

definition collect_project_claude_paths :: "settings_env \<Rightarrow> path \<Rightarrow> path list" where
  "collect_project_claude_paths se cwd =
     claude_walk
       (case find_repo_root se cwd of
          Some gr \<Rightarrow> if is_home_dir se gr then cwd else gr
        | None \<Rightarrow> cwd) cwd"

definition global_claude_settings_paths :: "settings_env \<Rightarrow> path list" where
  "global_claude_settings_paths se =
     (case se_home se of
        Some home \<Rightarrow> settings_in (path_push home ''.claude'')
      | None \<Rightarrow> [])"

definition find_claude_settings_paths :: "settings_env \<Rightarrow> path \<Rightarrow> path list" where
  "find_claude_settings_paths se cwd =
     collect_project_claude_paths se cwd @ global_claude_settings_paths se"

definition has_claude_compat :: "settings_env \<Rightarrow> path \<Rightarrow> bool" where
  "has_claude_compat se cwd = list_ex (path_exists se) (find_claude_settings_paths se cwd)"

definition claude_settings_paths_for_trust :: "settings_env \<Rightarrow> path \<Rightarrow> bool \<Rightarrow> path list" where
  "claude_settings_paths_for_trust se cwd project_trusted =
     (if project_trusted then find_claude_settings_paths se cwd
      else global_claude_settings_paths se)"

definition path_present_or_uncertain :: "settings_env \<Rightarrow> path \<Rightarrow> bool" where
  "path_present_or_uncertain se p = (w_symlink_metadata (se_world se) p \<noteq> MetaNotFound)"

definition project_claude_settings_present :: "settings_env \<Rightarrow> path \<Rightarrow> bool" where
  "project_claude_settings_present se cwd =
     list_ex (path_present_or_uncertain se) (collect_project_claude_paths se cwd)"

subsection \<open>Parsing\<close>

record permission_config =
  pc_rules :: "permission_rule list"
  pc_prompt_policy :: prompt_policy
  pc_default_mode_configured :: bool

definition permission_config_new :: "permission_rule list \<Rightarrow> permission_config" where
  "permission_config_new rules =
     \<lparr>pc_rules = rules, pc_prompt_policy = PromptAsk, pc_default_mode_configured = False\<rparr>"

fun parse_entries ::
    "rule_action \<Rightarrow> string \<Rightarrow> string list \<Rightarrow> permission_rule list \<times> string list" where
  "parse_entries action label [] = ([], [])"
| "parse_entries action label (s # ss) =
     (let (rules, warnings) = parse_entries action label ss
      in case parse_permission_rule s action of
           Inr rule \<Rightarrow> (rule # rules, warnings)
         | Inl e \<Rightarrow>
             (rules, (''permissions.'' @ label @ '': '' @ s @ '' -- '' @ rule_error_text e) # warnings))"

definition into_permission_config :: "parsed_permissions \<Rightarrow> permission_config \<times> string list" where
  "into_permission_config pp =
     (let (ra, wa) = parse_entries RuleAllow ''allow'' (pp_allow pp);
          (rd, wd) = parse_entries RuleDeny ''deny'' (pp_deny pp);
          (rk, wk) = parse_entries RuleAsk ''ask'' (pp_ask pp)
      in (permission_config_new (ra @ rd @ rk), wa @ wd @ wk))"

definition extract_default_mode :: "json \<Rightarrow> string option" where
  "extract_default_mode v =
     (case Option.bind (json_get v ''permissions'') (\<lambda>p. json_get p ''defaultMode'') of
        Some dm \<Rightarrow> as_str dm
      | None \<Rightarrow> Option.bind (json_get v ''defaultMode'') as_str)"

definition extract_additional_directories :: "json \<Rightarrow> string list option" where
  "extract_additional_directories v =
     (let arr = (case Option.bind (json_get v ''permissions'') (\<lambda>p. json_get p ''additionalDirectories'') of
                   Some nested \<Rightarrow> as_array nested
                 | None \<Rightarrow> Option.bind (json_get v ''additionalDirectories'') as_array)
      in map_option (List.map_filter as_str) arr)"

definition extract_string_array :: "json option \<Rightarrow> string list" where
  "extract_string_array v =
     (case Option.bind v as_array of Some arr \<Rightarrow> List.map_filter as_str arr | None \<Rightarrow> [])"

fun env_text :: "json \<Rightarrow> string option" where
  "env_text (JString s) = Some s"
| "env_text (JNumber n) = Some n"
| "env_text (JBool b) = Some (if b then ''true'' else ''false'')"
| "env_text _ = None"

definition extract_string_map :: "json option \<Rightarrow> (string \<times> string) list option" where
  "extract_string_map v =
     (case Option.bind v as_object of
        None \<Rightarrow> None
      | Some obj \<Rightarrow>
          (let env = List.map_filter (\<lambda>(k, val). map_option (Pair k) (env_text val)) obj
           in if env = [] then None else Some env))"

record claude_settings =
  cs_permissions :: "parsed_permissions option"
  cs_default_mode :: "string option"
  cs_additional_directories :: "string list option"
  cs_env :: "(string \<times> string) list option"

definition tolerant_permissions :: "json \<Rightarrow> parsed_permissions option" where
  "tolerant_permissions v =
     (case json_get v ''permissions'' of
        None \<Rightarrow> None
      | Some p \<Rightarrow>
          (let allow = extract_string_array (json_get p ''allow'');
               deny = extract_string_array (json_get p ''deny'');
               ask = extract_string_array (json_get p ''ask'')
           in if allow = [] \<and> deny = [] \<and> ask = [] then None
              else Some \<lparr>pp_allow = allow, pp_deny = deny, pp_ask = ask\<rparr>))"

definition load_claude_settings :: "settings_env \<Rightarrow> path \<Rightarrow> claude_settings option" where
  "load_claude_settings se p =
     (if \<not> path_is_file se p then None
      else map_option
        (\<lambda>v. \<lparr>cs_permissions = tolerant_permissions v, cs_default_mode = extract_default_mode v,
              cs_additional_directories = extract_additional_directories v,
              cs_env = extract_string_map (json_get v ''env'')\<rparr>)
        (Option.bind (se_read se p) (se_json_parse se)))"

subsection \<open>The import marker and the environment\<close>

definition is_claude_import_marked :: "settings_env \<Rightarrow> bool" where
  "is_claude_import_marked se =
     (if se_marker_override se then True
      else (case Option.bind (map_option (\<lambda>g. path_push g ''config.toml'') (w_user_grok_home (se_world se)))
                   (\<lambda>p. Option.bind (se_read se p) (se_toml_parse se)) of
              None \<Rightarrow> False
            | Some v \<Rightarrow>
                Option.bind (toml_get v ''claude_compat'') (\<lambda>c. toml_get c ''imported'')
                  = Some (TBoolean True)))"

definition merge_env :: "settings_env \<Rightarrow> (string \<rightharpoonup> string) \<Rightarrow> path \<Rightarrow> (string \<rightharpoonup> string)" where
  "merge_env se merged p =
     (case Option.bind (load_claude_settings se p) cs_env of
        None \<Rightarrow> merged
      | Some env \<Rightarrow> merged ++ map_of env)"

definition load_claude_env_with_project :: "settings_env \<Rightarrow> path \<Rightarrow> bool \<Rightarrow> (string \<rightharpoonup> string)" where
  "load_claude_env_with_project se cwd project_trusted =
     (if is_claude_import_marked se then Map.empty
      else foldl (merge_env se) Map.empty (rev (claude_settings_paths_for_trust se cwd project_trusted)))"

end
