(* ===== verification/GB_Resolution.thy ===== *)
theory GB_Resolution
  imports GB_ClaudeSettings
begin

section \<open>Resolution of the permission configuration (permission/resolution.rs)\<close>

text \<open>
  The rules of every source merged with their origin, the default mode, the pin that switches
  always-approve off and the drop of the catch-all rules that would replace it, and the hint a
  client may give at the start of a session. The layers of the configuration loader are fields of
  the parameter \<open>se\<close>.
\<close>

subsection \<open>The pin\<close>

datatype yolo_pin_reason = DisableBypassPermissionsMode | LegacyYoloFalse

fun yolo_pin_message :: "yolo_pin_reason \<Rightarrow> string" where
  "yolo_pin_message DisableBypassPermissionsMode =
     ''always-approve disabled by managed policy ([ui] disable_bypass_permissions_mode = true in requirements.toml)''"
| "yolo_pin_message LegacyYoloFalse =
     ''always-approve disabled by managed policy ([ui] yolo = false in requirements.toml)''"

record yolo_policy_lock =
  yl_source_label :: string
  yl_reason :: yolo_pin_reason

fun toml_bool :: "toml \<Rightarrow> bool option" where
  "toml_bool (TBoolean b) = Some b"
| "toml_bool _ = None"

definition requirements_lock_bool :: "toml option \<Rightarrow> string \<Rightarrow> bool option" where
  "requirements_lock_bool ui key =
     Option.bind (Option.bind ui (\<lambda>v. toml_get v key)) toml_bool"

fun resolve_yolo_policy_block :: "(path \<times> toml) list \<Rightarrow> yolo_policy_lock option" where
  "resolve_yolo_policy_block [] = None"
| "resolve_yolo_policy_block ((p, layer) # layers) =
     (let ui = toml_get layer ''ui''
      in if requirements_lock_bool ui ''disable_bypass_permissions_mode'' = Some True
         then Some \<lparr>yl_source_label = p, yl_reason = DisableBypassPermissionsMode\<rparr>
         else if requirements_lock_bool ui ''yolo'' = Some False
         then Some \<lparr>yl_source_label = p, yl_reason = LegacyYoloFalse\<rparr>
         else resolve_yolo_policy_block layers)"

definition yolo_policy_lock_of :: "settings_env \<Rightarrow> yolo_policy_lock option" where
  "yolo_policy_lock_of se =
     resolve_yolo_policy_block
       (map (\<lambda>l. (requirements_label (se_mdm_label se) (rl_source l), rl_value l))
          (se_requirements se))"

definition yolo_disabled_by_policy :: "settings_env \<Rightarrow> string option" where
  "yolo_disabled_by_policy se = map_option (yolo_pin_message \<circ> yl_reason) (yolo_policy_lock_of se)"

definition claude_bypass_lock_request :: "managed_features \<Rightarrow> bool" where
  "claude_bypass_lock_request f \<longleftrightarrow> mf_source_path f \<noteq> None \<and> mf_disable_yolo f = Some True"

subsection \<open>Default modes\<close>

record skipped_permission =
  sp_rule :: string
  sp_reason :: string

definition plain_allow :: "tool_filter \<Rightarrow> permission_rule" where
  "plain_allow tool =
     \<lparr>pr_action = RuleAllow, pr_tool = tool, pr_pattern = None, pr_pattern_mode = GlobMode\<rparr>"

definition synthetic_rules_for_default_mode ::
    "default_permission_mode \<Rightarrow> string option
       \<Rightarrow> permission_rule list \<times> skipped_permission list \<times> bool" where
  "synthetic_rules_for_default_mode mode policy_block =
     (let effects = default_mode_effects_of mode
      in if dme_bypass_permissions effects
         then (case policy_block of
                 Some reason \<Rightarrow>
                   ([], [\<lparr>sp_rule = ''defaultMode=bypassPermissions'', sp_reason = reason\<rparr>], True)
               | None \<Rightarrow> ([plain_allow ToolAny], [], False))
         else if dme_accept_edits effects then ([plain_allow ToolEdit], [], False)
         else ([], [], False))"

definition parse_default_mode_claiming_scope ::
    "string \<Rightarrow> default_permission_mode \<times> skipped_permission list" where
  "parse_default_mode_claiming_scope raw =
     (case default_mode_from_str raw of
        Inr mode \<Rightarrow> (mode, [])
      | Inl invalid \<Rightarrow>
          (ModeDefault, [\<lparr>sp_rule = ''defaultMode='' @ invalid,
                          sp_reason = ''unrecognized value; treated as default''\<rparr>]))"

subsection \<open>Rules in TOML\<close>

fun toml_str :: "toml \<Rightarrow> string option" where
  "toml_str (TString s) = Some s"
| "toml_str _ = None"

fun toml_array :: "toml \<Rightarrow> toml list option" where
  "toml_array (TArray xs) = Some xs"
| "toml_array _ = None"

definition compact_rules :: "rule_action \<Rightarrow> toml list \<Rightarrow> permission_rule list" where
  "compact_rules action arr =
     List.map_filter (\<lambda>item. case toml_str item of
         None \<Rightarrow> None
       | Some s \<Rightarrow> (case parse_permission_rule s action of Inr rule \<Rightarrow> Some rule | Inl _ \<Rightarrow> None)) arr"

definition parse_toml_permission_section ::
    "settings_env \<Rightarrow> toml \<Rightarrow> permission_rule list option" where
  "parse_toml_permission_section se v =
     (let arrays = List.map_filter (\<lambda>(action, key).
            map_option (Pair action) (Option.bind (toml_get v key) toml_array))
          [(RuleDeny, ''deny''), (RuleAllow, ''allow''), (RuleAsk, ''ask'')]
      in if arrays \<noteq> [] then Some (concat (map (\<lambda>(action, arr). compact_rules action arr) arrays))
         else se_toml_rules se v)"

definition extract_toml_permissions ::
    "settings_env \<Rightarrow> requirement_source \<Rightarrow> toml \<Rightarrow> permission_rule sourced list" where
  "extract_toml_permissions se source config =
     (case Option.bind (toml_get config ''permission'') (parse_toml_permission_section se) of
        None \<Rightarrow> []
      | Some rules \<Rightarrow> map (\<lambda>rule. \<lparr>sd_value = rule, sd_source = source\<rparr>) rules)"

definition load_requirements_permissions :: "settings_env \<Rightarrow> permission_rule sourced list" where
  "load_requirements_permissions se =
     concat (map (\<lambda>l. let label = requirements_label (se_mdm_label se) (rl_source l)
         in extract_toml_permissions se
              (if rl_is_system l then SourceSystemRequirements label else SourceRequirements label)
              (rl_value l)) (se_requirements se))"

definition config_file_permissions :: "settings_env \<Rightarrow> path \<Rightarrow> permission_rule sourced list" where
  "config_file_permissions se p =
     (case se_load_config se p of
        Some v \<Rightarrow> extract_toml_permissions se (SourceConfig p) v
      | None \<Rightarrow> [])"

definition load_config_toml_permissions ::
    "settings_env \<Rightarrow> path \<Rightarrow> bool \<Rightarrow> permission_rule sourced list" where
  "load_config_toml_permissions se cwd project_trusted =
     (case w_user_grok_home (se_world se) of
        None \<Rightarrow> []
      | Some g \<Rightarrow>
          (let global_path = path_push g ''config.toml''
           in if path_is_file se global_path then config_file_permissions se global_path else []))
     @ (if project_trusted
        then concat (map (config_file_permissions se) (find_project_configs se cwd)) else [])"

definition managed_config_permissions :: "settings_env \<Rightarrow> permission_rule sourced list" where
  "managed_config_permissions se =
     concat (map (\<lambda>l. extract_toml_permissions se (SourceManagedConfig (mcl_path l)) (mcl_value l))
       (se_managed_config se))"

subsection \<open>managed-settings.json outside its policy\<close>

definition json_as_i64 :: "string \<Rightarrow> int option" where
  "json_as_i64 n =
     (let (neg, ds) = (case n of [] \<Rightarrow> (False, []) | c # cs \<Rightarrow> if c = CHR ''-'' then (True, cs) else (False, n))
      in if ds = [] then None
         else (case digits_value 0 ds of
                 None \<Rightarrow> None
               | Some d \<Rightarrow>
                   (let i = (if neg then - int d else int d)
                    in if - (2 ^ 63) \<le> i \<and> i < 2 ^ 63 then Some i else None)))"

definition json_env_flag :: "json option \<Rightarrow> string \<Rightarrow> bool option" where
  "json_env_flag env key =
     (case Option.bind env (\<lambda>e. json_get e key) of
        Some (JNumber n) \<Rightarrow> Some ((case json_as_i64 n of Some i \<Rightarrow> i | None \<Rightarrow> 0) \<noteq> 0)
      | Some (JBool b) \<Rightarrow> Some b
      | Some (JString s) \<Rightarrow> Some (s \<notin> {''0'', [], ''false''})
      | _ \<Rightarrow> None)"

definition parse_disable_bypass_permissions :: "json \<Rightarrow> bool option" where
  "parse_disable_bypass_permissions j =
     map_option (\<lambda>v. as_str v = Some ''disable'')
       (Option.bind (json_get j ''permissions'') (\<lambda>p. json_get p ''disableBypassPermissionsMode''))"

definition parse_managed_settings_permissions ::
    "settings_env \<Rightarrow> json \<Rightarrow> path \<Rightarrow> permission_rule sourced list" where
  "parse_managed_settings_permissions se j p =
     (case Option.bind (json_get j ''permissions'') (se_parsed_permissions se) of
        None \<Rightarrow> []
      | Some permissions \<Rightarrow>
          map (\<lambda>rule. \<lparr>sd_value = rule, sd_source = SourceManagedSettings p\<rparr>)
            (pc_rules (fst (into_permission_config permissions))))"

definition parse_managed_settings_base :: "settings_env \<Rightarrow> json \<Rightarrow> path \<Rightarrow> managed_settings" where
  "parse_managed_settings_base se j p =
     managed_settings_default
       \<lparr>ms_features :=
          \<lparr>mf_disable_telemetry = json_env_flag (json_get j ''env'') ''DISABLE_TELEMETRY'',
           mf_disable_feedback = json_env_flag (json_get j ''env'') ''DISABLE_FEEDBACK_COMMAND'',
           mf_disable_yolo = parse_disable_bypass_permissions j,
           mf_source_path = Some p\<rparr>,
        ms_permissions := parse_managed_settings_permissions se j p,
        ms_default_mode :=
          map_option (fst \<circ> parse_default_mode_claiming_scope) (extract_default_mode j)\<rparr>"

text \<open>\<open>load_managed_settings\<close>: the vendor file and its text are arguments.\<close>

definition load_managed_settings ::
    "url_env \<Rightarrow> settings_env \<Rightarrow> ((string \<times> toml) list \<Rightarrow> json option) \<Rightarrow> path option
       \<Rightarrow> managed_settings" where
  "load_managed_settings ue se to_json claude_path =
     resolve_managed_settings ue to_json (parse_managed_settings_base se)
       (Option.bind claude_path (\<lambda>p. map_option (\<lambda>j. (j, p))
          (Option.bind (se_read se p) (se_json_parse se))))
       (managed_toml_policy_layers (se_mdm_label se) (se_managed_config se) (se_requirements se))"

subsection \<open>Catch-all rules under the pin\<close>

definition deny_read_globs_from_config :: "permission_config \<Rightarrow> string list" where
  "deny_read_globs_from_config config =
     List.map_filter pr_pattern
       (filter (\<lambda>r. pr_action r = RuleDeny \<and> pr_tool r \<in> {ToolRead, ToolGrep, ToolAny})
          (pc_rules config))"

definition is_catchall_allow :: "world \<Rightarrow> permission_rule \<Rightarrow> bool" where
  "is_catchall_allow w rule =
     (if pr_action rule \<noteq> RuleAllow then False
      else if pr_tool rule \<in> {ToolRead, ToolEdit, ToolGrep} then False
      else rule_is_catchall w rule)"

fun is_admin_source :: "requirement_source \<Rightarrow> bool" where
  "is_admin_source (SourceSystemRequirements _) = True"
| "is_admin_source (SourceManagedSettings _) = True"
| "is_admin_source _ = False"

definition dropped_by_pin :: "world \<Rightarrow> permission_rule sourced \<Rightarrow> bool" where
  "dropped_by_pin w s \<longleftrightarrow> is_catchall_allow w (sd_value s) \<and> \<not> is_admin_source (sd_source s)"

definition drop_untrusted_catchall_allows ::
    "world \<Rightarrow> permission_rule sourced list \<Rightarrow> string option
       \<Rightarrow> permission_rule sourced list \<times> skipped_permission list" where
  "drop_untrusted_catchall_allows w rules policy_block =
     (case policy_block of
        None \<Rightarrow> (rules, [])
      | Some reason \<Rightarrow>
          (filter (\<lambda>s. \<not> dropped_by_pin w s) rules,
           map (\<lambda>s. \<lparr>sp_rule = ''allow ''
                        @ (case pr_pattern (sd_value s) of Some p \<Rightarrow> p | None \<Rightarrow> ''*'')
                        @ '' (catch-all)'',
                     sp_reason = reason\<rparr>) (filter (dropped_by_pin w) rules)))"

subsection \<open>The settings files of the project\<close>

datatype user_default_mode_load = ApplyUserMode | SkipManagedOwns

record settings_scan =
  sc_rules :: "permission_rule list"
  sc_skipped :: "skipped_permission list"
  sc_primary_source :: "path option"
  sc_mode_source :: "path option"
  sc_applied_mode :: "default_permission_mode option"
  sc_prompt_policy :: prompt_policy

definition EM_DASH_SEPARATOR :: string where
  "EM_DASH_SEPARATOR = [CHR 0x20, CHR 0xE2, CHR 0x80, CHR 0x94, CHR 0x20]"

definition split_once_str :: "string \<Rightarrow> string \<Rightarrow> (string \<times> string) option" where
  "split_once_str sep s =
     map_option (\<lambda>i. (take i s, drop (i + length sep) s)) (find_sub s sep)"

definition skip_of_warning :: "string \<Rightarrow> skipped_permission" where
  "skip_of_warning warning =
     (let (rule, reason) =
        (case split_once_str EM_DASH_SEPARATOR warning of
           Some rd \<Rightarrow> rd
         | None \<Rightarrow> (case split_once_str '' -- '' warning of Some rd \<Rightarrow> rd | None \<Rightarrow> (warning, [])))
      in \<lparr>sp_rule = rule, sp_reason = reason\<rparr>)"

definition scan_default_mode ::
    "user_default_mode_load \<Rightarrow> path \<Rightarrow> claude_settings \<Rightarrow> settings_scan \<Rightarrow> settings_scan" where
  "scan_default_mode user_mode_load p settings sc =
     (case cs_default_mode settings of
        Some raw \<Rightarrow>
          if user_mode_load = ApplyUserMode \<and> sc_mode_source sc = None
          then let (mode, skips) = parse_default_mode_claiming_scope raw
               in sc\<lparr>sc_mode_source := Some p, sc_applied_mode := Some mode,
                     sc_skipped := sc_skipped sc @ skips,
                     sc_prompt_policy := dme_prompt_policy (default_mode_effects_of mode)\<rparr>
          else sc
      | None \<Rightarrow> sc)"

definition scan_permissions :: "path \<Rightarrow> claude_settings \<Rightarrow> settings_scan \<Rightarrow> settings_scan" where
  "scan_permissions p settings sc =
     (case cs_permissions settings of
        None \<Rightarrow> sc
      | Some perms \<Rightarrow>
          (let (cfg, warnings) = into_permission_config perms
           in sc\<lparr>sc_primary_source :=
                   (if (pc_rules cfg \<noteq> [] \<or> warnings \<noteq> []) \<and> sc_primary_source sc = None
                    then Some p else sc_primary_source sc),
                 sc_rules := sc_rules sc @ pc_rules cfg,
                 sc_skipped := sc_skipped sc @ map skip_of_warning warnings\<rparr>))"

definition scan_settings_file ::
    "settings_env \<Rightarrow> user_default_mode_load \<Rightarrow> settings_scan \<Rightarrow> path \<Rightarrow> settings_scan" where
  "scan_settings_file se user_mode_load sc p =
     (case load_claude_settings se p of
        None \<Rightarrow> sc
      | Some settings \<Rightarrow>
          scan_permissions p settings (scan_default_mode user_mode_load p settings sc))"

definition scan_start :: settings_scan where
  "scan_start = \<lparr>sc_rules = [], sc_skipped = [], sc_primary_source = None, sc_mode_source = None,
                 sc_applied_mode = None, sc_prompt_policy = PromptAsk\<rparr>"

definition resolve_claude_settings_inner ::
    "settings_env \<Rightarrow> path \<Rightarrow> bool \<Rightarrow> string option \<Rightarrow> user_default_mode_load
       \<Rightarrow> (permission_config \<times> skipped_permission list \<times> path) option" where
  "resolve_claude_settings_inner se cwd project_trusted policy_block user_mode_load =
     (let sc = foldl (scan_settings_file se user_mode_load) scan_start
                 (claude_settings_paths_for_trust se cwd project_trusted);
          (syn_rules, syn_skipped, bypass_blocked) =
            (case sc_applied_mode sc of
               Some mode \<Rightarrow> synthetic_rules_for_default_mode mode policy_block
             | None \<Rightarrow> ([], [], False));
          all_skipped = sc_skipped sc @ syn_skipped;
          all_rules = sc_rules sc @ syn_rules
      in if all_rules = [] \<and> sc_prompt_policy sc = PromptAsk \<and> \<not> bypass_blocked
            \<and> sc_mode_source sc = None \<and> all_skipped = []
         then None
         else Some
           (\<lparr>pc_rules = all_rules, pc_prompt_policy = sc_prompt_policy sc,
             pc_default_mode_configured = sc_applied_mode sc \<noteq> None\<rparr>,
            all_skipped,
            (case sc_primary_source sc of
               Some p \<Rightarrow> p
             | None \<Rightarrow> (case sc_mode_source sc of Some p \<Rightarrow> p | None \<Rightarrow> cwd))))"

subsection \<open>All sources\<close>

record resolve_inputs =
  ri_yolo_lock :: "yolo_policy_lock option"
  ri_managed :: managed_settings
  ri_managed_config_rules :: "permission_rule sourced list"
  ri_project_trusted :: bool

definition resolve_inputs_live ::
    "settings_env \<Rightarrow> managed_settings \<Rightarrow> bool \<Rightarrow> yolo_policy_lock option \<Rightarrow> resolve_inputs" where
  "resolve_inputs_live se managed project_trusted yolo_lock =
     \<lparr>ri_yolo_lock = yolo_lock, ri_managed = managed,
      ri_managed_config_rules = managed_config_permissions se,
      ri_project_trusted = project_trusted\<rparr>"

record resolved_permissions =
  rp_config :: permission_config
  rp_sources :: "requirement_source list"
  rp_skipped :: "skipped_permission list"
  rp_yolo_lock :: "yolo_policy_lock option"

definition tag_with_source ::
    "permission_rule list \<Rightarrow> requirement_source \<Rightarrow> permission_rule sourced list" where
  "tag_with_source rules source = map (\<lambda>rule. \<lparr>sd_value = rule, sd_source = source\<rparr>) rules"

text \<open>The mode of the managed settings: its rules, skips, prompt policy and whether it is set.\<close>

definition managed_mode_part ::
    "managed_settings \<Rightarrow> string option
       \<Rightarrow> permission_rule sourced list \<times> skipped_permission list \<times> prompt_policy \<times> bool" where
  "managed_mode_part managed policy_block =
     (case ms_default_mode managed of
        None \<Rightarrow> ([], [], PromptAsk, False)
      | Some mode \<Rightarrow>
          (let managed_path = (case mf_source_path (ms_features managed) of
                                 Some p \<Rightarrow> p | None \<Rightarrow> ''managed-settings.json'');
               (syn_rules, syn_skipped, _) = synthetic_rules_for_default_mode mode policy_block
           in (tag_with_source syn_rules (SourceManagedSettings managed_path), syn_skipped,
               dme_prompt_policy (default_mode_effects_of mode), True)))"

text \<open>The rules and skips of the settings files; their mode counts when no managed mode is set.\<close>

definition settings_part ::
    "managed_settings \<Rightarrow> (permission_config \<times> skipped_permission list \<times> path) option
       \<Rightarrow> prompt_policy \<Rightarrow> bool
       \<Rightarrow> permission_rule sourced list \<times> skipped_permission list \<times> prompt_policy \<times> bool" where
  "settings_part managed settings_json mode_policy mode_set =
     (case settings_json of
        None \<Rightarrow> ([], [], mode_policy, mode_set)
      | Some (config, skipped_rules, p) \<Rightarrow>
          (tag_with_source (pc_rules config) (SourceSettings p), skipped_rules,
           if ms_default_mode managed = None then pc_prompt_policy config else mode_policy,
           if ms_default_mode managed = None then pc_default_mode_configured config
           else mode_set))"

definition resolve_permissions_with_provenance_inner ::
    "settings_env \<Rightarrow> path \<Rightarrow> resolve_inputs \<Rightarrow> resolved_permissions option" where
  "resolve_permissions_with_provenance_inner se cwd inputs =
     (let managed = ri_managed inputs;
          policy_block = map_option (yolo_pin_message \<circ> yl_reason) (ri_yolo_lock inputs);
          config_toml_rules = load_config_toml_permissions se cwd (ri_project_trusted inputs);
          user_mode_load =
            (if ms_default_mode managed \<noteq> None then SkipManagedOwns else ApplyUserMode);
          settings_json =
            (if is_claude_import_marked se then None
             else resolve_claude_settings_inner se cwd (ri_project_trusted inputs) policy_block
                    user_mode_load);
          (mode_rules, mode_skipped, mode_policy, mode_set) = managed_mode_part managed policy_block;
          base_rules = load_requirements_permissions se @ ms_permissions managed @ mode_rules
                       @ ri_managed_config_rules inputs @ config_toml_rules;
          (settings_rules, settings_skipped, prompt_policy, configured) =
            settings_part managed settings_json mode_policy mode_set;
          skipped = mode_skipped @ settings_skipped;
          (kept, dropped) = drop_untrusted_catchall_allows (se_world se) (base_rules @ settings_rules) policy_block;
          skipped = skipped @ dropped
      in if kept = [] \<and> prompt_policy = PromptAsk \<and> skipped = [] \<and> \<not> configured then None
         else Some
           \<lparr>rp_config = \<lparr>pc_rules = map sd_value kept, pc_prompt_policy = prompt_policy,
                         pc_default_mode_configured = configured\<rparr>,
            rp_sources = map sd_source kept, rp_skipped = skipped,
            rp_yolo_lock = ri_yolo_lock inputs\<rparr>)"

text \<open>The entry points; the managed settings of the process are the argument \<open>managed\<close>.\<close>

definition resolve_permissions_with_provenance ::
    "settings_env \<Rightarrow> managed_settings \<Rightarrow> path \<Rightarrow> bool
       \<Rightarrow> yolo_policy_lock option \<times> resolved_permissions option" where
  "resolve_permissions_with_provenance se managed cwd project_trusted =
     (let yolo_lock = yolo_policy_lock_of se
      in (yolo_lock, resolve_permissions_with_provenance_inner se cwd
            (resolve_inputs_live se managed project_trusted yolo_lock)))"

definition resolve_permission_config_with_fallback ::
    "settings_env \<Rightarrow> managed_settings \<Rightarrow> path \<Rightarrow> bool \<Rightarrow> permission_config option" where
  "resolve_permission_config_with_fallback se managed cwd project_trusted =
     map_option rp_config (snd (resolve_permissions_with_provenance se managed cwd project_trusted))"

definition resolve_permission_config_with_fallback_pinned ::
    "settings_env \<Rightarrow> managed_settings \<Rightarrow> path \<Rightarrow> bool \<Rightarrow> yolo_policy_lock option
       \<Rightarrow> permission_config option" where
  "resolve_permission_config_with_fallback_pinned se managed cwd project_trusted yolo_lock =
     map_option rp_config (resolve_permissions_with_provenance_inner se cwd
       (resolve_inputs_live se managed project_trusted yolo_lock))"

subsection \<open>The hint of a client\<close>

definition PERMISSION_MODE_ALWAYS_ALLOW :: string where
  "PERMISSION_MODE_ALWAYS_ALLOW = ''alwaysAllow''"

definition apply_permission_mode_hint ::
    "permission_config option \<Rightarrow> string option \<Rightarrow> string option
       \<Rightarrow> bool \<times> permission_config option" where
  "apply_permission_mode_hint config requested policy_block =
     (case requested of
        None \<Rightarrow> (False, config)
      | Some mode \<Rightarrow>
          if mode \<noteq> PERMISSION_MODE_ALWAYS_ALLOW then (False, config)
          else if policy_block \<noteq> None then (False, config)
          else (let c = (case config of Some c \<Rightarrow> c | None \<Rightarrow> permission_config_new [])
                in if pc_default_mode_configured c then (False, Some c)
                   else (True, Some (c\<lparr>pc_prompt_policy := PromptAllow\<rparr>))))"

end
