(* ===== verification/GB_PolicyProps.thy ===== *)
theory GB_PolicyProps
  imports GB_Resolution
begin

section \<open>What the managed policy guarantees\<close>

text \<open>
  The settings of a list of layers described layer by layer: the sources they add, who pins the
  project servers, who claims a marketplace. From that, the guarantees of the verdict, of the
  resolved rules and of the environment.
\<close>

subsection \<open>The sources of the layers\<close>

definition layer_source ::
    "url_env \<Rightarrow> ((string \<times> toml) list \<Rightarrow> json option) \<Rightarrow> policy_layer \<Rightarrow> mcp_allowlist option" where
  "layer_source ue to_json l =
     (if policy_table (pl_value l) = [] then None
      else (case to_json (policy_table (pl_value l)) of
              Some j \<Rightarrow> mcp_source_of ue j (pl_path l) (pl_tier l)
            | None \<Rightarrow> Some (with_lockdown (with_ownership (tier_ownership (pl_tier l))
                (with_authority (tier_authority (pl_tier l))
                  (mcp_allowlist_new ue [] [] (Some (pl_path l))))))))"

definition project_off :: "json \<Rightarrow> bool" where
  "project_off j \<longleftrightarrow> policy_bool j
     [''enableAllProjectMcpServers'', ''enable_all_project_mcp_servers''] False = Some False"

definition layer_pins_project :: "((string \<times> toml) list \<Rightarrow> json option) \<Rightarrow> policy_layer \<Rightarrow> bool" where
  "layer_pins_project to_json l \<longleftrightarrow> policy_table (pl_value l) \<noteq> []
     \<and> (case to_json (policy_table (pl_value l)) of Some j \<Rightarrow> project_off j | None \<Rightarrow> True)"

definition admin_layer :: "policy_layer \<Rightarrow> bool" where
  "admin_layer l \<longleftrightarrow> tier_ownership (pl_tier l) = OwnerAdmin"

fun admin_pinned :: "policy_pin \<Rightarrow> bool" where
  "admin_pinned (PinDisabled _ OwnerAdmin) = True"
| "admin_pinned _ = False"

lemma push_some_eq: "push_some xs x = xs @ (case x of None \<Rightarrow> [] | Some y \<Rightarrow> [y])"
  by (simp add: push_some_def split: option.split)

lemma set_push_some: "set (push_some xs x) = set xs \<union> set_option x"
  by (cases x) (simp_all add: push_some_def)

lemma apply_layer_source:
  "set (ms_mcp_allowlist (apply_policy_layer ue tj ms l))
     = set (ms_mcp_allowlist ms) \<union> set_option (layer_source ue tj l)"
  by (simp add: apply_policy_layer_def layer_source_def Let_def apply_policy_source_def
      apply_unreadable_policy_source_def set_push_some split: option.split)

lemma fold_layer_sources:
  "set (ms_mcp_allowlist (foldl (apply_policy_layer ue tj) ms ls))
     = set (ms_mcp_allowlist ms) \<union> \<Union> (set_option ` layer_source ue tj ` set ls)"
  by (induction ls arbitrary: ms) (auto simp: apply_layer_source)

lemma admin_pinned_pin_disabled:
  "admin_pinned (pin_disabled pin p own) \<longleftrightarrow> admin_pinned pin \<or> own = OwnerAdmin"
  by (cases pin; cases own) (auto simp: pin_disabled_def Let_def split: policy_layer_ownership.splits)

lemma admin_pinned_apply_layer:
  "admin_pinned (ms_project_mcp (apply_policy_layer ue tj ms l))
     \<longleftrightarrow> admin_pinned (ms_project_mcp ms) \<or> layer_pins_project tj l \<and> admin_layer l"
  by (auto simp: apply_policy_layer_def layer_pins_project_def Let_def apply_policy_source_def
      apply_unreadable_policy_source_def pin_if_def project_off_def admin_layer_def
      admin_pinned_pin_disabled split: option.split)

lemma admin_pinned_fold:
  "admin_pinned (ms_project_mcp (foldl (apply_policy_layer ue tj) ms ls))
     \<longleftrightarrow> admin_pinned (ms_project_mcp ms) \<or> (\<exists>l \<in> set ls. layer_pins_project tj l \<and> admin_layer l)"
  by (induction ls arbitrary: ms) (auto simp: admin_pinned_apply_layer)

lemma pin_is_disabled_pin: "pin_is_disabled (pin_disabled pin p own)"
  by (cases pin) (auto simp: pin_disabled_def Let_def)

lemma pin_disabled_apply_layer:
  "pin_is_disabled (ms_project_mcp (apply_policy_layer ue tj ms l))
     \<longleftrightarrow> pin_is_disabled (ms_project_mcp ms) \<or> layer_pins_project tj l"
  by (auto simp: apply_policy_layer_def layer_pins_project_def Let_def apply_policy_source_def
      apply_unreadable_policy_source_def pin_if_def project_off_def pin_is_disabled_pin
      split: option.split)

lemma pin_disabled_fold:
  "pin_is_disabled (ms_project_mcp (foldl (apply_policy_layer ue tj) ms ls))
     \<longleftrightarrow> pin_is_disabled (ms_project_mcp ms) \<or> (\<exists>l \<in> set ls. layer_pins_project tj l)"
  by (induction ls arbitrary: ms) (auto simp: pin_disabled_apply_layer)

text \<open>The vendor file: its source, its pin.\<close>

definition vendor_source :: "url_env \<Rightarrow> (json \<times> path) option \<Rightarrow> mcp_allowlist option" where
  "vendor_source ue claude =
     (case claude of None \<Rightarrow> None | Some (j, p) \<Rightarrow> mcp_source_of ue j p TierVendor)"

definition vendor_pins :: "(json \<times> path) option \<Rightarrow> bool" where
  "vendor_pins claude = (case claude of None \<Rightarrow> False | Some (j, p) \<Rightarrow> project_off j)"

definition clean_base :: "(json \<Rightarrow> path \<Rightarrow> managed_settings) \<Rightarrow> bool" where
  "clean_base base \<longleftrightarrow> (\<forall>j p. ms_mcp_allowlist (base j p) = [] \<and> ms_project_mcp (base j p) = Unpinned
     \<and> ms_extra_marketplaces (base j p) = [])"

lemma parse_base_clean: "clean_base (parse_managed_settings_base se)"
  by (simp add: clean_base_def parse_managed_settings_base_def managed_settings_default_def)

definition base_settings ::
    "(json \<Rightarrow> path \<Rightarrow> managed_settings) \<Rightarrow> (json \<times> path) option \<Rightarrow> managed_settings" where
  "base_settings base claude =
     (case claude of Some (j, p) \<Rightarrow> base j p | None \<Rightarrow> managed_settings_default)"

lemma base_settings_clean:
  "clean_base base \<Longrightarrow> ms_mcp_allowlist (base_settings base claude) = []
     \<and> ms_project_mcp (base_settings base claude) = Unpinned
     \<and> ms_extra_marketplaces (base_settings base claude) = []"
  by (auto simp: clean_base_def base_settings_def managed_settings_default_def split: option.split)

lemma resolve_eq:
  "resolve_managed_settings ue tj base claude ls =
     (let ms = foldl (apply_policy_layer ue tj) (base_settings base claude)
                 (sort_key (\<lambda>l. tier_rank (pl_tier l)) ls)
      in case claude of Some (j, p) \<Rightarrow> apply_policy_source ue ms j p TierVendor | None \<Rightarrow> ms)"
  by (simp add: resolve_managed_settings_def base_settings_def)

lemma resolve_sources:
  assumes "clean_base base"
  shows "set (ms_mcp_allowlist (resolve_managed_settings ue tj base claude ls))
     = \<Union> (set_option ` layer_source ue tj ` set ls) \<union> set_option (vendor_source ue claude)"
  using base_settings_clean [OF assms, of claude]
  by (auto simp: resolve_eq Let_def fold_layer_sources vendor_source_def apply_policy_source_def
      set_push_some split: option.split)

lemma resolve_admin_pinned:
  assumes "clean_base base"
  shows "admin_pinned (ms_project_mcp (resolve_managed_settings ue tj base claude ls))
     \<longleftrightarrow> (\<exists>l \<in> set ls. layer_pins_project tj l \<and> admin_layer l) \<or> vendor_pins claude"
  using base_settings_clean [OF assms, of claude]
  by (auto simp: resolve_eq Let_def vendor_pins_def apply_policy_source_def pin_if_def project_off_def
      admin_pinned_pin_disabled admin_pinned_fold split: option.split)

lemma resolve_pin_disabled:
  assumes "clean_base base"
  shows "pin_is_disabled (ms_project_mcp (resolve_managed_settings ue tj base claude ls))
     \<longleftrightarrow> (\<exists>l \<in> set ls. layer_pins_project tj l) \<or> vendor_pins claude"
  using base_settings_clean [OF assms, of claude]
  by (auto simp: resolve_eq Let_def vendor_pins_def apply_policy_source_def pin_if_def project_off_def
      pin_is_disabled_pin pin_disabled_fold split: option.split)

lemma mcp_source_of_ownership:
  "mcp_source_of ue j p tier = Some s \<Longrightarrow>
     al_ownership s = tier_ownership tier \<and> al_authority s = tier_authority tier"
  by (auto simp: mcp_source_of_def Let_def with_ownership_def with_authority_def
      with_managed_only_def with_lockdown_def split: if_splits)

lemma layer_source_ownership:
  "layer_source ue tj l = Some s \<Longrightarrow>
     al_ownership s = tier_ownership (pl_tier l) \<and> al_authority s = tier_authority (pl_tier l)"
  by (auto simp: layer_source_def with_ownership_def with_authority_def with_lockdown_def
      dest: mcp_source_of_ownership split: if_splits option.splits)

lemma vendor_source_ownership: "vendor_source ue claude = Some s \<Longrightarrow> al_ownership s = OwnerAdmin"
  by (auto simp: vendor_source_def dest: mcp_source_of_ownership split: option.splits)

subsection \<open>When a verdict blocks\<close>

definition mcp_blocked_by ::
    "url_env \<Rightarrow> mcp_policy \<Rightarrow> mcp_server_def \<Rightarrow> policy_subject_origin \<Rightarrow> bool" where
  "mcp_blocked_by ue sources server origin \<longleftrightarrow>
     (\<exists>s \<in> set sources. mcp_source_binds origin s
        \<and> (source_denies ue server s
           \<or> al_managed_only s \<and> \<not> grants_exception ue sources server (al_ownership s)
           \<or> \<not> allows_ignoring_managed_only ue server s))"

lemma denying_source_None:
  "denying_source ue sources server origin = None \<longleftrightarrow>
     (\<forall>s \<in> set sources. mcp_source_binds origin s \<longrightarrow> \<not> source_denies ue server s)"
  by (auto simp: denying_source_def binding_sources_def find_None_iff)

lemma blocking_allow_source_None:
  "blocking_allow_source ue sources server origin = None \<longleftrightarrow>
     (\<forall>s \<in> set sources. mcp_source_binds origin s \<longrightarrow>
        \<not> (al_managed_only s \<and> \<not> grants_exception ue sources server (al_ownership s))
        \<and> allows_ignoring_managed_only ue server s)"
proof -
  have "blocking_allow_source ue sources server origin = None \<longleftrightarrow>
      find (\<lambda>s. al_managed_only s \<and> \<not> grants_exception ue sources server (al_ownership s))
        (binding_sources origin sources) = None
      \<and> find (\<lambda>s. \<not> allows_ignoring_managed_only ue server s) (binding_sources origin sources) = None"
    by (simp add: blocking_allow_source_def split: option.split)
  then show ?thesis unfolding find_None_iff binding_sources_def by auto
qed

lemma verdict_blocked:
  "(\<exists>r. mcp_verdict_of ue ms server subj = McpBlocked r) \<longleftrightarrow>
     mcp_blocked_by ue (ms_mcp_allowlist ms) server (sj_origin subj)
     \<or> mcp_project_pin_block ue ms server subj \<noteq> None"
proof -
  have "mcp_verdict_of ue ms server subj = McpAllowed \<longleftrightarrow>
      denying_source ue (ms_mcp_allowlist ms) server (sj_origin subj) = None
      \<and> blocking_allow_source ue (ms_mcp_allowlist ms) server (sj_origin subj) = None
      \<and> mcp_project_pin_block ue ms server subj = None"
    by (auto simp: mcp_verdict_of_def Let_def split: option.splits)
  then have "mcp_verdict_of ue ms server subj = McpAllowed \<longleftrightarrow>
      \<not> mcp_blocked_by ue (ms_mcp_allowlist ms) server (sj_origin subj)
      \<and> mcp_project_pin_block ue ms server subj = None"
    unfolding denying_source_None blocking_allow_source_None mcp_blocked_by_def by blast
  then show ?thesis by (metis mcp_verdict.distinct(1) mcp_verdict.exhaust)
qed

lemma grants_exception_iff:
  "grants_exception ue sources server own \<longleftrightarrow>
     (\<exists>s \<in> set sources. accepts_grant_from own (al_ownership s) \<and> matches_allow_entry ue s server)"
  by (auto simp: grants_exception_def list_ex_iff)

subsection \<open>A user cannot lift what an administrator blocks\<close>

lemma admin_sources_kept:
  assumes "clean_base base"
  shows "set (ms_mcp_allowlist (resolve_managed_settings ue tj base claude (filter admin_layer ls)))
     = {s \<in> set (ms_mcp_allowlist (resolve_managed_settings ue tj base claude ls)).
          al_ownership s = OwnerAdmin}"
  using layer_source_ownership [of ue tj] vendor_source_ownership [of ue claude]
  by (force simp: resolve_sources [OF assms] admin_layer_def)

lemma admin_grants_same:
  assumes "set A = {s \<in> set S. al_ownership s = OwnerAdmin}"
  shows "grants_exception ue S server OwnerAdmin \<longleftrightarrow> grants_exception ue A server OwnerAdmin"
  using assms by (auto simp: grants_exception_iff accepts_grant_from_def)

text \<open>
  C8. What the layers of the administrators and the vendor file block, alone, stays blocked when
  the layers a user can write are added, whatever these allow.
\<close>

theorem user_layers_cannot_lift:
  assumes "mcp_verdict_of ue (resolve_managed_settings ue tj (parse_managed_settings_base se) claude
             (filter admin_layer ls)) server subj = McpBlocked r"
  shows "\<exists>r'. mcp_verdict_of ue (resolve_managed_settings ue tj (parse_managed_settings_base se) claude ls)
           server subj = McpBlocked r'"
proof -
  let ?R = "resolve_managed_settings ue tj (parse_managed_settings_base se) claude"
  let ?A = "ms_mcp_allowlist (?R (filter admin_layer ls))" and ?S = "ms_mcp_allowlist (?R ls)"
  have A: "set ?A = {s \<in> set ?S. al_ownership s = OwnerAdmin}"
    by (rule admin_sources_kept [OF parse_base_clean])
  note grants = admin_grants_same [OF A]
  from assms have "mcp_blocked_by ue ?A server (sj_origin subj)
      \<or> mcp_project_pin_block ue (?R (filter admin_layer ls)) server subj \<noteq> None"
    using verdict_blocked by blast
  then have "mcp_blocked_by ue ?S server (sj_origin subj)
      \<or> mcp_project_pin_block ue (?R ls) server subj \<noteq> None"
  proof
    assume "mcp_blocked_by ue ?A server (sj_origin subj)"
    then obtain s where "s \<in> set ?A" "mcp_source_binds (sj_origin subj) s"
      "source_denies ue server s
       \<or> al_managed_only s \<and> \<not> grants_exception ue ?A server (al_ownership s)
       \<or> \<not> allows_ignoring_managed_only ue server s"
      unfolding mcp_blocked_by_def by blast
    then show ?thesis using A grants unfolding mcp_blocked_by_def by auto
  next
    assume pin: "mcp_project_pin_block ue (?R (filter admin_layer ls)) server subj \<noteq> None"
    then obtain p own where p: "ms_project_mcp (?R (filter admin_layer ls)) = PinDisabled p own"
      and scoped: "sj_project_scoped subj" and none: "\<not> grants_exception ue ?A server own"
      by (auto simp: mcp_project_pin_block_def split: policy_pin.splits if_splits)
    have pinned: "admin_pinned (ms_project_mcp (?R (filter admin_layer ls)))"
      using resolve_pin_disabled [OF parse_base_clean, of ue tj se claude "filter admin_layer ls"]
        resolve_admin_pinned [OF parse_base_clean, of ue tj se claude "filter admin_layer ls"] p
      by auto
    then have "own = OwnerAdmin" unfolding p by (auto elim!: admin_pinned.elims)
    have "admin_pinned (ms_project_mcp (?R ls))"
      using pinned unfolding resolve_admin_pinned [OF parse_base_clean] by auto
    then obtain q where "ms_project_mcp (?R ls) = PinDisabled q OwnerAdmin"
      by (auto elim!: admin_pinned.elims)
    then show ?thesis
      using scoped none grants \<open>own = OwnerAdmin\<close> by (simp add: mcp_project_pin_block_def)
  qed
  then show ?thesis using verdict_blocked by blast
qed

subsection \<open>A policy that cannot be read blocks\<close>

definition broken_layer :: "url_env \<Rightarrow> ((string \<times> toml) list \<Rightarrow> json option) \<Rightarrow> policy_layer \<Rightarrow> bool" where
  "broken_layer ue tj l \<longleftrightarrow> policy_table (pl_value l) \<noteq> []
     \<and> (case tj (policy_table (pl_value l)) of
          None \<Rightarrow> True
        | Some j \<Rightarrow> key_is_malformed (parse_mcp_entry_list ue j AllowList)
                    \<or> key_is_malformed (parse_mcp_entry_list ue j DenyList))"

lemma broken_layer_locks:
  "broken_layer ue tj l \<Longrightarrow> \<exists>s. layer_source ue tj l = Some s \<and> al_lockdown s"
  by (auto simp: broken_layer_def layer_source_def with_lockdown_def mcp_source_of_def Let_def
      locks_down_def split: option.splits)

text \<open>
  C11. A layer of any tier but the vendor's, which is advisory, whose MCP lists cannot be read - its
  table does not convert, a list has the wrong type or two spellings that differ, a deny entry is
  unusable - blocks every server of every subject, whatever the other layers grant.
\<close>

theorem broken_policy_blocks_everything:
  assumes "l \<in> set ls" and "broken_layer ue tj l" and "pl_tier l \<noteq> TierVendor"
  shows "\<exists>r. mcp_verdict_of ue (resolve_managed_settings ue tj (parse_managed_settings_base se) claude ls)
           server subj = McpBlocked r"
proof -
  from broken_layer_locks [OF assms(2)] obtain s where s: "layer_source ue tj l = Some s" "al_lockdown s"
    by blast
  have "al_authority s = Native"
    using layer_source_ownership [OF s(1)] assms(3) by (cases "pl_tier l") auto
  moreover have "s \<in> set (ms_mcp_allowlist
      (resolve_managed_settings ue tj (parse_managed_settings_base se) claude ls))"
    unfolding resolve_sources [OF parse_base_clean] using assms(1) s(1) by force
  ultimately show ?thesis
    using s(2) unfolding verdict_blocked mcp_blocked_by_def
    by (auto simp: mcp_source_binds_def allows_ignoring_managed_only_def)
qed

subsection \<open>Marketplace names\<close>

definition layer_extras ::
    "((string \<times> toml) list \<Rightarrow> json option) \<Rightarrow> policy_layer \<Rightarrow> managed_marketplace list" where
  "layer_extras to_json l =
     (if policy_table (pl_value l) = [] then []
      else (case to_json (policy_table (pl_value l)) of
              Some j \<Rightarrow> em_entries (parse_extra_marketplaces j (tier_ownership (pl_tier l)))
            | None \<Rightarrow> []))"

definition admin_claims :: "managed_marketplace list \<Rightarrow> string \<Rightarrow> bool" where
  "admin_claims ms n \<longleftrightarrow> (\<exists>m \<in> set ms. mm_name m = n \<and> mm_ownership m = OwnerAdmin)"

lemma claim_extra_names:
  "mm_name ` set (claim_extra ms e) = insert (mm_name e) (mm_name ` set ms)"
  by (induction ms e rule: claim_extra.induct) auto

lemma claim_extra_distinct:
  "distinct (map mm_name ms) \<Longrightarrow> distinct (map mm_name (claim_extra ms e))"
  by (induction ms e rule: claim_extra.induct) (auto simp: claim_extra_names)

lemma claim_extra_keeps: "admin_claims ms n \<Longrightarrow> admin_claims (claim_extra ms e) n"
  by (induction ms e rule: claim_extra.induct) (auto simp: admin_claims_def)

lemma claim_extra_claims:
  "mm_ownership e = OwnerAdmin \<Longrightarrow> admin_claims (claim_extra ms e) (mm_name e)"
  by (induction ms e rule: claim_extra.induct)
    (auto simp: admin_claims_def, metis policy_layer_ownership.exhaust)

lemma fold_claims_distinct:
  "distinct (map mm_name ms) \<Longrightarrow> distinct (map mm_name (foldl claim_extra ms es))"
  by (induction es arbitrary: ms) (simp_all add: claim_extra_distinct)

lemma fold_claims_keeps: "admin_claims ms n \<Longrightarrow> admin_claims (foldl claim_extra ms es) n"
  by (induction es arbitrary: ms) (simp_all add: claim_extra_keeps)

lemma fold_claims_claims:
  "e \<in> set es \<Longrightarrow> mm_ownership e = OwnerAdmin \<Longrightarrow> admin_claims (foldl claim_extra ms es) (mm_name e)"
  by (induction es arbitrary: ms) (auto simp: claim_extra_claims fold_claims_keeps)

lemma apply_layer_extras:
  "ms_extra_marketplaces (apply_policy_layer ue tj ms l)
     = foldl claim_extra (ms_extra_marketplaces ms) (layer_extras tj l)"
  by (simp add: apply_policy_layer_def layer_extras_def Let_def apply_policy_source_def
      apply_unreadable_policy_source_def split: option.split)

lemma fold_layer_extras:
  "ms_extra_marketplaces (foldl (apply_policy_layer ue tj) ms ls)
     = foldl claim_extra (ms_extra_marketplaces ms) (concat (map (layer_extras tj) ls))"
  by (induction ls arbitrary: ms) (simp_all add: apply_layer_extras)

lemma extra_step_ownership:
  "(\<forall>e \<in> set (em_entries out). mm_ownership e = own) \<Longrightarrow>
     \<forall>e \<in> set (em_entries (extra_step own out m)). mm_ownership e = own"
  by (auto simp: extra_step_def Let_def split: prod.splits option.splits if_splits)

lemma parse_extra_ownership:
  "e \<in> set (em_entries (parse_extra_marketplaces j own)) \<Longrightarrow> mm_ownership e = own"
proof -
  have "\<forall>e \<in> set (em_entries (foldl (extra_step own) out ms)). mm_ownership e = own"
    if "\<forall>e \<in> set (em_entries out). mm_ownership e = own" for out ms
    using that
  proof (induction ms arbitrary: out)
    case (Cons m ms)
    from Cons.IH [OF extra_step_ownership [OF Cons.prems]] show ?case unfolding foldl_Cons .
  qed simp
  from this [of "\<lparr>em_entries = [], em_pin_auto_update_off = False\<rparr>"]
  show "e \<in> set (em_entries (parse_extra_marketplaces j own)) \<Longrightarrow> mm_ownership e = own"
    by (auto simp: parse_extra_marketplaces_def split: policy_key.splits option.splits)
qed

lemma layer_extras_ownership:
  "e \<in> set (layer_extras tj l) \<Longrightarrow> mm_ownership e = tier_ownership (pl_tier l)"
  by (auto simp: layer_extras_def dest: parse_extra_ownership split: if_splits option.splits)

lemma resolve_extras:
  obtains es where "ms_extra_marketplaces
      (resolve_managed_settings ue tj (parse_managed_settings_base se) claude ls)
    = foldl claim_extra (foldl claim_extra []
        (concat (map (layer_extras tj) (sort_key (\<lambda>l. tier_rank (pl_tier l)) ls)))) es"
proof (cases claude)
  case None
  then show thesis
    using base_settings_clean [OF parse_base_clean, of se claude] that [of "[]"]
    by (simp add: resolve_eq Let_def fold_layer_extras)
next
  case (Some jp)
  obtain j p where jp: "jp = (j, p)" by (cases jp)
  show thesis
    using base_settings_clean [OF parse_base_clean, of se claude]
      that [of "em_entries (parse_extra_marketplaces j (tier_ownership TierVendor))"] Some jp
    by (simp add: resolve_eq Let_def fold_layer_extras apply_policy_source_def)
qed

text \<open>
  C14. The marketplaces a policy provisions have distinct names, and a name an administrator's
  layer registers stays an administrator's, whatever a user's layer registers under it.
\<close>

theorem marketplace_claims_stand:
  "distinct (map mm_name (ms_extra_marketplaces
      (resolve_managed_settings ue tj (parse_managed_settings_base se) claude ls)))
   \<and> (\<forall>l \<in> set ls. \<forall>e \<in> set (layer_extras tj l). admin_layer l \<longrightarrow>
        admin_claims (ms_extra_marketplaces
          (resolve_managed_settings ue tj (parse_managed_settings_base se) claude ls)) (mm_name e))"
proof -
  let ?base = "base_settings (parse_managed_settings_base se) claude"
  let ?ls = "sort_key (\<lambda>l. tier_rank (pl_tier l)) ls"
  let ?mid = "foldl claim_extra [] (concat (map (layer_extras tj) ?ls))"
  obtain es where extras: "ms_extra_marketplaces
      (resolve_managed_settings ue tj (parse_managed_settings_base se) claude ls)
        = foldl claim_extra ?mid es"
    by (rule resolve_extras)
  have "admin_claims ?mid (mm_name e)"
    if "l \<in> set ls" "e \<in> set (layer_extras tj l)" "admin_layer l" for l e
    using that layer_extras_ownership [OF that(2)]
    by (intro fold_claims_claims) (auto simp: admin_layer_def)
  then show ?thesis
    unfolding extras by (auto simp: fold_claims_distinct fold_claims_keeps)
qed

subsection \<open>The environment of the settings files\<close>

definition env_in_file :: "settings_env \<Rightarrow> string \<Rightarrow> path \<Rightarrow> string option" where
  "env_in_file se k p =
     (case Option.bind (load_claude_settings se p) cs_env of
        None \<Rightarrow> None | Some env \<Rightarrow> map_of env k)"

lemma merge_env_one:
  "merge_env se m p k = (case env_in_file se k p of Some v \<Rightarrow> Some v | None \<Rightarrow> m k)"
  by (simp add: merge_env_def env_in_file_def map_add_def split: option.split)

lemma merge_env_rev:
  "foldl (merge_env se) m (rev ps) k =
     (case find_map (env_in_file se k) ps of Some v \<Rightarrow> Some v | None \<Rightarrow> m k)"
  by (induction ps) (simp_all add: merge_env_one split: option.splits)

text \<open>
  A variable of the merged environment has the value of the most specific settings file that
  sets it: the local file before the shared one, the working directory before its parents, the
  project before the home directory.
\<close>

theorem env_first_file_wins:
  "load_claude_env_with_project se cwd trusted k =
     (if is_claude_import_marked se then None
      else find_map (env_in_file se k) (claude_settings_paths_for_trust se cwd trusted))"
  by (simp add: load_claude_env_with_project_def merge_env_rev split: option.split)

subsection \<open>Catch-all rules under the pin\<close>

lemma set_tag: "set (tag_with_source rules src) = (\<lambda>r. \<lparr>sd_value = r, sd_source = src\<rparr>) ` set rules"
  by (simp add: tag_with_source_def)

lemma extract_source:
  "s \<in> set (extract_toml_permissions se src v) \<Longrightarrow> sd_source s = src"
  by (auto simp: extract_toml_permissions_def split: option.splits)

lemma config_rules_source:
  "s \<in> set (load_config_toml_permissions se cwd t) \<Longrightarrow> \<not> is_admin_source (sd_source s)"
  by (auto simp: load_config_toml_permissions_def config_file_permissions_def Let_def
      dest!: extract_source split: option.splits if_splits)

lemma managed_config_source:
  "s \<in> set (managed_config_permissions se) \<Longrightarrow> \<not> is_admin_source (sd_source s)"
  by (auto simp: managed_config_permissions_def dest!: extract_source)

lemma mode_rules_pinned:
  "managed_mode_part managed (Some reason) = (rules, skips, pp, b) \<Longrightarrow> s \<in> set rules \<Longrightarrow>
     \<not> is_catchall_allow w (sd_value s)"
  by (auto simp: managed_mode_part_def synthetic_rules_for_default_mode_def Let_def plain_allow_def
      tag_with_source_def is_catchall_allow_def split: option.splits if_splits)

definition settings_json_of ::
    "settings_env \<Rightarrow> path \<Rightarrow> resolve_inputs \<Rightarrow> string option
       \<Rightarrow> (permission_config \<times> skipped_permission list \<times> path) option" where
  "settings_json_of se cwd inputs block =
     (if is_claude_import_marked se then None
      else resolve_claude_settings_inner se cwd (ri_project_trusted inputs) block
        (if ms_default_mode (ri_managed inputs) \<noteq> None then SkipManagedOwns else ApplyUserMode))"

definition base_rules_of ::
    "settings_env \<Rightarrow> path \<Rightarrow> resolve_inputs \<Rightarrow> permission_rule sourced list
       \<Rightarrow> permission_rule sourced list" where
  "base_rules_of se cwd inputs mode_rules =
     load_requirements_permissions se @ ms_permissions (ri_managed inputs) @ mode_rules
     @ ri_managed_config_rules inputs
     @ load_config_toml_permissions se cwd (ri_project_trusted inputs)"

lemma resolve_inner_shape:
  assumes "map_option (yolo_pin_message \<circ> yl_reason) (ri_yolo_lock inputs) = block"
    and "managed_mode_part (ri_managed inputs) block = (mode_rules, mode_skips, mp, mb)"
    and "settings_part (ri_managed inputs) (settings_json_of se cwd inputs block) mp mb
           = (settings, skips, pp, b)"
    and "drop_untrusted_catchall_allows (se_world se)
           (base_rules_of se cwd inputs mode_rules @ settings) block = (kept, dropped)"
  shows "resolve_permissions_with_provenance_inner se cwd inputs =
    (if kept = [] \<and> pp = PromptAsk \<and> (mode_skips @ skips) @ dropped = [] \<and> \<not> b then None
     else Some
       \<lparr>rp_config = \<lparr>pc_rules = map sd_value kept, pc_prompt_policy = pp,
                     pc_default_mode_configured = b\<rparr>,
        rp_sources = map sd_source kept, rp_skipped = (mode_skips @ skips) @ dropped,
        rp_yolo_lock = ri_yolo_lock inputs\<rparr>)"
  using assms(2-4)
  unfolding resolve_permissions_with_provenance_inner_def Let_def assms(1)
    settings_json_of_def base_rules_of_def
  by (simp only: prod.case)

lemma resolve_inner_rules:
  assumes "resolve_permissions_with_provenance_inner se cwd inputs = Some rp"
    and "ri_yolo_lock inputs = Some lock"
  obtains kept mode_rules user_rules where
    "pc_rules (rp_config rp) = map sd_value kept" "rp_sources rp = map sd_source kept"
    "\<forall>s \<in> set kept. \<not> dropped_by_pin (se_world se) s"
    "\<forall>s \<in> set mode_rules. \<not> is_catchall_allow (se_world se) (sd_value s)"
    "\<forall>s \<in> set user_rules. \<not> is_admin_source (sd_source s)"
    "set kept \<subseteq> set (load_requirements_permissions se) \<union> set (ms_permissions (ri_managed inputs))
       \<union> set mode_rules \<union> set (ri_managed_config_rules inputs) \<union> set user_rules"
proof -
  let ?block = "Some (yolo_pin_message (yl_reason lock))"
  obtain mode_rules skips mp mb where m:
    "managed_mode_part (ri_managed inputs) ?block = (mode_rules, skips, mp, mb)"
    by (cases "managed_mode_part (ri_managed inputs) ?block")
  obtain settings sskips pp b where u:
    "settings_part (ri_managed inputs) (settings_json_of se cwd inputs ?block) mp mb
       = (settings, sskips, pp, b)"
    by (cases "settings_part (ri_managed inputs) (settings_json_of se cwd inputs ?block) mp mb")
  let ?every = "base_rules_of se cwd inputs mode_rules @ settings"
  let ?kept = "filter (\<lambda>s. \<not> dropped_by_pin (se_world se) s) ?every"
  obtain dropped where d: "drop_untrusted_catchall_allows (se_world se) ?every ?block = (?kept, dropped)"
    by (simp add: drop_untrusted_catchall_allows_def)
  have "map_option (yolo_pin_message \<circ> yl_reason) (ri_yolo_lock inputs) = ?block"
    using assms(2) by simp
  from resolve_inner_shape [OF this m u d]
  have "pc_rules (rp_config rp) = map sd_value ?kept \<and> rp_sources rp = map sd_source ?kept"
    using assms(1) by (auto split: if_splits)
  moreover have "\<not> is_admin_source (sd_source s)" if "s \<in> set settings" for s
    using u that by (auto simp: settings_part_def set_tag split: option.splits)
  ultimately show thesis
    using config_rules_source [of _ se cwd "ri_project_trusted inputs"] mode_rules_pinned [OF m]
    by (intro that [of ?kept mode_rules
        "load_config_toml_permissions se cwd (ri_project_trusted inputs) @ settings"])
      (auto simp: base_rules_of_def)
qed

text \<open>A rule of the requirements that an administrator wrote comes from a system layer.\<close>

lemma system_layer_of_rule:
  assumes "s \<in> set (load_requirements_permissions se)" and "is_admin_source (sd_source s)"
  shows "\<exists>l \<in> set (se_requirements se). rl_is_system l
           \<and> s \<in> set (extract_toml_permissions se (sd_source s) (rl_value l))"
proof -
  obtain l where l: "l \<in> set (se_requirements se)"
    "s \<in> set (extract_toml_permissions se
        (if rl_is_system l then SourceSystemRequirements (requirements_label (se_mdm_label se) (rl_source l))
         else SourceRequirements (requirements_label (se_mdm_label se) (rl_source l))) (rl_value l))"
    using assms(1) by (auto simp: load_requirements_permissions_def Let_def)
  moreover have "sd_source s = src" if "s \<in> set (extract_toml_permissions se src v)" for src v
    using that by (auto simp: extract_toml_permissions_def set_tag Let_def split: option.splits)
  ultimately show ?thesis using assms(2) by (cases "rl_is_system l") fastforce+
qed

text \<open>
  C10. While always-approve is pinned off, every catch-all allow rule of the resolved configuration
  was written by an administrator: it was read from a requirements layer the loader found in a
  system location, or is one of the permissions of the managed settings. The requirements of the
  user, the rules of a default mode, of the user and of the project contribute none.
\<close>

theorem pinned_rules_are_trusted:
  assumes "resolve_permissions_with_provenance se managed cwd trusted = (Some lock, Some rp)"
  shows "length (rp_sources rp) = length (pc_rules (rp_config rp))
    \<and> (\<forall>i < length (pc_rules (rp_config rp)).
         is_catchall_allow (se_world se) (pc_rules (rp_config rp) ! i) \<longrightarrow>
           is_admin_source (rp_sources rp ! i)
           \<and> (\<lparr>sd_value = pc_rules (rp_config rp) ! i, sd_source = rp_sources rp ! i\<rparr> \<in> set (ms_permissions managed)
              \<or> (\<exists>l \<in> set (se_requirements se). rl_is_system l
                    \<and> \<lparr>sd_value = pc_rules (rp_config rp) ! i, sd_source = rp_sources rp ! i\<rparr>
                        \<in> set (extract_toml_permissions se (rp_sources rp ! i) (rl_value l)))))"
proof -
  let ?inputs = "resolve_inputs_live se managed trusted (Some lock)"
  have "resolve_permissions_with_provenance_inner se cwd ?inputs = Some rp"
    using assms by (auto simp: resolve_permissions_with_provenance_def Let_def)
  moreover have "ri_yolo_lock ?inputs = Some lock" by (simp add: resolve_inputs_live_def)
  ultimately obtain kept mode_rules user_rules where k:
    "pc_rules (rp_config rp) = map sd_value kept" "rp_sources rp = map sd_source kept"
    "\<forall>s \<in> set kept. \<not> dropped_by_pin (se_world se) s"
    "\<forall>s \<in> set mode_rules. \<not> is_catchall_allow (se_world se) (sd_value s)"
    "\<forall>s \<in> set user_rules. \<not> is_admin_source (sd_source s)"
    "set kept \<subseteq> set (load_requirements_permissions se) \<union> set (ms_permissions managed)
       \<union> set mode_rules \<union> set (managed_config_permissions se) \<union> set user_rules"
    by (rule resolve_inner_rules) (simp add: resolve_inputs_live_def)
  have "is_admin_source (sd_source s)
      \<and> (s \<in> set (ms_permissions managed)
         \<or> (\<exists>l \<in> set (se_requirements se). rl_is_system l
              \<and> s \<in> set (extract_toml_permissions se (sd_source s) (rl_value l))))"
    if "s \<in> set kept" "is_catchall_allow (se_world se) (sd_value s)" for s
    using that k(3-6) managed_config_source [of s se] system_layer_of_rule [of s se] by (auto simp: dropped_by_pin_def)
  moreover have eta: "\<lparr>sd_value = sd_value s, sd_source = sd_source s\<rparr> = s"
    for s :: "permission_rule sourced" by simp
  ultimately show ?thesis unfolding k(1,2) by (simp add: eta)
qed

subsection \<open>A mode the managed settings set\<close>

text \<open>
  C12. A default mode of the managed settings is the prompt policy of every session, whatever the
  files of the user and of the project say and whatever is pinned, and no client can replace it by
  the hint to allow everything.
\<close>

theorem managed_mode_outranks:
  assumes "ms_default_mode managed = Some mode"
  shows "\<exists>c. resolve_permission_config_with_fallback_pinned se managed cwd trusted lock = Some c
    \<and> pc_prompt_policy c = dme_prompt_policy (default_mode_effects_of mode)
    \<and> pc_default_mode_configured c
    \<and> apply_permission_mode_hint (Some c) requested block = (False, Some c)"
proof -
  let ?inputs = "resolve_inputs_live se managed trusted lock"
  let ?block = "map_option (yolo_pin_message \<circ> yl_reason) lock"
  obtain mode_rules skips where m: "managed_mode_part managed ?block
      = (mode_rules, skips, dme_prompt_policy (default_mode_effects_of mode), True)"
    using assms by (cases "synthetic_rules_for_default_mode mode ?block")
      (auto simp: managed_mode_part_def Let_def)
  let ?json = "settings_json_of se cwd ?inputs ?block"
  obtain settings sskips where u: "settings_part managed ?json
      (dme_prompt_policy (default_mode_effects_of mode)) True
      = (settings, sskips, dme_prompt_policy (default_mode_effects_of mode), True)"
    using assms by (cases ?json) (auto simp: settings_part_def)
  obtain kept dropped where d: "drop_untrusted_catchall_allows (se_world se)
      (base_rules_of se cwd ?inputs mode_rules @ settings) ?block = (kept, dropped)"
    by (cases "drop_untrusted_catchall_allows (se_world se)
      (base_rules_of se cwd ?inputs mode_rules @ settings) ?block")
  have "ri_managed ?inputs = managed" and "ri_yolo_lock ?inputs = lock"
    by (simp_all add: resolve_inputs_live_def)
  with resolve_inner_shape [of ?inputs ?block, OF _ _ _ d] m u show ?thesis
    by (simp add: resolve_permission_config_with_fallback_pinned_def apply_permission_mode_hint_def
        split: option.split)
qed

subsection \<open>An untrusted project has no say\<close>

definition user_files :: "settings_env \<Rightarrow> path list" where
  "user_files se =
     (case w_user_grok_home (se_world se) of
        Some g \<Rightarrow> [path_push g ''config.toml''] | None \<Rightarrow> [])
     @ global_claude_settings_paths se"

text \<open>The disk with other files, other configurations and another repository.\<close>

definition with_files ::
    "(path \<Rightarrow> file_kind option) \<Rightarrow> (path \<Rightarrow> string option) \<Rightarrow> (path \<Rightarrow> toml option)
       \<Rightarrow> (path \<Rightarrow> path option) \<Rightarrow> settings_env \<Rightarrow> settings_env" where
  "with_files m r c g se =
     se\<lparr>se_metadata := m, se_read := r, se_load_config := c, se_git_workdir := g\<rparr>"

lemma with_files_simps [simp]:
  "se_world (with_files m r c g se) = se_world se"
  "se_metadata (with_files m r c g se) = m" "se_read (with_files m r c g se) = r"
  "se_load_config (with_files m r c g se) = c"
  "se_json_parse (with_files m r c g se) = se_json_parse se"
  "se_toml_parse (with_files m r c g se) = se_toml_parse se"
  "se_toml_rules (with_files m r c g se) = se_toml_rules se"
  "se_home (with_files m r c g se) = se_home se"
  "se_requirements (with_files m r c g se) = se_requirements se"
  "se_mdm_label (with_files m r c g se) = se_mdm_label se"
  "se_marker_override (with_files m r c g se) = se_marker_override se"
  by (simp_all add: with_files_def)

definition same_user_files ::
    "settings_env \<Rightarrow> (path \<Rightarrow> file_kind option) \<Rightarrow> (path \<Rightarrow> string option) \<Rightarrow> (path \<Rightarrow> toml option)
       \<Rightarrow> bool" where
  "same_user_files se m r c \<longleftrightarrow>
     list_all (\<lambda>p. m p = se_metadata se p \<and> r p = se_read se p \<and> c p = se_load_config se p)
       (user_files se)"

definition scan_named :: "settings_scan \<Rightarrow> bool" where
  "scan_named sc \<longleftrightarrow>
     (sc_rules sc \<noteq> [] \<or> sc_skipped sc \<noteq> [] \<longrightarrow> sc_primary_source sc \<noteq> None \<or> sc_mode_source sc \<noteq> None)
     \<and> (sc_applied_mode sc \<noteq> None \<longrightarrow> sc_mode_source sc \<noteq> None)
     \<and> (sc_prompt_policy sc \<noteq> PromptAsk \<longrightarrow> sc_mode_source sc \<noteq> None)"

lemma scan_file_named:
  "scan_named sc \<Longrightarrow> scan_named (scan_settings_file se um sc p)"
  by (auto simp: scan_named_def scan_settings_file_def scan_permissions_def scan_default_mode_def Let_def
      split: option.splits prod.splits)

lemma scan_fold_named:
  "scan_named sc \<Longrightarrow> scan_named (foldl (scan_settings_file se um) sc ps)"
  by (induction ps arbitrary: sc) (simp_all add: scan_file_named)

lemma resolve_claude_cwd:
  "resolve_claude_settings_inner se cwd False block um = resolve_claude_settings_inner se cwd' False block um"
proof -
  define sc where "sc = foldl (scan_settings_file se um) scan_start (global_claude_settings_paths se)"
  have "scan_named sc" unfolding sc_def
    by (rule scan_fold_named) (simp add: scan_named_def scan_start_def)
  then show ?thesis
    unfolding resolve_claude_settings_inner_def Let_def claude_settings_paths_for_trust_def if_False
      sc_def [symmetric]
    by (cases "sc_applied_mode sc"; cases "sc_primary_source sc"; cases "sc_mode_source sc")
      (auto simp: scan_named_def split: prod.splits)
qed

lemma foldl_same: "(\<And>x s. x \<in> set xs \<Longrightarrow> f s x = g s x) \<Longrightarrow> foldl f s xs = foldl g s xs"
  by (induction xs arbitrary: s) simp_all

lemma same_file:
  "same_user_files se m r c \<Longrightarrow> p \<in> set (user_files se) \<Longrightarrow>
     m p = se_metadata se p \<and> r p = se_read se p \<and> c p = se_load_config se p"
  by (simp add: same_user_files_def list_all_iff)

lemma same_load:
  "same_user_files se m r c \<Longrightarrow> p \<in> set (user_files se) \<Longrightarrow>
     load_claude_settings (with_files m r c g se) p = load_claude_settings se p"
  using same_file [of se m r c p]
  by (simp add: load_claude_settings_def path_is_file_def)

lemma same_global:
  "global_claude_settings_paths (with_files m r c g se) = global_claude_settings_paths se"
  by (simp add: global_claude_settings_paths_def)

lemma global_user_file: "p \<in> set (global_claude_settings_paths se) \<Longrightarrow> p \<in> set (user_files se)"
  by (simp add: user_files_def)

lemma same_marker:
  assumes "same_user_files se m r c"
  shows "is_claude_import_marked (with_files m r c g se) = is_claude_import_marked se"
proof (cases "w_user_grok_home (se_world se)")
  case None
  then show ?thesis by (simp add: is_claude_import_marked_def)
next
  case (Some h)
  then have "path_push h ''config.toml'' \<in> set (user_files se)" by (simp add: user_files_def)
  from same_file [OF assms this] Some show ?thesis
    by (simp add: is_claude_import_marked_def)
qed

lemma same_extract: "extract_toml_permissions (with_files m r c g se) = extract_toml_permissions se"
proof -
  have "parse_toml_permission_section (with_files m r c g se) = parse_toml_permission_section se"
    unfolding parse_toml_permission_section_def with_files_simps ..
  then show ?thesis by (intro ext) (simp only: extract_toml_permissions_def)
qed

lemma same_config:
  assumes "same_user_files se m r c"
  shows "load_config_toml_permissions (with_files m r c g se) cwd' False
           = load_config_toml_permissions se cwd False"
proof (cases "w_user_grok_home (se_world se)")
  case None
  then show ?thesis by (simp add: load_config_toml_permissions_def)
next
  case (Some h)
  then have "path_push h ''config.toml'' \<in> set (user_files se)" by (simp add: user_files_def)
  from same_file [OF assms this] Some show ?thesis
    by (simp add: load_config_toml_permissions_def config_file_permissions_def path_is_file_def
        same_extract Let_def split: option.split)
qed

lemma same_scan:
  assumes "same_user_files se m r c"
  shows "resolve_claude_settings_inner (with_files m r c g se) cwd' False block um
           = resolve_claude_settings_inner se cwd False block um"
proof -
  have "foldl (scan_settings_file (with_files m r c g se) um) scan_start (global_claude_settings_paths se)
      = foldl (scan_settings_file se um) scan_start (global_claude_settings_paths se)"
    by (rule foldl_same) (simp add: scan_settings_file_def same_load [OF assms] global_user_file)
  then have "resolve_claude_settings_inner (with_files m r c g se) cwd' False block um
      = resolve_claude_settings_inner se cwd' False block um"
    by (simp add: resolve_claude_settings_inner_def claude_settings_paths_for_trust_def same_global)
  then show ?thesis using resolve_claude_cwd by metis
qed

text \<open>
  C9. In a folder that is not trusted the resolved rules, sources, mode and skips, and the
  environment of the tools, are the same for every working directory, every repository and every
  content of the disk outside the configuration and the settings in the user's own directories.
\<close>

theorem untrusted_project_is_inert:
  assumes "same_user_files se m r c" and "\<not> ri_project_trusted inputs"
  shows "resolve_permissions_with_provenance_inner (with_files m r c g se) cwd' inputs
           = resolve_permissions_with_provenance_inner se cwd inputs
    \<and> load_claude_env_with_project (with_files m r c g se) cwd' False
           = load_claude_env_with_project se cwd False"
proof
  let ?se = "with_files m r c g se"
  have reqs: "load_requirements_permissions ?se = load_requirements_permissions se"
    by (simp add: load_requirements_permissions_def same_extract)
  let ?block = "map_option (yolo_pin_message \<circ> yl_reason) (ri_yolo_lock inputs)"
  have json: "settings_json_of ?se cwd' inputs ?block = settings_json_of se cwd inputs ?block"
    using assms(2)
    by (simp add: settings_json_of_def same_marker [OF assms(1)] same_scan [OF assms(1), of g cwd' _ _ cwd])
  have base: "base_rules_of ?se cwd' inputs mr = base_rules_of se cwd inputs mr" for mr
    using assms(2) by (simp add: base_rules_of_def reqs same_config [OF assms(1), of g cwd' cwd])
  obtain mr mk mp mb where m: "managed_mode_part (ri_managed inputs) ?block = (mr, mk, mp, mb)"
    by (cases "managed_mode_part (ri_managed inputs) ?block")
  obtain sr sk pp b where u:
    "settings_part (ri_managed inputs) (settings_json_of se cwd inputs ?block) mp mb = (sr, sk, pp, b)"
    by (cases "settings_part (ri_managed inputs) (settings_json_of se cwd inputs ?block) mp mb")
  obtain kept dropped where d: "drop_untrusted_catchall_allows (se_world se)
      (base_rules_of se cwd inputs mr @ sr) ?block = (kept, dropped)"
    by (cases "drop_untrusted_catchall_allows (se_world se)
      (base_rules_of se cwd inputs mr @ sr) ?block")
  show "resolve_permissions_with_provenance_inner ?se cwd' inputs
      = resolve_permissions_with_provenance_inner se cwd inputs"
    unfolding resolve_inner_shape [OF refl m u d]
    using resolve_inner_shape [where se = ?se and cwd = cwd', OF refl m, unfolded json base with_files_simps,
        OF u d] .
  have "foldl (merge_env ?se) Map.empty (rev (global_claude_settings_paths se))
      = foldl (merge_env se) Map.empty (rev (global_claude_settings_paths se))"
    by (rule foldl_same) (simp add: merge_env_def same_load [OF assms(1)] global_user_file)
  then show "load_claude_env_with_project ?se cwd' False = load_claude_env_with_project se cwd False"
    by (simp add: load_claude_env_with_project_def claude_settings_paths_for_trust_def same_global
        same_marker [OF assms(1)])
qed

subsection \<open>Concrete layers and files\<close>

text \<open>A conversion to JSON for strings, booleans, arrays and tables.\<close>

fun sample_json :: "toml \<Rightarrow> json" where
  "sample_json (TString s) = JString s"
| "sample_json (TBoolean b) = JBool b"
| "sample_json (TArray xs) = JArray (map sample_json xs)"
| "sample_json (TTable t) = JObject (map (\<lambda>kv. (fst kv, sample_json (snd kv))) t)"
| "sample_json _ = JNull"

definition sample_to_json :: "(string \<times> toml) list \<Rightarrow> json option" where
  "sample_to_json t = Some (JObject (map (\<lambda>kv. (fst kv, sample_json (snd kv))) t))"

definition named_servers :: "string \<Rightarrow> toml" where
  "named_servers n = TArray [TTable [(''serverName'', TString n)]]"

definition admin_denies :: policy_layer where
  "admin_denies = \<lparr>pl_tier = TierSystemManaged, pl_path = ''/etc/grok/managed_config.toml'',
     pl_value = TTable [(''denied_mcp_servers'', named_servers ''evil'')]\<rparr>"

definition user_allows :: policy_layer where
  "user_allows = \<lparr>pl_tier = TierUserManaged, pl_path = ''/home/u/.grok/managed_config.toml'',
     pl_value = TTable [(''allowed_mcp_servers'', named_servers ''evil'')]\<rparr>"

definition misspelt_layer :: policy_layer where
  "misspelt_layer = \<lparr>pl_tier = TierSystemManaged, pl_path = ''/etc/grok/managed_config.toml'',
     pl_value = TTable [(''allowed_mcp_servers'', TString ''good'')]\<rparr>"

definition market_layer :: "policy_layer_tier \<Rightarrow> string \<Rightarrow> policy_layer" where
  "market_layer tier url = \<lparr>pl_tier = tier, pl_path = ''/policy'',
     pl_value = TTable [(''extraKnownMarketplaces'', TTable [(''corp'', TTable [(''source'',
       TTable [(''source'', TString ''git''), (''url'', TString url)])])])]\<rparr>"

definition empty_env :: settings_env where
  "empty_env =
     \<lparr>se_world = sample_world, se_json_parse = (\<lambda>_. None), se_toml_parse = (\<lambda>_. None),
      se_parsed_permissions = (\<lambda>_. None), se_toml_rules = (\<lambda>_. None), se_metadata = (\<lambda>_. None),
      se_read = (\<lambda>_. None), se_home = Some ''/home/u'', se_git_workdir = (\<lambda>_. None),
      se_load_config = (\<lambda>_. None), se_requirements = [], se_managed_config = [],
      se_mdm_label = ''mdm'', se_marker_override = False\<rparr>"

definition evil :: mcp_server_def where
  "evil = ServerStdio ''evil'' ''/bin/evil'' []"

definition foreign :: mcp_subject where
  "foreign = \<lparr>sj_origin = ForeignOrigin, sj_project_scoped = False\<rparr>"

lemma sample_blocked:
  "mcp_verdict_of sample_urls (resolve_managed_settings sample_urls sample_to_json
     (parse_managed_settings_base empty_env) None (filter admin_layer [user_allows, admin_denies]))
     evil foreign = McpBlocked (BlockDeny ''/etc/grok/managed_config.toml'')"
  by code_simp

theorem user_layers_cannot_lift_witness:
  "\<exists>r'. mcp_verdict_of sample_urls (resolve_managed_settings sample_urls sample_to_json
     (parse_managed_settings_base empty_env) None [user_allows, admin_denies]) evil foreign
       = McpBlocked r'"
  by (rule user_layers_cannot_lift [OF sample_blocked])

theorem broken_policy_blocks_everything_witness:
  "\<exists>r. mcp_verdict_of sample_urls (resolve_managed_settings sample_urls sample_to_json
     (parse_managed_settings_base empty_env) None [misspelt_layer]) evil foreign = McpBlocked r"
proof -
  have "broken_layer sample_urls sample_to_json misspelt_layer" by code_simp
  moreover have "pl_tier misspelt_layer \<noteq> TierVendor" by code_simp
  ultimately show ?thesis
    using broken_policy_blocks_everything [of misspelt_layer "[misspelt_layer]"] by simp
qed

lemma market_extras:
  "layer_extras sample_to_json (market_layer TierSystemManaged url) =
     [\<lparr>mm_name = ''corp'', mm_kind = MarketGit url None, mm_ownership = OwnerAdmin\<rparr>]"
  by (simp add: layer_extras_def market_layer_def policy_table_def sample_to_json_def
      MANAGED_POLICY_CONFIG_KEYS_def parse_extra_marketplaces_def policy_field_def extra_step_def
      policy_bool_def marketplace_source_from_json_def str_field_def List.map_filter_def)

theorem marketplace_claims_stand_witness:
  "admin_claims (ms_extra_marketplaces (resolve_managed_settings sample_urls sample_to_json
     (parse_managed_settings_base empty_env) None
     [market_layer TierUserManaged ''https://squat'', market_layer TierSystemManaged ''https://corp'']))
     ''corp''"
  using marketplace_claims_stand [of sample_urls sample_to_json empty_env None
      "[market_layer TierUserManaged ''https://squat'', market_layer TierSystemManaged ''https://corp'']"]
    market_extras [of "''https://corp''"]
  by (simp add: admin_layer_def market_layer_def)

text \<open>System requirements that pin always-approve and allow every command, and a user's own.\<close>

definition pinned_env :: settings_env where
  "pinned_env = empty_env\<lparr>se_requirements :=
     [\<lparr>rl_value = TTable [(''permission'', TTable [(''allow'', TArray [TString ''Bash''])])],
       rl_source = ReqFile ''/home/u/.grok/requirements.toml'', rl_is_system = False\<rparr>,
      \<lparr>rl_value = TTable [(''ui'', TTable [(''disable_bypass_permissions_mode'', TBoolean True)]),
                         (''permission'', TTable [(''allow'', TArray [TString ''Bash''])])],
       rl_source = ReqFile ''/etc/grok/requirements.toml'', rl_is_system = True\<rparr>]\<rparr>"

lemma pinned_resolution:
  "resolve_permissions_with_provenance pinned_env managed_settings_default ''/repo'' True =
     (let lock = \<lparr>yl_source_label = ''/etc/grok/requirements.toml'',
                  yl_reason = DisableBypassPermissionsMode\<rparr>
      in (Some lock, Some
       \<lparr>rp_config = \<lparr>pc_rules = [plain_allow ToolBash], pc_prompt_policy = PromptAsk,
                     pc_default_mode_configured = False\<rparr>,
        rp_sources = [SourceSystemRequirements ''/etc/grok/requirements.toml''],
        rp_skipped = [\<lparr>sp_rule = ''allow * (catch-all)'',
                       sp_reason = yolo_pin_message DisableBypassPermissionsMode\<rparr>],
        rp_yolo_lock = Some lock\<rparr>))"
  by code_simp

theorem pinned_rules_are_trusted_witness:
  "is_catchall_allow sample_world (plain_allow ToolBash)
   \<and> (\<exists>l \<in> set (se_requirements pinned_env). rl_is_system l
        \<and> \<lparr>sd_value = plain_allow ToolBash,
           sd_source = SourceSystemRequirements ''/etc/grok/requirements.toml''\<rparr>
             \<in> set (extract_toml_permissions pinned_env
                     (SourceSystemRequirements ''/etc/grok/requirements.toml'') (rl_value l)))"
proof -
  have c: "is_catchall_allow sample_world (plain_allow ToolBash)" by code_simp
  then show ?thesis
    using pinned_rules_are_trusted [OF pinned_resolution [unfolded Let_def]]
    by (simp add: pinned_env_def empty_env_def managed_settings_default_def)
qed

theorem managed_mode_outranks_witness:
  "\<exists>c. resolve_permission_config_with_fallback_pinned pinned_env
         (managed_settings_default\<lparr>ms_default_mode := Some ModeDontAsk\<rparr>) ''/repo'' True None = Some c
    \<and> pc_prompt_policy c = PromptDeny
    \<and> pc_default_mode_configured c
    \<and> apply_permission_mode_hint (Some c) (Some ''alwaysAllow'') None = (False, Some c)"
  using managed_mode_outranks [of "managed_settings_default\<lparr>ms_default_mode := Some ModeDontAsk\<rparr>"
      ModeDontAsk pinned_env "''/repo''" True None "Some ''alwaysAllow''" None]
  by (simp add: no_effects_def)

text \<open>A repository that brings its own settings file.\<close>

theorem untrusted_project_is_inert_witness:
  "resolve_permissions_with_provenance_inner
     (with_files (\<lambda>p. if p = ''/repo/.claude/settings.json'' then Some RegularFile else None)
        (\<lambda>p. if p = ''/repo/.claude/settings.json'' then Some ''settings'' else None) (\<lambda>_. None)
        (\<lambda>_. Some ''/repo'') empty_env) ''/repo''
     (resolve_inputs_live empty_env managed_settings_default False None)
   = resolve_permissions_with_provenance_inner empty_env ''/''
     (resolve_inputs_live empty_env managed_settings_default False None)"
proof -
  have "same_user_files empty_env
      (\<lambda>p. if p = ''/repo/.claude/settings.json'' then Some RegularFile else None)
      (\<lambda>p. if p = ''/repo/.claude/settings.json'' then Some ''settings'' else None) (\<lambda>_. None)"
    by code_simp
  moreover have "\<not> ri_project_trusted (resolve_inputs_live empty_env managed_settings_default False None)"
    by (simp add: resolve_inputs_live_def)
  ultimately show ?thesis by (rule untrusted_project_is_inert [THEN conjunct1])
qed

end
