(* ===== verification/GB_Conversation.thy ===== *)
theory GB_Conversation
  imports GB_Search GB_TokenEstimation
begin

section \<open>Conversations (xai-grok-sampling-types/src/conversation.rs)\<close>

text \<open>
  The items of a conversation, their constructors, and the functions on whole conversations that
  need no backend: stripping images, cutting at a prompt, repairing tool calls without a result.
  Of the Responses API types of the crate \<open>async-openai\<close> (\<open>rs\<close>) only the fields the code reads are
  kept. The JSON parser is the parameter \<open>json_ok\<close> of the functions that use it.
\<close>

subsection \<open>Items\<close>

datatype content_part = TextPart string | ImagePart string

datatype synthetic_reason =
  CompactionMeta | SystemReminder | LengthContinue | ProjectInstructions | AutoContinue
| AutoRecovery | ReasonInterjection | ReasonAgentMessage | TaskCompleted | SubagentCompleted
| NotificationDrain | GoalSummary | GoalClassifierNudge | SchedulerFired | StopHookFeedback
| WorkingDirectorySwitch | ReasonUnknown

fun starts_prompt_turn :: "synthetic_reason \<Rightarrow> bool" where
  "starts_prompt_turn ReasonAgentMessage = True"
| "starts_prompt_turn ReasonUnknown = True"
| "starts_prompt_turn TaskCompleted = True"
| "starts_prompt_turn SubagentCompleted = True"
| "starts_prompt_turn NotificationDrain = True"
| "starts_prompt_turn GoalClassifierNudge = True"
| "starts_prompt_turn SchedulerFired = True"
| "starts_prompt_turn _ = False"

datatype prior_turn_interrupt =
  MidTurnAbort | PermissionRejected | PermissionCancelled | InterruptUnknown

datatype reasoning_effort =
  EffortNone | EffortMinimal | EffortLow | EffortMedium | EffortHigh | EffortXhigh | EffortMax

record user_item =
  ui_content :: "content_part list"
  ui_synthetic_reason :: "synthetic_reason option"
  ui_cwd_generation :: "u64 option"
  ui_prior_turn_interrupt :: "prior_turn_interrupt option"
  ui_prompt_index :: "nat option"

record tool_call =
  tc_id :: string
  tc_name :: string
  tc_arguments :: string

record assistant_item =
  ai_content :: string
  ai_tool_calls :: "tool_call list"
  ai_model_id :: "string option"
  ai_model_fingerprint :: "string option"
  ai_reasoning_effort :: "reasoning_effort option"

record tool_result_item =
  tr_tool_call_id :: string
  tr_content :: string
  tr_images :: "content_part list"

datatype web_search_action =
  SearchQuery string
| WebOpenPage "string option"
| WebFind string string

datatype backend_tool_kind =
  WebSearchCall string web_search_action
| XSearchCall string string string
| CodeInterpreterCall string "string option"

record reasoning_item =
  ri_id :: string
  ri_summary :: "string list"
  ri_content :: "string list option"
  ri_encrypted_content :: "string option"

datatype conversation_item =
  SystemItem string
| UserItem user_item
| AssistantItem assistant_item
| ToolResultItem tool_result_item
| BackendToolCallItem backend_tool_kind
| ReasoningSibling reasoning_item

fun is_user_item :: "conversation_item \<Rightarrow> bool" where
  "is_user_item (UserItem _) = True"
| "is_user_item _ = False"

fun is_system_item :: "conversation_item \<Rightarrow> bool" where
  "is_system_item (SystemItem _) = True"
| "is_system_item _ = False"

fun is_tool_result_item :: "conversation_item \<Rightarrow> bool" where
  "is_tool_result_item (ToolResultItem _) = True"
| "is_tool_result_item _ = False"

fun calls_tools :: "conversation_item \<Rightarrow> bool" where
  "calls_tools (AssistantItem a) = (ai_tool_calls a \<noteq> [])"
| "calls_tools _ = False"

subsection \<open>Backend tool calls\<close>

fun backend_call_id :: "backend_tool_kind \<Rightarrow> string" where
  "backend_call_id (WebSearchCall i _) = i"
| "backend_call_id (XSearchCall i _ _) = i"
| "backend_call_id (CodeInterpreterCall i _) = i"

fun web_action_desc :: "web_search_action \<Rightarrow> string" where
  "web_action_desc (SearchQuery query) = ''search: '' @ query"
| "web_action_desc (WebOpenPage url) = ''open: '' @ (case url of Some u \<Rightarrow> u | None \<Rightarrow> ''?'')"
| "web_action_desc (WebFind pattern url) =
     ''find '' @ [CHR 0x22] @ pattern @ [CHR 0x22] @ '' in '' @ url"

text \<open>
  The preview of the code is its first hundred bytes. The slice \<open>&c[..100]\<close> panics inside a
  character: \<open>code_preview\<close> is then \<open>None\<close>.
\<close>

definition code_preview :: "string option \<Rightarrow> string option" where
  "code_preview code =
     (case code of
        None \<Rightarrow> Some []
      | Some c \<Rightarrow> if length c > 100 then map_option (\<lambda>p. p @ ''...'') (get_to c 100) else Some c)"

fun text_summary :: "backend_tool_kind \<Rightarrow> string option" where
  "text_summary (WebSearchCall _ action) = Some (''[backend web_search] '' @ web_action_desc action)"
| "text_summary (XSearchCall _ name input) =
     Some (''[backend x_search] '' @ name @ ''('' @ input @ '')'')"
| "text_summary (CodeInterpreterCall _ code) =
     map_option (\<lambda>p. ''[backend code_interpreter] '' @ p) (code_preview code)"

subsection \<open>Constructors\<close>

definition user_with_reason :: "synthetic_reason option \<Rightarrow> content_part list \<Rightarrow> conversation_item" where
  "user_with_reason reason parts =
     UserItem \<lparr>ui_content = parts, ui_synthetic_reason = reason, ui_cwd_generation = None,
               ui_prior_turn_interrupt = None, ui_prompt_index = None\<rparr>"

definition user_message :: "string \<Rightarrow> conversation_item" where
  "user_message text = user_with_reason None [TextPart text]"

definition user_with_parts :: "content_part list \<Rightarrow> conversation_item" where
  "user_with_parts parts = user_with_reason None parts"

definition user_meta :: "string \<Rightarrow> conversation_item" where
  "user_meta text = user_with_reason (Some CompactionMeta) [TextPart text]"

definition system_reminder :: "string \<Rightarrow> conversation_item" where
  "system_reminder text = user_with_reason (Some SystemReminder) [TextPart text]"

definition length_continue_reminder :: "string \<Rightarrow> conversation_item" where
  "length_continue_reminder text = user_with_reason (Some LengthContinue) [TextPart text]"

definition project_instructions :: "string \<Rightarrow> conversation_item" where
  "project_instructions text = user_with_reason (Some ProjectInstructions) [TextPart text]"

definition working_directory_switch :: "string \<Rightarrow> u64 \<Rightarrow> conversation_item" where
  "working_directory_switch text generation =
     UserItem \<lparr>ui_content = [TextPart text], ui_synthetic_reason = Some WorkingDirectorySwitch,
               ui_cwd_generation = Some generation, ui_prior_turn_interrupt = None,
               ui_prompt_index = None\<rparr>"

definition working_directory_switch_generation :: "conversation_item \<Rightarrow> u64 option" where
  "working_directory_switch_generation i =
     (case i of
        UserItem u \<Rightarrow>
          if ui_synthetic_reason u = Some WorkingDirectorySwitch then ui_cwd_generation u else None
      | _ \<Rightarrow> None)"

definition agent_message :: "string \<Rightarrow> conversation_item" where
  "agent_message text = user_with_reason (Some ReasonAgentMessage) [TextPart text]"

definition auto_continue :: "string \<Rightarrow> conversation_item" where
  "auto_continue text = user_with_reason (Some AutoContinue) [TextPart text]"

definition auto_recovery :: "string \<Rightarrow> conversation_item" where
  "auto_recovery text = user_with_reason (Some AutoRecovery) [TextPart text]"

definition interjection_item :: "string \<Rightarrow> conversation_item" where
  "interjection_item text = user_with_reason (Some ReasonInterjection) [TextPart text]"

definition assistant_message :: "string \<Rightarrow> conversation_item" where
  "assistant_message text =
     AssistantItem \<lparr>ai_content = text, ai_tool_calls = [], ai_model_id = None,
                    ai_model_fingerprint = None, ai_reasoning_effort = None\<rparr>"

definition assistant_tool_calls :: "tool_call list \<Rightarrow> conversation_item" where
  "assistant_tool_calls calls =
     AssistantItem \<lparr>ai_content = [], ai_tool_calls = calls, ai_model_id = None,
                    ai_model_fingerprint = None, ai_reasoning_effort = None\<rparr>"

definition tool_result :: "string \<Rightarrow> string \<Rightarrow> conversation_item" where
  "tool_result call_id text =
     ToolResultItem \<lparr>tr_tool_call_id = call_id, tr_content = text, tr_images = []\<rparr>"

definition set_prompt_index :: "nat \<Rightarrow> conversation_item \<Rightarrow> conversation_item" where
  "set_prompt_index n i =
     (case i of UserItem u \<Rightarrow> UserItem (u\<lparr>ui_prompt_index := Some n\<rparr>) | _ \<Rightarrow> i)"

definition set_prior_turn_interrupt :: "prior_turn_interrupt \<Rightarrow> conversation_item \<Rightarrow> conversation_item" where
  "set_prior_turn_interrupt p i =
     (case i of UserItem u \<Rightarrow> UserItem (u\<lparr>ui_prior_turn_interrupt := Some p\<rparr>) | _ \<Rightarrow> i)"

subsection \<open>Text of an item\<close>

definition part_text :: "content_part \<Rightarrow> string option" where
  "part_text p = (case p of TextPart t \<Rightarrow> Some t | ImagePart _ \<Rightarrow> None)"

definition reasoning_item_text :: "reasoning_item \<Rightarrow> string" where
  "reasoning_item_text r =
     join_with [LF] (ri_summary r @ (case ri_content r of Some c \<Rightarrow> c | None \<Rightarrow> []))"

fun text_content :: "conversation_item \<Rightarrow> string" where
  "text_content (SystemItem t) = t"
| "text_content (UserItem u) = join_with [LF] (List.map_filter part_text (ui_content u))"
| "text_content (AssistantItem a) = ai_content a"
| "text_content (ToolResultItem t) = tr_content t"
| "text_content (BackendToolCallItem k) = (case text_summary k of Some t \<Rightarrow> t | None \<Rightarrow> [])"
| "text_content (ReasoningSibling r) = reasoning_item_text r"

subsection \<open>Reasoning that only reached the stream\<close>

definition synthesized_reasoning_item :: "string \<Rightarrow> reasoning_item" where
  "synthesized_reasoning_item text =
     \<lparr>ri_id = [], ri_summary = [text], ri_content = None, ri_encrypted_content = None\<rparr>"

fun reasoning_has_text :: "conversation_item \<Rightarrow> bool" where
  "reasoning_has_text (ReasoningSibling r) = list_ex (\<lambda>t. t \<noteq> []) (ri_summary r)"
| "reasoning_has_text _ = False"

fun is_reasoning :: "conversation_item \<Rightarrow> bool" where
  "is_reasoning (ReasoningSibling _) = True"
| "is_reasoning _ = False"

fun is_assistant_item :: "conversation_item \<Rightarrow> bool" where
  "is_assistant_item (AssistantItem _) = True"
| "is_assistant_item _ = False"

fun push_summary :: "string \<Rightarrow> conversation_item \<Rightarrow> conversation_item" where
  "push_summary text (ReasoningSibling r) = ReasoningSibling (r\<lparr>ri_summary := ri_summary r @ [text]\<rparr>)"
| "push_summary _ i = i"

definition position_of :: "('a \<Rightarrow> bool) \<Rightarrow> 'a list \<Rightarrow> nat option" where
  "position_of P xs = find (\<lambda>i. P (xs ! i)) [0..<length xs]"

definition rposition_of :: "('a \<Rightarrow> bool) \<Rightarrow> 'a list \<Rightarrow> nat option" where
  "rposition_of P xs = find (\<lambda>i. P (xs ! i)) (rev [0..<length xs])"

definition inject_streaming_reasoning_fallback ::
    "string \<Rightarrow> conversation_item list \<Rightarrow> conversation_item list" where
  "inject_streaming_reasoning_fallback text items =
     (if text = [] then items
      else if list_ex reasoning_has_text items then items
      else case position_of is_reasoning items of
             Some idx \<Rightarrow> items[idx := push_summary text (items ! idx)]
           | None \<Rightarrow>
               (let pos = (case rposition_of is_assistant_item items of
                             Some p \<Rightarrow> p | None \<Rightarrow> length items)
                in take pos items @ ReasoningSibling (synthesized_reasoning_item text) # drop pos items))"

subsection \<open>Estimated tokens (xai-chat-state/src/actor/state.rs)\<close>

definition content_bytes :: "content_part list \<Rightarrow> nat" where
  "content_bytes parts = sum_list (map length (List.map_filter part_text parts))"

fun is_image :: "content_part \<Rightarrow> bool" where
  "is_image (ImagePart _) = True"
| "is_image (TextPart _) = False"

text \<open>\<open>usize as u64\<close> and the sums of a release build: words of 64 bits that wrap.\<close>

fun estimate_item_tokens :: "conversation_item \<Rightarrow> u64" where
  "estimate_item_tokens (SystemItem t) = estimate_tokens t"
| "estimate_item_tokens (UserItem u) =
     of_nat (content_bytes (ui_content u)) div BYTES_PER_TOKEN
       + estimate_image_tokens (of_nat (length (filter is_image (ui_content u))))"
| "estimate_item_tokens (AssistantItem a) =
     of_nat (length (ai_content a) + sum_list (map (length \<circ> tc_arguments) (ai_tool_calls a)))
       div BYTES_PER_TOKEN"
| "estimate_item_tokens (ToolResultItem t) = estimate_tokens (tr_content t)"
| "estimate_item_tokens (BackendToolCallItem k) =
     estimate_tokens (text_content (BackendToolCallItem k))"
| "estimate_item_tokens (ReasoningSibling r) =
     of_nat (max (length (reasoning_item_text r))
                 ((case ri_encrypted_content r of Some e \<Rightarrow> length e | None \<Rightarrow> 0) * 3 div 4))
       div BYTES_PER_TOKEN"

definition estimate_conversation_tokens :: "conversation_item list \<Rightarrow> u64" where
  "estimate_conversation_tokens items = sum_list (map estimate_item_tokens items)"

definition estimate_messages_tokens :: "conversation_item list \<Rightarrow> u64" where
  "estimate_messages_tokens items =
     sum_list (map estimate_item_tokens (filter (\<lambda>i. \<not> is_system_item i) items))"

definition estimate_system_message_tokens :: "conversation_item \<Rightarrow> u64" where
  "estimate_system_message_tokens i = (case i of SystemItem t \<Rightarrow> estimate_tokens t | _ \<Rightarrow> 0)"

subsection \<open>Stripping images\<close>

definition EM_DASH :: string where
  "EM_DASH = [CHR 0xE2, CHR 0x80, CHR 0x94]"

definition IMAGE_STRIP_PLACEHOLDER :: string where
  "IMAGE_STRIP_PLACEHOLDER =
     ''[image removed '' @ EM_DASH @ '' the server could not process it; '' @
     ''its contents are unavailable. Ask the user to re-attach the image if it is still needed.]''"

fun strip_part :: "(string \<Rightarrow> bool) \<Rightarrow> content_part \<Rightarrow> content_part \<times> string list" where
  "strip_part should (ImagePart url) =
     (if should url then (TextPart IMAGE_STRIP_PLACEHOLDER, [url]) else (ImagePart url, []))"
| "strip_part should (TextPart t) = (TextPart t, [])"

fun strip_tool_images :: "(string \<Rightarrow> bool) \<Rightarrow> content_part list \<Rightarrow> content_part list \<times> string list" where
  "strip_tool_images should [] = ([], [])"
| "strip_tool_images should (ImagePart url # ps) =
     (let (kept, urls) = strip_tool_images should ps
      in if should url then (kept, url # urls) else (ImagePart url # kept, urls))"
| "strip_tool_images should (TextPart t # ps) =
     (let (kept, urls) = strip_tool_images should ps in (TextPart t # kept, urls))"

fun strip_item :: "(string \<Rightarrow> bool) \<Rightarrow> conversation_item \<Rightarrow> conversation_item \<times> string list" where
  "strip_item should (UserItem u) =
     (let ps = map (strip_part should) (ui_content u)
      in (UserItem (u\<lparr>ui_content := map fst ps\<rparr>), concat (map snd ps)))"
| "strip_item should (ToolResultItem t) =
     (let (kept, urls) = strip_tool_images should (tr_images t)
      in (ToolResultItem (t\<lparr>tr_images := kept\<rparr>), urls))"
| "strip_item should i = (i, [])"

definition strip_images_where ::
    "conversation_item list \<Rightarrow> (string \<Rightarrow> bool) \<Rightarrow> conversation_item list \<times> string list" where
  "strip_images_where items should =
     (let rs = map (strip_item should) items in (map fst rs, concat (map snd rs)))"

definition strip_images_by_url ::
    "conversation_item list \<Rightarrow> string list \<Rightarrow> conversation_item list \<times> nat" where
  "strip_images_by_url items urls =
     (let (items', stripped) = strip_images_where items (\<lambda>url. url \<in> set urls)
      in (items', length stripped))"

subsection \<open>Cutting at a prompt\<close>

text \<open>
  The length of the part before the prompt turn \<open>target\<close>. An item that records its prompt index
  is a marker; before the first marker turns are counted as older versions did: the first user
  item that is not synthetic is the preamble, later ones and the synthetic items that start a turn
  are turns. The loops carry the position \<open>i\<close> of the item they look at.
\<close>

fun item_prompt_index :: "conversation_item \<Rightarrow> nat option" where
  "item_prompt_index (UserItem u) = ui_prompt_index u"
| "item_prompt_index _ = None"

fun first_marker :: "conversation_item list \<Rightarrow> nat option" where
  "first_marker [] = None"
| "first_marker (i # is) =
     (case item_prompt_index i of Some n \<Rightarrow> Some n | None \<Rightarrow> first_marker is)"

fun truncate_markers_only :: "nat \<Rightarrow> nat \<Rightarrow> conversation_item list \<Rightarrow> nat" where
  "truncate_markers_only target i [] = i"
| "truncate_markers_only target i (item # items) =
     (case item_prompt_index item of
        Some idx \<Rightarrow>
          if idx \<ge> target then i else truncate_markers_only target (Suc i) items
      | None \<Rightarrow> truncate_markers_only target (Suc i) items)"

text \<open>What an unmarked user item opens: the turn \<open>next\<close> or none; and whether the preamble is seen.\<close>

definition unmarked_index :: "user_item \<Rightarrow> bool \<Rightarrow> nat \<Rightarrow> nat option \<times> bool" where
  "unmarked_index u seen nxt =
     (case ui_synthetic_reason u of
        None \<Rightarrow> if \<not> seen then (None, True) else (Some nxt, seen)
      | Some reason \<Rightarrow> if starts_prompt_turn reason then (Some nxt, seen) else (None, seen))"

fun truncate_legacy :: "nat \<Rightarrow> nat \<Rightarrow> bool \<Rightarrow> nat \<Rightarrow> conversation_item list \<Rightarrow> nat" where
  "truncate_legacy target nxt seen i [] = i"
| "truncate_legacy target nxt seen i (UserItem u # items) =
     (case unmarked_index u seen nxt of
        (Some idx, seen') \<Rightarrow>
          if idx \<ge> target then i else truncate_legacy target (idx + 1) seen' (Suc i) items
      | (None, seen') \<Rightarrow> truncate_legacy target nxt seen' (Suc i) items)"
| "truncate_legacy target nxt seen i (_ # items) = truncate_legacy target nxt seen (Suc i) items"

fun count_legacy_turns :: "nat \<Rightarrow> bool \<Rightarrow> conversation_item list \<Rightarrow> nat" where
  "count_legacy_turns turns seen [] = turns"
| "count_legacy_turns turns seen (UserItem u # items) =
     (if ui_prompt_index u \<noteq> None then turns
      else case unmarked_index u seen 0 of
             (Some _, seen') \<Rightarrow> count_legacy_turns (turns + 1) seen' items
           | (None, seen') \<Rightarrow> count_legacy_turns turns seen' items)"
| "count_legacy_turns turns seen (_ # items) = count_legacy_turns turns seen items"

fun truncate_progressive ::
    "nat \<Rightarrow> nat \<Rightarrow> bool \<Rightarrow> bool \<Rightarrow> nat \<Rightarrow> conversation_item list \<Rightarrow> nat" where
  "truncate_progressive target nxt seen marker i [] = i"
| "truncate_progressive target nxt seen marker i (UserItem u # items) =
     (case ui_prompt_index u of
        Some idx \<Rightarrow>
          if idx \<ge> target then i else truncate_progressive target nxt seen True (Suc i) items
      | None \<Rightarrow>
          if marker then truncate_progressive target nxt seen True (Suc i) items
          else (case unmarked_index u seen nxt of
                  (Some idx, seen') \<Rightarrow>
                    if idx \<ge> target then i
                    else truncate_progressive target (idx + 1) seen' False (Suc i) items
                | (None, seen') \<Rightarrow> truncate_progressive target nxt seen' False (Suc i) items))"
| "truncate_progressive target nxt seen marker i (_ # items) =
     truncate_progressive target nxt seen marker (Suc i) items"

definition conversation_truncate_for_prompt :: "conversation_item list \<Rightarrow> nat \<Rightarrow> nat" where
  "conversation_truncate_for_prompt items target =
     (case first_marker items of
        None \<Rightarrow> truncate_legacy target 0 False 0 items
      | Some first_marker_idx \<Rightarrow>
          if count_legacy_turns 0 False items \<noteq> first_marker_idx
          then truncate_markers_only target 0 items
          else truncate_progressive target 0 False False 0 items)"

end
