(* ===== verification/GB_HistoryRepair.thy ===== *)
theory GB_HistoryRepair
  imports GB_Conversation
begin

section \<open>Repair of tool calls and their results (conversation.rs, compaction_utils.rs)\<close>

text \<open>
  A backend rejects a conversation in which a tool call has no result, two results, or a result
  without its call directly before. Three passes repair it: duplicates go, displaced results go,
  and a result is made up for each call that has none. The passes look at the run of results
  directly behind an assistant item. A weaker pass, used on compacted histories, only asks that
  the call comes somewhere before the result.
\<close>

subsection \<open>Duplicate results\<close>

fun result_id :: "conversation_item \<Rightarrow> string" where
  "result_id (ToolResultItem t) = tr_tool_call_id t"
| "result_id _ = []"

text \<open>Of the results with the same id in one run the last stays.\<close>

fun keep_last_results :: "conversation_item list \<Rightarrow> conversation_item list" where
  "keep_last_results [] = []"
| "keep_last_results (r # rs) =
     (if result_id r \<in> set (map result_id rs) then keep_last_results rs
      else r # keep_last_results rs)"

function dedup_duplicate_tool_results ::
    "conversation_item list \<Rightarrow> conversation_item list \<times> nat" where
  "dedup_duplicate_tool_results [] = ([], 0)"
| "dedup_duplicate_tool_results (item # items) =
     (if calls_tools item
      then let run = takeWhile is_tool_result_item items;
               kept = keep_last_results run;
               (rest, n) = dedup_duplicate_tool_results (dropWhile is_tool_result_item items)
           in (item # kept @ rest, length run - length kept + n)
      else let (rest, n) = dedup_duplicate_tool_results items in (item # rest, n))"
  by pat_completeness auto
termination
  by (relation "measure length") (auto simp: le_imp_less_Suc length_dropWhile_le)

subsection \<open>Displaced results\<close>

fun tool_calls_of :: "conversation_item \<Rightarrow> tool_call list" where
  "tool_calls_of (AssistantItem a) = ai_tool_calls a"
| "tool_calls_of _ = []"

definition call_ids :: "conversation_item \<Rightarrow> string list" where
  "call_ids item = map tc_id (tool_calls_of item)"

lemma calls_tools_iff: "calls_tools item \<longleftrightarrow> is_assistant_item item \<and> tool_calls_of item \<noteq> []"
  by (cases item) simp_all

fun strip_displaced ::
    "string list \<Rightarrow> conversation_item list \<Rightarrow> conversation_item list \<times> string list" where
  "strip_displaced run_ids [] = ([], [])"
| "strip_displaced run_ids (AssistantItem a # items) =
     (let (kept, stripped) = strip_displaced (map tc_id (ai_tool_calls a)) items
      in (AssistantItem a # kept, stripped))"
| "strip_displaced run_ids (ToolResultItem t # items) =
     (let (kept, stripped) = strip_displaced run_ids items
      in if tr_tool_call_id t \<in> set run_ids then (ToolResultItem t # kept, stripped)
         else (kept, tr_tool_call_id t # stripped))"
| "strip_displaced run_ids (item # items) =
     (let (kept, stripped) = strip_displaced [] items in (item # kept, stripped))"

definition strip_displaced_tool_results ::
    "conversation_item list \<Rightarrow> conversation_item list \<times> string list" where
  "strip_displaced_tool_results items = strip_displaced [] items"

subsection \<open>Calls without a result\<close>

datatype dangling_reason = DanglingUserCancelled | DanglingHarnessHalted string

fun synthetic_dangling_result_text :: "string \<Rightarrow> dangling_reason \<Rightarrow> string" where
  "synthetic_dangling_result_text name DanglingUserCancelled =
     ''Tool execution was cancelled by the user (tool `'' @ name @ ''` was not executed).''"
| "synthetic_dangling_result_text name (DanglingHarnessHalted class) =
     ''Tool execution was halted by the harness ('' @ class @ ''); the tool `'' @ name
       @ ''` was not executed.''"

definition synthetic_results ::
    "dangling_reason \<Rightarrow> tool_call list \<Rightarrow> conversation_item list \<Rightarrow> conversation_item list" where
  "synthetic_results reason calls run =
     map (\<lambda>tc. tool_result (tc_id tc) (synthetic_dangling_result_text (tc_name tc) reason))
       (filter (\<lambda>tc. tc_id tc \<notin> set (map result_id run)) calls)"

text \<open>The first phase finds where results are missing, the second splices them in from the back.\<close>

function scan_repairs ::
    "dangling_reason \<Rightarrow> nat \<Rightarrow> conversation_item list \<Rightarrow> (nat \<times> conversation_item list) list" where
  "scan_repairs reason i [] = []"
| "scan_repairs reason i (item # items) =
     (if calls_tools item
      then let run = takeWhile is_tool_result_item items;
               j = i + 1 + length run;
               synthetic = synthetic_results reason (tool_calls_of item) run
           in (if synthetic \<noteq> [] then [(j, synthetic)] else [])
                @ scan_repairs reason j (dropWhile is_tool_result_item items)
      else scan_repairs reason (i + 1) items)"
  by pat_completeness auto
termination
  by (relation "measure (\<lambda>(_, _, items). length items)") (auto simp: le_imp_less_Suc length_dropWhile_le)

definition splice_at :: "nat \<times> 'a list \<Rightarrow> 'a list \<Rightarrow> 'a list" where
  "splice_at r xs = take (fst r) xs @ snd r @ drop (fst r) xs"

definition repair_dangling_tool_calls ::
    "dangling_reason \<Rightarrow> conversation_item list \<Rightarrow> conversation_item list \<times> nat" where
  "repair_dangling_tool_calls reason items =
     (let repairs = scan_repairs reason 0 items
      in (foldr splice_at repairs items, sum_list (map (length \<circ> snd) repairs)))"

function has_dangling_tool_calls :: "conversation_item list \<Rightarrow> bool" where
  "has_dangling_tool_calls [] = False"
| "has_dangling_tool_calls (item # items) =
     (if calls_tools item
      then list_ex (\<lambda>c. c \<notin> set (map result_id (takeWhile is_tool_result_item items))) (call_ids item)
             \<or> has_dangling_tool_calls (dropWhile is_tool_result_item items)
      else has_dangling_tool_calls items)"
  by pat_completeness auto
termination
  by (relation "measure length") (auto simp: le_imp_less_Suc length_dropWhile_le)

subsection \<open>The repair of a history\<close>

record history_repair_report =
  hr_duplicates_removed :: nat
  hr_stripped_tool_result_ids :: "string list"
  hr_synthetic_results_inserted :: nat

definition report_changed :: "history_repair_report \<Rightarrow> bool" where
  "report_changed r \<longleftrightarrow>
     hr_duplicates_removed r > 0 \<or> hr_stripped_tool_result_ids r \<noteq> []
     \<or> hr_synthetic_results_inserted r > 0"

definition repair_history ::
    "conversation_item list \<Rightarrow> conversation_item list \<times> history_repair_report" where
  "repair_history items =
     (let (items1, duplicates) = dedup_duplicate_tool_results items;
          (items2, stripped) = strip_displaced_tool_results items1;
          (items3, inserted) =
            repair_dangling_tool_calls (DanglingHarnessHalted ''history_repair'') items2
      in (items3, \<lparr>hr_duplicates_removed = duplicates, hr_stripped_tool_result_ids = stripped,
                   hr_synthetic_results_inserted = inserted\<rparr>))"

subsection \<open>Compacted histories\<close>

fun validate_from :: "string list \<Rightarrow> conversation_item list \<Rightarrow> string list" where
  "validate_from seen [] = []"
| "validate_from seen (AssistantItem a # items) =
     validate_from (map tc_id (ai_tool_calls a) @ seen) items"
| "validate_from seen (ToolResultItem t # items) =
     (if tr_tool_call_id t \<notin> set seen then tr_tool_call_id t # validate_from seen items
      else validate_from seen items)"
| "validate_from seen (_ # items) = validate_from seen items"

definition validate_compacted_history :: "conversation_item list \<Rightarrow> string list" where
  "validate_compacted_history items = validate_from [] items"

fun sanitize_from ::
    "string list \<Rightarrow> conversation_item list \<Rightarrow> conversation_item list \<times> string list" where
  "sanitize_from seen [] = ([], [])"
| "sanitize_from seen (AssistantItem a # items) =
     (let (kept, stripped) = sanitize_from (map tc_id (ai_tool_calls a) @ seen) items
      in (AssistantItem a # kept, stripped))"
| "sanitize_from seen (ToolResultItem t # items) =
     (let (kept, stripped) = sanitize_from seen items
      in if tr_tool_call_id t \<in> set seen then (ToolResultItem t # kept, stripped)
         else (kept, tr_tool_call_id t # stripped))"
| "sanitize_from seen (item # items) =
     (let (kept, stripped) = sanitize_from seen items in (item # kept, stripped))"

definition sanitize_compacted_history ::
    "conversation_item list \<Rightarrow> conversation_item list \<times> string list" where
  "sanitize_compacted_history items = sanitize_from [] items"

lemma sanitize_validates:
  "validate_from seen (fst (sanitize_from seen items)) = []
   \<and> snd (sanitize_from seen items) = validate_from seen items"
  by (induction seen items rule: sanitize_from.induct) (auto simp: Let_def split: prod.splits)

subsection \<open>The splices are one pass\<close>

text \<open>What the repair does, said of one pass over the conversation.\<close>

function repaired :: "dangling_reason \<Rightarrow> conversation_item list \<Rightarrow> conversation_item list \<times> nat" where
  "repaired reason [] = ([], 0)"
| "repaired reason (item # items) =
     (if is_assistant_item item
      then let run = takeWhile is_tool_result_item items;
               synthetic = synthetic_results reason (tool_calls_of item) run;
               (rest, n) = repaired reason (dropWhile is_tool_result_item items)
           in (item # run @ synthetic @ rest, length synthetic + n)
      else let (rest, n) = repaired reason items in (item # rest, n))"
  by pat_completeness auto
termination
  by (relation "measure (\<lambda>(_, items). length items)") (auto simp: le_imp_less_Suc length_dropWhile_le)

lemma scan_run:
  "\<forall>r \<in> set run. is_tool_result_item r \<Longrightarrow>
     scan_repairs reason i (run @ items) = scan_repairs reason (i + length run) items"
proof (induction run arbitrary: i)
  case (Cons r run)
  then show ?case by (cases r) auto
qed simp

lemma run_append: "takeWhile is_tool_result_item items @ dropWhile is_tool_result_item items = items"
  by simp

lemma run_results: "r \<in> set (takeWhile is_tool_result_item items) \<Longrightarrow> is_tool_result_item r"
  by (rule set_takeWhileD [THEN conjunct2])

lemma splice_scan:
  "length pre = i \<Longrightarrow>
     foldr splice_at (scan_repairs reason i items) (pre @ items) = pre @ fst (repaired reason items)
     \<and> sum_list (map (length \<circ> snd) (scan_repairs reason i items)) = snd (repaired reason items)"
proof (induction reason items arbitrary: pre i rule: repaired.induct)
  case (2 reason item items)
  let ?run = "takeWhile is_tool_result_item items" and ?rest = "dropWhile is_tool_result_item items"
  show ?case
  proof (cases "is_assistant_item item")
    case False
    have "length (pre @ [item]) = Suc i" using "2.prems" by simp
    note rec = "2.IH"(2) [OF False this]
    have scan: "scan_repairs reason i (item # items) = scan_repairs reason (Suc i) items"
      using False by (simp add: calls_tools_iff)
    have one: "repaired reason (item # items)
        = (item # fst (repaired reason items), snd (repaired reason items))"
      using False by (simp add: case_prod_beta Let_def)
    show ?thesis unfolding scan one using rec by simp
  next
    case True
    let ?syn = "synthetic_results reason (tool_calls_of item) ?run"
    let ?pre = "pre @ item # ?run" and ?j = "i + 1 + length ?run"
    have items: "pre @ item # items = ?pre @ ?rest" by simp
    have j: "length ?pre = ?j" using "2.prems" by simp
    note rec = "2.IH"(1) [OF True refl refl j]
    have scan: "scan_repairs reason i (item # items)
        = (if ?syn \<noteq> [] then [(?j, ?syn)] else []) @ scan_repairs reason ?j ?rest"
    proof (cases "tool_calls_of item = []")
      case True
      have "scan_repairs reason (Suc i) (?run @ ?rest) = scan_repairs reason (Suc i + length ?run) ?rest"
        by (rule scan_run) (blast dest: run_results)
      then show ?thesis using True by (simp add: synthetic_results_def calls_tools_iff)
    next
      case False
      then show ?thesis using True by (simp add: calls_tools_iff Let_def)
    qed
    have splice: "splice_at (?j, ?syn) (?pre @ xs) = ?pre @ ?syn @ xs" for xs
      unfolding splice_at_def using j by (simp only: fst_conv snd_conv append_eq_conv_conj) simp
    have one: "repaired reason (item # items)
        = (item # ?run @ ?syn @ fst (repaired reason ?rest), length ?syn + snd (repaired reason ?rest))"
      using True by (simp add: case_prod_beta Let_def)
    show ?thesis
      unfolding scan one items using rec splice [of "fst (repaired reason ?rest)"]
      by (cases "?syn = []") simp_all
  qed
qed simp

lemma splices_are_one_pass:
  "repair_dangling_tool_calls reason items = repaired reason items"
  using splice_scan [of "[]" 0 reason items]
  by (simp add: repair_dangling_tool_calls_def Let_def prod_eq_iff)

subsection \<open>Blocks\<close>

text \<open>
  A conversation is some stray results followed by blocks: an item that is no result, and the run
  of results behind it. Each pass changes the runs of the blocks one by one.
\<close>

definition flat :: "(conversation_item \<times> conversation_item list) list \<Rightarrow> conversation_item list" where
  "flat bs = concat (map (\<lambda>(i, run). i # run) bs)"

definition block_ok :: "conversation_item \<times> conversation_item list \<Rightarrow> bool" where
  "block_ok b \<longleftrightarrow> \<not> is_tool_result_item (fst b) \<and> list_all is_tool_result_item (snd b)"

lemma block_ok_pair [simp]:
  "block_ok (i, run) \<longleftrightarrow> \<not> is_tool_result_item i \<and> list_all is_tool_result_item run"
  by (simp add: block_ok_def)

lemma flat_simps [simp]: "flat [] = []" "flat ((i, run) # bs) = i # run @ flat bs"
  by (simp_all add: flat_def)

lemma blocks_exist:
  "\<exists>strays bs. items = strays @ flat bs \<and> list_all is_tool_result_item strays \<and> list_all block_ok bs"
proof (induction items)
  case Nil
  show ?case by (rule exI [of _ "[]"], rule exI [of _ "[]"]) simp
next
  case (Cons x items)
  then obtain strays bs where IH: "items = strays @ flat bs" "list_all is_tool_result_item strays"
    "list_all block_ok bs" by blast
  show ?case
  proof (cases "is_tool_result_item x")
    case True
    then have "x # items = (x # strays) @ flat bs" "list_all is_tool_result_item (x # strays)"
      using IH by simp_all
    then show ?thesis using IH(3) by blast
  next
    case False
    then have "x # items = [] @ flat ((x, strays) # bs)" "list_all block_ok ((x, strays) # bs)"
      using IH by simp_all
    moreover have "list_all is_tool_result_item []" by simp
    ultimately show ?thesis by blast
  qed
qed

lemma flat_run:
  assumes "list_all block_ok bs" and "list_all is_tool_result_item run"
  shows "takeWhile is_tool_result_item (run @ flat bs) = run"
    and "dropWhile is_tool_result_item (run @ flat bs) = flat bs"
proof -
  have "takeWhile is_tool_result_item (flat bs) = []"
    using assms(1) by (cases bs) (auto simp: block_ok_def)
  moreover have "dropWhile is_tool_result_item (flat bs) = flat bs"
    using assms(1) by (cases bs) (auto simp: block_ok_def)
  ultimately show "takeWhile is_tool_result_item (run @ flat bs) = run"
    "dropWhile is_tool_result_item (run @ flat bs) = flat bs"
    using assms(2) by (simp_all add: takeWhile_append list_all_iff)
qed

definition deduped_run :: "conversation_item \<Rightarrow> conversation_item list \<Rightarrow> conversation_item list" where
  "deduped_run i run = (if calls_tools i then keep_last_results run else run)"

definition declared_run :: "conversation_item \<Rightarrow> conversation_item list \<Rightarrow> conversation_item list" where
  "declared_run i run = filter (\<lambda>r. result_id r \<in> set (call_ids i)) run"

definition answered_run ::
    "dangling_reason \<Rightarrow> conversation_item \<Rightarrow> conversation_item list \<Rightarrow> conversation_item list" where
  "answered_run reason i run = run @ synthetic_results reason (tool_calls_of i) run"

lemma keep_last_subset: "set (keep_last_results run) \<subseteq> set run"
  by (induction run) auto

lemma keep_last_ids: "set (map result_id (keep_last_results run)) = set (map result_id run)"
  by (induction run) auto

lemma keep_last_distinct: "distinct (map result_id (keep_last_results run))"
proof (induction run)
  case (Cons r run)
  then show ?case using keep_last_ids [of run] by simp
qed simp

lemma keep_last_id: "distinct (map result_id run) \<Longrightarrow> keep_last_results run = run"
  by (induction run) auto

lemma dedup_strays:
  "list_all is_tool_result_item strays \<Longrightarrow>
     dedup_duplicate_tool_results (strays @ items)
       = (strays @ fst (dedup_duplicate_tool_results items), snd (dedup_duplicate_tool_results items))"
proof (induction strays)
  case (Cons s strays)
  then have "\<not> calls_tools s" by (cases s) auto
  then show ?case using Cons by simp
qed simp

lemma dedup_flat:
  "list_all block_ok bs \<Longrightarrow>
     dedup_duplicate_tool_results (flat bs)
       = (flat (map (\<lambda>(i, run). (i, deduped_run i run)) bs),
          sum_list (map (\<lambda>(i, run). length run - length (deduped_run i run)) bs))"
proof (induction bs)
  case (Cons b bs)
  obtain i run where b: "b = (i, run)" by (cases b)
  have run: "list_all is_tool_result_item run" and bs: "list_all block_ok bs"
    using Cons.prems b by simp_all
  show ?case
  proof (cases "calls_tools i")
    case True
    then show ?thesis
      using Cons.IH [OF bs] b by (simp add: flat_run [OF bs run] deduped_run_def Let_def)
  next
    case False
    then show ?thesis
      using Cons.IH [OF bs] b by (simp add: deduped_run_def dedup_strays [OF run])
  qed
qed simp

lemma strip_run:
  "list_all is_tool_result_item run \<Longrightarrow>
     strip_displaced ids (run @ items)
       = (filter (\<lambda>r. result_id r \<in> set ids) run @ fst (strip_displaced ids items),
          map result_id (filter (\<lambda>r. result_id r \<notin> set ids) run) @ snd (strip_displaced ids items))"
proof (induction run)
  case (Cons r run)
  then obtain t where "r = ToolResultItem t" by (cases r) auto
  then show ?case using Cons by (simp add: case_prod_beta)
qed simp

lemma strip_block:
  assumes "\<not> is_tool_result_item i"
  shows "strip_displaced ids (i # items)
    = (i # fst (strip_displaced (call_ids i) items), snd (strip_displaced (call_ids i) items))"
  using assms by (cases i) (simp_all add: call_ids_def case_prod_beta)

lemma strip_flat:
  "list_all block_ok bs \<Longrightarrow>
     strip_displaced ids (flat bs)
       = (flat (map (\<lambda>(i, run). (i, declared_run i run)) bs),
          concat (map (\<lambda>(i, run). map result_id (filter (\<lambda>r. result_id r \<notin> set (call_ids i)) run)) bs))"
proof (induction bs arbitrary: ids)
  case (Cons b bs)
  obtain i run where b: "b = (i, run)" by (cases b)
  have i: "\<not> is_tool_result_item i" and run: "list_all is_tool_result_item run"
    and bs: "list_all block_ok bs"
    using Cons.prems b by simp_all
  show ?case
    using Cons.IH [OF bs] b by (simp add: strip_block [OF i] strip_run [OF run] declared_run_def)
qed simp

lemma repaired_flat:
  "list_all block_ok bs \<Longrightarrow>
     repaired reason (flat bs)
       = (flat (map (\<lambda>(i, run). (i, answered_run reason i run)) bs),
          sum_list (map (\<lambda>(i, run). length (synthetic_results reason (tool_calls_of i) run)) bs))"
proof (induction bs)
  case (Cons b bs)
  obtain i run where b: "b = (i, run)" by (cases b)
  have i: "\<not> is_tool_result_item i" and run: "list_all is_tool_result_item run"
    and bs: "list_all block_ok bs"
    using Cons.prems b by simp_all
  have plain: "repaired reason (run @ items) = (run @ fst (repaired reason items), snd (repaired reason items))"
    for items
    using run
  proof (induction run)
    case (Cons r run)
    then have "\<not> is_assistant_item r" by (cases r) auto
    then show ?case using Cons by simp
  qed simp
  show ?case
  proof (cases "is_assistant_item i")
    case True
    then show ?thesis
      using Cons.IH [OF bs] b by (simp add: flat_run [OF bs run] answered_run_def Let_def)
  next
    case False
    then have "tool_calls_of i = []" by (cases i) auto
    then show ?thesis
      using False Cons.IH [OF bs] b by (simp add: plain answered_run_def synthetic_results_def)
  qed
qed simp

subsection \<open>What a backend accepts\<close>

text \<open>
  Every result stands in the run directly behind the item that called, and the run answers each
  call exactly once.
\<close>

function well_paired :: "conversation_item list \<Rightarrow> bool" where
  "well_paired [] = True"
| "well_paired (item # items) =
     (\<not> is_tool_result_item item
      \<and> (let ids = map result_id (takeWhile is_tool_result_item items)
         in distinct ids \<and> set ids = set (call_ids item))
      \<and> well_paired (dropWhile is_tool_result_item items))"
  by pat_completeness auto
termination
  by (relation "measure length") (auto simp: le_imp_less_Suc length_dropWhile_le)

definition calls_distinct :: "conversation_item list \<Rightarrow> bool" where
  "calls_distinct items \<longleftrightarrow> list_all (\<lambda>i. distinct (call_ids i)) items"

definition answers :: "conversation_item \<Rightarrow> conversation_item list \<Rightarrow> bool" where
  "answers i run \<longleftrightarrow> distinct (map result_id run) \<and> set (map result_id run) = set (call_ids i)"

lemma well_paired_flat:
  "list_all block_ok bs \<Longrightarrow> well_paired (flat bs) \<longleftrightarrow> list_all (\<lambda>(i, run). answers i run) bs"
proof (induction bs)
  case (Cons b bs)
  obtain i run where b: "b = (i, run)" by (cases b)
  have run: "list_all is_tool_result_item run" and bs: "list_all block_ok bs"
    using Cons.prems b by simp_all
  then show ?case
    using Cons b by (auto simp: flat_run [OF bs run] answers_def Let_def)
qed simp

lemma well_paired_blocks:
  assumes "well_paired items"
  shows "\<exists>bs. items = flat bs \<and> list_all block_ok bs \<and> list_all (\<lambda>(i, run). answers i run) bs"
proof -
  obtain strays bs where b: "items = strays @ flat bs" "list_all is_tool_result_item strays"
    "list_all block_ok bs" using blocks_exist by blast
  have "strays = []" using assms b(1,2) by (cases strays) auto
  then show ?thesis using b assms by (auto simp: well_paired_flat)
qed

lemma synthetic_ids:
  "map result_id (synthetic_results reason calls run)
     = filter (\<lambda>c. c \<notin> set (map result_id run)) (map tc_id calls)"
  by (simp add: synthetic_results_def tool_result_def filter_map comp_def)

lemma synthetic_are_results: "list_all is_tool_result_item (synthetic_results reason calls run)"
  by (simp add: synthetic_results_def tool_result_def list_all_iff)

lemma answered_run_answers:
  assumes "distinct (call_ids i)"
  shows "answers i (answered_run reason i (declared_run i (deduped_run i run)))"
proof -
  let ?d = "declared_run i (deduped_run i run)"
  have "distinct (map result_id ?d)"
  proof (cases "calls_tools i")
    case True
    then show ?thesis
      using keep_last_distinct by (simp add: deduped_run_def declared_run_def distinct_map_filter)
  next
    case False
    then have "call_ids i = []" by (cases i) (simp_all add: call_ids_def)
    then show ?thesis by (simp add: declared_run_def)
  qed
  moreover have "set (map result_id ?d) \<subseteq> set (call_ids i)" by (auto simp: declared_run_def)
  moreover have "map result_id (synthetic_results reason (tool_calls_of i) ?d)
      = filter (\<lambda>c. c \<notin> set (map result_id ?d)) (call_ids i)"
    by (simp only: synthetic_ids call_ids_def)
  ultimately show ?thesis
    using assms unfolding answers_def answered_run_def map_append by auto
qed

lemma answered_run_id:
  assumes "answers i run"
  shows "deduped_run i run = run" and "declared_run i run = run"
    and "synthetic_results reason (tool_calls_of i) run = []"
proof -
  show "deduped_run i run = run" "declared_run i run = run"
    using assms by (auto simp: answers_def deduped_run_def declared_run_def keep_last_id filter_id_conv)
  have "map result_id (synthetic_results reason (tool_calls_of i) run) = []"
    using assms unfolding synthetic_ids answers_def call_ids_def by (auto simp: filter_empty_conv)
  then show "synthetic_results reason (tool_calls_of i) run = []" by simp
qed

definition repaired_block ::
    "conversation_item \<times> conversation_item list \<Rightarrow> conversation_item \<times> conversation_item list" where
  "repaired_block b =
     (fst b, answered_run (DanglingHarnessHalted ''history_repair'') (fst b)
               (declared_run (fst b) (deduped_run (fst b) (snd b))))"

lemma blocks_stay:
  assumes "list_all block_ok bs"
  shows "list_all block_ok (map (\<lambda>(i, run). (i, deduped_run i run)) bs)"
    and "list_all block_ok (map (\<lambda>(i, run). (i, declared_run i run)) bs)"
    and "list_all block_ok (map repaired_block bs)"
  using assms keep_last_subset synthetic_are_results
  by (fastforce simp: list_all_iff deduped_run_def declared_run_def answered_run_def repaired_block_def)+

lemma repair_flat:
  assumes "list_all is_tool_result_item strays" and "list_all block_ok bs"
  shows "fst (repair_history (strays @ flat bs)) = flat (map repaired_block bs)"
proof -
  let ?d = "map (\<lambda>(i, run). (i, deduped_run i run)) bs"
  let ?s = "map (\<lambda>(i, run). (i, declared_run i run)) ?d"
  have "fst (dedup_duplicate_tool_results (strays @ flat bs)) = strays @ flat ?d"
    using assms by (simp add: dedup_strays dedup_flat)
  moreover have "fst (strip_displaced_tool_results (strays @ flat ?d)) = flat ?s"
    using strip_run [OF assms(1), of "[]"] strip_flat [OF blocks_stay(1) [OF assms(2)], of "[]"]
    by (simp add: strip_displaced_tool_results_def)
  moreover have "fst (repaired reason (flat ?s))
      = flat (map (\<lambda>(i, run). (i, answered_run reason i run)) ?s)" for reason
    using repaired_flat [OF blocks_stay(2) [OF blocks_stay(1) [OF assms(2)]]] by simp
  ultimately show ?thesis
    by (simp add: repair_history_def splices_are_one_pass case_prod_beta repaired_block_def [abs_def] comp_def)
qed

lemma repair_fixes:
  assumes "well_paired items"
  shows "repair_history items = (items, \<lparr>hr_duplicates_removed = 0,
           hr_stripped_tool_result_ids = [], hr_synthetic_results_inserted = 0\<rparr>)"
proof -
  obtain bs where items: "items = flat bs" and ok: "list_all block_ok bs"
    and ans: "list_all (\<lambda>(i, run). answers i run) bs"
    using well_paired_blocks [OF assms] by blast
  have same: "\<And>i run. (i, run) \<in> set bs \<Longrightarrow> answers i run" using ans by (auto simp: list_all_iff)
  have decl: "\<And>i run r. (i, run) \<in> set bs \<Longrightarrow> r \<in> set run \<Longrightarrow> result_id r \<in> set (call_ids i)"
    using same unfolding answers_def by (metis image_eqI list.set_map)
  have dedup: "dedup_duplicate_tool_results items = (items, 0)"
    using same by (auto simp: items dedup_flat [OF ok] answered_run_id(1) sum_list_eq_0_iff
        intro!: arg_cong [where f = flat] map_idI)
  have strip: "strip_displaced_tool_results items = (items, [])"
    using same by (auto simp: items strip_displaced_tool_results_def strip_flat [OF ok]
        answered_run_id(2) decl filter_empty_conv intro!: arg_cong [where f = flat] map_idI)
  have rep: "repaired reason items = (items, 0)" for reason
    using same by (auto simp: items repaired_flat [OF ok] answered_run_def answered_run_id(3)
        sum_list_eq_0_iff intro!: arg_cong [where f = flat] map_idI)
  show ?thesis by (simp add: repair_history_def dedup strip rep splices_are_one_pass)
qed

lemma calls_distinct_flat:
  "calls_distinct (strays @ flat bs) \<Longrightarrow> (i, run) \<in> set bs \<Longrightarrow> distinct (call_ids i)"
  by (auto simp: calls_distinct_def flat_def list_all_iff)

lemma no_results_flat:
  "list_all block_ok bs \<Longrightarrow> filter (\<lambda>i. \<not> is_tool_result_item i) (flat bs) = map fst bs"
proof (induction bs)
  case (Cons b bs)
  then show ?case by (cases b) (auto simp: list_all_iff filter_empty_conv)
qed simp

text \<open>
  A result a repair must keep: in the run of results right behind the message that made the call, the
  last one for its id.
\<close>

definition last_answer :: "conversation_item list \<Rightarrow> conversation_item \<Rightarrow> bool" where
  "last_answer items r \<longleftrightarrow>
     (\<exists>pre i early late post. items = pre @ i # early @ r # late @ post
        \<and> \<not> is_tool_result_item i \<and> list_all is_tool_result_item (early @ r # late)
        \<and> result_id r \<in> set (call_ids i) \<and> result_id r \<notin> set (map result_id late)
        \<and> (post = [] \<or> \<not> is_tool_result_item (hd post)))"

lemma keep_last_keeps:
  "result_id r \<notin> set (map result_id late) \<Longrightarrow> r \<in> set (keep_last_results (early @ r # late))"
  by (induction early) auto

lemma last_answer_kept:
  assumes "last_answer items r"
  shows "r \<in> set (fst (repair_history items))"
proof -
  obtain pre i early late post where items: "items = pre @ i # early @ r # late @ post"
    and i: "\<not> is_tool_result_item i" "list_all is_tool_result_item (early @ r # late)"
    and r: "result_id r \<in> set (call_ids i)" "result_id r \<notin> set (map result_id late)"
    and post: "post = [] \<or> \<not> is_tool_result_item (hd post)"
    using assms unfolding last_answer_def by blast
  obtain s1 b1 where pre: "pre = s1 @ flat b1" "list_all is_tool_result_item s1" "list_all block_ok b1"
    using blocks_exist by blast
  obtain s2 b2 where s2: "post = s2 @ flat b2" "list_all is_tool_result_item s2" "list_all block_ok b2"
    using blocks_exist by blast
  then have "s2 = []" using post by (cases s2) auto
  then have whole: "items = s1 @ flat (b1 @ (i, early @ r # late) # b2)"
    by (simp add: items pre(1) s2(1) flat_def)
  have ok: "list_all block_ok (b1 @ (i, early @ r # late) # b2)" using pre(3) s2(3) i by simp
  have "r \<in> set (deduped_run i (early @ r # late))"
    using keep_last_keeps [OF r(2), of early] by (simp add: deduped_run_def)
  then have "r \<in> set (declared_run i (deduped_run i (early @ r # late)))"
    using r(1) by (simp add: declared_run_def)
  then have "r \<in> set (snd (repaired_block (i, early @ r # late)))"
    by (simp add: repaired_block_def answered_run_def)
  then show ?thesis
    unfolding whole repair_flat [OF pre(2) ok] by (simp add: flat_def case_prod_beta)
qed

text \<open>
  C13. Whatever the history of a session looks like, as long as no message calls twice with one id,
  its repair leaves every call answered exactly once and directly behind it and no other result,
  keeps the last answer a call had there and everything that is not a result, and has nothing left
  to do the second time.
\<close>

theorem repaired_history_is_paired:
  assumes "calls_distinct items"
  shows "well_paired (fst (repair_history items))
    \<and> filter (\<lambda>i. \<not> is_tool_result_item i) (fst (repair_history items))
        = filter (\<lambda>i. \<not> is_tool_result_item i) items
    \<and> (\<forall>r. last_answer items r \<longrightarrow> r \<in> set (fst (repair_history items)))
    \<and> fst (repair_history (fst (repair_history items))) = fst (repair_history items)
    \<and> \<not> report_changed (snd (repair_history (fst (repair_history items))))"
proof -
  obtain strays bs where items: "items = strays @ flat bs" and strays: "list_all is_tool_result_item strays"
    and ok: "list_all block_ok bs" using blocks_exist by blast
  have res: "fst (repair_history items) = flat (map repaired_block bs)"
    unfolding items by (rule repair_flat [OF strays ok])
  have "list_all (\<lambda>(i, run). answers i run) (map repaired_block bs)"
    using assms answered_run_answers calls_distinct_flat
    by (fastforce simp: items list_all_iff repaired_block_def)
  then have paired: "well_paired (fst (repair_history items))"
    unfolding res by (simp add: well_paired_flat [OF blocks_stay(3) [OF ok]])
  have "filter (\<lambda>i. \<not> is_tool_result_item i) (fst (repair_history items))
      = filter (\<lambda>i. \<not> is_tool_result_item i) items"
    using strays unfolding res no_results_flat [OF blocks_stay(3) [OF ok]]
    by (simp add: items no_results_flat [OF ok] repaired_block_def [abs_def] list_all_iff filter_empty_conv comp_def)
  then show ?thesis
    using paired last_answer_kept by (simp add: repair_fixes [OF paired] report_changed_def)
qed

subsection \<open>Dangling calls\<close>

lemma dangling_flat:
  "list_all block_ok bs \<Longrightarrow>
     has_dangling_tool_calls (flat bs)
       \<longleftrightarrow> list_ex (\<lambda>(i, run). synthetic_results reason (tool_calls_of i) run \<noteq> []) bs"
proof (induction bs)
  case (Cons b bs)
  obtain i run where b: "b = (i, run)" by (cases b)
  have run: "list_all is_tool_result_item run" and bs: "list_all block_ok bs"
    using Cons.prems b by simp_all
  have plain: "has_dangling_tool_calls (run @ items) = has_dangling_tool_calls items" for items
    using run
  proof (induction run)
    case (Cons r run)
    then have "\<not> calls_tools r" by (cases r) auto
    then show ?case using Cons by simp
  qed simp
  have syn: "synthetic_results reason (tool_calls_of i) run \<noteq> []
      \<longleftrightarrow> list_ex (\<lambda>c. c \<notin> set (map result_id run)) (call_ids i)"
    by (auto simp: synthetic_results_def call_ids_def filter_empty_conv list_ex_iff)
  show ?case
  proof (cases "calls_tools i")
    case True
    then show ?thesis using Cons.IH [OF bs] b by (simp add: flat_run [OF bs run] syn)
  next
    case False
    then have "tool_calls_of i = []" by (cases i) auto
    then show ?thesis using False Cons.IH [OF bs] b by (simp add: plain synthetic_results_def)
  qed
qed simp

lemma dangling_strays:
  "list_all is_tool_result_item strays \<Longrightarrow>
     has_dangling_tool_calls (strays @ items) = has_dangling_tool_calls items"
proof (induction strays)
  case (Cons r strays)
  then have "\<not> calls_tools r" by (cases r) auto
  then show ?case using Cons by simp
qed simp

lemma repaired_strays:
  "list_all is_tool_result_item strays \<Longrightarrow>
     repaired reason (strays @ items) = (strays @ fst (repaired reason items), snd (repaired reason items))"
proof (induction strays)
  case (Cons r strays)
  then have "\<not> is_assistant_item r" by (cases r) auto
  then show ?case using Cons by simp
qed simp

lemma no_dangling_repaired:
  "\<not> has_dangling_tool_calls (fst (repair_dangling_tool_calls reason items))"
proof -
  obtain strays bs where items: "items = strays @ flat bs" and strays: "list_all is_tool_result_item strays"
    and ok: "list_all block_ok bs" using blocks_exist by blast
  let ?a = "map (\<lambda>(i, run). (i, answered_run reason i run)) bs"
  have ok': "list_all block_ok ?a"
    using ok synthetic_are_results by (fastforce simp: list_all_iff answered_run_def)
  have none: "synthetic_results reason (tool_calls_of i) (answered_run reason i run) = []" for i run
  proof -
    have "set (map result_id (answered_run reason i run)) = set (map result_id run)
        \<union> {c \<in> set (map tc_id (tool_calls_of i)). c \<notin> set (map result_id run)}"
      by (simp only: answered_run_def map_append set_append synthetic_ids set_filter)
    then have "map result_id (synthetic_results reason (tool_calls_of i) (answered_run reason i run)) = []"
      unfolding synthetic_ids filter_empty_conv by blast
    then show ?thesis by simp
  qed
  have "\<not> has_dangling_tool_calls (flat ?a)"
    unfolding dangling_flat [OF ok', of reason] by (auto simp: list_ex_iff none)
  then show ?thesis
    using strays by (simp add: splices_are_one_pass items repaired_strays dangling_strays repaired_flat [OF ok])
qed

lemma sum_list_pos: "sum_list (map f bs) > (0 :: nat) \<longleftrightarrow> list_ex (\<lambda>b. f b > 0) bs"
  by (induction bs) auto

lemma dangling_iff:
  "has_dangling_tool_calls items \<longleftrightarrow> snd (repair_dangling_tool_calls reason items) > 0"
proof -
  obtain strays bs where items: "items = strays @ flat bs" and strays: "list_all is_tool_result_item strays"
    and ok: "list_all block_ok bs" using blocks_exist by blast
  have "has_dangling_tool_calls items
      \<longleftrightarrow> list_ex (\<lambda>b. (case b of (i, run) \<Rightarrow> length (synthetic_results reason (tool_calls_of i) run)) > 0) bs"
    by (simp add: items dangling_strays [OF strays] dangling_flat [OF ok, of reason] list_ex_iff case_prod_beta)
  also have "\<dots> \<longleftrightarrow> snd (repair_dangling_tool_calls reason items) > 0"
    by (simp only: splices_are_one_pass items repaired_strays [OF strays] repaired_flat [OF ok]
        snd_conv sum_list_pos)
  finally show ?thesis .
qed

text \<open>
  The repair that looks for missing results and then splices them in from the back does what
  one pass over the conversation does; it adds something exactly when the check says that a call
  is dangling, and afterwards none is.
\<close>

theorem dangling_repair_is_one_pass:
  "repair_dangling_tool_calls reason items = repaired reason items
   \<and> (has_dangling_tool_calls items \<longleftrightarrow> snd (repair_dangling_tool_calls reason items) > 0)
   \<and> \<not> has_dangling_tool_calls (fst (repair_dangling_tool_calls reason items))"
  using splices_are_one_pass dangling_iff no_dangling_repaired by blast

text \<open>
  A message that calls twice with one id is outside the property of repairs above, although the code calls its repair
  idempotent: it makes up a result for each of the two calls and removes one of them when it runs
  again.
\<close>

lemma repair_of_repeated_id_is_not_idempotent:
  "let items = [assistant_tool_calls [\<lparr>tc_id = ''c'', tc_name = ''a'', tc_arguments = []\<rparr>,
                                      \<lparr>tc_id = ''c'', tc_name = ''b'', tc_arguments = []\<rparr>]];
       once = fst (repair_history items)
   in length once = 3 \<and> length (fst (repair_history once)) = 2
      \<and> report_changed (snd (repair_history once))"
  by code_simp

theorem repaired_history_is_paired_witness:
  "well_paired (fst (repair_history
     [tool_result ''x'' ''stray'',
      assistant_tool_calls [\<lparr>tc_id = ''c'', tc_name = ''a'', tc_arguments = []\<rparr>,
                            \<lparr>tc_id = ''d'', tc_name = ''b'', tc_arguments = []\<rparr>],
      tool_result ''c'' ''early'', tool_result ''c'' ''late'', user_message ''go on'']))"
proof -
  have "calls_distinct
     [tool_result ''x'' ''stray'',
      assistant_tool_calls [\<lparr>tc_id = ''c'', tc_name = ''a'', tc_arguments = []\<rparr>,
                            \<lparr>tc_id = ''d'', tc_name = ''b'', tc_arguments = []\<rparr>],
      tool_result ''c'' ''early'', tool_result ''c'' ''late'', user_message ''go on'']"
    by code_simp
  then show ?thesis by (rule repaired_history_is_paired [THEN conjunct1])
qed

end
