(* ===== verification/GB_CompactionText.thy ===== *)
theory GB_CompactionText
  imports GB_Search
begin

section \<open>Texts of a compaction (crates/common/xai-grok-compaction)\<close>

text \<open>
  The texts a compaction reads and writes: the answer of the summarizing model is cleaned into the
  seed of the next turn (\<open>code_compaction/summary.rs\<close>), the queries of the user are carried along
  in blocks (\<open>history/filter.rs\<close>), results are validated (\<open>history/validate.rs\<close>), and errors that
  report an overflow are recognized (\<open>code_compaction/failure.rs\<close>). The traits of \<open>item.rs\<close> are
  records of functions; the prompt templates are parameters.
\<close>

subsection \<open>Items (item.rs)\<close>

datatype compaction_role = CompactSystem | CompactDeveloper | CompactUser | CompactAssistant | CompactTool

record compaction_file_ref =
  cf_id :: string
  cf_name :: string

record 't compaction_item =
  co_role :: "'t \<Rightarrow> compaction_role"
  co_text :: "'t \<Rightarrow> string option"
  co_has_tool_requests :: "'t \<Rightarrow> bool"
  co_is_compaction_summary :: "'t \<Rightarrow> bool"
  co_attachment_refs :: "'t \<Rightarrow> compaction_file_ref list"

record 't compaction_item_builder = "'t compaction_item" +
  co_compaction_summary_item :: "string \<Rightarrow> 't"
  co_strip_tool_content :: "'t \<Rightarrow> 't option"
  co_truncate_payload :: "'t \<Rightarrow> 32 word \<Rightarrow> 't"

record 't compaction_item_factory =
  co_new_user :: "string \<Rightarrow> 't"
  co_new_user_meta :: "string \<Rightarrow> 't"
  co_new_project_instructions :: "string \<Rightarrow> 't"
  co_new_system_reminder :: "string \<Rightarrow> 't"

definition co_is_tool_result :: "('t, 'z) compaction_item_scheme \<Rightarrow> 't \<Rightarrow> bool" where
  "co_is_tool_result ci t \<longleftrightarrow> co_role ci t = CompactTool"

subsection \<open>The summary of the model (code_compaction/summary.rs)\<close>

definition zero_width_space :: string where
  "zero_width_space = [CHR 0xE2, CHR 0x80, CHR 0x8B]"

text \<open>\<open>result[a..b]\<close> for \<open>a \<le> b\<close>.\<close>

definition slice :: "string \<Rightarrow> nat \<Rightarrow> nat \<Rightarrow> string" where
  "slice s a b = take (b - a) (drop a s)"

definition analysis_is_leading :: "string \<Rightarrow> nat \<Rightarrow> bool" where
  "analysis_is_leading result start =
     (case find_sub result ''<summary>'' of
        Some sp \<Rightarrow> start < sp \<or> trim (slice result (sp + length ''<summary>'') start) = []
      | None \<Rightarrow> trim (take start result) = [])"

function strip_leading_analysis :: "string \<Rightarrow> string" where
  "strip_leading_analysis result =
     (case find_sub result ''<analysis>'' of
        None \<Rightarrow> result
      | Some start \<Rightarrow>
          if \<not> analysis_is_leading result start then result
          else case find_sub (drop start result) ''</analysis>'' of
                 Some rel \<Rightarrow>
                   strip_leading_analysis
                     (take start result @ drop (start + rel + length ''</analysis>'') result)
               | None \<Rightarrow>
                   (let drop_to = (case find_sub (drop start result) ''<summary>'' of
                                     Some rel \<Rightarrow> start + rel | None \<Rightarrow> length result)
                    in take start result @ drop drop_to result))"
  by pat_completeness auto
termination
proof (relation "measure length", goal_cases)
  case (2 result start rel)
  have "start < length result" using find_sub_Some(2) [OF 2(1)] by simp
  then show ?case by simp
qed simp

declare strip_leading_analysis.simps [simp del]

fun trim_start_chars :: "char list \<Rightarrow> string \<Rightarrow> string" where
  "trim_start_chars cs [] = []"
| "trim_start_chars cs (c # s) = (if c \<in> set cs then trim_start_chars cs s else c # s)"

definition leads_with_digit :: "string \<Rightarrow> bool" where
  "leads_with_digit s = (case s of c # _ \<Rightarrow> is_ascii_digit c | [] \<Rightarrow> False)"

definition strip_leading_scratchpad :: "string \<Rightarrow> string" where
  "strip_leading_scratchpad inner =
     (let s = trim inner;
          lead = trim_start_chars [CHR ''#'', CHR ''*'', CHR ''-'', CHR ''>'', CHR '' '', CHR 0x09] s;
          s1 = (if leads_with_digit lead then s
                else case rfind_sub s ''</analysis>'' of
                       Some pos \<Rightarrow> trim_start (drop (pos + length ''</analysis>'') s)
                     | None \<Rightarrow> s)
      in case strip_prefix s1 ''<summary>'' of Some rest \<Rightarrow> trim_start rest | None \<Rightarrow> s1)"

definition defuse :: "string \<Rightarrow> string \<Rightarrow> string" where
  "defuse tag s = replace_all (CHR ''<'' # tag) (CHR ''<'' # zero_width_space @ tag) s"

definition neutralize_compaction_control_tokens :: "string \<Rightarrow> string" where
  "neutralize_compaction_control_tokens s =
     defuse ''summary_request>'' (defuse ''/summary_request>''
       (defuse ''analysis>'' (defuse ''/analysis>''
         (defuse ''summary>'' (defuse ''/summary>'' s)))))"

function collapse_blank_lines :: "string \<Rightarrow> string" where
  "collapse_blank_lines s =
     (if contains_sub s [LF, LF, LF] then collapse_blank_lines (replace_all [LF, LF, LF] [LF, LF] s)
      else s)"
  by pat_completeness auto
termination
  by (relation "measure length") (auto intro: replace_all_shorter(2))

declare collapse_blank_lines.simps [simp del]

definition convert_outer_summary :: "string \<Rightarrow> string" where
  "convert_outer_summary result =
     (case (find_sub result ''<summary>'', rfind_sub result ''</summary>'') of
        (Some start, Some end_pos) \<Rightarrow>
          if end_pos > start
          then take start result @ ''Summary:'' @ [LF]
                 @ strip_leading_scratchpad (trim (slice result (start + length ''<summary>'') end_pos))
                 @ drop (end_pos + length ''</summary>'') result
          else result
      | _ \<Rightarrow> result)"

definition format_compact_summary :: "string \<Rightarrow> string" where
  "format_compact_summary summary =
     trim (collapse_blank_lines (neutralize_compaction_control_tokens
       (convert_outer_summary (strip_leading_analysis summary))))"

definition MIN_SUMMARY_SEED_CHARS :: nat where "MIN_SUMMARY_SEED_CHARS = 500"

definition is_degenerate_summary :: "string \<Rightarrow> bool" where
  "is_degenerate_summary raw \<longleftrightarrow> char_count (format_compact_summary raw) < MIN_SUMMARY_SEED_CHARS"

definition format_compact_summary_content :: "string \<Rightarrow> string" where
  "format_compact_summary_content raw =
     ''This session is being continued from a previous conversation that ran out of context. '' @
     ''The summary below covers the earlier portion of the conversation.'' @ [LF, LF]
     @ format_compact_summary raw"

definition wrap_user_query :: "string \<Rightarrow> string" where
  "wrap_user_query t = ''<user_query>'' @ [LF] @ t @ [LF] @ ''</user_query>''"

subsection \<open>The rebuilt history (code_compaction/assemble.rs)\<close>

record 't compacted_history_parts =
  hp_system_message :: 't
  hp_user_message_prefix :: string
  hp_agents_md_reminder :: "string option"
  hp_last_user_query :: "string option"
  hp_recent_messages :: "'t list"
  hp_compaction_summary :: string
  hp_system_reminder :: "string option"
  hp_transcript_hint :: "string option"

definition opt_item :: "('a \<Rightarrow> 't) \<Rightarrow> 'a option \<Rightarrow> 't list" where
  "opt_item f x = (case x of Some a \<Rightarrow> [f a] | None \<Rightarrow> [])"

definition assemble_compacted_history ::
    "'t compaction_item_factory \<Rightarrow> 't compacted_history_parts \<Rightarrow> 't list" where
  "assemble_compacted_history fac p =
     [hp_system_message p, co_new_user_meta fac (hp_user_message_prefix p)]
     @ opt_item (co_new_project_instructions fac) (hp_agents_md_reminder p)
     @ opt_item (\<lambda>q. co_new_user fac (wrap_user_query q)) (hp_last_user_query p)
     @ hp_recent_messages p
     @ [co_new_user_meta fac
          (format_compact_summary_content (hp_compaction_summary p)
           @ (case hp_transcript_hint p of Some h \<Rightarrow> h | None \<Rightarrow> []))]
     @ opt_item (co_new_system_reminder fac) (hp_system_reminder p)"

subsection \<open>Prompts (code_compaction/prompt.rs)\<close>

record compaction_prompt =
  cp_system :: string
  cp_user :: string

definition build_summary_prompt :: "string \<Rightarrow> string option \<Rightarrow> string" where
  "build_summary_prompt template user_context =
     replace_all ''{user_context_section}''
       (case user_context of
          Some context \<Rightarrow>
            [LF, LF] @ ''**User-provided context for this compaction:**'' @ [LF] @ context @ [LF, LF]
            @ ''Please incorporate this context into your summary, ensuring it is prominently addressed in the relevant sections.''
            @ [LF, LF]
        | None \<Rightarrow> []) template"

subsection \<open>Errors that report an overflow (code_compaction/failure.rs)\<close>

function split_str :: "string \<Rightarrow> string \<Rightarrow> string list" where
  "split_str sep s =
     (case find_sub s sep of
        Some i \<Rightarrow> if sep = [] then [s] else take i s # split_str sep (drop (i + length sep) s)
      | None \<Rightarrow> [s])"
  by pat_completeness auto
termination
proof (relation "measure (\<lambda>(sep, s). length s)", goal_cases)
  case (2 sep s i)
  then show ?case using find_sub_Some(2) [OF 2(1)] by (cases sep) auto
qed simp

declare split_str.simps [simp del]

definition is_anchored :: "string \<Rightarrow> string \<Rightarrow> bool" where
  "is_anchored m needle \<longleftrightarrow> list_ex (\<lambda>seg. starts_with seg needle) (split_str '': '' m)"

definition has_size_slug :: "string \<Rightarrow> bool" where
  "has_size_slug m \<longleftrightarrow>
     list_ex (is_anchored m)
       [''context_length_exceeded'', ''exceed_context_size_error'', ''payload_too_large'']"

definition has_rendered_413_phrase :: "string \<Rightarrow> bool" where
  "has_rendered_413_phrase m \<longleftrightarrow>
     contains_sub m ''413 payload too large'' \<or> contains_sub m ''413 content too large''
     \<or> contains_sub m ''413 request entity too large''"

definition has_input_length_pair :: "string \<Rightarrow> bool" where
  "has_input_length_pair m \<longleftrightarrow>
     contains_sub m ''input length'' \<and> contains_sub m ''exceeds the maximum allowed length''"

definition is_context_length_error :: "string \<Rightarrow> bool" where
  "is_context_length_error message =
     (let m = ascii_lower message
      in contains_sub m ''too long for this model''
         \<or> contains_sub m ''prompt is too long''
         \<or> contains_sub m ''maximum prompt length''
         \<or> contains_sub m ''maximum context length''
         \<or> contains_sub m ''maximum allowed number of bytes''
         \<or> (contains_sub m ''current message'' \<and> contains_sub m ''exceeds budget'')
         \<or> is_anchored m ''request too large''
         \<or> has_size_slug m
         \<or> has_rendered_413_phrase m
         \<or> has_input_length_pair m)"

subsection \<open>Validation (history/validate.rs)\<close>

datatype compaction_strategy = StrategyBasic | DivideAndConquer | StrategyFullReplace

datatype compaction_validation_error =
  EmptyContent
| UnbalancedChunkTags nat nat

definition validate_compaction_text ::
    "string \<Rightarrow> compaction_strategy \<Rightarrow> compaction_validation_error option" where
  "validate_compaction_text t strategy =
     (if trim t = [] then Some EmptyContent
      else if strategy = DivideAndConquer
      then (let open_count = count_matches t ''<chunk_summary'';
                close_count = count_matches t ''</chunk_summary>''
            in if open_count \<noteq> close_count then Some (UnbalancedChunkTags open_count close_count)
               else None)
      else None)"

subsection \<open>Filters (history/filter.rs)\<close>

definition keep_turn_for_basic_compaction :: "('t, 'z) compaction_item_scheme \<Rightarrow> 't \<Rightarrow> bool" where
  "keep_turn_for_basic_compaction ci t =
     (case co_role ci t of
        CompactSystem \<Rightarrow> False
      | CompactDeveloper \<Rightarrow> co_is_compaction_summary ci t
      | _ \<Rightarrow> True)"

definition filter_turns_for_basic :: "('t, 'z) compaction_item_scheme \<Rightarrow> 't list \<Rightarrow> 't list" where
  "filter_turns_for_basic ci ts = filter (keep_turn_for_basic_compaction ci) ts"

definition inter_turn :: "('t, 'z) compaction_item_builder_scheme \<Rightarrow> 't \<Rightarrow> 't option" where
  "inter_turn ci t =
     (case co_role ci t of
        CompactTool \<Rightarrow> None
      | CompactSystem \<Rightarrow> None
      | CompactDeveloper \<Rightarrow> if co_is_compaction_summary ci t then Some t else None
      | CompactUser \<Rightarrow> Some t
      | CompactAssistant \<Rightarrow> co_strip_tool_content ci t)"

definition filter_turns_for_inter_compaction ::
    "('t, 'z) compaction_item_builder_scheme \<Rightarrow> 't list \<Rightarrow> 't list" where
  "filter_turns_for_inter_compaction ci ts = List.map_filter (inter_turn ci) ts"

definition QUERIES_START :: string where "QUERIES_START = ''<grok_user_queries>''"
definition QUERIES_END :: string where "QUERIES_END = ''</grok_user_queries>''"

text \<open>One piece of text goes to the rest, on a line of its own, unless it is blank.\<close>

definition push_rest :: "string \<Rightarrow> string \<Rightarrow> string" where
  "push_rest rest piece =
     (let p = trim piece
      in if p = [] then rest else if rest = [] then p else rest @ [LF] @ p)"

text \<open>The loop over the text behind the cursor, with the blocks found and the rest so far.\<close>

function split_blocks :: "string \<Rightarrow> string list \<Rightarrow> string \<Rightarrow> string list \<times> string" where
  "split_blocks s sections rest =
     (case find_sub s QUERIES_START of
        None \<Rightarrow> (sections, push_rest rest s)
      | Some start \<Rightarrow>
          (case find_sub (drop start s) QUERIES_END of
             None \<Rightarrow> (sections, push_rest rest s)
           | Some e \<Rightarrow>
               split_blocks (drop (start + e + length QUERIES_END) s)
                 (sections @ [take (e + length QUERIES_END) (drop start s)])
                 (push_rest rest (take start s))))"
  by pat_completeness auto
termination
proof (relation "measure (\<lambda>(s, _, _). length s)", goal_cases)
  case (2 s sections rest start e)
  then show ?case using find_sub_Some(2) [OF 2(1)] by (simp add: QUERIES_START_def QUERIES_END_def)
qed simp

declare split_blocks.simps [simp del]

definition split_prior_compaction_text :: "string \<Rightarrow> string option \<times> string" where
  "split_prior_compaction_text s =
     (let (sections, rest) = split_blocks s [] []
      in if sections = [] then (None, s) else (Some (join_with [LF] sections), rest))"

definition take_chars :: "nat \<Rightarrow> string \<Rightarrow> string" where
  "take_chars n s = take (char_index_or (length s) s n) s"

definition skip_chars :: "nat \<Rightarrow> string \<Rightarrow> string" where
  "skip_chars n s = drop (char_index_or (length s) s n) s"

definition truncate_query_middle :: "string \<Rightarrow> nat \<Rightarrow> string option" where
  "truncate_query_middle msg max_chars =
     (let n = char_count msg
      in if n \<le> max_chars then None
         else let front_len = max_chars div 2;
                  back_len = max_chars - front_len
              in Some (take_chars front_len msg @ ''...[truncated]...'' @ skip_chars (n - back_len) msg))"

definition file_line :: "compaction_file_ref \<Rightarrow> string" where
  "file_line r =
     ''<grok_file id='' @ [CHR 0x22] @ cf_id r @ [CHR 0x22] @ '' name='' @ [CHR 0x22] @ cf_name r
     @ [CHR 0x22] @ '' />'' @ [LF]"

definition query_block :: "nat \<Rightarrow> string \<Rightarrow> compaction_file_ref list \<Rightarrow> string" where
  "query_block threshold t attachments =
     ''<grok_query>'' @ (case truncate_query_middle t threshold of Some x \<Rightarrow> x | None \<Rightarrow> t)
     @ (if attachments \<noteq> [] then [LF] @ concat (map file_line attachments) else [])
     @ ''</grok_query>'' @ [LF]"

definition turn_query :: "('t, 'z) compaction_item_scheme \<Rightarrow> nat \<Rightarrow> 't \<Rightarrow> string option" where
  "turn_query ci threshold turn =
     (if co_role ci turn \<noteq> CompactUser then None
      else let t = (case co_text ci turn of Some x \<Rightarrow> x | None \<Rightarrow> []);
               attachments = co_attachment_refs ci turn
           in if t = [] \<and> attachments = [] then None else Some (query_block threshold t attachments))"

definition extract_user_queries_from_turns ::
    "('t, 'z) compaction_item_scheme \<Rightarrow> 't list \<Rightarrow> 32 word \<Rightarrow> string option" where
  "extract_user_queries_from_turns ci turns user_truncate_chars =
     (let queries = List.map_filter (turn_query ci (unat user_truncate_chars)) turns
      in if queries = [] then None
         else Some (QUERIES_START @ [LF] @ concat queries @ QUERIES_END))"

record 't separated_history_turns =
  sh_turns_for_llm :: "'t list"
  sh_prior_user_queries :: "string option"
  sh_has_prior_compaction :: bool

definition separate_turn ::
    "('t, 'z) compaction_item_builder_scheme \<Rightarrow> 't separated_history_turns \<Rightarrow> 't
       \<Rightarrow> 't separated_history_turns" where
  "separate_turn ci acc turn =
     (if co_is_compaction_summary ci turn
      then (let content = (case co_text ci turn of Some x \<Rightarrow> x | None \<Rightarrow> []);
                (user_section, rest) = split_prior_compaction_text content;
                prior = (case user_section of
                           None \<Rightarrow> sh_prior_user_queries acc
                         | Some sec \<Rightarrow>
                             (case sh_prior_user_queries acc of
                                Some existing \<Rightarrow> Some (existing @ [LF] @ sec)
                              | None \<Rightarrow> Some sec));
                llm = (if rest \<noteq> [] then sh_turns_for_llm acc @ [co_compaction_summary_item ci rest]
                       else sh_turns_for_llm acc)
            in \<lparr>sh_turns_for_llm = llm, sh_prior_user_queries = prior, sh_has_prior_compaction = True\<rparr>)
      else acc\<lparr>sh_turns_for_llm := sh_turns_for_llm acc @ [turn]\<rparr>)"

definition separate_prior_user_queries ::
    "('t, 'z) compaction_item_builder_scheme \<Rightarrow> 't list \<Rightarrow> 't separated_history_turns" where
  "separate_prior_user_queries ci turns =
     foldl (separate_turn ci)
       \<lparr>sh_turns_for_llm = [], sh_prior_user_queries = None, sh_has_prior_compaction = False\<rparr> turns"

definition extract_prior_user_queries ::
    "('t, 'z) compaction_item_builder_scheme \<Rightarrow> 't list \<Rightarrow> string option" where
  "extract_prior_user_queries ci turns = sh_prior_user_queries (separate_prior_user_queries ci turns)"

definition assemble_user_queries_preamble :: "string option \<Rightarrow> string option \<Rightarrow> string" where
  "assemble_user_queries_preamble prior current =
     (case prior of Some p \<Rightarrow> p @ [LF, LF] | None \<Rightarrow> [])
     @ (case current of Some c \<Rightarrow> c @ [LF, LF] | None \<Rightarrow> [])"

definition build_user_queries_preamble ::
    "('t, 'z) compaction_item_builder_scheme \<Rightarrow> 't list \<Rightarrow> string option \<Rightarrow> string" where
  "build_user_queries_preamble ci turns current =
     assemble_user_queries_preamble (extract_prior_user_queries ci turns) current"

definition wrap_chunk_analysis :: "nat \<Rightarrow> string \<Rightarrow> string" where
  "wrap_chunk_analysis index thinking =
     (let t = trim thinking
      in if t = [] then []
         else ''<chunk_analysis index='' @ [CHR 0x22] @ dec_digits index @ [CHR 0x22] @ ''>'' @ [LF]
              @ t @ [LF] @ ''</chunk_analysis>'' @ [LF, LF])"

definition append_reminder_block :: "string \<Rightarrow> string option \<Rightarrow> string" where
  "append_reminder_block summary reminder =
     (case reminder of
        Some r \<Rightarrow> if trim r \<noteq> [] then summary @ [LF, LF] @ r else summary
      | None \<Rightarrow> summary)"

section \<open>What the texts keep\<close>

subsection \<open>The seed holds no control tokens\<close>

definition CONTROL_TAGS :: "string list" where
  "CONTROL_TAGS = [''/summary>'', ''summary>'', ''/analysis>'', ''analysis>'',
                   ''/summary_request>'', ''summary_request>'']"

definition plain_tag :: "string \<Rightarrow> bool" where
  "plain_tag q \<longleftrightarrow> q \<noteq> [] \<and> CHR ''<'' \<notin> set q \<and> hd q \<noteq> CHR 0xE2 \<and> LF \<notin> set q"

lemma control_tags_plain: "list_all plain_tag CONTROL_TAGS"
  by code_simp

lemma defuse_occ:
  assumes "plain_tag q" and "CHR ''<'' \<notin> set p" and "contains_sub (defuse p s) (CHR ''<'' # q)"
  shows "contains_sub s (CHR ''<'' # q) \<and> q \<noteq> p"
proof -
  have "CHR 0xE2 \<notin> set (take 1 q)" using assms(1) by (cases q) (auto simp: plain_tag_def)
  moreover have "CHR ''<'' \<notin> set (CHR 0xE2 # [CHR 0x80, CHR 0x8B] @ p)" using assms(2) by simp
  ultimately show ?thesis
    using assms(1,3) replace_all_occ [of "CHR ''<''" q "CHR 0xE2" "[CHR 0x80, CHR 0x8B] @ p" p s]
    by (simp add: plain_tag_def defuse_def zero_width_space_def)
qed

lemma neutralized:
  assumes "q \<in> set CONTROL_TAGS"
  shows "\<not> contains_sub (neutralize_compaction_control_tokens s) (CHR ''<'' # q)"
proof
  assume occ: "contains_sub (neutralize_compaction_control_tokens s) (CHR ''<'' # q)"
  have q: "plain_tag q" using assms control_tags_plain by (auto simp: list_all_iff)
  have lt: "CHR ''<'' \<notin> set p" if "p \<in> set CONTROL_TAGS" for p
    using that control_tags_plain by (auto simp: list_all_iff plain_tag_def)
  have step: "contains_sub s (CHR ''<'' # q) \<and> q \<noteq> p"
    if "p \<in> set CONTROL_TAGS" and "contains_sub (defuse p s) (CHR ''<'' # q)" for p s
    using defuse_occ [OF q lt] that by blast
  have mem: "''summary_request>'' \<in> set CONTROL_TAGS" "''/summary_request>'' \<in> set CONTROL_TAGS"
    "''analysis>'' \<in> set CONTROL_TAGS" "''/analysis>'' \<in> set CONTROL_TAGS"
    "''summary>'' \<in> set CONTROL_TAGS" "''/summary>'' \<in> set CONTROL_TAGS"
    by (simp_all add: CONTROL_TAGS_def)
  note o1 = step [OF mem(1) occ [unfolded neutralize_compaction_control_tokens_def]]
  note o2 = step [OF mem(2) o1 [THEN conjunct1]]
  note o3 = step [OF mem(3) o2 [THEN conjunct1]]
  note o4 = step [OF mem(4) o3 [THEN conjunct1]]
  note o5 = step [OF mem(5) o4 [THEN conjunct1]]
  note o6 = step [OF mem(6) o5 [THEN conjunct1]]
  have "q \<noteq> ''summary_request>'' \<and> q \<noteq> ''/summary_request>'' \<and> q \<noteq> ''analysis>''
      \<and> q \<noteq> ''/analysis>'' \<and> q \<noteq> ''summary>'' \<and> q \<noteq> ''/summary>''"
    by (intro conjI o1 [THEN conjunct2] o2 [THEN conjunct2] o3 [THEN conjunct2] o4 [THEN conjunct2]
      o5 [THEN conjunct2] o6 [THEN conjunct2])
  then show False using assms by (simp add: CONTROL_TAGS_def)
qed

lemma collapse_occ:
  assumes "LF \<notin> set tok" and "tok \<noteq> []"
  shows "contains_sub (collapse_blank_lines s) tok \<Longrightarrow> contains_sub s tok"
proof (induction s rule: collapse_blank_lines.induct)
  case (1 s)
  show ?case
  proof (cases "contains_sub s [LF, LF, LF]")
    case True
    have "hd tok \<notin> set [LF]" using assms by (cases tok) auto
    then show ?thesis
      using 1 True replace_all_occ_other [OF assms, of "[LF]" "[LF, LF]" s]
      by (simp add: collapse_blank_lines.simps [of s])
  next
    case False
    then show ?thesis using 1 by (simp add: collapse_blank_lines.simps [of s])
  qed
qed

lemma collapsed: "\<not> contains_sub (collapse_blank_lines s) [LF, LF, LF]"
proof (induction s rule: collapse_blank_lines.induct)
  case (1 s)
  then show ?case by (cases "contains_sub s [LF, LF, LF]") (simp_all add: collapse_blank_lines.simps [of s])
qed

text \<open>
  C38. Whatever the summarizing model answered, the seed of the next turn holds none of the tags the
  compaction speaks in, opening or closing, and no run of blank lines.
\<close>

theorem summary_seed_is_inert:
  "list_all (\<lambda>q. \<not> contains_sub (format_compact_summary raw) (CHR ''<'' # q)) CONTROL_TAGS
   \<and> \<not> contains_sub (format_compact_summary raw) [LF, LF, LF]"
proof -
  have "\<not> contains_sub (format_compact_summary raw) (CHR ''<'' # q)" if q: "q \<in> set CONTROL_TAGS" for q
  proof
    assume "contains_sub (format_compact_summary raw) (CHR ''<'' # q)"
    then have occ: "contains_sub (collapse_blank_lines (neutralize_compaction_control_tokens
        (convert_outer_summary (strip_leading_analysis raw)))) (CHR ''<'' # q)"
      unfolding format_compact_summary_def by (rule trim_sub)
    have "LF \<notin> set (CHR ''<'' # q)"
      using q control_tags_plain by (auto simp: list_all_iff plain_tag_def LF_def)
    then show False using collapse_occ [OF _ _ occ] neutralized [OF q] by simp
  qed
  moreover have "\<not> contains_sub (format_compact_summary raw) [LF, LF, LF]"
    unfolding format_compact_summary_def using trim_sub collapsed by blast
  ultimately show ?thesis unfolding list_all_iff by blast
qed

subsection \<open>The queries of the user come back\<close>

text \<open>Glueing two texts makes no occurrence if no occurrence can lie across the seam.\<close>

definition seam :: "string \<Rightarrow> string \<Rightarrow> string \<Rightarrow> bool" where
  "seam p a b \<longleftrightarrow> a = [] \<or> b = [] \<or> last a \<notin> set (butlast p) \<or> hd b \<notin> set (tl p)"

lemma contains_glue:
  assumes "seam p a b" and "p \<noteq> []" and "\<not> contains_sub a p" and "\<not> contains_sub b p"
  shows "\<not> contains_sub (a @ b) p"
proof
  assume "contains_sub (a @ b) p"
  then obtain u v where uv: "a @ b = u @ p @ v" unfolding contains_sub_iff by blast
  have no: "x = y @ p @ z \<Longrightarrow> x = a \<or> x = b \<Longrightarrow> False" for x y z
    using assms(3,4) unfolding contains_sub_iff by blast
  from uv consider us where "a = u @ us" "us @ b = p @ v" | us where "b = us @ p @ v"
    unfolding append_eq_append_conv2 by blast
  then show False
  proof cases
    case 1
    from 1(2) consider ws where "us = p @ ws" | ws where "p = us @ ws" "b = ws @ v"
      unfolding append_eq_append_conv2 by blast
    then show False
    proof cases
      case (2 ws)
      have us: "us \<noteq> []" and ws: "ws \<noteq> []"
        using 2 1(1) no [of b "[]" v] no [of a u "[]"] by auto
      have "last a \<in> set (butlast p)" using us ws 1(1) 2(1) by (simp add: butlast_append)
      moreover have "hd b \<in> set (tl p)" using us ws 2 by (cases us) auto
      ultimately show False using assms(1) us ws 1(1) 2(2) by (auto simp: seam_def)
    qed (use no [of a u] 1(1) in auto)
  qed (use no in auto)
qed

text \<open>A block closes only at its end.\<close>

definition closed_block :: "string \<Rightarrow> bool" where
  "closed_block b \<longleftrightarrow> (\<exists>m. b = QUERIES_START @ m @ QUERIES_END \<and> \<not> contains_sub (QUERIES_START @ m @ butlast QUERIES_END) QUERIES_END)"

lemma find_in_closed:
  assumes "closed_block b"
  shows "find_sub (b @ t) QUERIES_END = Some (length b - length QUERIES_END)"
proof -
  obtain m where m: "b = QUERIES_START @ m @ QUERIES_END"
    "\<not> contains_sub (QUERIES_START @ m @ butlast QUERIES_END) QUERIES_END"
    using assms by (auto simp: closed_block_def)
  have ne: "QUERIES_END = butlast QUERIES_END @ [last QUERIES_END]" "QUERIES_END \<noteq> []"
    by (simp_all add: QUERIES_END_def)
  define x where "x = QUERIES_START @ m @ butlast QUERIES_END"
  have xt: "(QUERIES_START @ m) @ QUERIES_END @ t = x @ [last QUERIES_END] @ t"
    using ne(1) unfolding x_def by (metis append_assoc)
  have "\<not> starts_with (drop j ((QUERIES_START @ m) @ QUERIES_END @ t)) QUERIES_END"
    if "j < length (QUERIES_START @ m)" for j
  proof
    assume "starts_with (drop j ((QUERIES_START @ m) @ QUERIES_END @ t)) QUERIES_END"
    moreover have len: "length QUERIES_END \<le> length (drop j x)" "j \<le> length x"
      using that ne(2) by (simp_all add: x_def)
    moreover from len(2) have "drop j (x @ [last QUERIES_END] @ t) = drop j x @ [last QUERIES_END] @ t"
      by simp
    ultimately have "prefix QUERIES_END (drop j x)"
      unfolding starts_with_def xt by (metis prefix_length_prefix prefixI)
    then obtain w where "drop j x = QUERIES_END @ w" by (auto simp: prefix_def)
    then have "x = take j x @ QUERIES_END @ w" by (metis append_take_drop_id)
    then show False using m(2) unfolding x_def contains_sub_iff by blast
  qed
  from find_sub_first [OF this] show ?thesis using m(1) by simp
qed

text \<open>One closed block behind line breaks is taken off.\<close>

lemma trim_LF: "trim (LF # s) = trim s"
proof -
  have "ws_prefix_len white_space (LF # s) = 1"
    by (simp add: ws_prefix_len_def white_space_def starts_with_def LF_def)
  then show ?thesis by (simp add: trim_def trim_start_def trim_with.simps [of _ "LF # s"])
qed

lemma trim_LFs: "set w \<subseteq> {LF} \<Longrightarrow> trim (w @ s) = trim s"
  by (induction w) (auto simp: trim_LF)

lemma trim_empty: "trim [] = []"
  using trim_with_suffix [of white_space "[]"] trim_with_suffix [of "map rev white_space" "[]"]
  by (simp add: trim_def trim_start_def trim_end_def)

lemma push_rest_LFs: "set w \<subseteq> {LF} \<Longrightarrow> push_rest rest w = rest"
  using trim_LFs [of w "[]"] trim_empty by (simp add: push_rest_def)

lemma split_closed:
  assumes "closed_block b" and "set w \<subseteq> {LF}"
  shows "split_blocks (w @ b @ t) sections rest = split_blocks t (sections @ [b]) rest"
proof -
  obtain m where m: "b = QUERIES_START @ m @ QUERIES_END"
    using assms(1) by (auto simp: closed_block_def)
  have "\<not> starts_with (drop j (w @ QUERIES_START @ m @ QUERIES_END @ t)) QUERIES_START"
    if "j < length w" for j
  proof -
    have "drop j w = w ! j # drop (Suc j) w" using that by (simp add: Cons_nth_drop_Suc)
    moreover have "w ! j = LF" using that assms(2) nth_mem by blast
    ultimately obtain r where "drop j w = LF # r" by metis
    then show ?thesis using that by (simp add: starts_with_def QUERIES_START_def LF_def)
  qed
  then have "find_sub (w @ b @ t) QUERIES_START = Some (length w)"
    using find_sub_first [of w QUERIES_START "m @ QUERIES_END @ t"] m by simp
  moreover have "find_sub (drop (length w) (w @ b @ t)) QUERIES_END = Some (length b - length QUERIES_END)"
    using find_in_closed [OF assms(1)] by simp
  moreover have "length QUERIES_END \<le> length b" using m by simp
  ultimately show ?thesis
    using push_rest_LFs [OF assms(2)] by (simp add: split_blocks.simps [of "w @ b @ t"])
qed

lemma split_all_closed:
  assumes "list_all (\<lambda>(w, b). set w \<subseteq> {LF} \<and> closed_block b) xs"
    and "\<not> contains_sub t QUERIES_START"
  shows "split_blocks (concat (map (\<lambda>(w, b). w @ b) xs) @ t) sections []
         = (sections @ map snd xs, trim t)"
  using assms(1)
proof (induction xs arbitrary: sections)
  case Nil
  then show ?case using assms(2) find_sub_None [of t QUERIES_START]
    by (simp add: split_blocks.simps [of t] push_rest_def Let_def)
next
  case (Cons x xs)
  then show ?case
    using split_closed [of "snd x" "fst x" "concat (map (\<lambda>(w, b). w @ b) xs) @ t" sections "[]"]
    by (cases x) simp
qed

text \<open>What the queries are made of holds no end of a block, so neither does the block before its end.\<close>

abbreviation no_end :: "string \<Rightarrow> bool" where
  "no_end s \<equiv> \<not> contains_sub s QUERIES_END"

lemma glue_head:
  assumes "no_end a" and "no_end (c # b)" and "c \<in> {CHR ''<'', CHR ''.'', LF, CHR 0x22}"
  shows "no_end (a @ c # b)"
proof (rule contains_glue [OF _ _ assms(1,2)])
  show "seam QUERIES_END a (c # b)" using assms(3) by (auto simp: seam_def QUERIES_END_def LF_def)
qed (simp add: QUERIES_END_def)

lemma glue_last:
  assumes "no_end (a @ [c])" and "no_end b" and "c \<in> {CHR ''>'', CHR ''.'', LF, CHR 0x22}"
  shows "no_end ((a @ [c]) @ b)"
proof (rule contains_glue [OF _ _ assms(1,2)])
  show "seam QUERIES_END (a @ [c]) b" using assms(3) by (auto simp: seam_def QUERIES_END_def LF_def)
qed (simp add: QUERIES_END_def)

lemma short_no_end: "length s < 20 \<Longrightarrow> no_end s"
  unfolding contains_sub_iff by (auto simp: QUERIES_END_def)

lemma truncated_no_end:
  assumes "no_end t"
  shows "no_end (case truncate_query_middle t k of Some x \<Rightarrow> x | None \<Rightarrow> t)"
proof -
  have ends: "no_end (take_chars n t)" "no_end (skip_chars n t)" for n
    using assms contains_sub_take contains_sub_drop unfolding take_chars_def skip_chars_def by blast+
  have "no_end ((''...[truncated]..'' @ ''.'') @ skip_chars n t)" for n
    by (rule glue_last [OF short_no_end ends(2)]) (simp_all)
  then have tail: "no_end (CHR ''.'' # ''..[truncated]...'' @ skip_chars n t)" for n by simp
  have "no_end (take_chars m t @ CHR ''.'' # ''..[truncated]...'' @ skip_chars n t)" for m n
    by (rule glue_head [OF ends(1) tail]) simp
  then show ?thesis using assms by (simp add: truncate_query_middle_def Let_def)
qed

lemma file_line_no_end:
  assumes "no_end (cf_id r)" and "no_end (cf_name r)"
  shows "no_end (file_line r)"
proof -
  have "no_end (cf_name r @ CHR 0x22 # '' />'' @ [LF])"
    by (intro glue_head assms(2) short_no_end) simp_all
  then have "no_end (CHR 0x22 # '' name='' @ [CHR 0x22] @ cf_name r @ CHR 0x22 # '' />'' @ [LF])"
    by (simp add: starts_with_def QUERIES_END_def)
  then have "no_end (cf_id r @ CHR 0x22 # '' name='' @ [CHR 0x22] @ cf_name r @ CHR 0x22 # '' />'' @ [LF])"
    by (intro glue_head assms(1)) simp_all
  then show ?thesis by (simp add: file_line_def starts_with_def QUERIES_END_def)
qed

lemma concat_no_end:
  assumes "\<forall>q \<in> set qs. no_end q \<and> (\<exists>r. q = CHR ''<'' # r)" and "no_end (CHR ''<'' # e)"
  shows "no_end (concat qs @ CHR ''<'' # e) \<and> (\<exists>r. concat qs @ CHR ''<'' # e = CHR ''<'' # r)"
  using assms(1)
proof (induction qs)
  case (Cons q qs)
  then obtain r where r: "no_end (CHR ''<'' # r)" "concat qs @ CHR ''<'' # e = CHR ''<'' # r" by auto
  have "no_end (q @ CHR ''<'' # r)" using Cons.prems r by (intro glue_head) auto
  then show ?case using Cons.prems r by auto
qed (use assms(2) in simp)

definition plain_user_turn :: "('t, 'z) compaction_item_scheme \<Rightarrow> 't \<Rightarrow> bool" where
  "plain_user_turn ci turn \<longleftrightarrow>
     (co_role ci turn = CompactUser \<longrightarrow>
        no_end (case co_text ci turn of Some x \<Rightarrow> x | None \<Rightarrow> [])
        \<and> (\<forall>r \<in> set (co_attachment_refs ci turn). no_end (cf_id r) \<and> no_end (cf_name r)))"

lemma query_block_no_end:
  assumes "no_end t" and "\<forall>r \<in> set fs. no_end (cf_id r) \<and> no_end (cf_name r)"
  shows "no_end (query_block k t fs) \<and> (\<exists>r. query_block k t fs = CHR ''<'' # r)"
proof -
  define body where "body = (case truncate_query_middle t k of Some x \<Rightarrow> x | None \<Rightarrow> t)"
  define close where "close = ''/grok_query>'' @ [LF]"
  have close: "no_end (CHR ''<'' # close)" unfolding close_def by (intro short_no_end) simp
  have body: "no_end body" unfolding body_def by (rule truncated_no_end [OF assms(1)])
  have "no_end (concat (map file_line fs) @ CHR ''<'' # close)"
    using concat_no_end [of "map file_line fs", OF _ close] assms(2) file_line_no_end
    by (auto simp: file_line_def)
  then have files: "no_end (LF # concat (map file_line fs) @ CHR ''<'' # close)"
    by (simp add: starts_with_def QUERIES_END_def LF_def)
  have "no_end (body @ (if fs \<noteq> [] then LF # concat (map file_line fs) else []) @ CHR ''<'' # close)"
    using glue_head [OF body files] glue_head [OF body close] by simp
  then have "no_end (''<grok_query>'' @ body
      @ (if fs \<noteq> [] then LF # concat (map file_line fs) else []) @ CHR ''<'' # close)"
    by (simp add: starts_with_def QUERIES_END_def)
  moreover have "query_block k t fs = ''<grok_query>'' @ body
      @ (if fs \<noteq> [] then LF # concat (map file_line fs) else []) @ CHR ''<'' # close"
    by (simp add: query_block_def body_def close_def)
  ultimately show ?thesis by simp
qed

lemma extracted_closed:
  assumes "\<forall>turn \<in> set turns. plain_user_turn ci turn"
    and "extract_user_queries_from_turns ci turns k = Some b"
  shows "closed_block b"
proof -
  define qs where "qs = List.map_filter (turn_query ci (unat k)) turns"
  have b: "b = QUERIES_START @ (LF # concat qs) @ QUERIES_END"
    using assms(2) by (simp add: extract_user_queries_from_turns_def qs_def Let_def split: if_splits)
  have qs: "\<forall>q \<in> set qs. no_end q \<and> (\<exists>r. q = CHR ''<'' # r)"
  proof
    fix q assume "q \<in> set qs"
    then obtain turn where "turn \<in> set turns" "turn_query ci (unat k) turn = Some q"
      by (auto simp: qs_def List.map_filter_def)
    then show "no_end q \<and> (\<exists>r. q = CHR ''<'' # r)"
      using assms(1) query_block_no_end
      by (auto simp: turn_query_def plain_user_turn_def Let_def split: if_splits)
  qed
  have "no_end (CHR ''<'' # ''/grok_user_queries'')" by (intro short_no_end) simp
  from concat_no_end [OF qs this]
  have "no_end (concat qs @ butlast QUERIES_END)" by (simp add: QUERIES_END_def)
  then have "no_end (QUERIES_START @ (LF # concat qs) @ butlast QUERIES_END)"
    by (simp add: QUERIES_START_def starts_with_def QUERIES_END_def LF_def)
  then show ?thesis using b by (auto simp: closed_block_def)
qed

definition joined_blocks :: "string list \<Rightarrow> string option" where
  "joined_blocks bs = (if bs = [] then None else Some (join_with [LF] bs))"

lemma split_preamble:
  assumes "list_all (\<lambda>(w, b). set w \<subseteq> {LF} \<and> closed_block b) xs" and "xs \<noteq> []"
    and "\<not> contains_sub summary QUERIES_START"
  shows "split_prior_compaction_text (concat (map (\<lambda>(w, b). w @ b) xs) @ [LF, LF] @ summary)
         = (joined_blocks (map snd xs), trim summary)"
proof -
  have "\<not> contains_sub ([LF, LF] @ summary) QUERIES_START"
    using assms(3) by (simp add: starts_with_def QUERIES_START_def LF_def)
  from split_all_closed [OF assms(1) this, of "[]"] show ?thesis
    using assms(2) trim_LFs [of "[LF, LF]" summary]
    by (simp add: split_prior_compaction_text_def joined_blocks_def)
qed

lemma join_pieces: "join_with [LF] (b # bs) = b @ concat (map (\<lambda>b. LF # b) bs)"
  by (induction bs arbitrary: b) auto

text \<open>
  The queries of the user survive any number of compactions: the blocks of earlier ones and of
  the current one, put in front of a summary, are split off again whole and in order, and the
  summary is left. Texts must not hold the closing tag of a block, which nothing escapes.
\<close>

theorem user_queries_survive_compaction:
  assumes "\<forall>turns \<in> set (earlier @ [current]). \<forall>turn \<in> set turns. plain_user_turn ci turn"
    and "\<not> contains_sub summary QUERIES_START"
    and "earlier_blocks = List.map_filter (\<lambda>turns. extract_user_queries_from_turns ci turns k) earlier"
    and "block = extract_user_queries_from_turns ci current k"
    and "blocks = earlier_blocks @ (case block of Some b \<Rightarrow> [b] | None \<Rightarrow> [])"
  shows "split_prior_compaction_text
           (assemble_user_queries_preamble (joined_blocks earlier_blocks) block @ summary)
         = (if blocks = [] then (None, summary) else (joined_blocks blocks, trim summary))"
proof (cases "blocks = []")
  case True
  then show ?thesis using assms(2,5) find_sub_None [of summary QUERIES_START]
    by (simp add: assemble_user_queries_preamble_def joined_blocks_def split_prior_compaction_text_def
        split_blocks.simps [of summary] split: option.splits)
next
  case False
  have closed: "list_all closed_block blocks"
    using assms extracted_closed
    by (fastforce simp: list_all_iff List.map_filter_def split: option.splits)
  define tail where "tail = (case block of Some c \<Rightarrow> [c] | None \<Rightarrow> [])"
  define xs where "xs = (case earlier_blocks of [] \<Rightarrow> map (Pair []) tail
    | b # bs \<Rightarrow> ([], b) # map (Pair [LF]) bs @ map (Pair [LF, LF]) tail)"
  have snd: "map snd xs = blocks" using assms(5)
    by (simp add: xs_def tail_def comp_def split: list.splits option.splits)
  have "list_all (\<lambda>(w, b). set w \<subseteq> {LF} \<and> closed_block b) xs"
    using closed assms(5) by (auto simp: xs_def tail_def list_all_iff split: list.splits option.splits)
  moreover have "xs \<noteq> []" using snd False by auto
  ultimately have "split_prior_compaction_text (concat (map (\<lambda>(w, b). w @ b) xs) @ [LF, LF] @ summary)
      = (joined_blocks blocks, trim summary)"
    using split_preamble [of xs summary] assms(2) snd by simp
  moreover have "assemble_user_queries_preamble (joined_blocks earlier_blocks) block @ summary
      = concat (map (\<lambda>(w, b). w @ b) xs) @ [LF, LF] @ summary"
    using False assms(5)
    by (simp add: assemble_user_queries_preamble_def joined_blocks_def xs_def tail_def join_pieces comp_def
        split: list.splits option.splits)
  ultimately show ?thesis using False by simp
qed

text \<open>A user's turn is its text and has no attachment.\<close>

definition text_turns :: "string compaction_item" where
  "text_turns = \<lparr>co_role = (\<lambda>_. CompactUser), co_text = Some, co_has_tool_requests = (\<lambda>_. False),
     co_is_compaction_summary = (\<lambda>_. False), co_attachment_refs = (\<lambda>_. [])\<rparr>"

theorem user_queries_survive_compaction_witness:
  "split_prior_compaction_text
     (assemble_user_queries_preamble
        (extract_user_queries_from_turns text_turns [''fix'', ''it''] 8)
        (extract_user_queries_from_turns text_turns [''test''] 8) @ ''Done'')
   = (Some (''<grok_user_queries>'' @ [LF] @ ''<grok_query>fix</grok_query>'' @ [LF]
        @ ''<grok_query>it</grok_query>'' @ [LF] @ ''</grok_user_queries>'' @ [LF]
        @ ''<grok_user_queries>'' @ [LF] @ ''<grok_query>test</grok_query>'' @ [LF]
        @ ''</grok_user_queries>''), ''Done'')"
proof -
  have e: "\<forall>turns \<in> set ([[''fix'', ''it'']] @ [[''test'']]).
      \<forall>turn \<in> set turns. plain_user_turn text_turns turn" by code_simp
  have s: "\<not> contains_sub ''Done'' QUERIES_START" by code_simp
  have b1: "extract_user_queries_from_turns text_turns [''fix'', ''it''] 8
      = Some (''<grok_user_queries>'' @ [LF] @ ''<grok_query>fix</grok_query>'' @ [LF]
          @ ''<grok_query>it</grok_query>'' @ [LF] @ ''</grok_user_queries>'')" by code_simp
  have b2: "extract_user_queries_from_turns text_turns [''test''] 8
      = Some (''<grok_user_queries>'' @ [LF] @ ''<grok_query>test</grok_query>'' @ [LF]
          @ ''</grok_user_queries>'')" by code_simp
  have t: "trim ''Done'' = ''Done''" by code_simp
  show ?thesis
    using user_queries_survive_compaction [OF e s refl refl refl, of 8]
    unfolding b1 b2 List.map_filter_simps option.case joined_blocks_def list.distinct(1) list.simps(3)
      append.simps t if_False if_True join_with.simps
    by (simp add: b1 b2 t)
qed

text \<open>A query that quotes the closing tag ends the block early: its rest is taken for the summary.\<close>

lemma quoted_end_breaks_block:
  "split_prior_compaction_text
     (assemble_user_queries_preamble None
        (extract_user_queries_from_turns text_turns [''say </grok_user_queries> twice''] 99) @ ''Done'')
   = (Some (''<grok_user_queries>'' @ [LF] @ ''<grok_query>say </grok_user_queries>''),
      ''twice</grok_query>'' @ [LF] @ ''</grok_user_queries>'' @ [LF, LF] @ ''Done'')"
  by code_simp

end
