(* ===== verification/GB_Usage.thy ===== *)
theory GB_Usage
  imports GB_Prelude
begin

section \<open>Billing ledgers (xai-chat-state/src/usage.rs)\<close>

text \<open>
  What a prompt and a session have used: sums of 64-bit counters that saturate, in total and per
  model, and the cost in ticks where the provider reported one. The insertion-ordered map of the
  models is an association list. Proved: in every ledger the totals are the sums of the models.
\<close>

subsection \<open>Saturating addition of \<open>i64\<close>\<close>

type_synonym i64 = "64 word"

definition sat_add_i64 :: "i64 \<Rightarrow> i64 \<Rightarrow> i64" where
  "sat_add_i64 a b = word_of_int (max (- (2 ^ 63)) (min (2 ^ 63 - 1) (sint a + sint b)))"

subsection \<open>Totals\<close>

record token_usage =
  tu_prompt_tokens :: "32 word"
  tu_completion_tokens :: "32 word"
  tu_total_tokens :: "32 word"
  tu_reasoning_tokens :: "32 word"
  tu_cached_prompt_tokens :: "32 word"
  tu_cache_creation_prompt_tokens :: "32 word"

record usage_totals =
  ut_input_tokens :: u64
  ut_output_tokens :: u64
  ut_cached_read_tokens :: u64
  ut_cache_creation_tokens :: u64
  ut_reasoning_tokens :: u64
  ut_model_calls :: u64
  ut_api_duration_ms :: u64
  ut_cost_usd_ticks :: "i64 option"
  ut_cost_missing_calls :: u64

definition no_usage :: usage_totals where
  "no_usage = \<lparr>ut_input_tokens = 0, ut_output_tokens = 0, ut_cached_read_tokens = 0,
     ut_cache_creation_tokens = 0, ut_reasoning_tokens = 0, ut_model_calls = 0,
     ut_api_duration_ms = 0, ut_cost_usd_ticks = None, ut_cost_missing_calls = 0\<rparr>"

definition reported_cost_ticks :: "i64 option \<Rightarrow> i64 option" where
  "reported_cost_ticks raw = (case raw of Some t \<Rightarrow> if 0 < sint t then Some t else None | None \<Rightarrow> None)"

definition usage_of_call :: "token_usage \<Rightarrow> u64 option \<Rightarrow> i64 option \<Rightarrow> usage_totals" where
  "usage_of_call usage api_duration_ms cost =
     (let ticks = reported_cost_ticks cost
      in \<lparr>ut_input_tokens = ucast (tu_prompt_tokens usage),
          ut_output_tokens = ucast (tu_completion_tokens usage),
          ut_cached_read_tokens = ucast (tu_cached_prompt_tokens usage),
          ut_cache_creation_tokens = ucast (tu_cache_creation_prompt_tokens usage),
          ut_reasoning_tokens = ucast (tu_reasoning_tokens usage),
          ut_model_calls = 1,
          ut_api_duration_ms = (case api_duration_ms of Some d \<Rightarrow> d | None \<Rightarrow> 0),
          ut_cost_usd_ticks = ticks,
          ut_cost_missing_calls = (if ticks = None then 1 else 0)\<rparr>)"

definition usage_total_tokens :: "usage_totals \<Rightarrow> u64" where
  "usage_total_tokens u = sat_add (ut_input_tokens u) (ut_output_tokens u)"

definition cost_is_partial :: "usage_totals \<Rightarrow> bool" where
  "cost_is_partial u \<longleftrightarrow> ut_cost_usd_ticks u \<noteq> None \<and> ut_cost_missing_calls u > 0"

definition merge_cost_ticks :: "i64 option \<Rightarrow> i64 option \<Rightarrow> i64 option" where
  "merge_cost_ticks a b =
     (case (a, b) of
        (None, None) \<Rightarrow> None
      | _ \<Rightarrow> Some (sat_add_i64 (case a of Some x \<Rightarrow> x | None \<Rightarrow> 0) (case b of Some y \<Rightarrow> y | None \<Rightarrow> 0)))"

definition fold_totals :: "usage_totals \<Rightarrow> usage_totals \<Rightarrow> usage_totals" where
  "fold_totals u v =
     \<lparr>ut_input_tokens = sat_add (ut_input_tokens u) (ut_input_tokens v),
      ut_output_tokens = sat_add (ut_output_tokens u) (ut_output_tokens v),
      ut_cached_read_tokens = sat_add (ut_cached_read_tokens u) (ut_cached_read_tokens v),
      ut_cache_creation_tokens = sat_add (ut_cache_creation_tokens u) (ut_cache_creation_tokens v),
      ut_reasoning_tokens = sat_add (ut_reasoning_tokens u) (ut_reasoning_tokens v),
      ut_model_calls = sat_add (ut_model_calls u) (ut_model_calls v),
      ut_api_duration_ms = sat_add (ut_api_duration_ms u) (ut_api_duration_ms v),
      ut_cost_usd_ticks = merge_cost_ticks (ut_cost_usd_ticks u) (ut_cost_usd_ticks v),
      ut_cost_missing_calls = sat_add (ut_cost_missing_calls u) (ut_cost_missing_calls v)\<rparr>"

subsection \<open>Ledgers\<close>

record usage_ledger =
  ul_totals :: usage_totals
  ul_by_model :: "(string \<times> usage_totals) list"
  ul_main_loop_model_calls :: u64
  ul_incomplete :: bool

definition empty_ledger :: usage_ledger where
  "empty_ledger = \<lparr>ul_totals = no_usage, ul_by_model = [], ul_main_loop_model_calls = 0,
     ul_incomplete = False\<rparr>"

text \<open>\<open>entry(key).or_default()\<close> of an insertion-ordered map, then a change of the value.\<close>

fun entry_or_default :: "'k \<Rightarrow> 'v \<Rightarrow> ('v \<Rightarrow> 'v) \<Rightarrow> ('k \<times> 'v) list \<Rightarrow> ('k \<times> 'v) list" where
  "entry_or_default k d f [] = [(k, f d)]"
| "entry_or_default k d f ((k', v) # m) =
     (if k' = k then (k', f v) # m else (k', v) # entry_or_default k d f m)"

definition fold_entry :: "string \<Rightarrow> usage_totals \<Rightarrow> usage_ledger \<Rightarrow> usage_ledger" where
  "fold_entry model_id u l =
     l\<lparr>ul_totals := fold_totals (ul_totals l) u,
       ul_by_model := entry_or_default model_id no_usage (\<lambda>v. fold_totals v u) (ul_by_model l)\<rparr>"

definition record_main_loop_call ::
    "string \<Rightarrow> token_usage \<Rightarrow> u64 option \<Rightarrow> i64 option \<Rightarrow> usage_ledger \<Rightarrow> usage_ledger" where
  "record_main_loop_call model_id usage api_duration_ms cost l =
     fold_entry model_id (usage_of_call usage api_duration_ms cost)
       (l\<lparr>ul_main_loop_model_calls := sat_add (ul_main_loop_model_calls l) 1\<rparr>)"

definition record_subagent :: "(string \<times> usage_totals) list \<Rightarrow> bool \<Rightarrow> usage_ledger \<Rightarrow> usage_ledger" where
  "record_subagent by_model incomplete l =
     (let l1 = foldl (\<lambda>l (model_id, u). fold_entry model_id u l) l by_model
      in if incomplete then l1\<lparr>ul_incomplete := True\<rparr> else l1)"

definition ledger_mark_incomplete :: "usage_ledger \<Rightarrow> usage_ledger" where
  "ledger_mark_incomplete l = l\<lparr>ul_incomplete := True\<rparr>"

datatype ledger_op =
  MainLoopCall string token_usage "u64 option" "i64 option"
| SubagentUsage "(string \<times> usage_totals) list" bool
| MarkIncomplete

fun ledger_step :: "usage_ledger \<Rightarrow> ledger_op \<Rightarrow> usage_ledger" where
  "ledger_step l (MainLoopCall m u d c) = record_main_loop_call m u d c l"
| "ledger_step l (SubagentUsage by_model i) = record_subagent by_model i l"
| "ledger_step l MarkIncomplete = ledger_mark_incomplete l"

section \<open>The totals are the sums of the models\<close>

definition counters :: "(usage_totals \<Rightarrow> u64) list" where
  "counters = [ut_input_tokens, ut_output_tokens, ut_cached_read_tokens, ut_cache_creation_tokens,
     ut_reasoning_tokens, ut_model_calls, ut_api_duration_ms, ut_cost_missing_calls]"

definition model_sum :: "(usage_totals \<Rightarrow> u64) \<Rightarrow> usage_ledger \<Rightarrow> nat" where
  "model_sum f l = sum_list (map (\<lambda>(_, u). unat (f u)) (ul_by_model l))"

definition ledger_sums :: "usage_ledger \<Rightarrow> bool" where
  "ledger_sums l \<longleftrightarrow>
     distinct (map fst (ul_by_model l))
     \<and> (\<forall>f \<in> set counters. unat (f (ul_totals l)) = min (2 ^ 64 - 1) (model_sum f l))
     \<and> ul_main_loop_model_calls l \<le> ut_model_calls (ul_totals l)
     \<and> (ut_cost_usd_ticks (ul_totals l) = None \<longleftrightarrow> list_all (\<lambda>(_, u). ut_cost_usd_ticks u = None) (ul_by_model l))"

lemma counter_fold:
  "f \<in> set counters \<Longrightarrow> f (fold_totals u v) = sat_add (f u) (f v)"
  "f \<in> set counters \<Longrightarrow> f no_usage = 0"
  by (auto simp: counters_def fold_totals_def no_usage_def)

lemma entry_keys:
  "map fst (entry_or_default k d f m) = (if k \<in> set (map fst m) then map fst m else map fst m @ [k])"
  by (induction m) force+

lemma entry_sum:
  assumes "unat ((g :: usage_totals \<Rightarrow> u64) d) = 0"
  shows "\<exists>v. sum_list (map (\<lambda>(_, u). unat (g u)) (entry_or_default k d f m)) + unat (g v)
           = sum_list (map (\<lambda>(_, u). unat (g u)) m) + unat (g (f v))
         \<and> unat (g v) \<le> sum_list (map (\<lambda>(_, u). unat (g u)) m)"
proof (induction m)
  case (Cons e m)
  then obtain v where v: "sum_list (map (\<lambda>(_, u). unat (g u)) (entry_or_default k d f m)) + unat (g v)
      = sum_list (map (\<lambda>(_, u). unat (g u)) m) + unat (g (f v))"
    "unat (g v) \<le> sum_list (map (\<lambda>(_, u). unat (g u)) m)" by blast
  obtain k' w where e: "e = (k', w)" by (cases e)
  show ?case
  proof (cases "k' = k")
    case True
    then show ?thesis using e by (intro exI [of _ w]) simp
  next
    case False
    then show ?thesis using e v by (intro exI [of _ v]) simp
  qed
qed (use assms in \<open>intro exI [of _ d], simp\<close>)

lemma entry_cost:
  assumes "\<forall>v. ut_cost_usd_ticks (f v) = None \<longleftrightarrow> ut_cost_usd_ticks v = None \<and> P" and "ut_cost_usd_ticks d = None"
  shows "list_all (\<lambda>(_, u). ut_cost_usd_ticks u = None) (entry_or_default k d f m)
         \<longleftrightarrow> list_all (\<lambda>(_, u). ut_cost_usd_ticks u = None) m \<and> P"
proof (induction m)
  case (Cons e m)
  then show ?case using assms(1) by (cases e) auto
qed (use assms in simp)

lemma sums_fold_entry:
  assumes "ledger_sums l" and "unat w \<le> unat (ul_main_loop_model_calls l) + unat (ut_model_calls u)"
  shows "ledger_sums (fold_entry m u (l\<lparr>ul_main_loop_model_calls := w\<rparr>))"
proof -
  let ?l = "fold_entry m u (l\<lparr>ul_main_loop_model_calls := w\<rparr>)"
  let ?f = "\<lambda>v. fold_totals v u"
  have sums: "unat (f (ul_totals ?l)) = min (2 ^ 64 - 1) (model_sum f ?l)" if f: "f \<in> set counters" for f
  proof -
    have "unat (f no_usage) = 0" using counter_fold(2) [OF f] by simp
    from entry_sum [where g = f and d = no_usage and k = m and f = ?f and m = "ul_by_model l", OF this]
    obtain v where v: "model_sum f ?l + unat (f v) = model_sum f l + unat (f (fold_totals v u))"
      "unat (f v) \<le> model_sum f l" by (auto simp: model_sum_def fold_entry_def)
    have "unat (f (ul_totals l)) = min (2 ^ 64 - 1) (model_sum f l)"
      using assms(1) f by (simp add: ledger_sums_def)
    moreover have "unat (f v) \<le> 2 ^ 64 - 1"
      using unsigned_less [of "f v", where ?'a = nat] by simp
    ultimately show ?thesis
      using v by (simp add: fold_entry_def counter_fold(1) [OF f] sat_simps)
  qed
  have "distinct (map fst (ul_by_model ?l))"
    using assms(1) by (simp add: ledger_sums_def fold_entry_def entry_keys)
  moreover have "ul_main_loop_model_calls ?l \<le> ut_model_calls (ul_totals ?l)"
  proof -
    have "unat w < 2 ^ 64" using unsigned_less [of w, where ?'a = nat] by simp
    moreover have "unat (ul_main_loop_model_calls l) \<le> unat (ut_model_calls (ul_totals l))"
      using assms(1) by (simp add: ledger_sums_def word_le_nat_alt)
    moreover have "ut_model_calls \<in> set counters" by (simp add: counters_def)
    ultimately show ?thesis
      using assms(2) by (simp add: fold_entry_def counter_fold(1) sat_simps word_le_nat_alt)
  qed
  moreover have "ut_cost_usd_ticks (ul_totals ?l) = None
      \<longleftrightarrow> list_all (\<lambda>(_, u). ut_cost_usd_ticks u = None) (ul_by_model ?l)"
    using assms(1) entry_cost [of ?f "ut_cost_usd_ticks u = None" no_usage m "ul_by_model l"]
    by (auto simp: ledger_sums_def fold_entry_def fold_totals_def merge_cost_ticks_def no_usage_def
        split: option.splits)
  ultimately show ?thesis using sums by (simp add: ledger_sums_def)
qed

lemma sums_fold_subagent: "ledger_sums l \<Longrightarrow> ledger_sums (fold_entry m u l)"
  using sums_fold_entry [of l "ul_main_loop_model_calls l" u m] by simp

lemma sums_main_loop: "ledger_sums l \<Longrightarrow> ledger_sums (record_main_loop_call m u d c l)"
  unfolding record_main_loop_call_def
  by (rule sums_fold_entry) (simp_all add: usage_of_call_def Let_def unat_sat_add)

lemma sums_mark: "ledger_sums l \<Longrightarrow> ledger_sums (l\<lparr>ul_incomplete := True\<rparr>)"
  by (simp add: ledger_sums_def model_sum_def)

lemma sums_subagent: "ledger_sums l \<Longrightarrow> ledger_sums (record_subagent by_model i l)"
proof -
  have "ledger_sums (foldl (\<lambda>l (m, u). fold_entry m u l) l by_model)" if "ledger_sums l" for l
    using that by (induction by_model arbitrary: l) (auto simp: sums_fold_subagent)
  then show "ledger_sums l \<Longrightarrow> ledger_sums (record_subagent by_model i l)"
    by (simp add: record_subagent_def Let_def sums_mark)
qed

lemma sums_empty: "ledger_sums empty_ledger"
  by (simp add: ledger_sums_def empty_ledger_def model_sum_def counters_def no_usage_def)

interpretation billing: machine ledger_step ledger_sums
proof unfold_locales
  show "ledger_sums (ledger_step l a)" if "ledger_sums l" for l a
    using that by (cases a) (simp_all add: sums_main_loop sums_subagent sums_mark ledger_mark_incomplete_def)
qed

text \<open>
  C34. Whatever is recorded in a ledger, each of its totals is the saturating sum of that counter
  over the models, no model has two entries, the calls of the main loop are among the calls, and a
  cost is shown exactly if some model has one.
\<close>

theorem ledger_totals_are_model_sums:
  "ledger_sums (foldl ledger_step empty_ledger ops)"
  by (rule billing.run_inv [OF sums_empty])

end
