(* ===== verification/GB_ImageBudget.thy ===== *)
theory GB_ImageBudget
  imports GB_Conversation
begin

section \<open>The byte budget of inline images (xai-chat-state/src/image_budget.rs)\<close>

text \<open>
  A request whose serialized body reaches the trigger gives up its oldest images until it is below
  the reclaim target. Sizes of serialized values come from \<open>serde_json\<close>, which is the parameter
  \<open>js\<close>. The evictions address items and parts by index and would panic on an index that does not
  hold what was found there: the model answers \<open>None\<close> then. Proved: this never happens, the images
  that go are the oldest, and eviction stops as soon as the accounted size is within the target.
\<close>

record json_sizes =
  js_str :: "string \<Rightarrow> nat"
  js_part :: "content_part \<Rightarrow> nat"
  js_items :: "conversation_item list \<Rightarrow> nat"

definition IMAGE_COMPACT_PLACEHOLDER :: string where
  "IMAGE_COMPACT_PLACEHOLDER =
     ''[An earlier image was removed to keep the request within its size limit and is no longer visible. '' @
     ''Do not describe or reason about its contents from memory; ask the user to re-share it if you '' @
     ''need to see it again.]''"

definition TOOL_IMAGE_COMPACT_NOTE :: string where
  "TOOL_IMAGE_COMPACT_NOTE =
     ''[One or more images from this tool result were removed to keep the request within its size limit '' @
     ''and are no longer visible. Do not describe or reason about their contents from memory.]''"

definition MAX_REQUEST_BYTES :: nat where "MAX_REQUEST_BYTES = 50 * 1024 * 1024"

definition IMAGE_COMPACT_TRIGGER_BYTES :: nat where
  "IMAGE_COMPACT_TRIGGER_BYTES = MAX_REQUEST_BYTES - 3 * 1024 * 1024"

definition IMAGE_COMPACT_RECLAIM_TARGET_BYTES :: nat where
  "IMAGE_COMPACT_RECLAIM_TARGET_BYTES = MAX_REQUEST_BYTES div 2"

subsection \<open>Counting and measuring\<close>

fun item_images :: "conversation_item \<Rightarrow> nat" where
  "item_images (UserItem u) = length (filter is_image (ui_content u))"
| "item_images (ToolResultItem t) = length (filter is_image (tr_images t))"
| "item_images _ = 0"

definition inline_image_count :: "conversation_item list \<Rightarrow> nat" where
  "inline_image_count conversation = sum_list (map item_images conversation)"

text \<open>The subtractions of the code saturate, as those of natural numbers do.\<close>

definition encoded_url_bytes :: "json_sizes \<Rightarrow> string \<Rightarrow> nat" where
  "encoded_url_bytes js url =
     (case find_sub url '','' of
        None \<Rightarrow> js_str js url - 2
      | Some i \<Rightarrow>
          (let header = take i url; base64_tail = drop (i + 1) url
           in if starts_with header ''data:'' \<and> ends_with header '';base64''
              then js_str js header - 2 + 1 + length base64_tail
              else js_str js url - 2))"

definition IMAGE_PART_FRAME_BYTES :: nat where
  "IMAGE_PART_FRAME_BYTES = 25"

definition image_url_bytes :: "json_sizes \<Rightarrow> string \<Rightarrow> nat" where
  "image_url_bytes js url = IMAGE_PART_FRAME_BYTES + encoded_url_bytes js url"

fun blank_part :: "content_part \<Rightarrow> content_part" where
  "blank_part (ImagePart _) = ImagePart []"
| "blank_part p = p"

fun url_of_part :: "content_part \<Rightarrow> string option" where
  "url_of_part (ImagePart url) = Some url"
| "url_of_part (TextPart _) = None"

definition part_urls :: "content_part list \<Rightarrow> string list" where
  "part_urls parts = List.map_filter url_of_part parts"

definition blank_image_urls :: "json_sizes \<Rightarrow> content_part list \<Rightarrow> content_part list \<times> nat" where
  "blank_image_urls js parts =
     (map blank_part parts, sum_list (map (encoded_url_bytes js) (part_urls parts)))"

fun blank_item :: "json_sizes \<Rightarrow> conversation_item \<Rightarrow> conversation_item \<times> nat" where
  "blank_item js (UserItem u) =
     (let (parts, n) = blank_image_urls js (ui_content u) in (UserItem (u\<lparr>ui_content := parts\<rparr>), n))"
| "blank_item js (ToolResultItem t) =
     (let (parts, n) = blank_image_urls js (tr_images t) in (ToolResultItem (t\<lparr>tr_images := parts\<rparr>), n))"
| "blank_item js i = (i, 0)"

definition conversation_body_bytes :: "json_sizes \<Rightarrow> conversation_item list \<Rightarrow> nat" where
  "conversation_body_bytes js conversation =
     js_items js (map (fst \<circ> blank_item js) conversation)
     + sum_list (map (snd \<circ> blank_item js) conversation)"

subsection \<open>Evicting\<close>

datatype image_location = UserImage nat nat | ToolImage nat

definition user_images :: "json_sizes \<Rightarrow> nat \<Rightarrow> content_part list \<Rightarrow> (image_location \<times> nat) list" where
  "user_images js item parts =
     List.map_filter (\<lambda>(part, p). map_option (\<lambda>url. (UserImage item part, image_url_bytes js url)) (url_of_part p))
       (enumerate 0 parts)"

fun found_images :: "json_sizes \<Rightarrow> nat \<Rightarrow> conversation_item \<Rightarrow> (image_location \<times> nat) list" where
  "found_images js item (UserItem u) = user_images js item (ui_content u)"
| "found_images js item (ToolResultItem t) =
     map (\<lambda>url. (ToolImage item, image_url_bytes js url)) (part_urls (tr_images t))"
| "found_images js item _ = []"

definition find_images :: "json_sizes \<Rightarrow> conversation_item list \<Rightarrow> (image_location \<times> nat) list" where
  "find_images js conversation =
     concat (map (\<lambda>(item, i). found_images js item i) (enumerate 0 conversation))"

definition tool_note_suffix :: string where
  "tool_note_suffix = [LF, LF] @ TOOL_IMAGE_COMPACT_NOTE"

definition remove_nth :: "nat \<Rightarrow> 'a list \<Rightarrow> 'a list" where
  "remove_nth n xs = take n xs @ drop (Suc n) xs"

text \<open>One image goes; the new conversation and the new running size.\<close>

definition evict_image ::
    "json_sizes \<Rightarrow> image_location \<Rightarrow> nat \<Rightarrow> conversation_item list \<times> nat \<Rightarrow> (conversation_item list \<times> nat) option" where
  "evict_image js location image_bytes s =
     (let (conversation, running) = s;
          placeholder = TextPart IMAGE_COMPACT_PLACEHOLDER
      in case location of
           UserImage item part \<Rightarrow>
             (case nth_opt conversation item of
                Some (UserItem u) \<Rightarrow>
                  if part < length (ui_content u)
                  then Some (conversation[item := UserItem (u\<lparr>ui_content := (ui_content u)[part := placeholder]\<rparr>)],
                             running - (image_bytes - js_part js placeholder))
                  else None
              | _ \<Rightarrow> None)
         | ToolImage item \<Rightarrow>
             (case nth_opt conversation item of
                Some (ToolResultItem t) \<Rightarrow>
                  (case position_of is_image (tr_images t) of
                     None \<Rightarrow> None
                   | Some k \<Rightarrow>
                       (let images = remove_nth k (tr_images t);
                            running1 = running - (image_bytes + (if images \<noteq> [] then 1 else 0));
                            noted = contains_sub (tr_content t) TOOL_IMAGE_COMPACT_NOTE;
                            content = (if noted then tr_content t else tr_content t @ tool_note_suffix);
                            running2 = (if noted then running1
                                        else usize_sat_add running1 (js_str js tool_note_suffix - 2))
                        in Some (conversation[item := ToolResultItem (t\<lparr>tr_images := images, tr_content := content\<rparr>)],
                                 running2)))
              | _ \<Rightarrow> None))"

fun evict_images ::
    "json_sizes \<Rightarrow> nat \<Rightarrow> (image_location \<times> nat) list \<Rightarrow> conversation_item list \<times> nat
       \<Rightarrow> ((conversation_item list \<times> nat) \<times> nat) option" where
  "evict_images js target_bytes [] s = Some (s, 0)"
| "evict_images js target_bytes ((location, image_bytes) # images) s =
     (if snd s \<le> target_bytes then Some (s, 0)
      else case evict_image js location image_bytes s of
             None \<Rightarrow> None
           | Some s1 \<Rightarrow> map_option (\<lambda>(s2, n). (s2, Suc n)) (evict_images js target_bytes images s1))"

definition evict_images_to_budget ::
    "json_sizes \<Rightarrow> conversation_item list \<Rightarrow> nat \<Rightarrow> nat \<Rightarrow> ((conversation_item list \<times> nat) \<times> nat) option" where
  "evict_images_to_budget js conversation current_bytes target_bytes =
     evict_images js target_bytes (find_images js conversation) (conversation, current_bytes)"

subsection \<open>The budget\<close>

record image_budget_outcome =
  ib_body_bytes :: nat
  ib_body_bytes_after :: nat
  ib_inline_images :: nat
  ib_needs_image_compaction :: bool
  ib_evicted :: nat

definition apply_image_budget_with_limits ::
    "json_sizes \<Rightarrow> nat \<Rightarrow> nat \<Rightarrow> conversation_item list \<Rightarrow> (conversation_item list \<times> image_budget_outcome) option" where
  "apply_image_budget_with_limits js trigger_bytes reclaim_target_bytes items =
     (let body_bytes = conversation_body_bytes js items;
          needs = body_bytes \<ge> trigger_bytes
      in map_option
           (\<lambda>(items', evicted).
              (items', \<lparr>ib_body_bytes = body_bytes,
                 ib_body_bytes_after = (if evicted = 0 then body_bytes else conversation_body_bytes js items'),
                 ib_inline_images = inline_image_count items,
                 ib_needs_image_compaction = needs,
                 ib_evicted = evicted\<rparr>))
           (if needs \<and> body_bytes > reclaim_target_bytes
            then map_option (\<lambda>((items', _), n). (items', n))
                   (evict_images_to_budget js items body_bytes reclaim_target_bytes)
            else Some (items, 0)))"

definition apply_image_budget ::
    "json_sizes \<Rightarrow> conversation_item list \<Rightarrow> (conversation_item list \<times> image_budget_outcome) option" where
  "apply_image_budget js items =
     apply_image_budget_with_limits js IMAGE_COMPACT_TRIGGER_BYTES IMAGE_COMPACT_RECLAIM_TARGET_BYTES items"

section \<open>The oldest images go\<close>

fun item_urls :: "conversation_item \<Rightarrow> string list" where
  "item_urls (UserItem u) = part_urls (ui_content u)"
| "item_urls (ToolResultItem t) = part_urls (tr_images t)"
| "item_urls _ = []"

definition conversation_urls :: "conversation_item list \<Rightarrow> string list" where
  "conversation_urls conversation = concat (map item_urls conversation)"

lemma part_urls_simps [simp]:
  "part_urls [] = []"
  "part_urls (ImagePart url # ps) = url # part_urls ps"
  "part_urls (TextPart t # ps) = part_urls ps"
  "part_urls (ps @ qs) = part_urls ps @ part_urls qs"
  by (simp_all add: part_urls_def List.map_filter_def)

lemma part_urls_images: "length (part_urls ps) = length (filter is_image ps)"
proof (induction ps)
  case (Cons p ps)
  then show ?case by (cases p) simp_all
qed simp

lemma urls_count: "length (conversation_urls c) = inline_image_count c"
proof (induction c)
  case (Cons i c)
  then show ?case
    by (cases i) (simp_all add: conversation_urls_def inline_image_count_def part_urls_images)
qed (simp add: conversation_urls_def inline_image_count_def)

lemma first_image:
  "part_urls ps = url # urls \<Longrightarrow>
     \<exists>pre post. ps = pre @ ImagePart url # post \<and> part_urls pre = [] \<and> part_urls post = urls"
proof (induction ps)
  case (Cons p ps)
  show ?case
  proof (cases p)
    case (TextPart t)
    then obtain pre post where "ps = pre @ ImagePart url # post" "part_urls pre = []" "part_urls post = urls"
      using Cons by auto
    then show ?thesis using TextPart by (intro exI [of _ "p # pre"] exI [of _ post]) simp
  next
    case (ImagePart u)
    then show ?thesis using Cons.prems by (intro exI [of _ "[]"] exI [of _ ps]) simp
  qed
qed simp

lemma no_urls_no_images: "part_urls ps = [] \<Longrightarrow> p \<in> set ps \<Longrightarrow> \<not> is_image p"
proof (induction ps)
  case (Cons q ps)
  then show ?case by (cases q) auto
qed simp

lemma position_of_first:
  assumes "\<forall>x \<in> set pre. \<not> P x" and "P y"
  shows "position_of P (pre @ y # post) = Some (length pre)"
  unfolding position_of_def find_Some_iff
  using assms by (intro exI [of _ "length pre"]) (auto simp: nth_append simp del: upt_Suc)

definition user_images_from :: "json_sizes \<Rightarrow> nat \<Rightarrow> nat \<Rightarrow> content_part list \<Rightarrow> (image_location \<times> nat) list" where
  "user_images_from js item n parts =
     List.map_filter (\<lambda>(part, p). map_option (\<lambda>url. (UserImage item part, image_url_bytes js url)) (url_of_part p))
       (enumerate n parts)"

lemma user_images_from_simps [simp]:
  "user_images_from js k n [] = []"
  "user_images_from js k n (TextPart t # ps) = user_images_from js k (Suc n) ps"
  "user_images_from js k n (ImagePart u # ps) = (UserImage k n, image_url_bytes js u) # user_images_from js k (Suc n) ps"
  by (simp_all add: user_images_from_def List.map_filter_def)

lemma user_images_from_append:
  "part_urls pre = [] \<Longrightarrow> user_images_from js k n (pre @ ps) = user_images_from js k (n + length pre) ps"
proof (induction pre arbitrary: n)
  case (Cons p pre)
  then show ?case by (cases p) simp_all
qed simp

lemma user_images_nil: "user_images_from js k n ps = [] \<longleftrightarrow> part_urls ps = []"
proof (induction ps arbitrary: n)
  case (Cons p ps)
  then show ?case by (cases p) simp_all
qed simp

lemma found_nil: "found_images js k i = [] \<longleftrightarrow> item_urls i = []"
  using user_images_nil [of js k 0] by (cases i) (simp_all add: user_images_def user_images_from_def)

definition find_images_from :: "json_sizes \<Rightarrow> nat \<Rightarrow> conversation_item list \<Rightarrow> (image_location \<times> nat) list" where
  "find_images_from js n conversation =
     concat (map (\<lambda>(item, i). found_images js item i) (enumerate n conversation))"

lemma find_images_from_simps [simp]:
  "find_images_from js n [] = []"
  "find_images_from js n (i # c) = found_images js n i @ find_images_from js (Suc n) c"
  by (simp_all add: find_images_from_def)

lemma find_images_from_append:
  "find_images_from js n (a @ b) = find_images_from js n a @ find_images_from js (n + length a) b"
  by (induction a arbitrary: n) simp_all

lemma find_images_nil: "find_images_from js n c = [] \<longleftrightarrow> conversation_urls c = []"
  by (induction c arbitrary: n) (simp_all add: conversation_urls_def found_nil)

lemma first_found:
  "find_images_from js n c = x # xs \<Longrightarrow>
     \<exists>pre i post ys. c = pre @ i # post \<and> conversation_urls pre = []
       \<and> found_images js (n + length pre) i = x # ys
       \<and> xs = ys @ find_images_from js (Suc (n + length pre)) post"
proof (induction c arbitrary: n)
  case (Cons i c)
  show ?case
  proof (cases "found_images js n i")
    case Nil
    then obtain pre j post ys where "c = pre @ j # post" "conversation_urls pre = []"
      "found_images js (Suc n + length pre) j = x # ys"
      "xs = ys @ find_images_from js (Suc (Suc n + length pre)) post"
      using Cons by fastforce
    then show ?thesis using Nil
      by (intro exI [of _ "i # pre"] exI [of _ j] exI [of _ post] exI [of _ ys])
        (simp add: conversation_urls_def found_nil)
  next
    case (Cons y ys)
    then show ?thesis using Cons.prems
      by (intro exI [of _ "[]"] exI [of _ i] exI [of _ c] exI [of _ ys]) (simp add: conversation_urls_def)
  qed
qed simp

lemma evict_user:
  assumes "user_images js k parts = (loc, b) # ys"
  shows "\<exists>pre url post. parts = pre @ ImagePart url # post \<and> part_urls pre = []
     \<and> loc = UserImage k (length pre)
     \<and> user_images js k (parts[length pre := TextPart t]) = ys
     \<and> part_urls (parts[length pre := TextPart t]) = tl (part_urls parts)"
proof -
  have eq: "user_images js k ps = user_images_from js k 0 ps" for ps
    by (simp add: user_images_def user_images_from_def)
  have "part_urls parts \<noteq> []" using assms user_images_nil [of js k 0 parts] by (simp add: eq)
  then obtain url urls where "part_urls parts = url # urls" by (cases "part_urls parts") auto
  then obtain pre post where parts: "parts = pre @ ImagePart url # post" "part_urls pre = []"
    using first_image by blast
  then show ?thesis using assms
    by (intro exI [of _ pre] exI [of _ url] exI [of _ post]) (auto simp: eq user_images_from_append)
qed

lemma evict_first:
  assumes "find_images js c = (loc, b) # xs"
  shows "\<exists>c' r'. evict_image js loc b (c, r) = Some (c', r') \<and> find_images js c' = xs
           \<and> conversation_urls c' = tl (conversation_urls c)"
proof -
  have eq: "find_images js d = find_images_from js 0 d" for d
    by (simp add: find_images_def find_images_from_def)
  from first_found [of js 0 c] assms obtain pre i post ys where c: "c = pre @ i # post"
    and pre: "conversation_urls pre = []" and i: "found_images js (length pre) i = (loc, b) # ys"
    and xs: "xs = ys @ find_images_from js (Suc (length pre)) post" by (auto simp: eq)
  have at: "nth_opt c (length pre) = Some i" by (simp add: c nth_opt_def)
  have urls: "conversation_urls (c[length pre := j]) = item_urls j @ conversation_urls post" for j
    using pre by (simp add: c conversation_urls_def)
  have locs: "find_images js (c[length pre := j])
      = found_images js (length pre) j @ find_images_from js (Suc (length pre)) post" for j
    using pre by (simp add: c eq find_images_from_append find_images_nil)
  have whole: "conversation_urls c = item_urls i @ conversation_urls post" using urls [of i] by (simp add: c)
  have ne: "item_urls i \<noteq> []" using i found_nil [of js "length pre" i] by simp
  have tl: "tl (conversation_urls c) = tl (item_urls i) @ conversation_urls post"
    using ne by (simp add: whole)
  show ?thesis
  proof (cases i)
    case (UserItem u)
    from i obtain q url post' where q: "ui_content u = q @ ImagePart url # post'"
      "loc = UserImage (length pre) (length q)"
      "user_images js (length pre) ((ui_content u)[length q := TextPart IMAGE_COMPACT_PLACEHOLDER]) = ys"
      "part_urls ((ui_content u)[length q := TextPart IMAGE_COMPACT_PLACEHOLDER]) = tl (part_urls (ui_content u))"
      using evict_user [of js "length pre" "ui_content u" loc b ys IMAGE_COMPACT_PLACEHOLDER] i
      unfolding UserItem found_images.simps by blast
    have "length q < length (ui_content u)" using q(1) by simp
    then show ?thesis
      using q(2-) by (simp add: evict_image_def at UserItem urls locs xs tl Let_def)
  next
    case (ToolResultItem t)
    then obtain url us where us: "part_urls (tr_images t) = url # us"
      using ne by (cases "part_urls (tr_images t)") auto
    then obtain q post' where q: "tr_images t = q @ ImagePart url # post'" "part_urls q = []"
      "part_urls post' = us" using first_image by blast
    have pos: "position_of is_image (tr_images t) = Some (length q)"
      using position_of_first [of q is_image "ImagePart url" post'] no_urls_no_images [OF q(2)] q(1) by auto
    have rem: "remove_nth (length q) (tr_images t) = q @ post'" by (simp add: q(1) remove_nth_def)
    have "part_urls (q @ post') = us" using q by simp
    moreover have "loc = ToolImage (length pre)" "ys = map (\<lambda>url. (ToolImage (length pre), image_url_bytes js url)) us"
      using i [unfolded ToolResultItem found_images.simps us] by auto
    ultimately show ?thesis
      by (simp add: evict_image_def at ToolResultItem pos rem urls locs xs tl us Let_def)
  qed (use ne in auto)
qed

lemma evict_all:
  assumes "find_images js c = xs"
  shows "\<exists>c' r' n. evict_images js target xs (c, r) = Some ((c', r'), n)
     \<and> conversation_urls c' = drop n (conversation_urls c) \<and> n \<le> length (conversation_urls c)
     \<and> (r' \<le> target \<or> conversation_urls c' = [])"
  using assms
proof (induction xs arbitrary: c r)
  case Nil
  then have "conversation_urls c = []"
    using find_images_nil [of js 0 c] by (simp add: find_images_def find_images_from_def)
  then show ?case by simp
next
  case (Cons x xs)
  obtain loc b where x: "x = (loc, b)" by (cases x)
  show ?case
  proof (cases "r \<le> target")
    case False
    obtain c1 r1 where e: "evict_image js loc b (c, r) = Some (c1, r1)" "find_images js c1 = xs"
      "conversation_urls c1 = tl (conversation_urls c)"
      using evict_first [of js c loc b xs r] Cons.prems x by auto
    obtain c' r' n where r: "evict_images js target xs (c1, r1) = Some ((c', r'), n)"
      "conversation_urls c' = drop n (conversation_urls c1)" "n \<le> length (conversation_urls c1)"
      "r' \<le> target \<or> conversation_urls c' = []" using Cons.IH [OF e(2)] by blast
    have "conversation_urls c \<noteq> []"
      using Cons.prems find_images_nil [of js 0 c] by (auto simp: find_images_def find_images_from_def)
    then show ?thesis using False x e(1,3) r
      by (intro exI [of _ c'] exI [of _ r'] exI [of _ "Suc n"]) (cases "conversation_urls c", auto)
  qed (use x in auto)
qed

text \<open>
  The image budget never addresses an image that is not there. What it evicts are the oldest
  images, counted exactly, and only when the request reached the trigger and is over the target;
  it then goes on until the running size is within the target, or no image is left. Below the
  trigger nothing changes.
\<close>

theorem image_budget_evicts_oldest:
  "\<exists>items' outcome. apply_image_budget_with_limits js trigger reclaim items = Some (items', outcome)
     \<and> conversation_urls items' = drop (ib_evicted outcome) (conversation_urls items)
     \<and> ib_evicted outcome + inline_image_count items' = inline_image_count items
     \<and> (if trigger \<le> conversation_body_bytes js items \<and> reclaim < conversation_body_bytes js items
        then \<exists>running. evict_images_to_budget js items (conversation_body_bytes js items) reclaim
                 = Some ((items', running), ib_evicted outcome)
               \<and> (running \<le> reclaim \<or> inline_image_count items' = 0)
        else items' = items \<and> ib_evicted outcome = 0)"
proof (cases "conversation_body_bytes js items \<ge> trigger \<and> conversation_body_bytes js items > reclaim")
  case True
  obtain c' r' n where e: "evict_images_to_budget js items (conversation_body_bytes js items) reclaim = Some ((c', r'), n)"
    "conversation_urls c' = drop n (conversation_urls items)" "n \<le> length (conversation_urls items)"
    "r' \<le> reclaim \<or> conversation_urls c' = []"
    using evict_all [OF refl] unfolding evict_images_to_budget_def by blast
  have "n + inline_image_count c' = inline_image_count items"
    using e(2,3) by (simp flip: urls_count)
  moreover have "r' \<le> reclaim \<or> inline_image_count c' = 0"
    using e(4) by (auto simp flip: urls_count)
  ultimately show ?thesis using True e
    by (auto simp: apply_image_budget_with_limits_def Let_def)
next
  case False
  then show ?thesis by (auto simp: apply_image_budget_with_limits_def Let_def)
qed

end
