(* ===== verification/Spec2Isabelle.thy ===== *)
theory Spec2Isabelle
  imports GB_TokenEstimation GB_RetryPolicy GB_MessageDelivery GB_DeliveryLifecycle
    GB_Interjection GB_Gate GB_ShellFileGate GB_ExecRisk GB_HunkSession GB_HunkLoc
    GB_Rules GB_Classifier GB_ManagerDecisions GB_PolicyProps
    GB_HistoryRepair GB_CompactionText GB_Usage GB_ImageBudget
begin

text \<open>
  Verification of the decision logic of Grok Build, a terminal coding agent in Rust. The
  agent proposes tool calls; before a call runs, the permission layer of
  \<open>src/crates/codegen/xai-grok-workspace/src/permission/\<close> decides whether it is allowed, asked
  about or rejected. This development models that layer from the text of a shell script to the
  decision on the request, and the self-contained state machines of the crates under
  \<open>src/crates/common/\<close> and \<open>src/crates/codegen/\<close> that the agent is built on.

  Permission layer.
  \<^item> \<open>GB_ShellTree\<close> and \<open>GB_ShellWords\<close> model \<open>bash_command_splitting.rs\<close>: which syntax
    trees are taken apart into plain commands, and how wrappers such as \<open>env\<close> or \<open>timeout\<close> and
    prefixes such as \<open>command\<close> are peeled off a command. Proved: an accepted script has no
    unseen node; peeling answers the unique normal form of a step relation unless a flag is raised.
  \<^item> \<open>GB_Paths\<close> models the lexical normalization of \<open>xai-grok-paths\<close>, specified by moves in
    the directory tree.
  \<^item> \<open>GB_PolicyMatch\<close> and \<open>GB_Policy\<close> model the rule types of \<open>types.rs\<close> and \<open>policy.rs\<close>:
    what a rule matches, the compiled policy, the direct pass, the conjunctive check that allows
    a chain, and the Bash command gate with its recursion into inline scripts. Proved: no denied
    command escapes through wrappers or nesting, allowing is conjunctive, silence is earned.
  \<^item> \<open>GB_ShellAccess\<close> and \<open>GB_ShellFileGate\<close> model \<open>shell_access.rs\<close>: the files a script names
    in redirections and operands, the tracking of directory changes, the confirmation of edits
    to protected files. Proved: file rules cannot be dodged through a shell, and under file
    restrictions an operand without a known place and an opaque command are not passed in silence.
  \<^item> \<open>GB_Gate\<close> models \<open>gate_preflight.rs\<close>, which combines the three checks; this theory states the
    end-to-end properties. \<open>GB_ExecRisk\<close> models \<open>exec_risk.rs\<close>: git commands and flags that run
    programs.

  State machines and utilities.
  \<^item> \<open>GB_CircuitBreaker\<close> and \<open>GB_RetryPolicy\<close>: \<open>xai-circuit-breaker\<close>, its sliding window,
    half-open probes, retry policies and registry.
  \<^item> \<open>GB_MessageDelivery\<close> and \<open>GB_DeliveryLifecycle\<close>: \<open>xai-message-delivery-core\<close>, identities,
    addresses and the slot queue that conserves messages.
  \<^item> \<open>GB_PromptQueue\<close> and \<open>GB_Interjection\<close>: prompt combining, the event queue and the framing
    of interjections. \<open>GB_TokenEstimation\<close>: token budgets and the compaction threshold.

  Requests and their grants, above the policy.
  \<^item> \<open>GB_Text\<close> models \<open>util/truncate.rs\<close> of the tools and the line splitting of the standard
    library; \<open>GB_Rules\<close> the text of permission rules (\<open>rules.rs\<close>). Proved: budgets, and that an
    escaped rule parses back.
  \<^item> \<open>GB_Routine\<close> and \<open>GB_Classifier\<close> model the auto mode (\<open>auto_mode\<close>): the deterministic check of a
    script, the findings, the prompt and the answer of the model. Proved: what an allow of either
    rests on, that launcher chains end, and that quoted text forges no heading.
  \<^item> \<open>GB_PermissionState\<close> models the store of grants (\<open>state.rs\<close>), \<open>GB_Grants\<close> and \<open>GB_BashGrants\<close>
    what stored grants and denies say of a request (\<open>manager/mod.rs\<close>, \<open>bash_grants.rs\<close>). Proved:
    a save keeps the grants of another session of the client, a remembered deny rejects exactly the
    scripts with a command it matches, setup commands aside, a grant lets nothing through that carries an unvetted effect, and what a prompt
    shows is what is stored.
  \<^item> \<open>GB_PermissionRequest\<close> and \<open>GB_Manager\<close> model the request, its event and the actor with its
    handles. A request is one function from state and observations to state and response, built
    from a function per stage. \<open>GB_ManagerProps\<close> proves the invariants of every interleaving of
    handle calls and commands as a step relation, \<open>GB_ManagerDecisions\<close> what a decision rests on:
    a policy deny is final, a hook's question reaches the user, an effect needs an authority, and
    a request stores only what it is about.

  The hunk tracker, \<open>xai-hunk-tracker\<close>: what the agent and the user changed, for review.
  \<^item> \<open>GB_Diff\<close> models \<open>diff.rs\<close>: the hunks of two texts, their matching, the patches and the line
    replacement. Proved: hunks cut both texts exactly, and exchanging them all turns the one
    into the other. The diff algorithm is a parameter with its documented reading.
  \<^item> \<open>GB_HunkState\<close>, \<open>GB_HunkActor\<close>, \<open>GB_HunkActions\<close> and \<open>GB_HunkCommands\<close> model the actor: its
    state and the recomputation of hunks, file changes and commits, accept and reject, queries,
    snapshots, and the command loop with its coalescing. Disk and git are the record \<open>host\<close>; a
    hash map is a list in the order the code would iterate it.
  \<^item> \<open>GB_HunkInvariants\<close>, \<open>GB_HunkExact\<close> and \<open>GB_HunkSession\<close> prove what every session keeps: the
    turn index and the pending hunks agree, the hunks of a file describe its two contents,
    accepting settles and rejecting restores a file. The locale \<open>session_invariant\<close> lifts an
    invariant from commands to runs of the actor. \<open>GB_HunkLoc\<close> models the attribution of lines.

  Managed policy and the resolution of permissions.
  \<^item> \<open>GB_PolicyUrl\<close> models \<open>managed_policy/url_match.rs\<close>: the allow and deny entries for URLs, with
    Rust's IPv6 texts. Proved: for a plain host name a deny covers what the allow of the same text
    grants, and the path of an entry has no dot segment left.
  \<^item> \<open>GB_McpPolicy\<close> and \<open>GB_ManagedSettings\<close> model the rest of \<open>managed_policy\<close>: the lists of MCP
    servers and marketplaces, the parsers of the policy keys, the folding of the layers by their
    tier, the verdict on a server. \<open>GB_ClaudeSettings\<close> models which settings files a working
    directory brings and what is read of them, \<open>GB_Resolution\<close> how requirements, managed settings,
    configuration and settings resolve to the rules and the mode of a session.
  \<^item> \<open>GB_PolicyProps\<close> proves what the layering promises: a user's layer lifts no block of an
    administrator, a policy that cannot be read blocks, a pinned session has no catch-all rule of
    a user, a managed mode outranks the rest, and an untrusted project changes nothing. The
    loaders of the layers, the readers of JSON and TOML, git discovery and the \<open>url\<close> crate are
    fields of the records \<open>url_env\<close> and \<open>settings_env\<close>.

  Conversations and what is made of them.
  \<^item> \<open>GB_Search\<close> models searching and replacing in a text. \<open>GB_Conversation\<close> models the items of a
    conversation (\<open>conversation.rs\<close> of the sampling types), their truncation to a prompt, the
    removal of images and the token estimates of the chat state; its properties are those of the
    theories above it.
  \<^item> \<open>GB_HistoryRepair\<close> models \<open>repair_history\<close> and the validation of compacted histories
    (\<open>compaction_utils.rs\<close>). Proved: a repaired history pairs every call with one result, keeps
    answers and all other items, and is stable; the repair in two phases is one pass.
  \<^item> \<open>GB_CompactionText\<close> models the texts of \<open>xai-grok-compaction\<close>: the cleaning of a summary, the
    blocks of user queries, the filters of turns and the checks of errors. Proved: a seed holds no
    control tag, and user queries that do not quote the block tags survive any number of
    compactions. The host's item types are records of functions, as the traits of the code.
  \<^item> \<open>GB_Usage\<close> and \<open>GB_ImageBudget\<close> model \<open>usage.rs\<close> and \<open>image_budget.rs\<close> of the chat state. Proved:
    the totals of a ledger are the sums of its models, and the budget evicts the oldest images until
    the request fits. The sizes the JSON printer gives are parameters.
  \<^item> \<open>GB_Prelude\<close>: machine integers, the string operations of Rust's standard library on byte
    strings, the locale of state machines with an invariant.

  Conventions. A Rust \<open>struct\<close> is a record, an \<open>enum\<close> a datatype, a \<open>Result\<close> a sum or an option,
  a \<open>u64\<close> a 64-bit word where its wrap-around or saturation matters. Strings are UTF-8 bytes.
  What the code takes from outside the repository is a parameter: the tree-sitter parser, its
  field table, the \<open>glob\<close> and \<open>url\<close> crates, the Unicode tables and the file system are the fields
  of the record \<open>world\<close> in \<open>GB_PolicyMatch\<close>.

  Bounds. Recursion into inline scripts has the code's depth of eight, wrapper peeling its eight
  and sixteen rounds, symbolic links its forty steps; each is the recursion argument of the
  model, so the functions are total and what happens at the bound is the code's own answer.

  Not modelled: the transport of prompts and of the classifier's side query, the terminal user
  interface, model sampling and networking, processes and file access themselves, the readers
  of JSON and TOML, and thread interleavings between two atomic accesses (each operation of a
  locked component is one step), the actor of the chat state and the passes of a compaction.
\<close>

section \<open>From a script to the decision on the request\<close>

lemma policy_decision_kinds:
  assumes "gp_direct g \<in> {None, Some Ask, Some Allow} \<union> range (Some \<circ> Reject)"
  shows "policy_decision g \<in> {None, Some Ask, Some Allow} \<union> range (Some \<circ> Reject)"
proof -
  have i: "map_option into_decision d \<in> {None, Some Ask, Some Allow} \<union> range (Some \<circ> Reject)" for d
    by (cases d) (auto simp: into_decision_def split: gate_decision.split)
  have c: "combine_decisions a b \<in> {a, b}" for a b
    using decisions.comb_in [of a b] decisions.comb_is_None [of a b]
    by (cases "combine_decisions a b") auto
  show ?thesis
    unfolding policy_decision_def using assms i c by (metis insertE singletonD)
qed

lemma bash_direct_kinds:
  "evaluate_with_cwd w pol (Bash cmd) cwd \<in> {None, Some Ask, Some Allow} \<union> range (Some \<circ> Reject)"
  using lexical_decisions
  by (simp add: evaluate_with_cwd_def evaluate_with_cwd_details_def native_file_path_def Let_def)

lemma policy_decision_rejects:
  assumes "gp_bash_command g = Some (GateReject r) \<or> gp_shell_file g = Some (GateReject r)"
    and "g = preflight_evaluate w (Some pol) (Bash cmd) cwd auto_mode"
  shows "\<exists>r'. policy_decision g = Some (Reject r')"
proof -
  have "4 \<le> opt_level decision_rank (policy_decision g)"
    using policy_decision_reject assms(1) by blast
  moreover have "policy_decision g \<in> {None, Some Ask, Some Allow} \<union> range (Some \<circ> Reject)"
    unfolding assms(2)
    by (rule policy_decision_kinds) (simp only: preflight_fields bash_direct_kinds)
  ultimately show ?thesis by (auto simp: decision_rank_def)
qed



lemma policy_decision_asks:
  assumes "2 \<le> gate_level (gp_shell_file g)"
    and "g = preflight_evaluate w (Some pol) (Bash cmd) cwd auto_mode"
  shows "policy_decision g = Some Ask \<or> (\<exists>r. policy_decision g = Some (Reject r))"
proof -
  have "3 \<le> opt_level decision_rank (policy_decision g)"
    using assms(1)
    by (cases "gp_shell_file g"; cases "the (gp_shell_file g)")
      (auto simp: policy_decision_level into_decision_def decision_rank_def gate_rank_def)
  moreover have "policy_decision g \<in> {None, Some Ask, Some Allow} \<union> range (Some \<circ> Reject)"
    unfolding assms(2)
    by (rule policy_decision_kinds) (simp only: preflight_fields bash_direct_kinds)
  ultimately show ?thesis by (auto simp: decision_rank_def)
qed

text \<open>
  C2. End to end for files: let the policy reject the direct \<open>Read\<close> or \<open>Edit\<close> of a plain path, by its
  spelling or by the target of its symbolic links, and let a script, or one it hands to a shell up
  to eight levels deep, name that path in a redirection or as an operand of a known command. The
  request is rejected when the working directory is known at that point or the path is absolute,
  and otherwise it is rejected or the user is asked, whatever the other checks and the session
  mode would answer.
\<close>

theorem request_touching_denied_file_is_rejected:
  assumes "reaches w False n cmd s u" and "n \<le> MAX_INLINE_SHELL_DEPTH"
    and "w_parse w s = Some tree" and "(p, m, v) \<in> set (script_operands w (tr_root tree) s u)"
    and "ordinary_operand cwd p"
    and "evaluate_with_cwd w (compile_policy w rules) (shell_access m p) (Some cwd)
         = Some (Reject r)"
    and "g = preflight_evaluate w (Some (compile_policy w rules)) (Bash cmd) cwd auto_mode"
  shows "(\<exists>r'. policy_decision g = Some (Reject r'))
       \<or> \<not> pinned p v \<and> policy_decision g = Some Ask"
proof (cases "pinned p v")
  case True
  obtain q where q: "stands_for w cwd p v q"
    "evaluate_lexical_with_cwd w (compile_policy w rules) (shell_access m q) (Some cwd) = Some (Reject r)"
    using tool_decision_stands [OF assms(5) True assms(6)] by auto
  then have "evaluate_lexical_with_cwd w (compile_policy w rules) (shell_access m q) (operand_cwd cwd p v)
      = Some (Reject r)" using True by (simp add: operand_cwd_def)
  then obtain r' where
    "evaluate_shell_file_access_gate w (compile_policy w rules) cmd cwd = Some (GateReject r')"
    using denied_operand_rejects [OF assms(1-4) q(1)] by blast
  then have "gp_shell_file g = Some (GateReject r')" by (simp add: assms(7) preflight_fields)
  then show ?thesis using policy_decision_rejects [OF _ assms(7)] by blast
next
  case False
  have "pinned p False" by (simp add: pinned_def)
  then obtain q where
    "evaluate_lexical_with_cwd w (compile_policy w rules) (shell_access m q) (Some cwd) = Some (Reject r)"
    using tool_decision_stands [OF assms(5) _ assms(6)] by blast
  then have "cp_has_file_restrictions (compile_policy w rules)" by (rule file_reject_is_restriction)
  then have "2 \<le> gate_level (gp_shell_file g)"
    using unpinned_operand_asks [OF assms(1-4) False, of "compile_policy w rules" cwd]
    by (simp add: assms(7) preflight_fields evaluate_shell_file_access_gate_def)
  then show ?thesis using policy_decision_asks [OF _ assms(7)] False by blast
qed

theorem request_touching_denied_file_is_rejected_witness:
  "\<exists>r'. policy_decision
     (preflight_evaluate cat_world (Some (compile_policy cat_world [write_b_rule]))
        (Bash shell_cat_script) ''/w'' True)
   = Some (Reject r')"
proof -
  have "1 \<le> MAX_INLINE_SHELL_DEPTH" by (simp add: MAX_INLINE_SHELL_DEPTH_def)
  moreover have "w_parse cat_world cat_script = Some cat_tree" by simp
  moreover have "(''b'', ModeWrite, False) \<in> set (script_operands cat_world (tr_root cat_tree) cat_script False)"
    by (simp add: cat_operands)
  moreover have "ordinary_operand ''/w'' ''b''" by code_simp
  moreover have "evaluate_with_cwd cat_world (compile_policy cat_world [write_b_rule])
      (shell_access ModeWrite ''b'') (Some ''/w'') = Some (Reject (deny_reason write_b_rule))"
    by code_simp
  moreover have "pinned ''b'' False" by (simp add: pinned_def)
  ultimately show ?thesis
    using request_touching_denied_file_is_rejected
      [OF cat_reached _ _ _ _ _ refl, of cat_tree "''b''" ModeWrite False "''/w''" "[write_b_rule]"
        "deny_reason write_b_rule" True] by simp
qed

end
